(* ===== verification/Prelude.thy ===== *)
theory Prelude
  imports Main "HOL-Library.Word"
begin

text \<open>
  Shared vocabulary of the development: machine integers, Go's error results and the
  sequencing of calls that may fail, bytes and their big-endian reading, and append-only
  tables read by their last matching row. The collections \<open>result_simps\<close> and
  \<open>table_simps\<close> gather the rewrite rules the component theories use.
\<close>

named_theorems result_simps \<open>rewrite rules for sequenced fallible calls\<close>
named_theorems table_simps \<open>rewrite rules for tables kept as row lists\<close>

subsection \<open>Machine integers and bytes\<close>

type_synonym u64 = "64 word"
type_synonym u32 = "32 word"
type_synonym u8 = "8 word"
type_synonym byte = "8 word"
type_synonym hash256 = "byte list"

subsection \<open>Errors as values\<close>

text \<open>
  \<open>RecordNotFound\<close> is gorm.ErrRecordNotFound, \<open>DbError\<close> a statement or commit the database
  refused, \<open>RpcError\<close> a failed call to the node, \<open>NotFound\<close> the node's codes.NotFound,
  \<open>ResourceExhausted\<close> its codes.ResourceExhausted, \<open>Panic\<close> a Go run-time panic and
  \<open>Err\<close> an error the code itself makes.
\<close>

datatype go_error =
    RecordNotFound
  | DbError
  | RpcError
  | NotFound
  | ResourceExhausted
  | Panic string
  | Err string

type_synonym 'a res = "go_error + 'a"

definition bindE :: "'a res \<Rightarrow> ('a \<Rightarrow> 'b res) \<Rightarrow> 'b res" where
  "bindE m f = (case m of Inl e \<Rightarrow> Inl e | Inr x \<Rightarrow> f x)"

lemma bindE_Inl [simp, result_simps]: "bindE (Inl e) f = Inl e"
  by (simp add: bindE_def)

lemma bindE_Inr [simp, result_simps]: "bindE (Inr x) f = f x"
  by (simp add: bindE_def)

lemma bindE_eq_Inr [result_simps]: "bindE m f = Inr y \<longleftrightarrow> (\<exists>x. m = Inr x \<and> f x = Inr y)"
  by (cases m) auto

lemma bindE_eq_Inl [result_simps]:
  "bindE m f = Inl e \<longleftrightarrow> m = Inl e \<or> (\<exists>x. m = Inr x \<and> f x = Inl e)"
  by (cases m) auto

lemma bindE_InrE:
  assumes "bindE m f = Inr y"
  obtains x where "m = Inr x" and "f x = Inr y"
  using assms by (auto simp: bindE_eq_Inr)

lemma bindE_cong [fundef_cong]:
  "m = m' \<Longrightarrow> (\<And>x. m' = Inr x \<Longrightarrow> f x = f' x) \<Longrightarrow> bindE m f = bindE m' f'"
  by (cases m') auto

lemma bindE_assoc: "bindE (bindE m f) g = bindE m (\<lambda>x. bindE (f x) g)"
  by (cases m) auto

text \<open>A loop whose body may return an error, which then leaves the loop.\<close>

fun foldE :: "('b \<Rightarrow> 'a \<Rightarrow> 'a res) \<Rightarrow> 'b list \<Rightarrow> 'a \<Rightarrow> 'a res" where
  "foldE f [] s = Inr s"
| "foldE f (x # xs) s = bindE (f x s) (foldE f xs)"

lemma foldE_append: "foldE f (xs @ ys) s = bindE (foldE f xs s) (foldE f ys)"
proof (induction xs arbitrary: s)
  case Nil
  then show ?case by simp
next
  case (Cons x xs)
  then show ?case by (cases "f x s") auto
qed

lemma foldE_invariant:
  assumes "foldE f xs s = Inr t" and "P s"
    and "\<And>x u v. x \<in> set xs \<Longrightarrow> P u \<Longrightarrow> f x u = Inr v \<Longrightarrow> P v"
  shows "P t"
  using assms
proof (induction xs arbitrary: s)
  case Nil
  then show ?case by simp
next
  case (Cons x xs)
  from Cons.prems(1) obtain u where u: "f x s = Inr u" "foldE f xs u = Inr t"
    by (auto simp: bindE_eq_Inr)
  then have "P u"
    using Cons.prems(2,3) by auto
  then show ?case
    using Cons.IH [OF u(2)] Cons.prems(3) by auto
qed

lemma foldE_total: "(\<And>x u. x \<in> set xs \<Longrightarrow> \<exists>v. f x u = Inr v) \<Longrightarrow> \<exists>t. foldE f xs s = Inr t"
proof (induction xs arbitrary: s)
  case Nil
  then show ?case by simp
next
  case (Cons x xs)
  then obtain u where "f x s = Inr u" by force
  then show ?case using Cons by simp
qed

lemma foldE_pure: "foldE (\<lambda>x s. Inr (f x s)) xs s = Inr (fold f xs s)"
  by (induction xs arbitrary: s) auto

text \<open>Mapping over a result, and the simulation of one fold by another through it.\<close>

definition map_res :: "('a \<Rightarrow> 'b) \<Rightarrow> 'a res \<Rightarrow> 'b res" where
  "map_res f r = bindE r (\<lambda>x. Inr (f x))"

lemma map_res_simps [simp, result_simps]:
  "map_res f (Inl e) = Inl e"
  "map_res f (Inr x) = Inr (f x)"
  by (simp_all add: map_res_def)

lemma map_res_eq [result_simps]:
  "map_res f r = Inr y \<longleftrightarrow> (\<exists>x. r = Inr x \<and> y = f x)"
  "map_res f r = Inl e \<longleftrightarrow> r = Inl e"
  by (cases r; auto)+

lemma map_res_bindE: "map_res f (bindE r g) = bindE r (\<lambda>x. map_res f (g x))"
  by (cases r) auto

lemma foldE_simulation:
  assumes "\<And>x s. x \<in> set xs \<Longrightarrow> map_res a (f x s) = g x (a s)"
  shows "map_res a (foldE f xs s) = foldE g xs (a s)"
  using assms
proof (induction xs arbitrary: s)
  case Nil
  then show ?case by simp
next
  case (Cons x xs)
  then have step: "map_res a (f x s) = g x (a s)" by simp
  show ?case
  proof (cases "f x s")
    case (Inl e)
    with step have "g x (a s) = Inl e" by simp
    with Inl show ?thesis by simp
  next
    case (Inr u)
    with step have "g x (a s) = Inr (a u)" by simp
    with Inr Cons show ?thesis by simp
  qed
qed

subsection \<open>Operations that keep their state on an error\<close>

text \<open>
  A method that mutates its receiver and may return an error half way leaves behind what it
  did: its model returns the result and the state in either case. \<open>keeps P m\<close> says that \<open>m\<close>
  preserves \<open>P\<close>, whether it succeeds or fails.
\<close>

definition bindS ::
  "('s \<Rightarrow> 'a res \<times> 's) \<Rightarrow> ('a \<Rightarrow> 's \<Rightarrow> 'b res \<times> 's) \<Rightarrow> 's \<Rightarrow> 'b res \<times> 's" where
  "bindS m f s = (case m s of (Inl e, t) \<Rightarrow> (Inl e, t) | (Inr x, t) \<Rightarrow> f x t)"

fun eachS :: "('b \<Rightarrow> 's \<Rightarrow> unit res \<times> 's) \<Rightarrow> 'b list \<Rightarrow> 's \<Rightarrow> unit res \<times> 's" where
  "eachS f [] s = (Inr (), s)"
| "eachS f (x # xs) s = bindS (f x) (\<lambda>_. eachS f xs) s"

definition keeps :: "('s \<Rightarrow> bool) \<Rightarrow> ('s \<Rightarrow> 'a res \<times> 's) \<Rightarrow> bool" where
  "keeps P m \<longleftrightarrow> (\<forall>s. P s \<longrightarrow> P (snd (m s)))"

lemma bindS_simps [simp]:
  "m s = (Inl e, t) \<Longrightarrow> bindS m f s = (Inl e, t)"
  "m s = (Inr x, t) \<Longrightarrow> bindS m f s = f x t"
  by (simp_all add: bindS_def)

lemma bindS_eq_Inr:
  "bindS m f s = (Inr y, u) \<longleftrightarrow> (\<exists>x t. m s = (Inr x, t) \<and> f x t = (Inr y, u))"
  by (auto simp: bindS_def split: prod.splits sum.splits)

lemma keepsD: "keeps P m \<Longrightarrow> P s \<Longrightarrow> m s = (r, t) \<Longrightarrow> P t"
  by (force simp: keeps_def)

lemma keepsI: "(\<And>s r t. P s \<Longrightarrow> m s = (r, t) \<Longrightarrow> P t) \<Longrightarrow> keeps P m"
  unfolding keeps_def by (metis prod.collapse)

lemma keeps_bindS: "keeps P m \<Longrightarrow> (\<And>x. keeps P (f x)) \<Longrightarrow> keeps P (bindS m f)"
  by (fastforce simp: keeps_def bindS_def split: prod.splits sum.splits)

lemma keeps_eachS: "(\<And>x. x \<in> set xs \<Longrightarrow> keeps P (f x)) \<Longrightarrow> keeps P (eachS f xs)"
proof (induction xs)
  case Nil
  then show ?case by (simp add: keeps_def)
next
  case (Cons x xs)
  then have "keeps P (bindS (f x) (\<lambda>_. eachS f xs))"
    by (intro keeps_bindS) auto
  then show ?case by (simp add: keeps_def)
qed

text \<open>Lifting a result that does not touch the state, and a change of the state.\<close>

definition decodedS :: "'a res \<Rightarrow> 's \<Rightarrow> 'a res \<times> 's" where
  "decodedS r s = (r, s)"

definition updS :: "('s \<Rightarrow> 's) \<Rightarrow> 's \<Rightarrow> unit res \<times> 's" where
  "updS f s = (Inr (), f s)"

lemma bindS_updS [simp]: "bindS (updS g) f s = f () (g s)"
  by (simp add: bindS_def updS_def)

lemma bindS_decodedS [simp]:
  "bindS (decodedS r) f s = (case r of Inl e \<Rightarrow> (Inl e, s) | Inr x \<Rightarrow> f x s)"
  by (simp add: bindS_def decodedS_def split: sum.splits)

lemma keeps_updS: "(\<And>s. P s \<Longrightarrow> P (f s)) \<Longrightarrow> keeps P (updS f)"
  by (simp add: keeps_def updS_def)

lemma keeps_decodedS: "keeps P (decodedS r)"
  by (simp add: keeps_def decodedS_def)

text \<open>A loop that appends what its body returns for each element, or leaves with its error.\<close>

fun concatS :: "('b \<Rightarrow> 's \<Rightarrow> 'a list res \<times> 's) \<Rightarrow> 'b list \<Rightarrow> 's \<Rightarrow> 'a list res \<times> 's" where
  "concatS f [] s = (Inr [], s)"
| "concatS f (x # xs) s = bindS (f x) (\<lambda>ys. bindS (concatS f xs) (\<lambda>zs s. (Inr (ys @ zs), s))) s"

text \<open>Indexing a Go slice: out of range is a panic.\<close>

definition idx :: "'a list \<Rightarrow> nat \<Rightarrow> 'a res" where
  "idx xs i = (if i < length xs then Inr (xs ! i) else Inl (Panic ''index out of range''))"

lemma idx_in_range [simp, result_simps]: "i < length xs \<Longrightarrow> idx xs i = Inr (xs ! i)"
  by (simp add: idx_def)

lemma idx_out_of_range [simp, result_simps]:
  "length xs \<le> i \<Longrightarrow> idx xs i = Inl (Panic ''index out of range'')"
  by (simp add: idx_def)

definition last_elem :: "'a list \<Rightarrow> 'a res" where
  "last_elem xs = idx xs (length xs - 1)"

lemma last_elem_Nil [simp]: "last_elem [] = Inl (Panic ''index out of range'')"
  by (simp add: last_elem_def)

lemma last_elem_nonempty [simp]: "xs \<noteq> [] \<Longrightarrow> last_elem xs = Inr (last xs)"
  by (simp add: last_elem_def last_conv_nth)

subsection \<open>Big-endian bytes\<close>

definition be_nat :: "byte list \<Rightarrow> nat" where
  "be_nat bs = foldl (\<lambda>acc b. acc * 256 + unat b) 0 bs"

fun be_bytes :: "nat \<Rightarrow> nat \<Rightarrow> byte list" where
  "be_bytes 0 n = []"
| "be_bytes (Suc k) n = be_bytes k (n div 256) @ [word_of_nat (n mod 256)]"

lemma be_nat_Nil [simp]: "be_nat [] = 0"
  by (simp add: be_nat_def)

lemma be_nat_snoc [simp]: "be_nat (bs @ [b]) = be_nat bs * 256 + unat b"
  by (simp add: be_nat_def)

lemma length_be_bytes [simp]: "length (be_bytes k n) = k"
  by (induction k arbitrary: n) auto

lemma unat_byte_of_nat [simp]: "unat (word_of_nat (n mod 256) :: byte) = n mod 256"
  by (simp add: unat_of_nat)

lemma be_nat_be_bytes: "be_nat (be_bytes k n) = n mod 256 ^ k"
proof (induction k arbitrary: n)
  case 0
  then show ?case by simp
next
  case (Suc k)
  have "be_nat (be_bytes (Suc k) n) = (n div 256 mod 256 ^ k) * 256 + n mod 256"
    by (simp add: Suc.IH)
  also have "\<dots> = n mod (256 * 256 ^ k)"
    by (simp add: mod_mult2_eq)
  finally show ?case by simp
qed

lemma be_nat_append: "be_nat (as @ bs) = be_nat as * 256 ^ length bs + be_nat bs"
proof (induction bs rule: rev_induct)
  case Nil
  then show ?case by simp
next
  case (snoc b bs)
  then show ?case
    by (simp add: append_assoc [symmetric] algebra_simps del: append_assoc)
qed

lemma be_nat_bound: "be_nat bs < 256 ^ length bs"
proof (induction bs rule: rev_induct)
  case Nil
  then show ?case by simp
next
  case (snoc b bs)
  have "unat b < 256" using unsigned_less [where w = b and 'a = nat] by simp
  with snoc show ?case by simp
qed

lemma be_nat_replicate_0 [simp]: "be_nat (replicate k 0) = 0"
  by (induction k) (auto simp: replicate_append_same [symmetric] simp del: replicate_append_same)

lemma be_bytes_be_nat: "be_bytes (length bs) (be_nat bs) = bs"
proof (induction bs rule: rev_induct)
  case Nil
  then show ?case by simp
next
  case (snoc b bs)
  have "unat b < 256" using unsigned_less [where w = b and 'a = nat] by simp
  then have "(be_nat bs * 256 + unat b) div 256 = be_nat bs"
    and "(be_nat bs * 256 + unat b) mod 256 = unat b" by auto
  with snoc show ?case by simp
qed

text \<open>binary.BigEndian.Uint64 of the eight bytes given.\<close>

definition be_uint64 :: "byte list \<Rightarrow> u64" where
  "be_uint64 bs = word_of_nat (be_nat (take 8 bs))"

lemma be_uint64_be_bytes: "be_uint64 (be_bytes 8 (unat x)) = (x :: u64)"
proof -
  have "unat x < 256 ^ 8" using unsigned_less [where w = x and 'a = nat] by simp
  then show ?thesis by (simp add: be_uint64_def be_nat_be_bytes)
qed

definition hex_digit :: "nat \<Rightarrow> char" where
  "hex_digit n = (if n < 10 then char_of (48 + n) else char_of (87 + n))"

definition hex_encode :: "byte list \<Rightarrow> string" where
  "hex_encode bs = concat (map (\<lambda>b. [hex_digit (unat b div 16), hex_digit (unat b mod 16)]) bs)"

text \<open>\<open>strings.Contains(s, p)\<close>.\<close>

fun str_contains :: "string \<Rightarrow> string \<Rightarrow> bool" where
  "str_contains s p = (take (length p) s = p \<or> (case s of [] \<Rightarrow> False | c # cs \<Rightarrow> str_contains cs p))"

text \<open>\<open>hex.DecodeString\<close>.\<close>

definition hex_value :: "char \<Rightarrow> nat option" where
  "hex_value c =
     (let n = of_char c :: nat
      in if 48 \<le> n \<and> n \<le> 57 then Some (n - 48)
         else if 97 \<le> n \<and> n \<le> 102 then Some (n - 87)
         else if 65 \<le> n \<and> n \<le> 70 then Some (n - 55) else None)"

fun hex_decode :: "string \<Rightarrow> byte list option" where
  "hex_decode [] = Some []"
| "hex_decode [c] = None"
| "hex_decode (c # d # cs) =
     (case (hex_value c, hex_value d, hex_decode cs) of
        (Some h, Some l, Some bs) \<Rightarrow> Some (word_of_nat (16 * h + l) # bs)
      | _ \<Rightarrow> None)"

subsection \<open>Tables kept as row lists\<close>

text \<open>
  A table whose rows are only ever inserted, with an auto-increment key, is the list of its
  rows in insertion order: \<open>ORDER BY id DESC LIMIT 1\<close> is the last matching row and
  \<open>sum(amount)\<close> the sum over the matching rows.
\<close>

definition last_row :: "('r \<Rightarrow> bool) \<Rightarrow> 'r list \<Rightarrow> 'r option" where
  "last_row p rows = find p (rev rows)"

definition sum_rows :: "('r \<Rightarrow> bool) \<Rightarrow> ('r \<Rightarrow> int) \<Rightarrow> 'r list \<Rightarrow> int" where
  "sum_rows p f rows = sum_list (map f (filter p rows))"

lemma last_row_Nil [simp, table_simps]: "last_row p [] = None"
  by (simp add: last_row_def)

lemma last_row_snoc [simp, table_simps]:
  "last_row p (rows @ [r]) = (if p r then Some r else last_row p rows)"
  by (simp add: last_row_def)

lemma last_row_SomeD: "last_row p rows = Some r \<Longrightarrow> r \<in> set rows \<and> p r"
  by (induction rows rule: rev_induct) (auto split: if_splits)

lemma last_row_None_iff: "last_row p rows = None \<longleftrightarrow> (\<forall>r \<in> set rows. \<not> p r)"
  by (induction rows rule: rev_induct) auto

lemma last_row_append:
  "last_row p (xs @ ys) = (case last_row p ys of None \<Rightarrow> last_row p xs | Some r \<Rightarrow> Some r)"
  by (induction ys rule: rev_induct)
    (auto simp: append_assoc [symmetric] simp del: append_assoc split: option.splits)

lemma sum_rows_Nil [simp, table_simps]: "sum_rows p f [] = 0"
  by (simp add: sum_rows_def)

lemma sum_rows_append [simp, table_simps]:
  "sum_rows p f (xs @ ys) = sum_rows p f xs + sum_rows p f ys"
  by (simp add: sum_rows_def)

lemma sum_rows_Cons [simp, table_simps]:
  "sum_rows p f (r # rs) = (if p r then f r else 0) + sum_rows p f rs"
  by (simp add: sum_rows_def)

lemma sum_rows_none: "(\<And>r. r \<in> set rows \<Longrightarrow> \<not> p r) \<Longrightarrow> sum_rows p f rows = 0"
  by (induction rows) auto

end
