(* ===== verification/Chain.thy ===== *)
theory Chain
  imports Prelude
begin

text \<open>
  The chain data every plugin reads: blocks, sealed actions, receipts, event logs and
  transaction logs. The types are those of iotex-core, reduced to the fields the code under
  src/ reads: a sealed envelope holds the hash and the sender address that iotex-core
  computes from it, a block its height, time stamp, actions and receipts. Addresses are the
  strings \<open>address.String()\<close> gives. Also here: Go's base-10 integer parsing, and the action
  names of kernel/action_type.go.
\<close>

subsection \<open>Actions\<close>

datatype endorsement_op = OpIntentToRevoke | OpEndorse | OpRevoke | OpOther u8

datatype reward_type = BlockReward | EpochReward | VoterRewardChunk | OtherReward

datatype action =
    CreateStake string int u32 bool \<comment> \<open>candidate name, amount, duration, auto stake\<close>
  | DepositToStake u64 int \<comment> \<open>bucket, amount\<close>
  | Unstake u64
  | WithdrawStake u64
  | TransferStake u64 string \<comment> \<open>bucket, new voter\<close>
  | Restake u64 u32 bool \<comment> \<open>bucket, duration, auto stake\<close>
  | ChangeCandidate u64 string \<comment> \<open>bucket, candidate name\<close>
  | MigrateStake u64
  | CandidateRegister string string "string option" string int u32 bool "byte list"
      \<comment> \<open>name, operator, reward, owner, amount, duration, auto stake, payload\<close>
  | CandidateUpdate string string "string option" \<comment> \<open>name, operator, reward\<close>
  | CandidateTransferOwnership "string option"
  | CandidateActivate u64
  | CandidateEndorsement u64 endorsement_op
  | CandidateDeactivate bool \<comment> \<open>whether the operation is Confirm\<close>
  | ScheduleCandidateDeactivation string \<comment> \<open>delegate\<close>
  | SetVoterRewardOptIn
  | GrantReward reward_type
  | OtherAction string \<comment> \<open>its Go type name, as \<open>%T\<close> prints it\<close>

record envelope =
  e_hash :: hash256
  e_sender :: string
  e_action :: action

subsection \<open>Receipts and blocks\<close>

record log =
  log_address :: string
  log_topics :: "hash256 list"
  log_data :: "byte list"

record tx_log =
  tl_type :: nat
  tl_amount :: int
  tl_sender :: string
  tl_recipient :: string

record receipt =
  r_status :: u64
  r_action_hash :: hash256
  r_gas_consumed :: u64
  r_tx_index :: nat
  r_logs :: "log list"
  r_tx_logs :: "tx_log list"

record block =
  b_height :: u64
  b_timestamp :: int
  b_actions :: "envelope list"
  b_receipts :: "receipt list"

definition receipt_success :: u64 where
  "receipt_success = 1"

text \<open>
  The map from action hash to envelope that every handler builds first: where two envelopes
  have one hash, the later one is found.
\<close>

definition actions_by_hash :: "envelope list \<Rightarrow> hash256 \<rightharpoonup> envelope" where
  "actions_by_hash acts h = find (\<lambda>e. e_hash e = h) (rev acts)"

lemma actions_by_hash_SomeD:
  "actions_by_hash acts h = Some e \<Longrightarrow> e \<in> set acts \<and> e_hash e = h"
  unfolding actions_by_hash_def by (auto simp: find_Some_iff) (metis nth_mem set_rev length_rev)

text \<open>
  The loop of every handler over the receipts of a block: failed receipts and receipts
  without action are passed over, an error leaves the loop.
\<close>

definition on_receipts ::
  "(envelope \<Rightarrow> receipt \<Rightarrow> 's \<Rightarrow> 's res) \<Rightarrow> block \<Rightarrow> 's \<Rightarrow> 's res" where
  "on_receipts step blk =
     foldE (\<lambda>r s.
       if r_status r \<noteq> receipt_success then Inr s
       else case actions_by_hash (b_actions blk) (r_action_hash r) of
              None \<Rightarrow> Inr s
            | Some e \<Rightarrow> step e r s) (b_receipts blk)"

lemma on_receipts_invariant:
  assumes "on_receipts step blk s = Inr t" and "P s"
    and "\<And>e r u v. P u \<Longrightarrow> step e r u = Inr v \<Longrightarrow> P v"
  shows "P t"
  using assms(1,2) unfolding on_receipts_def
  by (rule foldE_invariant) (auto intro: assms(3) split: if_splits option.splits)

lemma on_receipts_simulation:
  assumes "\<And>e r s. map_res a (step e r s) = step' e r (a s)"
  shows "map_res a (on_receipts step blk s) = on_receipts step' blk (a s)"
  unfolding on_receipts_def
  by (rule foldE_simulation) (auto simp: assms split: option.splits)

subsection \<open>Base-10 integers\<close>

definition digit_value :: "char \<Rightarrow> nat option" where
  "digit_value c =
     (let n = of_char c :: nat in if 48 \<le> n \<and> n \<le> 57 then Some (n - 48) else None)"

fun parse_digits :: "nat \<Rightarrow> string \<Rightarrow> nat option" where
  "parse_digits acc [] = Some acc"
| "parse_digits acc (c # cs) =
     (case digit_value c of None \<Rightarrow> None | Some d \<Rightarrow> parse_digits (acc * 10 + d) cs)"

definition parse_nat :: "string \<Rightarrow> nat option" where
  "parse_nat s = (if s = [] then None else parse_digits 0 s)"

text \<open>\<open>new(big.Int).SetString(s, 10)\<close>: an optional sign and at least one digit.\<close>

definition parse_int10 :: "string \<Rightarrow> int option" where
  "parse_int10 s =
     (case s of
        [] \<Rightarrow> None
      | c # cs \<Rightarrow>
          if c = CHR ''-'' then map_option (\<lambda>n. - int n) (parse_nat cs)
          else if c = CHR ''+'' then map_option int (parse_nat cs)
          else map_option int (parse_nat s))"

text \<open>\<open>strconv.ParseUint(s, 10, bits)\<close>: digits only, and a value that fits.\<close>

definition parse_uint :: "nat \<Rightarrow> string \<Rightarrow> nat res" where
  "parse_uint bits s =
     (case parse_nat s of
        None \<Rightarrow> Inl (Err ''invalid syntax'')
      | Some n \<Rightarrow> if n < 2 ^ bits then Inr n else Inl (Err ''value out of range''))"

text \<open>Printing a natural number in base 10, as \<open>%d\<close> does.\<close>

fun show_nat :: "nat \<Rightarrow> string" where
  "show_nat n = (if n < 10 then [char_of (48 + n)] else show_nat (n div 10) @ [char_of (48 + n mod 10)])"

declare show_nat.simps [simp del]

lemma digit_value_char: "d < 10 \<Longrightarrow> digit_value (char_of (48 + d)) = Some d"
  by (simp add: digit_value_def Let_def)

lemma parse_digits_append:
  "parse_digits acc (xs @ ys) =
     (case parse_digits acc xs of None \<Rightarrow> None | Some a \<Rightarrow> parse_digits a ys)"
  by (induction xs arbitrary: acc) (auto split: option.splits)

lemma show_nat_nonempty [simp]: "show_nat n \<noteq> []"
  by (subst show_nat.simps) simp

lemma parse_digits_show_nat: "parse_digits 0 (show_nat n) = Some n"
proof (induction n rule: show_nat.induct)
  case (1 n)
  show ?case
  proof (cases "n < 10")
    case True
    then show ?thesis by (subst show_nat.simps) (simp add: digit_value_char)
  next
    case False
    with 1 have "parse_digits 0 (show_nat (n div 10)) = Some (n div 10)" by simp
    moreover have "n div 10 * 10 + n mod 10 = n" by simp
    ultimately show ?thesis
      using False by (subst show_nat.simps) (simp add: parse_digits_append digit_value_char)
  qed
qed

lemma parse_nat_show_nat [simp]: "parse_nat (show_nat n) = Some n"
  by (simp add: parse_nat_def parse_digits_show_nat)

lemma digits_of_show_nat: "c \<in> set (show_nat n) \<Longrightarrow> \<exists>d < 10. c = char_of (48 + d :: nat)"
proof (induction n rule: show_nat.induct)
  case (1 n)
  show ?case
  proof (cases "n < 10")
    case True
    with "1.prems" show ?thesis by (subst (asm) show_nat.simps) auto
  next
    case False
    with "1.prems" have "c \<in> set (show_nat (n div 10)) \<or> c = char_of (48 + n mod 10)"
      by (subst (asm) show_nat.simps) auto
    moreover have "n mod 10 < 10" by simp
    ultimately show ?thesis using "1.IH" False by blast
  qed
qed

lemma parse_int10_show_nat [simp]: "parse_int10 (show_nat n) = Some (int n)"
proof -
  obtain c cs where c: "show_nat n = c # cs" by (cases "show_nat n") auto
  then obtain d :: nat where d: "d < 10" "c = char_of (48 + d)"
    using digits_of_show_nat [of c n] by auto
  then have "of_char c = 48 + d" by simp
  then have "c \<noteq> CHR ''-''" "c \<noteq> CHR ''+''" by auto
  then show ?thesis using parse_nat_show_nat [of n] by (simp add: parse_int10_def c)
qed

text \<open>\<open>String()\<close> of a big.Int.\<close>

definition show_int :: "int \<Rightarrow> string" where
  "show_int i = (if i < 0 then CHR ''-'' # show_nat (nat (- i)) else show_nat (nat i))"

lemma parse_int10_show_int [simp]: "parse_int10 (show_int i) = Some i"
  by (simp add: show_int_def) (simp add: parse_int10_def)

subsection \<open>Action names\<close>

text \<open>kernel/action_type.go. \<open>type_name\<close> is \<open>fmt.Sprintf("%T", act)\<close>.\<close>

fun type_name :: "action \<Rightarrow> string" where
  "type_name (CreateStake _ _ _ _) = ''*action.CreateStake''"
| "type_name (DepositToStake _ _) = ''*action.DepositToStake''"
| "type_name (Unstake _) = ''*action.Unstake''"
| "type_name (WithdrawStake _) = ''*action.WithdrawStake''"
| "type_name (TransferStake _ _) = ''*action.TransferStake''"
| "type_name (Restake _ _ _) = ''*action.Restake''"
| "type_name (ChangeCandidate _ _) = ''*action.ChangeCandidate''"
| "type_name (MigrateStake _) = ''*action.MigrateStake''"
| "type_name (CandidateRegister _ _ _ _ _ _ _ _) = ''*action.CandidateRegister''"
| "type_name (CandidateUpdate _ _ _) = ''*action.CandidateUpdate''"
| "type_name (CandidateTransferOwnership _) = ''*action.CandidateTransferOwnership''"
| "type_name (CandidateActivate _) = ''*action.CandidateActivate''"
| "type_name (CandidateEndorsement _ _) = ''*action.CandidateEndorsement''"
| "type_name (CandidateDeactivate _) = ''*action.CandidateDeactivate''"
| "type_name (ScheduleCandidateDeactivation _) = ''*action.ScheduleCandidateDeactivation''"
| "type_name SetVoterRewardOptIn = ''*action.SetVoterRewardOptIn''"
| "type_name (GrantReward _) = ''*action.GrantReward''"
| "type_name (OtherAction t) = t"

definition to_lower :: "char \<Rightarrow> char" where
  "to_lower c =
     (let n = of_char c :: nat in if 65 \<le> n \<and> n \<le> 90 then char_of (n + 32) else c)"

definition firstLowerCase :: "string \<Rightarrow> string" where
  "firstLowerCase s = (case s of [] \<Rightarrow> s | c # cs \<Rightarrow> to_lower c # cs)"

definition trim_prefix :: "string \<Rightarrow> string \<Rightarrow> string" where
  "trim_prefix p s = (if take (length p) s = p then drop (length p) s else s)"

definition ActionTypeString :: "action \<Rightarrow> string" where
  "ActionTypeString act =
     (let generic = firstLowerCase (trim_prefix ''*action.'' (type_name act))
      in case act of
           GrantReward t \<Rightarrow>
             (case t of
                BlockReward \<Rightarrow> ''grantBlockReward''
              | EpochReward \<Rightarrow> ''grantEpochReward''
              | VoterRewardChunk \<Rightarrow> ''grantVoterRewardChunk''
              | OtherReward \<Rightarrow> generic)
         | _ \<Rightarrow> generic)"

end
