(* ===== verification/VoteBuckets.thy ===== *)
theory VoteBuckets
  imports Chain
begin

text \<open>
  Reading a native bucket from the node (\<open>GetStakingBucketByID\<close> of
  service/staking_bucket/util.go and plugins/candidate/util.go). The node's listing of the
  buckets at a height is an argument; a page is the part of it that offset and limit name.
\<close>

record vote_bucket =
  vb_index :: u64
  vb_candidate :: string
  vb_staked_amount :: string
  vb_auto_stake :: bool
  vb_staked_duration :: u32
  vb_endorsement_expire :: u64

definition readBucketsLimit :: u32 where
  "readBucketsLimit = 300000"

definition getStakingBuckets :: "vote_bucket list \<Rightarrow> u32 \<Rightarrow> u32 \<Rightarrow> vote_bucket list" where
  "getStakingBuckets listing offset limit = take (unat limit) (drop (unat offset) listing)"

text \<open>
  The loop over the pages. The first argument bounds the rounds; \<open>GetStakingBucketByID\<close> gives
  one more than there are full pages, after which the short page has ended the loop.
\<close>

fun scan_pages :: "nat \<Rightarrow> u32 \<Rightarrow> vote_bucket list \<Rightarrow> u64 \<Rightarrow> vote_bucket option" where
  "scan_pages 0 i listing bid = None"
| "scan_pages (Suc n) i listing bid =
     (let page = getStakingBuckets listing (i * readBucketsLimit) readBucketsLimit in
      case find (\<lambda>b. vb_index b = bid) page of
        Some b \<Rightarrow> Some b
      | None \<Rightarrow> if length page < unat readBucketsLimit then None
                else scan_pages n (i + 1) listing bid)"

definition GetStakingBucketByID ::
  "(u64 \<Rightarrow> vote_bucket list res) \<Rightarrow> u64 \<Rightarrow> u64 \<Rightarrow> vote_bucket option res" where
  "GetStakingBucketByID node bid height =
     bindE (node height) (\<lambda>listing.
       Inr (scan_pages (Suc (length listing div unat readBucketsLimit)) 0 listing bid))"

lemma find_append: "find P (xs @ ys) = (case find P xs of None \<Rightarrow> find P ys | Some x \<Rightarrow> Some x)"
  by (induction xs) auto

lemma limit_nat [simp]: "unat readBucketsLimit = 300000"
  by (simp add: readBucketsLimit_def)

lemma scan_pages_finds:
  assumes "unat i * 300000 \<le> length listing" and "length listing + 300000 < 2 ^ 32"
    and "length listing < (unat i + n) * 300000"
  shows "scan_pages n i listing bid = find (\<lambda>b. vb_index b = bid) (drop (unat i * 300000) listing)"
  using assms(1,3)
proof (induction n arbitrary: i)
  case 0
  then show ?case by simp
next
  case (Suc n)
  have small: "unat i * 300000 + 300000 < 2 ^ 32" using Suc.prems(1) assms(2) by simp
  have off: "unat (i * readBucketsLimit) = unat i * 300000"
    using small by (simp add: unat_mult_lem [THEN iffD1] unat_word_ariths)
  let ?rest = "drop (unat i * 300000) listing"
  have page: "getStakingBuckets listing (i * readBucketsLimit) readBucketsLimit = take 300000 ?rest"
    by (simp add: getStakingBuckets_def off)
  have split: "find (\<lambda>b. vb_index b = bid) ?rest
      = (case find (\<lambda>b. vb_index b = bid) (take 300000 ?rest) of
           None \<Rightarrow> find (\<lambda>b. vb_index b = bid) (drop 300000 ?rest) | Some x \<Rightarrow> Some x)"
    by (metis append_take_drop_id find_append)
  show ?case
  proof (cases "length ?rest < 300000")
    case True
    then have "drop 300000 ?rest = []" by simp
    with split page True show ?thesis by (auto simp: Let_def split: option.splits)
  next
    case False
    have next_i: "unat (i + 1) = unat i + 1"
      using small unsigned_less [where w = i and 'a = nat] by (simp add: unat_plus_if')
    have "scan_pages n (i + 1) listing bid
        = find (\<lambda>b. vb_index b = bid) (drop (unat (i + 1) * 300000) listing)"
      by (rule Suc.IH) (use Suc.prems False next_i in \<open>auto simp: algebra_simps\<close>)
    also have "drop (unat (i + 1) * 300000) listing = drop 300000 ?rest"
      unfolding next_i by (simp add: algebra_simps)
    finally show ?thesis using split page False by (auto simp: Let_def split: option.splits)
  qed
qed

text \<open>
  Paging through the node's buckets is a search of the whole listing: the bucket of that
  index is found wherever it is, a missing one is reported as such, and the loop ends, as
  long as the listing is short enough for the 32-bit offset.
\<close>

theorem GetStakingBucketByID_finds:
  assumes "node height = Inr listing" and "length listing + 300000 < 2 ^ 32"
  shows "GetStakingBucketByID node bid height = Inr (find (\<lambda>b. vb_index b = bid) listing)"
proof -
  have "length listing < (0 + Suc (length listing div 300000)) * 300000"
    using div_mult_mod_eq [of "length listing" 300000] mod_less_divisor [of 300000 "length listing"]
    by simp
  from scan_pages_finds [of 0 listing, OF _ assms(2)] this assms(1) show ?thesis
    by (simp add: GetStakingBucketByID_def del: scan_pages.simps)
qed

definition example_bucket :: vote_bucket where
  "example_bucket = \<lparr>vb_index = 7, vb_candidate = ''io1c'', vb_staked_amount = ''100'',
     vb_auto_stake = True, vb_staked_duration = 91, vb_endorsement_expire = 0\<rparr>"

theorem GetStakingBucketByID_finds_witness:
  "GetStakingBucketByID (\<lambda>h. Inr [example_bucket]) 7 12 = Inr (Some example_bucket)
   \<and> GetStakingBucketByID (\<lambda>h. Inr [example_bucket]) 8 12 = Inr None"
  by (subst (1 2) GetStakingBucketByID_finds [where listing = "[example_bucket]"])
    (simp_all add: example_bucket_def)

end
