(* ===== verification/Ledger.thy ===== *)
theory Ledger
  imports Chain
begin

text \<open>
  What the staking plugins (service/staking_bucket, service/staking_actions and
  plugins/account_vote) have in common: a table of bucket rows that is only ever inserted
  into. The current amount of a bucket is the sum over its rows, everything else about it is
  what its last row says. The interface \<open>block_table\<close> states what the handlers keep.
\<close>

subsection \<open>Rows\<close>

text \<open>
  The columns shared by \<open>staking_actions\<close>, \<open>staking_buckets\<close> and \<open>account_vote\<close>; each plugin
  extends the record by its own. \<open>lr_owner\<close> is \<open>owner_address\<close> (\<open>address\<close> in account_vote).
  Amounts are decimals without fraction.
\<close>

record ledger_row =
  lr_height :: u64
  lr_bucket :: u64
  lr_owner :: string
  lr_candidate :: string
  lr_amount :: int
  lr_act_type :: string
  lr_auto_stake :: bool
  lr_duration :: u32

text \<open>\<open>select sum(amount) where bucket_id = ?\<close>, the NULL of no row read as zero.\<close>

definition bucket_sum :: "u64 \<Rightarrow> ('x ledger_row_scheme) list \<Rightarrow> int" where
  "bucket_sum b = sum_rows (\<lambda>r. lr_bucket r = b) lr_amount"

definition bucket_last :: "u64 \<Rightarrow> ('x ledger_row_scheme) list \<Rightarrow> 'x ledger_row_scheme option" where
  "bucket_last b = last_row (\<lambda>r. lr_bucket r = b)"

text \<open>
  \<open>getFixBucketSumAmountByBucketID\<close>: zero unless the bucket has an Unstake row, else the sum
  over its other rows.
\<close>

definition fix_sum :: "u64 \<Rightarrow> ('x ledger_row_scheme) list \<Rightarrow> int" where
  "fix_sum b rows =
     (if \<exists>r \<in> set rows. lr_bucket r = b \<and> lr_act_type r = ''Unstake''
      then sum_rows (\<lambda>r. lr_bucket r = b \<and> lr_act_type r \<noteq> ''Unstake'') lr_amount rows
      else 0)"

lemma bucket_sum_simps [simp, table_simps]:
  "bucket_sum b [] = 0"
  "bucket_sum b (xs @ ys) = bucket_sum b xs + bucket_sum b ys"
  "bucket_sum b (r # rs) = (if lr_bucket r = b then lr_amount r else 0) + bucket_sum b rs"
  by (simp_all add: bucket_sum_def)

lemma bucket_last_simps [simp, table_simps]:
  "bucket_last b [] = None"
  "bucket_last b (rows @ [r]) = (if lr_bucket r = b then Some r else bucket_last b rows)"
  "bucket_last b (rows @ [r, r']) =
     (if lr_bucket r' = b then Some r' else if lr_bucket r = b then Some r else bucket_last b rows)"
  using last_row_snoc [of "\<lambda>r. lr_bucket r = b" "rows @ [r]" r']
  by (simp_all add: bucket_last_def)

lemma bucket_last_SomeD: "bucket_last b rows = Some r \<Longrightarrow> r \<in> set rows \<and> lr_bucket r = b"
  unfolding bucket_last_def by (drule last_row_SomeD) simp

text \<open>If the Unstake rows carry nothing, the correction repeats the whole sum.\<close>

lemma fix_sum_doubles:
  assumes "\<And>r. r \<in> set rows \<Longrightarrow> lr_act_type r = ''Unstake'' \<Longrightarrow> lr_amount r = 0"
    and "r0 \<in> set rows" and "lr_bucket r0 = b" and "lr_act_type r0 = ''Unstake''"
  shows "fix_sum b rows = bucket_sum b rows"
proof -
  have "sum_rows (\<lambda>r. lr_bucket r = b \<and> lr_act_type r \<noteq> ''Unstake'') lr_amount rows
      = bucket_sum b rows"
    using assms(1) by (induction rows) auto
  with assms(2-4) show ?thesis by (auto simp: fix_sum_def)
qed

subsection \<open>The abstract bucket\<close>

text \<open>What the rows of a bucket say about it: the abstraction the plugins are specified by.\<close>

record bucket_view =
  bv_amount :: int
  bv_owner :: string
  bv_candidate :: string
  bv_auto_stake :: bool
  bv_duration :: u32

definition view :: "('x ledger_row_scheme) list \<Rightarrow> u64 \<Rightarrow> bucket_view option" where
  "view rows b =
     map_option (\<lambda>r. \<lparr>bv_amount = bucket_sum b rows, bv_owner = lr_owner r,
                       bv_candidate = lr_candidate r, bv_auto_stake = lr_auto_stake r,
                       bv_duration = lr_duration r\<rparr>) (bucket_last b rows)"

lemma view_Nil [simp]: "view [] = Map.empty"
  by (simp add: view_def fun_eq_iff)

text \<open>A row inserted changes its own bucket, and nothing else.\<close>

lemma view_snoc:
  "view (rows @ [r]) = (view rows)(lr_bucket r \<mapsto>
     \<lparr>bv_amount = bucket_sum (lr_bucket r) rows + lr_amount r, bv_owner = lr_owner r,
      bv_candidate = lr_candidate r, bv_auto_stake = lr_auto_stake r,
      bv_duration = lr_duration r\<rparr>)"
  by (auto simp: view_def fun_eq_iff)

lemma view_snoc2:
  "lr_bucket r' = lr_bucket r \<Longrightarrow> view (rows @ [r, r']) = (view rows)(lr_bucket r \<mapsto>
     \<lparr>bv_amount = bucket_sum (lr_bucket r) rows + lr_amount r + lr_amount r', bv_owner = lr_owner r',
      bv_candidate = lr_candidate r', bv_auto_stake = lr_auto_stake r',
      bv_duration = lr_duration r'\<rparr>)"
  by (auto simp: view_def fun_eq_iff)

lemma view_of_last:
  "bucket_last b rows = Some r \<Longrightarrow> view rows b =
     Some \<lparr>bv_amount = bucket_sum b rows, bv_owner = lr_owner r, bv_candidate = lr_candidate r,
           bv_auto_stake = lr_auto_stake r, bv_duration = lr_duration r\<rparr>"
  by (simp add: view_def)

lemma bucket_last_None_sum: "bucket_last b rows = None \<Longrightarrow> bucket_sum b rows = 0"
  unfolding bucket_last_def bucket_sum_def
  by (rule sum_rows_none) (simp add: last_row_None_iff)

definition amount_in :: "(u64 \<rightharpoonup> bucket_view) \<Rightarrow> u64 \<Rightarrow> int" where
  "amount_in v b = (case v b of None \<Rightarrow> 0 | Some x \<Rightarrow> bv_amount x)"

lemma amount_in_view [simp]: "amount_in (view rows) b = bucket_sum b rows"
  by (simp add: amount_in_def view_def bucket_last_None_sum split: option.split)

lemma view_None_iff: "view rows b = None \<longleftrightarrow> bucket_last b rows = None"
  by (simp add: view_def)

subsection \<open>Tables that grow block by block\<close>

text \<open>
  A handler that only inserts rows, all of them with the block's height. With blocks in
  order the rows are then ordered by height, and the newest row by height is the last one.
\<close>

locale block_table =
  fixes handle :: "block \<Rightarrow> 's \<Rightarrow> 's res"
    and rows :: "'s \<Rightarrow> 'r list"
    and height_of :: "'r \<Rightarrow> u64"
  assumes inserts: "handle b s = Inr s' \<Longrightarrow>
    \<exists>new. rows s' = rows s @ new \<and> (\<forall>r \<in> set new. height_of r = b_height b)"

text \<open>\<open>ORDER BY block_height DESC, id DESC LIMIT 1\<close> over the rows that satisfy \<open>p\<close>.\<close>

definition newest :: "('r \<Rightarrow> u64) \<Rightarrow> ('r \<Rightarrow> bool) \<Rightarrow> 'r list \<Rightarrow> 'r option" where
  "newest hgt p rows =
     fold (\<lambda>r best. if p r \<and> (case best of None \<Rightarrow> True | Some r' \<Rightarrow> hgt r' \<le> hgt r)
                    then Some r else best) rows None"

lemma newest_Nil [simp]: "newest hgt p [] = None"
  by (simp add: newest_def)

lemma newest_snoc [simp]:
  "newest hgt p (rows @ [r]) =
     (if p r \<and> (case newest hgt p rows of None \<Rightarrow> True | Some r' \<Rightarrow> hgt r' \<le> hgt r)
      then Some r else newest hgt p rows)"
  by (simp add: newest_def)

lemma newest_SomeD: "newest hgt p rows = Some r \<Longrightarrow> r \<in> set rows \<and> p r"
  by (induction rows rule: rev_induct) (auto split: if_splits)

lemma newest_None_iff: "newest hgt p rows = None \<longleftrightarrow> (\<forall>r \<in> set rows. \<not> p r)"
  by (induction rows rule: rev_induct) auto

lemma newest_cong: "(\<And>r. r \<in> set rows \<Longrightarrow> p r = q r) \<Longrightarrow> newest hgt p rows = newest hgt q rows"
  by (induction rows rule: rev_induct) auto

lemma newest_sorted:
  "sorted (map hgt rows) \<Longrightarrow> newest hgt p rows = last_row p rows"
proof (induction rows rule: rev_induct)
  case Nil
  then show ?case by simp
next
  case (snoc r rows)
  then have "newest hgt p rows = last_row p rows" and "\<forall>x \<in> set rows. hgt x \<le> hgt r"
    by (auto simp: sorted_append)
  with last_row_SomeD [of p rows] show ?case by (auto split: option.splits)
qed

context block_table begin

lemma batch_inserts:
  "foldE handle blks s = Inr s' \<Longrightarrow>
   \<exists>new. rows s' = rows s @ new \<and> (\<forall>r \<in> set new. height_of r \<in> b_height ` set blks)"
proof (induction blks arbitrary: s)
  case Nil
  then show ?case by simp
next
  case (Cons b bs)
  then obtain u where u: "handle b s = Inr u" "foldE handle bs u = Inr s'"
    by (auto simp: bindE_eq_Inr)
  from inserts [OF u(1)] Cons.IH [OF u(2)] obtain n1 n2
    where "rows u = rows s @ n1" "\<forall>r \<in> set n1. height_of r = b_height b"
      "rows s' = rows u @ n2" "\<forall>r \<in> set n2. height_of r \<in> b_height ` set bs"
    by blast
  then show ?case by (intro exI [where x = "n1 @ n2"]) auto
qed

text \<open>Blocks in ascending order keep the rows in ascending order.\<close>

lemma batch_sorted:
  assumes "foldE handle blks s = Inr s'" and "sorted (map b_height blks)"
    and "sorted (map height_of (rows s))"
    and "\<And>r b. r \<in> set (rows s) \<Longrightarrow> b \<in> set blks \<Longrightarrow> height_of r \<le> b_height b"
  shows "sorted (map height_of (rows s'))"
  using assms
proof (induction blks arbitrary: s)
  case Nil
  then show ?case by simp
next
  case (Cons b bs)
  from Cons.prems(1) obtain u where u: "handle b s = Inr u" "foldE handle bs u = Inr s'"
    by (auto simp: bindE_eq_Inr)
  from inserts [OF u(1)] obtain new
    where new: "rows u = rows s @ new" "\<forall>r \<in> set new. height_of r = b_height b" by blast
  have "sorted (map height_of new)"
    using new(2) by (induction new) auto
  with new Cons.prems(3,4) have "sorted (map height_of (rows u))"
    by (auto simp: sorted_append)
  moreover have "\<And>r c. r \<in> set (rows u) \<Longrightarrow> c \<in> set bs \<Longrightarrow> height_of r \<le> b_height c"
    using new Cons.prems(2,4) by auto
  ultimately show ?case
    using Cons.IH [OF u(2)] Cons.prems(2) by auto
qed

end

end
