(* ===== verification/Candidates.thy ===== *)
theory Candidates
  imports VoteBuckets Ledger
begin

text \<open>
  The candidate table (models/candidate.go) and the plugin that fills it
  (plugins/candidate/candidate.go). Arguments are the node's bucket listing, the epoch start
  of a height (rolldpos), \<open>address.FromBytes\<close> followed by \<open>String\<close> (None: a nil address), and
  the topic \<open>candidateEndorsementWithOp\<close>.
\<close>

subsection \<open>The table\<close>

record cand_row =
  cr_height :: u64
  cr_name :: string
  cr_operator :: string
  cr_reward :: string
  cr_owner :: string
  cr_id :: string
  cr_amount :: int
  cr_duration :: u32
  cr_act_type :: string
  cr_auto_stake :: bool
  cr_payload :: "byte list"

text \<open>\<open>Order("block_height DESC, id DESC").Take\<close>: the newest row, or gorm.ErrRecordNotFound.\<close>

definition take_newest :: "(cand_row \<Rightarrow> bool) \<Rightarrow> cand_row list \<Rightarrow> cand_row res" where
  "take_newest p rows =
     (case newest cr_height p rows of None \<Rightarrow> Inl RecordNotFound | Some r \<Rightarrow> Inr r)"

definition FetchByName :: "string \<Rightarrow> cand_row list \<Rightarrow> cand_row res" where
  "FetchByName name = take_newest (\<lambda>r. cr_name r = name)"

definition FetchByOwnerAddressWithHeight :: "string \<Rightarrow> u64 \<Rightarrow> cand_row list \<Rightarrow> cand_row res" where
  "FetchByOwnerAddressWithHeight owner h = take_newest (\<lambda>r. cr_height r \<le> h \<and> cr_owner r = owner)"

definition FetchByOperatorAddressWithHeight :: "string \<Rightarrow> u64 \<Rightarrow> cand_row list \<Rightarrow> cand_row res" where
  "FetchByOperatorAddressWithHeight operator h =
     take_newest (\<lambda>r. cr_height r \<le> h \<and> cr_operator r = operator)"

definition FetchByCandidateIDWithHeight :: "string \<Rightarrow> u64 \<Rightarrow> cand_row list \<Rightarrow> cand_row res" where
  "FetchByCandidateIDWithHeight cid h = take_newest (\<lambda>r. cr_height r \<le> h \<and> cr_id r = cid)"

definition FetchByOwnerOrOperatorWithHeight :: "string \<Rightarrow> u64 \<Rightarrow> cand_row list \<Rightarrow> cand_row res" where
  "FetchByOwnerOrOperatorWithHeight addr h =
     take_newest (\<lambda>r. cr_height r \<le> h \<and> (cr_owner r = addr \<or> cr_operator r = addr))"

definition FetchByNameWithHeight :: "string \<Rightarrow> u64 \<Rightarrow> cand_row list \<Rightarrow> cand_row res" where
  "FetchByNameWithHeight name h = take_newest (\<lambda>r. cr_height r \<le> h \<and> cr_name r = name)"

text \<open>\<open>id in (select max(id) from candidate group by candidate_id)\<close>: each identity's last row.\<close>

fun GetAllCandidates :: "cand_row list \<Rightarrow> cand_row list" where
  "GetAllCandidates [] = []"
| "GetAllCandidates (r # rs) =
     (if cr_id r \<in> cr_id ` set rs then GetAllCandidates rs else r # GetAllCandidates rs)"

definition ByOwnerAddress :: "string \<Rightarrow> cand_row list \<Rightarrow> cand_row res" where
  "ByOwnerAddress addr m =
     (case find (\<lambda>c. cr_owner c = addr) m of None \<Rightarrow> Inl (Err ''not found'') | Some c \<Rightarrow> Inr c)"

definition ByCandidateID :: "string \<Rightarrow> cand_row list \<Rightarrow> cand_row res" where
  "ByCandidateID addr m =
     (case find (\<lambda>c. cr_id c = addr) m of None \<Rightarrow> Inl (Err ''not found'') | Some c \<Rightarrow> Inr c)"

subsection \<open>The handler\<close>

record cand_env =
  ce_node_buckets :: "u64 \<Rightarrow> vote_bucket list res"
  ce_epoch_start :: "u64 \<Rightarrow> u64"
  ce_from_bytes :: "byte list \<Rightarrow> string option"
  ce_endorse_topic :: hash256

definition nil_pointer :: go_error where
  "nil_pointer = Panic ''nil pointer dereference''"

text \<open>A nil address whose \<open>String\<close> is called.\<close>

definition addr_string :: "string option \<Rightarrow> string res" where
  "addr_string a = (case a of None \<Rightarrow> Inl nil_pointer | Some s \<Rightarrow> Inr s)"

definition opt_string :: "string option \<Rightarrow> string" where
  "opt_string a = (case a of None \<Rightarrow> [] | Some s \<Rightarrow> s)"

definition candidate_endorsement_log ::
  "cand_env \<Rightarrow> u64 \<Rightarrow> log \<Rightarrow> cand_row list \<Rightarrow> cand_row list res" where
  "candidate_endorsement_log env h l rows =
     (if log_address l = [] \<or> length (log_topics l) < 2 then Inr rows
      else if hd (log_topics l) = ce_endorse_topic env
      then bindE (idx (log_topics l) 2) (\<lambda>t.
           bindE (addr_string (ce_from_bytes env t)) (\<lambda>cid.
           bindE (FetchByCandidateIDWithHeight cid h rows) (\<lambda>c.
           Inr (rows @ [\<lparr>cr_height = h, cr_name = cr_name c, cr_operator = cr_operator c,
             cr_reward = cr_reward c, cr_owner = cr_owner c, cr_id = cr_id c, cr_amount = 0,
             cr_duration = 0, cr_act_type = ''CandidateEndorsement-CandidateEndorsementOpRevoke'',
             cr_auto_stake = False, cr_payload = []\<rparr>]))))
      else Inr rows)"

definition handleAction ::
  "cand_env \<Rightarrow> u64 \<Rightarrow> envelope \<Rightarrow> receipt \<Rightarrow> cand_row list \<Rightarrow> cand_row list res" where
  "handleAction env h e r rows =
     (case e_action e of
        CandidateRegister name oper rew own amt dur auto payload \<Rightarrow>
          bindE (addr_string rew) (\<lambda>reward.
          Inr (rows @ [\<lparr>cr_height = h, cr_name = name, cr_operator = oper, cr_reward = reward,
            cr_owner = own, cr_id = own, cr_amount = amt, cr_duration = dur,
            cr_act_type = ''CandidateRegister'', cr_auto_stake = auto, cr_payload = payload\<rparr>]))
      | CandidateUpdate name oper rew \<Rightarrow>
          bindE (FetchByOwnerOrOperatorWithHeight (e_sender e) h rows) (\<lambda>c.
          Inr (rows @ [\<lparr>cr_height = h, cr_name = name, cr_operator = oper,
            cr_reward = opt_string rew, cr_owner = cr_owner c, cr_id = cr_id c, cr_amount = 0,
            cr_duration = 0, cr_act_type = ''CandidateUpdate'', cr_auto_stake = False,
            cr_payload = []\<rparr>]))
      | CandidateTransferOwnership new \<Rightarrow>
          bindE (FetchByOwnerOrOperatorWithHeight (e_sender e) h rows) (\<lambda>c.
          Inr (rows @ [\<lparr>cr_height = h, cr_name = cr_name c, cr_operator = cr_operator c,
            cr_reward = cr_reward c, cr_owner = opt_string new, cr_id = cr_id c, cr_amount = 0,
            cr_duration = 0, cr_act_type = ''CandidateTransferOwnership'', cr_auto_stake = False,
            cr_payload = []\<rparr>]))
      | CandidateActivate bid \<Rightarrow>
          bindE (GetStakingBucketByID (ce_node_buckets env) bid (ce_epoch_start env h)) (\<lambda>bo.
          case bo of
            None \<Rightarrow> Inl nil_pointer
          | Some b \<Rightarrow>
              bindE (FetchByCandidateIDWithHeight (vb_candidate b) h rows) (\<lambda>c.
              case parse_int10 (vb_staked_amount b) of
                None \<Rightarrow> Inl (Err ''failed to parse bucket staked amount'')
              | Some a \<Rightarrow>
                  Inr (rows @ [\<lparr>cr_height = h, cr_name = cr_name c, cr_operator = cr_operator c,
                    cr_reward = cr_reward c, cr_owner = cr_owner c, cr_id = cr_id c, cr_amount = a,
                    cr_duration = vb_staked_duration b, cr_act_type = ''CandidateActivate'',
                    cr_auto_stake = vb_auto_stake b, cr_payload = cr_payload c\<rparr>])))
      | CandidateEndorsement bid op \<Rightarrow>
          (if op = OpRevoke then foldE (candidate_endorsement_log env h) (r_logs r) rows
           else Inr rows)
      | _ \<Rightarrow> Inr rows)"

definition cand_handleBlock :: "cand_env \<Rightarrow> block \<Rightarrow> cand_row list \<Rightarrow> cand_row list res" where
  "cand_handleBlock env b = on_receipts (handleAction env (b_height b)) b"

subsection \<open>What every step inserts\<close>

text \<open>Rows inserted at height \<open>h\<close>, for identities that are registered by then.\<close>

definition extends :: "u64 \<Rightarrow> cand_row list \<Rightarrow> cand_row list \<Rightarrow> bool" where
  "extends h rows rows' \<longleftrightarrow> (\<exists>new. rows' = rows @ new \<and> (\<forall>r \<in> set new. cr_height r = h))"

lemma extends_refl [simp]: "extends h rows rows"
  by (auto simp: extends_def)

lemma extends_snoc: "extends h rows u \<Longrightarrow> cr_height r = h \<Longrightarrow> extends h rows (u @ [r])"
  by (auto simp: extends_def)

definition registered_ids :: "cand_row list \<Rightarrow> bool" where
  "registered_ids rows \<longleftrightarrow>
     (\<forall>r \<in> set rows. \<exists>q \<in> set rows. cr_act_type q = ''CandidateRegister'' \<and> cr_owner q = cr_id r
        \<and> cr_id q = cr_id r)"

lemma take_newest_InrD: "take_newest p rows = Inr c \<Longrightarrow> c \<in> set rows \<and> p c"
  by (auto simp: take_newest_def split: option.splits dest: newest_SomeD)

lemmas fetch_defs = FetchByOwnerOrOperatorWithHeight_def FetchByCandidateIDWithHeight_def
  FetchByOwnerAddressWithHeight_def FetchByOperatorAddressWithHeight_def FetchByName_def
  FetchByNameWithHeight_def

lemma registered_ids_snoc:
  "registered_ids rows \<Longrightarrow> c \<in> set rows \<Longrightarrow> cr_id c = cr_id r \<Longrightarrow> registered_ids (rows @ [r])"
  by (fastforce simp: registered_ids_def)

lemma registered_ids_register:
  "registered_ids rows \<Longrightarrow> cr_act_type r = ''CandidateRegister'' \<Longrightarrow> cr_owner r = cr_id r \<Longrightarrow>
   registered_ids (rows @ [r])"
  by (auto simp: registered_ids_def)

lemma endorsement_log_step:
  assumes "candidate_endorsement_log env h l rows = Inr rows'"
  shows "(extends h rows0 rows \<longrightarrow> extends h rows0 rows') \<and>
    (registered_ids rows \<longrightarrow> registered_ids rows')"
  using assms
  by (auto simp: candidate_endorsement_log_def bindE_eq_Inr fetch_defs split: if_splits
      dest!: take_newest_InrD intro!: extends_snoc intro: registered_ids_snoc)

lemma handleAction_step:
  assumes "handleAction env h e r rows = Inr rows'"
  shows "(extends h rows0 rows \<longrightarrow> extends h rows0 rows') \<and>
    (registered_ids rows \<longrightarrow> registered_ids rows')"
proof (cases "e_action e")
  case (CandidateEndorsement bid op)
  show ?thesis
  proof (cases "op = OpRevoke")
    case True
    with CandidateEndorsement assms
    have run: "foldE (candidate_endorsement_log env h) (r_logs r) rows = Inr rows'"
      by (simp add: handleAction_def)
    have "extends h rows0 rows'" if "extends h rows0 rows"
      by (rule foldE_invariant [where P = "extends h rows0", OF run that])
        (use endorsement_log_step in blast)
    moreover have "registered_ids rows'" if "registered_ids rows"
      by (rule foldE_invariant [where P = registered_ids, OF run that])
        (use endorsement_log_step in blast)
    ultimately show ?thesis by blast
  next
    case False
    with CandidateEndorsement assms show ?thesis by (simp add: handleAction_def)
  qed
next
  case (CandidateActivate bid)
  with assms obtain c r' where "c \<in> set rows" "cr_id c = cr_id r'" "cr_height r' = h" "rows' = rows @ [r']"
    by (fastforce simp: handleAction_def bindE_eq_Inr fetch_defs split: option.splits
        dest!: take_newest_InrD)
  then show ?thesis using registered_ids_snoc [of rows c] by (auto intro!: extends_snoc)
qed (use assms in \<open>auto simp: handleAction_def bindE_eq_Inr fetch_defs addr_string_def
      split: option.splits dest!: take_newest_InrD
      intro!: extends_snoc intro: registered_ids_snoc registered_ids_register\<close>)

lemma cand_handleBlock_extends:
  assumes "cand_handleBlock env b rows = Inr rows'"
  shows "extends (b_height b) rows rows'"
  by (rule on_receipts_invariant [where P = "extends (b_height b) rows",
        OF assms [unfolded cand_handleBlock_def]]) (use handleAction_step in \<open>auto\<close>)

lemma cand_handleBlock_ids:
  assumes "registered_ids rows" and "cand_handleBlock env b rows = Inr rows'"
  shows "registered_ids rows'"
  by (rule on_receipts_invariant [where P = registered_ids,
        OF assms(2) [unfolded cand_handleBlock_def] assms(1)]) (use handleAction_step in blast)

interpretation candidate_table: block_table "cand_handleBlock env" "\<lambda>rows. rows" cr_height
  for env
  by unfold_locales (use cand_handleBlock_extends in \<open>auto simp: extends_def\<close>)

subsection \<open>Properties\<close>

text \<open>
  Identities come from registrations. Whatever blocks are indexed, the identity of every
  row of the candidate table is the owner address of a registration row: no update, transfer,
  activation or endorsement can make a new identity.
\<close>

theorem candidate_ids_registered:
  assumes "foldE (cand_handleBlock env) blks [] = Inr rows" and "r \<in> set rows"
  shows "\<exists>q \<in> set rows. cr_act_type q = ''CandidateRegister'' \<and> cr_owner q = cr_id r
    \<and> cr_id q = cr_id r"
proof -
  have "registered_ids rows"
  proof (rule foldE_invariant [where P = registered_ids, OF assms(1)])
    show "registered_ids []" by (simp add: registered_ids_def)
    fix b u v
    assume "registered_ids u" and "cand_handleBlock env b u = Inr v"
    then show "registered_ids v" by (rule cand_handleBlock_ids)
  qed
  with assms(2) show ?thesis by (simp add: registered_ids_def)
qed

definition cand_receipt :: "hash256 \<Rightarrow> receipt" where
  "cand_receipt h = \<lparr>r_status = 1, r_action_hash = h, r_gas_consumed = 0, r_tx_index = 0,
     r_logs = [], r_tx_logs = []\<rparr>"

definition cand_block :: "u64 \<Rightarrow> envelope list \<Rightarrow> block" where
  "cand_block h es = \<lparr>b_height = h, b_timestamp = 0, b_actions = es,
     b_receipts = map (\<lambda>e. cand_receipt (e_hash e)) es\<rparr>"

definition register :: "string \<Rightarrow> string \<Rightarrow> string \<Rightarrow> hash256 \<Rightarrow> envelope" where
  "register name oper own h = \<lparr>e_hash = h, e_sender = own,
     e_action = CandidateRegister name oper (Some own) own 100 91 True []\<rparr>"

definition update_by :: "string \<Rightarrow> string \<Rightarrow> string \<Rightarrow> hash256 \<Rightarrow> envelope" where
  "update_by sender name oper h = \<lparr>e_hash = h, e_sender = sender,
     e_action = CandidateUpdate name oper None\<rparr>"

definition cand_env0 :: cand_env where
  "cand_env0 = \<lparr>ce_node_buckets = (\<lambda>h. Inr []), ce_epoch_start = (\<lambda>h. h), ce_from_bytes = (\<lambda>b. None),
     ce_endorse_topic = []\<rparr>"

definition reg_row :: "u64 \<Rightarrow> string \<Rightarrow> string \<Rightarrow> string \<Rightarrow> cand_row" where
  "reg_row h name oper own = \<lparr>cr_height = h, cr_name = name, cr_operator = oper, cr_reward = own,
     cr_owner = own, cr_id = own, cr_amount = 100, cr_duration = 91,
     cr_act_type = ''CandidateRegister'', cr_auto_stake = True, cr_payload = []\<rparr>"

lemma register_run:
  "cand_handleBlock env (cand_block h [register name oper own k]) rows
     = Inr (rows @ [reg_row h name oper own])"
  by (simp add: cand_handleBlock_def on_receipts_def cand_block_def cand_receipt_def register_def
      receipt_success_def actions_by_hash_def handleAction_def addr_string_def reg_row_def)

theorem candidate_ids_registered_witness:
  "\<exists>q \<in> {reg_row 5 ''a'' ''op'' ''own''}. cr_act_type q = ''CandidateRegister'' \<and> cr_owner q = ''own''"
proof -
  have "foldE (cand_handleBlock cand_env0) [cand_block 5 [register ''a'' ''op'' ''own'' [1]]] []
      = Inr [reg_row 5 ''a'' ''op'' ''own'']"
    by (simp add: register_run)
  from candidate_ids_registered [OF this, of "reg_row 5 ''a'' ''op'' ''own''"] show ?thesis
    by (simp add: reg_row_def)
qed

text \<open>
  An update keeps owner and identity. A CandidateUpdate, signed by the owner or by the
  operator, inserts one row with the new name and operator and the owner and identity of the
  candidate that the signer was found for.
\<close>

theorem CandidateUpdate_keeps_owner:
  assumes "e_action e = CandidateUpdate name oper rew"
    and "FetchByOwnerOrOperatorWithHeight (e_sender e) h rows = Inr c"
    and "\<forall>x \<in> set rows. cr_height x \<le> h"
  shows "\<exists>r'. handleAction env h e r rows = Inr (rows @ [r'])
    \<and> cr_name r' = name \<and> cr_operator r' = oper \<and> cr_owner r' = cr_owner c \<and> cr_id r' = cr_id c
    \<and> FetchByOwnerAddressWithHeight (cr_owner c) h (rows @ [r']) = Inr r'
    \<and> FetchByCandidateIDWithHeight (cr_id c) h (rows @ [r']) = Inr r'"
proof -
  have new: "take_newest p (rows @ [x]) = Inr x" if "p x" "cr_height x = h" for p x
    using that assms(3) by (auto simp: take_newest_def dest: newest_SomeD split: option.splits)
  show ?thesis
    by (rule exI, rule conjI)
      (auto simp: handleAction_def assms(1,2) FetchByOwnerAddressWithHeight_def
        FetchByCandidateIDWithHeight_def intro!: new)
qed

theorem CandidateUpdate_keeps_owner_witness:
  "\<exists>r'. handleAction cand_env0 6 (update_by ''op'' ''b'' ''op2'' [2]) (cand_receipt [2])
      [reg_row 5 ''a'' ''op'' ''own''] = Inr ([reg_row 5 ''a'' ''op'' ''own''] @ [r'])
    \<and> cr_owner r' = ''own'' \<and> cr_operator r' = ''op2''"
proof -
  have "FetchByOwnerOrOperatorWithHeight ''op'' 6 [reg_row 5 ''a'' ''op'' ''own''] = Inr (reg_row 5 ''a'' ''op'' ''own'')"
    by (simp add: FetchByOwnerOrOperatorWithHeight_def take_newest_def newest_def reg_row_def)
  then show ?thesis
    using CandidateUpdate_keeps_owner [of "update_by ''op'' ''b'' ''op2'' [2]" "''b''" "''op2''" None 6
        "[reg_row 5 ''a'' ''op'' ''own'']" "reg_row 5 ''a'' ''op'' ''own''" cand_env0 "cand_receipt [2]"]
    by (auto simp: update_by_def reg_row_def)
qed

text \<open>
  A former operator's own update goes to the wrong candidate. The lookup by owner or
  operator takes the newest row that mentions the signer in either column, also when a newer
  row of that candidate has another operator: an address that owns candidate \<open>a\<close> and was once
  operator of candidate \<open>b\<close> updates \<open>b\<close>, not \<open>a\<close>.
\<close>

theorem former_operator_updates_wrong_candidate:
  assumes "e_action e = CandidateUpdate name oper rew" and "rows = before @ b # after"
    and "sorted (map cr_height rows)" and "\<forall>x \<in> set rows. cr_height x \<le> h"
    and "cr_operator b = e_sender e"
    and "\<forall>x \<in> set after. cr_owner x \<noteq> e_sender e \<and> cr_operator x \<noteq> e_sender e"
    and "a \<in> set before" and "cr_owner a = e_sender e" and "cr_id a \<noteq> cr_id b"
    and "b' \<in> set after" and "cr_id b' = cr_id b"
  shows "\<exists>r'. handleAction env h e r rows = Inr (rows @ [r']) \<and> cr_id r' = cr_id b'
    \<and> cr_id r' \<noteq> cr_id a \<and> cr_owner r' = cr_owner b"
proof -
  let ?p = "\<lambda>x. cr_height x \<le> h \<and> (cr_owner x = e_sender e \<or> cr_operator x = e_sender e)"
  have "last_row ?p after = None"
    using assms(6) by (auto simp: last_row_None_iff)
  then have "last_row ?p (before @ b # after) = Some b"
    using last_row_append [of ?p "before @ [b]" after] assms(2,4,5) by simp
  then have "FetchByOwnerOrOperatorWithHeight (e_sender e) h rows = Inr b"
    using newest_sorted [OF assms(3)] assms(2)
    by (simp add: FetchByOwnerOrOperatorWithHeight_def take_newest_def)
  with assms show ?thesis by (auto simp: handleAction_def)
qed

theorem former_operator_updates_wrong_candidate_witness:
  "\<exists>r'. handleAction cand_env0 9 (update_by ''X'' ''new'' ''Z'' [2]) (cand_receipt [2])
      [reg_row 1 ''A'' ''opA'' ''X'', reg_row 2 ''B'' ''X'' ''ownB'', reg_row 3 ''B'' ''Y'' ''ownB'']
    = Inr ([reg_row 1 ''A'' ''opA'' ''X'', reg_row 2 ''B'' ''X'' ''ownB'', reg_row 3 ''B'' ''Y'' ''ownB''] @ [r'])
    \<and> cr_id r' = ''ownB''"
proof -
  let ?a = "reg_row 1 ''A'' ''opA'' ''X''" and ?b = "reg_row 2 ''B'' ''X'' ''ownB''"
    and ?b' = "reg_row 3 ''B'' ''Y'' ''ownB''" and ?e = "update_by ''X'' ''new'' ''Z'' [2]"
  have "\<exists>r'. handleAction cand_env0 9 ?e (cand_receipt [2]) [?a, ?b, ?b'] = Inr ([?a, ?b, ?b'] @ [r'])
    \<and> cr_id r' = cr_id ?b' \<and> cr_id r' \<noteq> cr_id ?a \<and> cr_owner r' = cr_owner ?b"
    by (rule former_operator_updates_wrong_candidate [where before = "[?a]" and after = "[?b']"])
      (simp_all add: update_by_def reg_row_def)
  then show ?thesis by (auto simp: reg_row_def)
qed

text \<open>
  Lookups are of the latest record. After any run of blocks in ascending order, the
  candidate found for an identity is the row inserted last for it.
\<close>

theorem candidate_lookup_latest:
  assumes "foldE (cand_handleBlock env) blks [] = Inr rows" and "sorted (map b_height blks)"
    and "\<forall>x \<in> set rows. cr_height x \<le> h"
  shows "FetchByCandidateIDWithHeight cid h rows =
    (case last_row (\<lambda>r. cr_id r = cid) rows of None \<Rightarrow> Inl RecordNotFound | Some r \<Rightarrow> Inr r)"
proof -
  have "sorted (map cr_height rows)"
    using candidate_table.batch_sorted [OF assms(1,2)] by simp
  from newest_sorted [OF this, of "\<lambda>r. cr_id r = cid"]
    newest_cong [of rows "\<lambda>r. cr_height r \<le> h \<and> cr_id r = cid" "\<lambda>r. cr_id r = cid"] assms(3)
  show ?thesis by (auto simp: FetchByCandidateIDWithHeight_def take_newest_def)
qed

theorem candidate_lookup_latest_witness:
  "FetchByCandidateIDWithHeight ''own'' 9 [reg_row 5 ''a'' ''op'' ''own'', reg_row 6 ''b'' ''op'' ''own'']
    = Inr (reg_row 6 ''b'' ''op'' ''own'')"
proof -
  have "foldE (cand_handleBlock cand_env0)
      [cand_block 5 [register ''a'' ''op'' ''own'' [1]], cand_block 6 [register ''b'' ''op'' ''own'' [2]]] []
      = Inr [reg_row 5 ''a'' ''op'' ''own'', reg_row 6 ''b'' ''op'' ''own'']"
    by (simp add: register_run)
  from candidate_lookup_latest [OF this, of 9 "''own''"] show ?thesis
    by (simp add: cand_block_def reg_row_def last_row_def)
qed

end
