(* ===== verification/RewardLog.thy ===== *)
theory RewardLog
  imports Chain "HOL-Library.AList"
begin

text \<open>
  kernel/reward.go: the rewards a GrantReward receipt pays, per address, and the rewards of a
  block. The protobuf decoder \<open>rewarding.UnmarshalRewardLog\<close> is an argument. A Go map is an
  association list whose order stands for the iteration order.
\<close>

datatype reward_log_type =
    RL_BLOCK_REWARD | RL_EPOCH_REWARD | RL_FOUNDATION_BONUS | RL_PRIORITY_BONUS
  | RL_UNPRODUCTIVE_SLASH | RL_EPOCH_DRAIN_OVERRUN | RL_CURSOR_PROGRESS | RL_OTHER int

record reward_log =
  rl_type :: reward_log_type
  rl_addr :: string
  rl_amount :: string

record reward_info =
  BlockReward_of :: int
  EpochReward_of :: int
  FoundationBonus_of :: int
  PriorityBonus_of :: int
  UnproductiveSlash_of :: int

definition no_rewards :: reward_info where
  "no_rewards = \<lparr>BlockReward_of = 0, EpochReward_of = 0, FoundationBonus_of = 0,
     PriorityBonus_of = 0, UnproductiveSlash_of = 0\<rparr>"

text \<open>The classification switch: the types that carry a payout.\<close>

fun is_payout :: "reward_log_type \<Rightarrow> bool" where
  "is_payout RL_BLOCK_REWARD = True"
| "is_payout RL_EPOCH_REWARD = True"
| "is_payout RL_FOUNDATION_BONUS = True"
| "is_payout RL_PRIORITY_BONUS = True"
| "is_payout RL_UNPRODUCTIVE_SLASH = True"
| "is_payout RL_EPOCH_DRAIN_OVERRUN = False"
| "is_payout RL_CURSOR_PROGRESS = False"
| "is_payout (RL_OTHER n) = False"

text \<open>The accumulation switch.\<close>

fun accumulate :: "reward_log_type \<Rightarrow> int \<Rightarrow> reward_info \<Rightarrow> reward_info res" where
  "accumulate RL_BLOCK_REWARD a i = Inr (i\<lparr>BlockReward_of := BlockReward_of i + a\<rparr>)"
| "accumulate RL_EPOCH_REWARD a i = Inr (i\<lparr>EpochReward_of := EpochReward_of i + a\<rparr>)"
| "accumulate RL_FOUNDATION_BONUS a i = Inr (i\<lparr>FoundationBonus_of := FoundationBonus_of i + a\<rparr>)"
| "accumulate RL_PRIORITY_BONUS a i = Inr (i\<lparr>PriorityBonus_of := PriorityBonus_of i + a\<rparr>)"
| "accumulate RL_UNPRODUCTIVE_SLASH a i = Inr (i\<lparr>UnproductiveSlash_of := UnproductiveSlash_of i + a\<rparr>)"
| "accumulate _ a i = Inl (Err ''reward log type passed classification but has no accumulator'')"

definition reward_entry ::
  "reward_log \<Rightarrow> (string \<times> reward_info) list \<Rightarrow> (string \<times> reward_info) list res" where
  "reward_entry l m =
     (if \<not> is_payout (rl_type l) then Inr m
      else let rewards = (case map_of m (rl_addr l) of None \<Rightarrow> no_rewards | Some i \<Rightarrow> i) in
           case parse_int10 (rl_amount l) of
             None \<Rightarrow> Inl (Err ''failed to convert reward amount from string to big int'')
           | Some a \<Rightarrow>
               bindE (accumulate (rl_type l) a rewards) (\<lambda>i. Inr (AList.update (rl_addr l) i m)))"

definition RewardInfoFromReceipt ::
  "(byte list \<Rightarrow> reward_log list res) \<Rightarrow> log list \<Rightarrow> (string \<times> reward_info) list res" where
  "RewardInfoFromReceipt unmarshal logs =
     foldE (\<lambda>l m.
       if log_topics l \<noteq> [] then Inr m
       else bindE (unmarshal (log_data l)) (\<lambda>es. foldE reward_entry es m)) logs []"

text \<open>
  \<open>RewardAt\<close>: the four running sums and the gas. On an error Go returns what was summed so
  far along with the error; no caller uses it.
\<close>

record reward_totals =
  rt_block :: int
  rt_epoch :: int
  rt_foundation :: int
  rt_priority :: int
  rt_gas :: u64

definition add_info :: "reward_info \<Rightarrow> reward_totals \<Rightarrow> reward_totals" where
  "add_info i t = t\<lparr>rt_block := rt_block t + BlockReward_of i, rt_epoch := rt_epoch t + EpochReward_of i,
     rt_foundation := rt_foundation t + FoundationBonus_of i,
     rt_priority := rt_priority t + PriorityBonus_of i\<rparr>"

definition RewardAt ::
  "(byte list \<Rightarrow> reward_log list res) \<Rightarrow> block \<Rightarrow> hash256 set \<Rightarrow> reward_totals res" where
  "RewardAt unmarshal blk grants =
     foldE (\<lambda>r t0.
       let t = t0\<lparr>rt_gas := rt_gas t0 + r_gas_consumed r\<rparr> in
       if r_action_hash r \<in> grants
       then bindE (RewardInfoFromReceipt unmarshal (r_logs r)) (\<lambda>m.
              Inr (fold (\<lambda>kv. add_info (snd kv)) m t))
       else Inr t)
     (b_receipts blk) \<lparr>rt_block = 0, rt_epoch = 0, rt_foundation = 0, rt_priority = 0, rt_gas = 0\<rparr>"

subsection \<open>What the accumulation computes\<close>

text \<open>The entries of a receipt, decoded and in order.\<close>

definition reward_entries ::
  "(byte list \<Rightarrow> reward_log list res) \<Rightarrow> log list \<Rightarrow> reward_log list res" where
  "reward_entries unmarshal logs =
     foldE (\<lambda>l es. if log_topics l \<noteq> [] then Inr es
                   else bindE (unmarshal (log_data l)) (\<lambda>new. Inr (es @ new))) logs []"

fun reward_of :: "reward_log_type \<Rightarrow> reward_info \<Rightarrow> int" where
  "reward_of RL_BLOCK_REWARD i = BlockReward_of i"
| "reward_of RL_EPOCH_REWARD i = EpochReward_of i"
| "reward_of RL_FOUNDATION_BONUS i = FoundationBonus_of i"
| "reward_of RL_PRIORITY_BONUS i = PriorityBonus_of i"
| "reward_of RL_UNPRODUCTIVE_SLASH i = UnproductiveSlash_of i"
| "reward_of _ i = 0"

definition amount_of :: "reward_log \<Rightarrow> int" where
  "amount_of l = (case parse_int10 (rl_amount l) of None \<Rightarrow> 0 | Some a \<Rightarrow> a)"

definition paid :: "reward_log_type \<Rightarrow> string \<Rightarrow> reward_log list \<Rightarrow> int" where
  "paid t addr = sum_rows (\<lambda>l. rl_type l = t \<and> rl_addr l = addr) amount_of"

lemma reward_of_no_rewards [simp]: "reward_of t no_rewards = 0"
  by (cases t) (simp_all add: no_rewards_def)

lemma accumulate_reward_of:
  "accumulate ty a i = Inr j \<Longrightarrow> is_payout t \<Longrightarrow> reward_of t j = reward_of t i + (if ty = t then a else 0)"
  by (cases ty; cases t) auto

lemma accumulate_payout: "is_payout ty \<Longrightarrow> \<exists>j. accumulate ty a i = Inr j"
  by (cases ty) auto

text \<open>The invariant of the accumulation: the map sums up the entries seen.\<close>

definition sums_up :: "reward_log list \<Rightarrow> (string \<times> reward_info) list \<Rightarrow> bool" where
  "sums_up es m \<longleftrightarrow> distinct (map fst m) \<and>
     fst ` set m = rl_addr ` {e \<in> set es. is_payout (rl_type e)} \<and>
     (\<forall>t addr. is_payout t \<longrightarrow>
        (case map_of m addr of None \<Rightarrow> 0 | Some i \<Rightarrow> reward_of t i) = paid t addr es)"

lemma sums_up_paid:
  "sums_up es m \<Longrightarrow> is_payout t \<Longrightarrow>
   (case map_of m addr of None \<Rightarrow> 0 | Some i \<Rightarrow> reward_of t i) = paid t addr es"
  by (simp add: sums_up_def)

lemma reward_entry_sums_up:
  assumes "sums_up es m" and "reward_entry l m = Inr m'"
  shows "sums_up (es @ [l]) m'"
proof (cases "is_payout (rl_type l)")
  case False
  with assms show ?thesis
    by (auto simp: sums_up_def reward_entry_def paid_def)
next
  case True
  define old where "old = (case map_of m (rl_addr l) of None \<Rightarrow> no_rewards | Some i \<Rightarrow> i)"
  from True assms(2) obtain a i where a: "parse_int10 (rl_amount l) = Some a"
      "accumulate (rl_type l) a old = Inr i" "m' = AList.update (rl_addr l) i m"
    by (auto simp: reward_entry_def Let_def old_def bindE_eq_Inr split: option.splits)
  have mo: "map_of m' = (map_of m)(rl_addr l \<mapsto> i)"
    using a(3) by (simp add: update_conv')
  have "distinct (map fst m')"
    using a(3) assms(1) by (auto simp: sums_up_def intro: distinct_update)
  moreover have "fst ` set m' = insert (rl_addr l) (fst ` set m)"
    using mo by (metis (no_types) dom_fun_upd dom_map_of_conv_image_fst option.distinct(1))
  moreover have "(case map_of m' addr of None \<Rightarrow> 0 | Some i \<Rightarrow> reward_of t i) = paid t addr (es @ [l])"
    if t: "is_payout t" for t addr
  proof (cases "addr = rl_addr l")
    case True
    have "reward_of t old = paid t addr es"
      using sums_up_paid [OF assms(1) t, of addr] True by (auto simp: old_def split: option.splits)
    then show ?thesis
      using accumulate_reward_of [OF a(2) t] mo True a(1) by (simp add: paid_def amount_of_def)
  next
    case False
    with assms(1) t mo show ?thesis by (simp add: sums_up_def paid_def)
  qed
  ultimately show ?thesis
    using assms(1) True by (auto simp: sums_up_def)
qed

lemma reward_entries_sum_up:
  "sums_up es m \<Longrightarrow> foldE reward_entry new m = Inr m' \<Longrightarrow> sums_up (es @ new) m'"
proof (induction new arbitrary: es m)
  case Nil
  then show ?case by simp
next
  case (Cons l ls)
  then obtain m1 where m1: "reward_entry l m = Inr m1" "foldE reward_entry ls m1 = Inr m'"
    by (auto simp: bindE_eq_Inr)
  from Cons.IH [OF reward_entry_sums_up [OF Cons.prems(1) m1(1)] m1(2)] show ?case by simp
qed

lemma logs_sum_up:
  assumes "foldE (\<lambda>l m. if log_topics l \<noteq> [] then Inr m
       else bindE (unmarshal (log_data l)) (\<lambda>es. foldE reward_entry es m)) logs m = Inr m'"
    and "sums_up es m"
  shows "\<exists>es'. foldE (\<lambda>l es. if log_topics l \<noteq> [] then Inr es
       else bindE (unmarshal (log_data l)) (\<lambda>new. Inr (es @ new))) logs es = Inr es' \<and> sums_up es' m'"
  using assms
proof (induction logs arbitrary: es m)
  case Nil
  then show ?case by simp
next
  case (Cons l ls)
  show ?case
  proof (cases "log_topics l \<noteq> []")
    case True
    with Cons show ?thesis by simp
  next
    case False
    with Cons.prems(1) obtain new m1 where new: "unmarshal (log_data l) = Inr new"
        "foldE reward_entry new m = Inr m1"
        "foldE (\<lambda>l m. if log_topics l \<noteq> [] then Inr m
           else bindE (unmarshal (log_data l)) (\<lambda>es. foldE reward_entry es m)) ls m1 = Inr m'"
      by (auto simp: bindE_eq_Inr)
    from Cons.IH [OF new(3) reward_entries_sum_up [OF Cons.prems(2) new(2)]] False new(1)
    show ?thesis by simp
  qed
qed

lemma RewardInfoFromReceipt_sums_up:
  assumes "RewardInfoFromReceipt unmarshal logs = Inr m"
  shows "\<exists>es. reward_entries unmarshal logs = Inr es \<and> sums_up es m"
  unfolding reward_entries_def
  by (rule logs_sum_up [OF assms [unfolded RewardInfoFromReceipt_def]])
    (simp add: sums_up_def paid_def)

subsection \<open>Properties\<close>

text \<open>
  C29: The rewards read from a receipt are exact. Each address gets, for each kind of payout, the
  sum of the amounts of its entries of that kind, and the addresses are those of payout
  entries: the cursor bookkeeping entries of a drain never create a row.
\<close>

theorem RewardInfoFromReceipt_exact:
  assumes "RewardInfoFromReceipt unmarshal logs = Inr m"
  shows "\<exists>es. reward_entries unmarshal logs = Inr es \<and>
    fst ` set m = rl_addr ` {e \<in> set es. is_payout (rl_type e)} \<and>
    (\<forall>addr i t. map_of m addr = Some i \<longrightarrow> is_payout t \<longrightarrow> reward_of t i = paid t addr es)"
proof -
  obtain es where es: "reward_entries unmarshal logs = Inr es" "sums_up es m"
    using RewardInfoFromReceipt_sums_up [OF assms] by blast
  have "reward_of t i = paid t addr es" if "map_of m addr = Some i" "is_payout t" for addr i t
    using sums_up_paid [OF es(2) that(2), of addr] that(1) by simp
  with es show ?thesis by (auto simp: sums_up_def)
qed

definition example_rewards :: "reward_log list" where
  "example_rewards =
     [\<lparr>rl_type = RL_EPOCH_REWARD, rl_addr = ''io1'', rl_amount = ''5''\<rparr>,
      \<lparr>rl_type = RL_CURSOR_PROGRESS, rl_addr = ''12:5'', rl_amount = ''0''\<rparr>,
      \<lparr>rl_type = RL_EPOCH_REWARD, rl_addr = ''io1'', rl_amount = ''7''\<rparr>]"

definition example_reward_log :: log where
  "example_reward_log = \<lparr>log_address = ''io0'', log_topics = [], log_data = []\<rparr>"

lemma example_reward_run:
  "RewardInfoFromReceipt (\<lambda>_. Inr example_rewards) [example_reward_log]
     = Inr [(''io1'', no_rewards\<lparr>EpochReward_of := 12\<rparr>)]"
  by (simp add: RewardInfoFromReceipt_def example_reward_log_def example_rewards_def
      reward_entry_def parse_int10_def parse_nat_def digit_value_def Let_def no_rewards_def)

theorem RewardInfoFromReceipt_exact_witness:
  "\<exists>es. reward_entries (\<lambda>_. Inr example_rewards) [example_reward_log] = Inr es
     \<and> paid RL_EPOCH_REWARD ''io1'' es = 12"
proof -
  let ?i = "no_rewards\<lparr>EpochReward_of := 12\<rparr>"
  have "map_of [(''io1'', ?i)] ''io1'' = Some ?i" and "is_payout RL_EPOCH_REWARD" by simp_all
  then obtain es where es: "reward_entries (\<lambda>_. Inr example_rewards) [example_reward_log] = Inr es"
      "reward_of RL_EPOCH_REWARD ?i = paid RL_EPOCH_REWARD ''io1'' es"
    using RewardInfoFromReceipt_exact [OF example_reward_run] by blast
  then show ?thesis by auto
qed

fun total_of :: "reward_log_type \<Rightarrow> reward_totals \<Rightarrow> int" where
  "total_of RL_BLOCK_REWARD t = rt_block t"
| "total_of RL_EPOCH_REWARD t = rt_epoch t"
| "total_of RL_FOUNDATION_BONUS t = rt_foundation t"
| "total_of RL_PRIORITY_BONUS t = rt_priority t"
| "total_of _ t = 0"

definition is_reward :: "reward_log_type \<Rightarrow> bool" where
  "is_reward k \<longleftrightarrow>
     k \<in> {RL_BLOCK_REWARD, RL_EPOCH_REWARD, RL_FOUNDATION_BONUS, RL_PRIORITY_BONUS}"

lemma total_of_add_info: "is_reward k \<Longrightarrow> total_of k (add_info i t) = total_of k t + reward_of k i"
  by (cases k) (simp_all add: is_reward_def add_info_def)

lemma fold_add_info:
  assumes "is_reward k"
  shows "total_of k (fold (\<lambda>kv. add_info (snd kv)) m t) = total_of k t + sum_list (map (reward_of k \<circ> snd) m)"
proof (induction m arbitrary: t)
  case Nil
  then show ?case by simp
next
  case (Cons kv m)
  then show ?case by (simp add: total_of_add_info [OF assms] add.assoc)
qed

text \<open>Summing a map that sums up the entries gives the total of the entries.\<close>

lemma sums_up_total:
  assumes "sums_up es m" and "is_payout t"
  shows "sum_list (map (reward_of t \<circ> snd) m) = sum_rows (\<lambda>l. rl_type l = t) amount_of es"
proof -
  have dist: "distinct (map fst m)" using assms(1) by (simp add: sums_up_def)
  let ?A = "fst ` set m"
  have "sum_list (map (reward_of t \<circ> snd) m) = sum (\<lambda>kv. reward_of t (snd kv)) (set m)"
    using dist by (simp add: sum_list_distinct_conv_sum_set distinct_map)
  also have "\<dots> = sum (\<lambda>addr. paid t addr es) ?A"
  proof (rule sum.reindex_cong [symmetric, where l = fst])
    show "inj_on fst (set m)" using dist by (simp add: distinct_map)
    fix kv
    assume "kv \<in> set m"
    then have "map_of m (fst kv) = Some (snd kv)" using dist by (simp add: map_of_is_SomeI)
    moreover have "(case map_of m (fst kv) of None \<Rightarrow> 0 | Some i \<Rightarrow> reward_of t i) = paid t (fst kv) es"
      using assms by (simp add: sums_up_def)
    ultimately show "paid t (fst kv) es = reward_of t (snd kv)" by simp
  qed simp
  also have "\<dots> = sum_rows (\<lambda>l. rl_type l = t) amount_of es"
  proof -
    have "rl_addr ` {e \<in> set es. is_payout (rl_type e)} = ?A"
      using assms(1) by (simp add: sums_up_def)
    then have "\<forall>e \<in> set es. rl_type e = t \<longrightarrow> rl_addr e \<in> ?A" using assms(2) by blast
    then show ?thesis
    proof (induction es)
      case Nil
      then show ?case by (simp add: paid_def)
    next
      case (Cons e es)
      have "sum (\<lambda>addr. paid t addr (e # es)) ?A
          = sum (\<lambda>addr. (if rl_addr e = addr then (if rl_type e = t then amount_of e else 0) else 0)
                + paid t addr es) ?A"
        by (rule sum.cong) (auto simp: paid_def)
      also have "\<dots> = (if rl_addr e \<in> ?A then (if rl_type e = t then amount_of e else 0) else 0)
          + sum (\<lambda>addr. paid t addr es) ?A"
        by (simp add: sum.distrib)
      also have "\<dots> = sum_rows (\<lambda>l. rl_type l = t) amount_of (e # es)"
        using Cons by auto
      finally show ?case .
    qed
  qed
  finally show ?thesis .
qed

text \<open>The entries of the receipts of a block that grant rewards.\<close>

fun block_entries ::
  "(byte list \<Rightarrow> reward_log list res) \<Rightarrow> hash256 set \<Rightarrow> receipt list \<Rightarrow> reward_log list res" where
  "block_entries unmarshal grants [] = Inr []"
| "block_entries unmarshal grants (r # rs) =
     (if r_action_hash r \<in> grants
      then bindE (reward_entries unmarshal (r_logs r)) (\<lambda>es.
           bindE (block_entries unmarshal grants rs) (\<lambda>es'. Inr (es @ es')))
      else block_entries unmarshal grants rs)"

text \<open>
  The rewards of a block are exact: for each of the four kinds of reward, \<open>RewardAt\<close>
  returns the sum of the amounts of all entries of that kind in the granting receipts.
\<close>

theorem RewardAt_totals:
  assumes "RewardAt unmarshal blk grants = Inr t" and "is_reward k"
  shows "\<exists>es. block_entries unmarshal grants (b_receipts blk) = Inr es \<and>
    total_of k t = sum_rows (\<lambda>l. rl_type l = k) amount_of es"
proof -
  let ?body = "\<lambda>r t0.
       let t = t0\<lparr>rt_gas := rt_gas t0 + r_gas_consumed r\<rparr> in
       if r_action_hash r \<in> grants
       then bindE (RewardInfoFromReceipt unmarshal (r_logs r)) (\<lambda>m.
              Inr (fold (\<lambda>kv. add_info (snd kv)) m t))
       else Inr t"
  have pay: "is_payout k" using assms(2) by (auto simp: is_reward_def)
  have gas: "total_of k (t0\<lparr>rt_gas := g\<rparr>) = total_of k t0" for t0 g
    by (cases k) simp_all
  have "foldE ?body rs t0 = Inr t \<Longrightarrow> \<exists>es. block_entries unmarshal grants rs = Inr es \<and>
      total_of k t = total_of k t0 + sum_rows (\<lambda>l. rl_type l = k) amount_of es" for rs t0
  proof (induction rs arbitrary: t0)
    case Nil
    then show ?case by simp
  next
    case (Cons r rs)
    then obtain t1 where t1: "?body r t0 = Inr t1" "foldE ?body rs t1 = Inr t"
      by (auto simp: bindE_eq_Inr)
    from Cons.IH [OF t1(2)] obtain es where es: "block_entries unmarshal grants rs = Inr es"
      "total_of k t = total_of k t1 + sum_rows (\<lambda>l. rl_type l = k) amount_of es" by blast
    show ?case
    proof (cases "r_action_hash r \<in> grants")
      case False
      with t1(1) es gas show ?thesis by (auto simp: Let_def)
    next
      case True
      with t1(1) obtain m where m: "RewardInfoFromReceipt unmarshal (r_logs r) = Inr m"
          "t1 = fold (\<lambda>kv. add_info (snd kv)) m (t0\<lparr>rt_gas := rt_gas t0 + r_gas_consumed r\<rparr>)"
        by (auto simp: Let_def bindE_eq_Inr)
      from RewardInfoFromReceipt_sums_up [OF m(1)] obtain es1
        where es1: "reward_entries unmarshal (r_logs r) = Inr es1" "sums_up es1 m" by blast
      have "total_of k t1 = total_of k t0 + sum_rows (\<lambda>l. rl_type l = k) amount_of es1"
        unfolding m(2) fold_add_info [OF assms(2)] gas sums_up_total [OF es1(2) pay] ..
      with es es1 True show ?thesis by simp
    qed
  qed
  from this [OF assms(1) [unfolded RewardAt_def]] show ?thesis
    using assms(2) by (auto simp: is_reward_def)
qed

definition example_reward_block :: block where
  "example_reward_block = \<lparr>b_height = 1, b_timestamp = 0, b_actions = [],
     b_receipts = [\<lparr>r_status = 1, r_action_hash = [9], r_gas_consumed = 3, r_tx_index = 0,
       r_logs = [example_reward_log], r_tx_logs = []\<rparr>]\<rparr>"

theorem RewardAt_totals_witness:
  "\<exists>t es. RewardAt (\<lambda>_. Inr example_rewards) example_reward_block {[9]} = Inr t
     \<and> block_entries (\<lambda>_. Inr example_rewards) {[9]} (b_receipts example_reward_block) = Inr es
     \<and> rt_epoch t = 12 \<and> total_of RL_EPOCH_REWARD t = sum_rows (\<lambda>l. rl_type l = RL_EPOCH_REWARD) amount_of es"
proof -
  obtain t where t: "RewardAt (\<lambda>_. Inr example_rewards) example_reward_block {[9]} = Inr t"
      "rt_epoch t = 12"
    by (simp add: RewardAt_def example_reward_block_def example_reward_run add_info_def no_rewards_def)
  show ?thesis
    using RewardAt_totals [OF t(1), of RL_EPOCH_REWARD] t by (auto simp: is_reward_def)
qed

end
