(* ===== verification/Slash.thy ===== *)
theory Slash
  imports Candidates RewardLog
begin

text \<open>
  The slash table (models/slash.go), the lookup in the self-stake table
  (models/candidate_self_stake.go) and the slash plugin (plugins/slash/slash.go), which turns
  the unproductive-slash entries of the epoch reward into rows, one per height and address.
\<close>

subsection \<open>Tables\<close>

record slash_row =
  sl_height :: u64
  sl_action_hash :: string
  sl_operator :: string
  sl_candidate :: string
  sl_bucket :: u64
  sl_amount :: int

definition FetchSlashByActionHash :: "string \<Rightarrow> slash_row list \<Rightarrow> slash_row list" where
  "FetchSlashByActionHash h rows = filter (\<lambda>r. sl_action_hash r = h) rows"

record css_row =
  cs_height :: u64
  cs_action_hash :: string
  cs_tx_index :: nat
  cs_candidate :: string
  cs_bucket :: u64

text \<open>\<open>Order("block_height desc,tx_index desc").Take\<close>\<close>

definition css_later :: "css_row \<Rightarrow> css_row \<Rightarrow> bool" where
  "css_later a b \<longleftrightarrow> cs_height a > cs_height b \<or>
     (cs_height a = cs_height b \<and> cs_tx_index a \<ge> cs_tx_index b)"

definition css_FetchByCandidateIDWithHeight :: "string \<Rightarrow> u64 \<Rightarrow> css_row list \<Rightarrow> css_row res" where
  "css_FetchByCandidateIDWithHeight cid h rows =
     (case fold (\<lambda>r best. if cs_height r \<le> h \<and> cs_candidate r = cid \<and>
                    (case best of None \<Rightarrow> True | Some b \<Rightarrow> css_later r b)
                  then Some r else best) rows None of
        None \<Rightarrow> Inl RecordNotFound | Some r \<Rightarrow> Inr r)"

subsection \<open>The handler\<close>

text \<open>The loop from the last action down to the first.\<close>

definition epoch_reward_hash :: "envelope list \<Rightarrow> hash256 option" where
  "epoch_reward_hash acts =
     map_option e_hash (find (\<lambda>e. e_action e = GrantReward EpochReward) (rev acts))"

text \<open>\<open>ON CONFLICT (block_height, operator_address) DO UPDATE\<close>\<close>

definition upsert_slash :: "slash_row \<Rightarrow> slash_row list \<Rightarrow> slash_row list" where
  "upsert_slash m rows =
     (if \<exists>r \<in> set rows. sl_height r = sl_height m \<and> sl_operator r = sl_operator m
      then map (\<lambda>r. if sl_height r = sl_height m \<and> sl_operator r = sl_operator m
                    then r\<lparr>sl_action_hash := sl_action_hash m, sl_amount := sl_amount m,
                           sl_candidate := sl_candidate m, sl_bucket := sl_bucket m\<rparr> else r) rows
      else rows @ [m])"

record slash_env =
  se_unmarshal :: "byte list \<Rightarrow> reward_log list res"
  se_candidates :: "cand_row list"
  se_self_stakes :: "css_row list"

definition slash_row_of ::
  "slash_env \<Rightarrow> u64 \<Rightarrow> string \<Rightarrow> string \<times> reward_info \<Rightarrow> slash_row res" where
  "slash_row_of env h act_hash kv =
     (case kv of (addr, info) \<Rightarrow>
        bindE (FetchByOwnerOrOperatorWithHeight addr h (se_candidates env)) (\<lambda>c.
        bindE (case css_FetchByCandidateIDWithHeight (cr_id c) h (se_self_stakes env) of
                 Inl e \<Rightarrow> if e = RecordNotFound then Inr 0 else Inl e
               | Inr s \<Rightarrow> Inr (cs_bucket s)) (\<lambda>bid.
        Inr \<lparr>sl_height = h, sl_action_hash = act_hash, sl_operator = addr, sl_candidate = cr_id c,
             sl_bucket = bid, sl_amount = UnproductiveSlash_of info\<rparr>)))"

definition slash_entry ::
  "slash_env \<Rightarrow> u64 \<Rightarrow> string \<Rightarrow> string \<times> reward_info \<Rightarrow> slash_row list \<Rightarrow> slash_row list res" where
  "slash_entry env h act_hash kv rows =
     (if UnproductiveSlash_of (snd kv) = 0 then Inr rows
      else bindE (slash_row_of env h act_hash kv) (\<lambda>m. Inr (upsert_slash m rows)))"

definition slash_handleBlock :: "slash_env \<Rightarrow> block \<Rightarrow> slash_row list \<Rightarrow> slash_row list res" where
  "slash_handleBlock env blk rows =
     (case epoch_reward_hash (b_actions blk) of
        None \<Rightarrow> Inr rows
      | Some [] \<Rightarrow> Inr rows
      | Some h \<Rightarrow>
          (case find (\<lambda>r. r_action_hash r = h) (b_receipts blk) of
             None \<Rightarrow> Inl (Err ''cannot find receipt for epoch reward action'')
           | Some r \<Rightarrow>
               bindE (RewardInfoFromReceipt (se_unmarshal env) (r_logs r)) (\<lambda>m.
               foldE (slash_entry env (b_height blk) (hex_encode h)) m rows)))"

subsection \<open>Replaying a block\<close>

text \<open>The rows of key \<open>(height, address)\<close> are all equal to \<open>m\<close>, and there is one.\<close>

definition holds_row :: "slash_row \<Rightarrow> slash_row list \<Rightarrow> bool" where
  "holds_row m rows \<longleftrightarrow> m \<in> set rows \<and>
     (\<forall>r \<in> set rows. sl_height r = sl_height m \<and> sl_operator r = sl_operator m \<longrightarrow> r = m)"

lemma overwrite_row:
  assumes "sl_height r = sl_height m" and "sl_operator r = sl_operator m"
  shows "r\<lparr>sl_action_hash := sl_action_hash m, sl_amount := sl_amount m,
            sl_candidate := sl_candidate m, sl_bucket := sl_bucket m\<rparr> = (m :: slash_row)"
  using assms by (intro slash_row.equality) simp_all

lemma upsert_holds: "holds_row m (upsert_slash m rows)"
  by (auto simp: holds_row_def upsert_slash_def overwrite_row image_iff)

lemma upsert_held: "holds_row m rows \<Longrightarrow> upsert_slash m rows = rows"
  by (auto simp: holds_row_def upsert_slash_def overwrite_row intro!: map_idI)

lemma upsert_keeps:
  assumes "holds_row m rows" and "sl_operator n \<noteq> sl_operator m"
  shows "holds_row m (upsert_slash n rows)"
proof -
  let ?f = "\<lambda>r. if sl_height r = sl_height n \<and> sl_operator r = sl_operator n
    then r\<lparr>sl_action_hash := sl_action_hash n, sl_amount := sl_amount n,
           sl_candidate := sl_candidate n, sl_bucket := sl_bucket n\<rparr> else r"
  have "m \<in> ?f ` set rows" using assms by (auto simp: holds_row_def image_iff)
  moreover have "r = m" if "r \<in> ?f ` set rows" "sl_height r = sl_height m" "sl_operator r = sl_operator m" for r
    using that assms by (auto simp: holds_row_def split: if_splits)
  ultimately show ?thesis
    using assms by (auto simp: holds_row_def upsert_slash_def)
qed

lemma slash_row_of_operator: "slash_row_of env h a kv = Inr m \<Longrightarrow> sl_operator m = fst kv"
  by (cases kv) (auto simp: slash_row_of_def bindE_eq_Inr)

lemma slash_entries_hold:
  assumes "foldE (slash_entry env h a) m rows = Inr rows'" and "distinct (map fst m)"
    and "kv \<in> set m" and "UnproductiveSlash_of (snd kv) \<noteq> 0"
  shows "\<exists>r. slash_row_of env h a kv = Inr r \<and> holds_row r rows'"
  using assms
proof (induction m arbitrary: rows)
  case Nil
  then show ?case by simp
next
  case (Cons x xs)
  then obtain u where u: "slash_entry env h a x rows = Inr u" "foldE (slash_entry env h a) xs u = Inr rows'"
    by (auto simp: bindE_eq_Inr)
  show ?case
  proof (cases "kv = x")
    case False
    with Cons u show ?thesis by auto
  next
    case True
    with u(1) Cons.prems(4) obtain r where r: "slash_row_of env h a kv = Inr r" "u = upsert_slash r rows"
      by (auto simp: slash_entry_def bindE_eq_Inr)
    from slash_row_of_operator [OF r(1)] True have op: "sl_operator r = fst x" by simp
    have "holds_row r rows'"
    proof (rule foldE_invariant [where P = "holds_row r", OF u(2)])
      show "holds_row r u" using r(2) upsert_holds by simp
      fix y v w
      assume y: "y \<in> set xs" and v: "holds_row r v" and step: "slash_entry env h a y v = Inr w"
      from y have "fst y \<in> fst ` set xs" by (rule imageI)
      moreover have "fst x \<notin> fst ` set xs" using Cons.prems(2) by simp
      ultimately have "fst y \<noteq> fst x" by metis
      with step v op show "holds_row r w"
        by (auto simp: slash_entry_def bindE_eq_Inr dest!: slash_row_of_operator
            intro: upsert_keeps split: if_splits)
    qed
    with r show ?thesis by blast
  qed
qed

lemma slash_entries_again:
  assumes "\<And>kv. kv \<in> set m \<Longrightarrow> UnproductiveSlash_of (snd kv) \<noteq> 0 \<Longrightarrow>
      \<exists>r. slash_row_of env h a kv = Inr r \<and> holds_row r rows"
  shows "foldE (slash_entry env h a) m rows = Inr rows"
  using assms
proof (induction m)
  case Nil
  then show ?case by simp
next
  case (Cons x xs)
  have "slash_entry env h a x rows = Inr rows"
    using Cons.prems [of x] upsert_held by (fastforce simp: slash_entry_def)
  with Cons show ?case by simp
qed

text \<open>
  Slashes are safe to replay. Handling a block again changes nothing: the upsert on height
  and address finds each row with the values it is about to write.
\<close>

theorem slash_handleBlock_idempotent:
  assumes "slash_handleBlock env blk rows = Inr rows'"
  shows "slash_handleBlock env blk rows' = Inr rows'"
proof (cases "epoch_reward_hash (b_actions blk) = None \<or> epoch_reward_hash (b_actions blk) = Some []")
  case True
  with assms show ?thesis by (auto simp: slash_handleBlock_def)
next
  case False
  then obtain c cs where h: "epoch_reward_hash (b_actions blk) = Some (c # cs)"
    by (metis option.exhaust list.exhaust)
  with assms obtain r m where r: "find (\<lambda>r. r_action_hash r = c # cs) (b_receipts blk) = Some r"
      and m: "RewardInfoFromReceipt (se_unmarshal env) (r_logs r) = Inr m"
      and run: "foldE (slash_entry env (b_height blk) (hex_encode (c # cs))) m rows = Inr rows'"
    by (auto simp: slash_handleBlock_def bindE_eq_Inr split: option.splits)
  have "distinct (map fst m)"
    using RewardInfoFromReceipt_sums_up [OF m] by (auto simp: sums_up_def)
  from slash_entries_again [OF slash_entries_hold [OF run this]] h r m show ?thesis
    by (simp add: slash_handleBlock_def)
qed

definition slash_env0 :: slash_env where
  "slash_env0 = \<lparr>se_unmarshal = (\<lambda>_. Inr [\<lparr>rl_type = RL_UNPRODUCTIVE_SLASH, rl_addr = ''own'', rl_amount = ''40''\<rparr>]),
     se_candidates = [reg_row 1 ''a'' ''op'' ''own''], se_self_stakes = []\<rparr>"

definition slash_block :: block where
  "slash_block = \<lparr>b_height = 9, b_timestamp = 0,
     b_actions = [\<lparr>e_hash = [3], e_sender = ''p'', e_action = GrantReward EpochReward\<rparr>],
     b_receipts = [(cand_receipt [3])\<lparr>r_logs := [example_reward_log]\<rparr>]\<rparr>"

definition slash_example_row :: slash_row where
  "slash_example_row = \<lparr>sl_height = 9, sl_action_hash = hex_encode [3], sl_operator = ''own'',
     sl_candidate = ''own'', sl_bucket = 0, sl_amount = 40\<rparr>"

lemma slash_example_run: "slash_handleBlock slash_env0 slash_block [] = Inr [slash_example_row]"
  by (simp add: slash_handleBlock_def slash_block_def slash_env0_def epoch_reward_hash_def
      cand_receipt_def RewardInfoFromReceipt_def example_reward_log_def reward_entry_def
      parse_int10_def parse_nat_def digit_value_def Let_def no_rewards_def slash_entry_def
      slash_row_of_def FetchByOwnerOrOperatorWithHeight_def take_newest_def newest_def reg_row_def
      css_FetchByCandidateIDWithHeight_def upsert_slash_def slash_example_row_def)

theorem slash_handleBlock_idempotent_witness:
  "slash_handleBlock slash_env0 slash_block [slash_example_row] = Inr [slash_example_row]"
  by (rule slash_handleBlock_idempotent [OF slash_example_run])

end
