(* ===== verification/StakingLog.thy ===== *)
theory StakingLog
  imports Chain
begin

text \<open>
  service/stakinglog/bucketindex.go: the bucket index that the receipt logs of the native
  staking protocol name. The event ids, the handler topics and the ABI decoder of the Staked
  event come from iotex-core and go-ethereum and are arguments (\<open>staking_abi\<close>).
\<close>

text \<open>
  \<open>sl_unpack_staked\<close> is the first non-indexed argument of a Staked event's data, when the ABI
  decoder accepts the data and the argument is a uint64.
\<close>

record staking_abi =
  stakedTopic :: hash256
  candidateActivatedTopic :: hash256
  registeredTopic :: hash256
  legacyBucketTopics :: "hash256 list"
  sl_unpack_staked :: "byte list \<Rightarrow> u64 option"

definition ProtocolAddress :: string where
  "ProtocolAddress = ''io1qnpz47hx5q6r3w876axtrn6yz95d70cjl35r53''"

definition NoBucket :: u64 where
  "NoBucket = - 1"

definition uint64FromTopic :: "hash256 \<Rightarrow> u64 option" where
  "uint64FromTopic w =
     (if \<exists>b \<in> set (take 24 w). b \<noteq> 0 then None else Some (be_uint64 (drop 24 w)))"

definition indexFromEventData :: "staking_abi \<Rightarrow> log \<Rightarrow> u64 option" where
  "indexFromEventData abi l =
     (if hd (log_topics l) = stakedTopic abi then sl_unpack_staked abi (log_data l)
      else if length (log_data l) < 32 then None
      else uint64FromTopic (take 32 (log_data l)))"

text \<open>One round of the loop, on the variables \<open>idx, found\<close> (as an option) and \<open>sawRegistered\<close>.\<close>

definition bucket_log :: "staking_abi \<Rightarrow> log \<Rightarrow> u64 option \<times> bool \<Rightarrow> u64 option \<times> bool" where
  "bucket_log abi l st =
     (case st of (found, sawRegistered) \<Rightarrow>
        if log_address l \<noteq> ProtocolAddress \<or> log_topics l = [] then (found, sawRegistered)
        else let t = hd (log_topics l) in
          if t = stakedTopic abi \<or> t = candidateActivatedTopic abi
          then (case indexFromEventData abi l of
                  Some v \<Rightarrow> (Some v, sawRegistered)
                | None \<Rightarrow> (found, sawRegistered))
          else if t = registeredTopic abi then (found, True)
          else if t \<notin> set (legacyBucketTopics abi) \<or> length (log_topics l) < 2
          then (found, sawRegistered)
          else (case uint64FromTopic (log_topics l ! 1) of
                  Some v \<Rightarrow> (Some v, sawRegistered)
                | None \<Rightarrow> (found, sawRegistered)))"

definition BucketIndex :: "staking_abi \<Rightarrow> log list \<Rightarrow> u64 option" where
  "BucketIndex abi logs =
     (case fold (bucket_log abi) logs (None, False) of
        (Some v, _) \<Rightarrow> Some v
      | (None, True) \<Rightarrow> Some NoBucket
      | (None, False) \<Rightarrow> None)"

subsection \<open>Properties\<close>

lemma all_zero_replicate: "(\<forall>b \<in> set bs. b = 0) \<longleftrightarrow> bs = replicate (length bs) 0"
  by (metis in_set_replicate replicate_length_same)

text \<open>
  A topic is read as the bucket index \<open>v\<close> exactly when it is the 32-byte big-endian word of
  \<open>v\<close>: every index is read back, and a topic with anything above the low eight bytes, such as
  an address, is never taken for an index.
\<close>

theorem uint64FromTopic_iff:
  assumes "length w = 32"
  shows "uint64FromTopic w = Some v \<longleftrightarrow> w = replicate 24 0 @ be_bytes 8 (unat v)"
proof -
  have split: "w = take 24 w @ drop 24 w" by simp
  have len: "length (take 24 w) = 24" "length (drop 24 w) = 8" using assms by auto
  have zero: "(\<forall>b \<in> set (take 24 w). b = 0) \<longleftrightarrow> take 24 w = replicate 24 0"
    using all_zero_replicate [of "take 24 w"] len by simp
  have low: "be_uint64 (drop 24 w) = v \<longleftrightarrow> drop 24 w = be_bytes 8 (unat v)"
  proof
    assume "be_uint64 (drop 24 w) = v"
    then have "word_of_nat (be_nat (drop 24 w)) = v" using len by (simp add: be_uint64_def)
    moreover have "be_nat (drop 24 w) < 2 ^ 64" using be_nat_bound [of "drop 24 w"] len by simp
    ultimately have "unat v = be_nat (drop 24 w)"
      by (auto simp: unsigned_of_nat take_bit_nat_eq_self)
    then show "drop 24 w = be_bytes 8 (unat v)"
      using be_bytes_be_nat [of "drop 24 w"] len by simp
  next
    assume "drop 24 w = be_bytes 8 (unat v)"
    then show "be_uint64 (drop 24 w) = v" by (simp add: be_uint64_be_bytes)
  qed
  have "w = replicate 24 0 @ be_bytes 8 (unat v) \<longleftrightarrow>
      take 24 w = replicate 24 0 \<and> drop 24 w = be_bytes 8 (unat v)"
    using split len by (metis append_eq_conv_conj length_replicate)
  with zero low show ?thesis by (auto simp: uint64FromTopic_def)
qed

theorem uint64FromTopic_iff_witness:
  "uint64FromTopic (replicate 24 0 @ be_bytes 8 (unat (300 :: u64))) = Some 300"
  by (subst uint64FromTopic_iff) simp_all

definition is_registered :: "staking_abi \<Rightarrow> log \<Rightarrow> bool" where
  "is_registered abi l \<longleftrightarrow> log_address l = ProtocolAddress \<and> log_topics l \<noteq> [] \<and>
     hd (log_topics l) = registeredTopic abi \<and>
     hd (log_topics l) \<noteq> stakedTopic abi \<and> hd (log_topics l) \<noteq> candidateActivatedTopic abi"

lemma fold_bucket_log_flag:
  "fold (bucket_log abi) logs (f, s) =
     (fst (fold (bucket_log abi) logs (f, False)), s \<or> snd (fold (bucket_log abi) logs (f, False)))"
proof (induction logs arbitrary: f s)
  case Nil
  then show ?case by simp
next
  case (Cons l ls)
  have step: "bucket_log abi l (f, s) =
      (fst (bucket_log abi l (f, False)), s \<or> snd (bucket_log abi l (f, False)))"
    by (auto simp: bucket_log_def Let_def split: option.splits)
  obtain f1 s1 where l: "bucket_log abi l (f, False) = (f1, s1)" by fastforce
  have "fold (bucket_log abi) (l # ls) (f, s) = fold (bucket_log abi) ls (f1, s \<or> s1)"
    using step l by simp
  also have "\<dots> = (fst (fold (bucket_log abi) ls (f1, False)),
      (s \<or> s1) \<or> snd (fold (bucket_log abi) ls (f1, False)))"
    by (rule Cons.IH)
  also have "\<dots> = (fst (fold (bucket_log abi) ls (f1, s1)), s \<or> snd (fold (bucket_log abi) ls (f1, s1)))"
    by (subst (3 4) Cons.IH) simp
  finally show ?case using l by simp
qed

text \<open>
  The bucket index does not depend on where the CandidateRegistered log stands: wherever it
  is put among the other logs, an index they name is still the result, and if they name none
  the result is \<open>NoBucket\<close> (a registration without bucket) instead of a decode failure.
\<close>

theorem BucketIndex_registered_anywhere:
  assumes "is_registered abi l"
  shows "BucketIndex abi (before @ l # after) =
    Some (case BucketIndex abi (before @ after) of None \<Rightarrow> NoBucket | Some v \<Rightarrow> v)"
proof -
  obtain f s where bs: "fold (bucket_log abi) before (None, False) = (f, s)" by fastforce
  have "bucket_log abi l (f, s) = (f, True)"
    using assms by (auto simp: bucket_log_def is_registered_def Let_def)
  then show ?thesis
    using bs fold_bucket_log_flag [of abi after f True] fold_bucket_log_flag [of abi after f s]
    by (auto simp: BucketIndex_def split: option.splits bool.splits)
qed

definition example_abi :: staking_abi where
  "example_abi = \<lparr>stakedTopic = [1], candidateActivatedTopic = [2], registeredTopic = [3],
     legacyBucketTopics = [[4]], sl_unpack_staked = (\<lambda>d. Some (be_uint64 d))\<rparr>"

definition example_log :: "hash256 list \<Rightarrow> byte list \<Rightarrow> log" where
  "example_log topics data = \<lparr>log_address = ProtocolAddress, log_topics = topics, log_data = data\<rparr>"

theorem BucketIndex_registered_anywhere_witness:
  "BucketIndex example_abi [example_log [[3]] [], example_log [[1]] (be_bytes 8 7)] = Some 7
   \<and> BucketIndex example_abi [example_log [[3]] []] = Some NoBucket"
proof -
  have reg: "is_registered example_abi (example_log [[3]] [])"
    by (simp add: is_registered_def example_abi_def example_log_def)
  have "BucketIndex example_abi ([] @ [example_log [[1]] (be_bytes 8 7)]) = Some 7"
    using be_uint64_be_bytes [of 7]
    by (simp add: BucketIndex_def bucket_log_def indexFromEventData_def example_abi_def example_log_def)
  moreover have "BucketIndex example_abi ([] @ []) = None"
    by (simp add: BucketIndex_def)
  ultimately show ?thesis
    using BucketIndex_registered_anywhere [OF reg, of "[]" "[example_log [[1]] (be_bytes 8 7)]"]
      BucketIndex_registered_anywhere [OF reg, of "[]" "[]"]
    by simp
qed

end
