(* ===== verification/GoFloat.thy ===== *)
theory GoFloat
  imports Prelude
begin

text \<open>
  Go's non-negative \<open>float64\<close> values, as the code uses them: \<open>F64 m e\<close> is the number
  \<open>m * 2^e\<close>. Every operation computes the exact result and rounds it to 53 significant
  bits, to nearest and ties to even, as IEEE 754 asks. Values that overflow, subnormal
  values, infinities and NaN do not occur where the code computes with floats (batch sizes
  and vote weights) and are not represented. \<open>big.Float\<close> rounds in the same way, to the
  precision it was given.
\<close>

datatype f64 = F64 (mantissa: nat) (exponent: int)

fun bitlen :: "nat \<Rightarrow> nat" where
  "bitlen n = (if n = 0 then 0 else Suc (bitlen (n div 2)))"

declare bitlen.simps [simp del]

definition round_prec :: "nat \<Rightarrow> nat \<Rightarrow> int \<Rightarrow> f64" where
  "round_prec p m e =
     (let k = bitlen m in
      if k \<le> p then F64 m e
      else let s = k - p; q = m div 2 ^ s; r = m mod 2 ^ s; h = 2 ^ (s - 1)
           in F64 (if r > h \<or> (r = h \<and> odd q) then q + 1 else q) (e + int s))"

definition f_of_nat :: "nat \<Rightarrow> f64" where
  "f_of_nat n = round_prec 53 n 0"

fun f_mul_prec :: "nat \<Rightarrow> f64 \<Rightarrow> f64 \<Rightarrow> f64" where
  "f_mul_prec p (F64 a x) (F64 b y) = round_prec p (a * b) (x + y)"

definition f_mul :: "f64 \<Rightarrow> f64 \<Rightarrow> f64" where
  "f_mul = f_mul_prec 53"

fun f_add :: "f64 \<Rightarrow> f64 \<Rightarrow> f64" where
  "f_add (F64 a x) (F64 b y) =
     (let e = min x y in round_prec 53 (a * 2 ^ nat (x - e) + b * 2 ^ nat (y - e)) e)"

text \<open>
  Division scales the dividend so that the integer quotient has at least 55 bits and keeps
  one sticky bit for the remainder, which decides every rounding as the exact quotient does.
\<close>

fun f_div :: "f64 \<Rightarrow> f64 \<Rightarrow> f64" where
  "f_div (F64 a x) (F64 b y) =
     (let k = 55 + bitlen b; q = (a * 2 ^ k) div b; r = (a * 2 ^ k) mod b
      in round_prec 53 (2 * q + (if r = 0 then 0 else 1)) (x - y - int k - 1))"

fun f_trunc :: "f64 \<Rightarrow> nat" where
  "f_trunc (F64 m e) = (if 0 \<le> e then m * 2 ^ nat e else m div 2 ^ nat (- e))"

fun f_ceil :: "f64 \<Rightarrow> nat" where
  "f_ceil (F64 m e) =
     (if 0 \<le> e then m * 2 ^ nat e
      else let d = 2 ^ nat (- e) in m div d + (if m mod d = 0 then 0 else 1))"

fun f_pos :: "f64 \<Rightarrow> bool" where
  "f_pos (F64 m e) \<longleftrightarrow> m \<noteq> 0"

subsection \<open>Bit length\<close>

lemma bitlen_0 [simp]: "bitlen 0 = 0"
  by (subst bitlen.simps) simp

lemma bitlen_pos: "0 < n \<Longrightarrow> bitlen n = Suc (bitlen (n div 2))"
  by (subst bitlen.simps) simp

lemma bitlen_less: "n < 2 ^ bitlen n"
proof (induction n rule: bitlen.induct)
  case (1 n)
  show ?case
  proof (cases "n = 0")
    case False
    with 1 have "n div 2 < 2 ^ bitlen (n div 2)" by simp
    then have "n < 2 * 2 ^ bitlen (n div 2)" by linarith
    with False show ?thesis by (simp add: bitlen_pos)
  qed simp
qed

lemma bitlen_le: "n < 2 ^ k \<Longrightarrow> bitlen n \<le> k"
proof (induction k arbitrary: n)
  case 0
  then show ?case by simp
next
  case (Suc k)
  then have "n div 2 < 2 ^ k" by (simp add: less_mult_imp_div_less mult.commute)
  then have "bitlen (n div 2) \<le> k" by (rule Suc.IH)
  then show ?case by (cases "n = 0") (auto simp: bitlen_pos)
qed

lemma bitlen_eq: "2 ^ k \<le> n \<Longrightarrow> n < 2 ^ Suc k \<Longrightarrow> bitlen n = Suc k"
proof -
  assume lo: "2 ^ k \<le> n" and hi: "n < 2 ^ Suc k"
  have "\<not> bitlen n \<le> k"
  proof
    assume "bitlen n \<le> k"
    then have "(2::nat) ^ bitlen n \<le> 2 ^ k" by simp
    with bitlen_less [of n] lo show False by linarith
  qed
  with bitlen_le [OF hi] show ?thesis by simp
qed

subsection \<open>Rounding\<close>

lemma round_prec_exact: "m < 2 ^ p \<Longrightarrow> round_prec p m e = F64 m e"
  using bitlen_le [of m p] by (simp add: round_prec_def Let_def)

lemma f_of_nat_exact: "n < 2 ^ 53 \<Longrightarrow> f_of_nat n = F64 n 0"
  by (simp add: f_of_nat_def round_prec_exact)

text \<open>Rounding a value that is at least an integer with few enough bits stays at least it.\<close>

lemma round_prec_ge:
  assumes "k * 2 ^ d \<le> m" and "m < 2 ^ (p + d)"
  shows "k \<le> f_trunc (round_prec p m (- int d))"
proof (cases "bitlen m \<le> p")
  case True
  have "k \<le> m div 2 ^ d"
    using assms(1) by (simp add: less_eq_div_iff_mult_less_eq)
  with True show ?thesis
    by (cases "d = 0") (simp_all add: round_prec_def Let_def)
next
  case False
  define s where "s = bitlen m - p"
  have s: "s \<le> d" using bitlen_le [OF assms(2)] by (simp add: s_def)
  define q where "q = m div 2 ^ s"
  define q' where "q' = (if m mod 2 ^ s > 2 ^ (s - 1) \<or> (m mod 2 ^ s = 2 ^ (s - 1) \<and> odd q)
    then q + 1 else q)"
  have q': "q \<le> q'" "round_prec p m (- int d) = F64 q' (- int d + int s)"
    using False by (simp_all add: round_prec_def Let_def s_def q_def q'_def)
  have "(k * 2 ^ (d - s)) * 2 ^ s = k * 2 ^ d"
    using s by (simp add: power_add [symmetric])
  with assms(1) have "(k * 2 ^ (d - s)) * 2 ^ s \<le> m" by (simp only:)
  then have "k * 2 ^ (d - s) \<le> q"
    by (simp add: q_def less_eq_div_iff_mult_less_eq)
  with q'(1) have le: "k * 2 ^ (d - s) \<le> q'" by simp
  show ?thesis
  proof (cases "s = d")
    case True
    with le q'(2) show ?thesis by simp
  next
    case False
    with s have "nat (- (- int d + int s)) = d - s" and "\<not> 0 \<le> - int d + int s" by auto
    with le q'(2) show ?thesis by (simp add: less_eq_div_iff_mult_less_eq)
  qed
qed

text \<open>The dual bound: rounding a value that is at most an integer stays at most it.\<close>

lemma round_prec_below:
  assumes "m \<le> k * 2 ^ d" and "m < 2 ^ (p + d)"
  obtains q j where "round_prec p m (- int d) = F64 q (- int j)" and "q \<le> k * 2 ^ j"
proof (cases "bitlen m \<le> p")
  case True
  with assms(1) that show ?thesis by (simp add: round_prec_def Let_def)
next
  case False
  define s where "s = bitlen m - p"
  have s: "s \<le> d" using bitlen_le [OF assms(2)] by (simp add: s_def)
  define q where "q = m div 2 ^ s"
  define q' where "q' = (if m mod 2 ^ s > 2 ^ (s - 1) \<or> (m mod 2 ^ s = 2 ^ (s - 1) \<and> odd q)
    then q + 1 else q)"
  have r: "round_prec p m (- int d) = F64 q' (- int (d - s))"
    using False s by (simp add: round_prec_def Let_def s_def q_def q'_def of_nat_diff)
  have eq: "(k * 2 ^ (d - s)) * 2 ^ s = k * 2 ^ d"
    using s by (simp add: power_add [symmetric])
  have le: "m \<le> (k * 2 ^ (d - s)) * 2 ^ s" using assms(1) by (simp only: eq)
  have m: "m = q * 2 ^ s + m mod 2 ^ s" by (simp only: q_def div_mult_mod_eq)
  have "q' \<le> k * 2 ^ (d - s)"
  proof (cases "m mod 2 ^ s = 0")
    case True
    then have "q' = q" by (simp add: q'_def)
    moreover from le m have "q * 2 ^ s \<le> (k * 2 ^ (d - s)) * 2 ^ s" by linarith
    then have "q \<le> k * 2 ^ (d - s)" by simp
    ultimately show ?thesis by simp
  next
    case nz: False
    from nz le m have "q * 2 ^ s < (k * 2 ^ (d - s)) * 2 ^ s" by linarith
    then have "q < k * 2 ^ (d - s)" by simp
    then show ?thesis by (simp add: q'_def)
  qed
  with r that show ?thesis by blast
qed

lemma f_trunc_below: "q \<le> k * 2 ^ j \<Longrightarrow> f_trunc (F64 q (- int j)) \<le> k"
  using div_le_mono [of q "k * 2 ^ j" "2 ^ j"] by (cases "j = 0") simp_all

lemma round_prec_le:
  assumes "m \<le> k * 2 ^ d" and "m < 2 ^ (p + d)"
  shows "f_trunc (round_prec p m (- int d)) \<le> k"
  using assms by (rule round_prec_below) (simp only: f_trunc_below)

subsection \<open>Exact results\<close>

text \<open>\<open>x\<close> holds the integer \<open>n\<close> exactly.\<close>

definition f_exact :: "f64 \<Rightarrow> nat \<Rightarrow> bool" where
  "f_exact x n \<longleftrightarrow> (\<exists>d. x = F64 (n * 2 ^ d) (- int d))"

lemma f_exact_trunc: "f_exact x n \<Longrightarrow> f_trunc x = n"
proof -
  assume "f_exact x n"
  then obtain d where "x = F64 (n * 2 ^ d) (- int d)" by (auto simp: f_exact_def)
  then show ?thesis by (cases "d = 0") simp_all
qed

lemma f_exact_round:
  assumes "n < 2 ^ 53"
  shows "f_exact (round_prec 53 (n * 2 ^ d) (- int d)) n"
proof (cases "bitlen (n * 2 ^ d) \<le> 53")
  case True
  then show ?thesis by (auto simp: f_exact_def round_prec_def Let_def)
next
  case False
  define s where "s = bitlen (n * 2 ^ d) - 53"
  have "n * 2 ^ d < 2 ^ 53 * 2 ^ d" using assms by simp
  then have "n * 2 ^ d < 2 ^ (53 + d)" by (simp only: power_add)
  then have "s \<le> d" using bitlen_le by (fastforce simp: s_def)
  then have split: "n * 2 ^ d = (n * 2 ^ (d - s)) * 2 ^ s"
    by (simp add: power_add [symmetric])
  have "n * 2 ^ d div 2 ^ s = n * 2 ^ (d - s)" and "n * 2 ^ d mod 2 ^ s = 0"
    unfolding split by simp_all
  then have "round_prec 53 (n * 2 ^ d) (- int d) = F64 (n * 2 ^ (d - s)) (- int (d - s))"
    using False \<open>s \<le> d\<close> by (simp add: round_prec_def Let_def s_def [symmetric] of_nat_diff)
  then show ?thesis by (auto simp: f_exact_def)
qed

lemma f_exact_of_nat: "n < 2 ^ 53 \<Longrightarrow> f_exact (f_of_nat n) n"
  using f_exact_round [of n 0] by (simp add: f_of_nat_def)

lemma f_exact_add:
  assumes "f_exact x a" and "f_exact y b" and "a + b < 2 ^ 53"
  shows "f_exact (f_add x y) (a + b)"
proof -
  obtain d d' where x: "x = F64 (a * 2 ^ d) (- int d)" and y: "y = F64 (b * 2 ^ d') (- int d')"
    using assms(1,2) by (auto simp: f_exact_def)
  define e where "e = max d d'"
  have min: "min (- int d) (- int d') = - int e" by (simp add: e_def)
  have shifts: "nat (- int d + int e) = e - d" "nat (- int d' + int e) = e - d'"
    by (simp_all add: e_def nat_diff_distrib')
  have "2 ^ d * 2 ^ (e - d) = (2 ^ e :: nat)" "2 ^ d' * 2 ^ (e - d') = (2 ^ e :: nat)"
    by (simp_all add: e_def power_add [symmetric])
  then have "a * 2 ^ d * 2 ^ (e - d) = a * 2 ^ e" "b * 2 ^ d' * 2 ^ (e - d') = b * 2 ^ e"
    by (simp_all only: mult.assoc)
  note eqs = this
  have "f_add x y = round_prec 53 (a * 2 ^ d * 2 ^ (e - d) + b * 2 ^ d' * 2 ^ (e - d')) (- int e)"
    using shifts by (simp only: x y f_add.simps min Let_def diff_minus_eq_add)
  also have "\<dots> = round_prec 53 ((a + b) * 2 ^ e) (- int e)"
    by (simp only: eqs distrib_right)
  finally show ?thesis using f_exact_round [OF assms(3), of e] by simp
qed

lemma f_exact_div:
  assumes "f_exact x (c * b)" and "0 < b" and "c < 2 ^ 53"
  shows "f_exact (f_div x (F64 b 0)) c"
proof -
  obtain d where x: "x = F64 (c * b * 2 ^ d) (- int d)"
    using assms(1) by (auto simp: f_exact_def)
  define k where "k = 55 + bitlen b"
  have prod_eq: "c * b * 2 ^ d * 2 ^ k = (c * 2 ^ (d + k)) * b" by (simp add: power_add)
  have "c * b * 2 ^ d * 2 ^ k div b = c * 2 ^ (d + k)" "c * b * 2 ^ d * 2 ^ k mod b = 0"
    unfolding prod_eq using assms(2) by simp_all
  then have "f_div x (F64 b 0) = round_prec 53 (2 * (c * 2 ^ (d + k)) + 0) (- int d - 0 - int k - 1)"
    by (simp only: x f_div.simps Let_def k_def if_True simp_thms)
  moreover have "2 * (c * 2 ^ (d + k)) + 0 = c * 2 ^ (d + k + 1)"
      "- int d - 0 - int k - 1 = - int (d + k + 1)" by simp_all
  ultimately have "f_div x (F64 b 0) = round_prec 53 (c * 2 ^ (d + k + 1)) (- int (d + k + 1))"
    by (simp only:)
  with f_exact_round [OF assms(3), of "d + k + 1"] show ?thesis by simp
qed

end
