(* ===== verification/IndexStore.thy ===== *)
theory IndexStore
  imports Prelude
begin

text \<open>
  The index height store of db/index.go (the \<open>index_heights\<close> table behind the process-wide
  \<open>indexCache\<close>), the database transaction the plugins run their blocks in, and the schema
  helpers of db/db.go. A database statement that fails is an input of the model: the flags
  of \<open>tx_faults\<close> say which statement of a transaction the database refuses.
\<close>

subsection \<open>State\<close>

text \<open>
  \<open>tables\<close> are the tables of the plugins, \<open>heights\<close> the rows of \<open>index_heights\<close> (name to
  height) and \<open>index_cache\<close> the sync.Map. The first two live in the database and are
  rolled back with a failed transaction; the cache lives in the process.
\<close>

record 'tbl world =
  tables :: 'tbl
  heights :: "string \<rightharpoonup> u64"
  index_cache :: "string \<rightharpoonup> u64"

subsection \<open>Operations\<close>

definition ClearIndexCache :: "'tbl world \<Rightarrow> 'tbl world" where
  "ClearIndexCache w = w\<lparr>index_cache := Map.empty\<rparr>"

text \<open>
  \<open>UpdateColumn("height")\<close> with \<open>WHERE name = ?\<close> changes the row if there is one. The cache
  is stored first, whatever the statement answers.
\<close>

definition update_height_row :: "string \<Rightarrow> u64 \<Rightarrow> 'tbl world \<Rightarrow> 'tbl world" where
  "update_height_row name h w =
     (if name \<in> dom (heights w) then w\<lparr>heights := (heights w)(name \<mapsto> h)\<rparr> else w)"

definition UpdateIndexHeightByTx ::
  "bool \<Rightarrow> string \<Rightarrow> u64 \<Rightarrow> 'tbl world \<Rightarrow> unit res \<times> 'tbl world" where
  "UpdateIndexHeightByTx stmt_ok name h w =
     (let w1 = w\<lparr>index_cache := (index_cache w)(name \<mapsto> h)\<rparr>
      in if stmt_ok then (Inr (), update_height_row name h w1) else (Inl DbError, w1))"

definition UpdateIndexHeight ::
  "bool \<Rightarrow> string \<Rightarrow> u64 \<Rightarrow> 'tbl world \<Rightarrow> unit res \<times> 'tbl world" where
  "UpdateIndexHeight stmt_ok name h w =
     (let w1 = w\<lparr>index_cache := (index_cache w)(name \<mapsto> h)\<rparr>
      in if stmt_ok then (Inr (), update_height_row name h w1) else (Inl DbError, w1))"

text \<open>\<open>ByName\<close>: the row of that name, or gorm.ErrRecordNotFound.\<close>

definition ByName :: "bool \<Rightarrow> string \<Rightarrow> 'tbl world \<Rightarrow> u64 res" where
  "ByName stmt_ok name w =
     (if \<not> stmt_ok then Inl DbError
      else case heights w name of None \<Rightarrow> Inl RecordNotFound | Some h \<Rightarrow> Inr h)"

definition GetIndexHeight ::
  "bool \<Rightarrow> bool \<Rightarrow> string \<Rightarrow> 'tbl world \<Rightarrow> u64 res \<times> 'tbl world" where
  "GetIndexHeight read_ok create_ok name w =
     (case index_cache w name of
        Some h \<Rightarrow> (Inr h, w)
      | None \<Rightarrow>
          (case ByName read_ok name w of
             Inl e \<Rightarrow>
               (if e \<noteq> RecordNotFound then (Inl e, w)
                else if create_ok then (Inr 0, w\<lparr>heights := (heights w)(name \<mapsto> 0)\<rparr>)
                else (Inl DbError, w))
           | Inr h \<Rightarrow> (Inr h, w\<lparr>index_cache := (index_cache w)(name \<mapsto> h)\<rparr>)))"

definition GetCommittedIndexHeight :: "bool \<Rightarrow> string \<Rightarrow> 'tbl world \<Rightarrow> u64 res" where
  "GetCommittedIndexHeight read_ok name w =
     (case ByName read_ok name w of
        Inl e \<Rightarrow> if e = RecordNotFound then Inr 0 else Inl e
      | Inr h \<Rightarrow> Inr h)"

subsection \<open>Transactions\<close>

text \<open>
  \<open>db.DB().Transaction(fc)\<close>: an error of the body (a panic included) or a refused commit
  undoes what was written to the database, and only that.
\<close>

definition rollback :: "'tbl world \<Rightarrow> 'tbl world \<Rightarrow> 'tbl world" where
  "rollback w w' = w'\<lparr>tables := tables w, heights := heights w\<rparr>"

definition transaction ::
  "bool \<Rightarrow> ('tbl world \<Rightarrow> unit res \<times> 'tbl world) \<Rightarrow> 'tbl world \<Rightarrow> unit res \<times> 'tbl world" where
  "transaction commit_ok body w =
     (case body w of
        (Inl e, w') \<Rightarrow> (Inl e, rollback w w')
      | (Inr u, w') \<Rightarrow> if commit_ok then (Inr u, w') else (Inl DbError, rollback w w'))"

text \<open>
  The shape every transactional plugin gives its body: the handler of the blocks, then the
  index height. \<open>body_fault\<close> is a statement of the handler the database refuses,
  \<open>height_fault\<close> the update of the index height, \<open>commit_fault\<close> the commit.
\<close>

record tx_faults =
  body_fault :: bool
  height_fault :: bool
  commit_fault :: bool

definition no_faults :: tx_faults where
  "no_faults = \<lparr>body_fault = False, height_fault = False, commit_fault = False\<rparr>"

definition index_tx ::
  "tx_faults \<Rightarrow> string \<Rightarrow> u64 res \<Rightarrow> ('tbl \<Rightarrow> 'tbl res) \<Rightarrow> 'tbl world \<Rightarrow> unit res \<times> 'tbl world" where
  "index_tx f name tip handler w =
     transaction (\<not> commit_fault f)
       (\<lambda>w0. case handler (tables w0) of
                Inl e \<Rightarrow> (Inl e, w0)
              | Inr t \<Rightarrow>
                  if body_fault f then (Inl DbError, w0)
                  else (case tip of
                          Inl e \<Rightarrow> (Inl e, w0\<lparr>tables := t\<rparr>)
                        | Inr h \<Rightarrow>
                            UpdateIndexHeightByTx (\<not> height_fault f) name h (w0\<lparr>tables := t\<rparr>))) w"

subsection \<open>Schema helpers\<close>

text \<open>
  The schema as the set of existing tables with their columns and, for each, its rows.
  \<open>DropTable\<close> removes the tables given, \<open>CreateTable\<close> makes them empty with all columns of
  the model.
\<close>

record 'row table_def =
  columns :: "string list"
  content :: "'row list"

type_synonym 'row schema = "string \<rightharpoonup> 'row table_def"

definition CreateTable :: "(string \<times> string list) \<Rightarrow> 'row schema \<Rightarrow> 'row schema res" where
  "CreateTable m s =
     (if fst m \<in> dom s then Inl DbError
      else Inr (s(fst m \<mapsto> \<lparr>columns = snd m, content = []\<rparr>)))"

definition AutoMigrate ::
  "u64 res \<Rightarrow> (string \<times> string list) list \<Rightarrow> 'row schema \<Rightarrow> 'row schema res" where
  "AutoMigrate height dst s =
     bindE height (\<lambda>h.
       if h = 0
       then foldE CreateTable dst (s |` (- set (map fst dst)))
       else Inr s)"

definition EnsureTables :: "(string \<times> string list) list \<Rightarrow> 'row schema \<Rightarrow> 'row schema res" where
  "EnsureTables dst s =
     foldE (\<lambda>m s. if fst m \<in> dom s then Inr s else CreateTable m s) dst s"

definition EnsureColumns :: "string \<Rightarrow> string list \<Rightarrow> 'row schema \<Rightarrow> 'row schema" where
  "EnsureColumns name fs s =
     (case s name of
        None \<Rightarrow> s
      | Some _ \<Rightarrow>
          fold (\<lambda>f s. case s name of
                        None \<Rightarrow> s
                      | Some t \<Rightarrow> if f \<in> set (columns t) then s
                                  else s(name \<mapsto> t\<lparr>columns := columns t @ [f]\<rparr>)) fs s)"

subsection \<open>The key-value store\<close>

text \<open>db/store.go: the row's value and its create and update times.\<close>

record store_row =
  sr_value :: string
  sr_create_at :: int
  sr_update_at :: int

definition Store_Save ::
  "int \<Rightarrow> string \<Rightarrow> string \<Rightarrow> (string \<rightharpoonup> store_row) \<Rightarrow> (string \<rightharpoonup> store_row)" where
  "Store_Save now key val s =
     (case s key of
        Some r \<Rightarrow> s(key \<mapsto> r\<lparr>sr_value := val, sr_update_at := now\<rparr>)
      | None \<Rightarrow> s(key \<mapsto> \<lparr>sr_value = val, sr_create_at = now, sr_update_at = now\<rparr>))"

definition Store_Get :: "string \<Rightarrow> (string \<rightharpoonup> store_row) \<Rightarrow> store_row res" where
  "Store_Get key s = (case s key of None \<Rightarrow> Inl RecordNotFound | Some r \<Rightarrow> Inr r)"

subsection \<open>Lemmas on transactions\<close>

lemma rollback_simps [simp]:
  "tables (rollback w w') = tables w"
  "heights (rollback w w') = heights w"
  "index_cache (rollback w w') = index_cache w'"
  by (simp_all add: rollback_def)

lemma update_height_row_simps [simp]:
  "tables (update_height_row n h w) = tables w"
  "index_cache (update_height_row n h w) = index_cache w"
  "heights (update_height_row n h w) =
     (if n \<in> dom (heights w) then (heights w)(n \<mapsto> h) else heights w)"
  by (simp_all add: update_height_row_def)

lemma index_tx_ok:
  assumes "index_tx f name tip handler w = (Inr (), w')"
  obtains t h where "handler (tables w) = Inr t" and "tip = Inr h" and "tables w' = t"
    and "index_cache w' = (index_cache w)(name \<mapsto> h)"
    and "heights w' = (if name \<in> dom (heights w) then (heights w)(name \<mapsto> h) else heights w)"
  using assms
  by (fastforce simp: index_tx_def transaction_def UpdateIndexHeightByTx_def Let_def
      split: sum.splits if_splits)

lemma index_tx_error:
  assumes "index_tx f name tip handler w = (Inl e, w')"
  shows "tables w' = tables w \<and> heights w' = heights w \<and>
    (index_cache w' = index_cache w \<or>
     (\<exists>t h. handler (tables w) = Inr t \<and> tip = Inr h \<and> \<not> body_fault f \<and>
            (height_fault f \<or> commit_fault f) \<and> index_cache w' = (index_cache w)(name \<mapsto> h)))"
  using assms
  by (auto simp: index_tx_def transaction_def UpdateIndexHeightByTx_def Let_def
      split: sum.splits if_splits)

lemma index_tx_no_faults:
  assumes "handler (tables w) = Inr t" and "tip = Inr h"
  shows "index_tx no_faults name tip handler w =
    (Inr (), update_height_row name h
               (w\<lparr>tables := t, index_cache := (index_cache w)(name \<mapsto> h)\<rparr>))"
  using assms
  by (simp add: index_tx_def transaction_def UpdateIndexHeightByTx_def Let_def no_faults_def
      update_height_row_def)

lemma GetIndexHeight_cached [simp]:
  "index_cache w name = Some h \<Longrightarrow> GetIndexHeight r c name w = (Inr h, w)"
  by (simp add: GetIndexHeight_def)

subsection \<open>Lemmas on the schema\<close>

lemma foldE_CreateTable:
  assumes "distinct (map fst dst)" and "set (map fst dst) \<inter> dom s = {}"
  shows "\<exists>s'. foldE CreateTable dst s = Inr s' \<and>
     (\<forall>n. s' n = (case map_of dst n of
                    None \<Rightarrow> s n
                  | Some cs \<Rightarrow> Some \<lparr>columns = cs, content = []\<rparr>))"
  using assms
proof (induction dst arbitrary: s)
  case Nil
  then show ?case by simp
next
  case (Cons m ms)
  let ?s1 = "s(fst m \<mapsto> \<lparr>columns = snd m, content = []\<rparr>)"
  have mk: "CreateTable m s = Inr ?s1"
    using Cons.prems by (simp add: CreateTable_def)
  have "distinct (map fst ms)" "set (map fst ms) \<inter> dom ?s1 = {}"
    using Cons.prems by auto
  then obtain s' where s': "foldE CreateTable ms ?s1 = Inr s'"
    "\<forall>n. s' n = (case map_of ms n of None \<Rightarrow> ?s1 n
                  | Some cs \<Rightarrow> Some \<lparr>columns = cs, content = []\<rparr>)"
    using Cons.IH by blast
  have "map_of ms (fst m) = None"
    using Cons.prems by (simp add: map_of_eq_None_iff)
  then show ?case
    using mk s' by (cases m) (auto split: option.splits)
qed

lemma EnsureTables_keeps:
  assumes "EnsureTables dst s = Inr s'" and "s n = Some t"
  shows "s' n = Some t"
  by (rule foldE_invariant [where P = "\<lambda>s. s n = Some t", OF assms(1) [unfolded EnsureTables_def] assms(2)])
    (auto simp: CreateTable_def split: if_splits)

lemma EnsureTables_total: "\<exists>s'. EnsureTables dst s = Inr s'"
  unfolding EnsureTables_def by (rule foldE_total) (auto simp: CreateTable_def)

lemma EnsureColumns_content:
  "map_option content (EnsureColumns name fs s n) = map_option content (s n)"
proof -
  have "map_option content (fold (\<lambda>f s. case s name of None \<Rightarrow> s
      | Some t \<Rightarrow> if f \<in> set (columns t) then s
                  else s(name \<mapsto> t\<lparr>columns := columns t @ [f]\<rparr>)) fs s n)
    = map_option content (s n)"
    by (induction fs arbitrary: s) (auto split: option.splits)
  then show ?thesis
    by (simp add: EnsureColumns_def split: option.splits)
qed

subsection \<open>Properties\<close>

text \<open>
  C4: After a transaction that commits, the cached and the committed index height of its
  plugin agree and are the height the transaction recorded, and its tables are what its
  handler made of the tables before.
\<close>

theorem index_tx_heights_agree:
  assumes "index_tx f name tip handler w = (Inr (), w')" and "name \<in> dom (heights w)"
  shows "\<exists>h. tip = Inr h \<and> handler (tables w) = Inr (tables w')
    \<and> GetIndexHeight read_ok create_ok name w' = (Inr h, w')
    \<and> GetCommittedIndexHeight True name w' = Inr h"
proof -
  from assms(1) obtain t h where "handler (tables w) = Inr t" "tip = Inr h" "tables w' = t"
    and "index_cache w' = (index_cache w)(name \<mapsto> h)"
    and "heights w' = (if name \<in> dom (heights w) then (heights w)(name \<mapsto> h) else heights w)"
    by (rule index_tx_ok)
  with assms(2) show ?thesis
    by (simp add: GetCommittedIndexHeight_def ByName_def)
qed

theorem index_tx_heights_agree_witness:
  "\<exists>w'. index_tx no_faults ''slash'' (Inr 9) (\<lambda>t. Inr (t + 1))
       \<lparr>tables = 1 :: nat, heights = [''slash'' \<mapsto> 3], index_cache = [''slash'' \<mapsto> 3]\<rparr> = (Inr (), w')
    \<and> GetIndexHeight True True ''slash'' w' = (Inr 9, w')
    \<and> GetCommittedIndexHeight True ''slash'' w' = Inr 9"
proof -
  let ?w = "\<lparr>tables = 1 :: nat, heights = [''slash'' \<mapsto> 3 :: u64], index_cache = [''slash'' \<mapsto> 3]\<rparr>"
  obtain w' where run: "index_tx no_faults ''slash'' (Inr 9) (\<lambda>t. Inr (t + 1)) ?w = (Inr (), w')"
    by (simp add: index_tx_no_faults)
  from index_tx_heights_agree [OF run, of True True] run show ?thesis by simp
qed

text \<open>
  The schema migration of a plugin touches nothing once the plugin has indexed a block,
  and before that leaves exactly the plugin's own tables empty and with all their columns,
  every other table as it was.
\<close>

theorem AutoMigrate_spec:
  assumes "distinct (map fst dst)"
  shows "\<exists>s'. AutoMigrate (Inr h) dst s = Inr s' \<and>
    (\<forall>n. s' n = (if h \<noteq> 0 then s n
                 else case map_of dst n of
                        None \<Rightarrow> s n
                      | Some cs \<Rightarrow> Some \<lparr>columns = cs, content = []\<rparr>))"
proof (cases "h = 0")
  case False
  then show ?thesis by (simp add: AutoMigrate_def)
next
  case True
  let ?s = "s |` (- set (map fst dst))"
  have "set (map fst dst) \<inter> dom ?s = {}" by auto
  from foldE_CreateTable [OF assms this] obtain s' where
    s': "foldE CreateTable dst ?s = Inr s'"
      "\<forall>n. s' n = (case map_of dst n of None \<Rightarrow> ?s n | Some cs \<Rightarrow> Some \<lparr>columns = cs, content = []\<rparr>)"
    by blast
  have "map_of dst n = None \<Longrightarrow> ?s n = s n" for n
    by (simp add: map_of_eq_None_iff restrict_map_def)
  with s' True show ?thesis
    by (auto simp: AutoMigrate_def split: option.splits)
qed

theorem AutoMigrate_spec_witness:
  "\<exists>s'. AutoMigrate (Inr 0) [(''slash'', [''amount''])]
      [''slash'' \<mapsto> \<lparr>columns = [], content = [1 :: nat]\<rparr>, ''block'' \<mapsto> \<lparr>columns = [], content = [2]\<rparr>] = Inr s'
    \<and> s' ''slash'' = Some \<lparr>columns = [''amount''], content = []\<rparr>
    \<and> s' ''block'' = Some \<lparr>columns = [], content = [2]\<rparr>"
  using AutoMigrate_spec [of "[(''slash'', [''amount''])]" 0
      "[''slash'' \<mapsto> \<lparr>columns = [], content = [1 :: nat]\<rparr>, ''block'' \<mapsto> \<lparr>columns = [], content = [2]\<rparr>]"]
  by fastforce

end
