(* ===== verification/BatchSize.thy ===== *)
theory BatchSize
  imports GoFloat
begin

text \<open>
  The adaptive batch size of server/batch_size_manager.go and the fetch loop of
  server/runner.go (\<open>fetchBlocks\<close>) that shrinks it. The mutex makes each operation
  atomic, so an operation is a function of the manager's state.
\<close>

subsection \<open>State and operations\<close>

record batch_mgr =
  effective_size :: u64
  max_size :: u64
  consecutive_successes :: int

definition batchSizeIncreaseThreshold :: int where
  "batchSizeIncreaseThreshold = 10"

definition batchSizeIncreaseStep :: f64 where
  "batchSizeIncreaseStep = F64 5404319552844595 (- 52)" \<comment> \<open>1.2 as a float64\<close>

definition batchSizeDecreaseRatio :: f64 where
  "batchSizeDecreaseRatio = F64 1 (- 1)"

definition minBatchSize :: u64 where
  "minBatchSize = 1"

definition newBatchSizeManager :: "u64 \<Rightarrow> batch_mgr" where
  "newBatchSizeManager initial =
     \<lparr>effective_size = initial, max_size = initial, consecutive_successes = 0\<rparr>"

definition getCurrent :: "batch_mgr \<Rightarrow> u64" where
  "getCurrent m = effective_size m"

text \<open>\<open>uint64(float64(n) * c)\<close>\<close>

definition scale_u64 :: "f64 \<Rightarrow> u64 \<Rightarrow> u64" where
  "scale_u64 c n = word_of_nat (f_trunc (f_mul (f_of_nat (unat n)) c))"

definition onSuccess :: "batch_mgr \<Rightarrow> batch_mgr" where
  "onSuccess m =
     (let m1 = m\<lparr>consecutive_successes := consecutive_successes m + 1\<rparr> in
      if consecutive_successes m1 \<ge> batchSizeIncreaseThreshold
      then let oldSize = effective_size m1;
               scaled = scale_u64 batchSizeIncreaseStep oldSize;
               newSize = (if scaled > max_size m1 then max_size m1 else scaled)
           in if newSize > oldSize
              then m1\<lparr>effective_size := newSize, consecutive_successes := 0\<rparr>
              else m1
      else m1)"

definition onFailure :: "u64 \<Rightarrow> batch_mgr \<Rightarrow> u64 \<times> batch_mgr" where
  "onFailure failedSize m =
     (let scaled = scale_u64 batchSizeDecreaseRatio failedSize;
          newSize = (if scaled < minBatchSize then minBatchSize else scaled)
      in (newSize, m\<lparr>effective_size := newSize, consecutive_successes := 0\<rparr>))"

text \<open>
  \<open>runner.fetchBlocks\<close>: \<open>dao\<close> is \<open>BatchGetBlocks\<close> of the block source. The recursion has no
  bound of its own: a source that keeps answering ResourceExhausted at batch size 1 keeps
  it going, so a call that does not return is \<open>None\<close>.
\<close>

partial_function (option) fetchBlocks ::
  "(u64 \<Rightarrow> u64 \<Rightarrow> 'blk list res) \<Rightarrow> u64 \<Rightarrow> u64 \<Rightarrow> batch_mgr \<Rightarrow> ('blk list res \<times> batch_mgr) option" where
  "fetchBlocks dao start count m =
     (if count = 0 then Some (Inr [], m)
      else case dao start count of
             Inr blks \<Rightarrow> Some (Inr blks, m)
           | Inl e \<Rightarrow>
               if e = ResourceExhausted
               then (case onFailure count m of (newCount, m') \<Rightarrow> fetchBlocks dao start newCount m')
               else Some (Inl e, m))"

subsection \<open>Scaling\<close>

lemma scale_half:
  assumes "unat n < 2 ^ 53"
  shows "unat (scale_u64 batchSizeDecreaseRatio n) = unat n div 2"
proof -
  have "f_trunc (f_mul (f_of_nat (unat n)) batchSizeDecreaseRatio) = unat n div 2"
    using assms
    by (simp add: f_of_nat_exact f_mul_def batchSizeDecreaseRatio_def round_prec_exact)
  moreover have "unat n div 2 < 2 ^ LENGTH(64)"
    using assms by simp
  ultimately show ?thesis
    by (simp add: scale_u64_def unsigned_of_nat take_bit_nat_eq_self)
qed

lemma scale_up_small: "n < 5 \<Longrightarrow> scale_u64 batchSizeIncreaseStep n = n"
proof -
  assume "n < 5"
  then have "unat n < 5" by (simp add: word_less_nat_alt)
  then have "unat n = 0 \<or> unat n = 1 \<or> unat n = 2 \<or> unat n = 3 \<or> unat n = 4" by arith
  then have "f_trunc (f_mul (f_of_nat (unat n)) batchSizeIncreaseStep) = unat n"
    by (elim disjE)
      (simp_all add: f_of_nat_exact f_mul_def batchSizeIncreaseStep_def round_prec_def Let_def
        bitlen_eq [of 52] bitlen_eq [of 53] bitlen_eq [of 54])
  then show ?thesis by (simp add: scale_u64_def)
qed

text \<open>Between 5 and \<open>2^52\<close> the step of 1.2 gains at least one block and at most doubles.\<close>

lemma scale_up_nat:
  assumes "6 \<le> n" and "n < 2 ^ 52"
  shows "n + 1 \<le> f_trunc (f_mul (f_of_nat n) batchSizeIncreaseStep)"
    and "f_trunc (f_mul (f_of_nat n) batchSizeIncreaseStep) \<le> 2 * n"
proof -
  have bound: "n * 5404319552844595 < 2 ^ (53 + 52)"
    using assms(2) by simp
  have eq: "f_mul (f_of_nat n) batchSizeIncreaseStep
      = round_prec 53 (n * 5404319552844595) (- int 52)"
    using assms(2) by (simp add: f_mul_def f_of_nat_exact batchSizeIncreaseStep_def)
  have "(n + 1) * 2 ^ 52 \<le> n * 5404319552844595"
    using assms(1) by simp
  from round_prec_ge [OF this bound]
  show "n + 1 \<le> f_trunc (f_mul (f_of_nat n) batchSizeIncreaseStep)"
    by (simp only: eq)
  have "n * 5404319552844595 \<le> (2 * n) * 2 ^ 52" by simp
  from round_prec_le [OF this bound]
  show "f_trunc (f_mul (f_of_nat n) batchSizeIncreaseStep) \<le> 2 * n"
    by (simp only: eq)
qed

lemma scale_up_five: "f_trunc (f_mul (f_of_nat 5) batchSizeIncreaseStep) = 6"
  by (simp add: f_of_nat_exact f_mul_def batchSizeIncreaseStep_def round_prec_def Let_def
      bitlen_eq [of 54])

lemma scale_up_grows:
  assumes "5 \<le> n" and "unat n < 2 ^ 52"
  shows "n < scale_u64 batchSizeIncreaseStep n"
proof -
  let ?t = "f_trunc (f_mul (f_of_nat (unat n)) batchSizeIncreaseStep)"
  have ge5: "5 \<le> unat n" using assms(1) by (simp add: word_le_nat_alt)
  have "unat n + 1 \<le> ?t \<and> ?t \<le> 2 * unat n"
  proof (cases "unat n = 5")
    case True
    then show ?thesis by (simp add: scale_up_five)
  next
    case False
    with ge5 have "6 \<le> unat n" by simp
    from scale_up_nat [OF this assms(2)] show ?thesis by blast
  qed
  moreover from this have "?t < 2 ^ LENGTH(64)"
    using assms(2) by simp
  ultimately show ?thesis
    by (simp add: scale_u64_def word_less_nat_alt unsigned_of_nat take_bit_nat_eq_self)
qed

subsection \<open>The manager\<close>

lemma onSuccess_max [simp]: "max_size (onSuccess m) = max_size m"
  by (simp add: onSuccess_def Let_def)

lemma onFailure_max [simp]: "max_size (snd (onFailure n m)) = max_size m"
  by (simp add: onFailure_def Let_def)

lemma onFailure_halves:
  assumes "unat n < 2 ^ 53"
  shows "unat (fst (onFailure n m)) = max 1 (unat n div 2)"
  using scale_half [OF assms]
  by (auto simp: onFailure_def Let_def minBatchSize_def word_less_nat_alt)

lemma onFailure_pos: "0 < fst (onFailure n m)"
  by (auto simp: onFailure_def Let_def minBatchSize_def word_less_nat_alt)

lemma onFailure_state:
  "effective_size (snd (onFailure n m)) = fst (onFailure n m)"
  "consecutive_successes (snd (onFailure n m)) = 0"
  by (simp_all add: onFailure_def Let_def)

lemma onSuccess_effective:
  "effective_size (onSuccess m) = effective_size m \<or>
   (effective_size m < effective_size (onSuccess m) \<and> effective_size (onSuccess m) \<le> max_size m)"
  by (auto simp: onSuccess_def Let_def)

lemma onSuccess_small: "effective_size m < 5 \<Longrightarrow> effective_size (onSuccess m) = effective_size m"
  by (auto simp: onSuccess_def Let_def scale_up_small)

lemma funpow_onSuccess_max: "max_size ((onSuccess ^^ k) m) = max_size m"
  by (induction k) auto

subsection \<open>Properties of the manager and of the fetch loop\<close>

text \<open>
  Ten successes in a row raise a batch size of at least 5 that is below the configured
  maximum: the new size is strictly larger, at most the maximum, and the success counter
  starts again at 0.
\<close>

lemma onSuccess_grows:
  assumes "9 \<le> consecutive_successes m" and "5 \<le> effective_size m"
    and "unat (effective_size m) < 2 ^ 52" and "effective_size m < max_size m"
  shows "effective_size m < effective_size (onSuccess m)
    \<and> effective_size (onSuccess m) \<le> max_size m
    \<and> consecutive_successes (onSuccess m) = 0"
  using assms scale_up_grows [OF assms(2,3)]
  by (auto simp: onSuccess_def Let_def batchSizeIncreaseThreshold_def)

text \<open>
  A batch size below 5 never grows again, however many fetches succeed: 20 per cent of
  it is less than one block, and the conversion to uint64 cuts the fraction off.
\<close>

theorem onSuccess_stuck_below_five:
  assumes "effective_size m < 5"
  shows "effective_size ((onSuccess ^^ k) m) = effective_size m"
proof (induction k)
  case 0
  then show ?case by simp
next
  case (Suc k)
  with assms show ?case by (simp add: onSuccess_small)
qed

theorem onSuccess_stuck_below_five_witness:
  "effective_size ((onSuccess ^^ 1000)
     \<lparr>effective_size = 4, max_size = 512, consecutive_successes = 0\<rparr>) = 4"
  by (subst onSuccess_stuck_below_five) simp_all

text \<open>
  While the node answers ResourceExhausted to single-block requests too, fetchBlocks
  never returns: the batch size cannot go below 1, so the recursion repeats the same call.
\<close>

theorem fetchBlocks_diverges_at_one:
  assumes "dao start 1 = Inl ResourceExhausted"
  shows "fetchBlocks dao start 1 m = None"
proof (rule ccontr)
  assume "fetchBlocks dao start 1 m \<noteq> None"
  then obtain r where r: "fetchBlocks dao start 1 m = Some r" by blast
  have "\<not> (dao start 1 = Inl ResourceExhausted \<and> (1 :: u64) = 1)"
  proof (rule fetchBlocks.raw_induct [where P = "\<lambda>dao start count m r.
        \<not> (dao start 1 = Inl ResourceExhausted \<and> count = 1)", OF _ r])
    fix f dao start count m r
    assume IH: "\<And>dao start count m r. f dao start count m = Some r \<Longrightarrow>
        \<not> (dao start 1 = Inl ResourceExhausted \<and> count = (1 :: u64))"
      and eq: "(if count = 0 then Some (Inr [], m)
        else case dao start count of
               Inl e \<Rightarrow> if e = ResourceExhausted
                 then (case onFailure count m of (newCount, m') \<Rightarrow> f dao start newCount m')
                 else Some (Inl e, m)
             | Inr blks \<Rightarrow> Some (Inr blks, m)) = Some (r :: 'c list res \<times> batch_mgr)"
    have one: "fst (onFailure 1 m) = 1"
      using onFailure_halves [of 1 m] by (simp add: word_unat_eq_iff)
    show "\<not> (dao start 1 = Inl ResourceExhausted \<and> count = 1)"
    proof
      assume ex: "dao start 1 = Inl ResourceExhausted \<and> count = 1"
      with eq one have "f dao start 1 (snd (onFailure 1 m)) = Some r"
        by (cases "onFailure 1 m") auto
      from IH [OF this] ex show False by simp
    qed
  qed
  with assms show False by simp
qed

theorem fetchBlocks_diverges_at_one_witness:
  "fetchBlocks (\<lambda>_ _. Inl ResourceExhausted :: nat list res) 7 1 (newBatchSizeManager 512) = None"
  by (rule fetchBlocks_diverges_at_one) simp

text \<open>
  C36: If single-block requests are not refused for their size, fetchBlocks returns, and what
  it returns is the source's answer to some request for at least one and at most \<open>count\<close>
  blocks from the same start height; the configured maximum is kept.
\<close>

theorem fetchBlocks_returns:
  assumes "dao start 1 \<noteq> Inl ResourceExhausted" and "0 < count" and "unat count < 2 ^ 53"
  shows "\<exists>c m'. fetchBlocks dao start count m = Some (dao start c, m')
    \<and> 0 < c \<and> c \<le> count \<and> max_size m' = max_size m"
  using assms(2,3)
proof (induction "unat count" arbitrary: count m rule: less_induct)
  case less
  show ?case
  proof (cases "dao start count = Inl ResourceExhausted")
    case False
    then have "fetchBlocks dao start count m = Some (dao start count, m)"
      using less.prems by (auto simp: fetchBlocks.simps split: sum.splits)
    with less.prems show ?thesis by blast
  next
    case True
    obtain n m1 where n: "onFailure count m = (n, m1)" by force
    have half: "unat n = max 1 (unat count div 2)"
      using onFailure_halves [OF less.prems(2), of m] n by simp
    have "count \<noteq> 1" using True assms(1) by auto
    then have "unat count \<noteq> 1" by (simp add: word_unat_eq_iff)
    moreover have "0 < unat count" using less.prems(1) by (simp add: word_less_nat_alt)
    ultimately have smaller: "unat n < unat count" using half by auto
    have "0 < n" using onFailure_pos [of count m] n by simp
    moreover have "unat n < 2 ^ 53" using smaller less.prems(2) by simp
    ultimately obtain c m' where c: "fetchBlocks dao start n m1 = Some (dao start c, m')"
        "0 < c" "c \<le> n" "max_size m' = max_size m1"
      using less.hyps [OF smaller] by blast
    have "count \<noteq> 0" using less.prems(1) by auto
    then have "fetchBlocks dao start count m = fetchBlocks dao start n m1"
      using True n by (simp add: fetchBlocks.simps [of dao start count m])
    moreover have "max_size m1 = max_size m" using onFailure_max [of count m] n by simp
    moreover have "c \<le> count" using c(3) smaller by (simp add: word_le_nat_alt)
    ultimately show ?thesis using c by auto
  qed
qed

theorem fetchBlocks_returns_witness:
  "\<exists>c m'. fetchBlocks (\<lambda>s c. if 100 < c then Inl ResourceExhausted else Inr [s]) 7 512
      (newBatchSizeManager 512) = Some (if 100 < c then Inl ResourceExhausted else Inr [7 :: u64], m')
    \<and> 0 < c \<and> c \<le> (512 :: u64) \<and> max_size m' = max_size (newBatchSizeManager 512)"
  by (rule fetchBlocks_returns [of "\<lambda>s c. if 100 < c then Inl ResourceExhausted else Inr [s]"]) simp_all

end
