(* ===== verification/BlockSource.thy ===== *)
theory BlockSource
  imports Chain
begin

text \<open>
  Reading blocks, kernel/block.go: attaching receipts and transaction logs to a block of the
  block DAO, the batch read of the local DAO, and decoding the node's raw blocks. The DAO
  and the node's client are arguments; \<open>to_hash\<close> is \<open>hash.BytesToHash256\<close>.
\<close>

subsection \<open>Transaction logs as the node sends them\<close>

record raw_txn =
  rt_type :: nat
  rt_amount :: string
  rt_sender :: string
  rt_recipient :: string

record raw_tx_log =
  rl_action_hash :: "byte list"
  rl_transactions :: "raw_txn list"

text \<open>The loop that turns one log's transactions into receipt transaction logs.\<close>

definition convert_txn :: "raw_txn \<Rightarrow> tx_log res" where
  "convert_txn t =
     (case parse_int10 (rt_amount t) of
        None \<Rightarrow> Inl (Err ''failed to parse transaction amount'')
      | Some a \<Rightarrow> Inr \<lparr>tl_type = rt_type t, tl_amount = a, tl_sender = rt_sender t,
                        tl_recipient = rt_recipient t\<rparr>)"

fun convert_txns :: "raw_txn list \<Rightarrow> tx_log list res" where
  "convert_txns [] = Inr []"
| "convert_txns (t # ts) =
     bindE (convert_txn t) (\<lambda>l. bindE (convert_txns ts) (\<lambda>ls. Inr (l # ls)))"

definition AddTransactionLogs :: "tx_log list \<Rightarrow> receipt \<Rightarrow> receipt" where
  "AddTransactionLogs logs r = r\<lparr>r_tx_logs := r_tx_logs r @ logs\<rparr>"

subsection \<open>processTransactionLog\<close>

text \<open>The inner loop over the block's receipts, for one log of action hash \<open>h\<close>.\<close>

fun attach_logs :: "hash256 \<Rightarrow> tx_log list \<Rightarrow> receipt list \<Rightarrow> receipt list res" where
  "attach_logs h logs [] = Inr []"
| "attach_logs h logs (r # rs) =
     (if r_action_hash r = h
      then let r' = (if length (r_tx_logs r) = 0 then AddTransactionLogs logs r else r)
           in if length (r_tx_logs r') \<noteq> length logs
              then Inl (Err ''transaction log length does not match'')
              else bindE (attach_logs h logs rs) (\<lambda>rs'. Inr (r' # rs'))
      else bindE (attach_logs h logs rs) (\<lambda>rs'. Inr (r # rs')))"

definition processTransactionLog ::
  "(byte list \<Rightarrow> hash256) \<Rightarrow> block \<Rightarrow> raw_tx_log list \<Rightarrow> block res" where
  "processTransactionLog to_hash blk tlogs =
     foldE (\<lambda>l b.
        if rl_transactions l = [] then Inr b
        else bindE (convert_txns (rl_transactions l)) (\<lambda>logs.
             bindE (attach_logs (to_hash (rl_action_hash l)) logs (b_receipts b)) (\<lambda>rs.
             Inr (b\<lparr>b_receipts := rs\<rparr>)))) tlogs blk"

subsection \<open>The block DAO\<close>

record dao =
  dao_height :: "u64 res"
  dao_get_block :: "u64 \<Rightarrow> block res"
  dao_get_receipts :: "u64 \<Rightarrow> receipt list res"
  dao_tx_logs :: "u64 \<Rightarrow> raw_tx_log list res"

definition GetBlockByHeightFromBlockDAO ::
  "(byte list \<Rightarrow> hash256) \<Rightarrow> dao \<Rightarrow> u64 \<Rightarrow> block res" where
  "GetBlockByHeightFromBlockDAO to_hash d h =
     bindE (dao_get_block d h) (\<lambda>blk.
     bindE (dao_get_receipts d h) (\<lambda>rs.
     bindE (dao_tx_logs d h) (\<lambda>tlogs.
     processTransactionLog to_hash (blk\<lparr>b_receipts := rs\<rparr>) tlogs)))"

text \<open>\<open>localBatchBlockDao.BatchGetBlocks\<close>: the loop over \<open>i = 0 .. count - 1\<close>.\<close>

fun local_batch :: "(u64 \<Rightarrow> block res) \<Rightarrow> u64 \<Rightarrow> nat \<Rightarrow> block list res" where
  "local_batch get start 0 = Inr []"
| "local_batch get start (Suc n) =
     bindE (local_batch get start n) (\<lambda>blks.
     bindE (get (start + word_of_nat n)) (\<lambda>blk. Inr (blks @ [blk])))"

definition local_BatchGetBlocks ::
  "(byte list \<Rightarrow> hash256) \<Rightarrow> dao \<Rightarrow> u64 \<Rightarrow> u64 \<Rightarrow> block list res" where
  "local_BatchGetBlocks to_hash d start count =
     local_batch (GetBlockByHeightFromBlockDAO to_hash d) start (unat count)"

subsection \<open>Blocks from the node\<close>

text \<open>
  One entry of \<open>GetRawBlocksResponse\<close>: the block the deserializer makes of it (or its
  error), the converted receipts and the transaction logs.
\<close>

record raw_block =
  rb_block :: "block res"
  rb_receipts :: "receipt list"
  rb_tx_logs :: "raw_tx_log list"

text \<open>
  \<open>receipts[actHash].AddTransactionLogs(logs...)\<close>: the map holds the last receipt of each
  hash; a hash without receipt yields the nil pointer, on which the call panics.
\<close>

fun add_to_last :: "hash256 \<Rightarrow> tx_log list \<Rightarrow> receipt list \<Rightarrow> receipt list res" where
  "add_to_last h logs [] = Inl (Panic ''nil pointer dereference'')"
| "add_to_last h logs (r # rs) =
     (if h \<in> r_action_hash ` set rs
      then bindE (add_to_last h logs rs) (\<lambda>rs'. Inr (r # rs'))
      else if r_action_hash r = h then Inr (AddTransactionLogs logs r # rs)
      else Inl (Panic ''nil pointer dereference''))"

definition decode_raw_block :: "(byte list \<Rightarrow> hash256) \<Rightarrow> raw_block \<Rightarrow> block res" where
  "decode_raw_block to_hash rb =
     bindE (rb_block rb) (\<lambda>blk.
     bindE (foldE (\<lambda>l rs.
              bindE (convert_txns (rl_transactions l)) (\<lambda>logs.
              add_to_last (to_hash (rl_action_hash l)) logs rs))
            (rb_tx_logs rb) (rb_receipts rb)) (\<lambda>rs.
     Inr (blk\<lparr>b_receipts := b_receipts blk @ rs\<rparr>)))"

fun decode_raw_blocks :: "(byte list \<Rightarrow> hash256) \<Rightarrow> raw_block list \<Rightarrow> block list res" where
  "decode_raw_blocks to_hash [] = Inr []"
| "decode_raw_blocks to_hash (rb # rbs) =
     bindE (decode_raw_block to_hash rb) (\<lambda>b.
     bindE (decode_raw_blocks to_hash rbs) (\<lambda>bs. Inr (b # bs)))"

definition GetBlocksFromChain ::
  "(byte list \<Rightarrow> hash256) \<Rightarrow> (u64 \<Rightarrow> u64 \<Rightarrow> raw_block list res) \<Rightarrow> u64 \<Rightarrow> u64 \<Rightarrow> block list res" where
  "GetBlocksFromChain to_hash get_raw start count =
     bindE (get_raw start count) (decode_raw_blocks to_hash)"

definition GetBlockByHeightFromChain ::
  "(byte list \<Rightarrow> hash256) \<Rightarrow> (u64 \<Rightarrow> u64 \<Rightarrow> raw_block list res) \<Rightarrow> u64 \<Rightarrow> block res" where
  "GetBlockByHeightFromChain to_hash get_raw h =
     bindE (GetBlocksFromChain to_hash get_raw h 1) (\<lambda>blks.
       case blks of [] \<Rightarrow> Inl (Err ''block not found at height'') | b # _ \<Rightarrow> Inr b)"

subsection \<open>Lemmas\<close>

lemma length_convert_txns: "convert_txns ts = Inr ls \<Longrightarrow> length ls = length ts"
  by (induction ts arbitrary: ls) (auto simp: bindE_eq_Inr)

lemma attach_logs_hashes:
  "attach_logs h logs rs = Inr rs' \<Longrightarrow> map r_action_hash rs' = map r_action_hash rs"
  by (induction rs arbitrary: rs')
    (auto simp: bindE_eq_Inr Let_def AddTransactionLogs_def split: if_splits)

lemma attach_logs_matching:
  assumes "attach_logs h logs rs = Inr rs'" and "r \<in> set rs'" and "r_action_hash r = h"
  shows "length (r_tx_logs r) = length logs"
  using assms
  by (induction rs arbitrary: rs')
    (auto simp: bindE_eq_Inr Let_def AddTransactionLogs_def split: if_splits)

lemma attach_logs_settled:
  assumes "\<And>r. r \<in> set rs \<Longrightarrow> r_action_hash r = h \<Longrightarrow>
      0 < length (r_tx_logs r) \<and> length (r_tx_logs r) = length logs"
  shows "attach_logs h logs rs = Inr rs"
  using assms
proof (induction rs)
  case Nil
  then show ?case by simp
next
  case (Cons a rs)
  have "attach_logs h logs rs = Inr rs"
    by (rule Cons.IH, rule Cons.prems) simp_all
  with Cons.prems [of a] show ?case by (cases "r_action_hash a = h") (auto simp: Let_def)
qed

text \<open>A receipt that already carries transaction logs keeps them.\<close>

lemma attach_logs_keeps:
  assumes "attach_logs h logs rs = Inr rs'"
    and "\<And>r. r \<in> set rs \<Longrightarrow> r_action_hash r = g \<Longrightarrow> length (r_tx_logs r) = n"
    and "0 < n" and "r \<in> set rs'" and "r_action_hash r = g"
  shows "length (r_tx_logs r) = n"
  using assms(1,2,4,5)
proof (induction rs arbitrary: rs')
  case Nil
  then show ?case by simp
next
  case (Cons x xs)
  from Cons.prems(1) obtain xs' x' where rs': "rs' = x' # xs'" "attach_logs h logs xs = Inr xs'"
      "x' = x \<or> (r_action_hash x = h \<and> r_tx_logs x = [] \<and> x' = AddTransactionLogs logs x)"
    by (auto simp: bindE_eq_Inr Let_def split: if_splits)
  show ?case
  proof (cases "r \<in> set xs'")
    case True
    with Cons.IH [OF rs'(2)] Cons.prems(2,4) show ?thesis by auto
  next
    case False
    with Cons.prems(3) rs'(1) have rx: "r = x'" by simp
    have "r_action_hash x = g \<Longrightarrow> length (r_tx_logs x) = n"
      using Cons.prems(2) [of x] by simp
    with rs'(3) rx Cons.prems(4) \<open>0 < n\<close> show ?thesis
      by (auto simp: AddTransactionLogs_def)
  qed
qed

lemma local_batch_length: "local_batch get start n = Inr blks \<Longrightarrow> length blks = n"
  by (induction n arbitrary: blks) (auto simp: bindE_eq_Inr)

lemma local_batch_nth:
  assumes "local_batch get start n = Inr blks" and "i < n"
  shows "get (start + word_of_nat i) = Inr (blks ! i)"
  using assms
proof (induction n arbitrary: blks)
  case 0
  then show ?case by simp
next
  case (Suc n)
  then obtain bs b where bs: "local_batch get start n = Inr bs"
      "get (start + word_of_nat n) = Inr b" "blks = bs @ [b]"
    by (auto simp: bindE_eq_Inr)
  with Suc local_batch_length [OF bs(1)] show ?case
    by (cases "i = n") (auto simp: nth_append)
qed

subsection \<open>Properties\<close>

text \<open>A receipt of hash \<open>g\<close> carries as many transaction logs as the last non-empty log of \<open>g\<close>.\<close>

definition settled :: "(byte list \<Rightarrow> hash256) \<Rightarrow> raw_tx_log \<Rightarrow> block \<Rightarrow> bool" where
  "settled to_hash l b \<longleftrightarrow>
     rl_transactions l = [] \<or>
     ((\<exists>logs. convert_txns (rl_transactions l) = Inr logs) \<and>
      (\<forall>r \<in> set (b_receipts b). r_action_hash r = to_hash (rl_action_hash l) \<longrightarrow>
        length (r_tx_logs r) = length (rl_transactions l)))"

lemma processTransactionLog_settles:
  assumes "processTransactionLog to_hash b tlogs = Inr b'" and "l \<in> set tlogs"
  shows "settled to_hash l b'"
  using assms unfolding processTransactionLog_def
proof (induction tlogs arbitrary: b)
  case Nil
  then show ?case by simp
next
  case (Cons x xs)
  let ?step = "\<lambda>l b. if rl_transactions l = [] then Inr b
        else bindE (convert_txns (rl_transactions l)) (\<lambda>logs.
             bindE (attach_logs (to_hash (rl_action_hash l)) logs (b_receipts b)) (\<lambda>rs.
             Inr (b\<lparr>b_receipts := rs\<rparr>)))"
  from Cons.prems(1) obtain c where c: "?step x b = Inr c" "foldE ?step xs c = Inr b'"
    by (auto simp: bindE_eq_Inr split: if_splits)
  show ?case
  proof (cases "l \<in> set xs")
    case True
    with Cons.IH [OF c(2)] show ?thesis by simp
  next
    case False
    with Cons.prems(2) have lx: "l = x" by simp
    have "settled to_hash x c"
      using c(1) by (auto simp: settled_def bindE_eq_Inr length_convert_txns split: if_splits
          dest: attach_logs_matching)
    with c(2) have "settled to_hash x b'"
    proof (rule foldE_invariant [where P = "settled to_hash x"])
      fix y u v
      assume u: "settled to_hash x u" and step: "?step y u = Inr v"
      show "settled to_hash x v"
      proof (cases "rl_transactions x = []")
        case True
        then show ?thesis by (simp add: settled_def)
      next
        case False
        with u step show ?thesis
          by (auto simp: settled_def bindE_eq_Inr split: if_splits
              elim!: attach_logs_keeps [where n = "length (rl_transactions x)"])
      qed
    qed
    with lx show ?thesis by simp
  qed
qed

lemma processTransactionLog_of_settled:
  assumes "\<And>l. l \<in> set tlogs \<Longrightarrow> settled to_hash l b"
  shows "processTransactionLog to_hash b tlogs = Inr b"
  using assms unfolding processTransactionLog_def
proof (induction tlogs)
  case Nil
  then show ?case by simp
next
  case (Cons l ls)
  then have "settled to_hash l b" by simp
  then have "(if rl_transactions l = [] then Inr b
        else bindE (convert_txns (rl_transactions l)) (\<lambda>logs.
             bindE (attach_logs (to_hash (rl_action_hash l)) logs (b_receipts b)) (\<lambda>rs.
             Inr (b\<lparr>b_receipts := rs\<rparr>)))) = Inr b"
    by (auto simp: settled_def length_convert_txns attach_logs_settled)
  with Cons show ?case by simp
qed

text \<open>
  Attaching the transaction logs to a block is idempotent: the second pass over a block
  that the DAO already served (and its cache may serve again) changes nothing and does not
  fail.
\<close>

theorem processTransactionLog_idempotent:
  assumes "processTransactionLog to_hash b tlogs = Inr b'"
  shows "processTransactionLog to_hash b' tlogs = Inr b'"
  by (rule processTransactionLog_of_settled) (rule processTransactionLog_settles [OF assms])

definition example_receipt :: receipt where
  "example_receipt = \<lparr>r_status = 1, r_action_hash = [7], r_gas_consumed = 21000, r_tx_index = 0, r_logs = [],
     r_tx_logs = []\<rparr>"

definition example_block :: block where
  "example_block = \<lparr>b_height = 5, b_timestamp = 100, b_actions = [],
     b_receipts = [example_receipt]\<rparr>"

definition example_tx_logs :: "raw_tx_log list" where
  "example_tx_logs = [\<lparr>rl_action_hash = [7], rl_transactions =
     [\<lparr>rt_type = 0, rt_amount = ''12'', rt_sender = ''a'', rt_recipient = ''b''\<rparr>]\<rparr>]"

theorem processTransactionLog_idempotent_witness:
  "\<exists>b'. processTransactionLog (\<lambda>h. h) example_block example_tx_logs = Inr b' \<and> b' \<noteq> example_block
     \<and> processTransactionLog (\<lambda>h. h) b' example_tx_logs = Inr b'"
proof -
  let ?b = "example_block\<lparr>b_receipts := [example_receipt\<lparr>r_tx_logs :=
     [\<lparr>tl_type = 0, tl_amount = 12, tl_sender = ''a'', tl_recipient = ''b''\<rparr>]\<rparr>]\<rparr>"
  have run: "processTransactionLog (\<lambda>h. h) example_block example_tx_logs = Inr ?b"
    by (simp add: processTransactionLog_def example_block_def example_tx_logs_def
        example_receipt_def convert_txn_def AddTransactionLogs_def Let_def parse_int10_def
        parse_nat_def digit_value_def)
  moreover have "?b \<noteq> example_block"
    by (simp add: example_block_def example_receipt_def)
  ultimately show ?thesis
    using processTransactionLog_idempotent [OF run] by blast
qed

text \<open>
  The local DAO's batch read returns exactly \<open>count\<close> blocks, the \<open>i\<close>-th of them the block
  of height \<open>start + i\<close> with its receipts and transaction logs attached.
\<close>

theorem local_BatchGetBlocks_contiguous:
  assumes "local_BatchGetBlocks to_hash d start count = Inr blks"
  shows "length blks = unat count
    \<and> (\<forall>i < unat count. GetBlockByHeightFromBlockDAO to_hash d (start + word_of_nat i) = Inr (blks ! i))"
  using assms local_batch_length local_batch_nth
  unfolding local_BatchGetBlocks_def by blast

definition example_dao :: dao where
  "example_dao = \<lparr>dao_height = Inr 9, dao_get_block = (\<lambda>h. Inr (example_block\<lparr>b_height := h\<rparr>)),
     dao_get_receipts = (\<lambda>h. Inr [example_receipt]), dao_tx_logs = (\<lambda>h. Inr [])\<rparr>"

theorem local_BatchGetBlocks_contiguous_witness:
  "\<exists>blks. local_BatchGetBlocks (\<lambda>h. h) example_dao 5 2 = Inr blks \<and> length blks = 2
     \<and> GetBlockByHeightFromBlockDAO (\<lambda>h. h) example_dao 6 = Inr (blks ! 1)"
proof -
  have "\<exists>blks. local_batch (GetBlockByHeightFromBlockDAO (\<lambda>h. h) example_dao) 5 (Suc (Suc 0)) = Inr blks"
    by (simp add: example_dao_def GetBlockByHeightFromBlockDAO_def processTransactionLog_def)
  moreover have two: "unat (2 :: u64) = Suc (Suc 0)" by simp
  ultimately obtain blks where run: "local_BatchGetBlocks (\<lambda>h. h) example_dao 5 2 = Inr blks"
    unfolding local_BatchGetBlocks_def two by blast
  have "length blks = 2"
    using local_BatchGetBlocks_contiguous [OF run] by simp
  moreover have "GetBlockByHeightFromBlockDAO (\<lambda>h. h) example_dao (5 + word_of_nat 1) = Inr (blks ! 1)"
    using local_BatchGetBlocks_contiguous [OF run] by (simp del: of_nat_1 One_nat_def)
  ultimately show ?thesis using run by simp
qed

end
