(* ===== verification/PluginService.thy ===== *)
theory PluginService
  imports Prelude "HOL-Library.AList" "HOL-Library.Sublist"
begin

text \<open>
  The plugin service of server/service.go and the registry of runners of server/runner.go.
  Runner objects are shared by pointer between the registry and the copy a refresh works
  on, so they live in a store (\<open>heap\<close>) and the registry maps plugin names to store
  addresses. RPC calls and the refresh ticker run in different goroutines: an RPC call is one
  step, a refresh is one step per plugin it visits and two more, at its start and end, with
  calls and status updates of runners in between.
\<close>

subsection \<open>Plugins, runners and the registry\<close>

datatype plugin_status = PsUnload | PsLoaded | PsStartOK | PsStartError | PsPutOK | PsPutError

datatype plugin_type = TypeStandard | TypeWorker

text \<open>\<open>p_catch_up\<close> is \<open>CatchUpSafe()\<close> where the plugin implements CatchUpAdapter.\<close>

record plugin_info =
  p_name :: string
  p_version :: string
  p_type :: plugin_type
  p_catch_up :: "bool option"

record runner_rec =
  rn_plugin :: plugin_info
  rn_status :: plugin_status
  rn_err :: "go_error option"

text \<open>
  A running refresh: the names registered when it began, those its \<open>range\<close> over the registry
  has produced so far, and the map \<open>plugins\<close> it builds. \<open>getRunners\<close> returns the registry
  itself, not a copy, so an entry added while the range runs may or may not be produced.
\<close>

record refresh_state =
  rf_start :: "string list"
  rf_visited :: "string list"
  rf_plugins :: "(string \<times> nat) list"

record service =
  heap :: "nat \<Rightarrow> runner_rec"
  next_addr :: nat
  active_runners :: "(string \<times> nat) list"
  refreshing :: "refresh_state option"

definition setRunner :: "string \<Rightarrow> nat \<Rightarrow> service \<Rightarrow> service" where
  "setRunner name r s = s\<lparr>active_runners := AList.update name r (active_runners s)\<rparr>"

definition getRunner :: "string \<Rightarrow> service \<Rightarrow> nat option" where
  "getRunner name s = map_of (active_runners s) name"

definition setRunners :: "(string \<times> nat) list \<Rightarrow> service \<Rightarrow> service" where
  "setRunners rs s = s\<lparr>active_runners := rs\<rparr>"

definition newRunner :: "plugin_status \<Rightarrow> plugin_info \<Rightarrow> service \<Rightarrow> nat \<times> service" where
  "newRunner st p s =
     (next_addr s,
      s\<lparr>heap := (heap s)(next_addr s := \<lparr>rn_plugin = p, rn_status = st, rn_err = None\<rparr>),
        next_addr := Suc (next_addr s)\<rparr>)"

definition UpdateStatus :: "plugin_status \<Rightarrow> nat \<Rightarrow> service \<Rightarrow> service" where
  "UpdateStatus st r s = s\<lparr>heap := (heap s)(r := (heap s r)\<lparr>rn_status := st\<rparr>)\<rparr>"

definition UpdateError :: "go_error option \<Rightarrow> nat \<Rightarrow> service \<Rightarrow> service" where
  "UpdateError e r s = s\<lparr>heap := (heap s)(r := (heap s r)\<lparr>rn_err := e\<rparr>)\<rparr>"

subsection \<open>RPC operations\<close>

definition registerPlugin :: "plugin_info \<Rightarrow> service \<Rightarrow> unit res \<times> service" where
  "registerPlugin p s =
     (case getRunner (p_name p) s of
        Some _ \<Rightarrow> (Inl (Err ''the plugin has been registered''), s)
      | None \<Rightarrow> (case newRunner PsLoaded p s of (r, s1) \<Rightarrow> (Inr (), setRunner (p_name p) r s1)))"

definition deregisterPlugin :: "plugin_info \<Rightarrow> service \<Rightarrow> unit res \<times> service" where
  "deregisterPlugin p s =
     (case getRunner (p_name p) s of
        None \<Rightarrow> (Inl (Err ''the plugin has not been registered''), s)
      | Some r \<Rightarrow> (Inr (), UpdateStatus PsUnload r s))"

record catch_up_cfg =
  catch_up_mode :: bool
  catch_up_allow_plugins :: "string list"

definition shouldSkipInCatchUp :: "catch_up_cfg \<Rightarrow> plugin_info \<Rightarrow> bool" where
  "shouldSkipInCatchUp cfg p =
     (if \<not> catch_up_mode cfg then False
      else if p_name p \<in> set (catch_up_allow_plugins cfg) then False
      else if p_catch_up p = Some True then False
      else True)"

text \<open>\<open>file\<close> is what \<open>loadPluginFile\<close> makes of the plugin's path.\<close>

definition Load :: "catch_up_cfg \<Rightarrow> plugin_info res \<Rightarrow> service \<Rightarrow> unit res \<times> service" where
  "Load cfg file s =
     (case file of
        Inl e \<Rightarrow> (Inl e, s)
      | Inr p \<Rightarrow> if shouldSkipInCatchUp cfg p then (Inr (), s) else registerPlugin p s)"

definition UnLoad :: "plugin_info res \<Rightarrow> service \<Rightarrow> unit res \<times> service" where
  "UnLoad file s = (case file of Inl e \<Rightarrow> (Inl e, s) | Inr p \<Rightarrow> deregisterPlugin p s)"

subsection \<open>The periodic refresh\<close>

text \<open>
  \<open>start\<close> and \<open>stop\<close> give what the runner of a name answers to Start and Stop. One round of
  the loop keeps the entry (\<open>plugins[name] = plugin\<close>) unless an unloaded runner stopped.
\<close>

definition refresh_begin :: "service \<Rightarrow> service" where
  "refresh_begin s =
     s\<lparr>refreshing := Some \<lparr>rf_start = map fst (active_runners s), rf_visited = [], rf_plugins = []\<rparr>\<rparr>"

definition refresh_one ::
  "(string \<Rightarrow> unit res) \<Rightarrow> (string \<Rightarrow> unit res) \<Rightarrow> string \<times> nat \<Rightarrow> service \<Rightarrow> service" where
  "refresh_one start stop nr s =
     (case nr of (name, r) \<Rightarrow>
        case refreshing s of
          None \<Rightarrow> s
        | Some f \<Rightarrow>
            let f1 = f\<lparr>rf_visited := rf_visited f @ [name]\<rparr>;
                dropped = s\<lparr>refreshing := Some f1\<rparr>;
                kept = s\<lparr>refreshing := Some (f1\<lparr>rf_plugins := rf_plugins f @ [(name, r)]\<rparr>)\<rparr>
            in case rn_status (heap s r) of
                 PsUnload \<Rightarrow> (case stop name of Inl e \<Rightarrow> kept | Inr _ \<Rightarrow> dropped)
               | PsLoaded \<Rightarrow>
                   (case start name of
                      Inl e \<Rightarrow> UpdateError (Some e) r (UpdateStatus PsStartError r kept)
                    | Inr _ \<Rightarrow> UpdateError None r (UpdateStatus PsStartOK r kept))
               | _ \<Rightarrow> kept)"

definition refresh_end :: "service \<Rightarrow> service" where
  "refresh_end s =
     (case refreshing s of
        None \<Rightarrow> s
      | Some f \<Rightarrow> setRunners (rf_plugins f) (s\<lparr>refreshing := None\<rparr>))"

text \<open>A refresh that nothing interrupts.\<close>

definition pluginRefresh ::
  "(string \<Rightarrow> unit res) \<Rightarrow> (string \<Rightarrow> unit res) \<Rightarrow> service \<Rightarrow> service" where
  "pluginRefresh start stop s =
     refresh_end (fold (refresh_one start stop) (active_runners s) (refresh_begin s))"

subsection \<open>Steps and reachable states\<close>

definition init_service :: service where
  "init_service = \<lparr>heap = (\<lambda>_. \<lparr>rn_plugin = \<lparr>p_name = [], p_version = [], p_type = TypeStandard,
      p_catch_up = None\<rparr>, rn_status = PsUnload, rn_err = None\<rparr>), next_addr = 0,
     active_runners = [], refreshing = None\<rparr>"

inductive svc_step :: "service \<Rightarrow> service \<Rightarrow> bool" where
  load: "svc_step s (snd (Load cfg fl s))"
| unload: "svc_step s (snd (UnLoad fl s))"
| refresh_begin: "refreshing s = None \<Longrightarrow> svc_step s (refresh_begin s)"
| refresh_one: "refreshing s = Some f \<Longrightarrow> getRunner name s = Some r \<Longrightarrow>
    name \<notin> set (rf_visited f) \<Longrightarrow> svc_step s (refresh_one start stop (name, r) s)"
| refresh_end: "refreshing s = Some f \<Longrightarrow> set (rf_start f) \<subseteq> set (rf_visited f) \<Longrightarrow>
    svc_step s (refresh_end s)"
| put_status: "getRunner name s = Some r \<Longrightarrow> st \<in> {PsPutOK, PsPutError} \<Longrightarrow>
    svc_step s (UpdateError e r (UpdateStatus st r s))"

inductive svc_reachable :: "service \<Rightarrow> bool" where
  init: "svc_reachable init_service"
| step: "svc_reachable s \<Longrightarrow> svc_step s t \<Longrightarrow> svc_reachable t"

inductive_cases svc_stepE: "svc_step s t"

text \<open>
  A well-formed table of runners: one entry per name, every entry points to an allocated
  runner whose plugin has that name. Two entries therefore never share a runner.
\<close>

definition wf_runners :: "service \<Rightarrow> (string \<times> nat) list \<Rightarrow> bool" where
  "wf_runners s rs \<longleftrightarrow> distinct (map fst rs) \<and>
     (\<forall>(name, r) \<in> set rs. r < next_addr s \<and> p_name (rn_plugin (heap s r)) = name)"

text \<open>
  What a refresh has built so far is well-formed, names only plugins it has visited, and only
  plugins that are still registered.
\<close>

definition svc_inv :: "service \<Rightarrow> bool" where
  "svc_inv s \<longleftrightarrow> wf_runners s (active_runners s) \<and>
     (\<forall>f. refreshing s = Some f \<longrightarrow> wf_runners s (rf_plugins f)
        \<and> fst ` set (rf_plugins f) \<subseteq> set (rf_visited f) \<inter> fst ` set (active_runners s))"

subsection \<open>Lemmas\<close>

text \<open>Two states in which the same runners exist and belong to the same plugins.\<close>

definition same_plugins :: "service \<Rightarrow> service \<Rightarrow> bool" where
  "same_plugins s t \<longleftrightarrow> next_addr s \<le> next_addr t \<and>
     (\<forall>r < next_addr s. rn_plugin (heap t r) = rn_plugin (heap s r))"

lemma same_plugins_refl [simp, intro]: "same_plugins s s"
  by (simp add: same_plugins_def)

lemma same_plugins_trans: "same_plugins s t \<Longrightarrow> same_plugins t u \<Longrightarrow> same_plugins s u"
  by (auto simp: same_plugins_def)

lemma same_plugins_update [simp]:
  "same_plugins s (UpdateStatus st r t) = same_plugins s t"
  "same_plugins s (UpdateError e r t) = same_plugins s t"
  by (auto simp: same_plugins_def UpdateStatus_def UpdateError_def)

lemma wf_runners_same: "wf_runners s rs \<Longrightarrow> same_plugins s t \<Longrightarrow> wf_runners t rs"
  by (fastforce simp: wf_runners_def same_plugins_def)

lemma update_simps [simp]:
  "active_runners (UpdateStatus st r s) = active_runners s"
  "active_runners (UpdateError e r s) = active_runners s"
  "refreshing (UpdateStatus st r s) = refreshing s"
  "refreshing (UpdateError e r s) = refreshing s"
  "next_addr (UpdateStatus st r s) = next_addr s"
  "next_addr (UpdateError e r s) = next_addr s"
  by (simp_all add: UpdateStatus_def UpdateError_def)

text \<open>What a refresh keeps: everything but an unloaded plugin whose runner stopped.\<close>

definition stays :: "(string \<Rightarrow> unit res) \<Rightarrow> service \<Rightarrow> string \<times> nat \<Rightarrow> bool" where
  "stays stop s nr \<longleftrightarrow> \<not> (rn_status (heap s (snd nr)) = PsUnload \<and> stop (fst nr) = Inr ())"

text \<open>What one visit does, and to which runner.\<close>

lemma refresh_one_effect:
  assumes "refreshing s = Some f"
  shows "same_plugins s (refresh_one start stop (name, r) s)
    \<and> active_runners (refresh_one start stop (name, r) s) = active_runners s
    \<and> (\<forall>q. q \<noteq> r \<longrightarrow> heap (refresh_one start stop (name, r) s) q = heap s q)
    \<and> (\<exists>g. refreshing (refresh_one start stop (name, r) s) = Some g
        \<and> rf_start g = rf_start f \<and> rf_visited g = rf_visited f @ [name]
        \<and> rf_plugins g = rf_plugins f @ filter (stays stop s) [(name, r)])"
  using assms
  by (cases "rn_status (heap s r)"; cases "stop name"; cases "start name")
    (simp_all add: refresh_one_def stays_def Let_def same_plugins_def UpdateStatus_def UpdateError_def)

lemma set_alist_update: "set (AList.update k v al) \<subseteq> insert (k, v) (set al)"
  by (induction al) auto

lemma wf_runners_snoc:
  assumes "wf_runners s rs" and "r < next_addr s" and "p_name (rn_plugin (heap s r)) = name"
    and "name \<notin> fst ` set rs"
  shows "wf_runners s (rs @ [(name, r)])"
  using assms by (auto simp: wf_runners_def)

lemma wf_runners_update:
  assumes "wf_runners s rs" and "r < next_addr s" and "p_name (rn_plugin (heap s r)) = name"
  shows "wf_runners s (AList.update name r rs)"
  using assms distinct_update [of rs name r] set_alist_update [of name r rs]
  by (auto simp: wf_runners_def)

lemma subset_insert_steps:
  "X \<subseteq> insert n Y \<Longrightarrow> Y \<subseteq> V \<inter> W \<Longrightarrow> n \<in> W \<Longrightarrow> X \<subseteq> insert n V \<inter> W"
  "Y \<subseteq> V \<inter> W \<Longrightarrow> Y \<subseteq> V \<inter> insert n W"
  by blast+

lemma svc_inv_registerPlugin: "svc_inv s \<Longrightarrow> svc_inv (snd (registerPlugin p s))"
proof (cases "getRunner (p_name p) s")
  case None
  assume inv: "svc_inv s"
  obtain r s1 where new: "newRunner PsLoaded p s = (r, s1)" by force
  then have r: "r < next_addr s1" "p_name (rn_plugin (heap s1 r)) = p_name p"
    and same: "same_plugins s s1" "active_runners s1 = active_runners s"
      "refreshing s1 = refreshing s"
    by (auto simp: newRunner_def same_plugins_def)
  let ?t = "setRunner (p_name p) r s1"
  have st: "same_plugins s ?t" and r': "r < next_addr ?t" "p_name (rn_plugin (heap ?t r)) = p_name p"
    using same r by (auto simp: same_plugins_def setRunner_def)
  have act: "active_runners ?t = AList.update (p_name p) r (active_runners s)"
    using same by (simp add: setRunner_def)
  have "wf_runners ?t (active_runners ?t)"
    unfolding act using inv st r'
    by (intro wf_runners_update) (auto simp: svc_inv_def intro: wf_runners_same)
  moreover have "fst ` set (active_runners ?t) = insert (p_name p) (fst ` set (active_runners s))"
    unfolding act by (simp add: dom_update)
  moreover have "refreshing ?t = refreshing s" using same by (simp add: setRunner_def)
  moreover have "\<And>f. refreshing s = Some f \<Longrightarrow> wf_runners ?t (rf_plugins f) \<and>
      fst ` set (rf_plugins f) \<subseteq> set (rf_visited f) \<inter> insert (p_name p) (fst ` set (active_runners s))"
    using inv wf_runners_same [OF _ st] subset_insert_steps(2) unfolding svc_inv_def by blast
  ultimately have "svc_inv ?t" unfolding svc_inv_def by metis
  with None new show ?thesis by (simp add: registerPlugin_def)
qed (simp add: registerPlugin_def)

lemma svc_inv_frame:
  assumes "svc_inv s" and "same_plugins s t" and "active_runners t = active_runners s"
    and "refreshing t = refreshing s"
  shows "svc_inv t"
  using assms by (auto simp: svc_inv_def intro: wf_runners_same)

lemma svc_inv_refresh_one:
  assumes "svc_inv s" and "refreshing s = Some f" and "getRunner name s = Some r"
    and "name \<notin> set (rf_visited f)"
  shows "svc_inv (refresh_one start stop (name, r) s)"
proof -
  let ?t = "refresh_one start stop (name, r) s"
  obtain g where g: "refreshing ?t = Some g" "rf_visited g = rf_visited f @ [name]"
      "rf_plugins g = rf_plugins f @ filter (stays stop s) [(name, r)]"
    and same: "same_plugins s ?t" "active_runners ?t = active_runners s"
    using refresh_one_effect [OF assms(2), of start stop name r] by blast
  have entry: "(name, r) \<in> set (active_runners s)"
    using assms(3) by (simp add: getRunner_def map_of_SomeD)
  have wf: "wf_runners s (rf_plugins f)" "wf_runners s (active_runners s)"
      "fst ` set (rf_plugins f) \<subseteq> set (rf_visited f) \<inter> fst ` set (active_runners s)"
    using assms(1,2) by (auto simp: svc_inv_def)
  have "wf_runners s (rf_plugins f @ [(name, r)])"
    using wf entry assms(4) by (intro wf_runners_snoc) (auto simp: wf_runners_def)
  then have wfg: "wf_runners ?t (rf_plugins g)" "wf_runners ?t (active_runners ?t)"
    using g(3) wf(1,2) same by (auto intro: wf_runners_same)
  have "fst ` set (rf_plugins g) \<subseteq> insert name (fst ` set (rf_plugins f))"
    unfolding g(3) by auto
  moreover have "name \<in> fst ` set (active_runners s)" using entry by force
  ultimately have "fst ` set (rf_plugins g) \<subseteq> insert name (set (rf_visited f)) \<inter> fst ` set (active_runners s)"
    using wf(3) by (intro subset_insert_steps(1))
  then have "fst ` set (rf_plugins g) \<subseteq> set (rf_visited g) \<inter> fst ` set (active_runners ?t)"
    using g(2) same(2) by simp
  with wfg g(1) show ?thesis by (simp add: svc_inv_def)
qed

lemma svc_inv_refresh_end: "svc_inv s \<Longrightarrow> svc_inv (refresh_end s)"
  by (auto simp: refresh_end_def svc_inv_def setRunners_def wf_runners_def split: option.splits)

lemma svc_step_inv: "svc_step s t \<Longrightarrow> svc_inv s \<Longrightarrow> svc_inv t"
proof (induction rule: svc_step.induct)
  case (load s cfg fl)
  then show ?case by (auto simp: Load_def svc_inv_registerPlugin split: sum.splits)
next
  case (unload s fl)
  have "svc_inv (UpdateStatus PsUnload r s)" for r
    by (rule svc_inv_frame [OF unload]) simp_all
  with unload show ?case
    by (simp add: UnLoad_def deregisterPlugin_def split: sum.splits option.splits)
next
  case (refresh_begin s)
  then show ?case
    by (simp add: refresh_begin_def svc_inv_def wf_runners_def)
next
  case (refresh_one s f name r start stop)
  then show ?case by (rule svc_inv_refresh_one [rotated])
next
  case (refresh_end s f)
  then show ?case by (simp add: svc_inv_refresh_end)
next
  case (put_status name s r st e)
  show ?case
    by (rule svc_inv_frame [OF put_status(3)]) simp_all
qed

lemma svc_reachable_inv: "svc_reachable s \<Longrightarrow> svc_inv s"
proof (induction rule: svc_reachable.induct)
  case init
  then show ?case by (simp add: svc_inv_def wf_runners_def init_service_def)
next
  case (step s t)
  then show ?case by (blast intro: svc_step_inv)
qed

text \<open>Two registered names never share a runner.\<close>

lemma runner_owner:
  assumes "svc_inv s" and "getRunner n s = Some r"
  shows "p_name (rn_plugin (heap s r)) = n \<and> r < next_addr s"
  using assms by (auto simp: svc_inv_def wf_runners_def getRunner_def dest!: map_of_SomeD)

text \<open>A range that visits entries with different runners.\<close>

lemma fold_refresh:
  assumes "refreshing s = Some f" and "distinct (map snd es)"
  shows "\<exists>g. refreshing (fold (refresh_one start stop) es s) = Some g
    \<and> rf_plugins g = rf_plugins f @ filter (stays stop s) es"
  using assms
proof (induction es arbitrary: s f)
  case Nil
  then show ?case by auto
next
  case (Cons e es)
  obtain n r where e: "e = (n, r)" by (cases e)
  let ?t = "refresh_one start stop (n, r) s"
  obtain g where g: "refreshing ?t = Some g"
      "rf_plugins g = rf_plugins f @ filter (stays stop s) [(n, r)]"
    and same: "\<And>q. q \<noteq> r \<Longrightarrow> heap ?t q = heap s q"
    using refresh_one_effect [OF Cons.prems(1), of start stop n r] by blast
  have rest: "filter (stays stop ?t) es = filter (stays stop s) es"
  proof (rule filter_cong [OF refl])
    fix x
    assume "x \<in> set es"
    with Cons.prems(2) e have "snd x \<noteq> r" by auto
    with same show "stays stop ?t x = stays stop s x" by (simp add: stays_def)
  qed
  obtain g' where g': "refreshing (fold (refresh_one start stop) es ?t) = Some g'"
      "rf_plugins g' = rf_plugins g @ filter (stays stop ?t) es"
    using Cons.IH [OF g(1)] Cons.prems(2) by auto
  have "rf_plugins g' = rf_plugins f @ filter (stays stop s) (e # es)"
    unfolding g'(2) g(2) rest e by simp
  with g'(1) e show ?case by simp
qed

lemma map_of_kept:
  assumes "distinct (map fst al)"
  shows "map_of (filter keep al) n = Option.bind (map_of al n) (\<lambda>r. if keep (n, r) then Some r else None)"
  using assms
proof (induction al)
  case Nil
  then show ?case by simp
next
  case (Cons a al)
  then have "fst a \<notin> fst ` set al" by simp
  then have "map_of al (fst a) = None" by (metis map_of_eq_None_iff)
  with Cons show ?case by (cases a) auto
qed

lemma wf_runners_addresses: "wf_runners s rs \<Longrightarrow> distinct (map snd rs)"
proof -
  assume wf: "wf_runners s rs"
  then have own: "\<And>z. z \<in> set rs \<Longrightarrow> fst z = p_name (rn_plugin (heap s (snd z)))"
    by (auto simp: wf_runners_def)
  have "inj_on snd (set rs)"
  proof (rule inj_onI)
    fix x y
    assume "x \<in> set rs" "y \<in> set rs" "snd x = snd y"
    then have "fst x = fst y" using own [of x] own [of y] by simp
    with \<open>snd x = snd y\<close> show "x = y" by (simp add: prod_eq_iff)
  qed
  with wf show ?thesis by (auto simp: wf_runners_def distinct_map)
qed

lemma pluginRefresh_runner:
  assumes "svc_inv s"
  shows "getRunner n (pluginRefresh start stop s)
    = (case getRunner n s of None \<Rightarrow> None | Some r \<Rightarrow> if stays stop s (n, r) then Some r else None)"
proof -
  have wf: "wf_runners s (active_runners s)" using assms by (simp add: svc_inv_def)
  have start: "refreshing (refresh_begin s) = Some \<lparr>rf_start = map fst (active_runners s), rf_visited = [], rf_plugins = []\<rparr>"
      "stays stop (refresh_begin s) = stays stop s"
    by (simp_all add: refresh_begin_def stays_def fun_eq_iff)
  obtain g where g: "refreshing (fold (refresh_one start stop) (active_runners s) (refresh_begin s)) = Some g"
      "rf_plugins g = filter (stays stop s) (active_runners s)"
    using fold_refresh [OF start(1) wf_runners_addresses [OF wf], of start stop] start(2) by auto
  have "distinct (map fst (active_runners s))" using wf by (simp add: wf_runners_def)
  with g show ?thesis
    by (simp add: pluginRefresh_def refresh_end_def getRunner_def setRunners_def map_of_kept split: option.splits)
qed

subsection \<open>Properties\<close>

text \<open>
  In every state the service can reach, whatever the interleaving of loads, unloads,
  refreshes and runner status updates, the registry has one runner per plugin name, each
  belonging to the plugin of that name, and two names never share a runner.
\<close>

theorem registry_invariant:
  assumes "svc_reachable s" and "getRunner n s = Some r"
  shows "p_name (rn_plugin (heap s r)) = n \<and> r < next_addr s
    \<and> (\<forall>m. getRunner m s = Some r \<longrightarrow> m = n)"
  using runner_owner [OF svc_reachable_inv [OF assms(1)]] assms(2) by blast

definition block_plugin :: plugin_info where
  "block_plugin = \<lparr>p_name = ''block'', p_version = ''1.0.0'', p_type = TypeStandard,
     p_catch_up = Some True\<rparr>"

definition no_catch_up :: catch_up_cfg where
  "no_catch_up = \<lparr>catch_up_mode = False, catch_up_allow_plugins = []\<rparr>"

lemma load_block_plugin:
  "getRunner ''block'' (snd (Load no_catch_up (Inr block_plugin) init_service)) = Some 0"
  by (simp add: Load_def shouldSkipInCatchUp_def no_catch_up_def registerPlugin_def getRunner_def
      init_service_def newRunner_def setRunner_def block_plugin_def)

theorem registry_invariant_witness:
  "p_name (rn_plugin (heap (snd (Load no_catch_up (Inr block_plugin) init_service)) 0)) = ''block''"
proof -
  have "svc_reachable (snd (Load no_catch_up (Inr block_plugin) init_service))"
    by (rule svc_reachable.step [OF svc_reachable.init svc_step.load])
  from registry_invariant [OF this load_block_plugin] show ?thesis by blast
qed

text \<open>
  An uninterrupted refresh drops exactly the plugins that are marked unloaded and whose
  runner stops; every other registered plugin, one that failed to start or stop included,
  keeps its runner.
\<close>

theorem pluginRefresh_drops_unloaded:
  assumes "svc_reachable s"
  shows "getRunner n (pluginRefresh start stop s) =
    (case getRunner n s of
       None \<Rightarrow> None
     | Some r \<Rightarrow> if rn_status (heap s r) = PsUnload \<and> stop n = Inr () then None else Some r)"
  using pluginRefresh_runner [OF svc_reachable_inv [OF assms]]
  by (simp add: stays_def split: option.splits)

text \<open>A loaded plugin, and the same plugin marked for unloading.\<close>

lemma block_plugin_reachable:
  "svc_reachable (snd (Load no_catch_up (Inr block_plugin) init_service))"
  "svc_reachable (snd (UnLoad (Inr block_plugin) (snd (Load no_catch_up (Inr block_plugin) init_service))))"
  by (intro svc_reachable.init svc_reachable.step [OF _ svc_step.load]
      svc_reachable.step [OF _ svc_step.unload])+

lemma unloaded_block_plugin:
  "UnLoad (Inr block_plugin) (snd (Load no_catch_up (Inr block_plugin) init_service))
    = (Inr (), UpdateStatus PsUnload 0 (snd (Load no_catch_up (Inr block_plugin) init_service)))"
  using load_block_plugin by (simp add: UnLoad_def deregisterPlugin_def block_plugin_def)

theorem pluginRefresh_drops_unloaded_witness:
  "getRunner ''block'' (pluginRefresh (\<lambda>_. Inr ()) (\<lambda>_. Inr ())
     (snd (UnLoad (Inr block_plugin) (snd (Load no_catch_up (Inr block_plugin) init_service))))) = None"
  using pluginRefresh_drops_unloaded [OF block_plugin_reachable(2), of "''block''" "\<lambda>_. Inr ()" "\<lambda>_. Inr ()"]
    load_block_plugin unloaded_block_plugin
  by (simp add: getRunner_def UpdateStatus_def)

text \<open>
  A plugin registered after the range of a running refresh has produced its last entry is
  lost: the load succeeds and the plugin is in the registry, but the refresh, whose next step
  is its end, replaces the registry by the map it built, and the plugin is gone.
\<close>

theorem refresh_loses_concurrent_registration:
  assumes "svc_reachable s" and "refreshing s = Some f"
    and "set (rf_start f) \<subseteq> set (rf_visited f)" and "registerPlugin p s = (Inr (), s1)"
  shows "getRunner (p_name p) s1 \<noteq> None \<and> svc_step s1 (refresh_end s1)
    \<and> getRunner (p_name p) (refresh_end s1) = None"
proof -
  from assms(4) have reg: "getRunner (p_name p) s1 \<noteq> None" "getRunner (p_name p) s = None"
    and same: "refreshing s1 = refreshing s"
    by (auto simp: registerPlugin_def newRunner_def setRunner_def getRunner_def update_conv'
        split: option.splits)
  have "fst ` set (rf_plugins f) \<subseteq> fst ` set (active_runners s)"
    using svc_reachable_inv [OF assms(1)] assms(2) by (simp add: svc_inv_def)
  with reg(2) have "map_of (rf_plugins f) (p_name p) = None"
    by (auto simp: getRunner_def map_of_eq_None_iff)
  moreover have "svc_step s1 (refresh_end s1)"
    using same assms(2,3) by (intro svc_step.refresh_end) simp_all
  ultimately show ?thesis
    using reg(1) same assms(2) by (simp add: refresh_end_def getRunner_def setRunners_def)
qed

theorem refresh_loses_concurrent_registration_witness:
  "\<exists>s1. registerPlugin block_plugin (refresh_begin init_service) = (Inr (), s1)
     \<and> getRunner ''block'' s1 \<noteq> None \<and> getRunner ''block'' (refresh_end s1) = None"
proof -
  obtain s1 where run: "registerPlugin block_plugin (refresh_begin init_service) = (Inr (), s1)"
    by (auto simp: registerPlugin_def getRunner_def refresh_begin_def init_service_def newRunner_def)
  have start: "refreshing (refresh_begin init_service) = Some \<lparr>rf_start = [], rf_visited = [], rf_plugins = []\<rparr>"
    by (simp add: refresh_begin_def init_service_def)
  have "svc_reachable (refresh_begin init_service)"
    by (rule svc_reachable.step [OF svc_reachable.init svc_step.refresh_begin])
      (simp add: init_service_def)
  from refresh_loses_concurrent_registration [OF this start _ run] run show ?thesis
    by (auto simp: block_plugin_def)
qed

text \<open>
  An unload is forgotten when the plugin's runner is still putting blocks: its next status
  update overwrites the mark the unload left, and the refresh that follows, whatever stopping
  the runner would answer, keeps the plugin registered.
\<close>

theorem put_status_forgets_unload:
  assumes "svc_reachable s" and "getRunner (p_name p) s = Some r"
    and "UnLoad (Inr p) s = (Inr (), s1)" and "st \<in> {PsPutOK, PsPutError}"
  shows "rn_status (heap s1 r) = PsUnload
    \<and> svc_step s1 (UpdateError e r (UpdateStatus st r s1))
    \<and> getRunner (p_name p) (pluginRefresh start stop (UpdateError e r (UpdateStatus st r s1))) = Some r"
proof -
  have s1: "s1 = UpdateStatus PsUnload r s"
    using assms(2,3) by (simp add: UnLoad_def deregisterPlugin_def)
  then have get: "getRunner (p_name p) s1 = Some r" and un: "rn_status (heap s1 r) = PsUnload"
    using assms(2) by (simp_all add: getRunner_def) (simp add: UpdateStatus_def)
  let ?t = "UpdateError e r (UpdateStatus st r s1)"
  have step: "svc_step s1 ?t" using get assms(4) by (rule svc_step.put_status)
  have "svc_step s (snd (UnLoad (Inr p) s))" by (rule svc_step.unload)
  then have "svc_inv s1"
    using svc_step_inv svc_reachable_inv [OF assms(1)] assms(3) by auto
  then have inv: "svc_inv ?t" using svc_step_inv [OF step] by simp
  have "getRunner (p_name p) ?t = Some r" "rn_status (heap ?t r) \<noteq> PsUnload"
    using get assms(4) by (auto simp: getRunner_def) (auto simp: UpdateStatus_def UpdateError_def)
  with pluginRefresh_runner [OF inv] have "getRunner (p_name p) (pluginRefresh start stop ?t) = Some r"
    by (simp add: stays_def)
  with un step show ?thesis by blast
qed

theorem put_status_forgets_unload_witness:
  "getRunner ''block'' (pluginRefresh (\<lambda>_. Inr ()) (\<lambda>_. Inr ()) (UpdateError None 0 (UpdateStatus PsPutOK 0
     (snd (UnLoad (Inr block_plugin) (snd (Load no_catch_up (Inr block_plugin) init_service))))))) = Some 0"
proof -
  have name: "p_name block_plugin = ''block''" by (simp add: block_plugin_def)
  have get: "getRunner (p_name block_plugin)
      (snd (Load no_catch_up (Inr block_plugin) init_service)) = Some 0"
    unfolding name by (rule load_block_plugin)
  show ?thesis
    using put_status_forgets_unload [OF block_plugin_reachable(1) get unloaded_block_plugin,
        of PsPutOK None "\<lambda>_. Inr ()" "\<lambda>_. Inr ()"]
    unfolding unloaded_block_plugin name by simp
qed

end
