(* ===== verification/Runner.thy ===== *)
theory Runner
  imports IndexStore BatchSize BlockSource PluginService
begin

text \<open>
  The runner of server/runner.go: one plugin, fed block by block (or batch by batch) from
  the block source up to the tip. The interface \<open>block_sink\<close> states what the runner relies
  on when it calls a plugin, and the lemmas of the loop are proved in it.
\<close>

subsection \<open>The plugin and its surroundings\<close>

text \<open>
  \<open>pl_batch\<close> is \<open>BatchSize()\<close> where the plugin implements BatchAdapter. A Go panic inside the
  plugin is the error result \<open>Panic\<close>, which the runner's \<open>recover\<close> treats as an error.
\<close>

record 'w plugin =
  pl_info :: plugin_info
  pl_batch :: "int option"
  pl_deps :: "string list"
  pl_start :: "'w \<Rightarrow> unit res \<times> 'w"
  pl_put_block :: "block \<Rightarrow> 'w \<Rightarrow> unit res \<times> 'w"
  pl_put_blocks :: "block list \<Rightarrow> 'w \<Rightarrow> unit res \<times> 'w"

text \<open>
  What one round of the runner reads from outside: the DAO's height, its blocks (one by one
  and in batches), the node's blocks, and whether the index height queries succeed.
\<close>

record source =
  src_height :: "u64 res"
  src_block :: "u64 \<Rightarrow> block res"
  src_batch :: "u64 \<Rightarrow> u64 \<Rightarrow> block list res"
  src_chain :: "u64 \<Rightarrow> block res"
  src_catch_up :: bool
  src_db_ok :: bool

record 'w rstate =
  rs_world :: 'w
  rs_status :: plugin_status
  rs_err :: "go_error option"
  rs_mgr :: batch_mgr
  rs_next :: u64
  rs_start_height :: "u64 option"
  rs_blocks_processed :: u64
  rs_txs_processed :: u64

subsection \<open>Heights\<close>

text \<open>\<open>getTipHeight\<close>: the DAO's height, lowered to the height of every plugin depended on.\<close>

fun dep_heights ::
  "bool \<Rightarrow> string list \<Rightarrow> u64 \<Rightarrow> 't world \<Rightarrow> u64 res \<times> 't world" where
  "dep_heights ok [] h w = (Inr h, w)"
| "dep_heights ok (d # ds) h w =
     (case GetIndexHeight ok ok d w of
        (Inl e, w') \<Rightarrow> (Inl e, w')
      | (Inr ph, w') \<Rightarrow> dep_heights ok ds (if h > ph then ph else h) w')"

definition getTipHeight ::
  "source \<Rightarrow> string list \<Rightarrow> 't world \<Rightarrow> u64 res \<times> 't world" where
  "getTipHeight src deps w =
     (case src_height src of
        Inl e \<Rightarrow> (Inl e, w)
      | Inr h \<Rightarrow> dep_heights (src_db_ok src) deps h w)"

definition nextHeight :: "source \<Rightarrow> string \<Rightarrow> 't world \<Rightarrow> u64 res \<times> 't world" where
  "nextHeight src name w =
     (case GetIndexHeight (src_db_ok src) (src_db_ok src) name w of
        (Inl e, w') \<Rightarrow> (Inl e, w')
      | (Inr h, w') \<Rightarrow> (Inr (h + 1), w'))"

subsection \<open>Fetching\<close>

definition tx_count :: "block \<Rightarrow> u64" where
  "tx_count b = word_of_nat (length (b_actions b))"

text \<open>The cut of a batch at the first block that takes the transaction count past the limit.\<close>

fun cut_at :: "u64 \<Rightarrow> u64 \<Rightarrow> block list \<Rightarrow> block list" where
  "cut_at maxTxs acc [] = []"
| "cut_at maxTxs acc (b # bs) =
     (let acc' = acc + tx_count b in if acc' > maxTxs then [b] else b # cut_at maxTxs acc' bs)"

definition batch_count :: "u64 \<Rightarrow> u64 \<Rightarrow> batch_mgr \<Rightarrow> u64" where
  "batch_count tip next m =
     (let count = tip - next + 1; cur = getCurrent m
      in if cur > 0 \<and> cur < count then cur else count)"

text \<open>
  The first half of a round of the inner loop: the batch and the single block to put, or the
  error that leaves the loop. For a batch plugin the error of the single read is overwritten
  by that of the batch read.
\<close>

definition fetch_round ::
  "source \<Rightarrow> bool \<Rightarrow> u64 \<Rightarrow> u64 \<Rightarrow> batch_mgr \<Rightarrow> ((block list \<times> block option) res \<times> batch_mgr) option" where
  "fetch_round src batch tip next m =
     (if src_catch_up src
      then Some (bindE (src_chain src next) (\<lambda>b. Inr ([b], Some b)), m)
      else if batch
      then let count = batch_count tip next m in
           case fetchBlocks (src_batch src) next count m of
             None \<Rightarrow> None
           | Some (Inl e, m') \<Rightarrow> Some (Inl e, m')
           | Some (Inr blks, m') \<Rightarrow>
               Some (Inr (cut_at (count * 500) 0 blks, None), onSuccess m')
      else Some (bindE (src_block src next) (\<lambda>b. Inr ([], Some b)), m))"

subsection \<open>Putting\<close>

definition put_error :: "go_error \<Rightarrow> 'w \<Rightarrow> 'w rstate \<Rightarrow> bool \<times> 'w rstate" where
  "put_error e w s = (True, s\<lparr>rs_world := w, rs_status := PsPutError, rs_err := Some e\<rparr>)"

text \<open>The closure \<open>putBlocks\<close>; its Boolean result is \<open>exit\<close>.\<close>

definition put_round ::
  "'w plugin \<Rightarrow> block list \<times> block option \<Rightarrow> 'w rstate \<Rightarrow> bool \<times> 'w rstate" where
  "put_round p bb s =
     (case bb of (blks, blk) \<Rightarrow>
        if pl_batch p \<noteq> None
        then (case pl_put_blocks p blks (rs_world s) of
                (Inl e, w) \<Rightarrow> put_error e w s
              | (Inr _, w) \<Rightarrow>
                  (False, s\<lparr>rs_world := w, rs_status := PsPutOK, rs_err := None,
                      rs_blocks_processed := rs_blocks_processed s + word_of_nat (length blks),
                      rs_txs_processed := rs_txs_processed s + sum_list (map tx_count blks),
                      rs_next := rs_next s + word_of_nat (length blks)\<rparr>))
        else (case blk of
                None \<Rightarrow> put_error (Panic ''nil pointer dereference'') (rs_world s) s
              | Some b \<Rightarrow>
                  (case pl_put_block p b (rs_world s) of
                     (Inl e, w) \<Rightarrow> put_error e w s
                   | (Inr _, w) \<Rightarrow>
                       (False, s\<lparr>rs_world := w, rs_status := PsPutOK, rs_err := None,
                           rs_blocks_processed := rs_blocks_processed s + 1,
                           rs_txs_processed := rs_txs_processed s + tx_count b,
                           rs_next := rs_next s + 1\<rparr>))))"

subsection \<open>The loops\<close>

text \<open>
  \<open>for nextHeight <= tipHeight\<close>. The first argument is the number of rounds after which
  \<open>isRunning\<close> is found false, so that reaching 0 is the loop's own way out. \<open>None\<close> is a
  fetch that does not return.
\<close>

fun inner_loop ::
  "nat \<Rightarrow> source \<Rightarrow> 'w plugin \<Rightarrow> u64 \<Rightarrow> 'w rstate \<Rightarrow> 'w rstate option" where
  "inner_loop 0 src p tip s = Some s"
| "inner_loop (Suc n) src p tip s =
     (if rs_next s \<le> tip
      then case fetch_round src (pl_batch p \<noteq> None) tip (rs_next s) (rs_mgr s) of
             None \<Rightarrow> None
           | Some (Inl e, m) \<Rightarrow> Some (s\<lparr>rs_mgr := m\<rparr>)
           | Some (Inr bb, m) \<Rightarrow>
               (case put_round p bb (s\<lparr>rs_mgr := m\<rparr>) of
                  (exit, s') \<Rightarrow> if exit then Some s' else inner_loop n src p tip s')
      else Some s)"

text \<open>One round of the outer loop, from reading the heights to the end of the inner loop.\<close>

definition outer_round ::
  "nat \<Rightarrow> source \<Rightarrow> 't world plugin \<Rightarrow> 't world rstate \<Rightarrow> 't world rstate option" where
  "outer_round n src p s =
     (case getTipHeight src (pl_deps p) (rs_world s) of
        (Inl e, w) \<Rightarrow> Some (s\<lparr>rs_world := w\<rparr>)
      | (Inr tip, w) \<Rightarrow>
          (case nextHeight src (p_name (pl_info p)) w of
             (Inl e, w') \<Rightarrow> Some (s\<lparr>rs_world := w'\<rparr>)
           | (Inr next, w') \<Rightarrow>
               inner_loop n src p tip
                 (s\<lparr>rs_world := w', rs_next := next,
                    rs_start_height := (case rs_start_height s of
                        None \<Rightarrow> Some (next - 1) | Some h \<Rightarrow> Some h)\<rparr>)))"

subsection \<open>Start\<close>

text \<open>
  \<open>runner.Start\<close>: a worker only starts its plugin. In catch-up mode the index height is set
  from the first non-zero of five readings of the DAO's height (an error reads as 0), or
  from the configured start height. In crawl mode the configured heights are put once, with
  every error ignored, and the loop is not started. \<open>True\<close> says the loop was started.
\<close>

record run_cfg =
  rc_catch_up :: bool
  rc_catch_up_start :: u64
  rc_crawl :: bool
  rc_crawl_heights :: "u64 list"

fun first_nonzero :: "nat \<Rightarrow> u64 list \<Rightarrow> u64" where
  "first_nonzero 0 hs = 0"
| "first_nonzero (Suc n) [] = 0"
| "first_nonzero (Suc n) (h # hs) = (if h \<noteq> 0 then h else first_nonzero n hs)"

definition catch_up_height ::
  "run_cfg \<Rightarrow> u64 list \<Rightarrow> tx_faults \<Rightarrow> string \<Rightarrow> 't world \<Rightarrow> unit res \<times> 't world" where
  "catch_up_height cfg readings f name w =
     (let h = first_nonzero 5 readings;
          tip = (if h = 0 then Inl (Err ''failed to fetch dao height'')
                 else Inr (if rc_catch_up_start cfg > 0 then rc_catch_up_start cfg - 1 else h))
      in case tip of
           Inl e \<Rightarrow> (Inl e, w)
         | Inr h' \<Rightarrow> index_tx f name (Inr h') Inr w)"

fun crawl :: "source \<Rightarrow> 'w plugin \<Rightarrow> u64 list \<Rightarrow> 'w \<Rightarrow> 'w" where
  "crawl src p [] w = w"
| "crawl src p (h # hs) w =
     (case src_chain src h of
        Inl e \<Rightarrow> crawl src p hs w
      | Inr b \<Rightarrow> crawl src p hs (snd (pl_put_block p b w)))"

definition runner_start ::
  "run_cfg \<Rightarrow> u64 list \<Rightarrow> tx_faults \<Rightarrow> source \<Rightarrow> 't world plugin \<Rightarrow> 't world \<Rightarrow>
   bool res \<times> 't world" where
  "runner_start cfg readings f src p w =
     (case pl_start p w of
        (Inl e, w1) \<Rightarrow> (Inl e, w1)
      | (Inr _, w1) \<Rightarrow>
          if p_type (pl_info p) = TypeWorker then (Inr False, w1)
          else (case (if rc_catch_up cfg
                      then catch_up_height cfg readings f (p_name (pl_info p)) w1
                      else (Inr (), w1)) of
                  (Inl e, w2) \<Rightarrow> (Inl e, w2)
                | (Inr _, w2) \<Rightarrow>
                    if rc_crawl cfg then (Inr False, crawl src p (rc_crawl_heights cfg) w2)
                    else (Inr True, w2)))"

subsection \<open>The contract between runner and plugin\<close>

text \<open>
  A plugin whose tables after a successful put are those the blocks make of the tables
  before (\<open>effect\<close>, which takes blocks in any grouping), and whose tables a failed put
  leaves alone. It is what lets the runner replay a batch after an error.
\<close>

locale block_sink =
  fixes put :: "block list \<Rightarrow> 'w \<Rightarrow> unit res \<times> 'w"
    and effect :: "block list \<Rightarrow> 't \<Rightarrow> 't res"
    and rows :: "'w \<Rightarrow> 't"
  assumes put_ok: "put blks w = (Inr (), w') \<Longrightarrow> effect blks (rows w) = Inr (rows w')"
    and put_failed: "put blks w = (Inl e, w') \<Longrightarrow> rows w' = rows w"
    and effect_append: "effect (xs @ ys) t = bindE (effect xs t) (effect ys)"
    and effect_nil: "effect [] t = Inr t"

text \<open>
  A sink that also records how far it came: a successful put leaves the height of its last
  block, and cannot have been given no block at all.
\<close>

locale height_sink = block_sink put effect rows
  for put :: "block list \<Rightarrow> 'w \<Rightarrow> unit res \<times> 'w"
    and effect :: "block list \<Rightarrow> 't \<Rightarrow> 't res"
    and rows :: "'w \<Rightarrow> 't" +
  fixes indexed :: "'w \<Rightarrow> u64 option"
  assumes put_nonempty: "put blks w = (Inr (), w') \<Longrightarrow> blks \<noteq> []"
    and put_indexed: "put blks w = (Inr (), w') \<Longrightarrow>
      indexed w' = map_option (\<lambda>_. b_height (last blks)) (indexed w)"
    and put_failed_indexed: "put blks w = (Inl e, w') \<Longrightarrow> indexed w' = indexed w"

subsection \<open>Lemmas on batches\<close>

text \<open>Blocks whose heights count up from \<open>h\<close>.\<close>

definition contiguous :: "u64 \<Rightarrow> block list \<Rightarrow> bool" where
  "contiguous h blks \<longleftrightarrow> (\<forall>i < length blks. b_height (blks ! i) = h + word_of_nat i)"

definition contiguous_source :: "source \<Rightarrow> bool" where
  "contiguous_source src \<longleftrightarrow>
     (\<forall>start count blks. src_batch src start count = Inr blks \<longrightarrow> contiguous start blks) \<and>
     (\<forall>h b. src_chain src h = Inr b \<longrightarrow> b_height b = h)"

lemma contiguous_Nil [simp]: "contiguous h []"
  by (simp add: contiguous_def)

lemma contiguous_single [simp]: "contiguous h [b] \<longleftrightarrow> b_height b = h"
  by (simp add: contiguous_def)

lemma contiguous_prefix:
  assumes "contiguous h blks" and "prefix as blks"
  shows "contiguous h as"
proof -
  from assms(2) obtain zs where zs: "blks = as @ zs" by (rule prefixE)
  show ?thesis
    unfolding contiguous_def
  proof (intro allI impI)
    fix i
    assume i: "i < length as"
    with assms(1) zs have "b_height (blks ! i) = h + word_of_nat i" by (simp add: contiguous_def)
    with i zs show "b_height (as ! i) = h + word_of_nat i" by (simp add: nth_append)
  qed
qed

lemma contiguous_append:
  assumes "contiguous h as" and "contiguous (h + word_of_nat (length as)) bs"
  shows "contiguous h (as @ bs)"
  unfolding contiguous_def
proof (intro allI impI)
  fix i
  assume i: "i < length (as @ bs)"
  show "b_height ((as @ bs) ! i) = h + word_of_nat i"
  proof (cases "i < length as")
    case True
    with assms(1) show ?thesis by (simp add: contiguous_def nth_append)
  next
    case False
    then obtain j where j: "i = length as + j" by (metis le_add_diff_inverse linorder_not_less)
    with i assms(2) show ?thesis by (simp add: contiguous_def add.assoc)
  qed
qed

lemma contiguous_last:
  assumes "contiguous h blks" and "blks \<noteq> []"
  shows "b_height (last blks) + 1 = h + word_of_nat (length blks)"
proof -
  obtain n where n: "length blks = Suc n" using assms(2) by (cases blks) auto
  with assms show ?thesis by (simp add: contiguous_def last_conv_nth algebra_simps)
qed

lemma cut_at_prefix: "prefix (cut_at maxTxs acc blks) blks"
  by (induction blks arbitrary: acc) (auto simp: Let_def)

lemma cut_at_nonempty: "blks \<noteq> [] \<Longrightarrow> cut_at maxTxs acc blks \<noteq> []"
  by (cases blks) (auto simp: Let_def)

text \<open>A batch a fetch returns is one the source gave for the same start.\<close>

lemma fetch_result_of_source:
  assumes "fetchBlocks dao start count m = Some (Inr blks, m')"
  shows "blks = [] \<or> (\<exists>c. dao start c = Inr blks)"
proof -
  define Q where "Q = (\<lambda>dao start (r :: 'a list res \<times> batch_mgr). \<forall>bs. fst r = Inr bs \<longrightarrow>
     bs = [] \<or> (\<exists>c :: u64. dao (start :: u64) c = (Inr bs :: 'a list res)))"
  have "Q dao start (Inr blks, m')"
  proof (rule fetchBlocks.raw_induct [where P = "\<lambda>dao start count m r. Q dao start r", OF _ assms])
    fix f :: "(u64 \<Rightarrow> u64 \<Rightarrow> 'a list res) \<Rightarrow> u64 \<Rightarrow> u64 \<Rightarrow> batch_mgr \<Rightarrow> ('a list res \<times> batch_mgr) option"
      and dao start count m r
    assume IH: "\<And>dao start count m r. f dao start count m = Some r \<Longrightarrow> Q dao start r"
      and step: "(if count = 0 then Some (Inr [], m)
        else case dao start count of
               Inr blks \<Rightarrow> Some (Inr blks, m)
             | Inl e \<Rightarrow> if e = ResourceExhausted
                 then (case onFailure count m of (newCount, m') \<Rightarrow> f dao start newCount m')
                 else Some (Inl e, m)) = Some r"
    show "Q dao start r"
      using step IH by (cases "count = 0"; cases "dao start count")
        (auto simp: Q_def split: if_splits prod.splits)
  qed
  then show ?thesis by (simp add: Q_def)
qed

lemma fetch_round_contiguous:
  assumes "contiguous_source src"
    and "fetch_round src True tip next m = Some (Inr (blks, blk), m')"
  shows "contiguous next blks"
proof (cases "src_catch_up src")
  case True
  with assms show ?thesis
    by (auto simp: fetch_round_def bindE_eq_Inr contiguous_source_def)
next
  case False
  with assms(2) obtain bs m1 where bs: "fetchBlocks (src_batch src) next (batch_count tip next m) m
      = Some (Inr bs, m1)" and blks: "blks = cut_at (batch_count tip next m * 500) 0 bs"
    by (auto simp: fetch_round_def Let_def split: option.splits prod.splits sum.splits)
  from fetch_result_of_source [OF bs] assms(1) have "contiguous next bs"
    by (auto simp: contiguous_source_def)
  then show ?thesis using blks cut_at_prefix by (auto intro: contiguous_prefix)
qed

subsection \<open>What the loop does to a sink\<close>

text \<open>
  The inner loop hands a batch plugin one contiguous run of blocks that starts at the next
  height, each block once and in order, however the batches were cut, and whatever error
  ended the loop.
\<close>

context block_sink begin

lemma put_round_batch:
  assumes "pl_put_blocks p = put" and "pl_batch p \<noteq> None"
    and "put_round p (blks, blk) s = (exit, s')"
  shows "exit \<and> rows (rs_world s') = rows (rs_world s) \<and> rs_next s' = rs_next s \<or>
    \<not> exit \<and> effect blks (rows (rs_world s)) = Inr (rows (rs_world s')) \<and>
      rs_next s' = rs_next s + word_of_nat (length blks)"
  using assms
  by (auto simp: put_round_def put_error_def split: prod.splits sum.splits
      dest: put_ok [folded assms(1)] put_failed [folded assms(1)])

lemma inner_loop_contiguous:
  assumes "pl_put_blocks p = put" and "pl_batch p \<noteq> None" and "contiguous_source src"
    and "inner_loop n src p tip s = Some s'"
  shows "\<exists>blks. contiguous (rs_next s) blks \<and>
    effect blks (rows (rs_world s)) = Inr (rows (rs_world s')) \<and>
    rs_next s' = rs_next s + word_of_nat (length blks)"
  using assms
proof (induction n arbitrary: s)
  case 0
  then show ?case by (intro exI [where x = "[]"]) (simp add: effect_nil)
next
  case (Suc n)
  have stop: "rows (rs_world s') = rows (rs_world s) \<and> rs_next s' = rs_next s \<Longrightarrow> ?case"
    by (intro exI [where x = "[]"]) (simp add: effect_nil)
  show ?case
  proof (cases "rs_next s \<le> tip")
    case False
    with Suc.prems(4) show ?thesis by (intro stop) simp
  next
    case le: True
    with Suc.prems(2,4) obtain r m where fr: "fetch_round src True tip (rs_next s) (rs_mgr s) = Some (r, m)"
      by (cases "fetch_round src True tip (rs_next s) (rs_mgr s)") auto
    show ?thesis
    proof (cases r)
      case (Inl e)
      with le fr Suc.prems(2,4) show ?thesis by (intro stop) auto
    next
      case (Inr bb)
      obtain blks blk where bb: "bb = (blks, blk)" by (cases bb)
      obtain exit s1 where pr: "put_round p bb (s\<lparr>rs_mgr := m\<rparr>) = (exit, s1)" by fastforce
      note round = put_round_batch [OF Suc.prems(1,2) pr [unfolded bb]]
      show ?thesis
      proof (cases exit)
        case True
        with le fr Inr pr round Suc.prems(2,4) show ?thesis by (intro stop) auto
      next
        case False
        with le fr Inr pr Suc.prems(2,4) have rest: "inner_loop n src p tip s1 = Some s'" by simp
        have cont: "contiguous (rs_next s) blks"
          using fetch_round_contiguous [OF Suc.prems(3)] fr Inr bb by simp
        from Suc.IH [OF Suc.prems(1-3) rest]
        obtain more where more: "contiguous (rs_next s1) more"
            "effect more (rows (rs_world s1)) = Inr (rows (rs_world s'))"
            "rs_next s' = rs_next s1 + word_of_nat (length more)"
          by blast
        have "contiguous (rs_next s) (blks @ more)"
          using cont more(1) round False by (auto intro: contiguous_append)
        moreover have "effect (blks @ more) (rows (rs_world s)) = Inr (rows (rs_world s'))"
          using round False more(2) by (simp add: effect_append)
        moreover have "rs_next s' = rs_next s + word_of_nat (length (blks @ more))"
          using round False more(3) by (simp add: add.assoc)
        ultimately show ?thesis by blast
      qed
    qed
  qed
qed

end

text \<open>
  A sink that records its height keeps it one behind the loop's next height, through
  successes and failures alike.
\<close>

context height_sink begin

lemma put_round_indexed:
  assumes "pl_put_blocks p = put" and "pl_batch p \<noteq> None" and "contiguous (rs_next s) blks"
    and "put_round p (blks, blk) s = (exit, s')"
    and "indexed (rs_world s) = Some (rs_next s - 1)"
  shows "indexed (rs_world s') = Some (rs_next s' - 1)"
proof (cases "put blks (rs_world s)")
  case (Pair r w)
  show ?thesis
  proof (cases r)
    case (Inl e)
    with Pair assms show ?thesis
      by (auto simp: put_round_def put_error_def dest: put_failed_indexed [folded assms(1)])
  next
    case (Inr u)
    with Pair have ok: "put blks (rs_world s) = (Inr (), w)" by simp
    have "b_height (last blks) = rs_next s + word_of_nat (length blks) - 1"
      using contiguous_last [OF assms(3) put_nonempty [OF ok]] by (simp add: eq_diff_eq)
    with put_indexed [OF ok] ok assms show ?thesis
      by (auto simp: put_round_def)
  qed
qed

lemma inner_loop_indexed:
  assumes "pl_put_blocks p = put" and "pl_batch p \<noteq> None" and "contiguous_source src"
    and "inner_loop n src p tip s = Some s'" and "indexed (rs_world s) = Some (rs_next s - 1)"
  shows "indexed (rs_world s') = Some (rs_next s' - 1)"
  using assms
proof (induction n arbitrary: s)
  case 0
  then show ?case by simp
next
  case (Suc n)
  show ?case
  proof (cases "rs_next s \<le> tip")
    case False
    with Suc.prems show ?thesis by simp
  next
    case le: True
    with Suc.prems(2,4) obtain r m where fr: "fetch_round src True tip (rs_next s) (rs_mgr s) = Some (r, m)"
      by (cases "fetch_round src True tip (rs_next s) (rs_mgr s)") auto
    show ?thesis
    proof (cases r)
      case (Inl e)
      with le fr Suc.prems show ?thesis by auto
    next
      case (Inr bb)
      obtain blks blk where bb: "bb = (blks, blk)" by (cases bb)
      obtain exit s1 where pr: "put_round p bb (s\<lparr>rs_mgr := m\<rparr>) = (exit, s1)" by fastforce
      have cont: "contiguous (rs_next s) blks"
        using fetch_round_contiguous [OF Suc.prems(3)] fr Inr bb by simp
      have ind: "indexed (rs_world s1) = Some (rs_next s1 - 1)"
        using put_round_indexed [OF Suc.prems(1,2) _ pr [unfolded bb]] cont Suc.prems(5) by simp
      show ?thesis
      proof (cases exit)
        case True
        with le fr Inr pr ind Suc.prems(2,4) show ?thesis by auto
      next
        case False
        with le fr Inr pr Suc.prems(2,4) have "inner_loop n src p tip s1 = Some s'" by simp
        then show ?thesis using Suc.IH [OF Suc.prems(1-3)] ind by blast
      qed
    qed
  qed
qed

end

end
