(* ===== verification/TxSink.thy ===== *)
theory TxSink
  imports Runner
begin

text \<open>
  The plugins that handle a batch of blocks inside one database transaction (staking_bucket,
  staking_actions, account_vote, candidate, candidate_self_stake and slash write their
  \<open>PutBlock\<close> and \<open>PutBlocks\<close> so): the shared shape of the two, that it is a sink the runner
  can rely on, and what the runner makes of it.
\<close>

subsection \<open>PutBlock and PutBlocks\<close>

text \<open>
  \<open>h\<close> is the plugin's handler of one block on its tables; the height recorded is that of
  \<open>blks[len(blks)-1]\<close>, which panics on an empty slice. \<open>F\<close> says which statements the database
  refuses when this batch is put.
\<close>

definition tx_PutBlocks ::
  "(block list \<Rightarrow> tx_faults) \<Rightarrow> string \<Rightarrow> (block \<Rightarrow> 't \<Rightarrow> 't res) \<Rightarrow>
   block list \<Rightarrow> 't world \<Rightarrow> unit res \<times> 't world" where
  "tx_PutBlocks F name h blks =
     index_tx (F blks) name (bindE (last_elem blks) (\<lambda>b. Inr (b_height b))) (foldE h blks)"

definition tx_PutBlock ::
  "(block list \<Rightarrow> tx_faults) \<Rightarrow> string \<Rightarrow> (block \<Rightarrow> 't \<Rightarrow> 't res) \<Rightarrow>
   block \<Rightarrow> 't world \<Rightarrow> unit res \<times> 't world" where
  "tx_PutBlock F name h b = index_tx (F [b]) name (Inr (b_height b)) (h b)"

lemma tx_PutBlock_single: "tx_PutBlocks F name h [b] w = tx_PutBlock F name h b w"
  by (simp add: tx_PutBlocks_def tx_PutBlock_def index_tx_def transaction_def bindE_def
      split: sum.splits)

lemma tx_PutBlocks_ok:
  assumes "tx_PutBlocks F name h blks w = (Inr (), w')"
  shows "blks \<noteq> [] \<and> foldE h blks (tables w) = Inr (tables w') \<and>
    index_cache w' name = Some (b_height (last blks)) \<and>
    heights w' = (if name \<in> dom (heights w) then (heights w)(name \<mapsto> b_height (last blks))
                  else heights w)"
proof -
  from assms [unfolded tx_PutBlocks_def] obtain t k
    where "foldE h blks (tables w) = Inr t"
      and k: "bindE (last_elem blks) (\<lambda>b. Inr (b_height b)) = Inr k"
      and "tables w' = t" "index_cache w' = (index_cache w)(name \<mapsto> k)"
        "heights w' = (if name \<in> dom (heights w) then (heights w)(name \<mapsto> k) else heights w)"
    by (rule index_tx_ok)
  moreover from k have "blks \<noteq> [] \<and> k = b_height (last blks)"
    by (cases "blks = []") auto
  ultimately show ?thesis by simp
qed

lemma tx_PutBlocks_error:
  assumes "tx_PutBlocks F name h blks w = (Inl e, w')"
  shows "tables w' = tables w \<and> heights w' = heights w"
  using index_tx_error [OF assms [unfolded tx_PutBlocks_def]] by simp

text \<open>Every transactional plugin is a sink that keeps its height.\<close>

interpretation tx: height_sink "tx_PutBlocks F name h" "foldE h" tables "\<lambda>w. heights w name"
  for F name h
proof unfold_locales
  fix blks w w'
  assume "tx_PutBlocks F name h blks w = (Inr (), w')"
  note ok = tx_PutBlocks_ok [OF this]
  show "foldE h blks (tables w) = Inr (tables w')" and "blks \<noteq> []"
    using ok by simp_all
  show "heights w' name = map_option (\<lambda>_. b_height (last blks)) (heights w name)"
    using ok by (cases "heights w name") auto
next
  fix blks w e w'
  assume "tx_PutBlocks F name h blks w = (Inl e, w')"
  note err = tx_PutBlocks_error [OF this]
  show "tables w' = tables w" and "heights w' name = heights w name"
    using err by simp_all
qed (simp_all add: foldE_append)

subsection \<open>The height a round starts from\<close>

text \<open>The cache, where it has the plugin's height, has the committed one.\<close>

definition coherent :: "string \<Rightarrow> 't world \<Rightarrow> bool" where
  "coherent name w \<longleftrightarrow>
     heights w name \<noteq> None \<and> (index_cache w name = None \<or> index_cache w name = heights w name)"

lemma GetIndexHeight_coherent:
  assumes "coherent name w"
  shows "GetIndexHeight ok ok name w = (Inl DbError, w) \<and> \<not> ok \<and> index_cache w name = None \<or>
    (\<exists>w'. GetIndexHeight ok ok name w = (Inr (the (heights w name)), w') \<and> tables w' = tables w
       \<and> heights w' = heights w \<and> coherent name w')"
  using assms
  by (cases ok; cases "index_cache w name")
    (auto simp: coherent_def GetIndexHeight_def ByName_def split: option.splits)

lemma GetIndexHeight_other:
  assumes "coherent name w" and "GetIndexHeight r c d w = (x, w')"
  shows "tables w' = tables w \<and> heights w' name = heights w name \<and> coherent name w'"
  using assms
  by (cases "d = name")
    (auto simp: coherent_def GetIndexHeight_def ByName_def split: option.splits if_splits)

lemma dep_heights_keeps:
  "coherent name w \<Longrightarrow> dep_heights ok ds h w = (x, w') \<Longrightarrow>
   tables w' = tables w \<and> heights w' name = heights w name \<and> coherent name w'"
proof (induction ds arbitrary: h w)
  case Nil
  then show ?case by simp
next
  case (Cons d ds)
  obtain y w1 where g: "GetIndexHeight ok ok d w = (y, w1)" by fastforce
  note step = GetIndexHeight_other [OF Cons.prems(1) g]
  show ?case
  proof (cases y)
    case (Inl e)
    with Cons.prems g step show ?thesis by simp
  next
    case (Inr ph)
    with Cons.prems(2) g have rest: "dep_heights ok ds (if h > ph then ph else h) w1 = (x, w')"
      by simp
    have "coherent name w1" using step by simp
    from Cons.IH [OF this rest] step show ?thesis by simp
  qed
qed

lemma getTipHeight_keeps:
  assumes "coherent name w" and "getTipHeight src deps w = (x, w')"
  shows "tables w' = tables w \<and> heights w' name = heights w name \<and> coherent name w'"
  using assms dep_heights_keeps [OF assms(1)]
  by (cases "src_height src") (simp_all add: getTipHeight_def)

text \<open>The tip a round runs to is at most the DAO's height.\<close>

lemma dep_heights_le: "dep_heights ok ds h w = (Inr t, w') \<Longrightarrow> t \<le> h"
  by (induction ds arbitrary: h w) (force split: prod.splits sum.splits if_splits)+

subsection \<open>Properties\<close>

text \<open>
  C1: Exactly once, in order. One round of the runner over a transactional plugin whose cached
  height is the committed one applies to the plugin's tables one contiguous run of blocks,
  which starts right after the committed height and whose length is what the committed height
  advances by; it does so whatever fails in the round, and however the batches were cut.
\<close>

theorem outer_round_exactly_once:
  assumes "pl_put_blocks p = tx_PutBlocks F (p_name (pl_info p)) h" and "pl_batch p \<noteq> None"
    and "contiguous_source src" and "coherent (p_name (pl_info p)) (rs_world s)"
    and "heights (rs_world s) (p_name (pl_info p)) = Some k"
    and "outer_round n src p s = Some s'"
  shows "\<exists>blks. contiguous (k + 1) blks
    \<and> foldE h blks (tables (rs_world s)) = Inr (tables (rs_world s'))
    \<and> heights (rs_world s') (p_name (pl_info p)) = Some (k + word_of_nat (length blks))"
proof -
  let ?name = "p_name (pl_info p)"
  have none: "tables (rs_world s') = tables (rs_world s) \<and> heights (rs_world s') ?name = Some k \<Longrightarrow> ?thesis"
    by (intro exI [where x = "[]"]) simp
  obtain x w where tip: "getTipHeight src (pl_deps p) (rs_world s) = (x, w)" by fastforce
  note keep = getTipHeight_keeps [OF assms(4) tip]
  obtain y w2 where nh: "nextHeight src ?name w = (y, w2)" by fastforce
  have y: "y = Inl DbError \<and> w2 = w \<or> y = Inr (k + 1) \<and> tables w2 = tables w \<and> heights w2 = heights w"
    using GetIndexHeight_coherent [of ?name w "src_db_ok src"] keep assms(5) nh
    by (auto simp: nextHeight_def)
  show ?thesis
  proof (cases "\<exists>t. x = Inr t \<and> y = Inr (k + 1)")
    case False
    with y tip nh keep assms(5,6) show ?thesis
      by (intro none) (auto simp: outer_round_def split: sum.splits)
  next
    case True
    then obtain t where t: "x = Inr t" "y = Inr (k + 1)" by blast
    define s1 where "s1 = s\<lparr>rs_world := w2, rs_next := k + 1,
      rs_start_height := (case rs_start_height s of None \<Rightarrow> Some (k + 1 - 1) | Some h \<Rightarrow> Some h)\<rparr>"
    have run: "inner_loop n src p t s1 = Some s'"
      using assms(6) t tip nh by (simp add: outer_round_def s1_def)
    have s1: "tables (rs_world s1) = tables (rs_world s)" "rs_next s1 = k + 1"
        "heights (rs_world s1) ?name = Some (rs_next s1 - 1)"
      using y t keep assms(5) by (auto simp: s1_def)
    from tx.inner_loop_contiguous [OF assms(1-3) run] s1
    obtain blks where blks: "contiguous (k + 1) blks"
        "foldE h blks (tables (rs_world s)) = Inr (tables (rs_world s'))"
        "rs_next s' = k + 1 + word_of_nat (length blks)"
      by auto
    have "heights (rs_world s') ?name = Some (k + word_of_nat (length blks))"
      using tx.inner_loop_indexed [OF assms(1-3) run s1(3)] blks(3) by simp
    with blks show ?thesis by blast
  qed
qed

text \<open>A plugin that appends the heights of its blocks to a list, and surroundings for it.\<close>

definition example_plugin :: "u64 list world plugin" where
  "example_plugin = \<lparr>pl_info = block_plugin, pl_batch = Some 0, pl_deps = [],
     pl_start = (\<lambda>w. (Inr (), w)),
     pl_put_block = tx_PutBlock (\<lambda>_. no_faults) ''block'' (\<lambda>b t. Inr (t @ [b_height b])),
     pl_put_blocks = tx_PutBlocks (\<lambda>_. no_faults) ''block'' (\<lambda>b t. Inr (t @ [b_height b]))\<rparr>"

definition example_source :: source where
  "example_source = \<lparr>src_height = Inr 5, src_block = (\<lambda>h. Inr (example_block\<lparr>b_height := h\<rparr>)),
     src_batch = (\<lambda>h c. Inr [example_block\<lparr>b_height := h\<rparr>]),
     src_chain = (\<lambda>h. Inr (example_block\<lparr>b_height := h\<rparr>)), src_catch_up = False, src_db_ok = True\<rparr>"

definition example_state :: "u64 list world rstate" where
  "example_state = \<lparr>rs_world = \<lparr>tables = [], heights = [''block'' \<mapsto> 4], index_cache = Map.empty\<rparr>,
     rs_status = PsStartOK, rs_err = None, rs_mgr = newBatchSizeManager 512, rs_next = 0,
     rs_start_height = None, rs_blocks_processed = 0, rs_txs_processed = 0\<rparr>"

lemma example_fetch:
  "fetchBlocks (src_batch example_source) h 1 m = Some (Inr [example_block\<lparr>b_height := h\<rparr>], m)"
  by (subst fetchBlocks.simps) (simp add: example_source_def)

lemma example_source_contiguous: "contiguous_source example_source"
  by (simp add: contiguous_source_def example_source_def)

lemma example_run:
  "\<exists>s'. outer_round 1 example_source example_plugin example_state = Some s'
     \<and> tables (rs_world s') = [5] \<and> heights (rs_world s') ''block'' = Some 5"
proof -
  let ?w = "\<lparr>tables = [] :: u64 list, heights = [''block'' \<mapsto> 4], index_cache = [''block'' \<mapsto> 4]\<rparr>"
  have next_h: "nextHeight example_source ''block'' (rs_world example_state) = (Inr 5, ?w)"
    by (simp add: nextHeight_def GetIndexHeight_def ByName_def example_state_def example_source_def)
  have count: "batch_count 5 5 (newBatchSizeManager 512) = 1"
    by (simp add: batch_count_def newBatchSizeManager_def getCurrent_def Let_def)
  have fetch: "fetch_round example_source True 5 5 (newBatchSizeManager 512)
      = Some (Inr ([example_block\<lparr>b_height := 5\<rparr>], None), onSuccess (newBatchSizeManager 512))"
    by (simp add: fetch_round_def count example_fetch Let_def)
      (simp add: example_source_def)
  have put: "tx_PutBlocks (\<lambda>_. no_faults) ''block'' (\<lambda>b t. Inr (t @ [b_height b]))
      [example_block\<lparr>b_height := 5\<rparr>] ?w
      = (Inr (), \<lparr>tables = [5], heights = [''block'' \<mapsto> 5], index_cache = [''block'' \<mapsto> 5]\<rparr>)"
    by (simp add: tx_PutBlocks_def index_tx_no_faults update_height_row_def)
  have tip: "getTipHeight example_source [] (rs_world example_state) = (Inr 5, rs_world example_state)"
    by (simp add: getTipHeight_def example_source_def)
  define s1 where "s1 = example_state\<lparr>rs_world := ?w, rs_next := 5, rs_start_height := Some 4\<rparr>"
  have round: "outer_round 1 example_source example_plugin example_state
      = inner_loop (Suc 0) example_source example_plugin 5 s1"
  proof -
    have "pl_deps example_plugin = []" "p_name (pl_info example_plugin) = ''block''"
        "rs_start_height example_state = None"
      by (simp_all add: example_plugin_def block_plugin_def example_state_def)
    with tip next_h show ?thesis
      by (simp add: outer_round_def s1_def del: inner_loop.simps)
  qed
  have s1: "rs_next s1 = 5" "rs_mgr s1 = newBatchSizeManager 512" "rs_world s1 = ?w"
    by (simp_all add: s1_def example_state_def)
  have batch: "pl_batch example_plugin \<noteq> None" "pl_put_blocks example_plugin
      = tx_PutBlocks (\<lambda>_. no_faults) ''block'' (\<lambda>b t. Inr (t @ [b_height b]))"
    by (simp_all add: example_plugin_def)
  show ?thesis
    unfolding round by (simp add: s1 fetch batch put_round_def put)
qed

theorem outer_round_exactly_once_witness:
  "\<exists>s' blks. outer_round 1 example_source example_plugin example_state = Some s'
     \<and> tables (rs_world s') = [5] \<and> contiguous 5 blks
     \<and> foldE (\<lambda>b t. Inr (t @ [b_height b])) blks [] = Inr [5]
     \<and> Some (4 + word_of_nat (length blks)) = Some (5 :: u64)"
proof -
  obtain s' where s': "outer_round 1 example_source example_plugin example_state = Some s'"
      "tables (rs_world s') = [5]" "heights (rs_world s') ''block'' = Some 5"
    using example_run by blast
  have "\<exists>blks. contiguous (4 + 1) blks
    \<and> foldE (\<lambda>b t. Inr (t @ [b_height b])) blks (tables (rs_world example_state)) = Inr (tables (rs_world s'))
    \<and> heights (rs_world s') (p_name (pl_info example_plugin)) = Some (4 + word_of_nat (length blks))"
    by (rule outer_round_exactly_once [OF _ _ example_source_contiguous _ _ s'(1),
          where F = "\<lambda>_. no_faults"])
      (simp_all add: example_plugin_def block_plugin_def example_state_def coherent_def)
  with s' show ?thesis
    by (auto simp: example_plugin_def block_plugin_def example_state_def)
qed

text \<open>
  C37: A batch whose commit (or index height update) the database refuses is skipped: its rows
  and the committed height are rolled back, but the index cache already has the batch's last
  height, so the runner's next height is the block after the batch.
\<close>

theorem failed_commit_skips_batch:
  assumes "foldE h blks (tables w) = Inr t" and "blks \<noteq> []" and "\<not> body_fault (F blks)"
    and "commit_fault (F blks) \<or> height_fault (F blks)"
  shows "\<exists>w'. tx_PutBlocks F name h blks w = (Inl DbError, w')
    \<and> tables w' = tables w \<and> heights w' = heights w
    \<and> nextHeight src name w' = (Inr (b_height (last blks) + 1), w')"
proof -
  obtain r w' where put: "tx_PutBlocks F name h blks w = (r, w')" by fastforce
  then have "r = Inl DbError \<and> index_cache w' name = Some (b_height (last blks))"
    using assms
    by (cases "height_fault (F blks)")
      (auto simp: tx_PutBlocks_def index_tx_def transaction_def UpdateIndexHeightByTx_def Let_def)
  with put tx_PutBlocks_error [of F name h blks w DbError w'] show ?thesis
    by (simp add: nextHeight_def)
qed

theorem failed_commit_skips_batch_witness:
  "\<exists>w'. tx_PutBlocks (\<lambda>_. no_faults\<lparr>commit_fault := True\<rparr>) ''block'' (\<lambda>b t. Inr (t @ [b_height b]))
       [example_block] (rs_world example_state) = (Inl DbError, w')
    \<and> tables w' = [] \<and> heights w' = [''block'' \<mapsto> 4]
    \<and> nextHeight example_source ''block'' w' = (Inr 6, w')"
proof -
  have "\<exists>w'. tx_PutBlocks (\<lambda>_. no_faults\<lparr>commit_fault := True\<rparr>) ''block'' (\<lambda>b t. Inr (t @ [b_height b]))
       [example_block] (rs_world example_state) = (Inl DbError, w')
    \<and> tables w' = tables (rs_world example_state) \<and> heights w' = heights (rs_world example_state)
    \<and> nextHeight example_source ''block'' w' = (Inr (b_height (last [example_block]) + 1), w')"
    by (rule failed_commit_skips_batch [where t = "[5]"])
      (simp_all add: example_state_def example_block_def no_faults_def)
  then show ?thesis by (simp add: example_state_def example_block_def)
qed

subsection \<open>Catching up\<close>

lemma unat_next:
  assumes "(tip :: u64) < - 1"
  shows "unat tip + 1 < 2 ^ 64 \<and> unat (tip + 1) = unat tip + 1"
proof -
  have "unat tip < unat (- 1 :: u64)" using assms by (simp add: word_less_nat_alt)
  then have "unat tip + 1 < 2 ^ 64" by (simp add: unsigned_minus_1_eq_mask mask_eq_exp_minus_1)
  then show ?thesis by (simp add: unat_plus_if')
qed

lemma batch_count_bounds:
  assumes "next \<le> tip" and "tip < - 1"
  shows "0 < unat (batch_count tip next m) \<and> unat next + unat (batch_count tip next m) \<le> unat tip + 1"
proof -
  have le: "unat next \<le> unat tip" using assms(1) by (simp add: word_le_nat_alt)
  note max = conjunct1 [OF unat_next [OF assms(2)]]
  have "unat (tip - next) = unat tip - unat next" using assms(1) by (simp add: unat_sub)
  with max have full: "unat (tip - next + 1) = unat tip - unat next + 1"
    by (simp add: unat_plus_if')
  show ?thesis
    using full le
    by (auto simp: batch_count_def Let_def word_less_nat_alt)
qed

lemma length_cut_at: "length (cut_at x a blks) \<le> length blks"
  using prefix_length_le [OF cut_at_prefix] .


text \<open>A round in which nothing fails puts at least one block and does not overshoot the tip.\<close>

lemma good_round:
  assumes "pl_put_blocks p = tx_PutBlocks (\<lambda>_. no_faults) name h" and "pl_batch p \<noteq> None"
    and "\<And>b t. \<exists>t'. h b t = Inr t'" and "\<not> src_catch_up src"
    and "\<And>start count. \<exists>blks. src_batch src start count = Inr blks \<and> length blks = unat count"
    and "rs_next s \<le> tip" and "tip < - 1"
  shows "\<exists>bb m s'. fetch_round src True tip (rs_next s) (rs_mgr s) = Some (Inr bb, m)
    \<and> put_round p bb (s\<lparr>rs_mgr := m\<rparr>) = (False, s')
    \<and> rs_next s < rs_next s' \<and> rs_next s' \<le> tip + 1"
proof -
  define count where "count = batch_count tip (rs_next s) (rs_mgr s)"
  note bounds = batch_count_bounds [OF assms(6,7), of "rs_mgr s", folded count_def]
  obtain blks where blks: "src_batch src (rs_next s) count = Inr blks" "length blks = unat count"
    using assms(5) by blast
  define cut where "cut = cut_at (count * 500) 0 blks"
  have "blks \<noteq> []" using blks(2) bounds by auto
  then have ne: "cut \<noteq> []" and len: "length cut \<le> unat count"
    using cut_at_nonempty [of blks "count * 500" 0] length_cut_at [of "count * 500" 0 blks] blks bounds
    by (auto simp: cut_def)
  have "count \<noteq> 0" using bounds by auto
  then have "fetchBlocks (src_batch src) (rs_next s) count (rs_mgr s) = Some (Inr blks, rs_mgr s)"
    using blks by (subst fetchBlocks.simps) simp
  then have fetch: "fetch_round src True tip (rs_next s) (rs_mgr s)
      = Some (Inr (cut, None), onSuccess (rs_mgr s))"
    using assms(4) by (simp add: fetch_round_def Let_def count_def cut_def)
  obtain t where "foldE h cut (tables (rs_world s)) = Inr t"
    using foldE_total [of cut h] assms(3) by blast
  then obtain w where put: "tx_PutBlocks (\<lambda>_. no_faults) name h cut (rs_world s) = (Inr (), w)"
    using ne by (simp add: tx_PutBlocks_def index_tx_no_faults)
  obtain s' where s': "put_round p (cut, None) (s\<lparr>rs_mgr := onSuccess (rs_mgr s)\<rparr>) = (False, s')"
      "rs_next s' = rs_next s + word_of_nat (length cut)"
    using assms(1,2) put by (auto simp: put_round_def)
  have tip: "unat (tip + 1) = unat tip + 1"
    using unat_next [OF assms(7)] by simp
  have small: "unat (rs_next s) + length cut < 2 ^ 64"
    using len bounds tip unsigned_less [where w = "tip + 1" and 'a = nat] by simp
  then have next_n: "unat (rs_next s') = unat (rs_next s) + length cut"
    using s'(2) by (simp add: unat_plus_if' unsigned_of_nat take_bit_nat_eq_self)
  have "rs_next s < rs_next s'" and "rs_next s' \<le> tip + 1"
    using next_n ne len bounds tip by (auto simp: word_less_nat_alt word_le_nat_alt)
  with fetch s' show ?thesis by blast
qed

text \<open>
  C8: Liveness. While no statement is refused, the block source answers every request in full
  and the handler accepts every block, the loop over a transactional plugin ends at the tip:
  as many rounds as there are blocks left are enough, since each one puts at least one block.
\<close>

theorem runner_catches_up:
  assumes "pl_put_blocks p = tx_PutBlocks (\<lambda>_. no_faults) name h" and "pl_batch p \<noteq> None"
    and "\<And>b t. \<exists>t'. h b t = Inr t'" and "\<not> src_catch_up src"
    and "\<And>start count. \<exists>blks. src_batch src start count = Inr blks \<and> length blks = unat count"
    and "rs_next s \<le> tip + 1" and "tip < - 1" and "unat (tip + 1) - unat (rs_next s) \<le> n"
  shows "\<exists>s'. inner_loop n src p tip s = Some s' \<and> rs_next s' = tip + 1"
  using assms(6,8)
proof (induction n arbitrary: s)
  case 0
  then show ?case by (simp add: word_le_nat_alt word_unat_eq_iff)
next
  case (Suc n)
  show ?case
  proof (cases "rs_next s \<le> tip")
    case True
    from good_round [OF assms(1-5) True assms(7)] obtain bb m s1
      where round: "fetch_round src True tip (rs_next s) (rs_mgr s) = Some (Inr bb, m)"
        "put_round p bb (s\<lparr>rs_mgr := m\<rparr>) = (False, s1)"
        and s1: "rs_next s < rs_next s1" "rs_next s1 \<le> tip + 1"
      by blast
    have "unat (tip + 1) - unat (rs_next s1) \<le> n"
      using Suc.prems(2) s1 by (simp add: word_less_nat_alt word_le_nat_alt)
    from Suc.IH [OF s1(2) this] True round assms(2) show ?thesis by simp
  next
    case False
    with Suc.prems(1) assms(7) have "rs_next s = tip + 1"
      by (metis inc_le linorder_not_le order_antisym)
    with False show ?thesis by simp
  qed
qed

theorem runner_catches_up_witness:
  "\<exists>s'. inner_loop 3 (example_source\<lparr>src_batch := \<lambda>h c. Inr (replicate (unat c) example_block)\<rparr>)
      example_plugin 7 (example_state\<lparr>rs_next := 5\<rparr>) = Some s' \<and> rs_next s' = 7 + 1"
  by (rule runner_catches_up [where name = "''block''" and h = "\<lambda>b t. Inr (t @ [b_height b])"])
    (simp_all add: example_plugin_def example_source_def example_state_def)

end
