(* ===== verification/StakingBucket.thy ===== *)
theory StakingBucket
  imports Slash StakingLog GoFloat TxSink
begin

text \<open>
  The staking_bucket plugin (service/staking_bucket): one row per staking action, with the
  state of the bucket after it and its voting power. Other tables it reads (candidates,
  slashes), the node's buckets, the ABI, \<open>math.Log\<close>, the weight constants and heights of the
  genesis and the decimal parser are arguments (\<open>sb_env\<close>).
\<close>

subsection \<open>Voting power\<close>

record vote_consts =
  vc_log :: "f64 \<Rightarrow> f64"
  vc_duration_lg :: f64
  vc_auto_stake :: f64
  vc_self_stake :: f64

text \<open>
  \<open>v.StakedDuration * 86400\<close> is a uint32 product, \<open>new(big.Float).SetInt(a)\<close> has the larger of
  64 and the bit length of \<open>a\<close> as its precision, and \<open>Mul\<close> rounds to that precision.
\<close>

definition calculateVoteWeight :: "vote_consts \<Rightarrow> int \<Rightarrow> bool \<Rightarrow> u32 \<Rightarrow> bool \<Rightarrow> int" where
  "calculateVoteWeight c amount autoStake duration selfStake =
     (let remainingTime = f_of_nat (unat (duration * 86400));
          m = (if autoStake then vc_auto_stake c else F64 0 0);
          weight1 = (if f_pos remainingTime
             then f_add (F64 1 0)
                    (f_div (f_div (vc_log c (f_mul (f_of_nat (f_ceil (f_div remainingTime (f_of_nat 86400))))
                                                   (f_add (F64 1 0) m)))
                                  (vc_log c (vc_duration_lg c)))
                           (f_of_nat 100))
             else F64 1 0);
          weight = (if selfStake \<and> autoStake \<and> duration \<ge> 91 then f_mul weight1 (vc_self_stake c)
                    else weight1);
          prec = max 64 (bitlen (nat \<bar>amount\<bar>))
      in sgn amount * int (f_trunc (f_mul_prec prec (F64 (nat \<bar>amount\<bar>) 0) weight)))"

definition getVoteWeight :: "vote_consts \<Rightarrow> u32 \<Rightarrow> int \<Rightarrow> bool \<Rightarrow> bool \<Rightarrow> int" where
  "getVoteWeight c duration stakeAmount autoStake selfStake =
     calculateVoteWeight c stakeAmount autoStake duration selfStake"

subsection \<open>The table\<close>

record sb_row = ledger_row +
  sb_create_time :: int
  sb_stake_start :: int
  sb_unstake_start :: int
  sb_staked_amount :: int
  sb_voting_power :: int
  sb_sender :: string
  sb_action_hash :: string
  sb_endorse_expire :: u64
  sb_timestamp :: int

record sb_env =
  sbe_abi :: staking_abi
  sbe_candidates :: "cand_row list"
  sbe_slashes :: "slash_row list"
  sbe_node_buckets :: "u64 \<Rightarrow> vote_bucket list res"
  sbe_decimal :: "string \<Rightarrow> int option"
  sbe_greenland :: u64
  sbe_consts :: vote_consts

definition getCandidateAddressByName :: "cand_row list \<Rightarrow> string \<Rightarrow> u64 \<Rightarrow> string res" where
  "getCandidateAddressByName cands name h =
     bindE (FetchByNameWithHeight name h cands) (\<lambda>c. Inr (cr_id c))"

text \<open>\<open>Last(&bi)\<close>: the bucket's row of highest id, or gorm.ErrRecordNotFound.\<close>

definition getBucketInfoAddressByBucketID :: "u64 \<Rightarrow> sb_row list \<Rightarrow> sb_row res" where
  "getBucketInfoAddressByBucketID b rows =
     (case bucket_last b rows of None \<Rightarrow> Inl RecordNotFound | Some r \<Rightarrow> Inr r)"

text \<open>
  The row that continues a bucket: times, owner, candidate, auto-stake and duration from its
  last row, nothing staked, nothing added. Each action changes the fields its code sets
  otherwise.
\<close>

definition info_row :: "block \<Rightarrow> envelope \<Rightarrow> u64 \<Rightarrow> sb_row \<Rightarrow> string \<Rightarrow> sb_row" where
  "info_row blk e b info act =
     \<lparr>lr_height = b_height blk, lr_bucket = b, lr_owner = lr_owner info,
      lr_candidate = lr_candidate info, lr_amount = 0, lr_act_type = act,
      lr_auto_stake = lr_auto_stake info, lr_duration = lr_duration info,
      sb_create_time = sb_create_time info, sb_stake_start = sb_stake_start info,
      sb_unstake_start = sb_unstake_start info, sb_staked_amount = 0, sb_voting_power = 0,
      sb_sender = e_sender e, sb_action_hash = hex_encode (e_hash e), sb_endorse_expire = 0,
      sb_timestamp = b_timestamp blk\<rparr>"

subsection \<open>The actions\<close>

definition sb_withdraw :: "block \<Rightarrow> envelope \<Rightarrow> u64 \<Rightarrow> sb_row list \<Rightarrow> sb_row list res" where
  "sb_withdraw blk e b rows =
     bindE (getBucketInfoAddressByBucketID b rows) (\<lambda>info.
     Inr (rows @ [(info_row blk e b info ''WithdrawStake'')
       \<lparr>lr_auto_stake := False, lr_duration := 0\<rparr>]))"

definition sb_migrate :: "block \<Rightarrow> envelope \<Rightarrow> u64 \<Rightarrow> sb_row list \<Rightarrow> sb_row list res" where
  "sb_migrate blk e b rows =
     bindE (getBucketInfoAddressByBucketID b rows) (\<lambda>info.
     Inr (rows @ [(info_row blk e b info ''MigrateStake'')
       \<lparr>lr_auto_stake := False, lr_duration := 0\<rparr>]))"

definition sb_create ::
  "sb_env \<Rightarrow> block \<Rightarrow> envelope \<Rightarrow> u64 option \<Rightarrow> string \<Rightarrow> int \<Rightarrow> u32 \<Rightarrow> bool \<Rightarrow>
   sb_row list \<Rightarrow> sb_row list res" where
  "sb_create env blk e bucket name amt dur auto rows =
     bindE (getCandidateAddressByName (sbe_candidates env) name (b_height blk)) (\<lambda>cand.
     case bucket of
       None \<Rightarrow> Inl (Err ''can not found bucketID with actHash'')
     | Some b \<Rightarrow>
         Inr (rows @ [\<lparr>lr_height = b_height blk, lr_bucket = b, lr_owner = e_sender e,
           lr_candidate = cand, lr_amount = amt, lr_act_type = ''StakeCreate'',
           lr_auto_stake = auto, lr_duration = dur, sb_create_time = b_timestamp blk,
           sb_stake_start = b_timestamp blk, sb_unstake_start = 0, sb_staked_amount = amt,
           sb_voting_power = getVoteWeight (sbe_consts env) dur amt auto (e_sender e = cand),
           sb_sender = e_sender e, sb_action_hash = hex_encode (e_hash e),
           sb_endorse_expire = 0, sb_timestamp = b_timestamp blk\<rparr>]))"

definition sb_transfer ::
  "sb_env \<Rightarrow> block \<Rightarrow> envelope \<Rightarrow> u64 \<Rightarrow> string \<Rightarrow> sb_row list \<Rightarrow> sb_row list res" where
  "sb_transfer env blk e b voter rows =
     (let amt = bucket_sum b rows in
      bindE (getBucketInfoAddressByBucketID b rows) (\<lambda>info.
      Inr (rows @ [(info_row blk e b info ''TransferStake'')
        \<lparr>lr_owner := voter, sb_staked_amount := amt,
         sb_voting_power := getVoteWeight (sbe_consts env) (lr_duration info) amt
           (lr_auto_stake info) (voter = lr_candidate info)\<rparr>])))"

definition sb_restake ::
  "sb_env \<Rightarrow> block \<Rightarrow> envelope \<Rightarrow> u64 \<Rightarrow> u32 \<Rightarrow> bool \<Rightarrow> sb_row list \<Rightarrow> sb_row list res" where
  "sb_restake env blk e b dur auto rows =
     bindE (getBucketInfoAddressByBucketID b rows) (\<lambda>info.
     let fixAmount = (if b_height blk < sbe_greenland env then fix_sum b rows else 0);
         amt = bucket_sum b rows
     in Inr (rows @ [(info_row blk e b info ''Restake'')
          \<lparr>lr_owner := e_sender e, lr_auto_stake := auto, lr_duration := dur,
           lr_amount := fixAmount, sb_stake_start := b_timestamp blk, sb_staked_amount := amt,
           sb_voting_power := getVoteWeight (sbe_consts env) dur amt auto
             (e_sender e = lr_candidate info)\<rparr>]))"

definition sb_change_candidate ::
  "sb_env \<Rightarrow> block \<Rightarrow> envelope \<Rightarrow> u64 \<Rightarrow> string \<Rightarrow> sb_row list \<Rightarrow> sb_row list res" where
  "sb_change_candidate env blk e b name rows =
     (let amt = bucket_sum b rows in
      bindE (getBucketInfoAddressByBucketID b rows) (\<lambda>info.
      bindE (getCandidateAddressByName (sbe_candidates env) name (b_height blk)) (\<lambda>cand.
      Inr (rows @ [(info_row blk e b info ''ChangeCandidate'')
        \<lparr>lr_candidate := cand, sb_staked_amount := amt,
         sb_voting_power := getVoteWeight (sbe_consts env) (lr_duration info) amt
           (lr_auto_stake info) (lr_owner info = cand)\<rparr>]))))"

definition sb_deposit ::
  "sb_env \<Rightarrow> block \<Rightarrow> envelope \<Rightarrow> u64 \<Rightarrow> int \<Rightarrow> sb_row list \<Rightarrow> sb_row list res" where
  "sb_deposit env blk e b amt rows =
     bindE (getBucketInfoAddressByBucketID b rows) (\<lambda>info.
     let staked = bucket_sum b rows + amt
     in Inr (rows @ [(info_row blk e b info ''DepositToStake'')
          \<lparr>lr_amount := amt, sb_staked_amount := staked,
           sb_voting_power := getVoteWeight (sbe_consts env) (lr_duration info) staked
             (lr_auto_stake info) (lr_owner info = lr_candidate info)\<rparr>]))"

definition sb_unstake :: "block \<Rightarrow> envelope \<Rightarrow> u64 \<Rightarrow> sb_row list \<Rightarrow> sb_row list res" where
  "sb_unstake blk e b rows =
     (let amt = bucket_sum b rows in
      bindE (getBucketInfoAddressByBucketID b rows) (\<lambda>info.
      Inr (rows @ [(info_row blk e b info ''Unstake'')
        \<lparr>sb_unstake_start := b_timestamp blk, sb_staked_amount := amt\<rparr>])))"

definition sb_register ::
  "sb_env \<Rightarrow> block \<Rightarrow> envelope \<Rightarrow> u64 option \<Rightarrow> string \<Rightarrow> int \<Rightarrow> u32 \<Rightarrow> bool \<Rightarrow>
   sb_row list \<Rightarrow> sb_row list res" where
  "sb_register env blk e bucket own amt dur auto rows =
     (case bucket of
        None \<Rightarrow> Inl (Err ''can not found bucketID with actHash'')
      | Some b \<Rightarrow>
          if b \<noteq> NoBucket
          then Inr (rows @ [\<lparr>lr_height = b_height blk, lr_bucket = b, lr_owner = own,
            lr_candidate = own, lr_amount = amt, lr_act_type = ''CandidateRegister'',
            lr_auto_stake = auto, lr_duration = dur, sb_create_time = b_timestamp blk,
            sb_stake_start = 0, sb_unstake_start = 0, sb_staked_amount = amt,
            sb_voting_power = getVoteWeight (sbe_consts env) dur amt auto True,
            sb_sender = e_sender e, sb_action_hash = hex_encode (e_hash e),
            sb_endorse_expire = 0, sb_timestamp = b_timestamp blk\<rparr>])
          else Inr rows)"

definition sb_endorse ::
  "sb_env \<Rightarrow> block \<Rightarrow> envelope \<Rightarrow> u64 \<Rightarrow> endorsement_op \<Rightarrow> sb_row list \<Rightarrow> sb_row list res" where
  "sb_endorse env blk e b op rows =
     bindE (getBucketInfoAddressByBucketID b rows) (\<lambda>info.
     bindE (GetStakingBucketByID (sbe_node_buckets env) b (b_height blk)) (\<lambda>bo.
     case bo of
       None \<Rightarrow> Inl nil_pointer
     | Some vb \<Rightarrow>
         (case sbe_decimal env (vb_staked_amount vb) of
            None \<Rightarrow> Inl (Err ''failed to parse staked amount'')
          | Some amt \<Rightarrow>
              Inr (rows @ [(info_row blk e b info ''CandidateEndorsement'')
                \<lparr>lr_duration := 0, sb_staked_amount := amt,
                 sb_voting_power := getVoteWeight (sbe_consts env) (lr_duration info) amt
                   (vb_auto_stake vb) (op = OpEndorse),
                 sb_endorse_expire := vb_endorsement_expire vb\<rparr>]))))"

definition sb_slash ::
  "sb_env \<Rightarrow> block \<Rightarrow> envelope \<Rightarrow> slash_row \<Rightarrow> sb_row list \<Rightarrow> sb_row list res" where
  "sb_slash env blk e s rows =
     (let b = sl_bucket s in
      bindE (getBucketInfoAddressByBucketID b rows) (\<lambda>info.
      let staked = bucket_sum b rows - sl_amount s
      in Inr (rows @ [(info_row blk e b info ''SlashCandidate'')
           \<lparr>lr_amount := - sl_amount s, sb_staked_amount := staked,
            sb_voting_power := getVoteWeight (sbe_consts env) (lr_duration info) staked
              (lr_auto_stake info) True\<rparr>])))"

text \<open>The switch over the action. \<open>bucket\<close> is the entry of \<open>bucketMap\<close> for the action's hash.\<close>

definition sb_action ::
  "sb_env \<Rightarrow> block \<Rightarrow> envelope \<Rightarrow> u64 option \<Rightarrow> sb_row list \<Rightarrow> sb_row list res" where
  "sb_action env blk e bucket rows =
     (case e_action e of
        WithdrawStake b \<Rightarrow> sb_withdraw blk e b rows
      | CreateStake name amt dur auto \<Rightarrow> sb_create env blk e bucket name amt dur auto rows
      | TransferStake b voter \<Rightarrow> sb_transfer env blk e b voter rows
      | Restake b dur auto \<Rightarrow> sb_restake env blk e b dur auto rows
      | ChangeCandidate b name \<Rightarrow> sb_change_candidate env blk e b name rows
      | DepositToStake b amt \<Rightarrow> sb_deposit env blk e b amt rows
      | Unstake b \<Rightarrow> sb_unstake blk e b rows
      | CandidateRegister _ _ _ own amt dur auto _ \<Rightarrow> sb_register env blk e bucket own amt dur auto rows
      | MigrateStake b \<Rightarrow> sb_migrate blk e b rows
      | CandidateEndorsement b op \<Rightarrow> sb_endorse env blk e b op rows
      | GrantReward t \<Rightarrow>
          (if t \<noteq> EpochReward then Inr rows
           else foldE (sb_slash env blk e)
                  (FetchSlashByActionHash (hex_encode (e_hash e)) (sbe_slashes env)) rows)
      | _ \<Rightarrow> Inr rows)"

definition sb_step ::
  "sb_env \<Rightarrow> block \<Rightarrow> envelope \<Rightarrow> receipt \<Rightarrow> (string \<rightharpoonup> u64) \<times> sb_row list \<Rightarrow>
   ((string \<rightharpoonup> u64) \<times> sb_row list) res" where
  "sb_step env blk e r st =
     (case st of (bucketMap, rows) \<Rightarrow>
        let actHash = hex_encode (e_hash e);
            bucketMap' = (case BucketIndex (sbe_abi env) (r_logs r) of
                            None \<Rightarrow> bucketMap | Some i \<Rightarrow> bucketMap(actHash \<mapsto> i))
        in bindE (sb_action env blk e (bucketMap' actHash) rows) (\<lambda>rows'. Inr (bucketMap', rows')))"

definition sb_handleBlock :: "sb_env \<Rightarrow> block \<Rightarrow> sb_row list \<Rightarrow> sb_row list res" where
  "sb_handleBlock env blk rows =
     bindE (on_receipts (sb_step env blk) blk (Map.empty, rows)) (\<lambda>st. Inr (snd st))"

subsection \<open>Putting blocks\<close>

definition sb_PutBlocks ::
  "(block list \<Rightarrow> tx_faults) \<Rightarrow> (string \<Rightarrow> string) \<Rightarrow> sb_env \<Rightarrow> block list \<Rightarrow>
   sb_row list world \<Rightarrow> unit res \<times> sb_row list world" where
  "sb_PutBlocks F shadow env = tx_PutBlocks F (shadow ''staking_bucket'') (sb_handleBlock env)"

text \<open>
  \<open>PutBlock\<close> repairs the staked amount of the Unstake rows once, the first time it runs on a
  database: the store remembers that it did.
\<close>

definition fixStakeAmount :: "sb_row list \<Rightarrow> sb_row list" where
  "fixStakeAmount rows =
     map (\<lambda>r. if lr_act_type r = ''Unstake''
              then r\<lparr>sb_staked_amount := bucket_sum (lr_bucket r) rows\<rparr> else r) rows"

definition sb_fix_once ::
  "int \<Rightarrow> (string \<Rightarrow> string) \<Rightarrow> u64 \<Rightarrow> (string \<rightharpoonup> store_row) \<Rightarrow> sb_row list \<Rightarrow>
   (string \<rightharpoonup> store_row) \<times> sb_row list" where
  "sb_fix_once now shadow h store rows =
     (let key = shadow ''staking_bucket_fix_stake_amount'' in
      case Store_Get key store of
        Inl _ \<Rightarrow> (Store_Save now key (''{\"block_height\": '' @ show_nat (unat h) @ ''}'') store,
                  fixStakeAmount rows)
      | Inr _ \<Rightarrow> (store, rows))"

definition sb_PutBlock ::
  "(block list \<Rightarrow> tx_faults) \<Rightarrow> int \<Rightarrow> (string \<Rightarrow> string) \<Rightarrow> sb_env \<Rightarrow> block \<Rightarrow>
   (string \<rightharpoonup> store_row) \<Rightarrow> sb_row list world \<Rightarrow>
   unit res \<times> (string \<rightharpoonup> store_row) \<times> sb_row list world" where
  "sb_PutBlock F now shadow env b store w =
     (case sb_fix_once now shadow (b_height b) store (tables w) of
        (store', rows) \<Rightarrow>
          (case tx_PutBlock F (shadow ''staking_bucket'') (sb_handleBlock env) b (w\<lparr>tables := rows\<rparr>) of
             (r, w') \<Rightarrow> (r, store', w')))"

subsection \<open>What the handler inserts\<close>

text \<open>Rows of the block's height; an Unstake row carries no amount.\<close>

definition sb_adds :: "block \<Rightarrow> sb_row list \<Rightarrow> sb_row list \<Rightarrow> bool" where
  "sb_adds blk rows rows' \<longleftrightarrow>
     (\<exists>new. rows' = rows @ new \<and>
        (\<forall>r \<in> set new. lr_height r = b_height blk \<and>
           (lr_act_type r = ''Unstake'' \<longrightarrow> lr_amount r = 0)))"

lemma sb_adds_refl [simp]: "sb_adds blk rows rows"
  by (auto simp: sb_adds_def)

lemma sb_adds_trans: "sb_adds blk a b \<Longrightarrow> sb_adds blk b c \<Longrightarrow> sb_adds blk a c"
  unfolding sb_adds_def by (metis UnE append_assoc set_append)

lemma sb_adds_one:
  "lr_height r = b_height blk \<Longrightarrow> (lr_act_type r = ''Unstake'' \<Longrightarrow> lr_amount r = 0) \<Longrightarrow>
   sb_adds blk rows (rows @ [r])"
  by (auto simp: sb_adds_def)

lemma info_row_simps [simp]:
  "lr_height (info_row blk e b info act) = b_height blk"
  "lr_bucket (info_row blk e b info act) = b"
  "lr_owner (info_row blk e b info act) = lr_owner info"
  "lr_candidate (info_row blk e b info act) = lr_candidate info"
  "lr_amount (info_row blk e b info act) = 0"
  "lr_act_type (info_row blk e b info act) = act"
  "lr_auto_stake (info_row blk e b info act) = lr_auto_stake info"
  "lr_duration (info_row blk e b info act) = lr_duration info"
  by (simp_all add: info_row_def)

lemmas sb_action_defs = sb_withdraw_def sb_migrate_def sb_create_def sb_transfer_def
  sb_restake_def sb_change_candidate_def sb_deposit_def sb_unstake_def sb_register_def
  sb_endorse_def sb_slash_def Let_def

lemma sb_slash_adds: "sb_slash env blk e s rows = Inr rows' \<Longrightarrow> sb_adds blk rows rows'"
  by (auto simp: sb_slash_def Let_def bindE_eq_Inr intro!: sb_adds_one)

lemma sb_endorse_adds: "sb_endorse env blk e b op rows = Inr rows' \<Longrightarrow> sb_adds blk rows rows'"
  unfolding sb_endorse_def
  by (elim bindE_InrE) (auto split: option.splits intro!: sb_adds_one)

lemma sb_action_adds:
  assumes "sb_action env blk e bucket rows = Inr rows'"
  shows "sb_adds blk rows rows'"
proof (cases "\<exists>t. e_action e = GrantReward t")
  case True
  then obtain t where t: "e_action e = GrantReward t" by blast
  show ?thesis
  proof (cases "t = EpochReward")
    case True
    with t assms have run: "foldE (sb_slash env blk e)
        (FetchSlashByActionHash (hex_encode (e_hash e)) (sbe_slashes env)) rows = Inr rows'"
      by (simp add: sb_action_def)
    show ?thesis
      by (rule foldE_invariant [where P = "sb_adds blk rows", OF run])
        (use sb_slash_adds sb_adds_trans in \<open>blast intro: sb_adds_refl\<close>)+
  next
    case False
    with t assms show ?thesis by (simp add: sb_action_def)
  qed
next
  case False
  show ?thesis
  proof (cases "\<exists>b op. e_action e = CandidateEndorsement b op")
    case True
    with assms sb_endorse_adds show ?thesis by (auto simp: sb_action_def)
  next
    case False
    with assms \<open>\<nexists>t. e_action e = GrantReward t\<close> show ?thesis
      by (cases "e_action e")
        (auto simp: sb_action_def sb_action_defs bindE_eq_Inr split: option.splits if_splits
          intro!: sb_adds_one)
  qed
qed

lemma sb_handleBlock_adds:
  assumes "sb_handleBlock env blk rows = Inr rows'"
  shows "sb_adds blk rows rows'"
proof -
  from assms obtain m where run: "on_receipts (sb_step env blk) blk (Map.empty, rows) = Inr (m, rows')"
    by (auto simp: sb_handleBlock_def bindE_eq_Inr)
  have "sb_adds blk rows (snd (m, rows'))"
    by (rule on_receipts_invariant [where P = "\<lambda>st. sb_adds blk rows (snd st)", OF run])
      (force simp: sb_step_def Let_def bindE_eq_Inr split: prod.splits
        intro: sb_adds_trans [OF _ sb_action_adds])+
  then show ?thesis by simp
qed

interpretation sb_table: block_table "sb_handleBlock env" "\<lambda>rows. rows" lr_height
  for env
  by unfold_locales (use sb_handleBlock_adds in \<open>fastforce simp: sb_adds_def\<close>)

interpretation sb_sink: height_sink "sb_PutBlocks F shadow env" "foldE (sb_handleBlock env)"
    tables "\<lambda>w. heights w (shadow ''staking_bucket'')"
  for F shadow env
  unfolding sb_PutBlocks_def by (rule tx.height_sink_axioms)

lemma sb_unstake_rows_empty:
  assumes "foldE (sb_handleBlock env) blks rows = Inr rows'"
    and "\<And>r. r \<in> set rows \<Longrightarrow> lr_act_type r = ''Unstake'' \<Longrightarrow> lr_amount r = 0"
    and "r \<in> set rows'" and "lr_act_type r = ''Unstake''"
  shows "lr_amount r = 0"
proof -
  have "\<forall>r \<in> set rows'. lr_act_type r = ''Unstake'' \<longrightarrow> lr_amount r = 0"
    by (rule foldE_invariant [where P = "\<lambda>rows. \<forall>r \<in> set rows. lr_act_type r = ''Unstake'' \<longrightarrow> lr_amount r = 0",
          OF assms(1)]) (use assms(2) in \<open>auto simp: sb_adds_def dest!: sb_handleBlock_adds\<close>)
  with assms(3,4) show ?thesis by blast
qed

subsection \<open>The specification\<close>

text \<open>
  What the actions mean for the buckets, from the Greenland height on: a map from bucket
  index to amount, owner, candidate, auto-stake and duration.
\<close>

definition on_bucket ::
  "u64 \<Rightarrow> (bucket_view \<Rightarrow> bucket_view res) \<Rightarrow> (u64 \<rightharpoonup> bucket_view) \<Rightarrow> (u64 \<rightharpoonup> bucket_view) res" where
  "on_bucket b f v =
     (case v b of None \<Rightarrow> Inl RecordNotFound | Some x \<Rightarrow> bindE (f x) (\<lambda>y. Inr (v(b \<mapsto> y))))"

definition new_bucket ::
  "u64 \<Rightarrow> int \<Rightarrow> string \<Rightarrow> string \<Rightarrow> bool \<Rightarrow> u32 \<Rightarrow> (u64 \<rightharpoonup> bucket_view) \<Rightarrow> (u64 \<rightharpoonup> bucket_view)" where
  "new_bucket b amt own cand auto dur v =
     v(b \<mapsto> \<lparr>bv_amount = amount_in v b + amt, bv_owner = own, bv_candidate = cand,
            bv_auto_stake = auto, bv_duration = dur\<rparr>)"

definition spec_endorse :: "sb_env \<Rightarrow> u64 \<Rightarrow> u64 \<Rightarrow> bucket_view \<Rightarrow> bucket_view res" where
  "spec_endorse env h b x =
     bindE (GetStakingBucketByID (sbe_node_buckets env) b h) (\<lambda>bo.
       case bo of None \<Rightarrow> Inl nil_pointer
       | Some vb \<Rightarrow> (case sbe_decimal env (vb_staked_amount vb) of
             None \<Rightarrow> Inl (Err ''failed to parse staked amount'')
           | Some _ \<Rightarrow> Inr (x\<lparr>bv_duration := 0\<rparr>)))"

definition spec_slash :: "slash_row \<Rightarrow> (u64 \<rightharpoonup> bucket_view) \<Rightarrow> (u64 \<rightharpoonup> bucket_view) res" where
  "spec_slash s = on_bucket (sl_bucket s) (\<lambda>x. Inr (x\<lparr>bv_amount := bv_amount x - sl_amount s\<rparr>))"

definition spec_action ::
  "sb_env \<Rightarrow> block \<Rightarrow> envelope \<Rightarrow> u64 option \<Rightarrow> (u64 \<rightharpoonup> bucket_view) \<Rightarrow> (u64 \<rightharpoonup> bucket_view) res" where
  "spec_action env blk e bucket v =
     (case e_action e of
        WithdrawStake b \<Rightarrow> on_bucket b (\<lambda>x. Inr (x\<lparr>bv_auto_stake := False, bv_duration := 0\<rparr>)) v
      | MigrateStake b \<Rightarrow> on_bucket b (\<lambda>x. Inr (x\<lparr>bv_auto_stake := False, bv_duration := 0\<rparr>)) v
      | CreateStake name amt dur auto \<Rightarrow>
          bindE (getCandidateAddressByName (sbe_candidates env) name (b_height blk)) (\<lambda>cand.
          case bucket of None \<Rightarrow> Inl (Err ''can not found bucketID with actHash'')
          | Some b \<Rightarrow> Inr (new_bucket b amt (e_sender e) cand auto dur v))
      | TransferStake b voter \<Rightarrow> on_bucket b (\<lambda>x. Inr (x\<lparr>bv_owner := voter\<rparr>)) v
      | Restake b dur auto \<Rightarrow>
          on_bucket b (\<lambda>x. Inr (x\<lparr>bv_owner := e_sender e, bv_auto_stake := auto, bv_duration := dur\<rparr>)) v
      | ChangeCandidate b name \<Rightarrow>
          on_bucket b (\<lambda>x. bindE (getCandidateAddressByName (sbe_candidates env) name (b_height blk))
            (\<lambda>cand. Inr (x\<lparr>bv_candidate := cand\<rparr>))) v
      | DepositToStake b amt \<Rightarrow> on_bucket b (\<lambda>x. Inr (x\<lparr>bv_amount := bv_amount x + amt\<rparr>)) v
      | Unstake b \<Rightarrow> on_bucket b Inr v
      | CandidateRegister _ _ _ own amt dur auto _ \<Rightarrow>
          (case bucket of None \<Rightarrow> Inl (Err ''can not found bucketID with actHash'')
           | Some b \<Rightarrow> Inr (if b = NoBucket then v else new_bucket b amt own own auto dur v))
      | CandidateEndorsement b op \<Rightarrow> on_bucket b (spec_endorse env (b_height blk) b) v
      | GrantReward t \<Rightarrow>
          (if t \<noteq> EpochReward then Inr v
           else foldE spec_slash
                  (FetchSlashByActionHash (hex_encode (e_hash e)) (sbe_slashes env)) v)
      | _ \<Rightarrow> Inr v)"

definition spec_step ::
  "sb_env \<Rightarrow> block \<Rightarrow> envelope \<Rightarrow> receipt \<Rightarrow> (string \<rightharpoonup> u64) \<times> (u64 \<rightharpoonup> bucket_view) \<Rightarrow>
   ((string \<rightharpoonup> u64) \<times> (u64 \<rightharpoonup> bucket_view)) res" where
  "spec_step env blk e r st =
     (case st of (bucketMap, v) \<Rightarrow>
        let actHash = hex_encode (e_hash e);
            bucketMap' = (case BucketIndex (sbe_abi env) (r_logs r) of
                            None \<Rightarrow> bucketMap | Some i \<Rightarrow> bucketMap(actHash \<mapsto> i))
        in bindE (spec_action env blk e (bucketMap' actHash) v) (\<lambda>v'. Inr (bucketMap', v')))"

definition spec_handleBlock ::
  "sb_env \<Rightarrow> block \<Rightarrow> (u64 \<rightharpoonup> bucket_view) \<Rightarrow> (u64 \<rightharpoonup> bucket_view) res" where
  "spec_handleBlock env blk v =
     bindE (on_receipts (spec_step env blk) blk (Map.empty, v)) (\<lambda>st. Inr (snd st))"

text \<open>One row that continues a bucket is one update of its view.\<close>

lemma on_bucket_view:
  "on_bucket b f (view rows) =
     (case bucket_last b rows of
        None \<Rightarrow> Inl RecordNotFound
      | Some r \<Rightarrow> bindE (f \<lparr>bv_amount = bucket_sum b rows, bv_owner = lr_owner r,
           bv_candidate = lr_candidate r, bv_auto_stake = lr_auto_stake r,
           bv_duration = lr_duration r\<rparr>) (\<lambda>y. Inr ((view rows)(b \<mapsto> y))))"
  by (simp add: on_bucket_def view_def split: option.splits)

lemma info_bind:
  "map_res view (bindE (getBucketInfoAddressByBucketID b rows) k) =
     (case bucket_last b rows of None \<Rightarrow> Inl RecordNotFound | Some r \<Rightarrow> map_res view (k r))"
  by (simp add: getBucketInfoAddressByBucketID_def split: option.splits)

lemma sb_slash_refines: "map_res view (sb_slash env blk e s rows) = spec_slash s (view rows)"
  by (simp add: sb_slash_def spec_slash_def Let_def info_bind on_bucket_view view_snoc
      split: option.splits)

lemma sb_action_refines:
  assumes "sbe_greenland env \<le> b_height blk"
  shows "map_res view (sb_action env blk e bucket rows) = spec_action env blk e bucket (view rows)"
proof (cases "e_action e")
  case (GrantReward t)
  have "map_res view (foldE (sb_slash env blk e) ss rows) = foldE spec_slash ss (view rows)" for ss
    by (rule foldE_simulation) (rule sb_slash_refines)
  with GrantReward show ?thesis by (simp add: sb_action_def spec_action_def)
next
  case (Restake b dur auto)
  have "\<not> b_height blk < sbe_greenland env" using assms by simp
  with Restake show ?thesis
    by (simp add: sb_action_def spec_action_def sb_restake_def Let_def info_bind on_bucket_view
        view_snoc split: option.splits)
next
  case (CreateStake name amt dur auto)
  then show ?thesis
    by (cases bucket) (simp_all add: sb_action_def spec_action_def sb_create_def map_res_bindE
        view_snoc new_bucket_def)
next
  case (CandidateEndorsement b op)
  then show ?thesis
    by (cases "bucket_last b rows"; cases "GetStakingBucketByID (sbe_node_buckets env) b (b_height blk)")
      (auto simp: sb_action_def spec_action_def sb_endorse_def spec_endorse_def info_bind
        on_bucket_view view_snoc split: option.split)
qed (simp_all add: sb_action_def spec_action_def sb_action_defs on_bucket_view view_snoc
    getBucketInfoAddressByBucketID_def
    new_bucket_def map_res_bindE bindE_assoc split: option.splits)

lemma sb_step_refines:
  assumes "sbe_greenland env \<le> b_height blk"
  shows "map_res (map_prod id view) (sb_step env blk e r st) = spec_step env blk e r (map_prod id view st)"
proof (cases st)
  case (Pair m rows)
  let ?h = "hex_encode (e_hash e)"
  let ?m = "case BucketIndex (sbe_abi env) (r_logs r) of None \<Rightarrow> m | Some i \<Rightarrow> m(?h \<mapsto> i)"
  note refines = sb_action_refines [OF assms, symmetric]
  show ?thesis
    by (cases "sb_action env blk e (?m ?h) rows")
      (simp_all add: Pair sb_step_def spec_step_def Let_def refines)
qed

subsection \<open>Properties\<close>

text \<open>
  C2: Refinement. From the Greenland height on, handling a block does to the buckets (amount,
  owner, candidate, auto-stake, duration, read off the rows) exactly what the specification
  of the actions says, and fails exactly when it does.
\<close>

theorem sb_handleBlock_refines:
  assumes "sbe_greenland env \<le> b_height blk"
  shows "map_res view (sb_handleBlock env blk rows) = spec_handleBlock env blk (view rows)"
proof -
  have "map_res (map_prod id view) (on_receipts (sb_step env blk) blk (Map.empty, rows))
      = on_receipts (spec_step env blk) blk (map_prod id view (Map.empty, rows))"
    by (rule on_receipts_simulation) (rule sb_step_refines [OF assms])
  then have sim: "on_receipts (spec_step env blk) blk (Map.empty, view rows)
      = map_res (map_prod id view) (on_receipts (sb_step env blk) blk (Map.empty, rows))"
    by simp
  show ?thesis
    by (cases "on_receipts (sb_step env blk) blk (Map.empty, rows)")
      (auto simp: sb_handleBlock_def spec_handleBlock_def sim split: prod.splits)
qed

definition example_consts :: vote_consts where
  "example_consts = \<lparr>vc_log = (\<lambda>x. F64 1 0), vc_duration_lg = F64 5404319552844595 (- 52),
     vc_auto_stake = F64 1 0, vc_self_stake = F64 1 0\<rparr>"

definition sb_env0 :: sb_env where
  "sb_env0 = \<lparr>sbe_abi = example_abi, sbe_candidates = [reg_row 1 ''cand'' ''op'' ''own''],
     sbe_slashes = [], sbe_node_buckets = (\<lambda>h. Inr [example_bucket]),
     sbe_decimal = parse_int10, sbe_greenland = 100, sbe_consts = example_consts\<rparr>"

definition one_action_block :: "u64 \<Rightarrow> action \<Rightarrow> log list \<Rightarrow> block" where
  "one_action_block h a logs = \<lparr>b_height = h, b_timestamp = 1000,
     b_actions = [\<lparr>e_hash = [1], e_sender = ''io1s'', e_action = a\<rparr>],
     b_receipts = [(cand_receipt [1])\<lparr>r_logs := logs\<rparr>]\<rparr>"

text \<open>The log of a bucket creation: bucket 7.\<close>

definition staked_log :: log where
  "staked_log = example_log [[1]] (be_bytes 8 7)"

lemma staked_log_index: "BucketIndex example_abi [staked_log] = Some 7"
  using be_uint64_be_bytes [of 7]
  by (simp add: staked_log_def BucketIndex_def bucket_log_def indexFromEventData_def
      example_abi_def example_log_def)

lemma one_action_block_simps [simp]:
  "b_height (one_action_block h a logs) = h"
  "b_timestamp (one_action_block h a logs) = 1000"
  by (simp_all add: one_action_block_def)

lemma sb_one_action:
  "sb_handleBlock env (one_action_block h a logs) rows =
     sb_action env (one_action_block h a logs) \<lparr>e_hash = [1], e_sender = ''io1s'', e_action = a\<rparr>
       (BucketIndex (sbe_abi env) logs) rows"
  by (cases "BucketIndex (sbe_abi env) logs"; cases "sb_action env (one_action_block h a logs)
       \<lparr>e_hash = [1], e_sender = ''io1s'', e_action = a\<rparr> (BucketIndex (sbe_abi env) logs) rows")
    (auto simp: sb_handleBlock_def on_receipts_def one_action_block_def cand_receipt_def
      receipt_success_def actions_by_hash_def sb_step_def Let_def)

lemma sb_env0_candidate: "getCandidateAddressByName (sbe_candidates sb_env0) ''cand'' h = (if 1 \<le> h then Inr ''own'' else Inl RecordNotFound)"
  by (simp add: sb_env0_def getCandidateAddressByName_def FetchByNameWithHeight_def take_newest_def
      newest_def reg_row_def)

text \<open>The row a StakeCreate of 50 inserts at height \<open>h\<close>.\<close>

definition created_row :: "u64 \<Rightarrow> sb_row" where
  "created_row h = \<lparr>lr_height = h, lr_bucket = 7, lr_owner = ''io1s'', lr_candidate = ''own'',
     lr_amount = 50, lr_act_type = ''StakeCreate'', lr_auto_stake = True, lr_duration = 91,
     sb_create_time = 1000, sb_stake_start = 1000, sb_unstake_start = 0, sb_staked_amount = 50,
     sb_voting_power = getVoteWeight example_consts 91 50 True False,
     sb_sender = ''io1s'', sb_action_hash = hex_encode [1], sb_endorse_expire = 0,
     sb_timestamp = 1000\<rparr>"

lemma created_run:
  "1 \<le> h \<Longrightarrow> sb_handleBlock sb_env0 (one_action_block h (CreateStake ''cand'' 50 91 True) [staked_log]) rows
     = Inr (rows @ [created_row h])"
  using staked_log_index sb_env0_candidate [of h]
  by (simp add: sb_one_action sb_action_def sb_create_def created_row_def)
    (simp add: sb_env0_def)

theorem sb_handleBlock_refines_witness:
  "spec_handleBlock sb_env0 (one_action_block 200 (CreateStake ''cand'' 50 91 True) [staked_log]) Map.empty
   = Inr [7 \<mapsto> \<lparr>bv_amount = 50, bv_owner = ''io1s'', bv_candidate = ''own'', bv_auto_stake = True,
                 bv_duration = 91\<rparr>]"
proof -
  have "sbe_greenland sb_env0 \<le> b_height (one_action_block 200 (CreateStake ''cand'' 50 91 True) [staked_log])"
    by (simp add: sb_env0_def)
  from sb_handleBlock_refines [OF this, of "[]"] show ?thesis
    using created_run [of 200 "[]"] by (simp add: view_snoc [of "[]", simplified] created_row_def)
qed

text \<open>
  The staked amount is the running total. Each row a transfer, a change of candidate, a
  deposit, an unstake or (from the Greenland height on) a restake inserts states as its
  staked amount the sum of the amounts of all rows of its bucket, itself included.
\<close>

theorem staked_amount_is_total:
  assumes "sb_action env blk e bucket rows = Inr rows'" and "sbe_greenland env \<le> b_height blk"
    and "(\<exists>b v. e_action e = TransferStake b v) \<or> (\<exists>b n. e_action e = ChangeCandidate b n)
      \<or> (\<exists>b a. e_action e = DepositToStake b a) \<or> (\<exists>b. e_action e = Unstake b)
      \<or> (\<exists>b d a. e_action e = Restake b d a)"
  shows "\<exists>r. rows' = rows @ [r] \<and> sb_staked_amount r = bucket_sum (lr_bucket r) rows'"
proof -
  have "\<not> b_height blk < sbe_greenland env" using assms(2) by simp
  with assms(1,3) show ?thesis
    by (auto simp: sb_action_def sb_action_defs bindE_eq_Inr)
qed

theorem staked_amount_is_total_witness:
  "\<exists>r. sb_action sb_env0 (one_action_block 200 (DepositToStake 7 30) [])
       \<lparr>e_hash = [1], e_sender = ''io1s'', e_action = DepositToStake 7 30\<rparr> None [created_row 150]
     = Inr ([created_row 150] @ [r]) \<and> sb_staked_amount r = 80"
proof -
  let ?e = "\<lparr>e_hash = [1], e_sender = ''io1s'', e_action = DepositToStake 7 30\<rparr>"
    and ?b = "one_action_block 200 (DepositToStake 7 30) []"
  obtain rows' where run: "sb_action sb_env0 ?b ?e None [created_row 150] = Inr rows'"
    and sum: "bucket_sum 7 rows' = 80"
    by (simp add: sb_action_def sb_deposit_def getBucketInfoAddressByBucketID_def
        bucket_last_simps(2) [of _ "[]", simplified] created_row_def)
  have "sbe_greenland sb_env0 \<le> b_height ?b" by (simp add: sb_env0_def)
  from staked_amount_is_total [OF run this] obtain r where r: "rows' = [created_row 150] @ [r]"
      "sb_staked_amount r = bucket_sum (lr_bucket r) rows'" by auto
  moreover have "lr_bucket r = 7"
    using run r(1) by (auto simp: sb_action_def sb_deposit_def Let_def bindE_eq_Inr)
  ultimately show ?thesis using run sum by auto
qed

text \<open>
  Before the Greenland height a restake doubles an unstaked bucket. The correction adds up
  the bucket's rows other than Unstake rows, as if the Unstake row had taken the amount out;
  but an Unstake row carries no amount here, so the bucket's total counts every stake twice.
\<close>

theorem restake_before_greenland_doubles:
  assumes "foldE (sb_handleBlock env) blks [] = Inr rows"
    and "e_action e = Restake b dur auto" and "b_height blk < sbe_greenland env"
    and "u \<in> set rows" and "lr_bucket u = b" and "lr_act_type u = ''Unstake''"
  shows "\<exists>rows'. sb_action env blk e bucket rows = Inr rows'
    \<and> bucket_sum b rows' = 2 * bucket_sum b rows"
proof -
  have same: "fix_sum b rows = bucket_sum b rows"
    by (rule fix_sum_doubles [OF _ assms(4-6)]) (rule sb_unstake_rows_empty [OF assms(1)], simp_all)
  have "bucket_last b rows \<noteq> None"
    using assms(4,5) by (auto simp: bucket_last_def last_row_None_iff)
  then show ?thesis
    using assms(2,3) same
    by (auto simp: sb_action_def sb_restake_def getBucketInfoAddressByBucketID_def Let_def)
qed

definition unstaked_row :: "u64 \<Rightarrow> sb_row" where
  "unstaked_row h = (created_row h)\<lparr>lr_amount := 0, lr_act_type := ''Unstake'',
     sb_unstake_start := 1000, sb_voting_power := 0\<rparr>"

lemma unstaked_run:
  "sb_handleBlock sb_env0 (one_action_block 20 (Unstake 7) []) [created_row 10]
     = Inr [created_row 10, unstaked_row 20]"
  by (simp add: sb_one_action sb_action_def sb_unstake_def getBucketInfoAddressByBucketID_def
      bucket_last_simps(2) [of _ "[]", simplified] created_row_def unstaked_row_def info_row_def)

theorem restake_before_greenland_doubles_witness:
  "\<exists>rows'. sb_action sb_env0 (one_action_block 30 (Restake 7 91 True) [])
       \<lparr>e_hash = [1], e_sender = ''io1s'', e_action = Restake 7 91 True\<rparr> None
       [created_row 10, unstaked_row 20] = Inr rows'
     \<and> bucket_sum 7 rows' = 2 * bucket_sum 7 [created_row 10, unstaked_row 20]"
proof -
  have "foldE (sb_handleBlock sb_env0)
      [one_action_block 10 (CreateStake ''cand'' 50 91 True) [staked_log],
       one_action_block 20 (Unstake 7) []] [] = Inr [created_row 10, unstaked_row 20]"
    using created_run [of 10 "[]"] unstaked_run by simp
  then show ?thesis
    by (rule restake_before_greenland_doubles [where u = "unstaked_row 20"])
      (simp_all add: sb_env0_def unstaked_row_def created_row_def)
qed

text \<open>
  An endorsement loses the bucket's duration. The row it inserts has duration zero, and so
  the voting power of the next deposit is computed as if the bucket were not locked at all.
\<close>

theorem endorsement_loses_duration:
  assumes "e_action e = CandidateEndorsement b op"
    and "sb_action env blk e bucket rows = Inr rows1"
    and "e_action e2 = DepositToStake b amt"
  shows "\<exists>r. sb_action env blk2 e2 bucket2 rows1 = Inr (rows1 @ [r])
    \<and> sb_voting_power r = getVoteWeight (sbe_consts env) 0 (bucket_sum b rows + amt)
        (lr_auto_stake r) (lr_owner r = lr_candidate r)"
proof -
  from assms(1,2) have run: "sb_endorse env blk e b op rows = Inr rows1"
    by (simp add: sb_action_def)
  obtain r1 where r1: "rows1 = rows @ [r1]" "lr_bucket r1 = b" "lr_duration r1 = 0" "lr_amount r1 = 0"
    using run unfolding sb_endorse_def by (elim bindE_InrE) (auto split: option.splits)
  then show ?thesis
    using assms(3) by (auto simp: sb_action_def sb_deposit_def getBucketInfoAddressByBucketID_def Let_def)
qed

theorem endorsement_loses_duration_witness:
  "\<exists>rows1 r. sb_action sb_env0 (one_action_block 200 (CandidateEndorsement 7 OpEndorse) [])
       \<lparr>e_hash = [1], e_sender = ''io1s'', e_action = CandidateEndorsement 7 OpEndorse\<rparr> None
       [created_row 150] = Inr rows1
     \<and> sb_action sb_env0 (one_action_block 201 (DepositToStake 7 30) [])
       \<lparr>e_hash = [1], e_sender = ''io1s'', e_action = DepositToStake 7 30\<rparr> None rows1 = Inr (rows1 @ [r])
     \<and> sb_voting_power r = getVoteWeight (sbe_consts sb_env0) 0 80 (lr_auto_stake r)
         (lr_owner r = lr_candidate r)"
proof -
  let ?e = "\<lparr>e_hash = [1], e_sender = ''io1s'', e_action = CandidateEndorsement 7 OpEndorse\<rparr>"
    and ?b = "one_action_block 200 (CandidateEndorsement 7 OpEndorse) []"
  have node: "GetStakingBucketByID (sbe_node_buckets sb_env0) 7 200 = Inr (Some example_bucket)"
    by (simp add: sb_env0_def GetStakingBucketByID_def getStakingBuckets_def example_bucket_def
        readBucketsLimit_def)
  have "sbe_decimal sb_env0 (vb_staked_amount example_bucket) = Some 100"
    by (simp add: sb_env0_def example_bucket_def parse_int10_def parse_nat_def digit_value_def Let_def)
  with node obtain rows1 where run: "sb_action sb_env0 ?b ?e None [created_row 150] = Inr rows1"
    by (simp add: sb_action_def sb_endorse_def getBucketInfoAddressByBucketID_def
        bucket_last_simps(2) [of _ "[]", simplified] created_row_def)
  have sum: "bucket_sum 7 [created_row 150] + 30 = 80" by (simp add: created_row_def)
  show ?thesis
    using endorsement_loses_duration [OF _ run, of 7 OpEndorse
        "\<lparr>e_hash = [1], e_sender = ''io1s'', e_action = DepositToStake 7 30\<rparr>" 30] run sum
    by auto
qed

end
