(* ===== verification/AccountVote.thy ===== *)
theory AccountVote
  imports StakingBucket
begin

text \<open>
  The account_vote plugin (plugins/account_vote): a ledger of votes per bucket and address,
  with the forwarding of votes through the governance contract. It reads the table of the
  staking_bucket plugin and the delegate table; \<open>ave_addr\<close> prints a 20-byte address.
\<close>

subsection \<open>The table\<close>

record av_row = ledger_row +
  av_forward_to :: string

record av_env =
  ave_delegates :: "(string \<times> string) list" \<comment> \<open>name, operator_address\<close>
  ave_staking_buckets :: "sb_row list"
  ave_addr :: "byte list \<Rightarrow> string"

definition GovernaceForwardAddress :: string where
  "GovernaceForwardAddress = ''io1xfdn0z046hzm03jrtm8hf4scw2w07t7a0mqtmz''"

definition GovernaceForwardToHash :: string where
  "GovernaceForwardToHash = ''87f136fb149a2751c6cc2ee9d9d2f7fc786ac7a163f58ef9fdbe2f1d7e7c78e8''"

definition GovernaceCacelHash :: string where
  "GovernaceCacelHash = ''dfae2e44eee3429afab9409ee9f946d11d84e8eee5d3c81525197a2925b0ceb9''"

text \<open>A scalar \<open>Scan\<close> that finds no row leaves the zero value and reports no error.\<close>

definition av_getCandidateAddressByName :: "av_env \<Rightarrow> string \<Rightarrow> string" where
  "av_getCandidateAddressByName env name =
     (case last_row (\<lambda>d. fst d = name) (ave_delegates env) of None \<Rightarrow> [] | Some d \<Rightarrow> snd d)"

definition getBucketIDByActHash :: "av_env \<Rightarrow> string \<Rightarrow> u64" where
  "getBucketIDByActHash env h =
     (case last_row (\<lambda>r. sb_action_hash r = h) (ave_staking_buckets env) of
        None \<Rightarrow> 0 | Some r \<Rightarrow> lr_bucket r)"

definition getBucketInfoByBucketID :: "u64 \<Rightarrow> av_row list \<Rightarrow> av_row" where
  "getBucketInfoByBucketID b rows =
     (case bucket_last b rows of
        None \<Rightarrow> \<lparr>lr_height = 0, lr_bucket = 0, lr_owner = [], lr_candidate = [], lr_amount = 0,
                 lr_act_type = [], lr_auto_stake = False, lr_duration = 0, av_forward_to = []\<rparr>
      | Some r \<Rightarrow> r)"

definition getAddresFromHash256 :: "av_env \<Rightarrow> hash256 \<Rightarrow> string" where
  "getAddresFromHash256 env t = ave_addr env (drop 12 t)"

text \<open>
  The buckets whose newest row at or before the height has that address (the joined SQL query),
  in the order of those rows.
\<close>

fun getBucketIDsByAddressWithHeight :: "string \<Rightarrow> u64 \<Rightarrow> av_row list \<Rightarrow> u64 list" where
  "getBucketIDsByAddressWithHeight addr h [] = []"
| "getBucketIDsByAddressWithHeight addr h (r # rs) =
     (if lr_height r \<le> h \<and> lr_owner r = addr
         \<and> \<not> (\<exists>q \<in> set rs. lr_bucket q = lr_bucket r \<and> lr_height q \<le> h)
      then lr_bucket r # getBucketIDsByAddressWithHeight addr h rs
      else getBucketIDsByAddressWithHeight addr h rs)"

definition getForwardToAddressByFrom :: "string \<Rightarrow> av_row list \<Rightarrow> string" where
  "getForwardToAddressByFrom addr rows =
     (case last_row (\<lambda>r. lr_owner r = addr \<and> lr_act_type r = ''GovernaceForward'' \<and> av_forward_to r \<noteq> []) rows of
        None \<Rightarrow> [] | Some r \<Rightarrow> av_forward_to r)"

definition vote_row :: "u64 \<Rightarrow> u64 \<Rightarrow> av_row \<Rightarrow> string \<Rightarrow> int \<Rightarrow> av_row" where
  "vote_row h b info act amt =
     \<lparr>lr_height = h, lr_bucket = b, lr_owner = lr_owner info, lr_candidate = lr_candidate info,
      lr_amount = amt, lr_act_type = act, lr_auto_stake = lr_auto_stake info,
      lr_duration = lr_duration info, av_forward_to = []\<rparr>"

subsection \<open>The actions\<close>

definition av_action :: "av_env \<Rightarrow> u64 \<Rightarrow> envelope \<Rightarrow> av_row list \<Rightarrow> av_row list" where
  "av_action env h e rows =
     (case e_action e of
        CreateStake name amt dur auto \<Rightarrow>
          rows @ [\<lparr>lr_height = h, lr_bucket = getBucketIDByActHash env (hex_encode (e_hash e)),
            lr_owner = e_sender e, lr_candidate = av_getCandidateAddressByName env name,
            lr_amount = amt, lr_act_type = ''StakeCreate'', lr_auto_stake = auto,
            lr_duration = dur, av_forward_to = []\<rparr>]
      | TransferStake b voter \<Rightarrow>
          (let amt = bucket_sum b rows; info = getBucketInfoByBucketID b rows
           in rows @ [vote_row h b info ''TransferStake'' (- amt),
                      (vote_row h b info ''TransferStake'' amt)\<lparr>lr_owner := voter\<rparr>])
      | Restake b dur auto \<Rightarrow>
          (let info = getBucketInfoByBucketID b rows
           in rows @ [(vote_row h b info ''Restake'' 0)
                \<lparr>lr_owner := e_sender e, lr_auto_stake := auto, lr_duration := dur\<rparr>])
      | ChangeCandidate b name \<Rightarrow>
          (let amt = bucket_sum b rows; info = getBucketInfoByBucketID b rows
           in rows @ [vote_row h b info ''ChangeCandidate'' (- amt),
                      (vote_row h b info ''ChangeCandidate'' amt)
                        \<lparr>lr_candidate := av_getCandidateAddressByName env name\<rparr>])
      | DepositToStake b amt \<Rightarrow>
          rows @ [vote_row h b (getBucketInfoByBucketID b rows) ''DepositToStake'' amt]
      | Unstake b \<Rightarrow>
          (let amt = bucket_sum b rows; info = getBucketInfoByBucketID b rows
           in rows @ [(vote_row h b info ''Unstake'' (- amt))\<lparr>lr_owner := e_sender e\<rparr>])
      | _ \<Rightarrow> rows)"

subsection \<open>The governance contract\<close>

definition forward_bucket :: "u64 \<Rightarrow> string \<Rightarrow> string \<Rightarrow> u64 \<Rightarrow> av_row list \<Rightarrow> av_row list" where
  "forward_bucket h from_a to b rows =
     (let amt = bucket_sum b rows; info = getBucketInfoByBucketID b rows
      in if lr_owner info \<noteq> from_a then rows
         else rows @ [(vote_row h b info ''GovernaceForward'' (- amt))\<lparr>av_forward_to := to\<rparr>,
                      (vote_row h b info ''GovernaceForward'' amt)\<lparr>lr_owner := to\<rparr>])"

definition cancel_bucket :: "u64 \<Rightarrow> string \<Rightarrow> string \<Rightarrow> u64 \<Rightarrow> av_row list \<Rightarrow> av_row list" where
  "cancel_bucket h from_a to b rows =
     (let amt = bucket_sum b rows; info = getBucketInfoByBucketID b rows
      in if lr_owner info \<noteq> from_a then rows
         else rows @ [(vote_row h b info ''GovernaceCacel'' (- amt))
                        \<lparr>lr_owner := to, av_forward_to := from_a\<rparr>,
                      vote_row h b info ''GovernaceCacel'' amt])"

definition governance_log :: "av_env \<Rightarrow> u64 \<Rightarrow> log \<Rightarrow> av_row list \<Rightarrow> av_row list res" where
  "governance_log env h l rows =
     (if log_address l \<noteq> GovernaceForwardAddress then Inr rows
      else if length (log_topics l) < 2 then Inl (Err ''topics len must >= 2'')
      else let funcHash = hex_encode (log_topics l ! 0); from_a = getAddresFromHash256 env (log_topics l ! 1) in
        if funcHash = GovernaceForwardToHash
        then bindE (idx (log_topics l) 2) (\<lambda>t.
             let to = getAddresFromHash256 env t in
             Inr (fold (forward_bucket h from_a to) (getBucketIDsByAddressWithHeight from_a h rows) rows))
        else if funcHash = GovernaceCacelHash
        then let to = getForwardToAddressByFrom from_a rows in
             Inr (fold (cancel_bucket h from_a to) (getBucketIDsByAddressWithHeight to h rows) rows)
        else Inr rows)"

definition av_step :: "av_env \<Rightarrow> u64 \<Rightarrow> envelope \<Rightarrow> receipt \<Rightarrow> av_row list \<Rightarrow> av_row list res" where
  "av_step env h e r rows = foldE (governance_log env h) (r_logs r) (av_action env h e rows)"

definition av_handleBlock :: "av_env \<Rightarrow> block \<Rightarrow> av_row list \<Rightarrow> av_row list res" where
  "av_handleBlock env blk = on_receipts (av_step env (b_height blk)) blk"

definition av_PutBlocks ::
  "(block list \<Rightarrow> tx_faults) \<Rightarrow> av_env \<Rightarrow> block list \<Rightarrow> av_row list world \<Rightarrow>
   unit res \<times> av_row list world" where
  "av_PutBlocks F env = tx_PutBlocks F ''account_vote'' (av_handleBlock env)"

subsection \<open>What the handler inserts\<close>

definition av_adds :: "u64 \<Rightarrow> av_row list \<Rightarrow> av_row list \<Rightarrow> bool" where
  "av_adds h rows rows' \<longleftrightarrow> (\<exists>new. rows' = rows @ new \<and> (\<forall>r \<in> set new. lr_height r = h))"

lemma av_adds_refl [simp]: "av_adds h rows rows"
  by (auto simp: av_adds_def)

lemma av_adds_more: "av_adds h rows u \<Longrightarrow> \<forall>r \<in> set new. lr_height r = h \<Longrightarrow> av_adds h rows (u @ new)"
  by (auto simp: av_adds_def)

lemma vote_row_simps [simp]:
  "lr_height (vote_row h b info act amt) = h"
  "lr_bucket (vote_row h b info act amt) = b"
  "lr_owner (vote_row h b info act amt) = lr_owner info"
  "lr_candidate (vote_row h b info act amt) = lr_candidate info"
  "lr_amount (vote_row h b info act amt) = amt"
  "lr_act_type (vote_row h b info act amt) = act"
  "lr_auto_stake (vote_row h b info act amt) = lr_auto_stake info"
  "lr_duration (vote_row h b info act amt) = lr_duration info"
  "av_forward_to (vote_row h b info act amt) = []"
  by (simp_all add: vote_row_def)

lemma av_action_adds: "av_adds h rows u \<Longrightarrow> av_adds h rows (av_action env h e u)"
  by (cases "e_action e") (auto simp: av_action_def Let_def intro!: av_adds_more)

lemma fold_invariant: "P s \<Longrightarrow> (\<And>x s. P s \<Longrightarrow> P (f x s)) \<Longrightarrow> P (fold f xs s)"
  by (induction xs arbitrary: s) auto

lemma governance_log_adds:
  assumes "governance_log env h l u = Inr u'" and "av_adds h rows u"
  shows "av_adds h rows u'"
proof -
  have "av_adds h rows (fold (forward_bucket h x y) bs u)" for x y bs
    by (rule fold_invariant [where P = "av_adds h rows", OF assms(2)])
      (auto simp: forward_bucket_def Let_def intro!: av_adds_more)
  moreover have "av_adds h rows (fold (cancel_bucket h x y) bs u)" for x y bs
    by (rule fold_invariant [where P = "av_adds h rows", OF assms(2)])
      (auto simp: cancel_bucket_def Let_def intro!: av_adds_more)
  ultimately show ?thesis
    using assms by (auto simp: governance_log_def Let_def bindE_eq_Inr split: if_splits)
qed

lemma av_step_adds:
  assumes "av_step env h e r u = Inr u'" and "av_adds h rows u"
  shows "av_adds h rows u'"
  by (rule foldE_invariant [where P = "av_adds h rows", OF assms(1) [unfolded av_step_def]])
    (use assms(2) in \<open>auto intro: av_action_adds governance_log_adds\<close>)

lemma av_handleBlock_adds:
  "av_handleBlock env b rows = Inr rows' \<Longrightarrow> av_adds (b_height b) rows rows'"
  unfolding av_handleBlock_def
  by (erule on_receipts_invariant [where P = "av_adds (b_height b) rows"]) (auto intro: av_step_adds)

interpretation av_table: block_table "av_handleBlock env" "\<lambda>rows. rows" lr_height
  for env
  by unfold_locales (use av_handleBlock_adds in \<open>auto simp: av_adds_def\<close>)

interpretation av_sink: height_sink "av_PutBlocks F env" "foldE (av_handleBlock env)"
    tables "\<lambda>w. heights w ''account_vote''"
  for F env
  unfolding av_PutBlocks_def by (rule tx.height_sink_axioms)

subsection \<open>What the handler does to the amounts\<close>

text \<open>The change of a bucket's amount by an action; forwarding and cancelling change none.\<close>

definition av_delta :: "av_env \<Rightarrow> envelope \<Rightarrow> av_row list \<Rightarrow> u64 \<Rightarrow> int" where
  "av_delta env e rows b =
     (case e_action e of
        CreateStake name amt dur auto \<Rightarrow>
          (if b = getBucketIDByActHash env (hex_encode (e_hash e)) then amt else 0)
      | DepositToStake b' amt \<Rightarrow> (if b = b' then amt else 0)
      | Unstake b' \<Rightarrow> (if b = b' then - bucket_sum b rows else 0)
      | _ \<Rightarrow> 0)"

lemma av_action_sum: "bucket_sum b (av_action env h e rows) = bucket_sum b rows + av_delta env e rows b"
  by (cases "e_action e") (auto simp: av_action_def av_delta_def Let_def)

lemma governance_log_sum:
  assumes "governance_log env h l u = Inr u'"
  shows "bucket_sum b u' = bucket_sum b u"
proof -
  have "bucket_sum b (fold (forward_bucket h x y) bs u) = bucket_sum b u" for x y bs
    by (rule fold_invariant [where P = "\<lambda>v. bucket_sum b v = bucket_sum b u"])
      (auto simp: forward_bucket_def Let_def)
  moreover have "bucket_sum b (fold (cancel_bucket h x y) bs u) = bucket_sum b u" for x y bs
    by (rule fold_invariant [where P = "\<lambda>v. bucket_sum b v = bucket_sum b u"])
      (auto simp: cancel_bucket_def Let_def)
  ultimately show ?thesis
    using assms by (auto simp: governance_log_def Let_def bindE_eq_Inr split: if_splits)
qed

subsection \<open>Properties\<close>

text \<open>
  C12: Votes are conserved. Handling an action with all its governance logs changes the amount
  of a bucket only by what was staked, deposited or withdrawn: transfers, restakes, changes
  of candidate, forwards and cancellations move votes but neither make nor lose any.
\<close>

theorem av_step_conserves:
  assumes "av_step env h e r rows = Inr rows'"
  shows "bucket_sum b rows' = bucket_sum b rows + av_delta env e rows b"
proof -
  have "bucket_sum b rows' = bucket_sum b (av_action env h e rows)"
    by (rule foldE_invariant [where P = "\<lambda>v. bucket_sum b v = bucket_sum b (av_action env h e rows)",
          OF assms [unfolded av_step_def]]) (auto simp: governance_log_sum)
  then show ?thesis by (simp add: av_action_sum)
qed

definition av_env0 :: av_env where
  "av_env0 = \<lparr>ave_delegates = [(''cand'', ''op'')], ave_staking_buckets = [created_row 5],
     ave_addr = (\<lambda>b. if b = [] then ''from'' else ''to'')\<rparr>"

definition av_envelope :: "action \<Rightarrow> envelope" where
  "av_envelope a = \<lparr>e_hash = [1], e_sender = ''from'', e_action = a\<rparr>"

definition av_created :: av_row where
  "av_created = \<lparr>lr_height = 5, lr_bucket = 7, lr_owner = ''from'', lr_candidate = ''op'',
     lr_amount = 50, lr_act_type = ''StakeCreate'', lr_auto_stake = True, lr_duration = 91,
     av_forward_to = []\<rparr>"

lemma av_create_run:
  "av_action av_env0 5 (av_envelope (CreateStake ''cand'' 50 91 True)) [] = [av_created]"
  by (simp add: av_action_def av_envelope_def av_env0_def getBucketIDByActHash_def
      av_getCandidateAddressByName_def last_row_def created_row_def av_created_def)

theorem av_step_conserves_witness:
  "\<exists>rows'. av_step av_env0 6 (av_envelope (DepositToStake 7 30)) (cand_receipt [1]) [av_created] = Inr rows'
     \<and> bucket_sum 7 rows' = 80"
proof -
  obtain rows' where run: "av_step av_env0 6 (av_envelope (DepositToStake 7 30)) (cand_receipt [1]) [av_created] = Inr rows'"
    by (simp add: av_step_def cand_receipt_def)
  from av_step_conserves [OF run, of 7] run show ?thesis
    by (simp add: av_delta_def av_envelope_def av_created_def)
qed

lemma getBucketIDs_owner:
  assumes "b \<in> set (getBucketIDsByAddressWithHeight addr h rows)" and "\<forall>r \<in> set rows. lr_height r \<le> h"
  shows "lr_owner (getBucketInfoByBucketID b rows) = addr"
proof -
  have "\<exists>r. last_row (\<lambda>r. lr_bucket r = b) rows = Some r \<and> lr_owner r = addr"
    using assms
  proof (induction rows)
    case Nil
    then show ?case by simp
  next
    case (Cons r rs)
    show ?case
    proof (cases "last_row (\<lambda>r. lr_bucket r = b) rs")
      case (Some q)
      then have "q \<in> set rs" "lr_bucket q = b" by (auto dest: last_row_SomeD)
      with Cons.prems have "b \<in> set (getBucketIDsByAddressWithHeight addr h rs)"
        by (auto split: if_splits)
      with Cons.IH Cons.prems(2) obtain x where "last_row (\<lambda>r. lr_bucket r = b) rs = Some x" "lr_owner x = addr"
        by auto
      then show ?thesis using last_row_append [of "\<lambda>r. lr_bucket r = b" "[r]" rs] by simp
    next
      case None
      then have none: "\<forall>q \<in> set rs. lr_bucket q \<noteq> b" by (simp add: last_row_None_iff)
      have "b \<notin> set (getBucketIDsByAddressWithHeight addr h rs)"
        using none by (induction rs) auto
      with Cons.prems(1) have "lr_bucket r = b" "lr_owner r = addr" by (auto split: if_splits)
      then show ?thesis
        using None last_row_append [of "\<lambda>r. lr_bucket r = b" "[r]" rs] by (simp add: last_row_def)
    qed
  qed
  then show ?thesis by (auto simp: getBucketInfoByBucketID_def bucket_last_def)
qed

text \<open>
  Cancelling a forward does nothing. The buckets considered are those whose votes are with
  the address forwarded to, and the loop then passes over every bucket whose votes are not
  with the address forwarded from: unless the two are the same address, no row is written
  and the votes stay forwarded.
\<close>

theorem governance_cancel_is_noop:
  assumes "log_address l = GovernaceForwardAddress" and "length (log_topics l) \<ge> 2"
    and "hex_encode (log_topics l ! 0) = GovernaceCacelHash"
    and "\<forall>r \<in> set rows. lr_height r \<le> h"
    and "getForwardToAddressByFrom (getAddresFromHash256 env (log_topics l ! 1)) rows
       \<noteq> getAddresFromHash256 env (log_topics l ! 1)"
  shows "governance_log env h l rows = Inr rows"
proof -
  let ?from = "getAddresFromHash256 env (log_topics l ! 1)"
  let ?to = "getForwardToAddressByFrom ?from rows"
  have "fold (cancel_bucket h ?from ?to) bs rows = rows"
    if "set bs \<subseteq> set (getBucketIDsByAddressWithHeight ?to h rows)" for bs
    using that
  proof (induction bs)
    case Nil
    then show ?case by simp
  next
    case (Cons b bs)
    then have "lr_owner (getBucketInfoByBucketID b rows) = ?to"
      using getBucketIDs_owner assms(4) by auto
    with assms(5) have "cancel_bucket h ?from ?to b rows = rows"
      by (simp add: cancel_bucket_def Let_def)
    with Cons show ?case by simp
  qed
  moreover have "GovernaceCacelHash \<noteq> GovernaceForwardToHash"
    by (simp add: GovernaceCacelHash_def GovernaceForwardToHash_def)
  ultimately show ?thesis
    using assms(1-3) by (simp add: governance_log_def Let_def)
qed

definition cacel_topic :: hash256 where
  "cacel_topic = [0xdf, 0xae, 0x2e, 0x44, 0xee, 0xe3, 0x42, 0x9a, 0xfa, 0xb9, 0x40, 0x9e, 0xe9, 0xf9,
     0x46, 0xd1, 0x1d, 0x84, 0xe8, 0xee, 0xe5, 0xd3, 0xc8, 0x15, 0x25, 0x19, 0x7a, 0x29, 0x25, 0xb0,
     0xce, 0xb9]"

lemma cacel_topic_hash: "hex_encode cacel_topic = GovernaceCacelHash"
  by code_simp

definition forwarded :: "av_row list" where
  "forwarded = [av_created,
     (vote_row 6 7 av_created ''GovernaceForward'' (- 50))\<lparr>av_forward_to := ''to''\<rparr>,
     (vote_row 6 7 av_created ''GovernaceForward'' 50)\<lparr>lr_owner := ''to''\<rparr>]"

lemma forward_run: "forward_bucket 6 ''from'' ''to'' 7 [av_created] = forwarded"
  by (simp add: forward_bucket_def getBucketInfoByBucketID_def Let_def forwarded_def
      bucket_last_simps(2) [of _ "[]", simplified] av_created_def)

theorem governance_cancel_is_noop_witness:
  "governance_log av_env0 9 \<lparr>log_address = GovernaceForwardAddress, log_topics = [cacel_topic, []], log_data = []\<rparr>
     forwarded = Inr forwarded
   \<and> lr_owner (getBucketInfoByBucketID 7 forwarded) = ''to''"
proof -
  have "getForwardToAddressByFrom ''from'' forwarded = ''to''"
    by (simp add: getForwardToAddressByFrom_def forwarded_def last_row_def av_created_def)
  then have "governance_log av_env0 9 \<lparr>log_address = GovernaceForwardAddress, log_topics = [cacel_topic, []], log_data = []\<rparr>
     forwarded = Inr forwarded"
    by (intro governance_cancel_is_noop)
      (auto simp: cacel_topic_hash forwarded_def av_created_def getAddresFromHash256_def av_env0_def)
  moreover have "lr_owner (getBucketInfoByBucketID 7 forwarded) = ''to''"
    by (simp add: getBucketInfoByBucketID_def forwarded_def bucket_last_def last_row_def)
  ultimately show ?thesis by simp
qed

text \<open>
  A stake the staking_bucket plugin has not indexed yet goes to bucket 0. The plugin names
  no dependency, and the scalar query for the bucket of an action reports no missing row, so
  the votes are booked, without an error, to a bucket that is not the stake's.
\<close>

theorem unindexed_stake_goes_to_bucket_zero:
  assumes "e_action e = CreateStake name amt dur auto"
    and "\<forall>r \<in> set (ave_staking_buckets env). sb_action_hash r \<noteq> hex_encode (e_hash e)"
    and "r_logs r = []"
  shows "\<exists>v. av_step env h e r rows = Inr (rows @ [v]) \<and> lr_bucket v = 0 \<and> lr_amount v = amt
    \<and> bucket_sum 0 (rows @ [v]) = bucket_sum 0 rows + amt"
proof -
  have "last_row (\<lambda>r. sb_action_hash r = hex_encode (e_hash e)) (ave_staking_buckets env) = None"
    using assms(2) by (simp add: last_row_None_iff)
  with assms(1,3) show ?thesis
    by (simp add: av_step_def av_action_def getBucketIDByActHash_def)
qed

theorem unindexed_stake_goes_to_bucket_zero_witness:
  "\<exists>v. av_step (av_env0\<lparr>ave_staking_buckets := []\<rparr>) 5 (av_envelope (CreateStake ''cand'' 50 91 True))
      (cand_receipt [1]) [] = Inr ([] @ [v])
    \<and> lr_bucket v = 0 \<and> lr_amount v = 50 \<and> bucket_sum 0 ([] @ [v]) = bucket_sum 0 ([] :: av_row list) + 50"
  by (rule unindexed_stake_goes_to_bucket_zero)
    (simp_all add: av_envelope_def cand_receipt_def)

end
