(* ===== verification/StakingActions.thy ===== *)
theory StakingActions
  imports Slash StakingLog TxSink
begin

text \<open>
  The staking_actions plugin (service/staking_actions): the ledger of staking actions, with
  two rows (out and in) where stake moves, and the exit queue of candidates. The shadow
  variant (plugins/staking_actions_shadow) writes to a table of its own.
\<close>

subsection \<open>Tables\<close>

record sa_row = ledger_row +
  sa_sender :: string
  sa_act_hash :: string

record exit_row =
  eq_name :: string
  eq_identity :: string
  eq_status :: string
  eq_request_height :: u64
  eq_request_hash :: string
  eq_schedule_height :: u64
  eq_schedule_hash :: string
  eq_confirm_height :: u64
  eq_confirm_hash :: string
  eq_scheduled_at :: u64

text \<open>
  \<open>sa_rows\<close> is the plugin's own table (\<open>ShadowTable\<close>), \<open>sa_other\<close> the table staking_actions
  itself as the shadow variant sees it; a row's id in the exit queue is its position.
\<close>

record sa_tables =
  sa_rows :: "sa_row list"
  sa_other :: "sa_row list"
  sa_exit_queue :: "exit_row list"

record sa_env =
  sae_shadow :: bool
  sae_abi :: staking_abi
  sae_candidates :: "cand_row list"
  sae_slashes :: "slash_row list"
  sae_greenland :: u64
  topicDeactivationRequested :: hash256
  topicDeactivationScheduled :: hash256
  topicDeactivated :: hash256
  topicVoterRewardOptInSet :: hash256
  sae_addr :: "byte list \<Rightarrow> string res"
  sae_node_candidate :: "string \<Rightarrow> u64 \<Rightarrow> (string \<times> string \<times> u64) res" \<comment> \<open>owner, id, DeactivatedAt\<close>

definition sa_insert :: "sa_row \<Rightarrow> sa_tables \<Rightarrow> sa_tables" where
  "sa_insert r t = t\<lparr>sa_rows := sa_rows t @ [r]\<rparr>"

text \<open>\<open>tx.Create(&stakingAction)\<close> without \<open>ShadowTable\<close>.\<close>

definition sa_insert_base :: "sa_env \<Rightarrow> sa_row \<Rightarrow> sa_tables \<Rightarrow> sa_tables" where
  "sa_insert_base env r t =
     (if sae_shadow env then t\<lparr>sa_other := sa_other t @ [r]\<rparr> else sa_insert r t)"

text \<open>\<open>Order("id desc").Limit(1).Scan(&bi)\<close> leaves the zero value where there is no row.\<close>

definition sa_getBucketInfo :: "u64 \<Rightarrow> sa_row list \<Rightarrow> sa_row" where
  "sa_getBucketInfo b rows =
     (case bucket_last b rows of
        None \<Rightarrow> \<lparr>lr_height = 0, lr_bucket = 0, lr_owner = [], lr_candidate = [], lr_amount = 0,
                 lr_act_type = [], lr_auto_stake = False, lr_duration = 0, sa_sender = [],
                 sa_act_hash = []\<rparr>
      | Some r \<Rightarrow> r)"

definition sa_getCandidateAddressByName :: "cand_row list \<Rightarrow> string \<Rightarrow> u64 \<Rightarrow> string res" where
  "sa_getCandidateAddressByName cands name h =
     bindE (FetchByNameWithHeight name h cands) (\<lambda>c. Inr (cr_id c))"

definition sa_row_of :: "u64 \<Rightarrow> envelope \<Rightarrow> u64 \<Rightarrow> sa_row \<Rightarrow> string \<Rightarrow> int \<Rightarrow> sa_row" where
  "sa_row_of h e b info act amt =
     \<lparr>lr_height = h, lr_bucket = b, lr_owner = lr_owner info, lr_candidate = lr_candidate info,
      lr_amount = amt, lr_act_type = act, lr_auto_stake = lr_auto_stake info,
      lr_duration = lr_duration info, sa_sender = e_sender e, sa_act_hash = hex_encode (e_hash e)\<rparr>"

text \<open>The rows of actions on candidates name no bucket: \<open>BucketID\<close> keeps its zero value.\<close>

definition sa_candidate_row :: "u64 \<Rightarrow> envelope \<Rightarrow> string \<Rightarrow> string \<Rightarrow> string \<Rightarrow> sa_row" where
  "sa_candidate_row h e own cand act =
     \<lparr>lr_height = h, lr_bucket = 0, lr_owner = own, lr_candidate = cand, lr_amount = 0,
      lr_act_type = act, lr_auto_stake = False, lr_duration = 0, sa_sender = e_sender e,
      sa_act_hash = hex_encode (e_hash e)\<rparr>"

subsection \<open>Reading the logs\<close>

definition StakingProtocolAddress :: string where
  "StakingProtocolAddress = ''io1qnpz47hx5q6r3w876axtrn6yz95d70cjl35r53''"

definition iotexAddrFromTopic :: "sa_env \<Rightarrow> hash256 \<Rightarrow> string res" where
  "iotexAddrFromTopic env t = sae_addr env (drop 12 t)"

definition staking_event :: "log \<Rightarrow> bool" where
  "staking_event l \<longleftrightarrow> log_address l = StakingProtocolAddress \<and> 2 \<le> length (log_topics l)"

fun candidateIdentityFromLogs :: "sa_env \<Rightarrow> log list \<Rightarrow> hash256 list \<Rightarrow> string res" where
  "candidateIdentityFromLogs env [] topics = Inl (Err ''candidate identity not found in receipt logs'')"
| "candidateIdentityFromLogs env (l # ls) topics =
     (if staking_event l \<and> log_topics l ! 0 \<in> set topics
      then iotexAddrFromTopic env (log_topics l ! 1)
      else candidateIdentityFromLogs env ls topics)"

fun deactivationRequestedFromLogs :: "sa_env \<Rightarrow> log list \<Rightarrow> string option res" where
  "deactivationRequestedFromLogs env [] = Inr None"
| "deactivationRequestedFromLogs env (l # ls) =
     (if staking_event l \<and> log_topics l ! 0 = topicDeactivationRequested env
      then bindE (iotexAddrFromTopic env (log_topics l ! 1)) (\<lambda>a. Inr (Some a))
      else deactivationRequestedFromLogs env ls)"

definition errLogDataTooShort :: go_error where
  "errLogDataTooShort = Err ''CandidateDeactivationScheduled log data too short''"

fun scheduledAtFromLogs :: "sa_env \<Rightarrow> log list \<Rightarrow> u64 res" where
  "scheduledAtFromLogs env [] = Inl (Err ''CandidateDeactivationScheduled event not found in receipt logs'')"
| "scheduledAtFromLogs env (l # ls) =
     (if staking_event l \<and> log_topics l ! 0 = topicDeactivationScheduled env
      then (if length (log_data l) < 32 then Inl errLogDataTooShort
            else Inr (be_uint64 (drop (length (log_data l) - 8) (log_data l))))
      else scheduledAtFromLogs env ls)"

definition readScheduledAtFromChain :: "sa_env \<Rightarrow> string \<Rightarrow> u64 \<Rightarrow> u64 res" where
  "readScheduledAtFromChain env identity h =
     bindE (sae_node_candidate env identity h) (\<lambda>c.
       case c of (own, cid, at) \<Rightarrow>
         if own = [] \<and> cid = [] then Inl (Err ''candidate not found'') else Inr at)"

definition scheduledAtFromLogsOrChain :: "sa_env \<Rightarrow> log list \<Rightarrow> string \<Rightarrow> u64 \<Rightarrow> u64 res" where
  "scheduledAtFromLogsOrChain env logs identity h =
     (case scheduledAtFromLogs env logs of
        Inr v \<Rightarrow> Inr v
      | Inl e \<Rightarrow> if e \<noteq> errLogDataTooShort then Inl e else readScheduledAtFromChain env identity h)"

fun optInCandidateFromLogs :: "sa_env \<Rightarrow> log list \<Rightarrow> string res" where
  "optInCandidateFromLogs env [] = Inl (Err ''VoterRewardOptInSet event not found in receipt logs'')"
| "optInCandidateFromLogs env (l # ls) =
     (if staking_event l \<and> log_topics l ! 0 = topicVoterRewardOptInSet env
      then iotexAddrFromTopic env (log_topics l ! 1)
      else optInCandidateFromLogs env ls)"

subsection \<open>The exit queue\<close>

text \<open>\<open>Order("id DESC").First\<close> and the update by primary key: the last row that matches.\<close>

fun update_last :: "('r \<Rightarrow> bool) \<Rightarrow> ('r \<Rightarrow> 'r) \<Rightarrow> 'r list \<Rightarrow> 'r list option" where
  "update_last p f [] = None"
| "update_last p f (r # rs) =
     (case update_last p f rs of
        Some rs' \<Rightarrow> Some (r # rs')
      | None \<Rightarrow> if p r then Some (f r # rs) else None)"

definition updateExitQueue ::
  "string \<Rightarrow> u64 \<Rightarrow> string \<Rightarrow> cand_row \<Rightarrow> u64 \<Rightarrow> exit_row list \<Rightarrow> exit_row list res" where
  "updateExitQueue actType h actHash cand scheduledAt q =
     (if actType = ''CandidateDeactivateRequest''
      then Inr (q @ [\<lparr>eq_name = cr_name cand, eq_identity = cr_id cand, eq_status = ''requested'',
             eq_request_height = h, eq_request_hash = actHash, eq_schedule_height = 0,
             eq_schedule_hash = [], eq_confirm_height = 0, eq_confirm_hash = [],
             eq_scheduled_at = 0\<rparr>])
      else if actType = ''ScheduleCandidateDeactivation''
      then (case update_last (\<lambda>r. eq_identity r = cr_id cand \<and> eq_status r = ''requested'')
              (\<lambda>r. r\<lparr>eq_status := ''scheduled'', eq_schedule_height := h,
                     eq_schedule_hash := actHash, eq_scheduled_at := scheduledAt\<rparr>) q of
              None \<Rightarrow> Inl (Err ''no 'requested' row to schedule'')
            | Some q' \<Rightarrow> Inr q')
      else if actType = ''CandidateDeactivateConfirm''
      then (case update_last (\<lambda>r. eq_identity r = cr_id cand \<and> eq_status r = ''scheduled'')
              (\<lambda>r. r\<lparr>eq_status := ''confirmed'', eq_confirm_height := h,
                     eq_confirm_hash := actHash\<rparr>) q of
              None \<Rightarrow> Inl (Err ''no 'scheduled' row to confirm'')
            | Some q' \<Rightarrow> Inr q')
      else Inr q)"

text \<open>The row of a candidate's step and its effect on the queue.\<close>

definition sa_exit_step ::
  "u64 \<Rightarrow> envelope \<Rightarrow> string \<Rightarrow> string \<Rightarrow> cand_row \<Rightarrow> u64 \<Rightarrow> sa_tables \<Rightarrow> sa_tables res" where
  "sa_exit_step h e actType identity cand scheduledAt t =
     (let t1 = sa_insert (sa_candidate_row h e (cr_owner cand) identity actType) t in
      bindE (updateExitQueue actType h (hex_encode (e_hash e)) cand scheduledAt (sa_exit_queue t1))
        (\<lambda>q. Inr (t1\<lparr>sa_exit_queue := q\<rparr>)))"

subsection \<open>The actions on buckets\<close>

definition sa_transfer :: "sa_env \<Rightarrow> u64 \<Rightarrow> envelope \<Rightarrow> u64 \<Rightarrow> string \<Rightarrow> sa_tables \<Rightarrow> sa_tables" where
  "sa_transfer env h e b voter t =
     (let amt = bucket_sum b (sa_rows t);
          info = sa_getBucketInfo b (sa_rows t)
      in sa_insert ((sa_row_of h e b info ''TransferStake'' amt)\<lparr>lr_owner := voter\<rparr>)
           (sa_insert_base env (sa_row_of h e b info ''TransferStake'' (amt * - 1)) t))"

definition sa_restake :: "sa_env \<Rightarrow> u64 \<Rightarrow> envelope \<Rightarrow> u64 \<Rightarrow> u32 \<Rightarrow> bool \<Rightarrow> sa_tables \<Rightarrow> sa_tables" where
  "sa_restake env h e b dur auto t =
     (let info = sa_getBucketInfo b (sa_rows t);
          fixAmount = (if h < sae_greenland env then fix_sum b (sa_rows t) else 0)
      in sa_insert ((sa_row_of h e b info ''Restake'' fixAmount)
           \<lparr>lr_owner := e_sender e, lr_auto_stake := auto, lr_duration := dur\<rparr>) t)"

definition sa_change_candidate ::
  "sa_env \<Rightarrow> u64 \<Rightarrow> envelope \<Rightarrow> u64 \<Rightarrow> string \<Rightarrow> sa_tables \<Rightarrow> sa_tables res" where
  "sa_change_candidate env h e b name t =
     (let amt = bucket_sum b (sa_rows t);
          info = sa_getBucketInfo b (sa_rows t);
          t1 = sa_insert (sa_row_of h e b info ''ChangeCandidate'' (amt * - 1)) t
      in bindE (sa_getCandidateAddressByName (sae_candidates env) name h) (\<lambda>cand.
         Inr (sa_insert ((sa_row_of h e b info ''ChangeCandidate'' amt)\<lparr>lr_candidate := cand\<rparr>) t1)))"

definition sa_deposit :: "u64 \<Rightarrow> envelope \<Rightarrow> u64 \<Rightarrow> int \<Rightarrow> sa_tables \<Rightarrow> sa_tables" where
  "sa_deposit h e b amt t =
     sa_insert (sa_row_of h e b (sa_getBucketInfo b (sa_rows t)) ''DepositToStake'' amt) t"

definition sa_unstake :: "u64 \<Rightarrow> envelope \<Rightarrow> u64 \<Rightarrow> sa_tables \<Rightarrow> sa_tables" where
  "sa_unstake h e b t =
     sa_insert ((sa_row_of h e b (sa_getBucketInfo b (sa_rows t)) ''Unstake''
       (bucket_sum b (sa_rows t) * - 1))\<lparr>lr_owner := e_sender e\<rparr>) t"

definition sa_new_row ::
  "u64 \<Rightarrow> envelope \<Rightarrow> u64 \<Rightarrow> string \<Rightarrow> string \<Rightarrow> string \<Rightarrow> int \<Rightarrow> bool \<Rightarrow> u32 \<Rightarrow> sa_row" where
  "sa_new_row h e b own cand act amt auto dur =
     \<lparr>lr_height = h, lr_bucket = b, lr_owner = own, lr_candidate = cand, lr_amount = amt,
      lr_act_type = act, lr_auto_stake = auto, lr_duration = dur, sa_sender = e_sender e,
      sa_act_hash = hex_encode (e_hash e)\<rparr>"

definition sa_slash :: "u64 \<Rightarrow> envelope \<Rightarrow> slash_row \<Rightarrow> sa_tables \<Rightarrow> sa_tables" where
  "sa_slash h e s t =
     sa_insert ((sa_row_of h e (sl_bucket s) (sa_getBucketInfo (sl_bucket s) (sa_rows t))
       ''SlashCandidate'' (- sl_amount s))\<lparr>lr_candidate := sl_candidate s\<rparr>) t"

definition missing_bucket :: go_error where
  "missing_bucket = Err ''can not found bucketID with actHash''"

subsection \<open>Actions that create a bucket, and rewards\<close>

definition sa_create ::
  "sa_env \<Rightarrow> u64 \<Rightarrow> envelope \<Rightarrow> u64 option \<Rightarrow> string \<Rightarrow> int \<Rightarrow> u32 \<Rightarrow> bool \<Rightarrow>
   sa_tables \<Rightarrow> sa_tables res" where
  "sa_create env h e bucket name amt dur auto t =
     bindE (sa_getCandidateAddressByName (sae_candidates env) name h) (\<lambda>cand.
     case bucket of
       None \<Rightarrow> Inl missing_bucket
     | Some b \<Rightarrow> Inr (sa_insert (sa_new_row h e b (e_sender e) cand ''StakeCreate'' amt auto dur) t))"

definition sa_register ::
  "u64 \<Rightarrow> envelope \<Rightarrow> u64 option \<Rightarrow> string \<Rightarrow> int \<Rightarrow> u32 \<Rightarrow> bool \<Rightarrow> sa_tables \<Rightarrow> sa_tables res" where
  "sa_register h e bucket own amt dur auto t =
     (case bucket of
        None \<Rightarrow> Inl missing_bucket
      | Some b \<Rightarrow>
          if b \<noteq> NoBucket
          then Inr (sa_insert (sa_new_row h e b own own ''CandidateRegister'' amt auto dur) t)
          else Inr t)"

definition sa_grant :: "sa_env \<Rightarrow> u64 \<Rightarrow> envelope \<Rightarrow> reward_type \<Rightarrow> sa_tables \<Rightarrow> sa_tables res" where
  "sa_grant env h e ty t =
     (if ty \<noteq> EpochReward then Inr t
      else Inr (fold (sa_slash h e)
        (FetchSlashByActionHash (hex_encode (e_hash e)) (sae_slashes env)) t))"

subsection \<open>Actions on candidates\<close>

definition sa_endorsement :: "sa_env \<Rightarrow> u64 \<Rightarrow> envelope \<Rightarrow> log list \<Rightarrow> sa_tables \<Rightarrow> sa_tables res" where
  "sa_endorsement env h e logs t =
     bindE (deactivationRequestedFromLogs env logs) (\<lambda>io.
     case io of
       None \<Rightarrow> Inr t
     | Some identity \<Rightarrow>
         bindE (FetchByCandidateIDWithHeight identity h (sae_candidates env)) (\<lambda>cand.
         sa_exit_step h e ''CandidateDeactivateRequest'' identity cand 0 t))"

definition sa_deactivate ::
  "sa_env \<Rightarrow> u64 \<Rightarrow> envelope \<Rightarrow> log list \<Rightarrow> bool \<Rightarrow> sa_tables \<Rightarrow> sa_tables res" where
  "sa_deactivate env h e logs is_confirm t =
     bindE (candidateIdentityFromLogs env logs
              [topicDeactivationRequested env, topicDeactivated env]) (\<lambda>identity.
     bindE (FetchByCandidateIDWithHeight identity h (sae_candidates env)) (\<lambda>cand.
     sa_exit_step h e (if is_confirm then ''CandidateDeactivateConfirm''
                       else ''CandidateDeactivateRequest'') identity cand 0 t))"

definition sa_schedule ::
  "sa_env \<Rightarrow> u64 \<Rightarrow> envelope \<Rightarrow> log list \<Rightarrow> string \<Rightarrow> sa_tables \<Rightarrow> sa_tables res" where
  "sa_schedule env h e logs identity t =
     bindE (scheduledAtFromLogsOrChain env logs identity h) (\<lambda>scheduledAt.
     bindE (FetchByCandidateIDWithHeight identity h (sae_candidates env)) (\<lambda>cand.
     sa_exit_step h e ''ScheduleCandidateDeactivation'' identity cand scheduledAt t))"

definition sa_opt_in :: "sa_env \<Rightarrow> u64 \<Rightarrow> envelope \<Rightarrow> log list \<Rightarrow> sa_tables \<Rightarrow> sa_tables res" where
  "sa_opt_in env h e logs t =
     bindE (optInCandidateFromLogs env logs) (\<lambda>identity.
     Inr (sa_insert (sa_candidate_row h e (e_sender e) identity ''SetVoterRewardOptIn'') t))"

subsection \<open>The switch\<close>

definition sa_action ::
  "sa_env \<Rightarrow> u64 \<Rightarrow> envelope \<Rightarrow> log list \<Rightarrow> u64 option \<Rightarrow> sa_tables \<Rightarrow> sa_tables res" where
  "sa_action env h e logs bucket t =
     (case e_action e of
        CreateStake name amt dur auto \<Rightarrow> sa_create env h e bucket name amt dur auto t
      | TransferStake b voter \<Rightarrow> Inr (sa_transfer env h e b voter t)
      | Restake b dur auto \<Rightarrow> Inr (sa_restake env h e b dur auto t)
      | ChangeCandidate b name \<Rightarrow> sa_change_candidate env h e b name t
      | DepositToStake b amt \<Rightarrow> Inr (sa_deposit h e b amt t)
      | Unstake b \<Rightarrow> Inr (sa_unstake h e b t)
      | CandidateRegister _ _ _ own amt dur auto _ \<Rightarrow> sa_register h e bucket own amt dur auto t
      | GrantReward ty \<Rightarrow> sa_grant env h e ty t
      | CandidateEndorsement _ _ \<Rightarrow> sa_endorsement env h e logs t
      | CandidateDeactivate is_confirm \<Rightarrow> sa_deactivate env h e logs is_confirm t
      | ScheduleCandidateDeactivation identity \<Rightarrow> sa_schedule env h e logs identity t
      | SetVoterRewardOptIn \<Rightarrow> sa_opt_in env h e logs t
      | _ \<Rightarrow> Inr t)"

lemmas sa_case_defs = sa_create_def sa_register_def sa_grant_def sa_endorsement_def
  sa_deactivate_def sa_schedule_def sa_opt_in_def

definition sa_step ::
  "sa_env \<Rightarrow> block \<Rightarrow> envelope \<Rightarrow> receipt \<Rightarrow> (string \<rightharpoonup> u64) \<times> sa_tables \<Rightarrow>
   ((string \<rightharpoonup> u64) \<times> sa_tables) res" where
  "sa_step env blk e r st =
     (case st of (bucketMap, t) \<Rightarrow>
        let actHash = hex_encode (e_hash e);
            bucketMap' = (case BucketIndex (sae_abi env) (r_logs r) of
                            None \<Rightarrow> bucketMap | Some i \<Rightarrow> bucketMap(actHash \<mapsto> i))
        in bindE (sa_action env (b_height blk) e (r_logs r) (bucketMap' actHash) t)
             (\<lambda>t'. Inr (bucketMap', t')))"

definition sa_handleBlock :: "sa_env \<Rightarrow> block \<Rightarrow> sa_tables \<Rightarrow> sa_tables res" where
  "sa_handleBlock env blk t =
     bindE (on_receipts (sa_step env blk) blk (Map.empty, t)) (\<lambda>st. Inr (snd st))"

definition sa_PutBlocks ::
  "(block list \<Rightarrow> tx_faults) \<Rightarrow> (string \<Rightarrow> string) \<Rightarrow> sa_env \<Rightarrow> block list \<Rightarrow>
   sa_tables world \<Rightarrow> unit res \<times> sa_tables world" where
  "sa_PutBlocks F shadow env = tx_PutBlocks F (shadow ''staking_actions'') (sa_handleBlock env)"

definition sa_PutBlock ::
  "(block list \<Rightarrow> tx_faults) \<Rightarrow> (string \<Rightarrow> string) \<Rightarrow> sa_env \<Rightarrow> block \<Rightarrow>
   sa_tables world \<Rightarrow> unit res \<times> sa_tables world" where
  "sa_PutBlock F shadow env = tx_PutBlock F (shadow ''staking_actions'') (sa_handleBlock env)"

interpretation sa_sink: height_sink "sa_PutBlocks F shadow env" "foldE (sa_handleBlock env)"
    tables "\<lambda>w. heights w (shadow ''staking_actions'')"
  for F shadow env
  unfolding sa_PutBlocks_def by (rule tx.height_sink_axioms)

subsection \<open>Queries by owner\<close>

text \<open>service/staking_actions/util.go, for one height.\<close>

definition getBucketOwnerWithHeight :: "u64 \<Rightarrow> u64 \<Rightarrow> sa_row list \<Rightarrow> string" where
  "getBucketOwnerWithHeight b h rows =
     (case last_row (\<lambda>r. lr_height r \<le> h \<and> lr_bucket r = b) rows of None \<Rightarrow> [] | Some r \<Rightarrow> lr_owner r)"

definition sa_getBucketIDs :: "string \<Rightarrow> u64 \<Rightarrow> sa_row list \<Rightarrow> u64 list" where
  "sa_getBucketIDs addr h rows =
     filter (\<lambda>b. getBucketOwnerWithHeight b h rows = addr)
       (remdups (map lr_bucket (filter (\<lambda>r. lr_height r \<le> h \<and> lr_owner r = addr) rows)))"

subsection \<open>Lemmas\<close>

lemma sa_insert_simps [simp]:
  "sa_rows (sa_insert r t) = sa_rows t @ [r]"
  "sa_other (sa_insert r t) = sa_other t"
  "sa_exit_queue (sa_insert r t) = sa_exit_queue t"
  by (simp_all add: sa_insert_def)

lemma sa_insert_base_simps [simp]:
  "sa_rows (sa_insert_base env r t) = (if sae_shadow env then sa_rows t else sa_rows t @ [r])"
  "sa_other (sa_insert_base env r t) = (if sae_shadow env then sa_other t @ [r] else sa_other t)"
  "sa_exit_queue (sa_insert_base env r t) = sa_exit_queue t"
  by (simp_all add: sa_insert_base_def)

lemma sa_row_simps [simp]:
  "lr_bucket (sa_row_of h e b info act amt) = b"
  "lr_amount (sa_row_of h e b info act amt) = amt"
  "lr_height (sa_row_of h e b info act amt) = h"
  "lr_bucket (sa_new_row h e b own cand act amt auto dur) = b"
  "lr_amount (sa_new_row h e b own cand act amt auto dur) = amt"
  "lr_bucket (sa_candidate_row h e own cand act) = 0"
  "lr_amount (sa_candidate_row h e own cand act) = 0"
  by (simp_all add: sa_row_of_def sa_new_row_def sa_candidate_row_def)

lemmas sa_bucket_defs = sa_transfer_def sa_restake_def sa_change_candidate_def sa_deposit_def
  sa_unstake_def sa_slash_def Let_def

lemma update_last_SomeD:
  "update_last p f xs = Some xs' \<Longrightarrow>
   \<exists>as r bs. xs = as @ r # bs \<and> xs' = as @ f r # bs \<and> p r \<and> (\<forall>x \<in> set bs. \<not> p x)"
proof (induction xs arbitrary: xs')
  case Nil
  then show ?case by simp
next
  case (Cons x xs)
  show ?case
  proof (cases "update_last p f xs")
    case (Some ys)
    with Cons obtain as r bs where "xs = as @ r # bs" "ys = as @ f r # bs" "p r" "\<forall>x \<in> set bs. \<not> p x"
      by blast
    with Some Cons.prems show ?thesis by (intro exI [where x = "x # as"]) auto
  next
    case None
    have "update_last p f xs = None \<Longrightarrow> \<forall>y \<in> set xs. \<not> p y"
      by (induction xs) (auto split: option.splits if_splits)
    with None Cons.prems show ?thesis
      by (intro exI [where x = "[]"]) (auto split: if_splits)
  qed
qed

subsection \<open>The exit queue as a state machine\<close>

text \<open>The states of a row, with the heights each has recorded by height \<open>h\<close>.\<close>

definition wf_exit :: "u64 \<Rightarrow> exit_row \<Rightarrow> bool" where
  "wf_exit h r \<longleftrightarrow>
     eq_status r = ''requested'' \<and> eq_request_height r \<le> h
       \<and> eq_schedule_height r = 0 \<and> eq_confirm_height r = 0
   \<or> eq_status r = ''scheduled'' \<and> eq_request_height r \<le> eq_schedule_height r
       \<and> eq_schedule_height r \<le> h \<and> eq_confirm_height r = 0
   \<or> eq_status r = ''confirmed'' \<and> eq_request_height r \<le> eq_schedule_height r
       \<and> eq_schedule_height r \<le> eq_confirm_height r \<and> eq_confirm_height r \<le> h"

lemma wf_exit_mono: "wf_exit h r \<Longrightarrow> h \<le> h' \<Longrightarrow> wf_exit h' r"
  by (auto simp: wf_exit_def)

definition wf_queue :: "u64 \<Rightarrow> exit_row list \<Rightarrow> bool" where
  "wf_queue h q \<longleftrightarrow> (\<forall>r \<in> set q. wf_exit h r)"

lemma updateExitQueue_wf:
  assumes "updateExitQueue act h hash cand at q = Inr q'" and "wf_queue h q"
  shows "wf_queue h q'"
proof -
  have moved: "wf_queue h q'"
    if upd: "update_last p f q = Some q'" and f: "\<And>r. wf_exit h r \<Longrightarrow> p r \<Longrightarrow> wf_exit h (f r)" for p f
    using update_last_SomeD [OF upd] f assms(2) by (auto simp: wf_queue_def)
  have scheduled: "wf_exit h (r\<lparr>eq_status := ''scheduled'', eq_schedule_height := h,
      eq_schedule_hash := hash, eq_scheduled_at := at\<rparr>)"
    if "wf_exit h r" "eq_status r = ''requested''" for r
    using that by (simp add: wf_exit_def)
  have confirmed: "wf_exit h (r\<lparr>eq_status := ''confirmed'', eq_confirm_height := h, eq_confirm_hash := hash\<rparr>)"
    if "wf_exit h r" "eq_status r = ''scheduled''" for r
    using that by (simp add: wf_exit_def)
  show ?thesis
  proof (cases "act = ''CandidateDeactivateRequest''")
    case True
    with assms show ?thesis by (auto simp: updateExitQueue_def wf_queue_def wf_exit_def)
  next
    case False
    with assms show ?thesis
      by (auto simp: updateExitQueue_def split: if_splits option.splits
          elim!: moved intro: scheduled confirmed)
  qed
qed

lemma sa_exit_step_wf:
  "sa_exit_step h e act identity cand at t = Inr t' \<Longrightarrow> wf_queue h (sa_exit_queue t) \<Longrightarrow>
   wf_queue h (sa_exit_queue t')"
  by (auto simp: sa_exit_step_def Let_def bindE_eq_Inr intro: updateExitQueue_wf)

lemma fold_sa_slash_queue [simp]: "sa_exit_queue (fold (sa_slash h e) ss t) = sa_exit_queue t"
  by (induction ss arbitrary: t) (simp_all add: sa_slash_def)

lemma sa_action_wf:
  assumes "sa_action env h e logs bucket t = Inr t'" and "wf_queue h (sa_exit_queue t)"
  shows "wf_queue h (sa_exit_queue t')"
proof -
  have bucket: "wf_queue h (sa_exit_queue t')"
    if "sa_exit_queue t' = sa_exit_queue t" using that assms(2) by simp
  have exit: "wf_queue h (sa_exit_queue t')" if "sa_exit_step h e act identity cand at t = Inr t'"
    for act identity cand at
    using that assms(2) by (rule sa_exit_step_wf)
  show ?thesis
  proof (cases "e_action e")
    case (CandidateEndorsement b op)
    with assms(1) show ?thesis
      by (auto simp: sa_action_def sa_case_defs split: option.splits elim!: bindE_InrE intro: bucket exit)
  next
    case (CandidateDeactivate c)
    with assms(1) show ?thesis by (auto simp: sa_action_def sa_case_defs elim!: bindE_InrE intro: exit)
  next
    case (ScheduleCandidateDeactivation d)
    with assms(1) show ?thesis by (auto simp: sa_action_def sa_case_defs elim!: bindE_InrE intro: exit)
  next
    case (CreateStake n a d s)
    with assms(1) show ?thesis
      by (intro bucket) (auto simp: sa_action_def sa_case_defs split: option.splits elim!: bindE_InrE)
  next
    case (ChangeCandidate b n)
    with assms(1) show ?thesis
      by (intro bucket) (auto simp: sa_action_def sa_case_defs sa_change_candidate_def Let_def elim!: bindE_InrE)
  next
    case (CandidateRegister n oa ra own a d s p)
    with assms(1) show ?thesis
      by (intro bucket) (auto simp: sa_action_def sa_case_defs split: option.splits if_splits)
  next
    case SetVoterRewardOptIn
    with assms(1) show ?thesis by (intro bucket) (auto simp: sa_action_def sa_case_defs elim!: bindE_InrE)
  next
    case (GrantReward ty)
    with assms(1) show ?thesis by (intro bucket) (auto simp: sa_action_def sa_case_defs split: if_splits)
  qed (use assms in \<open>auto simp: sa_action_def sa_case_defs sa_transfer_def sa_restake_def sa_deposit_def
         sa_unstake_def Let_def\<close>)
qed

lemma sa_handleBlock_wf:
  assumes "sa_handleBlock env blk t = Inr t'" and "wf_queue (b_height blk) (sa_exit_queue t)"
  shows "wf_queue (b_height blk) (sa_exit_queue t')"
proof -
  from assms(1) obtain m where run: "on_receipts (sa_step env blk) blk (Map.empty, t) = Inr (m, t')"
    by (auto simp: sa_handleBlock_def bindE_eq_Inr)
  have "wf_queue (b_height blk) (sa_exit_queue (snd (m, t')))"
    by (rule on_receipts_invariant [where P = "\<lambda>st. wf_queue (b_height blk) (sa_exit_queue (snd st))", OF run])
      (use assms(2) in \<open>auto simp: sa_step_def Let_def bindE_eq_Inr split: prod.splits intro: sa_action_wf\<close>)
  then show ?thesis by simp
qed

lemma sa_blocks_wf:
  assumes "foldE (sa_handleBlock env) blks t = Inr t'" and "sorted (map b_height blks)"
    and "\<forall>b \<in> set blks. lo \<le> b_height b \<and> b_height b \<le> h" and "lo \<le> h" and "wf_queue lo (sa_exit_queue t)"
  shows "wf_queue h (sa_exit_queue t')"
  using assms
proof (induction blks arbitrary: t lo)
  case Nil
  then show ?case by (auto simp: wf_queue_def intro: wf_exit_mono)
next
  case (Cons b bs)
  then obtain u where u: "sa_handleBlock env b t = Inr u" "foldE (sa_handleBlock env) bs u = Inr t'"
    by (auto simp: bindE_eq_Inr)
  have "wf_queue (b_height b) (sa_exit_queue t)"
    using Cons.prems(3,5) by (auto simp: wf_queue_def intro: wf_exit_mono)
  from Cons.IH [OF u(2) _ _ _ sa_handleBlock_wf [OF u(1) this]] Cons.prems show ?case by auto
qed

subsection \<open>Properties\<close>

text \<open>
  C10: The exit queue is a state machine. Over any run of blocks in ascending order every row is
  requested, scheduled or confirmed, has exactly the heights of the steps it has made, and
  made them in that order: requested at or before scheduled, scheduled at or before confirmed.
\<close>

theorem exit_queue_states:
  assumes "foldE (sa_handleBlock env) blks \<lparr>sa_rows = rows, sa_other = other, sa_exit_queue = []\<rparr> = Inr t"
    and "sorted (map b_height blks)" and "\<forall>b \<in> set blks. b_height b \<le> h" and "r \<in> set (sa_exit_queue t)"
  shows "wf_exit h r"
proof -
  have "wf_queue h (sa_exit_queue t)"
    by (rule sa_blocks_wf [OF assms(1,2), where lo = 0]) (use assms(3) in \<open>auto simp: wf_queue_def\<close>)
  with assms(4) show ?thesis by (simp add: wf_queue_def)
qed

definition sa_env0 :: sa_env where
  "sa_env0 = \<lparr>sae_shadow = False, sae_abi = example_abi, sae_candidates = [reg_row 1 ''cand'' ''op'' ''own''],
     sae_slashes = [], sae_greenland = 100, topicDeactivationRequested = [10],
     topicDeactivationScheduled = [11], topicDeactivated = [12], topicVoterRewardOptInSet = [13],
     sae_addr = (\<lambda>b. Inr ''own''), sae_node_candidate = (\<lambda>c h. Inr (''own'', ''own'', 77))\<rparr>"

definition sa_t0 :: sa_tables where
  "sa_t0 = \<lparr>sa_rows = [], sa_other = [], sa_exit_queue = []\<rparr>"

definition staking_log :: "hash256 \<Rightarrow> log" where
  "staking_log t = \<lparr>log_address = StakingProtocolAddress, log_topics = [t, []], log_data = []\<rparr>"

definition one_block :: "u64 \<Rightarrow> action \<Rightarrow> log list \<Rightarrow> block" where
  "one_block h a logs = \<lparr>b_height = h, b_timestamp = 1000,
     b_actions = [\<lparr>e_hash = [1], e_sender = ''io1s'', e_action = a\<rparr>],
     b_receipts = [(cand_receipt [1])\<lparr>r_logs := logs\<rparr>]\<rparr>"

lemma sa_one_block:
  "sa_handleBlock env (one_block h a logs) t =
     sa_action env h \<lparr>e_hash = [1], e_sender = ''io1s'', e_action = a\<rparr> logs
       (BucketIndex (sae_abi env) logs) t"
  by (cases "BucketIndex (sae_abi env) logs"; cases "sa_action env h
       \<lparr>e_hash = [1], e_sender = ''io1s'', e_action = a\<rparr> logs (BucketIndex (sae_abi env) logs) t")
    (auto simp: sa_handleBlock_def on_receipts_def one_block_def cand_receipt_def
      receipt_success_def actions_by_hash_def sa_step_def Let_def)

lemma sa_env0_candidate: "FetchByCandidateIDWithHeight ''own'' 20 (sae_candidates sa_env0) = Inr (reg_row 1 ''cand'' ''op'' ''own'')"
  by (simp add: sa_env0_def FetchByCandidateIDWithHeight_def take_newest_def newest_def reg_row_def)

lemma request_run:
  "\<exists>t r. sa_handleBlock sa_env0 (one_block 20 (CandidateDeactivate False) [staking_log [10]]) sa_t0 = Inr t
     \<and> sa_exit_queue t = [r] \<and> eq_status r = ''requested'' \<and> eq_request_height r = 20"
proof -
  have "candidateIdentityFromLogs sa_env0 [staking_log [10]]
      [topicDeactivationRequested sa_env0, topicDeactivated sa_env0] = Inr ''own''"
    by (simp add: sa_env0_def staking_log_def staking_event_def iotexAddrFromTopic_def)
  then show ?thesis
    by (simp add: sa_one_block sa_action_def sa_case_defs sa_env0_candidate sa_exit_step_def Let_def
        updateExitQueue_def sa_t0_def)
qed

theorem exit_queue_states_witness:
  "\<exists>t r. sa_handleBlock sa_env0 (one_block 20 (CandidateDeactivate False) [staking_log [10]]) sa_t0 = Inr t
     \<and> sa_exit_queue t = [r] \<and> wf_exit 25 r"
proof -
  obtain t r where t: "sa_handleBlock sa_env0 (one_block 20 (CandidateDeactivate False) [staking_log [10]]) sa_t0 = Inr t"
      "sa_exit_queue t = [r]"
    using request_run by blast
  have "foldE (sa_handleBlock sa_env0) [one_block 20 (CandidateDeactivate False) [staking_log [10]]]
      \<lparr>sa_rows = [], sa_other = [], sa_exit_queue = []\<rparr> = Inr t"
    using t(1) by (simp add: sa_t0_def)
  from exit_queue_states [OF this, of 25 r] t show ?thesis by (auto simp: one_block_def)
qed

text \<open>
  A step moves exactly one row. Scheduling (confirming) a deactivation changes the newest
  requested (scheduled) row of that candidate and no other row, keeps what the row recorded
  at its request, and fails if there is no such row.
\<close>

theorem exit_step_moves_one_row:
  assumes "act = ''ScheduleCandidateDeactivation'' \<and> old = ''requested'' \<and> new = ''scheduled''
      \<or> act = ''CandidateDeactivateConfirm'' \<and> old = ''scheduled'' \<and> new = ''confirmed''"
  shows "case updateExitQueue act h hash cand at q of
      Inr q' \<Rightarrow> \<exists>as r r' bs. q = as @ r # bs \<and> q' = as @ r' # bs
        \<and> eq_identity r = cr_id cand \<and> eq_status r = old \<and> eq_status r' = new
        \<and> eq_identity r' = eq_identity r \<and> eq_request_height r' = eq_request_height r
        \<and> eq_request_hash r' = eq_request_hash r
        \<and> (\<forall>x \<in> set bs. \<not> (eq_identity x = cr_id cand \<and> eq_status x = old))
    | Inl e \<Rightarrow> \<forall>x \<in> set q. \<not> (eq_identity x = cr_id cand \<and> eq_status x = old)"
proof -
  have none: "update_last p f xs = None \<Longrightarrow> \<forall>x \<in> set xs. \<not> p x"
    for p :: "exit_row \<Rightarrow> bool" and f xs
    by (induction xs) (auto split: option.splits if_splits)
  show ?thesis
    using assms
    by (elim disjE conjE; fastforce simp: updateExitQueue_def split: option.splits
        dest: update_last_SomeD none)
qed

theorem exit_step_moves_one_row_witness:
  "case updateExitQueue ''ScheduleCandidateDeactivation'' 9 ''h'' (reg_row 1 ''cand'' ''op'' ''own'') 5 [] of
     Inr q' \<Rightarrow> False | Inl e \<Rightarrow> True"
  using exit_step_moves_one_row [where act = "''ScheduleCandidateDeactivation''" and old = "''requested''"
      and new = "''scheduled''" and h = 9 and hash = "''h''" and cand = "reg_row 1 ''cand'' ''op'' ''own''"
      and at = 5 and q = "[]"]
  by (auto split: sum.splits)

text \<open>What an action adds to the amount of a bucket, in the table of the plugin itself.\<close>

definition sa_delta :: "sa_env \<Rightarrow> u64 \<Rightarrow> envelope \<Rightarrow> u64 option \<Rightarrow> sa_row list \<Rightarrow> u64 \<Rightarrow> int" where
  "sa_delta env h e bucket rows b =
     (case e_action e of
        CreateStake _ amt _ _ \<Rightarrow> (if bucket = Some b then amt else 0)
      | CandidateRegister _ _ _ _ amt _ _ _ \<Rightarrow>
          (if bucket = Some b \<and> b \<noteq> NoBucket then amt else 0)
      | DepositToStake b' amt \<Rightarrow> (if b' = b then amt else 0)
      | Unstake b' \<Rightarrow> (if b' = b then - bucket_sum b rows else 0)
      | Restake b' _ _ \<Rightarrow> (if b' = b \<and> h < sae_greenland env then fix_sum b rows else 0)
      | GrantReward ty \<Rightarrow>
          (if ty = EpochReward
           then - sum_rows (\<lambda>s. sl_bucket s = b) sl_amount
                  (FetchSlashByActionHash (hex_encode (e_hash e)) (sae_slashes env))
           else 0)
      | _ \<Rightarrow> 0)"

lemma fold_sa_slash_sum:
  "bucket_sum b (sa_rows (fold (sa_slash h e) ss t)) =
     bucket_sum b (sa_rows t) - sum_rows (\<lambda>s. sl_bucket s = b) sl_amount ss"
  by (induction ss arbitrary: t) (auto simp: sa_slash_def)

lemma sa_exit_step_sum:
  "sa_exit_step h e act identity cand at t = Inr t' \<Longrightarrow> bucket_sum b (sa_rows t') = bucket_sum b (sa_rows t)"
  by (auto simp: sa_exit_step_def Let_def bindE_eq_Inr)

text \<open>
  C3: Stake is conserved. In the plugin's own table an action changes the amount of a bucket
  only by what it creates, deposits, withdraws, restores or slashes; transfers, changes of
  candidate and the steps of candidates change no amount.
\<close>

theorem sa_action_conserves:
  assumes "sa_action env h e logs bucket t = Inr t'" and "\<not> sae_shadow env"
  shows "bucket_sum b (sa_rows t') = bucket_sum b (sa_rows t) + sa_delta env h e bucket (sa_rows t) b"
proof -
  have exit: "bucket_sum b (sa_rows t') = bucket_sum b (sa_rows t)"
    if "sa_exit_step h e act identity cand at t = Inr t'" for act identity cand at
    using that by (rule sa_exit_step_sum)
  show ?thesis
  proof (cases "e_action e")
    case (CandidateEndorsement b op)
    with assms(1) show ?thesis
      by (auto simp: sa_action_def sa_case_defs sa_delta_def split: option.splits elim!: bindE_InrE dest: exit)
  next
    case (CandidateDeactivate c)
    with assms(1) show ?thesis by (auto simp: sa_action_def sa_case_defs sa_delta_def elim!: bindE_InrE dest: exit)
  next
    case (ScheduleCandidateDeactivation d)
    with assms(1) show ?thesis by (auto simp: sa_action_def sa_case_defs sa_delta_def elim!: bindE_InrE dest: exit)
  next
    case (CreateStake n a d s)
    with assms(1) show ?thesis
      by (auto simp: sa_action_def sa_case_defs sa_delta_def split: option.splits elim!: bindE_InrE)
  next
    case (ChangeCandidate b n)
    with assms(1) show ?thesis
      by (auto simp: sa_action_def sa_case_defs sa_delta_def sa_change_candidate_def Let_def elim!: bindE_InrE)
  next
    case (CandidateRegister n oa ra own a d s p)
    with assms(1) show ?thesis
      by (auto simp: sa_action_def sa_case_defs sa_delta_def split: option.splits if_splits)
  next
    case SetVoterRewardOptIn
    with assms(1) show ?thesis by (auto simp: sa_action_def sa_case_defs sa_delta_def elim!: bindE_InrE)
  next
    case (GrantReward ty)
    with assms(1) show ?thesis
      by (auto simp: sa_action_def sa_case_defs sa_delta_def fold_sa_slash_sum split: if_splits)
  qed (use assms in \<open>auto simp: sa_action_def sa_case_defs sa_delta_def sa_transfer_def sa_restake_def
         sa_deposit_def sa_unstake_def Let_def\<close>)
qed

definition sa_created :: sa_row where
  "sa_created = sa_new_row 10 \<lparr>e_hash = [1], e_sender = ''io1s'', e_action = SetVoterRewardOptIn\<rparr> 7
     ''io1s'' ''own'' ''StakeCreate'' 50 True 91"

definition sa_t1 :: sa_tables where
  "sa_t1 = \<lparr>sa_rows = [sa_created], sa_other = [], sa_exit_queue = []\<rparr>"

definition env_of :: "action \<Rightarrow> envelope" where
  "env_of a = \<lparr>e_hash = [1], e_sender = ''io1s'', e_action = a\<rparr>"

theorem sa_action_conserves_witness:
  "\<exists>t'. sa_action sa_env0 20 (env_of (TransferStake 7 ''io1v'')) [] None sa_t1 = Inr t'
     \<and> bucket_sum 7 (sa_rows t') = 50"
proof -
  obtain t' where run: "sa_action sa_env0 20 (env_of (TransferStake 7 ''io1v'')) [] None sa_t1 = Inr t'"
    by (simp add: sa_action_def sa_case_defs env_of_def)
  from sa_action_conserves [OF run, of 7] run show ?thesis
    by (simp add: sa_env0_def sa_delta_def env_of_def sa_t1_def sa_created_def)
qed

text \<open>
  The shadow plugin doubles a transferred bucket. Its transfer writes the outgoing row to
  the table of staking_actions instead of its own, so in its own table the bucket's amount
  doubles, and in the other table it loses that amount.
\<close>

theorem shadow_transfer_doubles:
  assumes "sae_shadow env" and "e_action e = TransferStake b voter"
  shows "\<exists>t'. sa_action env h e logs bucket t = Inr t'
    \<and> bucket_sum b (sa_rows t') = 2 * bucket_sum b (sa_rows t)
    \<and> bucket_sum b (sa_other t') = bucket_sum b (sa_other t) - bucket_sum b (sa_rows t)"
  using assms by (simp add: sa_action_def sa_case_defs sa_transfer_def Let_def)

theorem shadow_transfer_doubles_witness:
  "\<exists>t'. sa_action (sa_env0\<lparr>sae_shadow := True\<rparr>) 20 (env_of (TransferStake 7 ''io1v'')) [] None sa_t1 = Inr t'
     \<and> bucket_sum 7 (sa_rows t') = 100 \<and> bucket_sum 7 (sa_other t') = - 50"
  using shadow_transfer_doubles [of "sa_env0\<lparr>sae_shadow := True\<rparr>" "env_of (TransferStake 7 ''io1v'')" 7
      "''io1v''" 20 "[]" None sa_t1]
  by (auto simp: sa_t1_def sa_created_def env_of_def)

text \<open>
  An opt-in overwrites bucket 0. Its row, like those of the deactivation steps, keeps the
  zero bucket id, which is the id of an actual bucket: that bucket's owner, candidate,
  auto-stake and duration are from then on those of the opt-in row.
\<close>

theorem opt_in_overwrites_bucket_zero:
  assumes "e_action e = SetVoterRewardOptIn" and "optInCandidateFromLogs env logs = Inr identity"
  shows "\<exists>t'. sa_action env h e logs bucket t = Inr t'
    \<and> view (sa_rows t') 0 = Some \<lparr>bv_amount = bucket_sum 0 (sa_rows t), bv_owner = e_sender e,
        bv_candidate = identity, bv_auto_stake = False, bv_duration = 0\<rparr>"
  using assms by (simp add: sa_action_def sa_case_defs view_snoc sa_candidate_row_def)

theorem opt_in_overwrites_bucket_zero_witness:
  "\<exists>t'. sa_action sa_env0 20 (env_of SetVoterRewardOptIn) [staking_log [13]] None
      (sa_t1\<lparr>sa_rows := [sa_created\<lparr>lr_bucket := 0\<rparr>]\<rparr>) = Inr t'
    \<and> view (sa_rows t') 0 = Some \<lparr>bv_amount = 50, bv_owner = ''io1s'', bv_candidate = ''own'',
        bv_auto_stake = False, bv_duration = 0\<rparr>"
proof -
  have "optInCandidateFromLogs sa_env0 [staking_log [13]] = Inr ''own''"
    by (simp add: sa_env0_def staking_log_def staking_event_def iotexAddrFromTopic_def)
  from opt_in_overwrites_bucket_zero [OF _ this, of "env_of SetVoterRewardOptIn" 20 None
      "sa_t1\<lparr>sa_rows := [sa_created\<lparr>lr_bucket := 0\<rparr>]\<rparr>"]
  show ?thesis by (auto simp: env_of_def sa_t1_def sa_created_def)
qed

end
