(* ===== verification/SelfStake.thy ===== *)
theory SelfStake
  imports Slash TxSink
begin

text \<open>
  The events of the staking protocol (kernel/staking_event.go) and the plugin that keeps each
  candidate's self-stake bucket (plugins/candidate_self_stake). Topics, the ABI decoder, the
  address constructor and the big-endian reader of iotex-core are arguments.
\<close>

subsection \<open>Events\<close>

record event_env =
  ev_protocol :: string
  ev_register_pre :: hash256 \<comment> \<open>hash.Hash256b("candidateRegister")\<close>
  ev_register :: hash256
  ev_activate :: hash256
  ev_endorsement :: hash256
  ev_endorsement_op :: hash256
  ev_activated_id :: hash256
  ev_from_bytes :: "byte list \<Rightarrow> string res"
  ev_unpack :: "byte list \<Rightarrow> u64 res"
  ev_uint64 :: "byte list \<Rightarrow> u64 res"

record staking_ev =
  se_bucket :: u64
  se_candidate :: "string option" \<comment> \<open>None: a nil address\<close>
  se_op :: u8

definition no_op :: u8 where
  "no_op = 0"

text \<open>\<open>log.Topics[0]\<close> and \<open>log.Topics[1][24:]\<close>: a missing topic is a panic.\<close>

definition topic_uint64 :: "event_env \<Rightarrow> log \<Rightarrow> u64 res" where
  "topic_uint64 env l = bindE (idx (log_topics l) 1) (\<lambda>t. ev_uint64 env (drop 24 t))"

definition topic_address :: "event_env \<Rightarrow> log \<Rightarrow> nat \<Rightarrow> string res" where
  "topic_address env l i = bindE (idx (log_topics l) i) (ev_from_bytes env)"

definition parseCandidateRegisterLogPreFairbankMigration ::
  "event_env \<Rightarrow> log \<Rightarrow> staking_ev option res" where
  "parseCandidateRegisterLogPreFairbankMigration env l =
     (if log_address l \<noteq> ev_protocol env then Inr None
      else bindE (idx (log_topics l) 0) (\<lambda>t.
        if t \<noteq> ev_register_pre env then Inr None
        else bindE (ev_uint64 env (log_data l)) (\<lambda>b.
          Inr (Some \<lparr>se_bucket = b, se_candidate = None, se_op = no_op\<rparr>))))"

definition parseCandidateRegisterLogPostFairbankMigration ::
  "event_env \<Rightarrow> log \<Rightarrow> staking_ev option res" where
  "parseCandidateRegisterLogPostFairbankMigration env l =
     (if log_address l \<noteq> ev_protocol env then Inr None
      else bindE (idx (log_topics l) 0) (\<lambda>t.
        if t \<noteq> ev_register env then Inr None
        else bindE (topic_uint64 env l) (\<lambda>b.
          bindE (topic_address env l 2) (\<lambda>c.
          Inr (Some \<lparr>se_bucket = b, se_candidate = Some c, se_op = no_op\<rparr>)))))"

definition parseCandidateRegisterLogPostBLS :: "event_env \<Rightarrow> log \<Rightarrow> staking_ev option res" where
  "parseCandidateRegisterLogPostBLS env l =
     (if log_address l \<noteq> ev_protocol env then Inr None
      else bindE (idx (log_topics l) 0) (\<lambda>t.
        if t \<noteq> ev_activated_id env then Inr None
        else bindE (topic_address env l 1) (\<lambda>c.
          bindE (ev_unpack env (log_data l)) (\<lambda>b.
          Inr (Some \<lparr>se_bucket = b, se_candidate = Some c, se_op = no_op\<rparr>)))))"

text \<open>The loop that returns the first event or error.\<close>

fun first_event :: "(log \<Rightarrow> staking_ev option res) \<Rightarrow> log list \<Rightarrow> staking_ev option res" where
  "first_event p [] = Inr None"
| "first_event p (l # ls) =
     bindE (p l) (\<lambda>ev. case ev of Some x \<Rightarrow> Inr (Some x) | None \<Rightarrow> first_event p ls)"

definition ParseCandidateRegisterEvent ::
  "event_env \<Rightarrow> log list \<Rightarrow> bool \<Rightarrow> bool \<Rightarrow> staking_ev option res" where
  "ParseCandidateRegisterEvent env logs postFairbankMigration postBLS =
     first_event
       (if \<not> postFairbankMigration then parseCandidateRegisterLogPreFairbankMigration env
        else if \<not> postBLS then parseCandidateRegisterLogPostFairbankMigration env
        else parseCandidateRegisterLogPostBLS env) logs"

definition ParseCandidateActivateEvent :: "event_env \<Rightarrow> log list \<Rightarrow> staking_ev option res" where
  "ParseCandidateActivateEvent env logs =
     first_event (\<lambda>l.
       if log_address l \<noteq> ev_protocol env then Inr None
       else bindE (idx (log_topics l) 0) (\<lambda>t.
         if t \<noteq> ev_activate env then Inr None
         else bindE (topic_uint64 env l) (\<lambda>b.
           bindE (topic_address env l 2) (\<lambda>c.
           Inr (Some \<lparr>se_bucket = b, se_candidate = Some c, se_op = no_op\<rparr>))))) logs"

text \<open>\<open>log.Topics[3][31]\<close> as the operation; 1 is Endorse, 0 IntentToRevoke.\<close>

definition ParseCandidateEndorsementEvent :: "event_env \<Rightarrow> log list \<Rightarrow> staking_ev option res" where
  "ParseCandidateEndorsementEvent env logs =
     first_event (\<lambda>l.
       if log_address l \<noteq> ev_protocol env then Inr None
       else bindE (idx (log_topics l) 0) (\<lambda>t.
         if t \<noteq> ev_endorsement env \<and> t \<noteq> ev_endorsement_op env then Inr None
         else bindE (topic_uint64 env l) (\<lambda>b.
           bindE (topic_address env l 2) (\<lambda>c.
           bindE (idx (log_topics l) 3) (\<lambda>t3.
           bindE (idx t3 31) (\<lambda>o3.
           Inr (Some \<lparr>se_bucket = b, se_candidate = Some c,
             se_op = (if t = ev_endorsement env then (if o3 = 0 then 0 else 1) else o3)\<rparr>))))))) logs"

subsection \<open>The plugin\<close>

record css_env =
  cse_events :: event_env
  cse_fbk_migration :: "u64 \<Rightarrow> bool"
  cse_xingu :: "u64 \<Rightarrow> bool"
  cse_order :: "string list \<Rightarrow> string list" \<comment> \<open>the database's \<open>ORDER BY candidate_id\<close>\<close>

text \<open>\<open>ON CONFLICT (candidate_id, action_hash) DO UPDATE\<close>\<close>

definition upsertCandidateSelfStake :: "css_row \<Rightarrow> css_row list \<Rightarrow> css_row list" where
  "upsertCandidateSelfStake m rows =
     (if \<exists>r \<in> set rows. cs_candidate r = cs_candidate m \<and> cs_action_hash r = cs_action_hash m
      then map (\<lambda>r. if cs_candidate r = cs_candidate m \<and> cs_action_hash r = cs_action_hash m
                    then r\<lparr>cs_height := cs_height m, cs_bucket := cs_bucket m,
                           cs_tx_index := cs_tx_index m\<rparr> else r) rows
      else rows @ [m])"

text \<open>The rows of a candidate at its highest height up to \<open>h\<close>, by transaction index.\<close>

definition latest_group :: "u64 \<Rightarrow> string \<Rightarrow> css_row list \<Rightarrow> css_row list" where
  "latest_group h cid rows =
     (let mine = filter (\<lambda>r. cs_height r \<le> h \<and> cs_candidate r = cid) rows;
          top = fold max (map cs_height mine) 0
      in sort_key cs_tx_index (filter (\<lambda>r. cs_candidate r = cid \<and> cs_height r = top) rows))"

definition fetchCandidates :: "(string list \<Rightarrow> string list) \<Rightarrow> u64 \<Rightarrow> css_row list \<Rightarrow> css_row list" where
  "fetchCandidates order h rows =
     map (\<lambda>cid. last (latest_group h cid rows))
       (order (remdups (map cs_candidate (filter (\<lambda>r. cs_height r \<le> h) rows))))"

definition css_row_of :: "u64 \<Rightarrow> envelope \<Rightarrow> receipt \<Rightarrow> string \<Rightarrow> u64 \<Rightarrow> css_row" where
  "css_row_of h e r cid b =
     \<lparr>cs_height = h, cs_action_hash = hex_encode (r_action_hash r), cs_tx_index = r_tx_index r,
      cs_candidate = cid, cs_bucket = b\<rparr>"

definition css_event_row ::
  "u64 \<Rightarrow> envelope \<Rightarrow> receipt \<Rightarrow> staking_ev option \<Rightarrow> css_row list \<Rightarrow> css_row list res" where
  "css_event_row h e r ev rows =
     (case ev of
        None \<Rightarrow> Inr rows
      | Some x \<Rightarrow>
          bindE (addr_string (se_candidate x)) (\<lambda>c.
          Inr (upsertCandidateSelfStake (css_row_of h e r c (se_bucket x)) rows)))"

definition css_handleAction ::
  "css_env \<Rightarrow> u64 \<Rightarrow> envelope \<Rightarrow> receipt \<Rightarrow> css_row list \<Rightarrow> css_row list res" where
  "css_handleAction env h e r rows =
     (case e_action e of
        CandidateRegister _ _ _ own _ _ _ _ \<Rightarrow>
          bindE (ParseCandidateRegisterEvent (cse_events env) (r_logs r)
                   (cse_fbk_migration env h) (cse_xingu env h)) (\<lambda>ev.
          case ev of
            None \<Rightarrow> Inr rows
          | Some x \<Rightarrow> Inr (upsertCandidateSelfStake (css_row_of h e r own (se_bucket x)) rows))
      | CandidateActivate _ \<Rightarrow>
          bindE (ParseCandidateActivateEvent (cse_events env) (r_logs r)) (\<lambda>ev.
          css_event_row h e r ev rows)
      | CandidateEndorsement _ op \<Rightarrow>
          (if op \<noteq> OpRevoke then Inr rows
           else bindE (ParseCandidateEndorsementEvent (cse_events env) (r_logs r)) (\<lambda>ev.
                css_event_row h e r ev rows))
      | Unstake b \<Rightarrow>
          (case find (\<lambda>x. cs_bucket x = b) (fetchCandidates (cse_order env) h rows) of
             None \<Rightarrow> Inr rows
           | Some prev \<Rightarrow>
               Inr (upsertCandidateSelfStake (css_row_of h e r (cs_candidate prev) (- 1)) rows))
      | _ \<Rightarrow> Inr rows)"

definition css_handleBlock :: "css_env \<Rightarrow> block \<Rightarrow> css_row list \<Rightarrow> css_row list res" where
  "css_handleBlock env blk = on_receipts (css_handleAction env (b_height blk)) blk"

definition css_PutBlocks ::
  "(block list \<Rightarrow> tx_faults) \<Rightarrow> css_env \<Rightarrow> block list \<Rightarrow> css_row list world \<Rightarrow>
   unit res \<times> css_row list world" where
  "css_PutBlocks F env = tx_PutBlocks F ''candidate_self_stake'' (css_handleBlock env)"

interpretation css_sink: height_sink "css_PutBlocks F env" "foldE (css_handleBlock env)"
    tables "\<lambda>w. heights w ''candidate_self_stake''"
  for F env
  unfolding css_PutBlocks_def by (rule tx.height_sink_axioms)

subsection \<open>The two readings of the latest record\<close>

lemma fold_max_props:
  fixes xs :: "'a :: linorder list"
  shows "fold max xs a \<in> insert a (set xs) \<and> (\<forall>x \<in> insert a (set xs). x \<le> fold max xs a)"
proof (induction xs arbitrary: a)
  case Nil
  then show ?case by simp
next
  case (Cons x xs)
  from Cons.IH [of "max x a"] show ?case by (auto simp: max_def split: if_splits)
qed

definition best_step :: "(css_row \<Rightarrow> bool) \<Rightarrow> css_row \<Rightarrow> css_row option \<Rightarrow> css_row option" where
  "best_step p r best =
     (if p r \<and> (case best of None \<Rightarrow> True | Some b \<Rightarrow> css_later r b) then Some r else best)"

lemma best_props:
  "(case fold (best_step p) rows None of
      None \<Rightarrow> \<forall>q \<in> set rows. \<not> p q
    | Some r \<Rightarrow> r \<in> set rows \<and> p r \<and> (\<forall>q \<in> set rows. p q \<longrightarrow> css_later r q))"
proof (induction rows rule: rev_induct)
  case Nil
  then show ?case by simp
next
  case (snoc x rows)
  have trans: "css_later a b \<Longrightarrow> css_later b c \<Longrightarrow> css_later a c" for a b c
    by (auto simp: css_later_def)
  have total: "\<not> css_later a b \<Longrightarrow> css_later b a" for a b
    by (auto simp: css_later_def)
  have refl: "css_later a a" for a by (simp add: css_later_def)
  have step: "fold (best_step p) (rows @ [x]) None = best_step p x (fold (best_step p) rows None)"
    by simp
  show ?case
  proof (cases "fold (best_step p) rows None")
    case None
    with snoc have "\<forall>q \<in> set rows. \<not> p q" by simp
    with refl show ?thesis unfolding step None by (auto simp: best_step_def)
  next
    case (Some b)
    with snoc have b: "b \<in> set rows" "p b" "\<forall>q \<in> set rows. p q \<longrightarrow> css_later b q" by simp_all
    then show ?thesis
      unfolding step Some by (auto simp: best_step_def refl intro: trans dest: total)
  qed
qed

lemma last_sort_key:
  assumes "xs \<noteq> []"
  shows "last (sort_key f xs) \<in> set xs \<and> (\<forall>x \<in> set xs. f x \<le> f (last (sort_key f xs)))"
proof -
  have ne: "sort_key f xs \<noteq> []" using assms by (metis length_0_conv length_sort)
  then have "last (sort_key f xs) \<in> set (sort_key f xs)" by (rule last_in_set)
  moreover have "f x \<le> f (last (sort_key f xs))" if "x \<in> set xs" for x
  proof -
    have "sorted (map f (sort_key f xs))" by simp
    moreover have "f x \<in> set (map f (sort_key f xs))" using that by simp
    moreover have "map f (sort_key f xs) \<noteq> []" using ne by simp
    ultimately have "f x \<le> last (map f (sort_key f xs))"
      by (metis append_butlast_last_id in_set_conv_decomp last_in_set le_cases sorted_append
          set_append UnE Un_iff list.set_intros(1) empty_iff list.set(1) set_ConsD)
    with ne show ?thesis by (simp add: last_map)
  qed
  ultimately show ?thesis by simp
qed

text \<open>
  The grouped SQL query and the ordered lookup agree. Where no two records of a candidate
  share height and transaction index, the record that \<open>fetchCandidates\<close> keeps for a candidate
  (the highest height by a grouped join, then the last by transaction index) is the one that
  the lookup by candidate finds.
\<close>

theorem fetchCandidates_latest:
  assumes "c \<in> set (fetchCandidates order h rows)" and "set (order ids) = set ids"
    and "ids = remdups (map cs_candidate (filter (\<lambda>r. cs_height r \<le> h) rows))"
    and "\<forall>r \<in> set rows. \<forall>q \<in> set rows. cs_candidate r = cs_candidate q \<and> cs_height r = cs_height q
      \<and> cs_tx_index r = cs_tx_index q \<longrightarrow> r = q"
  shows "css_FetchByCandidateIDWithHeight (cs_candidate c) h rows = Inr c"
proof -
  from assms(1,2,3) obtain cid where cid: "cid \<in> cs_candidate ` {r \<in> set rows. cs_height r \<le> h}"
      and c: "c = last (latest_group h cid rows)"
    by (auto simp: fetchCandidates_def)
  define p where "p = (\<lambda>r :: css_row. cs_height r \<le> h \<and> cs_candidate r = cid)"
  define top where "top = fold max (map cs_height (filter p rows)) 0"
  define grp where "grp = filter (\<lambda>r :: css_row. cs_candidate r = cid \<and> cs_height r = top) rows"
  from cid obtain r0 where r0: "r0 \<in> set rows" "p r0" by (auto simp: p_def)
  have top: "top \<in> insert 0 (cs_height ` {r \<in> set rows. p r})"
      "\<forall>r \<in> set rows. p r \<longrightarrow> cs_height r \<le> top"
    using fold_max_props [of "map cs_height (filter p rows)" 0] by (auto simp: top_def)
  have "\<exists>r \<in> set rows. p r \<and> cs_height r = top"
  proof (cases "top = 0")
    case True
    then have "cs_height r0 = top" using top(2) r0 by (metis word_le_0_iff)
    with r0 show ?thesis by blast
  qed (use top(1) in auto)
  then obtain r1 where r1: "r1 \<in> set rows" "p r1" "cs_height r1 = top" by blast
  then have "grp \<noteq> []" by (auto simp: grp_def p_def filter_empty_conv)
  then have last: "c \<in> set grp" "\<forall>x \<in> set grp. cs_tx_index x \<le> cs_tx_index c"
    using last_sort_key [of grp cs_tx_index] c
    by (auto simp: latest_group_def Let_def grp_def top_def p_def)
  have c_rows: "c \<in> set rows" "p c" "cs_height c = top"
    using last(1) r1 by (auto simp: grp_def p_def)
  from best_props [where p = p and rows = rows] r0 obtain b where b: "fold (best_step p) rows None = Some b"
      "b \<in> set rows" "p b" "\<forall>q \<in> set rows. p q \<longrightarrow> css_later b q"
    by (auto split: option.splits)
  have "css_later b c" using b(4) c_rows by blast
  moreover have "cs_height b \<le> top" using top(2) b by blast
  ultimately have hb: "cs_height b = top" and tb: "cs_tx_index c \<le> cs_tx_index b"
    using c_rows(3) by (auto simp: css_later_def)
  have "b \<in> set grp" using b hb by (auto simp: grp_def p_def)
  with last(2) tb have "cs_tx_index b = cs_tx_index c" by (metis order_antisym)
  then have "b = c"
    using assms(4) b c_rows hb by (auto simp: p_def)
  with b(1) c_rows show ?thesis
    by (simp add: css_FetchByCandidateIDWithHeight_def best_step_def [abs_def] p_def)
qed

definition css_example :: "css_row list" where
  "css_example = [\<lparr>cs_height = 3, cs_action_hash = ''a'', cs_tx_index = 1, cs_candidate = ''c'', cs_bucket = 4\<rparr>,
     \<lparr>cs_height = 5, cs_action_hash = ''b'', cs_tx_index = 0, cs_candidate = ''c'', cs_bucket = 6\<rparr>]"

theorem fetchCandidates_latest_witness:
  "css_FetchByCandidateIDWithHeight ''c'' 9 css_example = Inr (css_example ! 1)"
proof -
  have "fetchCandidates (\<lambda>x. x) 9 css_example = [css_example ! 1]"
    by (simp add: fetchCandidates_def latest_group_def css_example_def Let_def)
  then have "css_example ! 1 \<in> set (fetchCandidates (\<lambda>x. x) 9 css_example)" by simp
  from fetchCandidates_latest [OF this refl refl] show ?thesis
    by (simp add: css_example_def)
qed

end
