(* ===== verification/Wiring.thy ===== *)
theory Wiring
  imports AccountVote StakingActions SelfStake
begin

text \<open>
  The plugins as the runner sees them: \<open>PutBlock\<close> and \<open>PutBlocks\<close> of the plugins that have no
  shadow variant, the start heights they set, their dependencies, and the order the
  dependencies impose on the heights.
\<close>

subsection \<open>Putting blocks\<close>

text \<open>The candidate plugin accepts an empty batch; the others panic on \<open>blks[len(blks)-1]\<close>.\<close>

definition cand_PutBlocks ::
  "(block list \<Rightarrow> tx_faults) \<Rightarrow> cand_env \<Rightarrow> block list \<Rightarrow> cand_row list world \<Rightarrow>
   unit res \<times> cand_row list world" where
  "cand_PutBlocks F env blks w =
     (if blks = [] then (Inr (), w)
      else tx_PutBlocks F ''candidate'' (cand_handleBlock env) blks w)"

definition cand_PutBlock ::
  "(block list \<Rightarrow> tx_faults) \<Rightarrow> cand_env \<Rightarrow> block \<Rightarrow> cand_row list world \<Rightarrow>
   unit res \<times> cand_row list world" where
  "cand_PutBlock F env = tx_PutBlock F ''candidate'' (cand_handleBlock env)"

interpretation cand_sink: block_sink "cand_PutBlocks F env" "foldE (cand_handleBlock env)" tables
  for F env
proof unfold_locales
  fix blks w w'
  assume "cand_PutBlocks F env blks w = (Inr (), w')"
  then show "foldE (cand_handleBlock env) blks (tables w) = Inr (tables w')"
    by (cases "blks = []") (auto simp: cand_PutBlocks_def dest: tx.put_ok)
next
  fix blks w e w'
  assume "cand_PutBlocks F env blks w = (Inl e, w')"
  then show "tables w' = tables w"
    by (cases "blks = []") (auto simp: cand_PutBlocks_def dest: tx.put_failed)
qed (simp_all add: foldE_append)

definition slash_PutBlocks ::
  "(block list \<Rightarrow> tx_faults) \<Rightarrow> slash_env \<Rightarrow> block list \<Rightarrow> slash_row list world \<Rightarrow>
   unit res \<times> slash_row list world" where
  "slash_PutBlocks F env = tx_PutBlocks F ''slash'' (slash_handleBlock env)"

definition slash_PutBlock ::
  "(block list \<Rightarrow> tx_faults) \<Rightarrow> slash_env \<Rightarrow> block \<Rightarrow> slash_row list world \<Rightarrow>
   unit res \<times> slash_row list world" where
  "slash_PutBlock F env = tx_PutBlock F ''slash'' (slash_handleBlock env)"

interpretation slash_sink: height_sink "slash_PutBlocks F env" "foldE (slash_handleBlock env)"
    tables "\<lambda>w. heights w ''slash''"
  for F env
  unfolding slash_PutBlocks_def by (rule tx.height_sink_axioms)

definition css_PutBlock ::
  "(block list \<Rightarrow> tx_faults) \<Rightarrow> css_env \<Rightarrow> block \<Rightarrow> css_row list world \<Rightarrow>
   unit res \<times> css_row list world" where
  "css_PutBlock F env = tx_PutBlock F ''candidate_self_stake'' (css_handleBlock env)"

definition av_PutBlock ::
  "(block list \<Rightarrow> tx_faults) \<Rightarrow> av_env \<Rightarrow> block \<Rightarrow> av_row list world \<Rightarrow>
   unit res \<times> av_row list world" where
  "av_PutBlock F env = tx_PutBlock F ''account_vote'' (av_handleBlock env)"

subsection \<open>Starting\<close>

text \<open>
  The end of the slash plugin's \<open>Start\<close>, after the table was migrated: a configured start
  height moves the index height forward, through \<open>UpdateIndexHeight\<close>. The two flags say
  whether the read and the write succeed.
\<close>

definition slash_start_height :: "bool \<Rightarrow> bool \<Rightarrow> u64 \<Rightarrow> 't world \<Rightarrow> unit res \<times> 't world" where
  "slash_start_height read_ok write_ok startHeight w =
     (case GetIndexHeight read_ok write_ok ''slash'' w of
        (Inl e, w') \<Rightarrow> (Inl e, w')
      | (Inr h, w') \<Rightarrow>
          if h < startHeight then UpdateIndexHeight write_ok ''slash'' (startHeight - 1) w'
          else (Inr (), w'))"

text \<open>
  \<open>DependentPlugins()\<close> of every plugin that has it, by the name the plugin runs under. The
  staking_actions plugin overrides the list of its service and leaves out slash; its shadow
  does not.
\<close>

definition dependencies :: "(string \<times> string list) list" where
  "dependencies =
     [(''staking_bucket'', [''candidate'', ''slash'']), (''staking_bucket_shadow'', [''candidate'', ''slash'']),
      (''staking_actions'', [''candidate'']), (''staking_actions_shadow'', [''candidate'', ''slash'']),
      (''staking_actions_ch'', [''candidate'']), (''voter_reward'', [''candidate'']),
      (''block_reward'', [''candidate'']), (''block_meta_v2'', [''candidate'']),
      (''slash'', [''candidate'', ''candidate_self_stake'']),
      (''delegate'', [''candidate_self_stake'']), (''delegate_record'', [''candidate_self_stake'']),
      (''delegate_rewards'', [''hermes'', ''staking_actions'']), (''hermes_retention'', [''hermes'']),
      (''verifying'', [''block'', ''block_action'', ''block_receipts'']),
      (''block_receipt_transaction'', [''account_meta'']), (''erc1967_proxy'', [''account_meta'']),
      (''erc20_meta'', [''erc20'']), (''block_supply'', [''account_income''])]"

definition DependentPlugins :: "string \<Rightarrow> string list" where
  "DependentPlugins name = (case map_of dependencies name of Some ds \<Rightarrow> ds | None \<Rightarrow> [])"

text \<open>
  No plugin waits for itself, directly or through others: the dependencies have no cycle, so that
  the plugins at the bottom can always go on and the others after them.
\<close>

definition depth :: "string \<Rightarrow> nat" where
  "depth name =
     (case map_of dependencies name of
        None \<Rightarrow> 0
      | Some ds \<Rightarrow> if list_ex (\<lambda>d. map_of dependencies d \<noteq> None) ds then 2 else 1)"

lemma dependencies_deeper: "list_all (\<lambda>(n, ds). list_all (\<lambda>d. depth d < depth n) ds) dependencies"
  by code_simp

lemma dependency_deeper:
  assumes "d \<in> set (DependentPlugins name)"
  shows "depth d < depth name"
proof -
  from assms obtain ds where "map_of dependencies name = Some ds" and d: "d \<in> set ds"
    by (cases "map_of dependencies name") (auto simp: DependentPlugins_def)
  then have "(name, ds) \<in> set dependencies" by (simp add: map_of_SomeD)
  with dependencies_deeper d show ?thesis by (fastforce simp: list_all_iff)
qed

lemma dependencies_acyclic: "acyclic {(d, name). d \<in> set (DependentPlugins name)}"
  by (rule wf_acyclic, rule wf_subset [OF wf_measure [of depth]]) (auto intro: dependency_deeper)

subsection \<open>A runner stays behind the plugins it depends on\<close>

lemma fetch_length:
  assumes "fetchBlocks dao start count m = Some (Inr blks, m')"
    and "\<And>c bs. dao start c = Inr bs \<Longrightarrow> length bs \<le> unat c" and "unat count < 2 ^ 53"
  shows "length blks \<le> unat count"
proof -
  define Q where "Q = (\<lambda>(dao :: u64 \<Rightarrow> u64 \<Rightarrow> 'a list res) start (count :: u64) (r :: 'a list res \<times> batch_mgr).
     (\<forall>c bs. dao start c = Inr bs \<longrightarrow> length bs \<le> unat c) \<longrightarrow> unat count < 2 ^ 53 \<longrightarrow>
     (\<forall>bs. fst r = Inr bs \<longrightarrow> length bs \<le> unat count))"
  have "Q dao start count (Inr blks, m')"
  proof (rule fetchBlocks.raw_induct [where P = "\<lambda>dao start count m r. Q dao start count r", OF _ assms(1)])
    fix f :: "(u64 \<Rightarrow> u64 \<Rightarrow> 'a list res) \<Rightarrow> u64 \<Rightarrow> u64 \<Rightarrow> batch_mgr \<Rightarrow> ('a list res \<times> batch_mgr) option"
      and dao start count m r
    assume IH: "\<And>dao start count m r. f dao start count m = Some r \<Longrightarrow> Q dao start count r"
      and step: "(if count = 0 then Some (Inr [], m)
        else case dao start count of
               Inr blks \<Rightarrow> Some (Inr blks, m)
             | Inl e \<Rightarrow> if e = ResourceExhausted
                 then (case onFailure count m of (newCount, m') \<Rightarrow> f dao start newCount m')
                 else Some (Inl e, m)) = Some r"
    show "Q dao start count r"
    proof (cases "count \<noteq> 0 \<and> dao start count = Inl ResourceExhausted")
      case False
      with step show ?thesis
        by (cases "count = 0"; cases "dao start count") (auto simp: Q_def split: if_splits)
    next
      case True
      obtain n m1 where n: "onFailure count m = (n, m1)" by force
      with True step have "Q dao start n r" by (intro IH [of _ _ _ m1]) simp
      moreover have "unat n \<le> unat count" if "unat count < 2 ^ 53"
      proof -
        have "unat count \<noteq> 0" using True by (simp add: unat_eq_zero)
        with onFailure_halves [OF that, of m] n show ?thesis by auto
      qed
      ultimately show ?thesis unfolding Q_def by (meson le_less_trans le_trans)
    qed
  qed
  with assms(2,3) show ?thesis by (simp add: Q_def)
qed

lemma fetch_round_length:
  assumes "fetch_round src True tip next m = Some (Inr (blks, blk), m')"
    and "\<And>c bs. src_batch src next c = Inr bs \<Longrightarrow> length bs \<le> unat c"
    and "next \<le> tip" and "unat tip < 2 ^ 53 - 1"
  shows "unat next + length blks \<le> unat tip + 1"
proof (cases "src_catch_up src")
  case True
  with assms(1,3) show ?thesis
    by (auto simp: fetch_round_def bindE_eq_Inr word_le_nat_alt)
next
  case False
  define count where "count = batch_count tip next m"
  have "tip < - 1"
    using assms(4) by (simp add: word_less_nat_alt unsigned_minus_1_eq_mask mask_eq_exp_minus_1)
  from batch_count_bounds [OF assms(3) this, of m, folded count_def]
  have count: "unat next + unat count \<le> unat tip + 1" by simp
  obtain bs m1 where bs: "fetchBlocks (src_batch src) next count m = Some (Inr bs, m1)"
      and blks: "blks = cut_at (count * 500) 0 bs"
    using False assms(1)
    by (auto simp: fetch_round_def Let_def count_def split: option.splits prod.splits sum.splits)
  have "length bs \<le> unat count"
    using fetch_length [OF bs assms(2)] count assms(4) by auto
  moreover have "length blks \<le> length bs" unfolding blks by (rule length_cut_at)
  ultimately show ?thesis using count by simp
qed

lemma put_round_next:
  assumes "pl_batch p \<noteq> None" and "put_round p (blks, blk) s = (exit, s')"
  shows "rs_next s' = (if exit then rs_next s else rs_next s + word_of_nat (length blks))"
  using assms by (auto simp: put_round_def put_error_def split: prod.splits sum.splits)

lemma inner_loop_range:
  assumes "pl_batch p \<noteq> None" and "inner_loop n src p tip s = Some s'"
    and "\<And>start c bs. src_batch src start c = Inr bs \<Longrightarrow> length bs \<le> unat c"
    and "unat tip < 2 ^ 53 - 1"
  shows "rs_next s \<le> rs_next s' \<and> (rs_next s' = rs_next s \<or> rs_next s' \<le> tip + 1)"
  using assms
proof (induction n arbitrary: s)
  case 0
  then show ?case by simp
next
  case (Suc n)
  show ?case
  proof (cases "rs_next s \<le> tip")
    case False
    with Suc.prems show ?thesis by simp
  next
    case le: True
    with Suc.prems(1,2) obtain r m where fr: "fetch_round src True tip (rs_next s) (rs_mgr s) = Some (r, m)"
      by (cases "fetch_round src True tip (rs_next s) (rs_mgr s)") auto
    show ?thesis
    proof (cases r)
      case (Inl e)
      with le fr Suc.prems show ?thesis by auto
    next
      case (Inr bb)
      obtain blks blk where bb: "bb = (blks, blk)" by (cases bb)
      obtain exit s1 where pr: "put_round p bb (s\<lparr>rs_mgr := m\<rparr>) = (exit, s1)" by fastforce
      have len: "unat (rs_next s) + length blks \<le> unat tip + 1"
        using fetch_round_length [OF _ Suc.prems(3) le Suc.prems(4)] fr Inr bb by simp
      have tip: "unat (tip + 1) = unat tip + 1"
        using unat_next [of tip] Suc.prems(4)
        by (simp add: word_less_nat_alt unsigned_minus_1_eq_mask mask_eq_exp_minus_1)
      have "unat (rs_next s + word_of_nat (length blks)) = unat (rs_next s) + length blks"
        using len Suc.prems(4) by (simp add: unat_plus_if' unsigned_of_nat take_bit_nat_eq_self)
      with len tip put_round_next [OF Suc.prems(1) pr [unfolded bb]]
      have range: "rs_next s \<le> rs_next s1 \<and> (rs_next s1 = rs_next s \<or> rs_next s1 \<le> tip + 1)"
        by (simp add: word_le_nat_alt)
      show ?thesis
      proof (cases exit)
        case True
        with le fr Inr pr range Suc.prems(1,2) show ?thesis by auto
      next
        case False
        with le fr Inr pr Suc.prems(1,2) have "inner_loop n src p tip s1 = Some s'" by simp
        from Suc.IH [OF Suc.prems(1) this] Suc.prems(3,4)
        have "rs_next s1 \<le> rs_next s' \<and> (rs_next s' = rs_next s1 \<or> rs_next s' \<le> tip + 1)" by blast
        with range show ?thesis by auto
      qed
    qed
  qed
qed

lemma dep_heights_below:
  assumes "dep_heights ok ds h w = (Inr t, w')" and "d \<in> set ds" and "coherent d w"
    and "heights w d = Some kd"
  shows "t \<le> kd"
  using assms
proof (induction ds arbitrary: h w)
  case Nil
  then show ?case by simp
next
  case (Cons c ds)
  obtain y w1 where g: "GetIndexHeight ok ok c w = (y, w1)" by fastforce
  with Cons.prems(1) obtain ph where y: "y = Inr ph"
      and rest: "dep_heights ok ds (if h > ph then ph else h) w1 = (Inr t, w')"
    by (cases y) auto
  note keep = GetIndexHeight_other [OF Cons.prems(3) g]
  show ?case
  proof (cases "c = d")
    case True
    with GetIndexHeight_coherent [OF Cons.prems(3), of ok] g y Cons.prems(4) have "ph = kd" by auto
    with dep_heights_le [OF rest] show ?thesis by (auto split: if_splits)
  next
    case False
    with Cons.prems(2) have "d \<in> set ds" by simp
    from Cons.IH [OF rest this] keep Cons.prems(4) show ?thesis by simp
  qed
qed

text \<open>
  C7: A round does not take a runner past a plugin it depends on: while the caches agree with the
  committed heights and the block source gives at most the blocks asked for, one round of a
  transactional plugin that is not ahead of its dependency moves its committed height forward
  to at most the height the dependency had when the round read it.
\<close>

theorem runner_stays_behind_dependency:
  assumes "pl_put_blocks p = tx_PutBlocks F (p_name (pl_info p)) h" and "pl_batch p \<noteq> None"
    and "contiguous_source src"
    and "\<And>start c bs. src_batch src start c = Inr bs \<Longrightarrow> length bs \<le> unat c"
    and "coherent (p_name (pl_info p)) (rs_world s)" and "heights (rs_world s) (p_name (pl_info p)) = Some k"
    and "d \<in> set (pl_deps p)" and "coherent d (rs_world s)" and "heights (rs_world s) d = Some kd"
    and "k \<le> kd" and "unat kd < 2 ^ 53 - 1" and "outer_round n src p s = Some s'"
  shows "\<exists>k'. heights (rs_world s') (p_name (pl_info p)) = Some k' \<and> k \<le> k' \<and> k' \<le> kd"
proof -
  let ?name = "p_name (pl_info p)"
  obtain x w where tip: "getTipHeight src (pl_deps p) (rs_world s) = (x, w)" by fastforce
  note keep = getTipHeight_keeps [OF assms(5) tip]
  obtain y w2 where nh: "nextHeight src ?name w = (y, w2)" by fastforce
  have y: "y = Inl DbError \<and> w2 = w \<or> y = Inr (k + 1) \<and> tables w2 = tables w \<and> heights w2 = heights w"
    using GetIndexHeight_coherent [of ?name w "src_db_ok src"] keep assms(6) nh
    by (auto simp: nextHeight_def)
  show ?thesis
  proof (cases "\<exists>t. x = Inr t \<and> y = Inr (k + 1)")
    case False
    with y tip nh keep assms(6,10,12) show ?thesis
      by (auto simp: outer_round_def split: sum.splits)
  next
    case True
    then obtain t where t: "x = Inr t" "y = Inr (k + 1)" by blast
    define s1 where "s1 = s\<lparr>rs_world := w2, rs_next := k + 1,
      rs_start_height := (case rs_start_height s of None \<Rightarrow> Some (k + 1 - 1) | Some h \<Rightarrow> Some h)\<rparr>"
    have run: "inner_loop n src p t s1 = Some s'"
      using assms(12) t tip nh by (simp add: outer_round_def s1_def)
    have s1: "rs_next s1 = k + 1" "heights (rs_world s1) ?name = Some (rs_next s1 - 1)"
      using y t keep assms(6) by (auto simp: s1_def)
    have le: "t \<le> kd"
      using tip t(1) dep_heights_below [OF _ assms(7-9)]
      by (auto simp: getTipHeight_def split: sum.splits)
    then have small: "unat t < 2 ^ 53 - 1" using assms(11) by (simp add: word_le_nat_alt)
    from inner_loop_range [OF assms(2) run assms(4) small] s1(1)
    have range: "k + 1 \<le> rs_next s'" "rs_next s' = k + 1 \<or> rs_next s' \<le> t + 1" by auto
    have succ: "unat (k + 1) = unat k + 1" "unat (t + 1) = unat t + 1"
      using assms(10,11) small by (simp_all add: unat_plus_if' word_le_nat_alt)
    then have "unat (rs_next s' - 1) = unat (rs_next s') - 1"
      using range(1) by (subst unat_sub) (auto simp: word_le_nat_alt)
    then have "k \<le> rs_next s' - 1 \<and> rs_next s' - 1 \<le> kd"
      using range succ le assms(10) by (auto simp: word_le_nat_alt)
    moreover have "heights (rs_world s') ?name = Some (rs_next s' - 1)"
      using tx.inner_loop_indexed [OF assms(1-3) run s1(2)] .
    ultimately show ?thesis by blast
  qed
qed

text \<open>A plugin at height 4 that depends on one at height 5, with the block source at 9.\<close>

definition behind_plugin :: "u64 list world plugin" where
  "behind_plugin = example_plugin\<lparr>pl_deps := [''candidate'']\<rparr>"

definition behind_state :: "u64 list world rstate" where
  "behind_state = example_state\<lparr>rs_world :=
     \<lparr>tables = [], heights = [''block'' \<mapsto> 4, ''candidate'' \<mapsto> 5], index_cache = Map.empty\<rparr>\<rparr>"

definition behind_source :: source where
  "behind_source = example_source\<lparr>src_height := Inr 9,
     src_batch := \<lambda>h c. Inr (if c = 0 then [] else [example_block\<lparr>b_height := h\<rparr>])\<rparr>"

lemma behind_source_ok:
  "contiguous_source behind_source"
  "src_batch behind_source start c = Inr bs \<Longrightarrow> length bs \<le> unat c"
  by (auto simp: contiguous_source_def behind_source_def example_source_def word_unat_eq_iff
      split: if_splits)

lemma behind_run: "\<exists>s'. outer_round 1 behind_source behind_plugin behind_state = Some s'"
proof -
  have fetch: "fetch_round behind_source True 5 5 m
      = Some (Inr (cut_at (batch_count 5 5 m * 500) 0 [example_block\<lparr>b_height := 5\<rparr>], None), onSuccess m)"
    for m
  proof -
    have "0 < unat (batch_count 5 5 m)" using batch_count_bounds [of 5 5 m] by simp
    then have "batch_count 5 5 m \<noteq> 0" by auto
    then show ?thesis
      by (simp add: fetch_round_def Let_def behind_source_def example_source_def
          fetchBlocks.simps del: cut_at.simps)
  qed
  have tip: "\<exists>w. getTipHeight behind_source [''candidate''] (rs_world behind_state) = (Inr 5, w)
      \<and> (\<exists>w'. nextHeight behind_source ''block'' w = (Inr 5, w'))"
    by (simp add: getTipHeight_def behind_source_def example_source_def behind_state_def
        GetIndexHeight_def ByName_def nextHeight_def)
  then obtain w w' where "getTipHeight behind_source [''candidate''] (rs_world behind_state) = (Inr 5, w)"
      "nextHeight behind_source ''block'' w = (Inr 5, w')" by blast
  moreover have "pl_deps behind_plugin = [''candidate'']" "p_name (pl_info behind_plugin) = ''block''"
      "pl_batch behind_plugin = Some 0"
    by (simp_all add: behind_plugin_def example_plugin_def block_plugin_def)
  ultimately show ?thesis
    by (simp add: outer_round_def fetch split: prod.splits)
qed

theorem runner_stays_behind_dependency_witness:
  "\<exists>s' k'. outer_round 1 behind_source behind_plugin behind_state = Some s'
    \<and> heights (rs_world s') ''block'' = Some k' \<and> 4 \<le> k' \<and> k' \<le> 5"
proof -
  obtain s' where s': "outer_round 1 behind_source behind_plugin behind_state = Some s'"
    using behind_run by blast
  have "\<exists>k'. heights (rs_world s') (p_name (pl_info behind_plugin)) = Some k' \<and> 4 \<le> k' \<and> k' \<le> 5"
    by (rule runner_stays_behind_dependency [OF _ _ behind_source_ok(1) behind_source_ok(2)
          _ _ _ _ _ _ _ s', where F = "\<lambda>_. no_faults" and d = "''candidate''"])
      (simp_all add: behind_plugin_def behind_state_def example_plugin_def block_plugin_def coherent_def)
  with s' show ?thesis
    by (auto simp: behind_plugin_def example_plugin_def block_plugin_def)
qed

end
