(* ===== verification/HermesReward.thy ===== *)
theory HermesReward
  imports Prelude
begin

text \<open>
  service/hermes_reward/rebuild.go: the rewards of a closed epoch per delegate, from the block
  rewards of the epoch split over the delegates that share a reward address. A Go map is a
  list of pairs whose order stands for the iteration order (the sort of the candidates is not
  stable, so that order settles ties); aggregates come back in the order of their first row.
\<close>

subsection \<open>Tables\<close>

record block_meta_row =
  bm_height :: u64
  bm_epoch :: u64
  bm_producer_name :: string
  bm_expected_name :: string

record block_reward_row =
  br_epoch :: u64
  br_address :: string
  br_block :: int
  br_epoch_reward :: int
  br_foundation :: int
  br_priority :: "int option"

record voting_row =
  hv_epoch :: u64
  hv_name :: string
  hv_reward_address :: string
  hv_votes :: int

record config_row =
  dc_era :: u64
  dc_name :: string
  dc_opted_in :: bool

record account_reward_row =
  ha_epoch :: u64
  ha_name :: string
  ha_block :: int
  ha_epoch_reward :: int
  ha_foundation :: int

record hermes_tables =
  ht_block_meta :: "block_meta_row list"
  ht_block_rewards :: "block_reward_row list"
  ht_voting :: "voting_row list"
  ht_config :: "config_row list"
  ht_account :: "account_reward_row list"

subsection \<open>Coverage\<close>

record coverage =
  cov_ok :: bool
  cov_reason :: string
  cov_blocks :: nat
  cov_earliest :: u64
  cov_epoch_start :: u64

definition CheckEpochCoverage :: "(u64 \<Rightarrow> u64) \<Rightarrow> u64 \<Rightarrow> hermes_tables \<Rightarrow> coverage" where
  "CheckEpochCoverage epoch_start epoch t =
     (let rows = filter (\<lambda>r. bm_epoch r = epoch) (ht_block_meta t);
          earliest = (case rows of [] \<Rightarrow> 0 | r # rs \<Rightarrow> fold min (map bm_height rs) (bm_height r));
          cov = \<lparr>cov_ok = False, cov_reason = [], cov_blocks = length rows, cov_earliest = earliest,
                 cov_epoch_start = epoch_start epoch\<rparr>
      in if rows = [] then cov\<lparr>cov_reason := ''no block_meta rows for epoch''\<rparr>
         else if earliest > epoch_start epoch
         then cov\<lparr>cov_reason := ''block_meta starts after the epoch start''\<rparr>
         else cov\<lparr>cov_ok := True\<rparr>)"

subsection \<open>Voting and opting in\<close>

definition getVotingInfo ::
  "u64 \<Rightarrow> hermes_tables \<Rightarrow> ((string \<Rightarrow> string list) \<times> (string \<times> int) list) option" where
  "getVotingInfo epoch t =
     (let rows = filter (\<lambda>r. hv_epoch r = epoch) (ht_voting t)
      in if rows = [] then None
         else Some (\<lambda>addr. map hv_name (filter (\<lambda>r. hv_reward_address r = addr) rows),
                    fold (\<lambda>r m. (hv_name r, hv_votes r) # filter (\<lambda>kv. fst kv \<noteq> hv_name r) m) rows []))"

text \<open>
  The era: the smallest one after the epoch, else the largest one on record, else NULL, with
  which no row compares equal.
\<close>

definition covering_era :: "u64 \<Rightarrow> config_row list \<Rightarrow> u64 option" where
  "covering_era epoch rows =
     (case filter (\<lambda>e. e > epoch) (map dc_era rows) of
        e # es \<Rightarrow> Some (fold min es e)
      | [] \<Rightarrow> (case map dc_era rows of e # es \<Rightarrow> Some (fold max es e) | [] \<Rightarrow> None))"

definition optedInDelegates :: "u64 \<Rightarrow> hermes_tables \<Rightarrow> string list" where
  "optedInDelegates epoch t =
     map dc_name (filter (\<lambda>r. dc_opted_in r \<and> Some (dc_era r) = covering_era epoch (ht_config t)) (ht_config t))"

definition contributorsTo :: "string list \<Rightarrow> string list \<Rightarrow> string list" where
  "contributorsTo names optedIn =
     (if optedIn = [] \<or> length names \<le> 1 then names
      else let kept = filter (\<lambda>n. n \<notin> set optedIn) names
           in if kept = [] then names else kept)"

subsection \<open>Productivity\<close>

text \<open>Expected producers with their counts, joined with the counts as actual producers.\<close>

definition getProductivity :: "u64 \<Rightarrow> hermes_tables \<Rightarrow> (string \<times> nat \<times> nat) list res" where
  "getProductivity epoch t =
     (let rows = filter (\<lambda>r. bm_epoch r = epoch) (ht_block_meta t);
          names = remdups (map bm_expected_name rows)
      in if names = [] then Inl (Err ''empty records'')
         else Inr (map (\<lambda>n. (n, length (filter (\<lambda>r. bm_producer_name r = n) rows),
                                length (filter (\<lambda>r. bm_expected_name r = n) rows))) names))"

subsection \<open>The split\<close>

definition candidate_ranks :: "(string \<times> int) list \<Rightarrow> string \<Rightarrow> nat" where
  "candidate_ranks votes name =
     (case find (\<lambda>p. fst (snd p) = name) (enumerate 1 (sort_key (\<lambda>kv. - snd kv) votes)) of
        None \<Rightarrow> 0 | Some p \<Rightarrow> fst p)"

definition NumDelegatesForEpochReward :: nat where
  "NumDelegatesForEpochReward = 100"

definition NumDelegatesForFoundationBonus :: nat where
  "NumDelegatesForFoundationBonus = 36"

text \<open>The sums and sets of the first loop; \<open>map_of ... = None\<close> is a nil \<open>*big.Int\<close>.\<close>

record split_state =
  sp_production :: int
  sp_votes :: int
  sp_bonus_count :: int
  sp_earn_block :: "string list"
  sp_earn_epoch :: "string list"
  sp_earn_bonus :: "string list"

definition split_start :: split_state where
  "split_start = \<lparr>sp_production = 0, sp_votes = 0, sp_bonus_count = 0, sp_earn_block = [],
     sp_earn_epoch = [], sp_earn_bonus = []\<rparr>"

definition earn_block ::
  "(string \<times> nat \<times> nat) list \<Rightarrow> string \<Rightarrow> split_state \<Rightarrow> (bool \<times> split_state) res" where
  "earn_block pmap name s =
     (case map_of pmap name of
        None \<Rightarrow> Inr (True, s)
      | Some (production, expected) \<Rightarrow>
          if expected = 0 then Inl (Panic ''integer divide by zero'')
          else Inr (\<not> (production * 100 div expected < 85),
                    s\<lparr>sp_production := sp_production s + int production,
                      sp_earn_block := name # sp_earn_block s\<rparr>))"

definition earn_epoch ::
  "(string \<times> int) list \<Rightarrow> bool \<Rightarrow> string \<Rightarrow> split_state \<Rightarrow> split_state res" where
  "earn_epoch votes productive name s =
     (if candidate_ranks votes name \<le> NumDelegatesForEpochReward \<and> productive
      then (case map_of votes name of
              None \<Rightarrow> Inl (Panic ''nil pointer dereference'')
            | Some v \<Rightarrow> Inr (s\<lparr>sp_votes := sp_votes s + v, sp_earn_epoch := name # sp_earn_epoch s\<rparr>))
      else Inr s)"

definition earn_bonus :: "(string \<times> int) list \<Rightarrow> string \<Rightarrow> split_state \<Rightarrow> split_state" where
  "earn_bonus votes name s =
     (if candidate_ranks votes name \<le> NumDelegatesForFoundationBonus
      then s\<lparr>sp_bonus_count := sp_bonus_count s + 1, sp_earn_bonus := name # sp_earn_bonus s\<rparr>
      else s)"

definition qualify ::
  "(string \<times> int) list \<Rightarrow> (string \<times> nat \<times> nat) list \<Rightarrow> string \<Rightarrow> split_state \<Rightarrow> split_state res" where
  "qualify votes pmap name s =
     bindE (earn_block pmap name s) (\<lambda>ps.
     bindE (earn_epoch votes (fst ps) name (snd ps)) (\<lambda>s2.
     Inr (earn_bonus votes name s2)))"

definition shares ::
  "(string \<times> int) list \<Rightarrow> (string \<times> nat \<times> nat) list \<Rightarrow> split_state \<Rightarrow> int \<Rightarrow> int \<Rightarrow> int \<Rightarrow>
   string \<Rightarrow> int \<times> int \<times> int" where
  "shares votes pmap s totalBlock totalEpoch totalBonus name =
     (if sp_production s > 0 \<and> name \<in> set (sp_earn_block s)
      then (case map_of pmap name of None \<Rightarrow> 0 | Some (p, _) \<Rightarrow> totalBlock * int p div sp_production s)
      else 0,
      if sp_votes s > 0 \<and> name \<in> set (sp_earn_epoch s)
      then (case map_of votes name of None \<Rightarrow> 0 | Some v \<Rightarrow> totalEpoch * v div sp_votes s)
      else 0,
      if totalBonus > 0 \<and> name \<in> set (sp_earn_bonus s) then totalBonus div sp_bonus_count s else 0)"

definition breakdownRewards ::
  "(string \<times> int) list \<Rightarrow> (string \<times> nat \<times> nat) list res \<Rightarrow> string list \<Rightarrow> int \<Rightarrow> int \<Rightarrow> int \<Rightarrow>
   (string \<times> int \<times> int \<times> int) list res" where
  "breakdownRewards votes productivity names totalBlock totalEpoch totalBonus =
     bindE productivity (\<lambda>pmap.
     bindE (foldE (qualify votes pmap) names split_start) (\<lambda>s.
     Inr (map (\<lambda>n. (n, shares votes pmap s totalBlock totalEpoch totalBonus n))
       (filter (\<lambda>n. shares votes pmap s totalBlock totalEpoch totalBonus n \<noteq> (0, 0, 0))
         (remdups names)))))"

subsection \<open>The rebuild\<close>

record aggregate_reward =
  ar_address :: string
  ar_block :: int
  ar_epoch_reward :: int
  ar_foundation :: int
  ar_priority :: int \<comment> \<open>zero where every row is NULL\<close>

definition aggregate_rewards :: "u64 \<Rightarrow> hermes_tables \<Rightarrow> aggregate_reward list" where
  "aggregate_rewards epoch t =
     (let rows = filter (\<lambda>r. br_epoch r = epoch) (ht_block_rewards t)
      in map (\<lambda>addr. let mine = filter (\<lambda>r. br_address r = addr) rows in
               \<lparr>ar_address = addr, ar_block = sum_list (map br_block mine),
                ar_epoch_reward = sum_list (map br_epoch_reward mine),
                ar_foundation = sum_list (map br_foundation mine),
                ar_priority = sum_list (map (\<lambda>r. case br_priority r of None \<Rightarrow> 0 | Some p \<Rightarrow> p) mine)\<rparr>)
           (remdups (map br_address rows)))"

definition account_rows_for ::
  "u64 \<Rightarrow> hermes_tables \<Rightarrow> (string \<Rightarrow> string list) \<Rightarrow> (string \<times> int) list \<Rightarrow> aggregate_reward \<Rightarrow>
   account_reward_row list res" where
  "account_rows_for epoch t names_of votes row =
     (let names = contributorsTo (names_of (ar_address row)) (optedInDelegates epoch t);
          totalBlock = ar_block row + ar_priority row
      in case names of
           [n] \<Rightarrow> Inr [\<lparr>ha_epoch = epoch, ha_name = n, ha_block = totalBlock,
                        ha_epoch_reward = ar_epoch_reward row, ha_foundation = ar_foundation row\<rparr>]
         | _ \<Rightarrow>
             bindE (breakdownRewards votes (getProductivity epoch t) names totalBlock
                      (ar_epoch_reward row) (ar_foundation row)) (\<lambda>m.
             Inr (map (\<lambda>(n, b, e, f). \<lparr>ha_epoch = epoch, ha_name = n, ha_block = b,
                         ha_epoch_reward = e, ha_foundation = f\<rparr>) m)))"

definition RebuildAccountRewardTable ::
  "(u64 \<Rightarrow> u64) \<Rightarrow> u64 \<Rightarrow> hermes_tables \<Rightarrow> hermes_tables res" where
  "RebuildAccountRewardTable epoch_start lastEpoch t =
     (if lastEpoch = 0 \<or> \<not> cov_ok (CheckEpochCoverage epoch_start lastEpoch t) then Inr t
      else case getVotingInfo lastEpoch t of
             None \<Rightarrow> Inr t
           | Some (names_of, votes) \<Rightarrow>
               (let rows = aggregate_rewards lastEpoch t in
                if rows = [] then Inr t
                else foldE (\<lambda>row t'. bindE (account_rows_for lastEpoch t' names_of votes row) (\<lambda>new.
                        Inr (t'\<lparr>ht_account := ht_account t' @ new\<rparr>))) rows
                      (t\<lparr>ht_account := filter (\<lambda>r. ha_epoch r \<noteq> lastEpoch) (ht_account t)\<rparr>)))"

subsection \<open>Shares never exceed the pool\<close>

lemma sum_div_le:
  assumes "(0::int) < S" and "0 \<le> T" and "sum_list (map f xs) \<le> S" and "\<forall>x \<in> set xs. 0 \<le> f x"
  shows "sum_list (map (\<lambda>x. T * f x div S) xs) \<le> T"
proof -
  have "sum_list (map (\<lambda>x. T * f x div S) xs) * S \<le> T * sum_list (map f xs)"
  proof (induction xs)
    case Nil
    then show ?case by simp
  next
    case (Cons x xs)
    have "T * f x div S * S \<le> T * f x"
      using assms(1) by (metis div_mult_mod_eq le_add_same_cancel1 pos_mod_sign)
    with Cons show ?case by (simp add: algebra_simps)
  qed
  also have "\<dots> \<le> T * S" using assms(2,3) by (simp add: mult_left_mono)
  finally show ?thesis using assms(1) by simp
qed

text \<open>What the first loop has added up, over distinct names.\<close>

definition block_sums :: "(string \<times> nat \<times> nat) list \<Rightarrow> string list \<Rightarrow> split_state \<Rightarrow> bool" where
  "block_sums pmap names s \<longleftrightarrow> set (sp_earn_block s) \<subseteq> set names \<and>
     sp_production s = sum_list (map (\<lambda>n. if n \<in> set (sp_earn_block s)
        then (case map_of pmap n of None \<Rightarrow> 0 | Some (p, _) \<Rightarrow> int p) else 0) names)"

definition epoch_sums :: "(string \<times> int) list \<Rightarrow> string list \<Rightarrow> split_state \<Rightarrow> bool" where
  "epoch_sums votes names s \<longleftrightarrow> set (sp_earn_epoch s) \<subseteq> set names \<and>
     sp_votes s = sum_list (map (\<lambda>n. if n \<in> set (sp_earn_epoch s)
        then (case map_of votes n of None \<Rightarrow> 0 | Some v \<Rightarrow> v) else 0) names)"

definition bonus_sums :: "string list \<Rightarrow> split_state \<Rightarrow> bool" where
  "bonus_sums names s \<longleftrightarrow> set (sp_earn_bonus s) \<subseteq> set names \<and>
     sp_bonus_count s = sum_list (map (\<lambda>n. if n \<in> set (sp_earn_bonus s) then 1 else 0) names)"

definition sums_of :: "(string \<times> int) list \<Rightarrow> (string \<times> nat \<times> nat) list \<Rightarrow> string list \<Rightarrow> split_state \<Rightarrow> bool" where
  "sums_of votes pmap names s \<longleftrightarrow>
     block_sums pmap names s \<and> epoch_sums votes names s \<and> bonus_sums names s"

lemma sum_list_other:
  "n \<notin> set names \<Longrightarrow> sum_list (map (\<lambda>x. if x = n \<or> P x then f x else 0) names)
     = (sum_list (map (\<lambda>x. if P x then f x else 0) names) :: int)"
  by (induction names) auto

lemma earn_block_sums:
  assumes "block_sums pmap names s" and "n \<notin> set names" and "earn_block pmap n s = Inr (b, s')"
  shows "block_sums pmap (names @ [n]) s' \<and> sp_votes s' = sp_votes s \<and> sp_earn_epoch s' = sp_earn_epoch s
    \<and> sp_bonus_count s' = sp_bonus_count s \<and> sp_earn_bonus s' = sp_earn_bonus s"
proof (cases "map_of pmap n")
  case None
  with assms show ?thesis by (auto simp: earn_block_def block_sums_def)
next
  case (Some pe)
  with assms show ?thesis
    by (auto simp: earn_block_def block_sums_def sum_list_other split: prod.splits if_splits)
qed

lemma earn_epoch_sums:
  assumes "epoch_sums votes names s" and "n \<notin> set names" and "earn_epoch votes b n s = Inr s'"
  shows "epoch_sums votes (names @ [n]) s' \<and> sp_production s' = sp_production s
    \<and> sp_earn_block s' = sp_earn_block s \<and> sp_bonus_count s' = sp_bonus_count s
    \<and> sp_earn_bonus s' = sp_earn_bonus s"
  using assms
  by (cases "map_of votes n")
    (auto simp: earn_epoch_def epoch_sums_def sum_list_other split: if_splits)

lemma earn_bonus_sums:
  assumes "bonus_sums names s" and "n \<notin> set names"
  shows "bonus_sums (names @ [n]) (earn_bonus votes n s)"
  using assms by (auto simp: earn_bonus_def bonus_sums_def sum_list_other)

lemma qualify_sums:
  assumes "sums_of votes pmap names s" and "n \<notin> set names" and "qualify votes pmap n s = Inr s'"
  shows "sums_of votes pmap (names @ [n]) s'"
proof -
  from assms(3) obtain b s1 s2 where s1: "earn_block pmap n s = Inr (b, s1)"
    and s2: "earn_epoch votes b n s1 = Inr s2" and s': "s' = earn_bonus votes n s2"
    by (auto simp: qualify_def bindE_eq_Inr)
  have one: "block_sums pmap (names @ [n]) s1" "epoch_sums votes names s1" "bonus_sums names s1"
    using earn_block_sums [OF _ assms(2) s1] assms(1)
    by (simp_all add: sums_of_def epoch_sums_def bonus_sums_def)
  have two: "block_sums pmap (names @ [n]) s2" "epoch_sums votes (names @ [n]) s2" "bonus_sums names s2"
    using earn_epoch_sums [OF one(2) assms(2) s2] one
    by (simp_all add: block_sums_def bonus_sums_def)
  have "block_sums pmap (names @ [n]) s'" "epoch_sums votes (names @ [n]) s'"
    using two(1,2) by (simp_all add: s' earn_bonus_def block_sums_def epoch_sums_def)
  with earn_bonus_sums [OF two(3) assms(2)] s' show ?thesis by (simp add: sums_of_def)
qed

lemma fold_qualify_sums:
  "foldE (qualify votes pmap) new s = Inr s' \<Longrightarrow> sums_of votes pmap names s \<Longrightarrow>
   distinct (names @ new) \<Longrightarrow> sums_of votes pmap (names @ new) s'"
proof (induction new arbitrary: names s)
  case Nil
  then show ?case by simp
next
  case (Cons n new)
  then obtain u where u: "qualify votes pmap n s = Inr u" "foldE (qualify votes pmap) new u = Inr s'"
    by (auto simp: bindE_eq_Inr)
  have "sums_of votes pmap (names @ [n]) u"
    using qualify_sums [OF Cons.prems(2) _ u(1)] Cons.prems(3) by simp
  from Cons.IH [OF u(2) this] Cons.prems(3) show ?case by simp
qed

lemma sum_list_filter_nonzero:
  "(\<And>x. x \<in> set xs \<Longrightarrow> \<not> P x \<Longrightarrow> f x = 0) \<Longrightarrow>
   sum_list (map f (filter P xs)) = (sum_list (map f xs) :: int)"
  by (induction xs) auto

subsection \<open>Properties\<close>

text \<open>
  A split never pays out more than the pool. Over distinct delegates with non-negative
  votes, the block rewards, epoch rewards and foundation bonuses of the split each add up to
  at most the total that was to be split.
\<close>

theorem breakdownRewards_within_totals:
  assumes "breakdownRewards votes productivity names tb te tf = Inr m" and "distinct names"
    and "\<forall>kv \<in> set votes. 0 \<le> snd kv" and "0 \<le> tb" and "0 \<le> te" and "0 \<le> tf"
  shows "sum_list (map (\<lambda>(n, b, e, f). b) m) \<le> tb \<and> sum_list (map (\<lambda>(n, b, e, f). e) m) \<le> te
    \<and> sum_list (map (\<lambda>(n, b, e, f). f) m) \<le> tf"
proof -
  from assms(1) obtain pmap s where s: "foldE (qualify votes pmap) names split_start = Inr s"
    and m: "m = map (\<lambda>n. (n, shares votes pmap s tb te tf n))
       (filter (\<lambda>n. shares votes pmap s tb te tf n \<noteq> (0, 0, 0)) names)"
    using distinct_remdups_id [OF assms(2)] by (auto simp: breakdownRewards_def bindE_eq_Inr)
  have sums: "sums_of votes pmap names s"
    using fold_qualify_sums [OF s, of "[]"] assms(2) by (simp add: sums_of_def block_sums_def epoch_sums_def bonus_sums_def split_start_def)
  let ?sh = "shares votes pmap s tb te tf"
  let ?p = "\<lambda>n. if n \<in> set (sp_earn_block s) then (case map_of pmap n of None \<Rightarrow> 0 | Some (p, _) \<Rightarrow> int p) else 0"
  let ?v = "\<lambda>n. if n \<in> set (sp_earn_epoch s) then (case map_of votes n of None \<Rightarrow> 0 | Some v \<Rightarrow> v) else 0"
  let ?c = "\<lambda>n. if n \<in> set (sp_earn_bonus s) then 1 else 0 :: int"
  have v_nonneg: "0 \<le> ?v n" for n
    using assms(3) by (auto split: option.splits dest!: map_of_SomeD)
  have block: "sum_list (map (\<lambda>n. fst (?sh n)) names) \<le> tb"
  proof (cases "sp_production s > 0")
    case True
    have eq: "map (\<lambda>n. fst (?sh n)) names = map (\<lambda>n. tb * ?p n div sp_production s) names"
      using True by (auto simp: shares_def split: option.splits)
    have nonneg: "0 \<le> ?p n" for n by (auto split: option.splits)
    have "sum_list (map ?p names) \<le> sp_production s"
      using sums by (simp add: sums_of_def block_sums_def)
    with nonneg show ?thesis unfolding eq by (intro sum_div_le [OF True assms(4)]) simp_all
  next
    case False
    then have eq: "map (\<lambda>n. fst (?sh n)) names = map (\<lambda>n. 0) names" by (simp add: shares_def)
    show ?thesis unfolding eq using assms(4) by (simp add: sum_list_triv)
  qed
  have epoch: "sum_list (map (\<lambda>n. fst (snd (?sh n))) names) \<le> te"
  proof (cases "sp_votes s > 0")
    case True
    have eq: "map (\<lambda>n. fst (snd (?sh n))) names = map (\<lambda>n. te * ?v n div sp_votes s) names"
      using True by (auto simp: shares_def split: option.splits)
    have "sum_list (map ?v names) \<le> sp_votes s"
      using sums by (simp add: sums_of_def epoch_sums_def)
    with v_nonneg show ?thesis unfolding eq by (intro sum_div_le [OF True assms(5)]) simp_all
  next
    case False
    then have eq: "map (\<lambda>n. fst (snd (?sh n))) names = map (\<lambda>n. 0) names" by (simp add: shares_def)
    show ?thesis unfolding eq using assms(5) by (simp add: sum_list_triv)
  qed
  have bonus: "sum_list (map (\<lambda>n. snd (snd (?sh n))) names) \<le> tf"
  proof (cases "sp_bonus_count s > 0")
    case True
    have "snd (snd (?sh n)) = tf * ?c n div sp_bonus_count s" if "n \<in> set names" for n
      using assms(6) by (auto simp: shares_def)
    then have eq: "map (\<lambda>n. snd (snd (?sh n))) names = map (\<lambda>n. tf * ?c n div sp_bonus_count s) names"
      by (intro map_cong refl)
    have "sum_list (map ?c names) \<le> sp_bonus_count s"
      using sums by (simp add: sums_of_def bonus_sums_def)
    then show ?thesis unfolding eq by (intro sum_div_le [OF True assms(6)]) simp_all
  next
    case False
    have "snd (snd (?sh n)) = 0" if n: "n \<in> set names" for n
    proof (rule ccontr)
      assume "snd (snd (?sh n)) \<noteq> 0"
      then have "n \<in> set (sp_earn_bonus s)" by (auto simp: shares_def split: if_splits)
      then have "?c n = 1" by simp
      moreover have "?c n \<le> sum_list (map ?c names)"
        by (rule member_le_sum_list) (use n in auto)
      ultimately show False using False sums by (simp add: sums_of_def bonus_sums_def)
    qed
    then have eq: "map (\<lambda>n. snd (snd (?sh n))) names = map (\<lambda>n. 0) names" by simp
    show ?thesis unfolding eq using assms(6) by (simp add: sum_list_triv)
  qed
  have comp: "sum_list (map g (map (\<lambda>n. (n, ?sh n)) (filter (\<lambda>n. ?sh n \<noteq> (0, 0, 0)) names)))
      = sum_list (map (\<lambda>n. g (n, ?sh n)) names)" if "\<And>n. g (n, 0, 0, 0) = (0 :: int)" for g
  proof -
    have "sum_list (map (\<lambda>n. g (n, ?sh n)) (filter (\<lambda>n. ?sh n \<noteq> (0, 0, 0)) names))
        = sum_list (map (\<lambda>n. g (n, ?sh n)) names)"
      by (rule sum_list_filter_nonzero) (use that in simp)
    then show ?thesis by (simp add: comp_def)
  qed
  show ?thesis
    unfolding m using block epoch bonus
    by (subst (1 2 3) comp) (simp_all add: case_prod_unfold)
qed

lemma example_split:
  "breakdownRewards [(''a'', 5), (''b'', 3)] (Inr [(''a'', 9, 10), (''b'', 4, 10)]) [''a'', ''b''] 100 10 7
     = Inr [(''a'', 69, 10, 3), (''b'', 30, 0, 3)]"
  by code_simp

theorem breakdownRewards_within_totals_witness:
  "(69 :: int) + 30 \<le> 100 \<and> (10 :: int) + 0 \<le> 10 \<and> (3 :: int) + 3 \<le> 7"
  using breakdownRewards_within_totals [OF example_split] by simp

lemma account_independent [simp]:
  "optedInDelegates epoch (t\<lparr>ht_account := a\<rparr>) = optedInDelegates epoch t"
  "getProductivity epoch (t\<lparr>ht_account := a\<rparr>) = getProductivity epoch t"
  "getVotingInfo epoch (t\<lparr>ht_account := a\<rparr>) = getVotingInfo epoch t"
  "aggregate_rewards epoch (t\<lparr>ht_account := a\<rparr>) = aggregate_rewards epoch t"
  "CheckEpochCoverage f epoch (t\<lparr>ht_account := a\<rparr>) = CheckEpochCoverage f epoch t"
  by (simp_all add: optedInDelegates_def getProductivity_def getVotingInfo_def aggregate_rewards_def
      CheckEpochCoverage_def)

lemma rebuild_fold:
  assumes "foldE (\<lambda>row t'. bindE (account_rows_for epoch t' names_of votes row) (\<lambda>new.
      Inr (t'\<lparr>ht_account := ht_account t' @ new\<rparr>))) rows (t\<lparr>ht_account := acc\<rparr>) = Inr t'"
  shows "\<exists>new. t' = t\<lparr>ht_account := acc @ new\<rparr> \<and> (\<forall>r \<in> set new. ha_epoch r = epoch) \<and>
    (\<forall>acc2. foldE (\<lambda>row t'. bindE (account_rows_for epoch t' names_of votes row) (\<lambda>new.
      Inr (t'\<lparr>ht_account := ht_account t' @ new\<rparr>))) rows (t\<lparr>ht_account := acc2\<rparr>)
      = Inr (t\<lparr>ht_account := acc2 @ new\<rparr>))"
  using assms
proof (induction rows arbitrary: acc)
  case Nil
  then show ?case by (intro exI [where x = "[]"]) simp
next
  case (Cons row rows)
  have other: "account_rows_for epoch (t\<lparr>ht_account := a\<rparr>) names_of votes row
      = account_rows_for epoch t names_of votes row" for a
    by (simp add: account_rows_for_def account_independent cong: list.case_cong)
  from Cons.prems obtain n1 where n1: "account_rows_for epoch t names_of votes row = Inr n1"
    by (auto simp: bindE_eq_Inr other)
  have ep: "\<forall>r \<in> set n1. ha_epoch r = epoch"
    using n1 by (auto simp: account_rows_for_def Let_def bindE_eq_Inr split: list.splits)
  from Cons.IH [of "acc @ n1"] Cons.prems n1 obtain n2 where
    "t' = t\<lparr>ht_account := (acc @ n1) @ n2\<rparr>" "\<forall>r \<in> set n2. ha_epoch r = epoch"
    "\<forall>acc2. foldE (\<lambda>row t'. bindE (account_rows_for epoch t' names_of votes row) (\<lambda>new.
      Inr (t'\<lparr>ht_account := ht_account t' @ new\<rparr>))) rows (t\<lparr>ht_account := acc2\<rparr>)
      = Inr (t\<lparr>ht_account := acc2 @ n2\<rparr>)"
    by (auto simp: other)
  with n1 ep show ?case by (intro exI [where x = "n1 @ n2"]) (auto simp: other)
qed

text \<open>
  Rebuilding an epoch is idempotent. Running the rebuild again on its own result deletes and
  writes the same rows, and the rows of other epochs are never touched.
\<close>

theorem RebuildAccountRewardTable_idempotent:
  assumes "RebuildAccountRewardTable epoch_start epoch t = Inr t'"
  shows "RebuildAccountRewardTable epoch_start epoch t' = Inr t'
    \<and> filter (\<lambda>r. ha_epoch r \<noteq> epoch) (ht_account t') = filter (\<lambda>r. ha_epoch r \<noteq> epoch) (ht_account t)"
proof (cases "epoch = 0 \<or> \<not> cov_ok (CheckEpochCoverage epoch_start epoch t) \<or> getVotingInfo epoch t = None
    \<or> aggregate_rewards epoch t = []")
  case True
  with assms have "t' = t"
    by (auto simp: RebuildAccountRewardTable_def Let_def split: if_splits option.splits)
  with assms show ?thesis by simp
next
  case False
  then obtain names_of votes where v: "getVotingInfo epoch t = Some (names_of, votes)" by auto
  let ?keep = "filter (\<lambda>r. ha_epoch r \<noteq> epoch) (ht_account t)"
  have run: "foldE (\<lambda>row t'. bindE (account_rows_for epoch t' names_of votes row) (\<lambda>new.
      Inr (t'\<lparr>ht_account := ht_account t' @ new\<rparr>))) (aggregate_rewards epoch t)
      (t\<lparr>ht_account := ?keep\<rparr>) = Inr t'"
    using assms False v by (simp add: RebuildAccountRewardTable_def Let_def)
  from rebuild_fold [OF run] obtain new where new: "t' = t\<lparr>ht_account := ?keep @ new\<rparr>"
      "\<forall>r \<in> set new. ha_epoch r = epoch"
    and again: "\<forall>acc2. foldE (\<lambda>row t'. bindE (account_rows_for epoch t' names_of votes row) (\<lambda>new.
      Inr (t'\<lparr>ht_account := ht_account t' @ new\<rparr>))) (aggregate_rewards epoch t)
      (t\<lparr>ht_account := acc2\<rparr>) = Inr (t\<lparr>ht_account := acc2 @ new\<rparr>)" by blast
  have "filter (\<lambda>r. ha_epoch r \<noteq> epoch) new = []" using new(2) by (simp add: filter_empty_conv)
  then have kept: "filter (\<lambda>r. ha_epoch r \<noteq> epoch) (?keep @ new) = ?keep" by simp
  have "RebuildAccountRewardTable epoch_start epoch t' = Inr t'"
    using False v again kept by (simp add: RebuildAccountRewardTable_def Let_def new(1))
  with kept new(1) show ?thesis by simp
qed

definition example_hermes :: hermes_tables where
  "example_hermes = \<lparr>ht_block_meta = [\<lparr>bm_height = 25, bm_epoch = 2, bm_producer_name = ''a'', bm_expected_name = ''a''\<rparr>],
     ht_block_rewards = [\<lparr>br_epoch = 2, br_address = ''r'', br_block = 8, br_epoch_reward = 3, br_foundation = 1, br_priority = None\<rparr>],
     ht_voting = [\<lparr>hv_epoch = 2, hv_name = ''a'', hv_reward_address = ''r'', hv_votes = 5\<rparr>],
     ht_config = [],
     ht_account = [\<lparr>ha_epoch = 1, ha_name = ''a'', ha_block = 1, ha_epoch_reward = 1, ha_foundation = 1\<rparr>]\<rparr>"

theorem RebuildAccountRewardTable_idempotent_witness:
  "\<exists>t'. RebuildAccountRewardTable (\<lambda>e. 25) 2 example_hermes = Inr t' \<and> length (ht_account t') = 2
     \<and> RebuildAccountRewardTable (\<lambda>e. 25) 2 t' = Inr t'"
proof -
  obtain t' where run: "RebuildAccountRewardTable (\<lambda>e. 25) 2 example_hermes = Inr t'"
      and "length (ht_account t') = 2"
    by (simp add: RebuildAccountRewardTable_def CheckEpochCoverage_def getVotingInfo_def
        aggregate_rewards_def account_rows_for_def contributorsTo_def optedInDelegates_def
        example_hermes_def Let_def)
  with RebuildAccountRewardTable_idempotent [OF run] show ?thesis by blast
qed

end
