(* ===== verification/VoterDecode.thy ===== *)
theory VoterDecode
  imports RewardLog
begin

text \<open>
  service/voter_reward/decode.go and util.go: the logs of the on-chain voter reward
  distribution read into rows. What the code takes from iotex-core (the topics and addresses of
  the protocols, the unpackers, the address codec) is the record \<open>protocol\<close>, an argument of the
  definitions; the readers of the code itself are translated.
\<close>

subsection \<open>The protocol's side\<close>

text \<open>
  The arguments \<open>distributedlog.Unpack\<close> returns, one entry per voter in each of the parallel
  arrays; a *big.Int may be nil. \<open>abi_arg\<close> is a value of \<open>abi.Arguments.Unpack\<close> with the Go type
  it carries.
\<close>

record distributed_args =
  da_epoch :: u64
  da_delegate :: string
  da_voters :: "string list"
  da_recipients :: "string list"
  da_amounts :: "int option list"
  da_compounded :: "bool list"
  da_bucket_ids :: "u64 list"

datatype abi_arg = AUint64 u64 | ABool bool | ABigInt "int option" | AOther string

record protocol =
  pr_rewarding_addr :: string
  pr_staking_addr :: string
  pr_distributed_topic :: hash256
  pr_opt_in_topic :: hash256
  pr_destination_topic :: hash256
  pr_freeze_topic :: hash256
  pr_unpack_distributed :: "hash256 list \<Rightarrow> byte list \<Rightarrow> distributed_args res"
  pr_unpack_freeze :: "byte list \<Rightarrow> abi_arg list res"
  pr_address :: "byte list \<Rightarrow> string res" \<comment> \<open>address.FromBytes, then String\<close>
  pr_unmarshal_reward :: "byte list \<Rightarrow> reward_log list res"

subsection \<open>Helpers of util.go\<close>

definition addressString :: "protocol \<Rightarrow> byte list \<Rightarrow> string res" where
  "addressString pr b = (if b = [] then Inr [] else pr_address pr b)"

definition dec :: "int option \<Rightarrow> int" where
  "dec v = (case v of None \<Rightarrow> 0 | Some i \<Rightarrow> i)"

definition bytesToDec :: "byte list \<Rightarrow> int" where
  "bytesToDec b = (if b = [] then 0 else int (be_nat b))"

definition hexOrEmpty :: "byte list \<Rightarrow> string" where
  "hexOrEmpty b = hex_encode b"

subsection \<open>Distributions\<close>

record distribution_row =
  dr_era :: u64
  dr_delegate :: string
  dr_voter :: string
  dr_recipient :: string
  dr_amount :: "int option"
  dr_compounded :: bool
  dr_bucket :: u64
  dr_row_index :: u32

definition distribution_row_at :: "distributed_args \<Rightarrow> nat \<Rightarrow> distribution_row res" where
  "distribution_row_at a i =
     bindE (idx (da_voters a) i) (\<lambda>v.
     bindE (idx (da_recipients a) i) (\<lambda>r.
     bindE (idx (da_amounts a) i) (\<lambda>m.
     bindE (idx (da_compounded a) i) (\<lambda>c.
     bindE (idx (da_bucket_ids a) i) (\<lambda>b.
       Inr \<lparr>dr_era = da_epoch a, dr_delegate = da_delegate a, dr_voter = v, dr_recipient = r,
         dr_amount = m, dr_compounded = c, dr_bucket = b, dr_row_index = word_of_nat i\<rparr>)))))"

definition DecodeDistribution :: "protocol \<Rightarrow> log \<Rightarrow> distribution_row list res" where
  "DecodeDistribution pr l =
     (if log_topics l = [] \<or> hd (log_topics l) \<noteq> pr_distributed_topic pr
         \<or> log_address l \<noteq> pr_rewarding_addr pr
      then Inr []
      else bindE (pr_unpack_distributed pr (log_topics l) (log_data l)) (\<lambda>a.
             foldE (\<lambda>i rows. bindE (distribution_row_at a i) (\<lambda>r. Inr (rows @ [r])))
               [0 ..< length (da_voters a)] []))"

subsection \<open>Opt-in and destination events\<close>

text \<open>An address sits in the last 20 bytes of its 32-byte topic.\<close>

definition addrOffset :: nat where
  "addrOffset = 12"

definition DecodeOptIn :: "protocol \<Rightarrow> log \<Rightarrow> string res" where
  "DecodeOptIn pr l =
     (case log_topics l of
        t0 # t1 # _ \<Rightarrow>
          if t0 \<noteq> pr_opt_in_topic pr \<or> log_address l \<noteq> pr_staking_addr pr then Inr []
          else pr_address pr (drop addrOffset t1)
      | _ \<Rightarrow> Inr [])"

record destination_change =
  dc_voter :: string
  dc_old :: string
  dc_new :: string

definition DecodeDestination :: "protocol \<Rightarrow> log \<Rightarrow> destination_change option res" where
  "DecodeDestination pr l =
     (case log_topics l of
        t0 # t1 # _ \<Rightarrow>
          if t0 \<noteq> pr_destination_topic pr \<or> log_address l \<noteq> pr_rewarding_addr pr then Inr None
          else bindE (pr_address pr (drop addrOffset t1)) (\<lambda>voter.
            if length (log_data l) \<noteq> 64
            then Inl (Err ''VoterRewardDestinationSet: want 64 data bytes'')
            else bindE (pr_address pr (drop addrOffset (take 32 (log_data l)))) (\<lambda>old.
                 bindE (pr_address pr (drop (32 + addrOffset) (log_data l))) (\<lambda>new.
                   Inr (Some \<lparr>dc_voter = voter, dc_old = old, dc_new = new\<rparr>))))
      | _ \<Rightarrow> Inr None)"

subsection \<open>Freeze events\<close>

record delegate_snapshot =
  sn_block_bps :: u64
  sn_epoch_bps :: u64
  sn_configured :: bool
  sn_total_weight :: "int option"
  sn_freeze_height :: u64
  sn_self_bucket :: u64

record frozen_snapshot =
  fz_era :: u64
  fz_delegate :: string
  fz_snapshot :: delegate_snapshot

text \<open>The type assertions: each value is checked before it is taken.\<close>

definition as_uint64 :: "string \<Rightarrow> abi_arg \<Rightarrow> u64 res" where
  "as_uint64 what a = (case a of AUint64 n \<Rightarrow> Inr n | _ \<Rightarrow> Inl (Err what))"

definition as_bool :: "string \<Rightarrow> abi_arg \<Rightarrow> bool res" where
  "as_bool what a = (case a of ABool b \<Rightarrow> Inr b | _ \<Rightarrow> Inl (Err what))"

definition as_big :: "string \<Rightarrow> abi_arg \<Rightarrow> int option res" where
  "as_big what a = (case a of ABigInt i \<Rightarrow> Inr i | _ \<Rightarrow> Inl (Err what))"

definition freeze_snapshot_of :: "abi_arg list \<Rightarrow> delegate_snapshot res" where
  "freeze_snapshot_of args =
     (case args of
        [a0, a1, a2, a3, a4, a5] \<Rightarrow>
          bindE (as_uint64 ''DelegateRewardFrozen: freezeHeight'' a0) (\<lambda>h.
          bindE (as_uint64 ''DelegateRewardFrozen: blockCommissionBps'' a1) (\<lambda>bb.
          bindE (as_uint64 ''DelegateRewardFrozen: epochCommissionBps'' a2) (\<lambda>eb.
          bindE (as_bool ''DelegateRewardFrozen: commissionConfigured'' a3) (\<lambda>c.
          bindE (as_big ''DelegateRewardFrozen: totalWeight'' a4) (\<lambda>w.
          bindE (as_uint64 ''DelegateRewardFrozen: selfStakeBucketIdx'' a5) (\<lambda>s.
            Inr \<lparr>sn_block_bps = bb, sn_epoch_bps = eb, sn_configured = c, sn_total_weight = w,
              sn_freeze_height = h, sn_self_bucket = s\<rparr>))))))
      | _ \<Rightarrow> Inl (Err ''DelegateRewardFrozen: want 6 data fields''))"

definition DecodeFreeze :: "protocol \<Rightarrow> log \<Rightarrow> frozen_snapshot option res" where
  "DecodeFreeze pr l =
     (case log_topics l of
        t0 # t1 # t2 # _ \<Rightarrow>
          if t0 \<noteq> pr_freeze_topic pr \<or> log_address l \<noteq> pr_staking_addr pr then Inr None
          else bindE (pr_address pr (drop addrOffset t2)) (\<lambda>delegate.
               bindE (pr_unpack_freeze pr (log_data l)) (\<lambda>args.
               bindE (freeze_snapshot_of args) (\<lambda>snap.
                 Inr (Some \<lparr>fz_era = be_uint64 (drop 24 t1), fz_delegate = delegate,
                   fz_snapshot = snap\<rparr>))))
      | _ \<Rightarrow> Inr None)"

subsection \<open>Bookkeeping logs\<close>

record cursor_progress =
  cp_era :: u64
  cp_phase :: u32
  cp_resume_voter :: string
  cp_ranges :: u64

record drain_overrun =
  do_era :: u64
  do_delegates :: u64
  do_residue :: int

text \<open>\<open>strings.Split\<close> on a one-character separator.\<close>

fun split_on :: "char \<Rightarrow> string \<Rightarrow> string list" where
  "split_on c [] = [[]]"
| "split_on c (x # xs) =
     (if x = c then [] # split_on c xs
      else (case split_on c xs of [] \<Rightarrow> [[x]] | p # ps \<Rightarrow> (x # p) # ps))"

definition decode_progress :: "string \<Rightarrow> cursor_progress res" where
  "decode_progress addr =
     (case split_on CHR '':'' addr of
        [p0, p1, p2, p3] \<Rightarrow>
          bindE (parse_uint 64 p0) (\<lambda>era.
          bindE (parse_uint 32 p1) (\<lambda>phase.
          bindE (parse_uint 64 p3) (\<lambda>ranges.
            Inr \<lparr>cp_era = word_of_nat era, cp_phase = word_of_nat phase, cp_resume_voter = p2,
              cp_ranges = word_of_nat ranges\<rparr>)))
      | _ \<Rightarrow> Inl (Err ''CURSOR_PROGRESS: want 4 fields''))"

definition decode_overrun :: "string \<Rightarrow> string \<Rightarrow> drain_overrun res" where
  "decode_overrun addr amount =
     (case split_on CHR '':'' addr of
        [p0, p1] \<Rightarrow>
          bindE (parse_uint 64 p0) (\<lambda>era.
          bindE (parse_uint 64 p1) (\<lambda>remaining.
            (case parse_int10 amount of
               None \<Rightarrow> Inl (Err ''EPOCH_DRAIN_OVERRUN residue'')
             | Some r \<Rightarrow> Inr \<lparr>do_era = word_of_nat era, do_delegates = word_of_nat remaining,
                 do_residue = r\<rparr>)))
      | _ \<Rightarrow> Inl (Err ''EPOCH_DRAIN_OVERRUN: want 2 fields''))"

type_synonym bookkeeping = "cursor_progress option \<times> drain_overrun option"

definition bookkeeping_entry :: "reward_log \<Rightarrow> bookkeeping \<Rightarrow> bookkeeping res" where
  "bookkeeping_entry rl b =
     (case rl_type rl of
        RL_CURSOR_PROGRESS \<Rightarrow> bindE (decode_progress (rl_addr rl)) (\<lambda>p. Inr (Some p, snd b))
      | RL_EPOCH_DRAIN_OVERRUN \<Rightarrow>
          bindE (decode_overrun (rl_addr rl) (rl_amount rl)) (\<lambda>d. Inr (fst b, Some d))
      | _ \<Rightarrow> Inr b)"

text \<open>A log that is no reward log, or does not unmarshal as one, yields nothing.\<close>

definition DecodeRewardBookkeeping :: "protocol \<Rightarrow> log \<Rightarrow> bookkeeping res" where
  "DecodeRewardBookkeeping pr l =
     (if log_address l \<noteq> pr_rewarding_addr pr \<or> log_topics l \<noteq> [] then Inr (None, None)
      else case pr_unmarshal_reward pr (log_data l) of
             Inl e \<Rightarrow> Inr (None, None)
           | Inr logs \<Rightarrow> foldE bookkeeping_entry logs (None, None))"

subsection \<open>The start-up checks\<close>

text \<open>
  \<open>selfCheck\<close> and \<open>freezeSelfCheck\<close>: the protocol's own packers, arguments here, are read back
  with the readers above on fixed values; the package panics when they disagree.
\<close>

record packers =
  pk_destination :: "string \<Rightarrow> string \<Rightarrow> string \<Rightarrow> (hash256 list \<times> byte list) res"
  pk_freeze :: "frozen_snapshot \<Rightarrow> (hash256 list \<times> byte list) res"

definition freeze_probe :: "string \<Rightarrow> frozen_snapshot" where
  "freeze_probe delegate = \<lparr>fz_era = 7, fz_delegate = delegate, fz_snapshot =
     \<lparr>sn_block_bps = 13, sn_epoch_bps = 17, sn_configured = True, sn_total_weight = Some 19,
      sn_freeze_height = 11, sn_self_bucket = 23\<rparr>\<rparr>"

definition freezeSelfCheck :: "protocol \<Rightarrow> packers \<Rightarrow> string \<Rightarrow> unit res" where
  "freezeSelfCheck pr pk delegate =
     bindE (pk_freeze pk (freeze_probe delegate)) (\<lambda>(topics, data).
     bindE (DecodeFreeze pr \<lparr>log_address = pr_staking_addr pr, log_topics = topics, log_data = data\<rparr>)
       (\<lambda>got. if got = Some (freeze_probe delegate) then Inr ()
              else Inl (Err ''DelegateRewardFrozen layout changed in iotex-core'')))"

definition selfCheck :: "protocol \<Rightarrow> packers \<Rightarrow> unit res" where
  "selfCheck pr pk =
     bindE (pr_address pr (replicate 20 0x11)) (\<lambda>voter.
     bindE (pr_address pr (replicate 20 0x22)) (\<lambda>old.
     bindE (pr_address pr (replicate 20 0x33)) (\<lambda>new.
     bindE (pk_destination pk voter old new) (\<lambda>(topics, data).
     bindE (DecodeDestination pr
              \<lparr>log_address = pr_rewarding_addr pr, log_topics = topics, log_data = data\<rparr>)
       (\<lambda>got. if got = Some \<lparr>dc_voter = voter, dc_old = old, dc_new = new\<rparr>
              then freezeSelfCheck pr pk voter
              else Inl (Err ''VoterRewardDestinationSet layout changed in iotex-core''))))))"

subsection \<open>Lemmas\<close>

lemma split_on_none: "c \<notin> set xs \<Longrightarrow> split_on c xs = [xs]"
  by (induction xs) auto

lemma split_on_append: "c \<notin> set xs \<Longrightarrow> split_on c (xs @ c # ys) = xs # split_on c ys"
  by (induction xs) auto

text \<open>Neither a printed number nor hexadecimal digits contain the separator.\<close>

lemma colon_not_in_show_nat [simp]: "CHR '':'' \<notin> set (show_nat n)"
proof
  assume "CHR '':'' \<in> set (show_nat n)"
  then obtain d :: nat where d: "d < 10" "CHR '':'' = char_of (48 + d)"
    using digits_of_show_nat by blast
  have "of_char (CHR '':'') = 48 + d"
    unfolding d(2) using d(1) by simp
  then show False using d(1) by simp
qed

lemma colon_not_in_hex [simp]: "CHR '':'' \<notin> set (hex_encode bs)"
proof -
  have digit: "hex_digit n \<noteq> CHR '':''" if "n < 16" for n
  proof
    assume "hex_digit n = CHR '':''"
    then have "of_char (hex_digit n) = (58 :: nat)" by simp
    with that show False by (auto simp: hex_digit_def split: if_splits)
  qed
  have "unat (b :: byte) < 256" for b using unsigned_less [where w = b and 'a = nat] by simp
  then have "unat (b :: byte) div 16 < 16" for b
    by (intro less_mult_imp_div_less) simp
  then show ?thesis
    using digit [symmetric] by (auto simp: hex_encode_def)
qed

lemma parse_uint_show_nat: "n < 2 ^ bits \<Longrightarrow> parse_uint bits (show_nat n) = Inr n"
  by (simp add: parse_uint_def)

lemma parse_uint_of_word:
  "parse_uint 64 (show_nat (unat (x :: u64))) = Inr (unat x)"
  "parse_uint 32 (show_nat (unat (y :: u32))) = Inr (unat y)"
  using unsigned_less [where w = x and 'a = nat] unsigned_less [where w = y and 'a = nat]
  by (simp_all add: parse_uint_show_nat)

text \<open>The texts the protocol writes into the address field of the two bookkeeping logs.\<close>

definition progress_text :: "u64 \<Rightarrow> u32 \<Rightarrow> byte list \<Rightarrow> u64 \<Rightarrow> string" where
  "progress_text era phase cursor ranges =
     show_nat (unat era) @ CHR '':'' # show_nat (unat phase) @ CHR '':'' # hex_encode cursor
       @ CHR '':'' # show_nat (unat ranges)"

definition overrun_text :: "u64 \<Rightarrow> u64 \<Rightarrow> string" where
  "overrun_text era remaining = show_nat (unat era) @ CHR '':'' # show_nat (unat remaining)"

lemma decode_progress_text:
  "decode_progress (progress_text era phase cursor ranges) =
     Inr \<lparr>cp_era = era, cp_phase = phase, cp_resume_voter = hex_encode cursor, cp_ranges = ranges\<rparr>"
  by (simp add: decode_progress_def progress_text_def split_on_append split_on_none
      parse_uint_of_word)

lemma decode_overrun_text:
  "parse_int10 amount = Some r \<Longrightarrow> decode_overrun (overrun_text era remaining) amount =
     Inr \<lparr>do_era = era, do_delegates = remaining, do_residue = r\<rparr>"
  by (simp add: decode_overrun_def overrun_text_def split_on_append split_on_none
      parse_uint_of_word)

lemma distribution_row_at_eq:
  "distribution_row_at a i = Inr r \<longleftrightarrow>
     i < length (da_voters a) \<and> i < length (da_recipients a) \<and> i < length (da_amounts a)
     \<and> i < length (da_compounded a) \<and> i < length (da_bucket_ids a)
     \<and> r = \<lparr>dr_era = da_epoch a, dr_delegate = da_delegate a, dr_voter = da_voters a ! i,
         dr_recipient = da_recipients a ! i, dr_amount = da_amounts a ! i,
         dr_compounded = da_compounded a ! i, dr_bucket = da_bucket_ids a ! i,
         dr_row_index = word_of_nat i\<rparr>"
  by (auto simp: distribution_row_at_def idx_def bindE_eq_Inr split: if_splits)

lemma distribution_rows_upto:
  assumes "foldE (\<lambda>i rows. bindE (distribution_row_at a i) (\<lambda>r. Inr (rows @ [r]))) [0 ..< n] [] = Inr rows"
  shows "length rows = n \<and> (\<forall>i < n. distribution_row_at a i = Inr (rows ! i))"
  using assms
proof (induction n arbitrary: rows)
  case 0
  then show ?case by simp
next
  case (Suc n)
  then obtain rows0 r where r: "foldE (\<lambda>i rows. bindE (distribution_row_at a i)
        (\<lambda>r. Inr (rows @ [r]))) [0 ..< n] [] = Inr rows0"
      "distribution_row_at a n = Inr r" "rows = rows0 @ [r]"
    by (auto simp: foldE_append bindE_eq_Inr)
  from Suc.IH [OF r(1)] r(2,3) show ?case
    by (auto simp: nth_append less_Suc_eq)
qed

text \<open>
  A distribution log of the protocol, decoded: one row per voter, each with its entry of every
  parallel array and its position.
\<close>

lemma DecodeDistribution_rows:
  assumes "DecodeDistribution pr l = Inr rows" and "rows \<noteq> []"
  shows "\<exists>a. pr_unpack_distributed pr (log_topics l) (log_data l) = Inr a \<and>
    length rows = length (da_voters a) \<and> (\<forall>i < length rows. distribution_row_at a i = Inr (rows ! i))"
  using assms
  by (auto simp: DecodeDistribution_def bindE_eq_Inr split: if_splits dest!: distribution_rows_upto)

text \<open>The position of a row in its log identifies it.\<close>

lemma DecodeDistribution_row_index:
  assumes "DecodeDistribution pr l = Inr rows" and "i < length rows"
  shows "dr_row_index (rows ! i) = word_of_nat i"
proof -
  from assms(2) have "rows \<noteq> []" by auto
  from DecodeDistribution_rows [OF assms(1) this] assms(2) show ?thesis
    by (auto simp: distribution_row_at_eq)
qed

text \<open>Logs of other contracts carry nothing, whatever their topics.\<close>

lemma foreign_log_decodes_to_nothing:
  assumes "log_address l \<notin> {pr_rewarding_addr pr, pr_staking_addr pr}"
  shows "DecodeDistribution pr l = Inr []" and "DecodeOptIn pr l = Inr []"
    and "DecodeFreeze pr l = Inr None" and "DecodeDestination pr l = Inr None"
    and "DecodeRewardBookkeeping pr l = Inr (None, None)"
  using assms
  by (auto simp: DecodeDistribution_def DecodeOptIn_def DecodeFreeze_def DecodeDestination_def
      DecodeRewardBookkeeping_def split: list.splits)

subsection \<open>Properties\<close>

text \<open>
  C31: The bookkeeping logs of a settlement round trip: what the protocol's format strings write
  for any era, phase, cursor and count, \<open>DecodeRewardBookkeeping\<close> reads back as those values, at
  their full width, and the residue of an overrun from its amount.
\<close>

theorem bookkeeping_roundtrip:
  assumes "log_address l = pr_rewarding_addr pr" and "log_topics l = []"
    and "pr_unmarshal_reward pr (log_data l) = Inr
      [\<lparr>rl_type = RL_CURSOR_PROGRESS, rl_addr = progress_text era phase cursor ranges, rl_amount = a\<rparr>,
       \<lparr>rl_type = RL_EPOCH_DRAIN_OVERRUN, rl_addr = overrun_text era2 remaining,
         rl_amount = show_nat n\<rparr>]"
  shows "DecodeRewardBookkeeping pr l = Inr
    (Some \<lparr>cp_era = era, cp_phase = phase, cp_resume_voter = hexOrEmpty cursor, cp_ranges = ranges\<rparr>,
     Some \<lparr>do_era = era2, do_delegates = remaining, do_residue = int n\<rparr>)"
  using assms
  by (simp add: DecodeRewardBookkeeping_def bookkeeping_entry_def decode_progress_text
      decode_overrun_text hexOrEmpty_def)

text \<open>A protocol whose addresses are the hexadecimal digits of their bytes.\<close>

definition example_protocol :: protocol where
  "example_protocol = \<lparr>pr_rewarding_addr = ''io_rewarding'', pr_staking_addr = ''io_staking'',
     pr_distributed_topic = [1], pr_opt_in_topic = [2], pr_destination_topic = [3],
     pr_freeze_topic = [4],
     pr_unpack_distributed = (\<lambda>ts d. Inr \<lparr>da_epoch = 24, da_delegate = ''io_d'',
        da_voters = [''io_v'', ''io_w''], da_recipients = [''io_v'', ''io_r''],
        da_amounts = [Some 5, Some 7], da_compounded = [True, False], da_bucket_ids = [0, 0]\<rparr>),
     pr_unpack_freeze = (\<lambda>d. Inr [AUint64 11, AUint64 13, AUint64 17, ABool True,
        ABigInt (Some 19), AUint64 23]),
     pr_address = (\<lambda>b. Inr (hex_encode b)),
     pr_unmarshal_reward = (\<lambda>d. Inr
        [\<lparr>rl_type = RL_CURSOR_PROGRESS, rl_addr = progress_text 24 1 [0xab] 3, rl_amount = ''0''\<rparr>,
         \<lparr>rl_type = RL_EPOCH_DRAIN_OVERRUN, rl_addr = overrun_text 23 2, rl_amount = show_nat 90\<rparr>])\<rparr>"

theorem bookkeeping_roundtrip_witness:
  "DecodeRewardBookkeeping example_protocol
      \<lparr>log_address = ''io_rewarding'', log_topics = [], log_data = []\<rparr> = Inr
    (Some \<lparr>cp_era = 24, cp_phase = 1, cp_resume_voter = hexOrEmpty [0xab], cp_ranges = 3\<rparr>,
     Some \<lparr>do_era = 23, do_delegates = 2, do_residue = 90\<rparr>)"
  using bookkeeping_roundtrip [of "\<lparr>log_address = ''io_rewarding'', log_topics = [], log_data = []\<rparr>"
      example_protocol 24 1 "[0xab]" 3 "''0''" 23 2 90]
  by (simp add: example_protocol_def)

end
