(* ===== verification/VoterState.thy ===== *)
theory VoterState
  imports VoterDecode
begin

text \<open>
  What the voter reward plugin reads from the node: the candidate index of
  service/voter_reward/candidates.go and the state reads of statereader.go. The node is the
  record \<open>node\<close>, an argument: its \<open>ReadState\<close> and the protobuf decoders of the answers.
\<close>

subsection \<open>The node\<close>

record candidate_v2 =
  cv_id :: string
  cv_name :: string
  cv_owner :: string
  cv_reward :: string
  cv_operator :: string

text \<open>
  \<open>ds_allocs\<close> pairs the candidate identifier of an allocation with its frozen voter amount,
  both raw bytes.
\<close>

record distribution_state =
  ds_target_era :: u64
  ds_freeze_height :: u64
  ds_scan_phase :: u32
  ds_resume_voter :: "byte list"
  ds_completed :: bool
  ds_completed_height :: u64
  ds_allocs :: "(byte list \<times> byte list) list"

record snapshot_pb =
  sp_block_bps :: u64
  sp_epoch_bps :: u64
  sp_configured :: bool
  sp_total_weight :: "byte list"
  sp_freeze_height :: u64
  sp_self_bucket :: u64

record payout_pb =
  pp_address :: "byte list"
  pp_onchain :: bool

record node =
  nd_read :: "string \<Rightarrow> string \<Rightarrow> string list \<Rightarrow> u64 \<Rightarrow> byte list res"
    \<comment> \<open>ReadState: protocol, method, arguments, height\<close>
  nd_candidates :: "u32 \<Rightarrow> u32 \<Rightarrow> u64 \<Rightarrow> byte list res"
    \<comment> \<open>ReadState of the staking candidates: offset, limit, height\<close>
  nd_un_candidates :: "byte list \<Rightarrow> candidate_v2 list res"
  nd_un_distribution :: "byte list \<Rightarrow> distribution_state res"
  nd_un_snapshot :: "byte list \<Rightarrow> snapshot_pb res"
  nd_un_payout :: "byte list \<Rightarrow> payout_pb res"

subsection \<open>The candidate index\<close>

record candidate_info =
  in_identifier :: string
  in_name :: string
  in_owner :: string
  in_reward :: string
  in_operator :: string

text \<open>The order of \<open>ix_by_id\<close> stands for the iteration order of the Go map.\<close>

record candidate_index =
  ix_by_id :: "(string \<times> candidate_info) list"
  ix_by_owner :: "(string \<times> candidate_info) list"
  ix_height :: u64

definition NewCandidateIndex :: candidate_index where
  "NewCandidateIndex = \<lparr>ix_by_id = [], ix_by_owner = [], ix_height = 0\<rparr>"

definition readCandidatesLimit :: nat where
  "readCandidatesLimit = 20000"

definition stakingCandidatePage :: "node \<Rightarrow> u32 \<Rightarrow> u32 \<Rightarrow> u64 \<Rightarrow> candidate_v2 list res" where
  "stakingCandidatePage nd offset limit height =
     bindE (nd_candidates nd offset limit height) (nd_un_candidates nd)"

text \<open>
  The page loop ends with the first page that is not full. Its offset is a uint32. The number
  of pages read is bounded by \<open>fuel\<close>; a node whose pages are always full would keep the code
  in the loop, which is the error of the first line.
\<close>

fun candidate_pages ::
  "nat \<Rightarrow> node \<Rightarrow> u64 \<Rightarrow> u32 \<Rightarrow> candidate_v2 list \<Rightarrow> candidate_v2 list res" where
  "candidate_pages 0 nd height i out = Inl (Err ''the page loop does not end'')"
| "candidate_pages (Suc fuel) nd height i out =
     bindE (stakingCandidatePage nd (i * word_of_nat readCandidatesLimit)
              (word_of_nat readCandidatesLimit) height) (\<lambda>page.
       if length page < readCandidatesLimit then Inr (out @ page)
       else candidate_pages fuel nd height (i + 1) (out @ page))"

definition allStakingCandidates :: "nat \<Rightarrow> node \<Rightarrow> u64 \<Rightarrow> candidate_v2 list res" where
  "allStakingCandidates fuel nd height = candidate_pages fuel nd height 0 []"

text \<open>A record without identifier is addressed by its owner.\<close>

definition info_of :: "candidate_v2 \<Rightarrow> candidate_info" where
  "info_of c = \<lparr>in_identifier = (if cv_id c = [] then cv_owner c else cv_id c), in_name = cv_name c,
     in_owner = cv_owner c, in_reward = cv_reward c, in_operator = cv_operator c\<rparr>"

definition index_candidate ::
  "candidate_v2 \<Rightarrow> (string \<times> candidate_info) list \<times> (string \<times> candidate_info) list
    \<Rightarrow> (string \<times> candidate_info) list \<times> (string \<times> candidate_info) list" where
  "index_candidate c m =
     (let info = info_of c in
      (AList.update (in_identifier info) info (fst m),
       if in_owner info \<noteq> [] then AList.update (in_owner info) info (snd m) else snd m))"

definition Refresh :: "nat \<Rightarrow> node \<Rightarrow> u64 \<Rightarrow> candidate_index \<Rightarrow> candidate_index res" where
  "Refresh fuel nd height ix =
     bindE (allStakingCandidates fuel nd height) (\<lambda>cs.
       let m = fold index_candidate cs ([], [])
       in Inr \<lparr>ix_by_id = fst m, ix_by_owner = snd m, ix_height = height\<rparr>)"

definition Lookup :: "string \<Rightarrow> candidate_index \<Rightarrow> candidate_info option" where
  "Lookup identifier ix =
     (case map_of (ix_by_id ix) identifier of
        Some info \<Rightarrow> Some info
      | None \<Rightarrow> map_of (ix_by_owner ix) identifier)"

definition All :: "candidate_index \<Rightarrow> candidate_info list" where
  "All ix = map snd (ix_by_id ix)"

subsection \<open>State reads\<close>

text \<open>
  \<open>codes.NotFound\<close> says that the protocol has no such state; every other error of the call is
  a failure of the infrastructure.
\<close>

definition isStateNotFound :: "go_error \<Rightarrow> bool" where
  "isStateNotFound e \<longleftrightarrow> e = NotFound"

definition ErrNoSnapshot :: go_error where
  "ErrNoSnapshot = Err ''voter_reward: delegate has no reward snapshot''"

definition ErrNoPayoutRouting :: go_error where
  "ErrNoPayoutRouting = Err ''voter_reward: delegate has no payout routing''"

definition ReadDistributionState :: "node \<Rightarrow> u64 \<Rightarrow> distribution_state res" where
  "ReadDistributionState nd height =
     bindE (nd_read nd ''rewarding'' ''VoterRewardDistribution'' [] height) (nd_un_distribution nd)"

definition ReadDelegateSnapshot :: "node \<Rightarrow> string \<Rightarrow> u64 \<Rightarrow> delegate_snapshot res" where
  "ReadDelegateSnapshot nd delegate height =
     (case nd_read nd ''rewarding'' ''DelegateRewardSnapshot'' [delegate] height of
        Inl e \<Rightarrow> Inl (if isStateNotFound e then ErrNoSnapshot else e)
      | Inr data \<Rightarrow> bindE (nd_un_snapshot nd data) (\<lambda>s.
          Inr \<lparr>sn_block_bps = sp_block_bps s, sn_epoch_bps = sp_epoch_bps s,
            sn_configured = sp_configured s, sn_total_weight = Some (int (be_nat (sp_total_weight s))),
            sn_freeze_height = sp_freeze_height s, sn_self_bucket = sp_self_bucket s\<rparr>))"

record payout_routing =
  py_address :: string
  py_onchain :: bool

definition ReadPayoutAddress :: "protocol \<Rightarrow> node \<Rightarrow> string \<Rightarrow> u64 \<Rightarrow> payout_routing res" where
  "ReadPayoutAddress pr nd delegate height =
     (case nd_read nd ''rewarding'' ''DelegatePayoutAddress'' [delegate] height of
        Inl e \<Rightarrow> Inl (if isStateNotFound e then ErrNoPayoutRouting else e)
      | Inr data \<Rightarrow> bindE (nd_un_payout nd data) (\<lambda>out.
          bindE (addressString pr (pp_address out)) (\<lambda>a.
            Inr \<lparr>py_address = a, py_onchain = pp_onchain out\<rparr>)))"

subsection \<open>Lemmas\<close>

lemma candidate_pages_from:
  assumes node: "\<And>k. k * readCandidatesLimit \<le> length cs \<Longrightarrow>
      stakingCandidatePage nd (word_of_nat (k * readCandidatesLimit))
        (word_of_nat readCandidatesLimit) height
      = Inr (take readCandidatesLimit (drop (k * readCandidatesLimit) cs))"
  shows "i * readCandidatesLimit \<le> length cs \<Longrightarrow> length cs < (i + fuel) * readCandidatesLimit \<Longrightarrow>
    candidate_pages fuel nd height (word_of_nat i) (take (i * readCandidatesLimit) cs) = Inr cs"
proof (induction fuel arbitrary: i)
  case 0
  then show ?case by simp
next
  case (Suc fuel)
  let ?off = "i * readCandidatesLimit"
  let ?page = "take readCandidatesLimit (drop ?off cs)"
  from node [OF Suc.prems(1)]
  have page: "stakingCandidatePage nd (word_of_nat i * word_of_nat readCandidatesLimit)
      (word_of_nat readCandidatesLimit) height = Inr ?page" by simp
  have out: "take ?off cs @ ?page = take (Suc i * readCandidatesLimit) cs"
    by (simp only: take_add [symmetric] mult_Suc add.commute)
  show ?case
  proof (cases "length ?page < readCandidatesLimit")
    case True
    then have "length cs \<le> Suc i * readCandidatesLimit" by (auto simp: min_def split: if_splits)
    then have "take (Suc i * readCandidatesLimit) cs = cs" by simp
    then show ?thesis
      by (simp only: candidate_pages.simps page bindE_Inr True if_True out)
  next
    case False
    then have "readCandidatesLimit \<le> length cs - ?off" by (simp add: min_def split: if_splits)
    then have le: "Suc i * readCandidatesLimit \<le> length cs" using Suc.prems(1) by simp
    have "length cs < (Suc i + fuel) * readCandidatesLimit" using Suc.prems(2) by simp
    from Suc.IH [OF le this] have "candidate_pages fuel nd height (word_of_nat i + 1)
        (take (Suc i * readCandidatesLimit) cs) = Inr cs"
      by (simp add: add.commute)
    then show ?thesis
      by (simp only: candidate_pages.simps page bindE_Inr False if_False out)
  qed
qed

subsection \<open>Properties\<close>

text \<open>
  C35: Paging is complete and ends: against a node that serves the candidates of a height page by
  page at every offset the loop asks for, reading pages until one is short returns every
  candidate, in order and once, for any bound on the number of pages that covers them.
\<close>

theorem allStakingCandidates_complete:
  assumes "\<And>k. k * readCandidatesLimit \<le> length cs \<Longrightarrow>
      stakingCandidatePage nd (word_of_nat (k * readCandidatesLimit))
        (word_of_nat readCandidatesLimit) height
      = Inr (take readCandidatesLimit (drop (k * readCandidatesLimit) cs))"
    and "length cs < fuel * readCandidatesLimit"
  shows "allStakingCandidates fuel nd height = Inr cs"
  using candidate_pages_from [OF assms(1), of 0 fuel] assms(2)
  by (simp add: allStakingCandidates_def)

text \<open>A node with a full page and one more candidate.\<close>

definition example_candidate :: "string \<Rightarrow> candidate_v2" where
  "example_candidate s = \<lparr>cv_id = ''io_'' @ s, cv_name = s, cv_owner = ''io_o'', cv_reward = ''io_r'',
     cv_operator = ''io_p''\<rparr>"

definition two_page_node :: node where
  "two_page_node = \<lparr>nd_read = (\<lambda>_ _ _ _. Inl NotFound),
     nd_candidates = (\<lambda>off lim h. Inr (if off = 0 then [0] else [1])),
     nd_un_candidates = (\<lambda>d. Inr (if d = [0] then replicate 20000 (example_candidate ''a'')
                                  else [example_candidate ''b''])),
     nd_un_distribution = (\<lambda>_. Inl RpcError), nd_un_snapshot = (\<lambda>_. Inl RpcError),
     nd_un_payout = (\<lambda>_. Inl RpcError)\<rparr>"

theorem allStakingCandidates_complete_witness:
  "allStakingCandidates 2 two_page_node 9
     = Inr (replicate 20000 (example_candidate ''a'') @ [example_candidate ''b''])"
proof (rule allStakingCandidates_complete)
  fix k
  assume "k * readCandidatesLimit
    \<le> length (replicate 20000 (example_candidate ''a'') @ [example_candidate ''b''])"
  then have "k * 20000 \<le> 20001" by (simp add: readCandidatesLimit_def)
  then have "k = 0 \<or> k = 1" by linarith
  then show "stakingCandidatePage two_page_node (word_of_nat (k * readCandidatesLimit))
      (word_of_nat readCandidatesLimit) 9
    = Inr (take readCandidatesLimit (drop (k * readCandidatesLimit)
        (replicate 20000 (example_candidate ''a'') @ [example_candidate ''b''])))"
    by (auto simp: stakingCandidatePage_def two_page_node_def readCandidatesLimit_def)
qed (simp add: readCandidatesLimit_def)

end
