(* ===== verification/VoterReward.thy ===== *)
theory VoterReward
  imports VoterState TxSink
begin

text \<open>
  The voter reward plugin, service/voter_reward/plugin.go: its process state, the handling of
  a block and its logs, the reconciliation of an era with the state of the node, and the commit
  of a batch. Unlike the purely transactional plugins it gathers a batch in its process state
  first, so a method that fails half way leaves that state as it was at the failure.
\<close>

subsection \<open>Rows and tables\<close>

record vr_row =
  vd_height :: u64
  vd_epoch :: u64
  vd_era :: u64
  vd_action_hash :: string
  vd_log_index :: u32
  vd_row_index :: u32
  vd_delegate :: string
  vd_delegate_name :: string
  vd_voter :: string
  vd_recipient :: string
  vd_amount :: int
  vd_compounded :: bool
  vd_bucket :: u64

record vr_destination =
  vt_height :: u64
  vt_action_hash :: string
  vt_voter :: string
  vt_old :: string
  vt_new :: string

record vr_era =
  er_era :: u64
  er_freeze_height :: u64
  er_first_chunk :: u64
  er_completed :: u64
  er_scan_phase :: u32
  er_resume_voter :: string
  er_delegate_count :: u32
  er_voter_count :: u64
  er_total_frozen :: int
  er_total_distributed :: int
  er_overrun_residue :: int
  er_last_chunk :: u64

record vr_config =
  cg_delegate :: string
  cg_era :: u64
  cg_height :: u64
  cg_name :: string
  cg_opted_in :: bool
  cg_source :: string
  cg_opt_in_height :: u64
  cg_freeze_height :: u64
  cg_block_bps :: u64
  cg_epoch_bps :: u64
  cg_configured :: bool
  cg_total_weight :: int
  cg_voter_amount :: int
  cg_payout :: string

text \<open>
  The four tables. A configuration row is addressed by its unique index (delegate, era), a
  distribution row by its unique index (action hash, log index, row index).
\<close>

record vr_tables =
  vr_rows :: "vr_row list"
  vr_dests :: "vr_destination list"
  vr_eras :: "u64 \<rightharpoonup> vr_era"
  vr_configs :: "string \<times> u64 \<rightharpoonup> vr_config"

definition row_key :: "vr_row \<Rightarrow> string \<times> u32 \<times> u32" where
  "row_key r = (vd_action_hash r, vd_log_index r, vd_row_index r)"

definition cfg_key :: "vr_config \<Rightarrow> string \<times> u64" where
  "cfg_key c = (cg_delegate c, cg_era c)"

subsection \<open>The process state\<close>

text \<open>A Go map to true is a set of its keys, the map of pending eras a list in iteration order.\<close>

record vr_plugin =
  vp_tip :: u64
  vp_candidates :: candidate_index
  vp_opt_in_seen :: "string \<rightharpoonup> u64"
  vp_era_seen :: "u64 set"
  vp_era_done :: "u64 set"
  vp_chunk_eras :: "u64 set"
  vp_frozen_snaps :: "u64 \<rightharpoonup> (string \<rightharpoonup> delegate_snapshot)"
  vp_rows :: "vr_row list"
  vp_dests :: "vr_destination list"
  vp_eras :: "(u64 \<times> vr_era) list"
  vp_configs :: "vr_config list"
  vp_pending_seen :: "u64 set"
  vp_pending_done :: "u64 set"
  vp_state_pass :: "u64 set"
  vp_pending_state_pass :: "u64 set"

definition New :: vr_plugin where
  "New = \<lparr>vp_tip = 0, vp_candidates = NewCandidateIndex, vp_opt_in_seen = Map.empty,
     vp_era_seen = {}, vp_era_done = {}, vp_chunk_eras = {}, vp_frozen_snaps = Map.empty,
     vp_rows = [], vp_dests = [], vp_eras = [], vp_configs = [], vp_pending_seen = {},
     vp_pending_done = {}, vp_state_pass = {}, vp_pending_state_pass = {}\<rparr>"

text \<open>
  The surroundings: the protocol's codecs, the chain client (if one is configured), the epoch
  arithmetic of iotex-core's rolldpos protocol and \<open>protocol.IsEraBoundary\<close>.
\<close>

record vr_env =
  en_protocol :: protocol
  en_client :: "node option"
  en_page_fuel :: nat
  en_epoch_num :: "u64 \<Rightarrow> u64"
  en_epoch_height :: "u64 \<Rightarrow> u64"
  en_epoch_last :: "u64 \<Rightarrow> u64"
  en_era_boundary :: "u64 \<Rightarrow> bool"

definition no_client :: go_error where
  "no_client = Err ''voter_reward: no chain client configured''"

definition isEraSeen :: "u64 \<Rightarrow> vr_plugin \<Rightarrow> bool" where
  "isEraSeen era p \<longleftrightarrow> era \<in> vp_era_seen p \<or> era \<in> vp_pending_seen p"

definition isEraDone :: "u64 \<Rightarrow> vr_plugin \<Rightarrow> bool" where
  "isEraDone era p \<longleftrightarrow> era \<in> vp_era_done p \<or> era \<in> vp_pending_done p"

definition isEraStatePassed :: "u64 \<Rightarrow> vr_plugin \<Rightarrow> bool" where
  "isEraStatePassed era p \<longleftrightarrow> era \<in> vp_state_pass p \<or> era \<in> vp_pending_state_pass p"

definition new_era :: "u64 \<Rightarrow> vr_era" where
  "new_era era = \<lparr>er_era = era, er_freeze_height = 0, er_first_chunk = 0, er_completed = 0,
     er_scan_phase = 0, er_resume_voter = [], er_delegate_count = 0, er_voter_count = 0,
     er_total_frozen = 0, er_total_distributed = 0, er_overrun_residue = 0, er_last_chunk = 0\<rparr>"

text \<open>\<open>p.era(era)\<close> returns the pending row, made if missing; its callers then write fields of it.\<close>

definition era_pending :: "u64 \<Rightarrow> vr_plugin \<Rightarrow> vr_era" where
  "era_pending era p = (case map_of (vp_eras p) era of Some r \<Rightarrow> r | None \<Rightarrow> new_era era)"

definition on_era :: "u64 \<Rightarrow> (vr_era \<Rightarrow> vr_era) \<Rightarrow> vr_plugin \<Rightarrow> vr_plugin" where
  "on_era era f p = p\<lparr>vp_eras := AList.update era (f (era_pending era p)) (vp_eras p)\<rparr>"

subsection \<open>The configuration rows of an era\<close>

text \<open>
  \<open>frozenSnapshot\<close> prefers the freeze logs of the era. Where it errs the caller tells
  \<open>ErrNoSnapshot\<close> from every other error.
\<close>

definition frozenSnapshot ::
  "node \<Rightarrow> (string \<rightharpoonup> delegate_snapshot) option \<Rightarrow> string \<Rightarrow> u64 \<Rightarrow> delegate_snapshot res" where
  "frozenSnapshot nd logged delegate height =
     (case logged of
        Some m \<Rightarrow> (case m delegate of Some s \<Rightarrow> Inr s | None \<Rightarrow> Inl ErrNoSnapshot)
      | None \<Rightarrow> ReadDelegateSnapshot nd delegate height)"

definition base_config ::
  "(string \<rightharpoonup> int) \<Rightarrow> (string \<rightharpoonup> u64) \<Rightarrow> u64 \<Rightarrow> u64 \<Rightarrow> candidate_info \<Rightarrow> payout_routing \<Rightarrow> vr_config" where
  "base_config frozen seen era height info routing =
     \<lparr>cg_delegate = in_identifier info, cg_era = era, cg_height = height, cg_name = in_name info,
      cg_opted_in = py_onchain routing,
      cg_source = (if \<not> py_onchain routing then []
                   else if seen (in_identifier info) \<noteq> None then ''action'' else ''migration''),
      cg_opt_in_height = (if \<not> py_onchain routing then 0
                   else case seen (in_identifier info) of Some h \<Rightarrow> h | None \<Rightarrow> 0),
      cg_freeze_height = 0, cg_block_bps = 0, cg_epoch_bps = 0, cg_configured = False,
      cg_total_weight = 0,
      cg_voter_amount = (case frozen (in_identifier info) of Some a \<Rightarrow> a | None \<Rightarrow> 0),
      cg_payout = py_address routing\<rparr>"

definition with_snapshot :: "delegate_snapshot \<Rightarrow> vr_config \<Rightarrow> vr_config" where
  "with_snapshot s c = c\<lparr>cg_freeze_height := sn_freeze_height s, cg_block_bps := sn_block_bps s,
     cg_epoch_bps := sn_epoch_bps s, cg_configured := sn_configured s,
     cg_total_weight := dec (sn_total_weight s)\<rparr>"

text \<open>The loop over the candidates; \<open>fh\<close> and \<open>n\<close> are its freeze height and opted-in count.\<close>

fun snapshot_configs ::
  "vr_env \<Rightarrow> node \<Rightarrow> u64 \<Rightarrow> u64 \<Rightarrow> (string \<rightharpoonup> int) \<Rightarrow> (string \<rightharpoonup> delegate_snapshot) option \<Rightarrow>
   candidate_info list \<Rightarrow> u64 \<Rightarrow> nat \<Rightarrow> vr_plugin \<Rightarrow> (u64 \<times> nat) res \<times> vr_plugin" where
  "snapshot_configs en nd era height frozen logged [] fh n p = (Inr (fh, n), p)"
| "snapshot_configs en nd era height frozen logged (info # infos) fh n p =
     (case ReadPayoutAddress (en_protocol en) nd (in_identifier info) height of
        Inl e \<Rightarrow>
          if e = ErrNoPayoutRouting
          then snapshot_configs en nd era height frozen logged infos fh n p
          else (Inl e, p)
      | Inr routing \<Rightarrow>
          let cfg = base_config frozen (vp_opt_in_seen p) era height info routing;
              n' = (if py_onchain routing then n + 1 else n)
          in (case frozenSnapshot nd logged (in_identifier info) height of
                Inr s \<Rightarrow> snapshot_configs en nd era height frozen logged infos
                  (sn_freeze_height s) n' (p\<lparr>vp_configs := vp_configs p @ [with_snapshot s cfg]\<rparr>)
              | Inl e \<Rightarrow>
                  if e = ErrNoSnapshot
                  then snapshot_configs en nd era height frozen logged infos fh n'
                         (p\<lparr>vp_configs := vp_configs p @ [cfg]\<rparr>)
                  else (Inl e, p)))"

definition snapshotDelegateConfigs ::
  "vr_env \<Rightarrow> node \<Rightarrow> u64 \<Rightarrow> u64 \<Rightarrow> (string \<rightharpoonup> int) \<Rightarrow> vr_plugin \<Rightarrow> (u64 \<times> nat) res \<times> vr_plugin" where
  "snapshotDelegateConfigs en nd era height frozen p =
     snapshot_configs en nd era height frozen (vp_frozen_snaps p era) (All (vp_candidates p)) 0 0 p"

subsection \<open>The plan of an era\<close>

definition sum_allocations ::
  "protocol \<Rightarrow> (byte list \<times> byte list) list \<Rightarrow> (int \<times> (string \<rightharpoonup> int)) res" where
  "sum_allocations pr allocs =
     foldE (\<lambda>(i, a) (tot, frozen).
       bindE (addressString pr i) (\<lambda>s.
         Inr (tot + bytesToDec a, frozen(s \<mapsto> bytesToDec a)))) allocs (0, Map.empty)"

definition plan_era ::
  "vr_env \<Rightarrow> node \<Rightarrow> distribution_state \<Rightarrow> u64 \<Rightarrow> u64 \<Rightarrow> vr_plugin \<Rightarrow> unit res \<times> vr_plugin" where
  "plan_era en nd st era height =
     bindS (updS (on_era era (\<lambda>r. r\<lparr>er_freeze_height := ds_freeze_height st,
              er_scan_phase := ds_scan_phase st,
              er_first_chunk := (if er_first_chunk r = 0 then height else er_first_chunk r)\<rparr>))) (\<lambda>_.
     bindS (decodedS (sum_allocations (en_protocol en) (ds_allocs st))) (\<lambda>(tot, frozen).
     bindS (updS (on_era era (\<lambda>r. r\<lparr>er_total_frozen := tot\<rparr>))) (\<lambda>_.
     bindS (snapshotDelegateConfigs en nd era height frozen) (\<lambda>(fh, n).
     bindS (updS (on_era era (\<lambda>r. r\<lparr>er_delegate_count := word_of_nat n\<rparr>))) (\<lambda>_.
       updS (\<lambda>p. p\<lparr>vp_pending_seen := insert era (vp_pending_seen p)\<rparr>))))))"

definition ensureEraPlan :: "vr_env \<Rightarrow> u64 \<Rightarrow> u64 \<Rightarrow> vr_plugin \<Rightarrow> unit res \<times> vr_plugin" where
  "ensureEraPlan en era height p =
     (if isEraSeen era p then (Inr (), p)
      else case en_client en of
        None \<Rightarrow> (Inl no_client, p)
      | Some nd \<Rightarrow>
        (case ReadDistributionState nd height of
           Inl e \<Rightarrow> (Inl e, p)
         | Inr st \<Rightarrow>
             if ds_target_era st \<noteq> era then (Inr (), p) else plan_era en nd st era height p))"

subsection \<open>Logs\<close>

definition distribution_vr_row ::
  "vr_plugin \<Rightarrow> u64 \<Rightarrow> u64 \<Rightarrow> string \<Rightarrow> u32 \<Rightarrow> distribution_row \<Rightarrow> vr_row" where
  "distribution_vr_row p height epoch act_hash log_index r =
     \<lparr>vd_height = height, vd_epoch = epoch, vd_era = dr_era r, vd_action_hash = act_hash,
      vd_log_index = log_index, vd_row_index = dr_row_index r, vd_delegate = dr_delegate r,
      vd_delegate_name = (case Lookup (dr_delegate r) (vp_candidates p) of
                            Some info \<Rightarrow> in_name info | None \<Rightarrow> []),
      vd_voter = dr_voter r, vd_recipient = dr_recipient r, vd_amount = dec (dr_amount r),
      vd_compounded = dr_compounded r, vd_bucket = dr_bucket r\<rparr>"

definition consume_row ::
  "vr_env \<Rightarrow> u64 \<Rightarrow> u64 \<Rightarrow> string \<Rightarrow> u32 \<Rightarrow> distribution_row \<Rightarrow> vr_plugin \<Rightarrow> unit res \<times> vr_plugin" where
  "consume_row en height epoch act_hash log_index r p =
     ensureEraPlan en (dr_era r) height
       (on_era (dr_era r)
          (\<lambda>e. e\<lparr>er_voter_count := er_voter_count e + 1,
             er_total_distributed := er_total_distributed e + dec (dr_amount r),
             er_last_chunk := height\<rparr>)
          (p\<lparr>vp_rows := vp_rows p @ [distribution_vr_row p height epoch act_hash log_index r]\<rparr>))"

definition recordFrozenSnapshot :: "frozen_snapshot \<Rightarrow> vr_plugin \<Rightarrow> vr_plugin" where
  "recordFrozenSnapshot f p =
     p\<lparr>vp_frozen_snaps := (vp_frozen_snaps p)(fz_era f \<mapsto>
        (case vp_frozen_snaps p (fz_era f) of Some m \<Rightarrow> m | None \<Rightarrow> Map.empty)
          (fz_delegate f \<mapsto> fz_snapshot f))\<rparr>"

definition record_opt_in :: "string \<Rightarrow> u64 \<Rightarrow> vr_plugin \<Rightarrow> vr_plugin" where
  "record_opt_in cand height p =
     (if cand = [] \<or> vp_opt_in_seen p cand \<noteq> None then p
      else p\<lparr>vp_opt_in_seen := (vp_opt_in_seen p)(cand \<mapsto> height)\<rparr>)"

definition record_destination ::
  "u64 \<Rightarrow> string \<Rightarrow> destination_change \<Rightarrow> vr_plugin \<Rightarrow> vr_plugin" where
  "record_destination height act_hash c p =
     p\<lparr>vp_dests := vp_dests p @ [\<lparr>vt_height = height, vt_action_hash = act_hash,
        vt_voter = dc_voter c, vt_old = dc_old c, vt_new = dc_new c\<rparr>]\<rparr>"

definition record_progress ::
  "vr_env \<Rightarrow> u64 \<Rightarrow> cursor_progress \<Rightarrow> vr_plugin \<Rightarrow> unit res \<times> vr_plugin" where
  "record_progress en height c p =
     (let p1 = on_era (cp_era c) (\<lambda>e. e\<lparr>er_scan_phase := cp_phase c,
                  er_resume_voter := cp_resume_voter c, er_last_chunk := height\<rparr>) p
      in ensureEraPlan en (cp_era c) height
           (p1\<lparr>vp_chunk_eras := insert (cp_era c) (vp_chunk_eras p1)\<rparr>))"

definition consumeLog ::
  "vr_env \<Rightarrow> u64 \<Rightarrow> u64 \<Rightarrow> string \<Rightarrow> u32 \<Rightarrow> log \<Rightarrow> vr_plugin \<Rightarrow> unit res \<times> vr_plugin" where
  "consumeLog en height epoch act_hash log_index l =
     (let pr = en_protocol en in
      bindS (decodedS (DecodeDistribution pr l)) (\<lambda>rows.
      bindS (eachS (consume_row en height epoch act_hash log_index) rows) (\<lambda>_.
      bindS (decodedS (DecodeOptIn pr l)) (\<lambda>cand.
      bindS (updS (record_opt_in cand height)) (\<lambda>_.
      bindS (decodedS (DecodeFreeze pr l)) (\<lambda>frozen.
      bindS (updS (case frozen of None \<Rightarrow> id | Some f \<Rightarrow> recordFrozenSnapshot f)) (\<lambda>_.
      bindS (decodedS (DecodeDestination pr l)) (\<lambda>change.
      bindS (updS (case change of None \<Rightarrow> id | Some c \<Rightarrow> record_destination height act_hash c)) (\<lambda>_.
      bindS (decodedS (DecodeRewardBookkeeping pr l)) (\<lambda>(progress, overrun).
      bindS (case progress of None \<Rightarrow> updS id | Some c \<Rightarrow> record_progress en height c) (\<lambda>_.
        updS (case overrun of
                None \<Rightarrow> id
              | Some d \<Rightarrow> on_era (do_era d) (\<lambda>e. e\<lparr>er_overrun_residue := do_residue d\<rparr>)))))))))))))"

subsection \<open>Blocks\<close>

definition ScanPhaseDone :: u32 where
  "ScanPhaseDone = 2"

definition refreshChunkedEras :: "vr_env \<Rightarrow> u64 \<Rightarrow> vr_plugin \<Rightarrow> unit res \<times> vr_plugin" where
  "refreshChunkedEras en height p =
     (if \<forall>era \<in> vp_chunk_eras p. isEraDone era p then (Inr (), p)
      else case en_client en of
        None \<Rightarrow> (Inl no_client, p)
      | Some nd \<Rightarrow>
        (case ReadDistributionState nd height of
           Inl e \<Rightarrow> (Inl e, p)
         | Inr st \<Rightarrow>
           let era = ds_target_era st in
           if era \<notin> vp_chunk_eras p then (Inr (), p)
           else
             let p1 = on_era era (\<lambda>r. r\<lparr>er_scan_phase := ds_scan_phase st,
                        er_resume_voter := hexOrEmpty (ds_resume_voter st)\<rparr>) p
             in if ds_completed st \<or> ds_scan_phase st = ScanPhaseDone
                then (Inr (), on_era era
                        (\<lambda>r. r\<lparr>er_completed := (if ds_completed_height st \<noteq> 0
                                 then ds_completed_height st else height)\<rparr>)
                        (if isEraDone era p1 then p1
                         else p1\<lparr>vp_pending_done := insert era (vp_pending_done p1)\<rparr>))
                else (Inr (), p1)))"

definition indexFrozenEra :: "vr_env \<Rightarrow> u64 \<Rightarrow> u64 \<Rightarrow> vr_plugin \<Rightarrow> unit res \<times> vr_plugin" where
  "indexFrozenEra en height epoch p =
     (if \<not> en_era_boundary en epoch \<or> height \<noteq> en_epoch_last en epoch
         \<or> isEraStatePassed epoch p \<or> isEraSeen epoch p
      then (Inr (), p)
      else case en_client en of
        None \<Rightarrow> (Inl no_client, p)
      | Some nd \<Rightarrow>
        (case snapshotDelegateConfigs en nd epoch height Map.empty p of
           (Inl e, p1) \<Rightarrow> (Inl e, p1)
         | (Inr (fh, n), p1) \<Rightarrow>
             if fh = 0 then (Inr (), p1)
             else (Inr (), on_era epoch
                     (\<lambda>r. r\<lparr>er_freeze_height := fh, er_delegate_count := word_of_nat n\<rparr>)
                     (p1\<lparr>vp_pending_state_pass := insert epoch (vp_pending_state_pass p1)\<rparr>))))"

definition refreshCandidatesIfNeeded ::
  "vr_env \<Rightarrow> u64 \<Rightarrow> u64 \<Rightarrow> vr_plugin \<Rightarrow> unit res \<times> vr_plugin" where
  "refreshCandidatesIfNeeded en height epoch p =
     (if height \<noteq> en_epoch_height en epoch \<and> ix_height (vp_candidates p) \<noteq> 0 then (Inr (), p)
      else case en_client en of
        None \<Rightarrow> (Inl no_client, p)
      | Some nd \<Rightarrow>
        (case Refresh (en_page_fuel en) nd (if height > 0 then height - 1 else height)
                (vp_candidates p) of
           Inl e \<Rightarrow> (Inl e, p)
         | Inr ix \<Rightarrow> (Inr (), p\<lparr>vp_candidates := ix\<rparr>)))"

definition indexed_logs :: "receipt \<Rightarrow> (string \<times> u32 \<times> log) list" where
  "indexed_logs r =
     map (\<lambda>(i, l). (hex_encode (r_action_hash r), word_of_nat i, l)) (enumerate 0 (r_logs r))"

definition putBlock :: "vr_env \<Rightarrow> block \<Rightarrow> vr_plugin \<Rightarrow> unit res \<times> vr_plugin" where
  "putBlock en blk =
     (let height = b_height blk; epoch = en_epoch_num en height in
      bindS (refreshCandidatesIfNeeded en height epoch) (\<lambda>_.
      bindS (updS (\<lambda>p. p\<lparr>vp_chunk_eras := {}\<rparr>)) (\<lambda>_.
      bindS (eachS (\<lambda>r. eachS (\<lambda>(act_hash, i, l). consumeLog en height epoch act_hash i l)
                              (indexed_logs r)) (b_receipts blk)) (\<lambda>_.
      bindS (refreshChunkedEras en height) (\<lambda>_.
        indexFrozenEra en height epoch)))))"

subsection \<open>The commit of a batch\<close>

text \<open>\<open>dedupeConfigs\<close>: \<open>at\<close> remembers where in \<open>out\<close> the row of a key is.\<close>

definition dedupe_step ::
  "vr_config \<Rightarrow> (string \<times> u64 \<rightharpoonup> nat) \<times> vr_config list \<Rightarrow> (string \<times> u64 \<rightharpoonup> nat) \<times> vr_config list" where
  "dedupe_step c s =
     (case s of (at, out) \<Rightarrow>
        (case at (cfg_key c) of
           Some i \<Rightarrow> (at, out[i := c])
         | None \<Rightarrow> (at(cfg_key c \<mapsto> length out), out @ [c])))"

definition dedupeConfigs :: "vr_config list \<Rightarrow> vr_config list" where
  "dedupeConfigs configs =
     (if length configs < 2 then configs else snd (fold dedupe_step configs (Map.empty, [])))"

text \<open>\<open>CreateInBatches(_, 200)\<close>: one statement for each 200 rows.\<close>

function batches :: "'a list \<Rightarrow> 'a list list" where
  "batches xs = (if xs = [] then [] else take 200 xs # batches (drop 200 xs))"
  by auto
termination by (relation "measure length") auto

declare batches.simps [simp del]

text \<open>ON CONFLICT DO NOTHING on the unique index.\<close>

definition insert_row :: "vr_row \<Rightarrow> vr_row list \<Rightarrow> vr_row list" where
  "insert_row r rows = (if row_key r \<in> row_key ` set rows then rows else rows @ [r])"

text \<open>
  ON CONFLICT DO UPDATE of every column but the attribution of the opt-in. Postgres refuses a
  statement that names one conflict target twice.
\<close>

definition upsert_config :: "vr_config \<Rightarrow> vr_tables \<Rightarrow> vr_tables" where
  "upsert_config c t =
     t\<lparr>vr_configs := (vr_configs t)(cfg_key c \<mapsto>
        (case vr_configs t (cfg_key c) of
           None \<Rightarrow> c
         | Some old \<Rightarrow> c\<lparr>cg_source := cg_source old, cg_opt_in_height := cg_opt_in_height old\<rparr>))\<rparr>"

definition upsert_configs :: "vr_config list \<Rightarrow> vr_tables \<Rightarrow> vr_tables res" where
  "upsert_configs cs t =
     foldE (\<lambda>chunk t. if distinct (map cfg_key chunk) then Inr (fold upsert_config chunk t)
                      else Inl DbError) (batches cs) t"

definition upgrade_one :: "vr_config \<Rightarrow> vr_tables \<Rightarrow> vr_tables" where
  "upgrade_one c t =
     (if cg_source c = [] then t
      else case vr_configs t (cfg_key c) of
        None \<Rightarrow> t
      | Some old \<Rightarrow>
          if (if cg_source c = ''migration'' then cg_source old = [] else cg_source old \<noteq> ''action'')
          then t\<lparr>vr_configs := (vr_configs t)(cfg_key c \<mapsto>
                  old\<lparr>cg_source := cg_source c, cg_opt_in_height := cg_opt_in_height c\<rparr>)\<rparr>
          else t)"

definition upgradeOptInAttribution :: "vr_config list \<Rightarrow> vr_tables \<Rightarrow> vr_tables" where
  "upgradeOptInAttribution = fold upgrade_one"

definition merge_era :: "vr_era \<Rightarrow> vr_era \<Rightarrow> vr_era" where
  "merge_era era old =
     (let r1 = old\<lparr>er_voter_count := er_voter_count old + er_voter_count era,
                   er_total_distributed := er_total_distributed old + er_total_distributed era\<rparr>;
          r2 = (if er_last_chunk era > er_last_chunk r1
                then r1\<lparr>er_last_chunk := er_last_chunk era, er_scan_phase := er_scan_phase era,
                        er_resume_voter := er_resume_voter era\<rparr> else r1);
          r3 = (if er_freeze_height era \<noteq> 0
                then r2\<lparr>er_freeze_height := er_freeze_height era,
                        er_delegate_count := er_delegate_count era,
                        er_total_frozen := er_total_frozen era\<rparr> else r2);
          r4 = (if er_first_chunk era \<noteq> 0 \<and> er_first_chunk r3 = 0
                then r3\<lparr>er_first_chunk := er_first_chunk era\<rparr> else r3);
          r5 = (if er_completed era \<noteq> 0 then r4\<lparr>er_completed := er_completed era\<rparr> else r4)
      in if er_overrun_residue era \<noteq> 0
         then r5\<lparr>er_overrun_residue := er_overrun_residue era\<rparr> else r5)"

definition upsertEra :: "vr_era \<Rightarrow> vr_tables \<Rightarrow> vr_tables" where
  "upsertEra era t =
     t\<lparr>vr_eras := (vr_eras t)(er_era era \<mapsto>
        (case vr_eras t (er_era era) of None \<Rightarrow> era | Some old \<Rightarrow> merge_era era old))\<rparr>"

definition write_batch ::
  "vr_row list \<Rightarrow> vr_destination list \<Rightarrow> vr_era list \<Rightarrow> vr_config list \<Rightarrow> vr_tables \<Rightarrow> vr_tables res" where
  "write_batch rows dests eras configs t =
     (let t1 = t\<lparr>vr_rows := fold insert_row rows (vr_rows t), vr_dests := vr_dests t @ dests\<rparr>;
          t2 = fold upsertEra eras t1
      in if configs = [] then Inr t2
         else bindE (upsert_configs configs t2) (\<lambda>t3. Inr (upgradeOptInAttribution configs t3)))"

definition promotePendingMemos :: "vr_plugin \<Rightarrow> vr_plugin" where
  "promotePendingMemos p =
     (let seen = vp_era_seen p \<union> vp_pending_seen p;
          pass = vp_state_pass p \<union> vp_pending_state_pass p
      in p\<lparr>vp_era_seen := seen, vp_era_done := vp_era_done p \<union> vp_pending_done p,
           vp_state_pass := pass,
           vp_frozen_snaps := vp_frozen_snaps p |` (- (seen \<union> pass)),
           vp_pending_seen := {}, vp_pending_done := {}, vp_pending_state_pass := {}\<rparr>)"

definition dropPendingMemos :: "vr_plugin \<Rightarrow> vr_plugin" where
  "dropPendingMemos p =
     p\<lparr>vp_pending_seen := {}, vp_pending_done := {}, vp_pending_state_pass := {}\<rparr>"

definition clear_pending :: "vr_plugin \<Rightarrow> vr_plugin" where
  "clear_pending p = p\<lparr>vp_rows := [], vp_dests := [], vp_configs := [], vp_eras := []\<rparr>"

text \<open>The plugin's state and the world it writes to; \<open>f\<close> are the statements refused.\<close>

definition commit ::
  "tx_faults \<Rightarrow> string \<Rightarrow> vr_plugin \<times> vr_tables world \<Rightarrow> unit res \<times> vr_plugin \<times> vr_tables world" where
  "commit f name s =
     (case s of (p, w) \<Rightarrow>
        (case index_tx f name (Inr (vp_tip p))
                (write_batch (vp_rows p) (vp_dests p) (map snd (vp_eras p))
                   (dedupeConfigs (vp_configs p))) w of
           (Inl e, w') \<Rightarrow> (Inl e, dropPendingMemos (clear_pending p), w')
         | (Inr u, w') \<Rightarrow> (Inr u, promotePendingMemos (clear_pending p), w')))"

definition vr_PutBlocks ::
  "vr_env \<Rightarrow> tx_faults \<Rightarrow> string \<Rightarrow> block list \<Rightarrow> vr_plugin \<times> vr_tables world \<Rightarrow>
   unit res \<times> vr_plugin \<times> vr_tables world" where
  "vr_PutBlocks en f name blks s =
     (case s of (p, w) \<Rightarrow>
        (case eachS (putBlock en) blks p of
           (Inl e, p') \<Rightarrow> (Inl e, p', w)
         | (Inr u, p') \<Rightarrow>
             (case last_elem blks of
                Inl e \<Rightarrow> (Inl e, p', w)
              | Inr b \<Rightarrow> commit f name (p'\<lparr>vp_tip := b_height b\<rparr>, w))))"

definition vr_PutBlock ::
  "vr_env \<Rightarrow> tx_faults \<Rightarrow> string \<Rightarrow> block \<Rightarrow> vr_plugin \<times> vr_tables world \<Rightarrow>
   unit res \<times> vr_plugin \<times> vr_tables world" where
  "vr_PutBlock en f name b s =
     (case s of (p, w) \<Rightarrow>
        (case putBlock en b p of
           (Inl e, p') \<Rightarrow> (Inl e, p', w)
         | (Inr u, p') \<Rightarrow> commit f name (p'\<lparr>vp_tip := b_height b\<rparr>, w)))"

text \<open>After a restart: the opt-ins seen, from the rows the database still has, in its order.\<close>

definition rehydrateOptIns :: "vr_config list res \<Rightarrow> vr_plugin \<Rightarrow> unit res \<times> vr_plugin" where
  "rehydrateOptIns found p =
     (case found of
        Inl e \<Rightarrow> (Inl e, p)
      | Inr rows \<Rightarrow>
          (Inr (), p\<lparr>vp_opt_in_seen :=
             fold (\<lambda>r m. if m (cg_delegate r) = None then m(cg_delegate r \<mapsto> cg_opt_in_height r) else m)
               (filter (\<lambda>r. cg_source r = ''action'') rows) (vp_opt_in_seen p)\<rparr>))"

end
