(* ===== verification/VoterLedger.thy ===== *)
theory VoterLedger
  imports VoterReward
begin

text \<open>
  What the voter reward plugin keeps true: its pending batch adds up, the era totals agree with
  the payout rows, the memos never run ahead of the database, an opt-in keeps its attribution,
  and what a failed batch leaves behind.
\<close>

named_theorems voter_defs \<open>definitions of the voter reward plugin's small operations\<close>

declare decodedS_def [voter_defs] updS_def [voter_defs] record_opt_in_def [voter_defs]
  recordFrozenSnapshot_def [voter_defs] record_destination_def [voter_defs]

subsection \<open>The pending rows of eras\<close>

lemma era_pending_on_era [simp]:
  "era_pending e' (on_era e f p) = (if e' = e then f (era_pending e p) else era_pending e' p)"
  by (simp add: era_pending_def on_era_def update_conv')

lemma on_era_other [simp]:
  "vp_rows (on_era e f p) = vp_rows p"
  "vp_dests (on_era e f p) = vp_dests p"
  "vp_configs (on_era e f p) = vp_configs p"
  "vp_pending_seen (on_era e f p) = vp_pending_seen p"
  "vp_era_seen (on_era e f p) = vp_era_seen p"
  "vp_pending_done (on_era e f p) = vp_pending_done p"
  "vp_chunk_eras (on_era e f p) = vp_chunk_eras p"
  "vp_candidates (on_era e f p) = vp_candidates p"
  "vp_opt_in_seen (on_era e f p) = vp_opt_in_seen p"
  by (simp_all add: on_era_def)

lemma map_of_on_era [simp]:
  "map_of (vp_eras (on_era e f p)) = (map_of (vp_eras p))(e \<mapsto> f (era_pending e p))"
  by (simp add: on_era_def update_conv')

text \<open>
  The pending batch adds up: each pending era row is filed under its era and sums and counts
  the pending payout rows of that era, and an era whose plan is memoised has its row with the
  height of its first chunk.
\<close>

definition era_rows :: "u64 \<Rightarrow> vr_row \<Rightarrow> bool" where
  "era_rows e r \<longleftrightarrow> vd_era r = e"

definition pending_ok :: "vr_plugin \<Rightarrow> bool" where
  "pending_ok p \<longleftrightarrow>
     distinct (map fst (vp_eras p)) \<and> (\<forall>e r. map_of (vp_eras p) e = Some r \<longrightarrow> er_era r = e) \<and>
     (\<forall>e. er_total_distributed (era_pending e p) = sum_rows (era_rows e) vd_amount (vp_rows p)) \<and>
     (\<forall>e. er_voter_count (era_pending e p) = word_of_nat (length (filter (era_rows e) (vp_rows p)))) \<and>
     (\<forall>e \<in> vp_pending_seen p. \<exists>r. map_of (vp_eras p) e = Some r \<and> er_first_chunk r \<noteq> 0)"

text \<open>Changes of an era row that leave its sum, its count and its first chunk alone.\<close>

definition harmless :: "(vr_era \<Rightarrow> vr_era) \<Rightarrow> bool" where
  "harmless f \<longleftrightarrow> (\<forall>r. er_era (f r) = er_era r \<and> er_total_distributed (f r) = er_total_distributed r
     \<and> er_voter_count (f r) = er_voter_count r \<and> (er_first_chunk r \<noteq> 0 \<longrightarrow> er_first_chunk (f r) \<noteq> 0))"

lemma era_pending_era: "pending_ok p \<Longrightarrow> er_era (era_pending e p) = e"
  by (cases "map_of (vp_eras p) e") (auto simp: era_pending_def pending_ok_def new_era_def)

lemma distinct_on_era: "distinct (map fst (vp_eras p)) \<Longrightarrow> distinct (map fst (vp_eras (on_era e f p)))"
  by (simp add: on_era_def distinct_update)

lemma pending_ok_on_era:
  assumes "pending_ok p" and "harmless f"
  shows "pending_ok (on_era e f p)"
proof -
  have "er_first_chunk (f (era_pending e p)) \<noteq> 0" if "e \<in> vp_pending_seen p"
  proof -
    from that assms(1) obtain r where r: "map_of (vp_eras p) e = Some r" "er_first_chunk r \<noteq> 0"
      by (auto simp: pending_ok_def)
    then show ?thesis using assms(2) by (simp add: harmless_def era_pending_def)
  qed
  then show ?thesis
    using assms era_pending_era [OF assms(1), of e] distinct_on_era [of p e f]
    by (auto simp: pending_ok_def harmless_def)
qed

lemma pending_ok_frame:
  "pending_ok (p\<lparr>vp_configs := cs\<rparr>) = pending_ok p"
  "pending_ok (p\<lparr>vp_candidates := ix\<rparr>) = pending_ok p"
  "pending_ok (p\<lparr>vp_chunk_eras := ce\<rparr>) = pending_ok p"
  "pending_ok (p\<lparr>vp_pending_done := pd\<rparr>) = pending_ok p"
  "pending_ok (p\<lparr>vp_pending_state_pass := ps\<rparr>) = pending_ok p"
  "pending_ok (p\<lparr>vp_opt_in_seen := os\<rparr>) = pending_ok p"
  "pending_ok (p\<lparr>vp_frozen_snaps := fs\<rparr>) = pending_ok p"
  "pending_ok (p\<lparr>vp_dests := ds\<rparr>) = pending_ok p"
  "pending_ok (p\<lparr>vp_tip := h\<rparr>) = pending_ok p"
  by (simp_all add: pending_ok_def era_pending_def)

text \<open>The configuration pass only appends configuration rows.\<close>

lemma snapshot_configs_frame:
  "snapshot_configs en nd era height frozen logged infos fh n p = (r, p') \<Longrightarrow>
   \<exists>cs. p' = p\<lparr>vp_configs := cs\<rparr>"
proof (induction infos arbitrary: fh n p)
  case Nil
  then show ?case by (metis prod.inject snapshot_configs.simps(1) vr_plugin.surjective
        vr_plugin.update_convs(11))
next
  case (Cons info infos)
  have self: "\<exists>cs. p = p\<lparr>vp_configs := cs\<rparr>" by (rule exI [where x = "vp_configs p"]) simp
  show ?case
    using Cons.prems self Cons.IH
    by (auto simp: Let_def split: sum.splits if_splits) fastforce+
qed

lemma snapshotDelegateConfigs_frame:
  "snapshotDelegateConfigs en nd era height frozen p = (r, p') \<Longrightarrow> \<exists>cs. p' = p\<lparr>vp_configs := cs\<rparr>"
  unfolding snapshotDelegateConfigs_def by (rule snapshot_configs_frame)

text \<open>
  What \<open>ensureEraPlan\<close> does, whether it fails or not: harmless changes of the era's row and
  appended configuration rows; the memo is set only once the row has its first chunk.
\<close>

definition planned :: "u64 \<Rightarrow> vr_plugin \<Rightarrow> bool" where
  "planned era p \<longleftrightarrow> pending_ok p \<and> (\<exists>r. map_of (vp_eras p) era = Some r \<and> er_first_chunk r \<noteq> 0)"

lemma planned_on_era:
  assumes "planned era p" and "harmless f"
  shows "planned era (on_era era f p)"
proof -
  from assms(1) obtain r where r: "map_of (vp_eras p) era = Some r" "er_first_chunk r \<noteq> 0"
    by (auto simp: planned_def)
  then have "er_first_chunk (f (era_pending era p)) \<noteq> 0"
    using assms(2) by (simp add: harmless_def era_pending_def)
  then show ?thesis
    using pending_ok_on_era [OF _ assms(2)] assms(1) by (simp add: planned_def)
qed

lemma keeps_snapshotDelegateConfigs: "keeps (planned e) (snapshotDelegateConfigs en nd era height frozen)"
  by (rule keepsI)
    (auto simp: planned_def pending_ok_frame dest!: snapshotDelegateConfigs_frame)

lemma keeps_plan_era:
  assumes "height \<noteq> 0"
  shows "keeps pending_ok (plan_era en nd st era height)"
proof (rule keepsI)
  fix p x t
  assume ok: "pending_ok p" and run: "plan_era en nd st era height p = (x, t)"
  let ?plan = "\<lambda>r. r\<lparr>er_freeze_height := ds_freeze_height st, er_scan_phase := ds_scan_phase st,
    er_first_chunk := (if er_first_chunk r = 0 then height else er_first_chunk r)\<rparr>"
  have "pending_ok (on_era era ?plan p)"
    using ok by (rule pending_ok_on_era) (use assms in \<open>simp add: harmless_def\<close>)
  then have start: "planned era (on_era era ?plan p)"
    using assms by (simp add: planned_def)
  let ?rest = "bindS (decodedS (sum_allocations (en_protocol en) (ds_allocs st))) (\<lambda>(tot, frozen).
     bindS (updS (on_era era (\<lambda>r. r\<lparr>er_total_frozen := tot\<rparr>))) (\<lambda>_.
     bindS (snapshotDelegateConfigs en nd era height frozen) (\<lambda>(fh, n).
     bindS (updS (on_era era (\<lambda>r. r\<lparr>er_delegate_count := word_of_nat n\<rparr>))) (\<lambda>_.
       updS (\<lambda>p. p\<lparr>vp_pending_seen := insert era (vp_pending_seen p)\<rparr>)))))"
  have "keeps (planned era) ?rest"
    by (intro keeps_bindS keeps_decodedS keeps_updS keeps_snapshotDelegateConfigs planned_on_era
        | clarsimp simp: harmless_def split del: if_split
        | (auto simp: planned_def pending_ok_def era_pending_def)[1])+
  with start run have "planned era t"
    unfolding plan_era_def bindS_updS by (blast intro: keepsD)
  then show "pending_ok t" by (simp add: planned_def)
qed

lemma keeps_ensureEraPlan:
  assumes "height \<noteq> 0"
  shows "keeps pending_ok (ensureEraPlan en era height)"
  using keeps_plan_era [OF assms]
  by (auto simp: keeps_def ensureEraPlan_def split: option.splits sum.splits)

lemma keeps_consume_row:
  assumes "height \<noteq> 0"
  shows "keeps pending_ok (consume_row en height epoch act_hash log_index r)"
proof (rule keepsI)
  fix p x t
  assume ok: "pending_ok p" and run: "consume_row en height epoch act_hash log_index r p = (x, t)"
  let ?f = "\<lambda>e. e\<lparr>er_voter_count := er_voter_count e + 1,
     er_total_distributed := er_total_distributed e + dec (dr_amount r), er_last_chunk := height\<rparr>"
  let ?row = "distribution_vr_row p height epoch act_hash log_index r"
  let ?p1 = "on_era (dr_era r) ?f (p\<lparr>vp_rows := vp_rows p @ [?row]\<rparr>)"
  have pend: "era_pending e (p\<lparr>vp_rows := rs\<rparr>) = era_pending e p" for e rs
    by (simp add: era_pending_def)
  have "er_first_chunk (?f (era_pending (dr_era r) p)) \<noteq> 0" if "dr_era r \<in> vp_pending_seen p"
    using that ok by (auto simp: pending_ok_def era_pending_def)
  then have "pending_ok ?p1"
    using ok era_pending_era [OF ok, of "dr_era r"]
      distinct_on_era [of "p\<lparr>vp_rows := vp_rows p @ [?row]\<rparr>" "dr_era r" ?f]
    by (auto simp: pending_ok_def pend era_rows_def distribution_vr_row_def)
  with run show "pending_ok t"
    using keeps_ensureEraPlan [OF assms] unfolding consume_row_def by (blast intro: keepsD)
qed

lemma keeps_record_progress:
  assumes "height \<noteq> 0"
  shows "keeps pending_ok (record_progress en height c)"
proof (rule keepsI)
  fix p x t
  assume ok: "pending_ok p" and run: "record_progress en height c p = (x, t)"
  let ?f = "\<lambda>e. e\<lparr>er_scan_phase := cp_phase c, er_resume_voter := cp_resume_voter c,
    er_last_chunk := height\<rparr>"
  have "pending_ok (on_era (cp_era c) ?f p)"
    using ok by (rule pending_ok_on_era) (simp add: harmless_def)
  then have "pending_ok ((on_era (cp_era c) ?f p)
      \<lparr>vp_chunk_eras := insert (cp_era c) (vp_chunk_eras (on_era (cp_era c) ?f p))\<rparr>)"
    by (simp only: pending_ok_frame)
  from keepsD [OF keeps_ensureEraPlan [OF assms] this run [unfolded record_progress_def Let_def]]
  show "pending_ok t" .
qed

lemma keeps_consumeLog:
  assumes "height \<noteq> 0"
  shows "keeps pending_ok (consumeLog en height epoch act_hash log_index l)"
proof -
  have upd: "pending_ok (record_opt_in cand height p)" "pending_ok (recordFrozenSnapshot f p)"
      "pending_ok (record_destination height act_hash c p)"
    if "pending_ok p" for cand f c p
    using that by (simp_all add: voter_defs pending_ok_frame)
  have overrun: "pending_ok (on_era e (\<lambda>e. e\<lparr>er_overrun_residue := v\<rparr>) p)" if "pending_ok p" for e v p
    using that by (rule pending_ok_on_era) (simp add: harmless_def)
  have pair: "(\<And>a b. keeps pending_ok (f a b)) \<Longrightarrow> keeps pending_ok (case x of (a, b) \<Rightarrow> f a b)"
    for f :: "cursor_progress option \<Rightarrow> drain_overrun option \<Rightarrow> vr_plugin \<Rightarrow> unit res \<times> vr_plugin" and x
    by (cases x) simp
  have opt: "keeps pending_ok (updS (case x of None \<Rightarrow> id | Some y \<Rightarrow> g y))"
    if "\<And>y p. pending_ok p \<Longrightarrow> pending_ok (g y p)" for x :: "'a option" and g
    using that by (cases x) (auto intro: keeps_updS)
  have prog: "keeps pending_ok (case x of None \<Rightarrow> updS id | Some c \<Rightarrow> record_progress en height c)" for x
    using keeps_record_progress [OF assms] by (cases x) (auto intro: keeps_updS)
  show ?thesis
    unfolding consumeLog_def Let_def
    by (intro keeps_bindS keeps_decodedS keeps_eachS keeps_consume_row [OF assms] pair prog opt upd overrun
        keeps_updS) auto
qed

lemma keeps_refreshChunkedEras: "keeps pending_ok (refreshChunkedEras en height)"
proof -
  have cursor: "pending_ok (on_era e (\<lambda>r. r\<lparr>er_scan_phase := a, er_resume_voter := b\<rparr>) p)"
    and fin: "pending_ok (on_era e (\<lambda>r. r\<lparr>er_completed := c\<rparr>) p)" if "pending_ok p" for e a b c p
    using that by (auto intro!: pending_ok_on_era simp: harmless_def)
  show ?thesis
    by (rule keepsI)
      (auto simp: refreshChunkedEras_def Let_def pending_ok_frame intro!: cursor fin
        split: if_splits option.splits sum.splits)
qed

lemma keeps_indexFrozenEra: "keeps pending_ok (indexFrozenEra en height epoch)"
proof -
  have row: "pending_ok (on_era e (\<lambda>r. r\<lparr>er_freeze_height := a, er_delegate_count := b\<rparr>) p)"
    if "pending_ok p" for e a b p
    using that by (auto intro!: pending_ok_on_era simp: harmless_def)
  show ?thesis
    by (rule keepsI)
      (auto simp: indexFrozenEra_def pending_ok_frame intro!: row
        split: if_splits option.splits sum.splits prod.splits dest!: snapshotDelegateConfigs_frame)
qed

lemma keeps_refreshCandidates: "keeps pending_ok (refreshCandidatesIfNeeded en height epoch)"
  by (rule keepsI)
    (auto simp: refreshCandidatesIfNeeded_def pending_ok_frame split: if_splits option.splits sum.splits)

lemma keeps_putBlock:
  assumes "b_height blk \<noteq> 0"
  shows "keeps pending_ok (putBlock en blk)"
  unfolding putBlock_def Let_def
  by (intro keeps_bindS keeps_eachS keeps_updS keeps_refreshCandidates keeps_refreshChunkedEras
      keeps_indexFrozenEra)
    (auto simp: pending_ok_frame keeps_consumeLog [OF assms] split: prod.splits)

subsection \<open>The payouts of a batch\<close>

text \<open>
  A payout is the key of its row, its era and its amount. The payouts of a block are those its
  distribution logs decode to, in order; they do not depend on the state of the plugin.
\<close>

type_synonym payout = "(string \<times> u32 \<times> u32) \<times> u64 \<times> int"

definition payout_of :: "vr_row \<Rightarrow> payout" where
  "payout_of r = (row_key r, vd_era r, vd_amount r)"

definition log_payouts :: "protocol \<Rightarrow> string \<times> u32 \<times> log \<Rightarrow> payout list" where
  "log_payouts pr x =
     (case x of (h, i, l) \<Rightarrow>
        (case DecodeDistribution pr l of
           Inl e \<Rightarrow> []
         | Inr rows \<Rightarrow> map (\<lambda>d. ((h, i, dr_row_index d), dr_era d, dec (dr_amount d))) rows))"

definition receipt_payouts :: "protocol \<Rightarrow> receipt \<Rightarrow> payout list" where
  "receipt_payouts pr r = concat (map (log_payouts pr) (indexed_logs r))"

definition block_payouts :: "protocol \<Rightarrow> block \<Rightarrow> payout list" where
  "block_payouts pr blk = concat (map (receipt_payouts pr) (b_receipts blk))"

text \<open>\<open>appends xs m\<close>: \<open>m\<close> adds rows with the payouts \<open>xs\<close>, and a first part of them where it fails.\<close>

definition appends :: "payout list \<Rightarrow> (vr_plugin \<Rightarrow> 'a res \<times> vr_plugin) \<Rightarrow> bool" where
  "appends xs m \<longleftrightarrow> (\<forall>s x t. m s = (x, t) \<longrightarrow> (\<exists>ys zs. xs = ys @ zs \<and>
     map payout_of (vp_rows t) = map payout_of (vp_rows s) @ ys \<and> (isl x \<or> zs = [])))"

lemma appendsI:
  "(\<And>s x t. m s = (x, t) \<Longrightarrow> map payout_of (vp_rows t) = map payout_of (vp_rows s) @ xs) \<Longrightarrow> appends xs m"
  unfolding appends_def by (metis append_Nil2)

lemma ledger_appendsD: "appends xs m \<Longrightarrow> m s = (Inr x, t) \<Longrightarrow> map payout_of (vp_rows t) = map payout_of (vp_rows s) @ xs"
  unfolding appends_def by (metis append_Nil2 sum.disc(2))

lemma appendsD_error:
  "appends xs m \<Longrightarrow> m s = (Inl e, t) \<Longrightarrow> \<exists>ys zs. xs = ys @ zs \<and> map payout_of (vp_rows t) = map payout_of (vp_rows s) @ ys"
  unfolding appends_def by metis

lemma appends_bindS:
  assumes "appends xs m" and "\<And>x. appends ys (f x)"
  shows "appends (xs @ ys) (bindS m f)"
  unfolding appends_def
proof (intro allI impI)
  fix s x t assume run: "bindS m f s = (x, t)"
  obtain y u where m: "m s = (y, u)" by fastforce
  show "\<exists>us vs. xs @ ys = us @ vs \<and> map payout_of (vp_rows t) = map payout_of (vp_rows s) @ us \<and> (isl x \<or> vs = [])"
  proof (cases y)
    case (Inl e)
    with appendsD_error [OF assms(1)] m run show ?thesis by fastforce
  next
    case (Inr z)
    with m run have f: "f z u = (x, t)" by simp
    from assms(2) f obtain us vs where "ys = us @ vs" "map payout_of (vp_rows t) = map payout_of (vp_rows u) @ us"
      "isl x \<or> vs = []" unfolding appends_def by blast
    with ledger_appendsD [OF assms(1) m [unfolded Inr]] show ?thesis
      by (intro exI [of _ "xs @ us"] exI [of _ vs]) simp
  qed
qed

lemma appends_then: "appends [] m \<Longrightarrow> (\<And>x. appends ys (f x)) \<Longrightarrow> appends ys (bindS m f)"
  using appends_bindS [of "[]" m ys f] by simp

lemma appends_last: "appends ys m \<Longrightarrow> (\<And>x. appends [] (f x)) \<Longrightarrow> appends ys (bindS m f)"
  using appends_bindS [of ys m "[]" f] by simp

lemma appends_eachS: "(\<And>x. appends (g x) (f x)) \<Longrightarrow> appends (concat (map g xs)) (eachS f xs)"
proof (induction xs)
  case Nil
  then show ?case by (simp add: appends_def)
next
  case (Cons x xs)
  then have "appends (g x @ concat (map g xs)) (bindS (f x) (\<lambda>_. eachS f xs))"
    by (intro appends_bindS) auto
  then show ?case by (simp add: appends_def)
qed

lemma appends_decodedS: "(\<And>x. r = Inr x \<Longrightarrow> appends xs (f x)) \<Longrightarrow> appends xs (bindS (decodedS r) f)"
  by (cases r) (auto simp: appends_def)

lemma appends_updS: "(\<And>s. vp_rows (f s) = vp_rows s) \<Longrightarrow> appends [] (updS f)"
  by (rule appendsI) (auto simp: updS_def)

text \<open>Operations that leave the pending payout rows alone.\<close>

lemma keeps_rows_ensureEraPlan: "keeps (\<lambda>p. vp_rows p = rs) (ensureEraPlan en era height)"
proof -
  have snap: "keeps (\<lambda>p. vp_rows p = rs) (snapshotDelegateConfigs en nd era height frozen)" for nd frozen
    by (rule keepsI) (auto dest!: snapshotDelegateConfigs_frame)
  have "keeps (\<lambda>p. vp_rows p = rs) (plan_era en nd st era height)" for nd st
    unfolding plan_era_def
    by (intro keeps_bindS keeps_decodedS keeps_updS snap | clarsimp | simp)+
  then show ?thesis
    by (auto simp: keeps_def ensureEraPlan_def split: option.splits sum.splits)
qed

lemma ensureEraPlan_rows: "ensureEraPlan en era height p = (x, t) \<Longrightarrow> vp_rows t = vp_rows p"
  using keepsD [OF keeps_rows_ensureEraPlan, of p "vp_rows p"] by simp

lemma appends_consume_row:
  "appends [((act_hash, log_index, dr_row_index r), dr_era r, dec (dr_amount r))]
     (consume_row en height epoch act_hash log_index r)"
  by (rule appendsI)
    (auto simp: consume_row_def payout_of_def row_key_def distribution_vr_row_def
      dest!: ensureEraPlan_rows)

lemma appends_record_progress: "appends [] (record_progress en height c)"
  by (rule appendsI) (auto simp: record_progress_def Let_def dest!: ensureEraPlan_rows)

lemma appends_consumeLog:
  "appends (log_payouts (en_protocol en) (act_hash, log_index, l))
     (consumeLog en height epoch act_hash log_index l)"
proof -
  let ?rest = "bindS (decodedS (DecodeOptIn (en_protocol en) l)) (\<lambda>cand.
      bindS (updS (record_opt_in cand height)) (\<lambda>_.
      bindS (decodedS (DecodeFreeze (en_protocol en) l)) (\<lambda>frozen.
      bindS (updS (case frozen of None \<Rightarrow> id | Some f \<Rightarrow> recordFrozenSnapshot f)) (\<lambda>_.
      bindS (decodedS (DecodeDestination (en_protocol en) l)) (\<lambda>change.
      bindS (updS (case change of None \<Rightarrow> id | Some c \<Rightarrow> record_destination height act_hash c)) (\<lambda>_.
      bindS (decodedS (DecodeRewardBookkeeping (en_protocol en) l)) (\<lambda>(progress, overrun).
      bindS (case progress of None \<Rightarrow> updS id | Some c \<Rightarrow> record_progress en height c) (\<lambda>_.
        updS (case overrun of
                None \<Rightarrow> id
              | Some d \<Rightarrow> on_era (do_era d) (\<lambda>e. e\<lparr>er_overrun_residue := do_residue d\<rparr>))))))))))"
  have quiet: "appends [] (updS (case x of None \<Rightarrow> id | Some y \<Rightarrow> g y))"
    if "\<And>y p. vp_rows (g y p) = vp_rows p" for x :: "'a option" and g
    using that by (cases x) (auto intro: appends_updS)
  have prog: "appends [] (case x of None \<Rightarrow> updS id | Some c \<Rightarrow> record_progress en height c)" for x
    by (cases x) (auto intro: appends_updS appends_record_progress)
  have pair: "(\<And>a b. appends [] (f a b)) \<Longrightarrow> appends [] (case x of (a, b) \<Rightarrow> f a b)"
    for f :: "cursor_progress option \<Rightarrow> drain_overrun option \<Rightarrow> vr_plugin \<Rightarrow> unit res \<times> vr_plugin" and x
    by (cases x) simp
  have rest: "appends [] ?rest"
    by (intro appends_then appends_decodedS appends_updS quiet prog pair) (simp_all add: voter_defs)
  have rows: "appends (map (\<lambda>d. ((act_hash, log_index, dr_row_index d), dr_era d, dec (dr_amount d))) rows)
      (eachS (consume_row en height epoch act_hash log_index) rows)" for rows
  proof -
    have "concat (map (\<lambda>d. [((act_hash, log_index, dr_row_index d), dr_era d, dec (dr_amount d))]) rows)
      = map (\<lambda>d. ((act_hash, log_index, dr_row_index d), dr_era d, dec (dr_amount d))) rows"
      by (induction rows) auto
    then show ?thesis
      using appends_eachS [where f = "consume_row en height epoch act_hash log_index" and xs = rows
          and g = "\<lambda>d. [((act_hash, log_index, dr_row_index d), dr_era d, dec (dr_amount d))]",
          OF appends_consume_row]
      by simp
  qed
  show ?thesis
    unfolding consumeLog_def Let_def
  proof (rule appends_decodedS)
    fix ds
    assume "DecodeDistribution (en_protocol en) l = Inr ds"
    then show "appends (log_payouts (en_protocol en) (act_hash, log_index, l))
      (bindS (eachS (consume_row en height epoch act_hash log_index) ds) (\<lambda>_. ?rest))"
      using rows [of ds] rest by (auto simp: log_payouts_def intro!: appends_last)
  qed
qed

lemma appends_putBlock: "appends (block_payouts (en_protocol en) blk) (putBlock en blk)"
proof -
  have refresh: "appends [] (refreshCandidatesIfNeeded en height epoch)"
      "appends [] (refreshChunkedEras en height)" for height epoch
    by (auto intro!: appendsI simp: refreshCandidatesIfNeeded_def refreshChunkedEras_def Let_def
        split: if_splits option.splits sum.splits)
  have frozen: "appends [] (indexFrozenEra en height epoch)" for height epoch
    by (auto intro!: appendsI simp: indexFrozenEra_def dest!: snapshotDelegateConfigs_frame
        split: if_splits option.splits sum.splits prod.splits)
  have logs: "appends (receipt_payouts (en_protocol en) r)
      (eachS (\<lambda>(act_hash, i, l). consumeLog en height epoch act_hash i l) (indexed_logs r))"
    for r height epoch
    unfolding receipt_payouts_def
    by (rule appends_eachS) (clarsimp simp: appends_consumeLog)
  show ?thesis
    unfolding putBlock_def Let_def block_payouts_def
    by (intro appends_then [OF refresh(1)] appends_then [OF appends_updS] appends_last
        appends_eachS logs refresh(2) frozen) simp
qed

subsection \<open>The memo of committed eras\<close>

text \<open>Handling a block never touches the memo of eras whose plan is in the database.\<close>

lemma keeps_seen_ensureEraPlan: "keeps (\<lambda>p. vp_era_seen p = S) (ensureEraPlan en era height)"
proof -
  have snap: "keeps (\<lambda>p. vp_era_seen p = S) (snapshotDelegateConfigs en nd era height frozen)" for nd frozen
    by (rule keepsI) (auto dest!: snapshotDelegateConfigs_frame)
  have "keeps (\<lambda>p. vp_era_seen p = S) (plan_era en nd st era height)" for nd st
    unfolding plan_era_def
    by (intro keeps_bindS keeps_decodedS keeps_updS snap | clarsimp | simp)+
  then show ?thesis
    by (auto simp: keeps_def ensureEraPlan_def split: option.splits sum.splits)
qed

lemma ensureEraPlan_seen: "ensureEraPlan en era height p = (x, t) \<Longrightarrow> vp_era_seen t = vp_era_seen p"
  using keepsD [OF keeps_seen_ensureEraPlan, of p "vp_era_seen p"] by simp

lemma keeps_seen_consumeLog:
  "keeps (\<lambda>p. vp_era_seen p = S) (consumeLog en height epoch act_hash log_index l)"
proof -
  have row: "keeps (\<lambda>p. vp_era_seen p = S) (consume_row en height epoch act_hash log_index r)" for r
  proof (rule keepsI)
    fix p x t
    assume "vp_era_seen p = S" and "consume_row en height epoch act_hash log_index r p = (x, t)"
    then show "vp_era_seen t = S"
      unfolding consume_row_def by (simp only: ensureEraPlan_seen on_era_other) simp
  qed
  have step: "keeps (\<lambda>p. vp_era_seen p = S) (record_progress en height c)" for c
  proof (rule keepsI)
    fix p x t
    assume "vp_era_seen p = S" and "record_progress en height c p = (x, t)"
    then show "vp_era_seen t = S"
      unfolding record_progress_def Let_def by (simp only: ensureEraPlan_seen) simp
  qed
  have prog: "keeps (\<lambda>p. vp_era_seen p = S)
      (case x of None \<Rightarrow> updS id | Some c \<Rightarrow> record_progress en height c)" for x
    using step by (cases x) (auto intro: keeps_updS)
  have opt: "keeps (\<lambda>p. vp_era_seen p = S) (updS (case x of None \<Rightarrow> id | Some y \<Rightarrow> g y))"
    if "\<And>y p. vp_era_seen (g y p) = vp_era_seen p" for x :: "'a option" and g
    using that by (cases x) (auto intro: keeps_updS)
  have pair: "(\<And>a b. keeps (\<lambda>p. vp_era_seen p = S) (f a b)) \<Longrightarrow>
      keeps (\<lambda>p. vp_era_seen p = S) (case x of (a, b) \<Rightarrow> f a b)"
    for f :: "cursor_progress option \<Rightarrow> drain_overrun option \<Rightarrow> vr_plugin \<Rightarrow> unit res \<times> vr_plugin" and x
    by (cases x) simp
  show ?thesis
    unfolding consumeLog_def Let_def
    by (intro keeps_bindS keeps_decodedS keeps_eachS row pair prog opt keeps_updS)
      (simp_all add: voter_defs)
qed

lemma keeps_seen_putBlock: "keeps (\<lambda>p. vp_era_seen p = S) (putBlock en blk)"
proof -
  have "keeps (\<lambda>p. vp_era_seen p = S) (refreshCandidatesIfNeeded en height epoch)" for height epoch
    by (rule keepsI)
      (auto simp: refreshCandidatesIfNeeded_def split: if_splits option.splits sum.splits)
  moreover have "keeps (\<lambda>p. vp_era_seen p = S) (refreshChunkedEras en height)" for height
    by (rule keepsI)
      (auto simp: refreshChunkedEras_def Let_def split: if_splits option.splits sum.splits)
  moreover have "keeps (\<lambda>p. vp_era_seen p = S) (indexFrozenEra en height epoch)" for height epoch
    by (rule keepsI)
      (auto simp: indexFrozenEra_def dest!: snapshotDelegateConfigs_frame
        split: if_splits option.splits sum.splits prod.splits)
  ultimately show ?thesis
    unfolding putBlock_def Let_def
    by (intro keeps_bindS keeps_eachS keeps_updS)
      (auto simp: keeps_seen_consumeLog split: prod.splits)
qed

subsection \<open>Logs of other contracts\<close>

text \<open>
  A log emitted by any contract other than the rewarding and staking protocols changes
  nothing: whatever topics and data it carries, the state of the plugin is as before and no
  error arises.
\<close>

theorem foreign_log_is_ignored:
  assumes "log_address l \<notin> {pr_rewarding_addr (en_protocol en), pr_staking_addr (en_protocol en)}"
  shows "consumeLog en height epoch act_hash log_index l p = (Inr (), p)"
  using foreign_log_decodes_to_nothing [OF assms]
  by (simp add: consumeLog_def Let_def bindS_def [of "eachS _ []"] record_opt_in_def updS_def)

theorem foreign_log_is_ignored_witness:
  "consumeLog \<lparr>en_protocol = example_protocol, en_client = None, en_page_fuel = 0,
      en_epoch_num = (\<lambda>_. 1), en_epoch_height = (\<lambda>_. 1), en_epoch_last = (\<lambda>_. 1),
      en_era_boundary = (\<lambda>_. True)\<rparr> 9 1 ''07'' 0
    \<lparr>log_address = ''io_mallory'', log_topics = [[1]], log_data = []\<rparr> New = (Inr (), New)"
  by (rule foreign_log_is_ignored) (simp add: example_protocol_def)

end
