(* ===== verification/VoterBooks.thy ===== *)
theory VoterBooks
  imports VoterLedger
begin

text \<open>
  The database side of the voter reward plugin: what a committed batch adds to the payout rows
  and to the era totals, how duplicate configuration rows are collapsed, how the attribution of
  an opt-in evolves, and the memos of the process against the rows of the database.
\<close>

subsection \<open>Batches of blocks\<close>

lemma keeps_putBlocks:
  "(\<And>b. b \<in> set blks \<Longrightarrow> b_height b \<noteq> 0) \<Longrightarrow> keeps pending_ok (eachS (putBlock en) blks)"
  by (intro keeps_eachS keeps_putBlock) auto

definition batch_payouts :: "protocol \<Rightarrow> block list \<Rightarrow> payout list" where
  "batch_payouts pr blks = concat (map (block_payouts pr) blks)"

lemma appends_putBlocks:
  "appends (batch_payouts (en_protocol en) blks) (eachS (putBlock en) blks)"
  unfolding batch_payouts_def by (rule appends_eachS) (rule appends_putBlock)

subsection \<open>Keys of payouts\<close>

lemma hex_digit_inj: "a < 16 \<Longrightarrow> b < 16 \<Longrightarrow> hex_digit a = hex_digit b \<Longrightarrow> a = b"
proof -
  assume ab: "a < 16" "b < 16" "hex_digit a = hex_digit b"
  then have "of_char (hex_digit a) = (of_char (hex_digit b) :: nat)" by simp
  with ab(1,2) show "a = b" by (simp add: hex_digit_def split: if_splits)
qed

lemma hex_encode_inj: "hex_encode xs = hex_encode ys \<Longrightarrow> xs = ys"
proof (induction xs arbitrary: ys)
  case Nil
  then show ?case by (cases ys) (auto simp: hex_encode_def)
next
  case (Cons x xs)
  then obtain y ys' where ys: "ys = y # ys'" by (cases ys) (auto simp: hex_encode_def)
  have small: "unat (b :: byte) div 16 < 16" for b
    using unsigned_less [where w = b and 'a = nat] by (intro less_mult_imp_div_less) simp
  from Cons.prems ys have "hex_digit (unat x div 16) = hex_digit (unat y div 16)"
      "hex_digit (unat x mod 16) = hex_digit (unat y mod 16)" and rest: "hex_encode xs = hex_encode ys'"
    by (auto simp: hex_encode_def)
  with small have "unat x div 16 = unat y div 16" "unat x mod 16 = unat y mod 16"
    by (auto intro: hex_digit_inj)
  then have "unat x = unat y" by (metis div_mult_mod_eq)
  then have "x = y" by (simp add: word_unat_eq_iff)
  with Cons.IH [OF rest] ys show ?case by simp
qed

text \<open>The rows of one log, the logs of one receipt and the receipts of a batch have distinct keys.\<close>

definition small_log :: "protocol \<Rightarrow> log \<Rightarrow> bool" where
  "small_log pr l \<longleftrightarrow> (\<forall>rows. DecodeDistribution pr l = Inr rows \<longrightarrow> length rows < 2 ^ 32)"

lemma word_of_nat_inj32:
  assumes "i < 2 ^ 32" and "j < 2 ^ 32" and "(word_of_nat i :: u32) = word_of_nat j"
  shows "i = j"
proof -
  have "unat (word_of_nat k :: u32) = k" if "k < 2 ^ 32" for k
    using that by (simp add: unat_of_nat)
  with assms show ?thesis by metis
qed

lemma distinct_map_append:
  assumes "distinct (map f xs)" and "distinct (map f ys)"
    and "\<And>x y. x \<in> set xs \<Longrightarrow> y \<in> set ys \<Longrightarrow> f x \<noteq> f y"
  shows "distinct (map f (xs @ ys))"
proof -
  have "f ` set xs \<inter> f ` set ys = {}" using assms(3) by blast
  with assms(1,2) show ?thesis by simp
qed

lemma log_payouts_keys:
  assumes "small_log pr l"
  shows "distinct (map fst (log_payouts pr (h, i, l)))"
proof (cases "DecodeDistribution pr l")
  case (Inl e)
  then show ?thesis by (simp add: log_payouts_def)
next
  case (Inr rows)
  have "map fst (log_payouts pr (h, i, l)) = map (\<lambda>j. (h, i, word_of_nat j)) [0 ..< length rows]"
    using DecodeDistribution_row_index [OF Inr] Inr by (auto simp: log_payouts_def intro: nth_equalityI)
  moreover have "distinct (map (\<lambda>j. (h, i, word_of_nat j :: u32)) [0 ..< length rows])"
    using assms Inr
    by (auto simp: distinct_map small_log_def intro!: inj_onI word_of_nat_inj32)
  ultimately show ?thesis by simp
qed

lemma fst_log_payouts: "x \<in> set (log_payouts pr (h, i, l)) \<Longrightarrow> fst (fst x) = h \<and> fst (snd (fst x)) = i"
  by (auto simp: log_payouts_def split: sum.splits)

lemma enumerated_payouts_keys:
  assumes "\<And>l. l \<in> set ls \<Longrightarrow> small_log pr l" and "n + length ls \<le> 2 ^ 32"
  shows "distinct (map fst (concat (map (log_payouts pr)
    (map (\<lambda>(i, l). (h, word_of_nat i, l)) (enumerate n ls)))))"
  using assms
proof (induction ls arbitrary: n)
  case Nil
  then show ?case by simp
next
  case (Cons l ls)
  let ?tail = "concat (map (log_payouts pr) (map (\<lambda>(i, l). (h, word_of_nat i, l)) (enumerate (Suc n) ls)))"
  have "distinct (map fst ?tail)" using Cons by simp
  moreover have "distinct (map fst (log_payouts pr (h, word_of_nat n, l)))"
    using Cons.prems(1) by (intro log_payouts_keys) simp
  moreover have "fst x \<noteq> fst y"
    if x: "x \<in> set (log_payouts pr (h, word_of_nat n, l))" and y: "y \<in> set ?tail" for x y
  proof -
    from y obtain i l' where i: "(i, l') \<in> set (enumerate (Suc n) ls)"
        "y \<in> set (log_payouts pr (h, word_of_nat i, l'))" by auto
    then have "Suc n \<le> i" "i < Suc n + length ls" by (auto simp: in_set_enumerate_eq)
    then have "n < 2 ^ 32" "i < 2 ^ 32" "n \<noteq> i" using Cons.prems(2) by simp_all
    then have "(word_of_nat n :: u32) \<noteq> word_of_nat i" using word_of_nat_inj32 by blast
    then show ?thesis using fst_log_payouts [OF x] fst_log_payouts [OF i(2)] by metis
  qed
  ultimately have "distinct (map fst (log_payouts pr (h, word_of_nat n, l) @ ?tail))"
    by (intro distinct_map_append)
  then show ?case by simp
qed

definition small_receipt :: "protocol \<Rightarrow> receipt \<Rightarrow> bool" where
  "small_receipt pr r \<longleftrightarrow> length (r_logs r) \<le> 2 ^ 32 \<and> (\<forall>l \<in> set (r_logs r). small_log pr l)"

lemma receipt_payouts_keys:
  "small_receipt pr r \<Longrightarrow> distinct (map fst (receipt_payouts pr r))"
  using enumerated_payouts_keys [of "r_logs r" pr 0 "hex_encode (r_action_hash r)"]
  by (simp add: receipt_payouts_def indexed_logs_def small_receipt_def)

lemma receipt_payouts_hash:
  "x \<in> set (receipt_payouts pr r) \<Longrightarrow> fst (fst x) = hex_encode (r_action_hash r)"
  by (auto simp: receipt_payouts_def indexed_logs_def dest!: fst_log_payouts)

lemma receipts_payouts_keys:
  "distinct (map r_action_hash rs) \<Longrightarrow> (\<And>r. r \<in> set rs \<Longrightarrow> small_receipt pr r) \<Longrightarrow>
   distinct (map fst (concat (map (receipt_payouts pr) rs)))"
proof (induction rs)
  case Nil
  then show ?case by simp
next
  case (Cons r rs)
  have "fst x \<noteq> fst y"
    if x: "x \<in> set (receipt_payouts pr r)" and y: "y \<in> set (concat (map (receipt_payouts pr) rs))" for x y
  proof -
    from y obtain r' where r': "r' \<in> set rs" "y \<in> set (receipt_payouts pr r')" by auto
    with Cons.prems(1) have "r_action_hash r \<noteq> r_action_hash r'" by auto
    then show ?thesis
      using receipt_payouts_hash [OF x] receipt_payouts_hash [OF r'(2)] hex_encode_inj by metis
  qed
  moreover have "distinct (map fst (receipt_payouts pr r))"
    using Cons.prems(2) by (intro receipt_payouts_keys) simp
  moreover have "distinct (map fst (concat (map (receipt_payouts pr) rs)))"
    using Cons by simp
  ultimately have "distinct (map fst (receipt_payouts pr r @ concat (map (receipt_payouts pr) rs)))"
    by (intro distinct_map_append)
  then show ?case by simp
qed

lemma batch_payouts_receipts:
  "batch_payouts pr blks = concat (map (receipt_payouts pr) (concat (map b_receipts blks)))"
  by (induction blks) (simp_all add: batch_payouts_def block_payouts_def)

subsection \<open>Collapsing configuration rows\<close>

definition deduped :: "vr_config list \<Rightarrow> (string \<times> u64 \<rightharpoonup> nat) \<times> vr_config list \<Rightarrow> bool" where
  "deduped seen s \<longleftrightarrow>
     (\<forall>k i. fst s k = Some i \<longleftrightarrow> i < length (snd s) \<and> cfg_key (snd s ! i) = k) \<and>
     (\<forall>c. c \<in> set (snd s) \<longleftrightarrow> last_row (\<lambda>d. cfg_key d = cfg_key c) seen = Some c)"

lemma deduped_distinct: "deduped seen s \<Longrightarrow> distinct (map cfg_key (snd s))"
  unfolding deduped_def distinct_conv_nth by (metis length_map nth_map option.inject)

lemma dedupe_step_deduped:
  assumes "deduped seen s"
  shows "deduped (seen @ [c]) (dedupe_step c s)"
proof -
  obtain at out where s: "s = (at, out)" by fastforce
  have at: "at k = Some i \<longleftrightarrow> i < length out \<and> cfg_key (out ! i) = k" for k i
    using assms by (simp add: deduped_def s del: split_paired_All)
  have mem: "d \<in> set out \<longleftrightarrow> last_row (\<lambda>d'. cfg_key d' = cfg_key d) seen = Some d" for d
    using assms by (simp add: deduped_def s del: split_paired_All)
  show ?thesis
  proof (cases "at (cfg_key c)")
    case None
    then have new: "cfg_key d \<noteq> cfg_key c" if "d \<in> set out" for d
      using that at by (metis in_set_conv_nth option.distinct(1))
    have "(at(cfg_key c \<mapsto> length out)) k = Some i \<longleftrightarrow>
        i < length (out @ [c]) \<and> cfg_key ((out @ [c]) ! i) = k" for k i
      using at [of k i] new None by (auto simp: nth_append less_Suc_eq)
    moreover have "d \<in> set (out @ [c]) \<longleftrightarrow>
        last_row (\<lambda>d'. cfg_key d' = cfg_key d) (seen @ [c]) = Some d" for d
      using mem [of d] new [of d] by auto
    moreover have "dedupe_step c s = (at(cfg_key c \<mapsto> length out), out @ [c])"
      using None by (simp add: dedupe_step_def s)
    ultimately show ?thesis by (simp only: deduped_def fst_conv snd_conv simp_thms)
  next
    case (Some i)
    then have i: "i < length out" "cfg_key (out ! i) = cfg_key c" using at by auto
    have uniq: "j = i" if "j < length out" "cfg_key (out ! j) = cfg_key c" for j
      using that at [of "cfg_key c" j] Some by simp
    have "at k = Some j \<longleftrightarrow> j < length (out[i := c]) \<and> cfg_key (out[i := c] ! j) = k" for k j
      using at [of k j] i by (cases "j = i") auto
    moreover have "d \<in> set (out[i := c]) \<longleftrightarrow>
        last_row (\<lambda>d'. cfg_key d' = cfg_key d) (seen @ [c]) = Some d" for d
    proof (cases "cfg_key c = cfg_key d")
      case True
      have "d \<in> set (out[i := c]) \<longleftrightarrow> d = c"
      proof
        assume "d \<in> set (out[i := c])"
        then obtain j where j: "j < length out" "d = out[i := c] ! j" by (auto simp: in_set_conv_nth)
        show "d = c"
        proof (cases "j = i")
          case True
          with j i show ?thesis by simp
        next
          case False
          with j have d: "d = out ! j" by simp
          have "cfg_key (out ! j) = cfg_key c" unfolding d [symmetric] using True by simp
          with uniq j(1) False show ?thesis by blast
        qed
      next
        assume "d = c"
        then show "d \<in> set (out[i := c])" using i(1) by (simp add: set_update_memI)
      qed
      with True show ?thesis by auto
    next
      case False
      then have "d \<in> set (out[i := c]) \<longleftrightarrow> d \<in> set out"
        using i by (metis in_set_conv_nth length_list_update nth_list_update_eq nth_list_update_neq)
      with False mem [of d] show ?thesis by auto
    qed
    moreover have "dedupe_step c s = (at, out[i := c])"
      using Some by (simp add: dedupe_step_def s)
    ultimately show ?thesis by (simp only: deduped_def fst_conv snd_conv simp_thms)
  qed
qed

lemma dedupe_fold: "deduped seen s \<Longrightarrow> deduped (seen @ cs) (fold dedupe_step cs s)"
proof (induction cs arbitrary: seen s)
  case Nil
  then show ?case by simp
next
  case (Cons c cs)
  from Cons.IH [OF dedupe_step_deduped [OF Cons.prems]] show ?case by simp
qed

lemma deduped_init: "deduped [] (Map.empty, [])"
  by (simp add: deduped_def)

text \<open>
  The configuration rows of a batch are collapsed to one row per delegate and era, and the
  row kept is the last one written: this is what keeps the upsert from naming a conflict target
  twice and what makes the later pass over an era prevail.
\<close>

theorem dedupeConfigs_spec:
  "distinct (map cfg_key (dedupeConfigs cs)) \<and>
   (\<forall>c. c \<in> set (dedupeConfigs cs) \<longleftrightarrow> last_row (\<lambda>d. cfg_key d = cfg_key c) cs = Some c)"
proof (cases "length cs < 2")
  case True
  then consider "cs = []" | c where "cs = [c]" by (cases cs; cases "tl cs") auto
  then show ?thesis
    by cases (auto simp: dedupeConfigs_def last_row_def)
next
  case False
  note d = dedupe_fold [OF deduped_init, of cs]
  from deduped_distinct [OF d] d False show ?thesis
    by (simp add: dedupeConfigs_def deduped_def)
qed

subsection \<open>What a commit writes\<close>

lemma batches_concat: "concat (batches xs) = xs"
proof (induction xs rule: batches.induct)
  case (1 xs)
  then show ?case by (cases "xs = []") (subst batches.simps, simp)+
qed

lemma batches_distinct:
  "distinct (map f xs) \<Longrightarrow> c \<in> set (batches xs) \<Longrightarrow> distinct (map f c)"
proof (induction xs rule: batches.induct)
  case (1 xs)
  show ?case
  proof (cases "xs = []")
    case True
    with 1 show ?thesis by (simp add: batches.simps)
  next
    case False
    have parts: "distinct (map f (take 200 xs))" "distinct (map f (drop 200 xs))"
      using "1.prems"(1) by (simp_all flip: take_map drop_map)
    from False "1.prems"(2) have "c = take 200 xs \<or> c \<in> set (batches (drop 200 xs))"
      by (subst (asm) batches.simps) simp
    then show ?thesis using parts "1.IH" [OF False] by blast
  qed
qed

lemma fold_upsert_config [simp]:
  "vr_rows (fold upsert_config cs t) = vr_rows t"
  "vr_dests (fold upsert_config cs t) = vr_dests t"
  "vr_eras (fold upsert_config cs t) = vr_eras t"
  by (induction cs arbitrary: t) (simp_all add: upsert_config_def)

lemma upgrade_one_other [simp]:
  "vr_rows (upgrade_one c t) = vr_rows t"
  "vr_dests (upgrade_one c t) = vr_dests t"
  "vr_eras (upgrade_one c t) = vr_eras t"
  by (simp_all add: upgrade_one_def split: option.splits)

lemma upgradeOptInAttribution_other [simp]:
  "vr_rows (upgradeOptInAttribution cs t) = vr_rows t"
  "vr_dests (upgradeOptInAttribution cs t) = vr_dests t"
  "vr_eras (upgradeOptInAttribution cs t) = vr_eras t"
  unfolding upgradeOptInAttribution_def by (induction cs arbitrary: t) simp_all

text \<open>With distinct keys no statement is refused and the upsert is a fold over all rows.\<close>

lemma upsert_configs_distinct:
  assumes "distinct (map cfg_key cs)"
  shows "upsert_configs cs t = Inr (fold upsert_config cs t)"
proof -
  have "foldE (\<lambda>chunk t. if distinct (map cfg_key chunk) then Inr (fold upsert_config chunk t)
      else Inl DbError) bs t = Inr (fold upsert_config (concat bs) t)"
    if "\<And>c. c \<in> set bs \<Longrightarrow> distinct (map cfg_key c)" for bs t
    using that by (induction bs arbitrary: t) simp_all
  from this [of "batches cs"] batches_distinct [OF assms] show ?thesis
    by (simp add: upsert_configs_def batches_concat)
qed

definition batch_written ::
  "vr_row list \<Rightarrow> vr_destination list \<Rightarrow> vr_era list \<Rightarrow> vr_config list \<Rightarrow> vr_tables \<Rightarrow> vr_tables" where
  "batch_written rows dests eras cs t =
     upgradeOptInAttribution cs (fold upsert_config cs (fold upsertEra eras
       (t\<lparr>vr_rows := fold insert_row rows (vr_rows t), vr_dests := vr_dests t @ dests\<rparr>)))"

lemma write_batch_deduped:
  "write_batch rows dests eras (dedupeConfigs cs) t = Inr (batch_written rows dests eras (dedupeConfigs cs) t)"
  using upsert_configs_distinct [OF conjunct1 [OF dedupeConfigs_spec], of cs]
  by (simp add: write_batch_def batch_written_def Let_def upgradeOptInAttribution_def)

lemma upsertEra_other [simp]:
  "vr_rows (fold upsertEra es t) = vr_rows t"
  "vr_dests (fold upsertEra es t) = vr_dests t"
  "vr_configs (fold upsertEra es t) = vr_configs t"
  by (induction es arbitrary: t) (simp_all add: upsertEra_def)

lemma fold_upsertEra:
  assumes "distinct (map fst es)" and "\<And>e r. (e, r) \<in> set es \<Longrightarrow> er_era r = e"
  shows "vr_eras (fold upsertEra (map snd es) t) e =
    (case map_of es e of
       None \<Rightarrow> vr_eras t e
     | Some r \<Rightarrow> Some (case vr_eras t e of None \<Rightarrow> r | Some old \<Rightarrow> merge_era r old))"
  using assms
proof (induction es arbitrary: t)
  case Nil
  then show ?case by simp
next
  case (Cons er es)
  obtain e1 r1 where er: "er = (e1, r1)" by fastforce
  then have r1: "er_era r1 = e1" using Cons.prems(2) [of e1 r1] by simp
  have ih: "vr_eras (fold upsertEra (map snd es) (upsertEra r1 t)) e =
    (case map_of es e of
       None \<Rightarrow> vr_eras (upsertEra r1 t) e
     | Some r \<Rightarrow> Some (case vr_eras (upsertEra r1 t) e of None \<Rightarrow> r | Some old \<Rightarrow> merge_era r old))"
    using Cons.IH Cons.prems by auto
  have none: "map_of es e1 = None"
    using Cons.prems(1) er by (simp add: map_of_eq_None_iff)
  have step: "fold upsertEra (map snd (er # es)) t = fold upsertEra (map snd es) (upsertEra r1 t)"
    by (simp add: er)
  have eras: "vr_eras (upsertEra r1 t) = (vr_eras t)(e1 \<mapsto>
      (case vr_eras t e1 of None \<Rightarrow> r1 | Some old \<Rightarrow> merge_era r1 old))"
    by (simp add: upsertEra_def r1)
  show ?case
    unfolding step ih eras using none by (cases "e = e1") (simp_all add: er split: option.split)
qed

lemma merge_era_adds:
  "er_era (merge_era r old) = er_era old"
  "er_total_distributed (merge_era r old) = er_total_distributed old + er_total_distributed r"
  "er_voter_count (merge_era r old) = er_voter_count old + er_voter_count r"
  "er_first_chunk r \<noteq> 0 \<or> er_first_chunk old \<noteq> 0 \<Longrightarrow> er_first_chunk (merge_era r old) \<noteq> 0"
  by (simp_all add: merge_era_def Let_def)

lemma fold_insert_row:
  "distinct (map row_key new) \<Longrightarrow> row_key ` set new \<inter> row_key ` set rows = {} \<Longrightarrow>
   fold insert_row new rows = rows @ new"
proof (induction new arbitrary: rows)
  case Nil
  then show ?case by simp
next
  case (Cons r new)
  then have "row_key r \<notin> row_key ` set rows" by auto
  moreover have "row_key ` set new \<inter> row_key ` set (rows @ [r]) = {}" using Cons.prems by auto
  ultimately show ?case using Cons.IH [of "rows @ [r]"] Cons.prems by (simp add: insert_row_def)
qed

lemma fold_insert_present:
  "row_key ` set new \<subseteq> row_key ` set rows \<Longrightarrow> fold insert_row new rows = rows"
  by (induction new) (auto simp: insert_row_def)

text \<open>Rows that are written again are left out: the unique index keeps the first of each key.\<close>

lemma fold_insert_again:
  assumes "distinct (map row_key new)" and "row_key ` set new \<inter> row_key ` set rows = {}"
    and "map payout_of new = map payout_of left @ zs"
  shows "map payout_of (fold insert_row (left @ new) rows) = map payout_of rows @ map payout_of new"
proof -
  from assms(3) obtain n1 n2 where new: "new = n1 @ n2" and eq: "map payout_of n1 = map payout_of left"
    by (auto simp: map_eq_append_conv)
  have "map fst (map payout_of n1) = map fst (map payout_of left)" by (simp only: eq)
  then have keys: "map row_key n1 = map row_key left" by (simp add: comp_def payout_of_def)
  then have set_keys: "row_key ` set n1 = row_key ` set left" by (metis list.set_map)
  have fresh: "row_key ` set left \<inter> row_key ` set rows = {}" "row_key ` set n2 \<inter> row_key ` set rows = {}"
    using assms(2) unfolding new set_append image_Un set_keys by blast+
  have "distinct (map row_key left)" using assms(1) keys by (simp add: new)
  then have "fold insert_row left rows = rows @ left" using fresh(1) by (rule fold_insert_row)
  moreover have "fold insert_row n1 (rows @ left) = rows @ left"
    using set_keys by (intro fold_insert_present) auto
  moreover have "fold insert_row n2 (rows @ left) = (rows @ left) @ n2"
  proof (rule fold_insert_row)
    have "row_key ` set n1 \<inter> row_key ` set n2 = {}" using assms(1) unfolding new map_append distinct_append by simp
    then show "row_key ` set n2 \<inter> row_key ` set (rows @ left) = {}"
      using fresh(2) unfolding set_keys set_append image_Un by blast
  qed (use assms(1) in \<open>simp add: new\<close>)
  ultimately show ?thesis by (simp add: new eq)
qed

text \<open>The total, the count and the rows of an era in the database.\<close>

definition era_total :: "vr_tables \<Rightarrow> u64 \<Rightarrow> int" where
  "era_total t e = (case vr_eras t e of None \<Rightarrow> 0 | Some r \<Rightarrow> er_total_distributed r)"

definition era_count :: "vr_tables \<Rightarrow> u64 \<Rightarrow> u64" where
  "era_count t e = (case vr_eras t e of None \<Rightarrow> 0 | Some r \<Rightarrow> er_voter_count r)"

definition eras_keyed :: "vr_tables \<Rightarrow> bool" where
  "eras_keyed t \<longleftrightarrow> (\<forall>e r. vr_eras t e = Some r \<longrightarrow> er_era r = e)"

definition books_balance :: "vr_tables \<Rightarrow> bool" where
  "books_balance t \<longleftrightarrow> eras_keyed t \<and> (\<forall>e. era_total t e = sum_rows (era_rows e) vd_amount (vr_rows t)
     \<and> era_count t e = word_of_nat (length (filter (era_rows e) (vr_rows t))))"

text \<open>A commit adds the pending rows of each era to it.\<close>

lemma batch_written_eras:
  assumes "pending_ok p"
  shows "vr_eras (batch_written (vp_rows p) (vp_dests p) (map snd (vp_eras p)) cs t) e =
    (case map_of (vp_eras p) e of
       None \<Rightarrow> vr_eras t e
     | Some r \<Rightarrow> Some (case vr_eras t e of None \<Rightarrow> r | Some old \<Rightarrow> merge_era r old))"
proof -
  have "er_era r = e" if "(e, r) \<in> set (vp_eras p)" for e r
    using that assms by (auto simp: pending_ok_def dest: map_of_is_SomeI)
  moreover have "distinct (map fst (vp_eras p))" using assms by (simp add: pending_ok_def)
  ultimately show ?thesis by (simp add: batch_written_def fold_upsertEra split: option.split)
qed

lemma batch_written_totals:
  assumes "pending_ok p" and t': "t' = batch_written (vp_rows p) (vp_dests p) (map snd (vp_eras p)) cs t"
  shows "era_total t' e = era_total t e + sum_rows (era_rows e) vd_amount (vp_rows p)"
    and "era_count t' e = era_count t e + word_of_nat (length (filter (era_rows e) (vp_rows p)))"
    and "eras_keyed t \<Longrightarrow> eras_keyed t'"
proof -
  have sums: "er_total_distributed (era_pending e p) = sum_rows (era_rows e) vd_amount (vp_rows p)"
      "er_voter_count (era_pending e p) = word_of_nat (length (filter (era_rows e) (vp_rows p)))" for e
    using assms(1) by (simp_all add: pending_ok_def)
  note eras = batch_written_eras [OF assms(1), of cs t, folded t']
  show "era_total t' e = era_total t e + sum_rows (era_rows e) vd_amount (vp_rows p)"
    using sums(1) [of e]
    by (auto simp: era_total_def eras era_pending_def new_era_def merge_era_adds split: option.splits)
  show "era_count t' e = era_count t e + word_of_nat (length (filter (era_rows e) (vp_rows p)))"
    using sums(2) [of e]
    by (auto simp: era_count_def eras era_pending_def new_era_def merge_era_adds split: option.splits)
  show "eras_keyed t'" if "eras_keyed t"
    using that assms(1)
    by (auto simp: eras_keyed_def eras merge_era_adds pending_ok_def split: option.splits)
qed

lemma batch_written_rows [simp]:
  "vr_rows (batch_written rows dests eras cs t) = fold insert_row rows (vr_rows t)"
  by (simp add: batch_written_def)

end
