(* ===== verification/VoterProps.thy ===== *)
theory VoterProps
  imports VoterBooks
begin

text \<open>
  The properties of the voter reward plugin, over whole batches as the runner hands them to it.
\<close>

subsection \<open>A batch, put\<close>

lemma vr_PutBlocks_ok:
  assumes "vr_PutBlocks en f name blks (p, w) = (Inr (), p', w')"
  obtains p1 where "eachS (putBlock en) blks p = (Inr (), p1)"
    and "p' = promotePendingMemos (clear_pending (p1\<lparr>vp_tip := b_height (last blks)\<rparr>))"
    and "tables w' = batch_written (vp_rows p1) (vp_dests p1) (map snd (vp_eras p1))
           (dedupeConfigs (vp_configs p1)) (tables w)"
proof -
  from assms obtain p1 b where p1: "eachS (putBlock en) blks p = (Inr (), p1)" "last_elem blks = Inr b"
      "commit f name (p1\<lparr>vp_tip := b_height b\<rparr>, w) = (Inr (), p', w')"
    by (auto simp: vr_PutBlocks_def split: prod.splits sum.splits)
  then have b: "b = last blks" by (cases "blks = []") auto
  from p1(3) have tx: "index_tx f name (Inr (b_height b)) (write_batch (vp_rows p1) (vp_dests p1)
        (map snd (vp_eras p1)) (dedupeConfigs (vp_configs p1))) w = (Inr (), w')"
      and p': "p' = promotePendingMemos (clear_pending (p1\<lparr>vp_tip := b_height b\<rparr>))"
    by (auto simp: commit_def split: prod.splits sum.splits)
  from tx have "tables w' = batch_written (vp_rows p1) (vp_dests p1) (map snd (vp_eras p1))
      (dedupeConfigs (vp_configs p1)) (tables w)"
    by (rule index_tx_ok) (simp add: write_batch_deduped)
  with p1(1) p' b that show ?thesis by blast
qed

lemma vr_PutBlocks_error:
  assumes "vr_PutBlocks en f name blks (p, w) = (Inl e, p', w')"
  obtains "tables w' = tables w" and "eachS (putBlock en) blks p = (Inl e, p')"
  | p1 where "tables w' = tables w" and "eachS (putBlock en) blks p = (Inr (), p1)"
      and "p' = p1 \<or> p' = dropPendingMemos (clear_pending (p1\<lparr>vp_tip := b_height (last blks)\<rparr>))"
proof -
  obtain x p1 where p1: "eachS (putBlock en) blks p = (x, p1)" by fastforce
  show ?thesis
  proof (cases x)
    case (Inl e')
    with assms p1 that(1) show ?thesis by (simp add: vr_PutBlocks_def)
  next
    case (Inr u)
    show ?thesis
    proof (cases "blks = []")
      case True
      with assms p1 Inr that(2) show ?thesis by (simp add: vr_PutBlocks_def)
    next
      case False
      with assms p1 Inr have c: "commit f name (p1\<lparr>vp_tip := b_height (last blks)\<rparr>, w) = (Inl e, p', w')"
        by (simp add: vr_PutBlocks_def)
      then have "tables w' = tables w"
        by (auto simp: commit_def split: prod.splits sum.splits dest: index_tx_error)
      moreover have "p' = dropPendingMemos (clear_pending (p1\<lparr>vp_tip := b_height (last blks)\<rparr>))"
        using c by (auto simp: commit_def split: prod.splits sum.splits)
      ultimately show ?thesis using that(2) p1 Inr by simp
    qed
  qed
qed

definition payouts_of_era :: "u64 \<Rightarrow> payout list \<Rightarrow> int" where
  "payouts_of_era e ps = sum_rows (\<lambda>x. fst (snd x) = e) (\<lambda>x. snd (snd x)) ps"

lemma sum_rows_payouts: "sum_rows (era_rows e) vd_amount rows = payouts_of_era e (map payout_of rows)"
  by (induction rows) (simp_all add: payouts_of_era_def payout_of_def era_rows_def)

lemma payouts_of_era_append [simp]:
  "payouts_of_era e (xs @ ys) = payouts_of_era e xs + payouts_of_era e ys"
  by (simp add: payouts_of_era_def)

definition idle :: "vr_plugin \<Rightarrow> bool" where
  "idle p \<longleftrightarrow> vp_rows p = [] \<and> vp_dests p = [] \<and> vp_eras p = [] \<and> vp_configs p = [] \<and> vp_pending_seen p = {}"

lemma idle_pending_ok: "idle p \<Longrightarrow> pending_ok p"
  by (simp add: idle_def pending_ok_def era_pending_def new_era_def)

lemma idle_after_commit: "idle (promotePendingMemos (clear_pending p))"
  by (simp add: idle_def promotePendingMemos_def clear_pending_def Let_def)

text \<open>Where the rows of the pending batch come from: what was pending, then the batch.\<close>

lemma putBlocks_rows:
  assumes "eachS (putBlock en) blks p = (Inr (), p1)"
  shows "map payout_of (vp_rows p1) = map payout_of (vp_rows p) @ batch_payouts (en_protocol en) blks"
  by (rule ledger_appendsD [OF appends_putBlocks assms])

lemma putBlocks_rows_error:
  assumes "eachS (putBlock en) blks p = (Inl e, p1)"
  shows "\<exists>ys zs. batch_payouts (en_protocol en) blks = ys @ zs \<and> map payout_of (vp_rows p1) = map payout_of (vp_rows p) @ ys"
  by (rule appendsD_error [OF appends_putBlocks assms])

lemma putBlocks_pending_ok:
  assumes "eachS (putBlock en) blks p = (x, p1)" and "pending_ok p"
    and "\<forall>b \<in> set blks. b_height b \<noteq> 0"
  shows "pending_ok p1"
  using keepsD [OF keeps_putBlocks assms(2,1)] assms(3) by blast

subsection \<open>The totals of an era\<close>

text \<open>
  The running total of an era grows, with a batch that commits, by exactly the amounts its
  distribution logs pay in that era and by whatever an earlier, failed attempt left pending.
\<close>

theorem era_total_after_batch:
  assumes "vr_PutBlocks en f name blks (p, w) = (Inr (), p', w')"
    and "pending_ok p" and "\<forall>b \<in> set blks. b_height b \<noteq> 0"
  shows "era_total (tables w') e = era_total (tables w) e
    + payouts_of_era e (map payout_of (vp_rows p)) + payouts_of_era e (batch_payouts (en_protocol en) blks)"
proof -
  obtain p1 where p1: "eachS (putBlock en) blks p = (Inr (), p1)"
      "tables w' = batch_written (vp_rows p1) (vp_dests p1) (map snd (vp_eras p1))
           (dedupeConfigs (vp_configs p1)) (tables w)"
    using vr_PutBlocks_ok [OF assms(1)] by blast
  have "pending_ok p1" using putBlocks_pending_ok [OF p1(1) assms(2,3)] .
  from batch_written_totals(1) [OF this p1(2)] putBlocks_rows [OF p1(1)] show ?thesis
    by (simp add: sum_rows_payouts)
qed

text \<open>The rows of a batch have keys of their own where its receipts have hashes of their own.\<close>

lemma batch_rows_fresh:
  assumes "map payout_of rows = batch_payouts pr blks"
    and "distinct (map r_action_hash (concat (map b_receipts blks)))"
    and "\<forall>r \<in> set (concat (map b_receipts blks)). small_receipt pr r
          \<and> hex_encode (r_action_hash r) \<notin> vd_action_hash ` set old"
  shows "distinct (map row_key rows)" and "row_key ` set rows \<inter> row_key ` set old = {}"
proof -
  have keys: "map row_key rows = map fst (batch_payouts pr blks)"
    unfolding assms(1) [symmetric] by (simp add: payout_of_def)
  show "distinct (map row_key rows)"
    unfolding keys batch_payouts_receipts
    using assms(2,3) by (intro receipts_payouts_keys) auto
  have "row_key r \<noteq> row_key r'" if "r \<in> set rows" "r' \<in> set old" for r r'
  proof -
    from that(1) have "row_key r \<in> set (map fst (batch_payouts pr blks))"
      unfolding keys [symmetric] by simp
    then obtain x where x: "x \<in> set (batch_payouts pr blks)" "row_key r = fst x" by auto
    then obtain rc where "rc \<in> set (concat (map b_receipts blks))" "x \<in> set (receipt_payouts pr rc)"
      unfolding batch_payouts_receipts by auto
    then have "fst (row_key r) \<notin> vd_action_hash ` set old"
      using receipt_payouts_hash [of x] assms(3) x(2) by metis
    with that(2) show ?thesis by (auto simp: row_key_def)
  qed
  then show "row_key ` set rows \<inter> row_key ` set old = {}" by blast
qed

text \<open>
  C6: The era totals agree with the payout rows. From a plugin with nothing pending and books that
  balance, a batch that commits leaves books that balance: for every era the total is the sum and
  the count the number of its payout rows, given only that no receipt of the batch shares its
  action hash with another or with a row already indexed.
\<close>

theorem books_stay_balanced:
  assumes "vr_PutBlocks en f name blks (p, w) = (Inr (), p', w')"
    and "idle p" and "books_balance (tables w)" and "\<forall>b \<in> set blks. b_height b \<noteq> 0"
    and "distinct (map r_action_hash (concat (map b_receipts blks)))"
    and "\<forall>r \<in> set (concat (map b_receipts blks)). small_receipt (en_protocol en) r
          \<and> hex_encode (r_action_hash r) \<notin> vd_action_hash ` set (vr_rows (tables w))"
  shows "books_balance (tables w') \<and> idle p'"
proof -
  obtain p1 where p1: "eachS (putBlock en) blks p = (Inr (), p1)"
      "p' = promotePendingMemos (clear_pending (p1\<lparr>vp_tip := b_height (last blks)\<rparr>))"
      "tables w' = batch_written (vp_rows p1) (vp_dests p1) (map snd (vp_eras p1))
           (dedupeConfigs (vp_configs p1)) (tables w)"
    using vr_PutBlocks_ok [OF assms(1)] by blast
  have ok: "pending_ok p1"
    using putBlocks_pending_ok [OF p1(1) idle_pending_ok [OF assms(2)] assms(4)] .
  have payouts: "map payout_of (vp_rows p1) = batch_payouts (en_protocol en) blks"
    using putBlocks_rows [OF p1(1)] assms(2) by (simp add: idle_def)
  from fold_insert_row [OF batch_rows_fresh [OF payouts assms(5,6)]]
  have rows: "vr_rows (tables w') = vr_rows (tables w) @ vp_rows p1" by (simp add: p1(3))
  show ?thesis
    using batch_written_totals [OF ok p1(3)] assms(3) p1(2)
    by (simp add: books_balance_def rows idle_after_commit)
qed

subsection \<open>Memos\<close>

definition memo_safe :: "vr_plugin \<Rightarrow> vr_tables \<Rightarrow> bool" where
  "memo_safe p t \<longleftrightarrow> pending_ok p \<and>
     (\<forall>e \<in> vp_era_seen p. \<exists>r. vr_eras t e = Some r \<and> er_first_chunk r \<noteq> 0)"

lemma memo_safe_frame: "memo_safe (p\<lparr>vp_tip := h\<rparr>) t = memo_safe p t"
  by (simp add: memo_safe_def pending_ok_frame)

lemma memo_safe_putBlocks:
  assumes "eachS (putBlock en) blks p = (x, p1)" and "memo_safe p t"
    and "\<forall>b \<in> set blks. b_height b \<noteq> 0"
  shows "memo_safe p1 t"
proof -
  have "keeps (\<lambda>q. vp_era_seen q = vp_era_seen p) (eachS (putBlock en) blks)"
    by (intro keeps_eachS keeps_seen_putBlock)
  from keepsD [OF this refl assms(1)] have "vp_era_seen p1 = vp_era_seen p" .
  with assms putBlocks_pending_ok [OF assms(1) _ assms(3)] show ?thesis
    by (simp add: memo_safe_def)
qed

lemma pending_ok_idle_shape:
  "vp_rows p = [] \<Longrightarrow> vp_eras p = [] \<Longrightarrow> vp_pending_seen p = {} \<Longrightarrow> pending_ok p"
  by (simp add: pending_ok_def era_pending_def new_era_def)

lemma memo_safe_committed:
  assumes "memo_safe p t"
    and "t' = batch_written (vp_rows p) (vp_dests p) (map snd (vp_eras p)) cs t"
  shows "memo_safe (promotePendingMemos (clear_pending p)) t'"
proof -
  have ok: "pending_ok p" using assms(1) by (simp add: memo_safe_def)
  note eras = batch_written_eras [OF ok, of cs t, folded assms(2)]
  have "\<exists>r. vr_eras t' e = Some r \<and> er_first_chunk r \<noteq> 0"
    if "e \<in> vp_era_seen p \<or> e \<in> vp_pending_seen p" for e
  proof (cases "e \<in> vp_pending_seen p")
    case True
    then obtain r where "map_of (vp_eras p) e = Some r" "er_first_chunk r \<noteq> 0"
      using ok by (auto simp: pending_ok_def)
    then show ?thesis by (auto simp: eras merge_era_adds split: option.splits)
  next
    case False
    with that assms(1) obtain r where "vr_eras t e = Some r" "er_first_chunk r \<noteq> 0"
      by (auto simp: memo_safe_def)
    then show ?thesis by (auto simp: eras merge_era_adds split: option.splits)
  qed
  then show ?thesis
    by (auto simp: memo_safe_def promotePendingMemos_def clear_pending_def Let_def
        intro!: pending_ok_idle_shape)
qed

text \<open>
  C13: The memos never run ahead of the database: whatever a batch does, whether it commits, is
  refused or fails in the middle, an era whose plan the plugin will not read again has its row
  in the database with the height of its first chunk, and what is pending still adds up.
\<close>

theorem memos_never_ahead:
  assumes "vr_PutBlocks en f name blks (p, w) = (r, p', w')"
    and "memo_safe p (tables w)" and "\<forall>b \<in> set blks. b_height b \<noteq> 0"
  shows "memo_safe p' (tables w')"
proof (cases r)
  case (Inr u)
  with assms(1) have "vr_PutBlocks en f name blks (p, w) = (Inr (), p', w')" by simp
  then obtain p1 where p1: "eachS (putBlock en) blks p = (Inr (), p1)"
      "p' = promotePendingMemos (clear_pending (p1\<lparr>vp_tip := b_height (last blks)\<rparr>))"
      "tables w' = batch_written (vp_rows p1) (vp_dests p1) (map snd (vp_eras p1))
           (dedupeConfigs (vp_configs p1)) (tables w)"
    by (rule vr_PutBlocks_ok)
  have "memo_safe (p1\<lparr>vp_tip := b_height (last blks)\<rparr>) (tables w)"
    using memo_safe_putBlocks [OF p1(1) assms(2,3)] by (simp add: memo_safe_frame)
  from memo_safe_committed [OF this] p1(2,3) show ?thesis by simp
next
  case (Inl e)
  with assms(1) have "vr_PutBlocks en f name blks (p, w) = (Inl e, p', w')" by simp
  then show ?thesis
  proof (cases rule: vr_PutBlocks_error)
    case 1
    with memo_safe_putBlocks [OF _ assms(2,3)] show ?thesis by simp
  next
    case (2 p1)
    have ok: "memo_safe p1 (tables w)" using memo_safe_putBlocks [OF 2(2) assms(2,3)] .
    then have "memo_safe (dropPendingMemos (clear_pending (p1\<lparr>vp_tip := b_height (last blks)\<rparr>))) (tables w)"
      by (auto simp: memo_safe_def dropPendingMemos_def clear_pending_def intro!: pending_ok_idle_shape)
    with ok 2(1,3) show ?thesis by auto
  qed
qed

subsection \<open>The attribution of an opt-in\<close>

definition attributed :: "string \<times> u64 \<Rightarrow> u64 \<Rightarrow> vr_tables \<Rightarrow> bool" where
  "attributed k h t \<longleftrightarrow> (\<exists>c. vr_configs t k = Some c \<and> cg_source c = ''action'' \<and> cg_opt_in_height c = h)"

lemma attributed_upsert: "attributed k h t \<Longrightarrow> attributed k h (upsert_config c t)"
  by (auto simp: attributed_def upsert_config_def)

lemma attributed_upgrade: "attributed k h t \<Longrightarrow> attributed k h (upgrade_one c t)"
  by (auto simp: attributed_def upgrade_one_def split: option.splits)

lemma attributed_batch: "attributed k h t \<Longrightarrow> attributed k h (batch_written rows dests eras cs t)"
proof -
  assume k: "attributed k h t"
  have up: "attributed k h (fold upsert_config xs u)" if "attributed k h u" for xs u
    using that by (induction xs arbitrary: u) (simp_all add: attributed_upsert)
  have grade: "attributed k h (upgradeOptInAttribution xs u)" if "attributed k h u" for xs u
    using that unfolding upgradeOptInAttribution_def
    by (induction xs arbitrary: u) (simp_all add: attributed_upgrade)
  show ?thesis
    unfolding batch_written_def by (intro grade up) (use k in \<open>simp add: attributed_def\<close>)
qed

text \<open>
  The attribution of an opt-in is monotone: a configuration row that records an opt-in by an
  explicit action keeps that source and its height through every batch, even one whose
  reconciliation, after a restart, has forgotten the action and would call it a migration.
\<close>

theorem opt_in_attribution_monotone:
  assumes "vr_PutBlocks en f name blks (p, w) = (r, p', w')" and "attributed k h (tables w)"
  shows "attributed k h (tables w')"
proof (cases r)
  case (Inr u)
  with assms(1) have "vr_PutBlocks en f name blks (p, w) = (Inr (), p', w')" by simp
  then show ?thesis
    by (rule vr_PutBlocks_ok) (use assms(2) in \<open>simp add: attributed_batch\<close>)
next
  case (Inl e)
  with assms(1) have "vr_PutBlocks en f name blks (p, w) = (Inl e, p', w')" by simp
  then show ?thesis
    by (rule vr_PutBlocks_error) (use assms(2) in simp_all)
qed

subsection \<open>A concrete settlement\<close>

text \<open>
  A node without candidates whose settlement is era 24, one that fails that read, and a block
  with one distribution log: two voters of the era, paid 5 and 7.
\<close>

definition example_node :: "bool \<Rightarrow> node" where
  "example_node up = \<lparr>nd_read = (\<lambda>_ _ _ _. if up then Inr [] else Inl RpcError),
     nd_candidates = (\<lambda>_ _ _. Inr []), nd_un_candidates = (\<lambda>_. Inr []),
     nd_un_distribution = (\<lambda>_. Inr \<lparr>ds_target_era = 24, ds_freeze_height = 5, ds_scan_phase = 1,
        ds_resume_voter = [], ds_completed = False, ds_completed_height = 0, ds_allocs = []\<rparr>),
     nd_un_snapshot = (\<lambda>_. Inl RpcError), nd_un_payout = (\<lambda>_. Inl RpcError)\<rparr>"

definition example_env :: "bool \<Rightarrow> vr_env" where
  "example_env up = \<lparr>en_protocol = example_protocol, en_client = Some (example_node up),
     en_page_fuel = 1, en_epoch_num = (\<lambda>_. 1), en_epoch_height = (\<lambda>_. 1), en_epoch_last = (\<lambda>_. 100),
     en_era_boundary = (\<lambda>_. False)\<rparr>"

definition example_payout_log :: log where
  "example_payout_log = \<lparr>log_address = ''io_rewarding'', log_topics = [[1]], log_data = []\<rparr>"

definition example_payout_block :: block where
  "example_payout_block = \<lparr>b_height = 9, b_timestamp = 0, b_actions = [],
     b_receipts = [\<lparr>r_status = 1, r_action_hash = [7], r_gas_consumed = 0, r_tx_index = 0,
       r_logs = [example_payout_log], r_tx_logs = []\<rparr>]\<rparr>"

definition empty_vr_world :: "vr_tables world" where
  "empty_vr_world = \<lparr>tables = \<lparr>vr_rows = [], vr_dests = [], vr_eras = Map.empty, vr_configs = Map.empty\<rparr>,
     heights = [''voter_reward'' \<mapsto> 8], index_cache = Map.empty\<rparr>"

lemma example_distribution:
  "DecodeDistribution example_protocol example_payout_log =
     Inr [\<lparr>dr_era = 24, dr_delegate = ''io_d'', dr_voter = ''io_v'', dr_recipient = ''io_v'',
            dr_amount = Some 5, dr_compounded = True, dr_bucket = 0, dr_row_index = 0\<rparr>,
          \<lparr>dr_era = 24, dr_delegate = ''io_d'', dr_voter = ''io_w'', dr_recipient = ''io_r'',
            dr_amount = Some 7, dr_compounded = False, dr_bucket = 0, dr_row_index = 1\<rparr>]"
  by (simp add: DecodeDistribution_def example_protocol_def example_payout_log_def
      distribution_row_at_def idx_def upt_rec)

lemma example_log_otherwise:
  "DecodeOptIn example_protocol example_payout_log = Inr []"
  "DecodeFreeze example_protocol example_payout_log = Inr None"
  "DecodeDestination example_protocol example_payout_log = Inr None"
  "DecodeRewardBookkeeping example_protocol example_payout_log = Inr (None, None)"
  by (simp_all add: DecodeOptIn_def DecodeFreeze_def DecodeDestination_def
      DecodeRewardBookkeeping_def example_protocol_def example_payout_log_def)

lemma example_env_simps [simp]:
  "en_protocol (example_env up) = example_protocol"
  "en_client (example_env up) = Some (example_node up)"
  "en_page_fuel (example_env up) = 1"
  "en_epoch_num (example_env up) h = 1"
  "en_epoch_height (example_env up) k = 1"
  "en_era_boundary (example_env up) k = False"
  by (simp_all add: example_env_def)

lemma example_settlement:
  "ReadDistributionState (example_node up) h = (if up then Inr \<lparr>ds_target_era = 24,
     ds_freeze_height = 5, ds_scan_phase = 1, ds_resume_voter = [], ds_completed = False,
     ds_completed_height = 0, ds_allocs = []\<rparr> else Inl RpcError)"
  by (simp add: ReadDistributionState_def example_node_def)

lemma example_refresh:
  "Refresh (Suc 0) (example_node up) 8 ix = Inr \<lparr>ix_by_id = [], ix_by_owner = [], ix_height = 8\<rparr>"
proof -
  have "stakingCandidatePage (example_node up) off lim h = Inr []" for off lim h
    by (simp add: stakingCandidatePage_def example_node_def)
  then show ?thesis
    by (simp add: Refresh_def allStakingCandidates_def readCandidatesLimit_def)
qed

lemma example_consume:
  "consumeLog (example_env up) 9 1 (hex_encode [7]) 0 example_payout_log =
     eachS (consume_row (example_env up) 9 1 (hex_encode [7]) 0)
       [\<lparr>dr_era = 24, dr_delegate = ''io_d'', dr_voter = ''io_v'', dr_recipient = ''io_v'',
          dr_amount = Some 5, dr_compounded = True, dr_bucket = 0, dr_row_index = 0\<rparr>,
        \<lparr>dr_era = 24, dr_delegate = ''io_d'', dr_voter = ''io_w'', dr_recipient = ''io_r'',
          dr_amount = Some 7, dr_compounded = False, dr_bucket = 0, dr_row_index = 1\<rparr>]"
proof -
  have tail: "bindS m (\<lambda>_. updS id) = m" for m :: "vr_plugin \<Rightarrow> unit res \<times> vr_plugin"
    by (rule ext) (auto simp: bindS_def updS_def split: prod.splits sum.splits)
  have skip: "bindS (decodedS (Inr x)) f = f x" for x :: 'a and f :: "'a \<Rightarrow> vr_plugin \<Rightarrow> unit res \<times> vr_plugin"
    by (rule ext) simp
  have noop: "bindS (updS id) f = f ()" for f :: "unit \<Rightarrow> vr_plugin \<Rightarrow> unit res \<times> vr_plugin"
    by (rule ext) simp
  have opt: "record_opt_in [] 9 = id" by (rule ext) (simp add: record_opt_in_def)
  show ?thesis
    by (simp only: consumeLog_def Let_def example_env_simps example_distribution example_log_otherwise skip opt noop
        option.case prod.case tail)
qed

lemma example_putBlock:
  "putBlock (example_env up) example_payout_block =
     bindS (refreshCandidatesIfNeeded (example_env up) 9 1) (\<lambda>_.
     bindS (updS (\<lambda>p. p\<lparr>vp_chunk_eras := {}\<rparr>)) (\<lambda>_.
     bindS (consumeLog (example_env up) 9 1 (hex_encode [7]) 0 example_payout_log) (\<lambda>_.
     bindS (refreshChunkedEras (example_env up) 9) (\<lambda>_. indexFrozenEra (example_env up) 9 1))))"
proof -
  have one: "eachS f [x] = f x" for f :: "'b \<Rightarrow> vr_plugin \<Rightarrow> unit res \<times> vr_plugin" and x
    by (rule ext) (auto simp: bindS_def split: prod.splits sum.splits)
  obtain r where r: "b_receipts example_payout_block = [r]" "b_height example_payout_block = 9"
      "r_action_hash r = [7]" "r_logs r = [example_payout_log]"
    by (simp add: example_payout_block_def)
  have logs: "indexed_logs r = [(hex_encode [7], 0, example_payout_log)]"
    by (simp add: indexed_logs_def r)
  show ?thesis
    unfolding putBlock_def Let_def r example_env_simps one logs prod.case ..
qed

lemma example_consume_row:
  "consume_row (example_env up) 9 1 (hex_encode [7]) 0 r p =
    (let p1 = on_era (dr_era r)
          (\<lambda>e. e\<lparr>er_voter_count := er_voter_count e + 1,
             er_total_distributed := er_total_distributed e + dec (dr_amount r), er_last_chunk := 9\<rparr>)
          (p\<lparr>vp_rows := vp_rows p @ [distribution_vr_row p 9 1 (hex_encode [7]) 0 r]\<rparr>)
     in if isEraSeen (dr_era r) p1 then (Inr (), p1)
        else if \<not> up then (Inl RpcError, p1)
        else if dr_era r \<noteq> 24 then (Inr (), p1)
        else plan_era (example_env True) (example_node True) \<lparr>ds_target_era = 24,
     ds_freeze_height = 5, ds_scan_phase = 1, ds_resume_voter = [], ds_completed = False,
     ds_completed_height = 0, ds_allocs = []\<rparr> 24 9 p1)"
  by (auto simp: consume_row_def ensureEraPlan_def example_settlement Let_def)

lemmas example_run = example_putBlock bindS_def refreshCandidatesIfNeeded_def New_def
  NewCandidateIndex_def example_refresh example_consume example_consume_row updS_def isEraSeen_def
  Let_def plan_era_def decodedS_def sum_allocations_def snapshotDelegateConfigs_def All_def
  refreshChunkedEras_def indexFrozenEra_def

definition example_rows :: "vr_row list" where
  "example_rows =
     [\<lparr>vd_height = 9, vd_epoch = 1, vd_era = 24, vd_action_hash = hex_encode [7], vd_log_index = 0,
       vd_row_index = 0, vd_delegate = ''io_d'', vd_delegate_name = [], vd_voter = ''io_v'',
       vd_recipient = ''io_v'', vd_amount = 5, vd_compounded = True, vd_bucket = 0\<rparr>,
      \<lparr>vd_height = 9, vd_epoch = 1, vd_era = 24, vd_action_hash = hex_encode [7], vd_log_index = 0,
       vd_row_index = 1, vd_delegate = ''io_d'', vd_delegate_name = [], vd_voter = ''io_w'',
       vd_recipient = ''io_r'', vd_amount = 7, vd_compounded = False, vd_bucket = 0\<rparr>]"

text \<open>The plugin after an attempt that failed at the first payout.\<close>

definition half_way :: vr_plugin where
  "half_way = New\<lparr>vp_candidates := \<lparr>ix_by_id = [], ix_by_owner = [], ix_height = 8\<rparr>,
     vp_rows := [hd example_rows],
     vp_eras := [(24, (new_era 24)\<lparr>er_voter_count := 1, er_total_distributed := 5, er_last_chunk := 9\<rparr>)]\<rparr>"

lemma example_up:
  "\<exists>p1. putBlock (example_env True) example_payout_block New = (Inr (), p1) \<and> vp_rows p1 = example_rows"
  by (simp add: example_run distribution_vr_row_def Lookup_def dec_def example_rows_def on_era_def)

lemma example_down:
  "putBlock (example_env False) example_payout_block New = (Inl RpcError, half_way)"
  by (simp add: example_run distribution_vr_row_def Lookup_def dec_def example_rows_def half_way_def
      on_era_def era_pending_def new_era_def)

lemma example_again:
  "\<exists>p1. putBlock (example_env True) example_payout_block half_way = (Inr (), p1)
     \<and> vp_rows p1 = hd example_rows # example_rows"
  by (simp add: example_run distribution_vr_row_def Lookup_def dec_def example_rows_def half_way_def
      on_era_def)

lemma vr_PutBlocks_runs:
  assumes "eachS (putBlock en) blks p = (Inr (), p1)" and "blks \<noteq> []"
  shows "\<exists>p' w'. vr_PutBlocks en no_faults name blks (p, w) = (Inr (), p', w')
    \<and> tables w' = batch_written (vp_rows p1) (vp_dests p1) (map snd (vp_eras p1))
         (dedupeConfigs (vp_configs p1)) (tables w)"
  using assms by (simp add: vr_PutBlocks_def commit_def index_tx_no_faults write_batch_deduped)

lemma example_put_up:
  "\<exists>p' w'. vr_PutBlocks (example_env True) no_faults ''voter_reward'' [example_payout_block]
      (New, empty_vr_world) = (Inr (), p', w')"
proof -
  obtain p1 where "eachS (putBlock (example_env True)) [example_payout_block] New = (Inr (), p1)"
    using example_up by auto
  from vr_PutBlocks_runs [OF this] show ?thesis by blast
qed

lemma example_put_down:
  "vr_PutBlocks (example_env False) no_faults ''voter_reward'' [example_payout_block]
      (New, empty_vr_world) = (Inl RpcError, half_way, empty_vr_world)"
  by (simp add: vr_PutBlocks_def example_down)

lemma example_put_again:
  "\<exists>p' w'. vr_PutBlocks (example_env True) no_faults ''voter_reward'' [example_payout_block]
      (half_way, empty_vr_world) = (Inr (), p', w') \<and> vr_rows (tables w') = example_rows"
proof -
  obtain p1 where p1: "eachS (putBlock (example_env True)) [example_payout_block] half_way = (Inr (), p1)"
      "vp_rows p1 = hd example_rows # example_rows"
    using example_again by auto
  have "fold insert_row (vp_rows p1) [] = example_rows"
    by (simp add: p1(2) example_rows_def insert_row_def row_key_def)
  with vr_PutBlocks_runs [OF p1(1), of "''voter_reward''" empty_vr_world] show ?thesis
    by (auto simp: empty_vr_world_def)
qed

lemma example_batch: "batch_payouts example_protocol [example_payout_block] = map payout_of example_rows"
proof -
  obtain p1 where "eachS (putBlock (example_env True)) [example_payout_block] New = (Inr (), p1)"
      "vp_rows p1 = example_rows" using example_up by auto
  from putBlocks_rows [OF this(1)] this(2) show ?thesis by (simp add: New_def)
qed

lemma New_idle: "idle New"
  by (simp add: idle_def New_def)

lemma half_way_pending_ok: "pending_ok half_way"
  using keepsD [OF keeps_putBlock idle_pending_ok [OF New_idle] example_down]
  by (simp add: example_payout_block_def)

theorem books_stay_balanced_witness:
  "\<exists>p' w'. vr_PutBlocks (example_env True) no_faults ''voter_reward'' [example_payout_block]
      (New, empty_vr_world) = (Inr (), p', w') \<and> books_balance (tables w') \<and> idle p'"
proof -
  obtain p' w' where run: "vr_PutBlocks (example_env True) no_faults ''voter_reward''
      [example_payout_block] (New, empty_vr_world) = (Inr (), p', w')"
    using example_put_up by blast
  have "books_balance (tables empty_vr_world)"
    by (simp add: books_balance_def eras_keyed_def era_total_def era_count_def empty_vr_world_def)
  then have "books_balance (tables w') \<and> idle p'"
    by (intro books_stay_balanced [OF run New_idle])
      (auto simp: example_payout_block_def small_receipt_def small_log_def example_distribution
        empty_vr_world_def)
  with run show ?thesis by blast
qed

theorem era_total_after_batch_witness:
  "\<exists>p' w'. vr_PutBlocks (example_env True) no_faults ''voter_reward'' [example_payout_block]
      (half_way, empty_vr_world) = (Inr (), p', w') \<and> era_total (tables w') 24 = 0 + 5 + 12"
proof -
  obtain p' w' where run: "vr_PutBlocks (example_env True) no_faults ''voter_reward''
      [example_payout_block] (half_way, empty_vr_world) = (Inr (), p', w')"
    using example_put_again by blast
  have "\<forall>b \<in> set [example_payout_block]. b_height b \<noteq> 0"
    by (simp add: example_payout_block_def)
  from era_total_after_batch [OF run half_way_pending_ok this, of 24] run show ?thesis
    by (simp add: example_batch half_way_def example_rows_def payouts_of_era_def payout_of_def
        empty_vr_world_def era_total_def)
qed

theorem memos_never_ahead_witness:
  "memo_safe half_way (tables empty_vr_world)"
proof (rule memos_never_ahead [OF example_put_down])
  show "memo_safe New (tables empty_vr_world)"
    using idle_pending_ok [OF New_idle] by (simp add: memo_safe_def New_def)
qed (simp add: example_payout_block_def)

theorem opt_in_attribution_monotone_witness:
  "\<exists>p' w'. vr_PutBlocks (example_env True) no_faults ''voter_reward'' [example_payout_block]
      (New, empty_vr_world\<lparr>tables := (tables empty_vr_world)\<lparr>vr_configs :=
         [(''io_d'', 24) \<mapsto> base_config Map.empty [''io_d'' \<mapsto> 3] 24 9
            (info_of (example_candidate ''d'')\<lparr>in_identifier := ''io_d''\<rparr>)
            \<lparr>py_address = [], py_onchain = True\<rparr>]\<rparr>\<rparr>) = (Inr (), p', w')
    \<and> attributed (''io_d'', 24) 3 (tables w')"
proof -
  let ?w = "empty_vr_world\<lparr>tables := (tables empty_vr_world)\<lparr>vr_configs :=
         [(''io_d'', 24 :: u64) \<mapsto> base_config Map.empty [''io_d'' \<mapsto> 3] 24 9
            (info_of (example_candidate ''d'')\<lparr>in_identifier := ''io_d''\<rparr>)
            \<lparr>py_address = [], py_onchain = True\<rparr>]\<rparr>\<rparr>"
  obtain p1 where "eachS (putBlock (example_env True)) [example_payout_block] New = (Inr (), p1)"
    using example_up by auto
  from vr_PutBlocks_runs [OF this, of "''voter_reward''" ?w] obtain p' w' where
    run: "vr_PutBlocks (example_env True) no_faults ''voter_reward'' [example_payout_block] (New, ?w)
      = (Inr (), p', w')" by blast
  have "attributed (''io_d'', 24) 3 (tables ?w)"
    by (simp add: attributed_def base_config_def)
  from opt_in_attribution_monotone [OF run this] run show ?thesis by blast
qed

text \<open>What an attempt that fails leaves pending: the payouts of a first part of the batch.\<close>

lemma failed_attempt_leaves:
  assumes "vr_PutBlocks en f name blks (p, w) = (Inl e, q, w1)" and "idle p" and "\<forall>b \<in> set blks. b_height b \<noteq> 0"
  shows "tables w1 = tables w \<and> pending_ok q \<and>
    (\<exists>zs. batch_payouts (en_protocol en) blks = map payout_of (vp_rows q) @ zs)"
  using assms(1)
proof (cases rule: vr_PutBlocks_error)
  case 1
  with putBlocks_rows_error [OF 1(2)] putBlocks_pending_ok [OF 1(2) idle_pending_ok [OF assms(2)] assms(3)] assms(2)
  show ?thesis by (auto simp: idle_def)
next
  case (2 p1)
  have "idle (dropPendingMemos (clear_pending p1'))" for p1'
    by (simp add: idle_def dropPendingMemos_def clear_pending_def Let_def)
  with 2 putBlocks_rows [OF 2(2)] putBlocks_pending_ok [OF 2(2) idle_pending_ok [OF assms(2)] assms(3)] assms(2)
  show ?thesis by (auto simp: idle_pending_ok) (auto simp: idle_def)
qed

lemma era_rows_payouts:
  "length (filter (era_rows e) rows) = length (filter (\<lambda>x. fst (snd x) = e) (map payout_of rows))"
  by (induction rows) (simp_all add: payout_of_def era_rows_def)

text \<open>
  C40: What a failed attempt of a batch gathered is counted twice. Where the books balance, a batch that fails
  leaves the payouts of its first part pending, and when it is put again and committed, the total of each
  era exceeds the sum, and its count the number, of its payout rows by exactly those payouts: the rows
  are protected by their unique index, the totals are not.
\<close>

theorem failed_batch_counts_twice:
  assumes "vr_PutBlocks en f name blks (p, w) = (Inl e, q, w1)" and "idle p" and "books_balance (tables w)"
    and "vr_PutBlocks en2 f2 name blks (q, w1) = (Inr (), p', w')" and "en_protocol en2 = en_protocol en"
    and "\<forall>b \<in> set blks. b_height b \<noteq> 0" and "distinct (map r_action_hash (concat (map b_receipts blks)))"
    and "\<forall>r \<in> set (concat (map b_receipts blks)). small_receipt (en_protocol en) r
          \<and> hex_encode (r_action_hash r) \<notin> vd_action_hash ` set (vr_rows (tables w))"
  shows "(\<exists>zs. batch_payouts (en_protocol en) blks = map payout_of (vp_rows q) @ zs) \<and>
    era_total (tables w') era = sum_rows (era_rows era) vd_amount (vr_rows (tables w'))
      + sum_rows (era_rows era) vd_amount (vp_rows q) \<and>
    era_count (tables w') era = word_of_nat (length (filter (era_rows era) (vr_rows (tables w'))))
      + word_of_nat (length (filter (era_rows era) (vp_rows q)))"
proof -
  from failed_attempt_leaves [OF assms(1,2,6)] obtain zs where w1: "tables w1 = tables w" and q: "pending_ok q"
    and zs: "batch_payouts (en_protocol en) blks = map payout_of (vp_rows q) @ zs" by blast
  obtain p1 where p1: "eachS (putBlock en2) blks q = (Inr (), p1)"
      "tables w' = batch_written (vp_rows p1) (vp_dests p1) (map snd (vp_eras p1)) (dedupeConfigs (vp_configs p1)) (tables w1)"
    using vr_PutBlocks_ok [OF assms(4)] by blast
  have ok: "pending_ok p1" using putBlocks_pending_ok [OF p1(1) q assms(6)] .
  from putBlocks_rows [OF p1(1)] obtain left new where rows: "vp_rows p1 = left @ new"
      and left: "map payout_of left = map payout_of (vp_rows q)"
      and new: "map payout_of new = batch_payouts (en_protocol en) blks"
    by (auto simp: map_eq_append_conv assms(5))
  have again: "map payout_of new = map payout_of left @ zs" by (simp add: new zs left)
  from fold_insert_again [OF batch_rows_fresh [OF new assms(7,8)] again]
  have stored: "map payout_of (vr_rows (tables w')) = map payout_of (vr_rows (tables w)) @ map payout_of new"
    by (simp add: p1(2) rows w1)
  have "era_total (tables w') era = era_total (tables w) era + payouts_of_era era (map payout_of (left @ new))"
    "era_count (tables w') era = era_count (tables w) era + word_of_nat (length (filter (era_rows era) (left @ new)))"
    using batch_written_totals(1,2) [OF ok p1(2), of era] by (simp_all add: w1 rows sum_rows_payouts)
  moreover have "era_total (tables w) era = payouts_of_era era (map payout_of (vr_rows (tables w)))"
    "era_count (tables w) era = word_of_nat (length (filter (era_rows era) (vr_rows (tables w))))"
    using assms(3) by (simp_all add: books_balance_def sum_rows_payouts)
  ultimately show ?thesis
    unfolding sum_rows_payouts era_rows_payouts stored map_append left using zs by (simp add: new)
qed

theorem failed_batch_counts_twice_witness:
  "\<exists>p' w'. vr_PutBlocks (example_env False) no_faults ''voter_reward'' [example_payout_block]
      (New, empty_vr_world) = (Inl RpcError, half_way, empty_vr_world)
    \<and> vr_PutBlocks (example_env True) no_faults ''voter_reward'' [example_payout_block]
      (half_way, empty_vr_world) = (Inr (), p', w')
    \<and> sum_rows (era_rows 24) vd_amount (vr_rows (tables w')) = 12 \<and> era_total (tables w') 24 = 17"
proof -
  obtain p' w' where run: "vr_PutBlocks (example_env True) no_faults ''voter_reward''
      [example_payout_block] (half_way, empty_vr_world) = (Inr (), p', w')"
      "vr_rows (tables w') = example_rows"
    using example_put_again by blast
  have "books_balance (tables empty_vr_world)"
    by (simp add: books_balance_def eras_keyed_def era_total_def era_count_def empty_vr_world_def)
  then have "era_total (tables w') 24 = sum_rows (era_rows 24) vd_amount (vr_rows (tables w'))
      + sum_rows (era_rows 24) vd_amount (vp_rows half_way)"
    using failed_batch_counts_twice [OF example_put_down New_idle _ run(1), of 24]
    by (auto simp: example_env_def example_payout_block_def small_receipt_def small_log_def example_distribution
        empty_vr_world_def)
  then have "era_total (tables w') 24 = 17"
    by (simp add: run(2) half_way_def example_rows_def era_rows_def)
  moreover have "sum_rows (era_rows 24) vd_amount (vr_rows (tables w')) = 12"
    by (simp add: run(2) example_rows_def era_rows_def)
  ultimately show ?thesis using run(1) example_put_down by blast
qed

end
