(* ===== verification/SystemStaking.thy ===== *)
theory SystemStaking
  imports Ledger GoFloat TxSink
begin

text \<open>
  The system staking contracts: kernel/systemstaking/util.go and the three plugins
  plugins/system_staking_bucket_record, ..._v2_record and ..._v3_record. The plugins are three
  copies of one handler that differ in how a duration is stored, in the column \<open>muted\<close> and in the
  event Donated; the record \<open>ss_variant\<close> says which. A row states the bucket after an event of
  its contract, and the sum of its amounts is the bucket's balance. The contract's ABI, the
  address codec and \<open>staking.CalculateVoteWeight\<close> are arguments (\<open>ss_env\<close>).
\<close>

subsection \<open>Durations\<close>

text \<open>A \<open>time.Duration\<close> is an int64 of nanoseconds; its products wrap.\<close>

type_synonym duration = "64 word"

definition Second :: duration where
  "Second = 1000000000"

definition Hour :: duration where
  "Hour = 3600 * Second"

definition half_duration :: "duration \<Rightarrow> duration" where
  "half_duration d = word_of_int (sgn (sint d) * (\<bar>sint d\<bar> div 2))"

definition BlocksToDuration :: "u32 \<Rightarrow> bool \<Rightarrow> duration" where
  "BlocksToDuration blocks halfBlockInterval =
     (let d = ucast blocks * 5 * Second in if halfBlockInterval then half_duration d else d)"

text \<open>\<open>Hours\<close> and \<open>Seconds\<close> of the time package, for a duration that is not negative.\<close>

definition duration_parts :: "duration \<Rightarrow> duration \<Rightarrow> f64" where
  "duration_parts d u =
     (let n = nat (sint d); k = unat u
      in f_add (f_of_nat (n div k)) (f_div (f_of_nat (n mod k)) (f_of_nat k)))"

definition DurationByType :: "duration \<Rightarrow> u8 \<Rightarrow> u32" where
  "DurationByType d durationType =
     (if durationType = 0 then word_of_nat (f_trunc (f_div (duration_parts d Hour) (f_of_nat 24)))
      else if durationType = 1 \<or> durationType = 2 then word_of_nat (f_trunc (duration_parts d Second))
      else 0)"

definition DurationFromType :: "u32 \<Rightarrow> u8 \<Rightarrow> duration" where
  "DurationFromType d durationType =
     (if durationType = 0 then ucast (d * 24) * Hour
      else if durationType = 1 \<or> durationType = 2 then ucast d * Second
      else 0)"

subsection \<open>Rows and surroundings\<close>

text \<open>\<open>lr_candidate\<close> is the delegate's owner address, \<open>lr_act_type\<close> the event type.\<close>

record ss_row = ledger_row +
  ss_create_time :: int
  ss_stake_start :: int
  ss_unstake_start :: int
  ss_staked :: int
  ss_power :: int
  ss_sender :: string
  ss_recipient :: string
  ss_timestamp :: int
  ss_act_hash :: string
  ss_final :: bool
  ss_muted :: bool
  ss_duration_type :: u8

record ss_env =
  se_event :: "hash256 \<Rightarrow> string option" \<comment> \<open>EventByID\<close>
  se_staked :: "byte list \<Rightarrow> (string \<times> nat \<times> nat) res" \<comment> \<open>delegate, amount, duration\<close>
  se_locked :: "byte list \<Rightarrow> nat res"
  se_merged :: "byte list \<Rightarrow> (nat list \<times> nat \<times> nat) res" \<comment> \<open>buckets, amount, duration\<close>
  se_expanded :: "byte list \<Rightarrow> (nat \<times> nat) res" \<comment> \<open>amount, duration\<close>
  se_delegate :: "byte list \<Rightarrow> string res"
  se_donated :: "byte list \<Rightarrow> nat res"
  se_address :: "byte list \<Rightarrow> string res"
  se_zero_address :: string
  se_weight :: "duration \<Rightarrow> int \<Rightarrow> bool \<Rightarrow> bool \<Rightarrow> int"
  se_redsea :: u64

text \<open>
  What tells the three plugins apart: the contract, the height from which a block takes 2.5s
  (\<open>blockIntervalHalfHeight\<close> of v1, \<open>muteHeight\<close> of v2; 0 for none), whether durations are seconds
  (v3), the column \<open>muted\<close>, and the event Donated (v2 and v3).
\<close>

record ss_variant =
  sv_contract :: string
  sv_half_height :: u64
  sv_seconds :: bool
  sv_muted :: "bool \<Rightarrow> string \<Rightarrow> bool \<Rightarrow> bool"
  sv_donates :: bool

definition v1_variant :: "string \<Rightarrow> u64 \<Rightarrow> ss_variant" where
  "v1_variant contract half = \<lparr>sv_contract = contract, sv_half_height = half, sv_seconds = False,
     sv_muted = (\<lambda>_ _ _. False), sv_donates = False\<rparr>"

definition v2_variant :: "string \<Rightarrow> u64 \<Rightarrow> ss_variant" where
  "v2_variant contract mute = \<lparr>sv_contract = contract, sv_half_height = mute, sv_seconds = False,
     sv_muted = (\<lambda>shouldMute ev m.
        if ev \<in> {''Staked'', ''Locked'', ''Merged'', ''BucketExpanded'', ''Donated''} then shouldMute \<or> m
        else m),
     sv_donates = True\<rparr>"

definition v3_variant :: "string \<Rightarrow> ss_variant" where
  "v3_variant contract = \<lparr>sv_contract = contract, sv_half_height = 0, sv_seconds = True,
     sv_muted = (\<lambda>_ ev m. ev \<in> {''Unstaked'', ''Locked'', ''Unlocked''} \<and> m), sv_donates = True\<rparr>"

definition halved :: "ss_variant \<Rightarrow> u64 \<Rightarrow> bool" where
  "halved v h \<longleftrightarrow> sv_half_height v > 0 \<and> h \<ge> sv_half_height v"

definition GetVoteWeight :: "ss_env \<Rightarrow> u64 \<Rightarrow> duration \<Rightarrow> int \<Rightarrow> bool \<Rightarrow> bool \<Rightarrow> int" where
  "GetVoteWeight env h d amount autoStake selfStake =
     (if h < se_redsea env then amount else se_weight env d amount autoStake selfStake)"

text \<open>\<open>Last(&bi)\<close>, or gorm.ErrRecordNotFound; \<open>sum(amount)\<close> is \<open>bucket_sum\<close>.\<close>

definition ss_info :: "u64 \<Rightarrow> ss_row list \<Rightarrow> ss_row res" where
  "ss_info b rows = (case bucket_last b rows of None \<Rightarrow> Inl RecordNotFound | Some r \<Rightarrow> Inr r)"

text \<open>\<open>new(big.Int).SetBytes(topic).Uint64()\<close>, and an address whose error is dropped: using the
  nil address panics.\<close>

definition topic_id :: "log \<Rightarrow> nat \<Rightarrow> u64 res" where
  "topic_id l i = bindE (idx (log_topics l) i) (\<lambda>t. Inr (word_of_nat (be_nat t)))"

definition topic_addr :: "ss_env \<Rightarrow> log \<Rightarrow> nat \<Rightarrow> string res" where
  "topic_addr env l i = bindE (idx (log_topics l) i) (\<lambda>t.
     case se_address env t of Inl _ \<Rightarrow> Inl (Panic ''nil pointer dereference'') | Inr a \<Rightarrow> Inr a)"

definition event_duration :: "ss_variant \<Rightarrow> u64 \<Rightarrow> nat \<Rightarrow> duration" where
  "event_duration v h d =
     (if sv_seconds v then word_of_nat d * Second else BlocksToDuration (word_of_nat d) (halved v h))"

definition stored_duration :: "ss_variant \<Rightarrow> duration \<Rightarrow> u8 \<Rightarrow> u32" where
  "stored_duration v d t =
     (if sv_seconds v then word_of_nat (f_trunc (duration_parts d Second)) else DurationByType d t)"

definition info_duration :: "ss_variant \<Rightarrow> ss_row \<Rightarrow> duration" where
  "info_duration v info =
     (if sv_seconds v then ucast (lr_duration info) * Second
      else DurationFromType (lr_duration info) (ss_duration_type info))"

text \<open>
  The row that continues a bucket: its times, owner, delegate, auto-stake and duration,
  nothing staked and nothing added; each event then sets what its code sets otherwise.
\<close>

definition ss_base :: "ss_variant \<Rightarrow> block \<Rightarrow> envelope \<Rightarrow> u64 \<Rightarrow> string \<Rightarrow> ss_row \<Rightarrow> ss_row" where
  "ss_base v blk e b ev info =
     \<lparr>lr_height = b_height blk, lr_bucket = b, lr_owner = lr_owner info,
      lr_candidate = lr_candidate info, lr_amount = 0, lr_act_type = ev,
      lr_auto_stake = lr_auto_stake info, lr_duration = lr_duration info,
      ss_create_time = ss_create_time info, ss_stake_start = ss_stake_start info,
      ss_unstake_start = ss_unstake_start info, ss_staked = 0, ss_power = 0,
      ss_sender = e_sender e, ss_recipient = [], ss_timestamp = b_timestamp blk,
      ss_act_hash = hex_encode (e_hash e), ss_final = True,
      ss_muted = sv_muted v (halved v (b_height blk)) ev (ss_muted info),
      ss_duration_type = ss_duration_type info\<rparr>"

subsection \<open>The events\<close>

definition ss_staked_event ::
  "ss_variant \<Rightarrow> ss_env \<Rightarrow> block \<Rightarrow> envelope \<Rightarrow> log \<Rightarrow> ss_row list \<Rightarrow> ss_row list res" where
  "ss_staked_event v env blk e l rows =
     bindE (topic_id l 1) (\<lambda>b.
     bindE (ss_info b rows) (\<lambda>info.
     bindE (se_staked env (log_data l)) (\<lambda>(delegate, amount, dur).
       let stakedAmount = bucket_sum b rows + int amount;
           d = event_duration v (b_height blk) dur
       in Inr (rows @ [(ss_base v blk e b ''Staked'' info)
            \<lparr>lr_candidate := delegate, lr_amount := int amount, lr_auto_stake := True,
             lr_duration := stored_duration v d (ss_duration_type info),
             ss_stake_start := b_timestamp blk, ss_unstake_start := 0, ss_staked := stakedAmount,
             ss_power := GetVoteWeight env (b_height blk) d stakedAmount True False,
             ss_duration_type := (if sv_seconds v then 2 else ss_duration_type info)\<rparr>]))))"

definition ss_mint_row :: "ss_variant \<Rightarrow> block \<Rightarrow> envelope \<Rightarrow> u64 \<Rightarrow> string \<Rightarrow> ss_row" where
  "ss_mint_row v blk e b to =
     \<lparr>lr_height = b_height blk, lr_bucket = b, lr_owner = to, lr_candidate = [], lr_amount = 0,
      lr_act_type = ''Transfer'', lr_auto_stake = False, lr_duration = 0,
      ss_create_time = b_timestamp blk, ss_stake_start = 0, ss_unstake_start = 0, ss_staked = 0,
      ss_power = 0, ss_sender = e_sender e, ss_recipient = [], ss_timestamp = b_timestamp blk,
      ss_act_hash = hex_encode (e_hash e), ss_final = False,
      ss_muted = (sv_muted v (halved v (b_height blk)) ''Staked'' False),
      ss_duration_type = (if sv_seconds v then 2 else if halved v (b_height blk) then 1 else 0)\<rparr>"

definition ss_transfer_event ::
  "ss_variant \<Rightarrow> ss_env \<Rightarrow> block \<Rightarrow> envelope \<Rightarrow> log \<Rightarrow> ss_row list \<Rightarrow> ss_row list res" where
  "ss_transfer_event v env blk e l rows =
     bindE (topic_addr env l 1) (\<lambda>from_a.
     bindE (topic_addr env l 2) (\<lambda>to.
     bindE (topic_id l 3) (\<lambda>b.
       if from_a = se_zero_address env then Inr (rows @ [ss_mint_row v blk e b to])
       else bindE (ss_info b rows) (\<lambda>info.
         Inr (rows @ [(ss_base v blk e b ''Transfer'' info)
           \<lparr>lr_owner := to, ss_staked := ss_staked info, ss_power := ss_power info\<rparr>])))))"

definition ss_unstaked_event ::
  "ss_variant \<Rightarrow> block \<Rightarrow> envelope \<Rightarrow> log \<Rightarrow> ss_row list \<Rightarrow> ss_row list res" where
  "ss_unstaked_event v blk e l rows =
     bindE (topic_id l 1) (\<lambda>b.
     bindE (ss_info b rows) (\<lambda>info.
       Inr (rows @ [(ss_base v blk e b ''Unstaked'' info)
         \<lparr>lr_amount := bucket_sum b rows * - 1, ss_unstake_start := b_timestamp blk\<rparr>])))"

definition ss_locked_event ::
  "ss_variant \<Rightarrow> ss_env \<Rightarrow> block \<Rightarrow> envelope \<Rightarrow> log \<Rightarrow> ss_row list \<Rightarrow> ss_row list res" where
  "ss_locked_event v env blk e l rows =
     bindE (topic_id l 1) (\<lambda>b.
     bindE (se_locked env (log_data l)) (\<lambda>dur.
     bindE (ss_info b rows) (\<lambda>info.
       let amount = bucket_sum b rows; d = event_duration v (b_height blk) dur
       in Inr (rows @ [(ss_base v blk e b ''Locked'' info)
            \<lparr>lr_auto_stake := True, lr_duration := stored_duration v d (ss_duration_type info),
             ss_staked := amount,
             ss_power := GetVoteWeight env (b_height blk) d amount True False\<rparr>]))))"

definition ss_unlocked_event ::
  "ss_variant \<Rightarrow> ss_env \<Rightarrow> block \<Rightarrow> envelope \<Rightarrow> log \<Rightarrow> ss_row list \<Rightarrow> ss_row list res" where
  "ss_unlocked_event v env blk e l rows =
     bindE (topic_id l 1) (\<lambda>b.
     bindE (ss_info b rows) (\<lambda>info.
       let amount = bucket_sum b rows
       in Inr (rows @ [(ss_base v blk e b ''Unlocked'' info)
            \<lparr>lr_auto_stake := False, ss_staked := amount,
             ss_power := GetVoteWeight env (b_height blk) (info_duration v info) amount False False\<rparr>])))"

definition ss_merge_away ::
  "ss_variant \<Rightarrow> block \<Rightarrow> envelope \<Rightarrow> nat \<Rightarrow> ss_row list \<Rightarrow> ss_row list res" where
  "ss_merge_away v blk e i rows =
     (let b = word_of_nat i :: u64 in
      bindE (ss_info b rows) (\<lambda>info.
        Inr (rows @ [(ss_base v blk e b ''Merged'' info)\<lparr>lr_amount := bucket_sum b rows * - 1\<rparr>])))"

definition ss_merged_event ::
  "ss_variant \<Rightarrow> ss_env \<Rightarrow> block \<Rightarrow> envelope \<Rightarrow> log \<Rightarrow> ss_row list \<Rightarrow> ss_row list res" where
  "ss_merged_event v env blk e l rows =
     bindE (se_merged env (log_data l)) (\<lambda>(ids, amount, dur).
     case ids of
       [] \<Rightarrow> Inl (Panic ''slice bounds out of range'')
     | i # is \<Rightarrow>
         bindE (foldE (ss_merge_away v blk e) is rows) (\<lambda>rows1.
           let b = word_of_nat i :: u64 in
           bindE (ss_info b rows1) (\<lambda>info.
             let d = event_duration v (b_height blk) dur
             in Inr (rows1 @ [(ss_base v blk e b ''Merged'' info)
                  \<lparr>lr_amount := int amount - bucket_sum b rows1, lr_auto_stake := True,
                   lr_duration := stored_duration v d (ss_duration_type info),
                   ss_staked := int amount,
                   ss_power := GetVoteWeight env (b_height blk) d (int amount) True False\<rparr>]))))"

definition ss_expanded_event ::
  "ss_variant \<Rightarrow> ss_env \<Rightarrow> block \<Rightarrow> envelope \<Rightarrow> log \<Rightarrow> ss_row list \<Rightarrow> ss_row list res" where
  "ss_expanded_event v env blk e l rows =
     bindE (topic_id l 1) (\<lambda>b.
     bindE (se_expanded env (log_data l)) (\<lambda>(amount, dur).
     bindE (ss_info b rows) (\<lambda>info.
       let d = event_duration v (b_height blk) dur
       in Inr (rows @ [(ss_base v blk e b ''BucketExpanded'' info)
            \<lparr>lr_amount := int amount - bucket_sum b rows, lr_auto_stake := True,
             lr_duration := stored_duration v d (ss_duration_type info), ss_staked := int amount,
             ss_power := GetVoteWeight env (b_height blk) d (int amount) True False\<rparr>]))))"

definition ss_delegate_event ::
  "ss_variant \<Rightarrow> ss_env \<Rightarrow> block \<Rightarrow> envelope \<Rightarrow> log \<Rightarrow> ss_row list \<Rightarrow> ss_row list res" where
  "ss_delegate_event v env blk e l rows =
     bindE (topic_id l 1) (\<lambda>b.
     bindE (se_delegate env (log_data l)) (\<lambda>delegate.
     bindE (ss_info b rows) (\<lambda>info.
       Inr (rows @ [(ss_base v blk e b ''DelegateChanged'' info)
         \<lparr>lr_candidate := delegate, ss_staked := ss_staked info, ss_power := ss_power info\<rparr>]))))"

definition ss_withdrawal_event ::
  "ss_variant \<Rightarrow> ss_env \<Rightarrow> block \<Rightarrow> envelope \<Rightarrow> log \<Rightarrow> ss_row list \<Rightarrow> ss_row list res" where
  "ss_withdrawal_event v env blk e l rows =
     bindE (topic_id l 1) (\<lambda>b.
     bindE (topic_addr env l 2) (\<lambda>recipient.
     bindE (ss_info b rows) (\<lambda>info.
       Inr (rows @ [(ss_base v blk e b ''Withdrawal'' info)
         \<lparr>lr_auto_stake := False, lr_duration := 0, ss_recipient := recipient\<rparr>]))))"

definition ss_donated_event ::
  "ss_variant \<Rightarrow> ss_env \<Rightarrow> block \<Rightarrow> envelope \<Rightarrow> log \<Rightarrow> ss_row list \<Rightarrow> ss_row list res" where
  "ss_donated_event v env blk e l rows =
     bindE (topic_id l 1) (\<lambda>b.
     bindE (ss_info b rows) (\<lambda>info.
     bindE (se_donated env (log_data l)) (\<lambda>amount.
       let stakedAmount = bucket_sum b rows - int amount
       in Inr (rows @ [(ss_base v blk e b ''Donated'' info)
            \<lparr>lr_amount := int amount * - 1, ss_staked := stakedAmount,
             ss_power := GetVoteWeight env (b_height blk) (info_duration v info)
                           stakedAmount (lr_auto_stake info) False\<rparr>]))))"

subsection \<open>Blocks\<close>

text \<open>An unknown event is an error, a known one without a case is passed over.\<close>

definition ss_event ::
  "ss_variant \<Rightarrow> ss_env \<Rightarrow> block \<Rightarrow> envelope \<Rightarrow> log \<Rightarrow> ss_row list \<Rightarrow> ss_row list res" where
  "ss_event v env blk e l rows =
     (if log_address l \<noteq> sv_contract v then Inr rows
      else bindE (idx (log_topics l) 0) (\<lambda>t.
        case se_event env t of
          None \<Rightarrow> Inl (Err ''no event with id'')
        | Some ev \<Rightarrow>
            if ev = ''Staked'' then ss_staked_event v env blk e l rows
            else if ev = ''Transfer'' then ss_transfer_event v env blk e l rows
            else if ev = ''Unstaked'' then ss_unstaked_event v blk e l rows
            else if ev = ''Locked'' then ss_locked_event v env blk e l rows
            else if ev = ''Unlocked'' then ss_unlocked_event v env blk e l rows
            else if ev = ''Merged'' then ss_merged_event v env blk e l rows
            else if ev = ''BucketExpanded'' then ss_expanded_event v env blk e l rows
            else if ev = ''DelegateChanged'' then ss_delegate_event v env blk e l rows
            else if ev = ''Withdrawal'' then ss_withdrawal_event v env blk e l rows
            else if ev = ''Donated'' \<and> sv_donates v then ss_donated_event v env blk e l rows
            else Inr rows))"

definition ss_receipts :: "ss_variant \<Rightarrow> ss_env \<Rightarrow> block \<Rightarrow> ss_row list \<Rightarrow> ss_row list res" where
  "ss_receipts v env blk =
     on_receipts (\<lambda>e r. foldE (ss_event v env blk e) (r_logs r)) blk"

text \<open>
  \<open>revise\<close>: of the last row of every bucket (the rows of \<open>MAX(id)\<close> per bucket), those with a
  stake and a duration in days get a copy with half the duration, in seconds.
\<close>

fun last_rows :: "ss_row list \<Rightarrow> ss_row list" where
  "last_rows [] = []"
| "last_rows (r # rs) = (if lr_bucket r \<in> lr_bucket ` set rs then last_rows rs else r # last_rows rs)"

definition to_revise :: "ss_row \<Rightarrow> bool" where
  "to_revise r \<longleftrightarrow> ss_staked r \<noteq> 0 \<and> lr_duration r \<noteq> 0 \<and> ss_duration_type r = 0"

definition revised :: "ss_env \<Rightarrow> u64 \<Rightarrow> ss_row \<Rightarrow> ss_row" where
  "revised env h r =
     (let d = half_duration (DurationFromType (lr_duration r) (ss_duration_type r))
      in r\<lparr>ss_power := GetVoteWeight env h d (ss_staked r) (lr_auto_stake r) False,
           lr_duration := DurationByType d 1, ss_duration_type := 1, lr_amount := 0, lr_height := h\<rparr>)"

definition revise :: "ss_env \<Rightarrow> u64 \<Rightarrow> ss_row list \<Rightarrow> ss_row list" where
  "revise env h rows = rows @ map (revised env h) (filter to_revise (last_rows rows))"

text \<open>The handlers of the three plugins. v1 revises at its height even when that is 0.\<close>

definition v1_handleBlock :: "string \<Rightarrow> u64 \<Rightarrow> ss_env \<Rightarrow> block \<Rightarrow> ss_row list \<Rightarrow> ss_row list res" where
  "v1_handleBlock contract half env blk rows =
     ss_receipts (v1_variant contract half) env blk
       (if b_height blk = half then revise env half rows else rows)"

definition v2_handleBlock :: "string \<Rightarrow> u64 \<Rightarrow> ss_env \<Rightarrow> block \<Rightarrow> ss_row list \<Rightarrow> ss_row list res" where
  "v2_handleBlock contract mute env blk rows =
     ss_receipts (v2_variant contract mute) env blk
       (if mute \<noteq> 0 \<and> b_height blk = mute then revise env mute rows else rows)"

definition v3_handleBlock :: "string \<Rightarrow> ss_env \<Rightarrow> block \<Rightarrow> ss_row list \<Rightarrow> ss_row list res" where
  "v3_handleBlock contract env blk = ss_receipts (v3_variant contract) env blk"

definition v2_PutBlock ::
  "(block list \<Rightarrow> tx_faults) \<Rightarrow> string \<Rightarrow> u64 \<Rightarrow> ss_env \<Rightarrow> block \<Rightarrow> ss_row list world \<Rightarrow>
   unit res \<times> ss_row list world" where
  "v2_PutBlock F contract mute env =
     tx_PutBlock F ''system_staking_bucket_v2_record'' (v2_handleBlock contract mute env)"

definition v3_PutBlock ::
  "(block list \<Rightarrow> tx_faults) \<Rightarrow> string \<Rightarrow> ss_env \<Rightarrow> block \<Rightarrow> ss_row list world \<Rightarrow>
   unit res \<times> ss_row list world" where
  "v3_PutBlock F contract env =
     tx_PutBlock F ''system_staking_bucket_v3_record'' (v3_handleBlock contract env)"

text \<open>
  v1 first repairs the voting powers of old rows, once, outside the transaction; a marker in
  the key-value store says that it was done. The flag \<open>needUpdating\<close> it also sets is lost with
  the copy of its receiver, so each block from the Redsea height on looks at the marker.
\<close>

record ss1_tables =
  s1_rows :: "ss_row list"
  s1_store :: "string \<rightharpoonup> store_row"

definition fixingData :: "ss_env \<Rightarrow> ss_row list \<Rightarrow> ss_row list" where
  "fixingData env =
     map (\<lambda>r. if ss_staked r > 0
              then r\<lparr>ss_power := GetVoteWeight env (se_redsea env)
                       (DurationFromType (lr_duration r) (ss_duration_type r)) (ss_staked r)
                       (lr_auto_stake r) False\<rparr>
              else r)"

definition v1_fix_key :: string where
  "v1_fix_key = ''system_staking_bucket_record_increment_update''"

definition v1_fix ::
  "ss_env \<Rightarrow> int \<Rightarrow> bool \<Rightarrow> bool \<Rightarrow> u64 \<Rightarrow> ss1_tables \<Rightarrow> unit res \<times> ss1_tables" where
  "v1_fix env now get_ok save_ok h t =
     (if h < se_redsea env then (Inr (), t)
      else if \<not> get_ok then (Inl DbError, t)
      else case Store_Get v1_fix_key (s1_store t) of
             Inr _ \<Rightarrow> (Inr (), t)
           | Inl _ \<Rightarrow>
               let t1 = t\<lparr>s1_rows := fixingData env (s1_rows t)\<rparr>
               in if \<not> save_ok then (Inl DbError, t1)
                  else (Inr (), t1\<lparr>s1_store := Store_Save now v1_fix_key
                          (''{\"block_height\": '' @ show_nat (unat h) @ ''}'') (s1_store t1)\<rparr>))"

definition v1_PutBlock ::
  "(block list \<Rightarrow> tx_faults) \<Rightarrow> int \<Rightarrow> bool \<Rightarrow> bool \<Rightarrow> string \<Rightarrow> u64 \<Rightarrow> ss_env \<Rightarrow> block \<Rightarrow>
   ss1_tables world \<Rightarrow> unit res \<times> ss1_tables world" where
  "v1_PutBlock F now get_ok save_ok contract half env blk w =
     (case v1_fix env now get_ok save_ok (b_height blk) (tables w) of
        (Inl e, t) \<Rightarrow> (Inl e, w\<lparr>tables := t\<rparr>)
      | (Inr u, t) \<Rightarrow>
          tx_PutBlock F ''system_staking_bucket_record''
            (\<lambda>b t. bindE (v1_handleBlock contract half env b (s1_rows t))
                      (\<lambda>rows. Inr (t\<lparr>s1_rows := rows\<rparr>))) blk (w\<lparr>tables := t\<rparr>))"

text \<open>
  The height a plugin starts from when it has indexed nothing: v2 takes that of its
  configuration, which is 0 without one, v3 the Wake height then, v1 always the contract's.
\<close>

definition v2_start_height :: "u64 option \<Rightarrow> u64" where
  "v2_start_height cfg = (case cfg of Some h \<Rightarrow> h | None \<Rightarrow> 0)"

definition v3_start_height :: "u64 option \<Rightarrow> u64 \<Rightarrow> u64" where
  "v3_start_height cfg wake = (case cfg of Some h \<Rightarrow> h | None \<Rightarrow> wake)"

definition ss_Start ::
  "bool \<Rightarrow> bool \<Rightarrow> bool \<Rightarrow> string \<Rightarrow> u64 \<Rightarrow> 't world \<Rightarrow> unit res \<times> 't world" where
  "ss_Start read_ok create_ok update_ok name first w =
     (case GetIndexHeight read_ok create_ok name w of
        (Inl e, w') \<Rightarrow> (Inl e, w')
      | (Inr h, w') \<Rightarrow> if h = 0 then UpdateIndexHeight update_ok name first w' else (Inr (), w'))"

subsection \<open>Durations survive storing\<close>

lemma sint_nat: "n < 2 ^ 63 \<Longrightarrow> nat (sint (word_of_nat n :: duration)) = n"
  by (simp add: signed_of_nat signed_take_bit_int_eq_self)

lemma duration_parts_exact:
  assumes "q * unat u < 2 ^ 63" and "0 < unat u" and "unat u < 2 ^ 53" and "q < 2 ^ 53"
  shows "f_exact (duration_parts (word_of_nat (q * unat u)) u) q"
proof -
  have u: "f_of_nat (unat u) = F64 (unat u) 0"
    using assms(3) by (rule f_of_nat_exact)
  have "f_exact (f_of_nat 0) (0 * unat u)" using f_exact_of_nat [of 0] by simp
  then have "f_exact (f_div (f_of_nat 0) (F64 (unat u) 0)) 0"
    using assms(2) by (intro f_exact_div) simp_all
  with f_exact_of_nat [OF assms(4)]
  have "f_exact (f_add (f_of_nat q) (f_div (f_of_nat 0) (F64 (unat u) 0))) (q + 0)"
    using assms(4) by (intro f_exact_add) simp_all
  then show ?thesis
    unfolding duration_parts_def Let_def sint_nat [OF assms(1)] u using assms(2) by simp
qed

lemma units: "unat Second = 10 ^ 9" "unat Hour = 3600 * 10 ^ 9"
  by (simp_all add: Second_def Hour_def)

text \<open>
  C30: A stored duration is read back as itself: what \<open>DurationFromType\<close> makes of a number of days
  or of seconds, \<open>DurationByType\<close> stores as that number again, float64 arithmetic included. For
  seconds this holds for every uint32, for days up to 106,751, where the nanoseconds of an
  int64 end.
\<close>

theorem duration_roundtrip:
  assumes "t = 0 \<and> unat d \<le> 106751 \<or> t = 1 \<or> t = 2"
  shows "DurationByType (DurationFromType d t) t = d"
proof (cases "t = 0")
  case True
  with assms have days: "unat d \<le> 106751" by auto
  define q where "q = unat d * 24"
  have "unat (d * 24) = q"
    using days by (simp add: q_def unat_mult_lem [THEN iffD1])
  then have "(ucast (d * 24) :: duration) = word_of_nat q"
    by (metis of_nat_unat)
  then have from_t: "DurationFromType d t = word_of_nat (q * unat Hour)"
    using True by (simp add: DurationFromType_def)
  have "f_exact (duration_parts (word_of_nat (q * unat Hour)) Hour) q"
    using days by (intro duration_parts_exact) (simp_all add: units q_def)
  then have "f_exact (f_div (duration_parts (word_of_nat (q * unat Hour)) Hour) (F64 24 0)) (unat d)"
    using days by (intro f_exact_div) (simp_all add: q_def)
  then have "f_trunc (f_div (duration_parts (word_of_nat (q * unat Hour)) Hour) (f_of_nat 24)) = unat d"
    using f_of_nat_exact [of 24] by (simp add: f_exact_trunc)
  with True from_t show ?thesis by (simp add: DurationByType_def)
next
  case False
  have small: "unat d < 2 ^ 32" using unsigned_less [where w = d and 'a = nat] by simp
  have "(ucast d :: duration) = word_of_nat (unat d)" by simp
  then have from_t: "DurationFromType d t = word_of_nat (unat d * unat Second)"
    using False assms by (auto simp: DurationFromType_def)
  have "f_exact (duration_parts (word_of_nat (unat d * unat Second)) Second) (unat d)"
    using small by (intro duration_parts_exact) (simp_all add: units)
  then have "f_trunc (duration_parts (word_of_nat (unat d * unat Second)) Second) = unat d"
    by (rule f_exact_trunc)
  with False assms from_t show ?thesis by (auto simp: DurationByType_def)
qed

theorem duration_roundtrip_witness:
  "DurationByType (DurationFromType 91 0) 0 = 91 \<and> DurationByType (DurationFromType 7862400 1) 1 = 7862400"
  using duration_roundtrip [of 0 91] duration_roundtrip [of 1 7862400] by simp

subsection \<open>The last rows of the buckets\<close>

lemma bucket_last_Cons:
  "bucket_last b (r # rs) =
     (case bucket_last b rs of None \<Rightarrow> if lr_bucket r = b then Some r else None | Some x \<Rightarrow> Some x)"
  using last_row_append [of "\<lambda>r. lr_bucket r = b" "[r]" rs] last_row_snoc [of "\<lambda>r. lr_bucket r = b" "[]" r]
  by (simp add: bucket_last_def split: option.split)

lemma bucket_last_append:
  "bucket_last b (xs @ ys) = (case bucket_last b ys of None \<Rightarrow> bucket_last b xs | Some x \<Rightarrow> Some x)"
  unfolding bucket_last_def by (rule last_row_append)

lemma bucket_last_None: "bucket_last b rows = None \<longleftrightarrow> b \<notin> lr_bucket ` set rows"
  by (auto simp: bucket_last_def last_row_None_iff)

lemma last_rows_subset: "set (last_rows rows) \<subseteq> set rows"
  by (induction rows) auto

lemma last_rows_iff: "r \<in> set (last_rows rows) \<longleftrightarrow> bucket_last (lr_bucket r) rows = Some r"
proof (induction rows)
  case Nil
  then show ?case by simp
next
  case (Cons x rows)
  show ?case
  proof (cases "lr_bucket x \<in> lr_bucket ` set rows")
    case True
    then have "bucket_last (lr_bucket x) rows \<noteq> None" by (simp add: bucket_last_None)
    with Cons True show ?thesis by (auto simp: bucket_last_Cons split: option.splits)
  next
    case False
    then have none: "bucket_last (lr_bucket x) rows = None" by (simp add: bucket_last_None)
    have "r \<notin> set (last_rows rows)" if "lr_bucket r = lr_bucket x"
    proof
      assume "r \<in> set (last_rows rows)"
      then have "lr_bucket r \<in> lr_bucket ` set rows" using last_rows_subset by blast
      with that False show False by simp
    qed
    with Cons none False show ?thesis
      by (cases "lr_bucket r = lr_bucket x") (auto simp: bucket_last_Cons split: option.splits)
  qed
qed

lemma last_rows_distinct: "distinct (map lr_bucket (last_rows rows))"
  using last_rows_subset by (induction rows) fastforce+

lemma revised_simps [simp]:
  "lr_bucket (revised env h r) = lr_bucket r"
  "lr_amount (revised env h r) = 0"
  "ss_staked (revised env h r) = ss_staked r"
  "ss_final (revised env h r) = ss_final r"
  "lr_act_type (revised env h r) = lr_act_type r"
  "\<not> to_revise (revised env h r)"
  by (simp_all add: revised_def Let_def to_revise_def)

text \<open>The rows that \<open>revise\<close> appends, by bucket.\<close>

lemma revise_copies:
  "bucket_last b (map (revised env h) (filter to_revise (last_rows rows))) =
    (case bucket_last b rows of
       None \<Rightarrow> None
     | Some r \<Rightarrow> if to_revise r then Some (revised env h r) else None)"
proof -
  have copies: "bucket_last b (map (revised env h) (filter to_revise xs)) =
      map_option (revised env h) (bucket_last b (filter to_revise xs))" for xs
    by (induction xs rule: rev_induct) auto
  have one: "bucket_last b (filter to_revise xs) =
      (case bucket_last b xs of None \<Rightarrow> None | Some r \<Rightarrow> if to_revise r then Some r else None)"
    if "distinct (map lr_bucket xs)" for xs
    using that
  proof (induction xs)
    case Nil
    then show ?case by simp
  next
    case (Cons x xs)
    then have none: "bucket_last (lr_bucket x) xs = None" by (simp add: bucket_last_None)
    have "bucket_last b (filter to_revise xs) = None" if "b = lr_bucket x"
      using none that by (auto simp: bucket_last_None)
    with Cons none show ?case by (auto simp: bucket_last_Cons split: option.splits)
  qed
  have "bucket_last b (last_rows rows) = bucket_last b rows"
  proof (cases "bucket_last b rows")
    case None
    then have "b \<notin> lr_bucket ` set rows" by (simp add: bucket_last_None)
    then have "b \<notin> lr_bucket ` set (last_rows rows)" using last_rows_subset by blast
    with None show ?thesis by (simp add: bucket_last_None [THEN iffD2])
  next
    case (Some r)
    then have "lr_bucket r = b" using bucket_last_SomeD by blast
    with Some have "r \<in> set (last_rows rows)" by (simp add: last_rows_iff)
    then obtain x where x: "bucket_last b (last_rows rows) = Some x"
      using \<open>lr_bucket r = b\<close> by (cases "bucket_last b (last_rows rows)") (auto simp: bucket_last_None)
    then have "x \<in> set (last_rows rows)" "lr_bucket x = b" using bucket_last_SomeD by blast+
    then have "bucket_last b rows = Some x" by (simp add: last_rows_iff)
    with x Some show ?thesis by simp
  qed
  with one [OF last_rows_distinct] copies show ?thesis by (simp split: option.splits)
qed

lemma revise_last:
  "bucket_last b (revise env h rows) =
     map_option (\<lambda>r. if to_revise r then revised env h r else r) (bucket_last b rows)"
  by (simp add: revise_def bucket_last_append revise_copies split: option.splits)

lemma revise_sum: "bucket_sum b (revise env h rows) = bucket_sum b rows"
proof -
  have "bucket_sum b (map (revised env h) xs) = 0" for xs
    by (induction xs) simp_all
  then show ?thesis by (simp add: revise_def)
qed

text \<open>
  The change of the block interval restates every open bucket, once. No balance changes; a
  bucket whose last row has a stake and a duration in days then ends with a copy of that row with
  half the duration in seconds, every other bucket keeps its last row; and revising again appends
  nothing.
\<close>

theorem revise_restates_once:
  "bucket_sum b (revise env h rows) = bucket_sum b rows \<and>
   bucket_last b (revise env h rows) =
     map_option (\<lambda>r. if to_revise r then revised env h r else r) (bucket_last b rows) \<and>
   revise env h' (revise env h rows) = revise env h rows"
proof -
  have "\<not> to_revise r" if r: "r \<in> set (last_rows (revise env h rows))" for r
  proof -
    from r have "bucket_last (lr_bucket r) (revise env h rows) = Some r" by (simp add: last_rows_iff)
    then obtain r0 where "r = (if to_revise r0 then revised env h r0 else r0)"
      by (auto simp: revise_last)
    then show ?thesis by (cases "to_revise r0") simp_all
  qed
  then have "filter to_revise (last_rows (revise env h rows)) = []" by (simp add: filter_empty_conv)
  then show ?thesis by (simp add: revise_sum revise_last revise_def [of env h'])
qed

subsection \<open>The stated stake\<close>

text \<open>
  A bucket is regular while no Withdrawal row names it and it was minted once. The last row of a
  regular bucket states as its stake the sum of all amounts of the bucket.
\<close>

definition mints :: "u64 \<Rightarrow> ss_row \<Rightarrow> bool" where
  "mints b r \<longleftrightarrow> lr_bucket r = b \<and> \<not> ss_final r"

definition regular :: "u64 \<Rightarrow> ss_row list \<Rightarrow> bool" where
  "regular b rows \<longleftrightarrow>
     (\<forall>r \<in> set rows. lr_bucket r = b \<longrightarrow> lr_act_type r \<noteq> ''Withdrawal'') \<and>
     length (filter (mints b) rows) \<le> 1"

definition ss_ok :: "ss_row list \<Rightarrow> bool" where
  "ss_ok rows \<longleftrightarrow>
     (\<forall>r \<in> set rows. \<not> ss_final r \<longrightarrow> ss_staked r = 0) \<and>
     (\<forall>b r. bucket_last b rows = Some r \<longrightarrow>
        filter (mints b) rows \<noteq> [] \<and> (regular b rows \<longrightarrow> ss_staked r = bucket_sum b rows))"

lemma ss_ok_Nil: "ss_ok []"
  by (simp add: ss_ok_def)

lemma regular_snoc:
  "regular b (rows @ [r]) \<longleftrightarrow> regular b rows \<and>
     (lr_bucket r = b \<longrightarrow> lr_act_type r \<noteq> ''Withdrawal'' \<and> (ss_final r \<or> filter (mints b) rows = []))"
  by (auto simp: regular_def mints_def)

lemma ss_ok_snoc_final:
  assumes "ss_ok rows" and "bucket_last (lr_bucket r) rows = Some info" and "ss_final r"
    and "lr_act_type r \<noteq> ''Withdrawal'' \<Longrightarrow> ss_staked info = bucket_sum (lr_bucket r) rows \<Longrightarrow>
      ss_staked r = bucket_sum (lr_bucket r) rows + lr_amount r"
  shows "ss_ok (rows @ [r])"
  using assms by (auto simp: ss_ok_def regular_snoc)

lemma ss_ok_snoc_mint:
  assumes "ss_ok rows" and "\<not> ss_final r" and "ss_staked r = 0" and "lr_amount r = 0"
  shows "ss_ok (rows @ [r])"
proof -
  have "bucket_sum (lr_bucket r) rows = 0" if "filter (mints (lr_bucket r)) rows = []"
  proof -
    have "bucket_last (lr_bucket r) rows = None"
      using that assms(1) by (cases "bucket_last (lr_bucket r) rows") (auto simp: ss_ok_def)
    then show ?thesis by (rule bucket_last_None_sum)
  qed
  with assms show ?thesis by (auto simp: ss_ok_def regular_snoc mints_def)
qed

lemma ss_info_eq: "ss_info b rows = Inr info \<longleftrightarrow> bucket_last b rows = Some info"
  by (simp add: ss_info_def split: option.split)

lemma ss_base_simps [simp]:
  "lr_bucket (ss_base v blk e b ev info) = b"
  "lr_amount (ss_base v blk e b ev info) = 0"
  "lr_act_type (ss_base v blk e b ev info) = ev"
  "ss_staked (ss_base v blk e b ev info) = 0"
  "ss_final (ss_base v blk e b ev info) = True"
  by (simp_all add: ss_base_def)

lemma ss_merge_away_ok: "ss_ok rows \<Longrightarrow> ss_merge_away v blk e i rows = Inr rows' \<Longrightarrow> ss_ok rows'"
  by (auto simp: ss_merge_away_def Let_def bindE_eq_Inr ss_info_eq intro!: ss_ok_snoc_final)

lemma ss_merged_ok:
  assumes "ss_ok rows" and "ss_merged_event v env blk e l rows = Inr rows'"
  shows "ss_ok rows'"
proof -
  from assms(2) obtain ids amount dur where dec: "se_merged env (log_data l) = Inr (ids, amount, dur)"
    by (auto simp: ss_merged_event_def bindE_eq_Inr)
  with assms(2) obtain i "is" where ids: "ids = i # is"
    by (cases ids) (auto simp: ss_merged_event_def)
  from assms(2) [unfolded ss_merged_event_def dec ids] obtain rows1 info where
    away: "foldE (ss_merge_away v blk e) is rows = Inr rows1"
    and info: "bucket_last (word_of_nat i) rows1 = Some info"
    and rows': "rows' = rows1 @ [(ss_base v blk e (word_of_nat i) ''Merged'' info)
      \<lparr>lr_amount := int amount - bucket_sum (word_of_nat i) rows1, lr_auto_stake := True,
       lr_duration := stored_duration v (event_duration v (b_height blk) dur) (ss_duration_type info),
       ss_staked := int amount,
       ss_power := GetVoteWeight env (b_height blk) (event_duration v (b_height blk) dur) (int amount) True False\<rparr>]"
    by (auto simp: bindE_eq_Inr Let_def ss_info_eq)
  have "ss_ok rows1"
    using away assms(1) by (rule foldE_invariant) (blast intro: ss_merge_away_ok)
  then show ?thesis
    unfolding rows' using info by (auto intro!: ss_ok_snoc_final)
qed

lemma ss_row_events_ok:
  assumes "ss_ok rows"
  shows "ss_staked_event v env blk e l rows = Inr rows' \<Longrightarrow> ss_ok rows'"
    and "ss_transfer_event v env blk e l rows = Inr rows' \<Longrightarrow> ss_ok rows'"
    and "ss_unstaked_event v blk e l rows = Inr rows' \<Longrightarrow> ss_ok rows'"
    and "ss_locked_event v env blk e l rows = Inr rows' \<Longrightarrow> ss_ok rows'"
    and "ss_unlocked_event v env blk e l rows = Inr rows' \<Longrightarrow> ss_ok rows'"
    and "ss_expanded_event v env blk e l rows = Inr rows' \<Longrightarrow> ss_ok rows'"
    and "ss_delegate_event v env blk e l rows = Inr rows' \<Longrightarrow> ss_ok rows'"
    and "ss_withdrawal_event v env blk e l rows = Inr rows' \<Longrightarrow> ss_ok rows'"
    and "ss_donated_event v env blk e l rows = Inr rows' \<Longrightarrow> ss_ok rows'"
proof -
  show "ss_staked_event v env blk e l rows = Inr rows' \<Longrightarrow> ss_ok rows'"
    by (auto simp: ss_staked_event_def Let_def bindE_eq_Inr ss_info_eq
        intro!: ss_ok_snoc_final [OF assms])
  show "ss_transfer_event v env blk e l rows = Inr rows' \<Longrightarrow> ss_ok rows'"
  proof -
    assume run: "ss_transfer_event v env blk e l rows = Inr rows'"
    then obtain from_a to b where
      step: "(if from_a = se_zero_address env then Inr (rows @ [ss_mint_row v blk e b to])
       else bindE (ss_info b rows) (\<lambda>info.
         Inr (rows @ [(ss_base v blk e b ''Transfer'' info)
           \<lparr>lr_owner := to, ss_staked := ss_staked info, ss_power := ss_power info\<rparr>]))) = Inr rows'"
      unfolding ss_transfer_event_def by (elim bindE_InrE)
    show "ss_ok rows'"
    proof (cases "from_a = se_zero_address env")
      case True
      have "ss_ok (rows @ [ss_mint_row v blk e b to])"
        by (rule ss_ok_snoc_mint [OF assms]) (simp_all add: ss_mint_row_def)
      with True step show ?thesis by simp
    next
      case False
      with step show ?thesis
        by (auto simp: bindE_eq_Inr ss_info_eq intro!: ss_ok_snoc_final [OF assms])
    qed
  qed
  show "ss_unstaked_event v blk e l rows = Inr rows' \<Longrightarrow> ss_ok rows'"
    by (auto simp: ss_unstaked_event_def bindE_eq_Inr ss_info_eq intro!: ss_ok_snoc_final [OF assms])
  show "ss_locked_event v env blk e l rows = Inr rows' \<Longrightarrow> ss_ok rows'"
    by (auto simp: ss_locked_event_def Let_def bindE_eq_Inr ss_info_eq
        intro!: ss_ok_snoc_final [OF assms])
  show "ss_unlocked_event v env blk e l rows = Inr rows' \<Longrightarrow> ss_ok rows'"
    by (auto simp: ss_unlocked_event_def Let_def bindE_eq_Inr ss_info_eq
        intro!: ss_ok_snoc_final [OF assms])
  show "ss_expanded_event v env blk e l rows = Inr rows' \<Longrightarrow> ss_ok rows'"
    by (auto simp: ss_expanded_event_def Let_def bindE_eq_Inr ss_info_eq
        intro!: ss_ok_snoc_final [OF assms])
  show "ss_delegate_event v env blk e l rows = Inr rows' \<Longrightarrow> ss_ok rows'"
    by (auto simp: ss_delegate_event_def bindE_eq_Inr ss_info_eq intro!: ss_ok_snoc_final [OF assms])
  show "ss_withdrawal_event v env blk e l rows = Inr rows' \<Longrightarrow> ss_ok rows'"
    by (auto simp: ss_withdrawal_event_def bindE_eq_Inr ss_info_eq intro!: ss_ok_snoc_final [OF assms])
  show "ss_donated_event v env blk e l rows = Inr rows' \<Longrightarrow> ss_ok rows'"
    by (auto simp: ss_donated_event_def Let_def bindE_eq_Inr ss_info_eq
        intro!: ss_ok_snoc_final [OF assms])
qed

lemma ss_event_ok:
  assumes "ss_ok rows" and "ss_event v env blk e l rows = Inr rows'"
  shows "ss_ok rows'"
proof (cases "log_address l = sv_contract v")
  case False
  with assms show ?thesis by (simp add: ss_event_def)
next
  case True
  with assms(2) obtain ev where "se_event env (hd (log_topics l)) = Some ev" and
    "(if ev = ''Staked'' then ss_staked_event v env blk e l rows
      else if ev = ''Transfer'' then ss_transfer_event v env blk e l rows
      else if ev = ''Unstaked'' then ss_unstaked_event v blk e l rows
      else if ev = ''Locked'' then ss_locked_event v env blk e l rows
      else if ev = ''Unlocked'' then ss_unlocked_event v env blk e l rows
      else if ev = ''Merged'' then ss_merged_event v env blk e l rows
      else if ev = ''BucketExpanded'' then ss_expanded_event v env blk e l rows
      else if ev = ''DelegateChanged'' then ss_delegate_event v env blk e l rows
      else if ev = ''Withdrawal'' then ss_withdrawal_event v env blk e l rows
      else if ev = ''Donated'' \<and> sv_donates v then ss_donated_event v env blk e l rows
      else Inr rows) = Inr rows'"
    by (cases "log_topics l") (auto simp: ss_event_def split: option.splits)
  with ss_row_events_ok [OF assms(1)] ss_merged_ok [OF assms(1)] assms(1) show ?thesis
    by (simp split: if_split_asm)
qed

lemma ss_receipts_ok: "ss_ok rows \<Longrightarrow> ss_receipts v env blk rows = Inr rows' \<Longrightarrow> ss_ok rows'"
  unfolding ss_receipts_def
  by (erule on_receipts_invariant) (auto elim!: foldE_invariant intro: ss_event_ok)

lemma revise_ok:
  assumes "ss_ok rows"
  shows "ss_ok (revise env h rows)"
proof -
  let ?copies = "map (revised env h) (filter to_revise (last_rows rows))"
  have copy: "ss_final c" if "c \<in> set ?copies" for c
  proof -
    from that obtain r where r: "r \<in> set rows" "to_revise r" "c = revised env h r"
      using last_rows_subset by auto
    with assms show ?thesis by (auto simp: ss_ok_def to_revise_def)
  qed
  then have no_mint: "filter (mints b) ?copies = []" for b
    by (auto simp: filter_empty_conv mints_def simp del: set_map)
  have reg: "regular b rows" if "regular b (revise env h rows)" for b
    using that by (auto simp: regular_def revise_def)
  have last: "filter (mints b) (revise env h rows) \<noteq> [] \<and>
      (regular b (revise env h rows) \<longrightarrow> ss_staked r = bucket_sum b (revise env h rows))"
    if r: "bucket_last b (revise env h rows) = Some r" for b r
  proof -
    from r obtain r0 where r0: "bucket_last b rows = Some r0" "ss_staked r = ss_staked r0"
      by (auto simp: revise_last split: if_splits)
    with assms have "filter (mints b) rows \<noteq> []"
        and "regular b rows \<longrightarrow> ss_staked r0 = bucket_sum b rows" by (auto simp: ss_ok_def)
    moreover have "filter (mints b) (revise env h rows) = filter (mints b) rows"
      using no_mint by (simp add: revise_def)
    ultimately show ?thesis using reg r0(2) by (simp add: revise_sum)
  qed
  have "\<forall>r \<in> set (revise env h rows). \<not> ss_final r \<longrightarrow> ss_staked r = 0"
    using copy assms by (auto simp: ss_ok_def revise_def)
  with last show ?thesis unfolding ss_ok_def by blast
qed

lemma handleBlock_ok:
  assumes "ss_ok rows"
  shows "v1_handleBlock contract k env blk rows = Inr rows' \<Longrightarrow> ss_ok rows'"
    and "v2_handleBlock contract k env blk rows = Inr rows' \<Longrightarrow> ss_ok rows'"
    and "v3_handleBlock contract env blk rows = Inr rows' \<Longrightarrow> ss_ok rows'"
  using assms revise_ok [OF assms]
  by (auto simp: v1_handleBlock_def v2_handleBlock_def v3_handleBlock_def intro: ss_receipts_ok
      split: if_splits)

text \<open>
  C11: The stake a system staking row states is the bucket's balance. After any blocks, in each of
  the three plugins, the last row of a bucket that was minted once and not withdrawn states
  exactly the sum of all amounts of its rows: through stakes, locks, merges, expansions,
  donations, transfers and the change of the block interval.
\<close>

theorem system_stake_is_balance:
  assumes "handle \<in> {v1_handleBlock contract k env, v2_handleBlock contract k env, v3_handleBlock contract env}"
    and "foldE handle blks [] = Inr rows" and "bucket_last b rows = Some r" and "regular b rows"
  shows "ss_staked r = bucket_sum b rows"
proof -
  have "ss_ok rows"
    using assms(2) ss_ok_Nil
    by (rule foldE_invariant) (use assms(1) handleBlock_ok in blast)
  with assms(3,4) show ?thesis by (simp add: ss_ok_def)
qed

subsection \<open>Merging buckets\<close>

lemma merge_away_sums:
  assumes "foldE (ss_merge_away v blk e) is rows = Inr rows'"
  shows "bucket_sum b rows' = (if b \<in> word_of_nat ` set is then 0 else bucket_sum b rows)"
  using assms
proof (induction "is" arbitrary: rows)
  case Nil
  then show ?case by simp
next
  case (Cons i "is")
  then obtain rows1 where r1: "ss_merge_away v blk e i rows = Inr rows1"
      "foldE (ss_merge_away v blk e) is rows1 = Inr rows'"
    by (auto simp: bindE_eq_Inr)
  have "bucket_sum b rows1 = (if b = word_of_nat i then 0 else bucket_sum b rows)"
    using r1(1) by (auto simp: ss_merge_away_def Let_def bindE_eq_Inr)
  with Cons.IH [OF r1(2)] show ?case by auto
qed

text \<open>
  A merge moves all stake into the first bucket. The event's amount is its balance
  afterwards, every other bucket the event names is empty, and no other bucket changes.
\<close>

theorem merge_moves_all_stake:
  assumes "ss_merged_event v env blk e l rows = Inr rows'"
    and "se_merged env (log_data l) = Inr (i # is, amount, dur)"
  shows "bucket_sum b rows' =
    (if b = word_of_nat i then int amount else if b \<in> word_of_nat ` set is then 0 else bucket_sum b rows)"
proof -
  from assms(1) [unfolded ss_merged_event_def assms(2)] obtain rows1 info where
    away: "foldE (ss_merge_away v blk e) is rows = Inr rows1"
    and rows': "rows' = rows1 @ [(ss_base v blk e (word_of_nat i) ''Merged'' info)
      \<lparr>lr_amount := int amount - bucket_sum (word_of_nat i) rows1, lr_auto_stake := True,
       lr_duration := stored_duration v (event_duration v (b_height blk) dur) (ss_duration_type info),
       ss_staked := int amount,
       ss_power := GetVoteWeight env (b_height blk) (event_duration v (b_height blk) dur) (int amount) True False\<rparr>]"
    by (auto simp: bindE_eq_Inr Let_def ss_info_eq)
  show ?thesis
    unfolding rows' using merge_away_sums [OF away, of b] by (cases "b = word_of_nat i") simp_all
qed

subsection \<open>A concrete contract\<close>

text \<open>Two buckets are minted and staked with 5 and 7, then merged into the first.\<close>

definition ss_example_env :: ss_env where
  "ss_example_env = \<lparr>
     se_event = (\<lambda>t. if t = [1] then Some ''Transfer'' else if t = [2] then Some ''Staked''
                     else if t = [3] then Some ''Merged'' else None),
     se_staked = (\<lambda>d. Inr (''io_d'', (case d of [] \<Rightarrow> 0 | b # _ \<Rightarrow> unat b), 0)), se_locked = (\<lambda>_. Inr 0),
     se_merged = (\<lambda>_. Inr ([1, 2], 12, 0)), se_expanded = (\<lambda>_. Inr (0, 0)),
     se_delegate = (\<lambda>_. Inr ''io_d''), se_donated = (\<lambda>_. Inr 0),
     se_address = (\<lambda>t. Inr (if t = [0] then ''io_0'' else ''io_a'')), se_zero_address = ''io_0'',
     se_weight = (\<lambda>_ a _ _. a), se_redsea = 0\<rparr>"

definition ss_example_logs :: "log list" where
  "ss_example_logs = map (\<lambda>(ts, d). \<lparr>log_address = ''io_c'', log_topics = ts, log_data = d\<rparr>)
     [([[1], [0], [9], [1]], []), ([[2], [1]], [5]), ([[1], [0], [9], [2]], []), ([[2], [2]], [7])]"

definition ss_example_block :: block where
  "ss_example_block = \<lparr>b_height = 9, b_timestamp = 100,
     b_actions = [\<lparr>e_hash = [8], e_sender = ''io_s'', e_action = OtherAction ''*action.Execution''\<rparr>],
     b_receipts = [\<lparr>r_status = 1, r_action_hash = [8], r_gas_consumed = 0, r_tx_index = 0,
       r_logs = ss_example_logs, r_tx_logs = []\<rparr>]\<rparr>"

lemma be_nat_single [simp]: "be_nat [x] = unat x"
  by (simp add: be_nat_def)

lemma ss_example_run:
  "\<exists>rows r. v3_handleBlock ''io_c'' ss_example_env ss_example_block [] = Inr rows
     \<and> bucket_last 2 rows = Some r \<and> regular 2 rows \<and> bucket_sum 1 rows = 5 \<and> bucket_sum 2 rows = 7"
  by (simp add: v3_handleBlock_def ss_receipts_def on_receipts_def ss_example_block_def
      actions_by_hash_def receipt_success_def ss_example_logs_def ss_event_def v3_variant_def
      ss_example_env_def ss_transfer_event_def ss_staked_event_def topic_addr_def topic_id_def
      ss_mint_row_def ss_info_def Let_def ss_base_def regular_def mints_def bucket_last_Cons)

theorem system_stake_is_balance_witness:
  "\<exists>rows r. foldE (v3_handleBlock ''io_c'' ss_example_env) [ss_example_block] [] = Inr rows
     \<and> bucket_last 2 rows = Some r \<and> ss_staked r = 7"
proof -
  obtain rows r where run: "v3_handleBlock ''io_c'' ss_example_env ss_example_block [] = Inr rows"
      "bucket_last 2 rows = Some r" "regular 2 rows" "bucket_sum 2 rows = 7"
    using ss_example_run by blast
  have fold: "foldE (v3_handleBlock ''io_c'' ss_example_env) [ss_example_block] [] = Inr rows"
    using run(1) by simp
  have "v3_handleBlock ''io_c'' ss_example_env \<in> {v1_handleBlock ''io_c'' 0 ss_example_env,
      v2_handleBlock ''io_c'' 0 ss_example_env, v3_handleBlock ''io_c'' ss_example_env}" by simp
  from system_stake_is_balance [OF this fold run(2,3)] fold run(2,4) show ?thesis by auto
qed

theorem merge_moves_all_stake_witness:
  "\<exists>rows rows'. v3_handleBlock ''io_c'' ss_example_env ss_example_block [] = Inr rows
     \<and> ss_merged_event (v3_variant ''io_c'') ss_example_env ss_example_block
         (hd (b_actions ss_example_block)) (hd ss_example_logs) rows = Inr rows'
     \<and> bucket_sum 1 rows' = 12 \<and> bucket_sum 2 rows' = 0"
proof -
  obtain rows r where run: "v3_handleBlock ''io_c'' ss_example_env ss_example_block [] = Inr rows"
      "bucket_last 2 rows = Some r" "bucket_sum 1 rows = 5" using ss_example_run by blast
  have "bucket_last 1 rows \<noteq> None" using run(3) bucket_last_None_sum by fastforce
  then obtain r1 where r1: "bucket_last 1 rows = Some r1" by blast
  let ?merge = "ss_merged_event (v3_variant ''io_c'') ss_example_env ss_example_block
      (hd (b_actions ss_example_block)) (hd ss_example_logs) rows"
  obtain rows' where merge: "?merge = Inr rows'"
    using run(2) r1
    by (simp add: ss_merged_event_def ss_example_env_def ss_merge_away_def ss_info_def Let_def)
  have ids: "se_merged ss_example_env (log_data (hd ss_example_logs)) = Inr (1 # [2], 12, 0)"
    by (simp add: ss_example_env_def)
  from merge_moves_all_stake [OF merge ids, of 1] merge_moves_all_stake [OF merge ids, of 2] run(1) merge
  show ?thesis by auto
qed

end
