(* ===== verification/BufferedSink.thy ===== *)
theory BufferedSink
  imports TxSink
begin

text \<open>
  The second shape of a plugin: \<open>putBlock\<close> gathers rows in the memory of the plugin, \<open>commit\<close>
  takes them out of it and writes them with the index height in one transaction. What was
  gathered is gone afterwards, whatever the transaction answers. account_income and
  block_supply are written so.
\<close>

text \<open>\<open>flush\<close> is what the transaction does with the buffers, \<open>clear\<close> empties them.\<close>

definition buf_commit ::
  "tx_faults \<Rightarrow> string \<Rightarrow> ('p \<Rightarrow> 't \<Rightarrow> 't res) \<Rightarrow> ('p \<Rightarrow> 'p) \<Rightarrow> u64 \<Rightarrow> 'p \<times> 't world \<Rightarrow>
   unit res \<times> 'p \<times> 't world" where
  "buf_commit f name flush clear tip s =
     (case s of (p, w) \<Rightarrow>
        (case index_tx f name (Inr tip) (flush p) w of (r, w') \<Rightarrow> (r, clear p, w')))"

definition buf_PutBlocks ::
  "(block \<Rightarrow> 'p \<Rightarrow> unit res \<times> 'p) \<Rightarrow> (u64 \<Rightarrow> 'p \<times> 't world \<Rightarrow> unit res \<times> 'p \<times> 't world) \<Rightarrow>
   block list \<Rightarrow> 'p \<times> 't world \<Rightarrow> unit res \<times> 'p \<times> 't world" where
  "buf_PutBlocks put commit blks s =
     (case s of (p, w) \<Rightarrow>
        (case eachS put blks p of
           (Inl e, p') \<Rightarrow> (Inl e, p', w)
         | (Inr u, p') \<Rightarrow>
             (case last_elem blks of
                Inl e \<Rightarrow> (Inl e, p', w)
              | Inr b \<Rightarrow> commit (b_height b) (p', w))))"

definition buf_PutBlock ::
  "(block \<Rightarrow> 'p \<Rightarrow> unit res \<times> 'p) \<Rightarrow> (u64 \<Rightarrow> 'p \<times> 't world \<Rightarrow> unit res \<times> 'p \<times> 't world) \<Rightarrow>
   block \<Rightarrow> 'p \<times> 't world \<Rightarrow> unit res \<times> 'p \<times> 't world" where
  "buf_PutBlock put commit b s =
     (case s of (p, w) \<Rightarrow>
        (case put b p of
           (Inl e, p') \<Rightarrow> (Inl e, p', w)
         | (Inr u, p') \<Rightarrow> commit (b_height b) (p', w)))"

lemma buf_PutBlock_single:
  "buf_PutBlocks put commit [b] s = buf_PutBlock put commit b s"
  by (cases s) (auto simp: buf_PutBlocks_def buf_PutBlock_def bindS_def split: prod.splits sum.splits)

lemma buf_commit_ok:
  assumes "buf_commit f name flush clear tip (p, w) = (Inr (), p', w')"
  shows "flush p (tables w) = Inr (tables w')" and "p' = clear p"
    and "index_cache w' name = Some tip"
    and "heights w' = (if name \<in> dom (heights w) then (heights w)(name \<mapsto> tip) else heights w)"
proof -
  from assms have tx: "index_tx f name (Inr tip) (flush p) w = (Inr (), w')" and "p' = clear p"
    by (auto simp: buf_commit_def split: prod.splits)
  then show "p' = clear p" by simp
  from tx show "flush p (tables w) = Inr (tables w')" and "index_cache w' name = Some tip"
    and "heights w' = (if name \<in> dom (heights w) then (heights w)(name \<mapsto> tip) else heights w)"
    by (auto elim!: index_tx_ok)
qed

lemma buf_commit_error:
  assumes "buf_commit f name flush clear tip (p, w) = (Inl e, p', w')"
  shows "tables w' = tables w" and "heights w' = heights w" and "p' = clear p"
  using assms index_tx_error [of f name "Inr tip" "flush p" w e w']
  by (auto simp: buf_commit_def split: prod.splits)

lemma buf_PutBlocks_ok:
  assumes "buf_PutBlocks put (buf_commit f name flush clear) blks (p, w) = (Inr (), p', w')"
  obtains p1 where "eachS put blks p = (Inr (), p1)" and "blks \<noteq> []" and "p' = clear p1"
    and "flush p1 (tables w) = Inr (tables w')"
    and "heights w' = (if name \<in> dom (heights w) then (heights w)(name \<mapsto> b_height (last blks)) else heights w)"
proof -
  from assms obtain p1 b where p1: "eachS put blks p = (Inr (), p1)" "last_elem blks = Inr b"
      "buf_commit f name flush clear (b_height b) (p1, w) = (Inr (), p', w')"
    by (auto simp: buf_PutBlocks_def split: prod.splits sum.splits)
  then have "blks \<noteq> []" and "b = last blks" by (cases "blks = []"; simp)+
  with p1 buf_commit_ok [OF p1(3)] that show ?thesis by blast
qed

lemma buf_PutBlocks_error:
  assumes "buf_PutBlocks put (buf_commit f name flush clear) blks (p, w) = (Inl e, p', w')"
  shows "tables w' = tables w \<and> heights w' = heights w \<and>
    (\<exists>x p1. eachS put blks p = (x, p1) \<and> (p' = p1 \<and> (x = Inl e \<or> blks = []) \<or> x = Inr () \<and> p' = clear p1))"
proof -
  obtain x p1 where p1: "eachS put blks p = (x, p1)" by fastforce
  show ?thesis
  proof (cases "isl x \<or> blks = []")
    case True
    with assms p1 show ?thesis by (cases x) (auto simp: buf_PutBlocks_def)
  next
    case False
    then have "x = Inr ()" and "blks \<noteq> []" by (cases x; simp)+
    with assms p1 have "buf_commit f name flush clear (b_height (last blks)) (p1, w) = (Inl e, p', w')"
      by (simp add: buf_PutBlocks_def)
    from buf_commit_error [OF this] p1 \<open>x = Inr ()\<close> show ?thesis by simp
  qed
qed

text \<open>
  What such a plugin owes its tables: an invariant of its buffers that gathering a block keeps,
  also when it fails, that the emptied buffers have, and under which writing them out keeps the
  invariant of the tables. Then every batch keeps both.
\<close>

locale buffered_sink =
  fixes put :: "block \<Rightarrow> 'p \<Rightarrow> unit res \<times> 'p"
    and flush :: "'p \<Rightarrow> 't \<Rightarrow> 't res"
    and clear :: "'p \<Rightarrow> 'p"
    and buf_ok :: "'p \<Rightarrow> bool"
    and tbl_ok :: "'t \<Rightarrow> bool"
  assumes put_keeps: "keeps buf_ok (put b)"
    and clear_ok: "buf_ok p \<Longrightarrow> buf_ok (clear p)"
    and flush_ok: "buf_ok p \<Longrightarrow> tbl_ok t \<Longrightarrow> flush p t = Inr t' \<Longrightarrow> tbl_ok t'"
begin

lemma batch_ok:
  assumes "buf_PutBlocks put (buf_commit f name flush clear) blks (p, w) = (r, p', w')"
    and "buf_ok p" and "tbl_ok (tables w)"
  shows "buf_ok p' \<and> tbl_ok (tables w')"
proof -
  have "keeps buf_ok (eachS put blks)" by (rule keeps_eachS) (rule put_keeps)
  then have buf: "buf_ok p1" if "eachS put blks p = (x, p1)" for x p1
    by (rule keepsD) (use assms(2) that in simp_all)
  show ?thesis
  proof (cases r)
    case (Inl e)
    from buf_PutBlocks_error [OF assms(1) [unfolded Inl]] buf assms(3) clear_ok show ?thesis by auto
  next
    case (Inr u)
    with assms(1) have "buf_PutBlocks put (buf_commit f name flush clear) blks (p, w) = (Inr (), p', w')"
      by simp
    then show ?thesis
      by (rule buf_PutBlocks_ok) (use buf assms(3) clear_ok flush_ok in blast)
  qed
qed

lemma block_ok:
  assumes "buf_PutBlock put (buf_commit f name flush clear) b (p, w) = (r, p', w')"
    and "buf_ok p" and "tbl_ok (tables w)"
  shows "buf_ok p' \<and> tbl_ok (tables w')"
  using batch_ok [of f name "[b]"] assms by (simp add: buf_PutBlock_single)

end

end
