(* ===== verification/AccountIncome.thy ===== *)
theory AccountIncome
  imports BufferedSink "HOL-Library.AList"
begin

text \<open>
  plugins/account_income and plugins/account_income_v1: what each address receives and sends,
  block by block in one table and in total in another. Addresses are parsed by iotex-address,
  a parameter; amounts are big.Int and decimal, hence integers.
\<close>

subsection \<open>Data\<close>

datatype income =
  Income (in_flow: int) (in_actions: int) (out_flow: int) (out_actions: int)

instantiation income :: comm_monoid_add
begin

definition zero_income :: income where
  "zero_income = Income 0 0 0 0"

definition plus_income :: "income \<Rightarrow> income \<Rightarrow> income" where
  "plus_income x y = Income (in_flow x + in_flow y) (in_actions x + in_actions y)
     (out_flow x + out_flow y) (out_actions x + out_actions y)"

instance
  by standard (simp_all add: zero_income_def plus_income_def)

end

lemma income_sel [simp]:
  "in_flow 0 = 0" "in_actions 0 = 0" "out_flow 0 = 0" "out_actions 0 = 0"
  "in_flow (x + y) = in_flow x + in_flow y" "in_actions (x + y) = in_actions x + in_actions y"
  "out_flow (x + y) = out_flow x + out_flow y" "out_actions (x + y) = out_actions x + out_actions y"
  by (simp_all add: zero_income_def plus_income_def)

lemma income_add [simp]:
  "Income a b c d + Income a' b' c' d' = Income (a + a') (b + b') (c + c') (d + d')"
  by (simp add: plus_income_def)

text \<open>The tables \<open>account_income\<close> and \<open>account_income_count\<close>; the latter has one row per address.\<close>

record ai_row =
  ai_height :: u64
  ai_address :: string
  ai_income :: income

record ai_tables =
  ai_rows :: "ai_row list"
  ai_counts :: "string \<rightharpoonup> income"

text \<open>
  \<open>accountIncome\<close> and \<open>accountIncomeCountMap\<close> of the plugin. A Go map is an association list
  in the order in which it happens to be ranged over.
\<close>

record ai_plugin =
  ap_rows :: "ai_row list"
  ap_counts :: "(string \<times> income) list"

subsection \<open>The incomes of a block\<close>

text \<open>An entry that is missing is first made with zeros.\<close>

definition bump :: "string \<Rightarrow> income \<Rightarrow> (string \<times> income) list \<Rightarrow> (string \<times> income) list" where
  "bump a i m = AList.update a ((case map_of m a of None \<Rightarrow> 0 | Some j \<Rightarrow> j) + i) m"

text \<open>\<open>addr\<close> is \<open>address.FromString\<close> followed by \<open>String\<close>, or None for its error.\<close>

definition income_log ::
  "(string \<Rightarrow> string option) \<Rightarrow> tx_log \<Rightarrow> (string \<times> income) list \<Rightarrow> (string \<times> income) list" where
  "income_log addr l m =
     (let m1 = (if tl_sender l \<noteq> [] then bump (tl_sender l) (Income 0 0 (tl_amount l) 1) m else m)
      in if tl_recipient l = [] then m1
         else case addr (tl_recipient l) of
                None \<Rightarrow> m1
              | Some a \<Rightarrow> if a \<noteq> [] then bump a (Income (tl_amount l) 1 0 0) m1 else m1)"

definition tx_logs_of :: "block \<Rightarrow> tx_log list" where
  "tx_logs_of blk = concat (map r_tx_logs (b_receipts blk))"

definition getIncomes :: "(string \<Rightarrow> string option) \<Rightarrow> block \<Rightarrow> (string \<times> income) list" where
  "getIncomes addr blk = fold (income_log addr) (tx_logs_of blk) []"

subsection \<open>Blocks and batches\<close>

definition ai_putIncome :: "u64 \<Rightarrow> string \<times> income \<Rightarrow> ai_plugin \<Rightarrow> ai_plugin" where
  "ai_putIncome h ai p =
     (case ai of (a, i) \<Rightarrow>
        p\<lparr>ap_rows := ap_rows p @ [\<lparr>ai_height = h, ai_address = a, ai_income = i\<rparr>],
          ap_counts := bump a i (ap_counts p)\<rparr>)"

definition ai_putBlock :: "(string \<Rightarrow> string option) \<Rightarrow> block \<Rightarrow> ai_plugin \<Rightarrow> unit res \<times> ai_plugin" where
  "ai_putBlock addr blk p = (Inr (), fold (ai_putIncome (b_height blk)) (getIncomes addr blk) p)"

text \<open>The upsert adds the columns of the excluded row to those of the row that is there.\<close>

definition upsert_count :: "string \<times> income \<Rightarrow> (string \<rightharpoonup> income) \<Rightarrow> (string \<rightharpoonup> income)" where
  "upsert_count ad c =
     (case ad of (a, d) \<Rightarrow> c(a \<mapsto> (case c a of None \<Rightarrow> d | Some old \<Rightarrow> old + d)))"

definition ai_flush :: "ai_plugin \<Rightarrow> ai_tables \<Rightarrow> ai_tables res" where
  "ai_flush p t =
     Inr (t\<lparr>ai_rows := ai_rows t @ ap_rows p,
            ai_counts := fold upsert_count (ap_counts p) (ai_counts t)\<rparr>)"

definition ai_clear :: "ai_plugin \<Rightarrow> ai_plugin" where
  "ai_clear p = p\<lparr>ap_rows := [], ap_counts := []\<rparr>"

definition ai_commit ::
  "tx_faults \<Rightarrow> u64 \<Rightarrow> ai_plugin \<times> ai_tables world \<Rightarrow> unit res \<times> ai_plugin \<times> ai_tables world" where
  "ai_commit f = buf_commit f ''account_income'' ai_flush ai_clear"

definition ai_PutBlocks ::
  "(string \<Rightarrow> string option) \<Rightarrow> tx_faults \<Rightarrow> block list \<Rightarrow> ai_plugin \<times> ai_tables world \<Rightarrow>
   unit res \<times> ai_plugin \<times> ai_tables world" where
  "ai_PutBlocks addr f = buf_PutBlocks (ai_putBlock addr) (ai_commit f)"

definition ai_PutBlock ::
  "(string \<Rightarrow> string option) \<Rightarrow> tx_faults \<Rightarrow> block \<Rightarrow> ai_plugin \<times> ai_tables world \<Rightarrow>
   unit res \<times> ai_plugin \<times> ai_tables world" where
  "ai_PutBlock addr f = buf_PutBlock (ai_putBlock addr) (ai_commit f)"

text \<open>
  \<open>Start\<close> after the migration of the tables: the genesis balances, once, in a transaction of
  their own. \<open>rewarding\<close> is the balance that the rewarding protocol starts with. Creating a
  second total for an address violates its unique index. \<open>tx_ok\<close> says whether the statements
  and the commit are accepted, \<open>count_ok\<close> whether the count is.
\<close>

definition rewarding_address :: string where
  "rewarding_address = ''io0000000000000000000000rewardingprotocol''"

definition seed_one :: "string \<times> int \<Rightarrow> ai_tables \<Rightarrow> ai_tables res" where
  "seed_one ab t =
     (case ab of (a, b) \<Rightarrow>
        if a \<in> dom (ai_counts t) then Inl DbError
        else Inr (t\<lparr>ai_rows := ai_rows t @ [\<lparr>ai_height = 0, ai_address = a, ai_income = Income b 0 0 0\<rparr>],
                    ai_counts := (ai_counts t)(a \<mapsto> Income b 0 0 0)\<rparr>))"

definition ai_Start ::
  "bool \<Rightarrow> bool \<Rightarrow> (string \<times> int) list \<Rightarrow> int \<Rightarrow> ai_plugin \<times> ai_tables world \<Rightarrow>
   unit res \<times> ai_plugin \<times> ai_tables world" where
  "ai_Start count_ok tx_ok balances rewarding s =
     (case s of (p, w) \<Rightarrow>
        let p1 = p\<lparr>ap_counts := []\<rparr> in
        if \<not> count_ok then (Inl DbError, p1, w)
        else if \<exists>r \<in> set (ai_rows (tables w)). ai_height r = 0 then (Inr (), p1, w)
        else case foldE seed_one (AList.update rewarding_address rewarding balances) (tables w) of
               Inl e \<Rightarrow> (Inl e, p1, w)
             | Inr t \<Rightarrow> if tx_ok then (Inr (), p1, w\<lparr>tables := t\<rparr>) else (Inl DbError, p1, w))"

subsection \<open>The incomes of a block, by address\<close>

text \<open>What one transaction log means for an address.\<close>

definition credited :: "(string \<Rightarrow> string option) \<Rightarrow> tx_log \<Rightarrow> string option" where
  "credited addr l =
     (if tl_recipient l = [] then None
      else case addr (tl_recipient l) of None \<Rightarrow> None | Some a \<Rightarrow> if a = [] then None else Some a)"

definition log_income :: "(string \<Rightarrow> string option) \<Rightarrow> string \<Rightarrow> tx_log \<Rightarrow> income" where
  "log_income addr a l =
     (if a \<noteq> [] \<and> tl_sender l = a then Income 0 0 (tl_amount l) 1 else 0) +
     (if credited addr l = Some a then Income (tl_amount l) 1 0 0 else 0)"

definition entry :: "(string \<times> income) list \<Rightarrow> string \<Rightarrow> income" where
  "entry m a = (case map_of m a of None \<Rightarrow> 0 | Some i \<Rightarrow> i)"

lemma entry_Nil [simp]: "entry [] a = 0"
  by (simp add: entry_def)

lemma entry_bump [simp]: "entry (bump b i m) a = entry m a + (if a = b then i else 0)"
  by (simp add: entry_def bump_def AList.update_conv')

lemma distinct_bump: "distinct (map fst m) \<Longrightarrow> distinct (map fst (bump a i m))"
  by (simp add: bump_def AList.distinct_update)

lemma entry_income_log: "entry (income_log addr l m) a = entry m a + log_income addr a l"
  by (auto simp: income_log_def log_income_def credited_def Let_def ac_simps split: option.splits)

lemma distinct_income_log: "distinct (map fst m) \<Longrightarrow> distinct (map fst (income_log addr l m))"
  by (auto simp: income_log_def Let_def distinct_bump split: option.splits)

lemma getIncomes_fold:
  "distinct (map fst m) \<Longrightarrow> distinct (map fst (fold (income_log addr) ls m)) \<and>
   entry (fold (income_log addr) ls m) a = entry m a + sum_list (map (log_income addr a) ls)"
  by (induction ls arbitrary: m) (auto simp: entry_income_log distinct_income_log ac_simps)

lemma getIncomes_entry:
  "entry (getIncomes addr blk) a = sum_list (map (log_income addr a) (tx_logs_of blk))"
  using getIncomes_fold [of "[]" addr "tx_logs_of blk" a] by (simp add: getIncomes_def)

lemma getIncomes_distinct: "distinct (map fst (getIncomes addr blk))"
  using getIncomes_fold [of "[]" addr "tx_logs_of blk"] by (simp add: getIncomes_def)

subsection \<open>Rows and totals\<close>

definition income_of :: "string \<Rightarrow> ai_row list \<Rightarrow> income" where
  "income_of a rows = sum_list (map ai_income (filter (\<lambda>r. ai_address r = a) rows))"

definition total_income :: "string \<Rightarrow> (string \<rightharpoonup> income) \<Rightarrow> income" where
  "total_income a c = (case c a of None \<Rightarrow> 0 | Some i \<Rightarrow> i)"

definition totals_ok :: "ai_tables \<Rightarrow> bool" where
  "totals_ok t \<longleftrightarrow> (\<forall>a. total_income a (ai_counts t) = income_of a (ai_rows t))"

definition pending_totals :: "ai_plugin \<Rightarrow> bool" where
  "pending_totals p \<longleftrightarrow>
     distinct (map fst (ap_counts p)) \<and> (\<forall>a. entry (ap_counts p) a = income_of a (ap_rows p))"

lemma income_of_simps [simp]:
  "income_of a [] = 0"
  "income_of a (xs @ ys) = income_of a xs + income_of a ys"
  "income_of a (r # rows) = (if ai_address r = a then ai_income r else 0) + income_of a rows"
  by (simp_all add: income_of_def)

lemma total_upsert: "total_income a (upsert_count (b, d) c) = total_income a c + (if a = b then d else 0)"
  by (simp add: total_income_def upsert_count_def split: option.splits)

lemma total_upserts:
  "distinct (map fst m) \<Longrightarrow> total_income a (fold upsert_count m c) = total_income a c + entry m a"
proof (induction m arbitrary: c)
  case Nil
  then show ?case by simp
next
  case (Cons ad m)
  obtain b d where ad: "ad = (b, d)" by fastforce
  have "map_of m b = None" using Cons.prems ad by (simp add: map_of_eq_None_iff)
  then have "entry m b = 0" by (simp add: entry_def)
  with Cons ad show ?case by (simp add: total_upsert entry_def ac_simps)
qed

lemma pending_totals_put:
  "pending_totals p \<Longrightarrow> pending_totals (ai_putIncome h ai p)"
  by (cases ai) (auto simp: pending_totals_def ai_putIncome_def distinct_bump)

lemma pending_totals_fold: "pending_totals p \<Longrightarrow> pending_totals (fold (ai_putIncome h) m p)"
  by (induction m arbitrary: p) (simp_all add: pending_totals_put)

interpretation ai: buffered_sink "ai_putBlock addr" ai_flush ai_clear pending_totals totals_ok for addr
proof unfold_locales
  fix b
  show "keeps pending_totals (ai_putBlock addr b)"
    by (simp add: keeps_def ai_putBlock_def pending_totals_fold)
next
  fix p t t'
  assume "pending_totals p" and "totals_ok t" and "ai_flush p t = Inr t'"
  then show "totals_ok t'"
    by (auto simp: totals_ok_def pending_totals_def ai_flush_def total_upserts)
qed (simp add: pending_totals_def ai_clear_def)

text \<open>Where the plugin can be, from empty tables, through starts and batches whatever fails.\<close>

inductive ai_reachable ::
  "(string \<Rightarrow> string option) \<Rightarrow> (string \<times> int) list \<Rightarrow> int \<Rightarrow> ai_plugin \<times> ai_tables world \<Rightarrow> bool"
  for addr balances rewarding where
    ai_init: "tables w = \<lparr>ai_rows = [], ai_counts = Map.empty\<rparr> \<Longrightarrow>
      ai_reachable addr balances rewarding (\<lparr>ap_rows = [], ap_counts = []\<rparr>, w)"
  | ai_start: "ai_reachable addr balances rewarding s \<Longrightarrow>
      ai_Start count_ok tx_ok balances rewarding s = (r, s') \<Longrightarrow> ai_reachable addr balances rewarding s'"
  | ai_put: "ai_reachable addr balances rewarding s \<Longrightarrow>
      ai_PutBlocks addr f blks s = (r, s') \<Longrightarrow> ai_reachable addr balances rewarding s'"
  | ai_put1: "ai_reachable addr balances rewarding s \<Longrightarrow>
      ai_PutBlock addr f b s = (r, s') \<Longrightarrow> ai_reachable addr balances rewarding s'"

definition buffers_empty :: "ai_plugin \<Rightarrow> bool" where
  "buffers_empty p \<longleftrightarrow> ap_rows p = [] \<and> ap_counts p = []"

lemma buffers_empty_pending: "buffers_empty p \<Longrightarrow> pending_totals p"
  by (simp add: buffers_empty_def pending_totals_def)

lemma eachS_ai_putBlock: "\<exists>p'. eachS (ai_putBlock addr) blks p = (Inr (), p')"
  by (induction blks arbitrary: p) (simp_all add: ai_putBlock_def bindS_def)

lemma ai_PutBlocks_empties:
  assumes "ai_PutBlocks addr f blks (p, w) = (r, p', w')" and "buffers_empty p"
  shows "buffers_empty p'"
proof (cases "blks = []")
  case True
  with assms show ?thesis by (auto simp: ai_PutBlocks_def buf_PutBlocks_def)
next
  case False
  obtain p1 where "eachS (ai_putBlock addr) blks p = (Inr (), p1)"
    using eachS_ai_putBlock by blast
  with assms False show ?thesis
    by (auto simp: ai_PutBlocks_def buf_PutBlocks_def ai_commit_def buf_commit_def buffers_empty_def
        ai_clear_def split: prod.splits)
qed

lemma seed_totals: "foldE seed_one m t = Inr t' \<Longrightarrow> totals_ok t \<Longrightarrow> totals_ok t'"
proof (erule foldE_invariant, assumption)
  fix ab u v
  assume ok: "totals_ok u" and seed: "seed_one ab u = Inr v"
  obtain a b where ab: "ab = (a, b)" by fastforce
  with seed have none: "ai_counts u a = None" by (auto simp: seed_one_def split: if_splits)
  with ok have "income_of a (ai_rows u) = 0" by (metis option.simps(4) total_income_def totals_ok_def)
  with ok seed ab none show "totals_ok v"
    by (auto simp: seed_one_def totals_ok_def total_income_def split: if_splits)
qed

lemma ai_reachable_ok: "ai_reachable addr balances rewarding s \<Longrightarrow> buffers_empty (fst s) \<and> totals_ok (tables (snd s))"
proof (induction rule: ai_reachable.induct)
  case (ai_init w)
  then show ?case by (simp add: buffers_empty_def totals_ok_def total_income_def)
next
  case (ai_start s count_ok tx_ok r s')
  then show ?case
    by (cases s)
      (auto simp: ai_Start_def Let_def buffers_empty_def dest: seed_totals split: if_splits sum.splits)
next
  case (ai_put s f blks r s')
  obtain p w p' w' where s: "s = (p, w)" "s' = (p', w')" by fastforce
  with ai_put have put: "ai_PutBlocks addr f blks (p, w) = (r, p', w')"
      and ok: "buffers_empty p" "totals_ok (tables w)" by simp_all
  from ai.batch_ok [OF put [unfolded ai_PutBlocks_def ai_commit_def] buffers_empty_pending [OF ok(1)] ok(2)]
    ai_PutBlocks_empties [OF put ok(1)] s show ?case by simp
next
  case (ai_put1 s f b r s')
  obtain p w p' w' where s: "s = (p, w)" "s' = (p', w')" by fastforce
  have "ai_PutBlock addr f b s = ai_PutBlocks addr f [b] s"
    by (simp add: ai_PutBlocks_def ai_PutBlock_def buf_PutBlock_single)
  with ai_put1 s have put: "ai_PutBlocks addr f [b] (p, w) = (r, p', w')"
      and ok: "buffers_empty p" "totals_ok (tables w)" by simp_all
  from ai.batch_ok [OF put [unfolded ai_PutBlocks_def ai_commit_def] buffers_empty_pending [OF ok(1)] ok(2)]
    ai_PutBlocks_empties [OF put ok(1)] s show ?case by simp
qed

subsection \<open>What a batch adds\<close>

definition net :: "income \<Rightarrow> int" where
  "net i = in_flow i - out_flow i"

definition net_rows :: "ai_row list \<Rightarrow> int" where
  "net_rows rows = sum_list (map (\<lambda>r. net (ai_income r)) rows)"

text \<open>The logs of a batch, and what one of them adds to all balances together.\<close>

definition batch_logs :: "block list \<Rightarrow> tx_log list" where
  "batch_logs blks = concat (map tx_logs_of blks)"

definition log_net :: "(string \<Rightarrow> string option) \<Rightarrow> tx_log \<Rightarrow> int" where
  "log_net addr l =
     (if credited addr l = None then 0 else tl_amount l) - (if tl_sender l = [] then 0 else tl_amount l)"

lemma net_add [simp]: "net (x + y) = net x + net y" "net 0 = 0" "net (Income a b c d) = a - c"
  by (simp_all add: net_def)

lemma net_bump: "sum_list (map (\<lambda>x. net (snd x)) (bump a i m)) = sum_list (map (\<lambda>x. net (snd x)) m) + net i"
  unfolding bump_def by (induction m) auto

lemma net_income_log:
  "sum_list (map (\<lambda>x. net (snd x)) (income_log addr l m)) =
     sum_list (map (\<lambda>x. net (snd x)) m) + log_net addr l"
  by (auto simp: income_log_def log_net_def credited_def Let_def net_bump split: option.splits)

lemma net_getIncomes:
  "sum_list (map (\<lambda>x. net (snd x)) (getIncomes addr blk)) = sum_list (map (log_net addr) (tx_logs_of blk))"
proof -
  have "sum_list (map (\<lambda>x. net (snd x)) (fold (income_log addr) ls m)) =
      sum_list (map (\<lambda>x. net (snd x)) m) + sum_list (map (log_net addr) ls)" for ls m
    by (induction ls arbitrary: m) (simp_all add: net_income_log)
  then show ?thesis by (simp add: getIncomes_def)
qed

lemma putIncomes_rows:
  "ap_rows (fold (ai_putIncome h) m p) = ap_rows p @ map (\<lambda>(a, i). \<lparr>ai_height = h, ai_address = a, ai_income = i\<rparr>) m"
  by (induction m arbitrary: p) (auto simp: ai_putIncome_def)

lemma income_of_entries:
  "distinct (map fst m) \<Longrightarrow>
   income_of a (map (\<lambda>(b, i). \<lparr>ai_height = h, ai_address = b, ai_income = i\<rparr>) m) = entry m a"
proof (induction m)
  case Nil
  then show ?case by simp
next
  case (Cons x m)
  then have "map_of m (fst x) = None" by (simp add: map_of_eq_None_iff)
  with Cons show ?case by (cases x) (auto simp: entry_def)
qed

lemma putBlocks_adds:
  assumes "eachS (ai_putBlock addr) blks p = (r, p')"
  shows "income_of a (ap_rows p') = income_of a (ap_rows p) + sum_list (map (log_income addr a) (batch_logs blks))"
    and "net_rows (ap_rows p') = net_rows (ap_rows p) + sum_list (map (log_net addr) (batch_logs blks))"
proof -
  define step where "step b p = fold (ai_putIncome (b_height b)) (getIncomes addr b) p" for b p
  have one: "income_of a (ap_rows (step b u)) = income_of a (ap_rows u) + sum_list (map (log_income addr a) (tx_logs_of b))"
      "net_rows (ap_rows (step b u)) = net_rows (ap_rows u) + sum_list (map (log_net addr) (tx_logs_of b))" for b u
    using net_getIncomes [of addr b]
    by (simp_all add: step_def putIncomes_rows income_of_entries getIncomes_distinct getIncomes_entry
        net_rows_def case_prod_beta comp_def)
  have run: "eachS (ai_putBlock addr) bs u = (Inr (), fold step bs u)" for bs u
    by (induction bs arbitrary: u) (simp_all add: ai_putBlock_def bindS_def step_def)
  have all: "income_of a (ap_rows (fold step bs u)) = income_of a (ap_rows u) + sum_list (map (log_income addr a) (batch_logs bs))
      \<and> net_rows (ap_rows (fold step bs u)) = net_rows (ap_rows u) + sum_list (map (log_net addr) (batch_logs bs))" for bs u
    by (induction bs arbitrary: u) (simp_all add: one batch_logs_def ac_simps)
  from assms run [of blks p] have p': "p' = fold step blks p" by simp
  show "income_of a (ap_rows p') = income_of a (ap_rows p) + sum_list (map (log_income addr a) (batch_logs blks))"
    and "net_rows (ap_rows p') = net_rows (ap_rows p) + sum_list (map (log_net addr) (batch_logs blks))"
    unfolding p' using all [of blks p] by blast+
qed

lemma ai_PutBlocks_ok:
  assumes "ai_PutBlocks addr f blks (p, w) = (Inr (), p', w')"
  obtains p1 where "eachS (ai_putBlock addr) blks p = (Inr (), p1)"
    and "ai_rows (tables w') = ai_rows (tables w) @ ap_rows p1"
proof -
  from assms [unfolded ai_PutBlocks_def ai_commit_def] obtain p1
    where p1: "eachS (ai_putBlock addr) blks p = (Inr (), p1)" "ai_flush p1 (tables w) = Inr (tables w')"
    by (rule buf_PutBlocks_ok)
  from p1(2) have "tables w' = tables w\<lparr>ai_rows := ai_rows (tables w) @ ap_rows p1,
      ai_counts := fold upsert_count (ap_counts p1) (ai_counts (tables w))\<rparr>"
    by (simp add: ai_flush_def)
  with p1(1) that show ?thesis by simp
qed

subsection \<open>Properties\<close>

definition pay :: "string \<Rightarrow> string \<Rightarrow> int \<Rightarrow> tx_log" where
  "pay sender to amount = \<lparr>tl_type = 0, tl_amount = amount, tl_sender = sender, tl_recipient = to\<rparr>"

definition pay_block :: "u64 \<Rightarrow> tx_log list \<Rightarrow> block" where
  "pay_block h ls = \<lparr>b_height = h, b_timestamp = 0, b_actions = [],
     b_receipts = [\<lparr>r_status = 1, r_action_hash = [], r_gas_consumed = 0, r_tx_index = 0, r_logs = [],
                    r_tx_logs = ls\<rparr>]\<rparr>"

definition ai_world :: "ai_tables \<Rightarrow> ai_tables world" where
  "ai_world t = \<lparr>tables = t, heights = [''account_income'' \<mapsto> 0], index_cache = Map.empty\<rparr>"

text \<open>
  C5: The totals of account_income are the sums of its rows. Whatever starts and batches the
  plugin went through, with whatever statements refused, the total of every address, its four
  columns alike, is the sum over the rows of that address, and an address without rows has none.
\<close>

theorem account_totals_are_sums:
  assumes "ai_reachable addr balances rewarding (p, w)"
  shows "(case ai_counts (tables w) a of None \<Rightarrow> 0 | Some i \<Rightarrow> i) = income_of a (ai_rows (tables w))"
  using ai_reachable_ok [OF assms] by (simp add: totals_ok_def total_income_def)

theorem account_totals_are_sums_witness:
  "\<exists>p w. ai_reachable Some [(''io_a'', 100)] 7 (p, w)
     \<and> income_of ''io_a'' (ai_rows (tables w)) = Income 100 0 30 1
     \<and> (case ai_counts (tables w) ''io_a'' of None \<Rightarrow> 0 | Some i \<Rightarrow> i) = Income 100 0 30 1"
proof -
  define s0 where "s0 = (\<lparr>ap_rows = [], ap_counts = []\<rparr>, ai_world \<lparr>ai_rows = [], ai_counts = Map.empty\<rparr>)"
  have r0: "ai_reachable Some [(''io_a'', 100)] 7 s0"
    unfolding s0_def by (rule ai_init) (simp add: ai_world_def)
  obtain r1 s1 where s1: "ai_Start True True [(''io_a'', 100)] 7 s0 = (r1, s1)" by (rule prod.exhaust)
  obtain r2 p w where s2: "ai_PutBlocks Some no_faults [pay_block 1 [pay ''io_a'' ''io_b'' 30]] s1 = (r2, p, w)"
    using prod_cases3 by blast
  have r2: "ai_reachable Some [(''io_a'', 100)] 7 (p, w)"
    using ai_put [OF ai_start [OF r0 s1] s2] .
  have "income_of ''io_a'' (ai_rows (tables w)) = Income 100 0 30 1"
    using s1 s2
    by (auto simp: s0_def ai_Start_def rewarding_address_def seed_one_def ai_world_def ai_PutBlocks_def
        buf_PutBlocks_def ai_putBlock_def bindS_def getIncomes_def tx_logs_of_def pay_block_def pay_def
        income_log_def bump_def ai_putIncome_def ai_commit_def buf_commit_def index_tx_no_faults
        ai_flush_def zero_income_def)
  with account_totals_are_sums [OF r2, of "''io_a''"] r2 show ?thesis by auto
qed

text \<open>
  A batch books exactly what its transaction logs say. After a batch that commits, what the
  rows of an address add up to has grown by the logs that name it: by the amount as outflow where
  it is the sender, by the amount as inflow where the recipient is that address in canonical form,
  with one action each, also where it is both.
\<close>

theorem account_income_exact:
  assumes "ai_reachable addr balances rewarding (p, w)"
    and "ai_PutBlocks addr f blks (p, w) = (Inr (), p', w')"
  shows "income_of a (ai_rows (tables w')) =
    income_of a (ai_rows (tables w)) + sum_list (map (log_income addr a) (batch_logs blks))"
proof -
  have "ap_rows p = []" using ai_reachable_ok [OF assms(1)] by (simp add: buffers_empty_def)
  with assms(2) show ?thesis
    by (auto elim!: ai_PutBlocks_ok dest: putBlocks_adds(1) [where a = a])
qed

text \<open>A state of the plugin at its start, and what committing a batch there needs.\<close>

lemma ai_example_run:
  "\<exists>p' w'. ai_PutBlocks addr no_faults [pay_block 1 ls]
      (\<lparr>ap_rows = [], ap_counts = []\<rparr>, ai_world \<lparr>ai_rows = [], ai_counts = Map.empty\<rparr>) = (Inr (), p', w')"
  by (simp add: ai_PutBlocks_def buf_PutBlocks_def ai_putBlock_def bindS_def ai_commit_def
      buf_commit_def index_tx_no_faults ai_flush_def)

lemma ai_example_reachable:
  "ai_reachable addr balances rewarding
     (\<lparr>ap_rows = [], ap_counts = []\<rparr>, ai_world \<lparr>ai_rows = [], ai_counts = Map.empty\<rparr>)"
  by (rule ai_init) (simp add: ai_world_def)

theorem account_income_exact_witness:
  "\<exists>p' w'. ai_PutBlocks Some no_faults [pay_block 1 [pay ''io_a'' ''io_a'' 30, pay ''io_b'' ''io_a'' 5]]
      (\<lparr>ap_rows = [], ap_counts = []\<rparr>, ai_world \<lparr>ai_rows = [], ai_counts = Map.empty\<rparr>) = (Inr (), p', w')
    \<and> income_of ''io_a'' (ai_rows (tables w')) = Income 35 2 30 1"
proof -
  obtain p' w' where run: "ai_PutBlocks Some no_faults
      [pay_block 1 [pay ''io_a'' ''io_a'' 30, pay ''io_b'' ''io_a'' 5]]
      (\<lparr>ap_rows = [], ap_counts = []\<rparr>, ai_world \<lparr>ai_rows = [], ai_counts = Map.empty\<rparr>) = (Inr (), p', w')"
    using ai_example_run by blast
  with account_income_exact [OF ai_example_reachable [of Some "[]" 0] run, of "''io_a''"] show ?thesis
    by (simp add: ai_world_def batch_logs_def tx_logs_of_def pay_block_def pay_def log_income_def
        credited_def zero_income_def)
qed

text \<open>
  C28: Transfers neither make nor lose funds. After a batch that commits, all rows together have
  gained, inflows less outflows, the amounts of the logs without a sender that reach an address
  less those of the logs with a sender whose recipient is missing or not an address; if every log
  has both, the sum over all addresses is as before.
\<close>

theorem account_income_conserves:
  assumes "ai_reachable addr balances rewarding (p, w)"
    and "ai_PutBlocks addr f blks (p, w) = (Inr (), p', w')"
  shows "net_rows (ai_rows (tables w')) =
      net_rows (ai_rows (tables w)) + sum_list (map (log_net addr) (batch_logs blks))
    \<and> ((\<forall>l \<in> set (batch_logs blks). tl_sender l \<noteq> [] \<and> credited addr l \<noteq> None) \<longrightarrow>
        net_rows (ai_rows (tables w')) = net_rows (ai_rows (tables w)))"
proof -
  have "ap_rows p = []" using ai_reachable_ok [OF assms(1)] by (simp add: buffers_empty_def)
  with assms(2) have eq: "net_rows (ai_rows (tables w')) =
      net_rows (ai_rows (tables w)) + sum_list (map (log_net addr) (batch_logs blks))"
    by (auto elim!: ai_PutBlocks_ok dest!: putBlocks_adds(2) simp: net_rows_def)
  have "sum_list (map (log_net addr) ls) = 0"
    if "\<forall>l \<in> set ls. tl_sender l \<noteq> [] \<and> credited addr l \<noteq> None" for ls
    using that by (induction ls) (auto simp: log_net_def)
  with eq show ?thesis by simp
qed

theorem account_income_conserves_witness:
  "\<exists>p' w'. ai_PutBlocks Some no_faults [pay_block 1 [pay ''io_a'' ''io_b'' 30]]
      (\<lparr>ap_rows = [], ap_counts = []\<rparr>, ai_world \<lparr>ai_rows = [], ai_counts = Map.empty\<rparr>) = (Inr (), p', w')
    \<and> net_rows (ai_rows (tables w')) = 0"
proof -
  obtain p' w' where run: "ai_PutBlocks Some no_faults [pay_block 1 [pay ''io_a'' ''io_b'' 30]]
      (\<lparr>ap_rows = [], ap_counts = []\<rparr>, ai_world \<lparr>ai_rows = [], ai_counts = Map.empty\<rparr>) = (Inr (), p', w')"
    using ai_example_run by blast
  with account_income_conserves [OF ai_example_reachable [of Some "[]" 0] run] show ?thesis
    by (simp add: ai_world_def batch_logs_def tx_logs_of_def pay_block_def pay_def credited_def net_rows_def)
qed

end
