(* ===== verification/AccountIncomeV1.thy ===== *)
theory AccountIncomeV1
  imports AccountIncome
begin

text \<open>
  plugins/account_income_v1: the older version of account_income. It keeps the running totals of
  the addresses of a batch in memory, as rows with the id they have in the table (0 for none),
  and writes them back over the rows of that id. Its statements run on \<open>db.DB()\<close>, outside the
  transaction that records the index height.
\<close>

subsection \<open>State and operations\<close>

record v1_count =
  vc_id :: nat
  vc_address :: string
  vc_income :: income

record v1_tables =
  v1_rows :: "ai_row list"
  v1_counts :: "v1_count list"

record v1_plugin =
  vp1_rows :: "ai_row list"
  vp1_counts :: "(string \<times> v1_count) list"

text \<open>\<open>read_ok\<close> says for which addresses the lookup of the total is answered.\<close>

definition appendToAccountIncomeCount ::
  "(string \<Rightarrow> bool) \<Rightarrow> v1_count list \<Rightarrow> v1_count \<Rightarrow> v1_plugin \<Rightarrow> unit res \<times> v1_plugin" where
  "appendToAccountIncomeCount read_ok db aicm p =
     (let a = vc_address aicm in
      case map_of (vp1_counts p) a of
        None \<Rightarrow>
          if \<not> read_ok a then (Inl DbError, p)
          else (case find (\<lambda>r. vc_address r = a) db of
                  None \<Rightarrow> (Inr (), p\<lparr>vp1_counts := AList.update a aicm (vp1_counts p)\<rparr>)
                | Some aic \<Rightarrow> (Inr (), p\<lparr>vp1_counts := AList.update a aic (vp1_counts p)\<rparr>))
      | Some c \<Rightarrow>
          (Inr (), p\<lparr>vp1_counts :=
             AList.update a (c\<lparr>vc_income := vc_income c + vc_income aicm\<rparr>) (vp1_counts p)\<rparr>))"

definition v1_putIncome ::
  "(string \<Rightarrow> bool) \<Rightarrow> v1_count list \<Rightarrow> u64 \<Rightarrow> string \<times> income \<Rightarrow> v1_plugin \<Rightarrow> unit res \<times> v1_plugin" where
  "v1_putIncome read_ok db h ai p =
     (case ai of (a, i) \<Rightarrow>
        appendToAccountIncomeCount read_ok db \<lparr>vc_id = 0, vc_address = a, vc_income = i\<rparr>
          (p\<lparr>vp1_rows := vp1_rows p @ [\<lparr>ai_height = h, ai_address = a, ai_income = i\<rparr>]\<rparr>))"

definition v1_putBlock ::
  "(string \<Rightarrow> string option) \<Rightarrow> (string \<Rightarrow> bool) \<Rightarrow> v1_count list \<Rightarrow> block \<Rightarrow> v1_plugin \<Rightarrow>
   unit res \<times> v1_plugin" where
  "v1_putBlock addr read_ok db blk = eachS (v1_putIncome read_ok db (b_height blk)) (getIncomes addr blk)"

text \<open>
  ON CONFLICT (id) DO UPDATE: a row without an id is inserted and gets one, which gorm also sets
  in the struct; the address is unique.
\<close>

definition next_id :: "v1_count list \<Rightarrow> nat" where
  "next_id db = Suc (foldr max (map vc_id db) 0)"

definition v1_upsert :: "v1_count \<Rightarrow> v1_count list \<Rightarrow> (v1_count \<times> v1_count list) res" where
  "v1_upsert c db =
     (if vc_id c \<noteq> 0 \<and> (\<exists>r \<in> set db. vc_id r = vc_id c)
      then Inr (c, map (\<lambda>r. if vc_id r = vc_id c then c else r) db)
      else if \<exists>r \<in> set db. vc_address r = vc_address c then Inl DbError
      else let c' = (if vc_id c = 0 then c\<lparr>vc_id := next_id db\<rparr> else c) in Inr (c', db @ [c']))"

fun v1_upserts ::
  "(string \<times> v1_count) list \<Rightarrow> v1_count list \<Rightarrow> ((string \<times> v1_count) list \<times> v1_count list) res" where
  "v1_upserts [] db = Inr ([], db)"
| "v1_upserts ((a, c) # m) db =
     bindE (v1_upsert c db) (\<lambda>(c', db1). bindE (v1_upserts m db1) (\<lambda>(m', db2). Inr ((a, c') # m', db2)))"

text \<open>
  \<open>commit\<close>. \<open>rows_ok\<close> and \<open>counts_ok\<close> are the two inserts, \<open>f\<close> the update of the index height
  and its commit. The first component of the result is the map of totals with the ids that the
  inserts gave, which the copy of the receiver in \<open>PutBlock\<close> leaves behind.
\<close>

definition v1_commit ::
  "bool \<Rightarrow> bool \<Rightarrow> tx_faults \<Rightarrow> u64 \<Rightarrow> v1_plugin \<times> v1_tables world \<Rightarrow>
   (string \<times> v1_count) list \<times> unit res \<times> v1_plugin \<times> v1_tables world" where
  "v1_commit rows_ok counts_ok f tip s =
     (case s of (p, w) \<Rightarrow>
        let p1 = p\<lparr>vp1_rows := []\<rparr>;
            t1 = (tables w)\<lparr>v1_rows := v1_rows (tables w) @ vp1_rows p\<rparr>;
            w1 = w\<lparr>tables := t1\<rparr>
        in if vp1_rows p \<noteq> [] \<and> \<not> rows_ok then (vp1_counts p, Inl DbError, p1, w)
           else case (if counts_ok \<or> vp1_counts p = [] then v1_upserts (vp1_counts p) (v1_counts t1)
                      else Inl DbError) of
                  Inl e \<Rightarrow> (vp1_counts p, Inl e, p1\<lparr>vp1_counts := []\<rparr>, w1)
                | Inr (m, db) \<Rightarrow>
                    (case index_tx f ''account_income_v1'' (Inr tip) Inr
                            (w1\<lparr>tables := t1\<lparr>v1_counts := db\<rparr>\<rparr>) of
                       (r, w') \<Rightarrow> (m, r, p1\<lparr>vp1_counts := []\<rparr>, w')))"

definition v1_PutBlocks ::
  "(string \<Rightarrow> string option) \<Rightarrow> (string \<Rightarrow> bool) \<Rightarrow> bool \<Rightarrow> bool \<Rightarrow> tx_faults \<Rightarrow> block list \<Rightarrow>
   v1_plugin \<times> v1_tables world \<Rightarrow> unit res \<times> v1_plugin \<times> v1_tables world" where
  "v1_PutBlocks addr read_ok rows_ok counts_ok f blks s =
     (case s of (p, w) \<Rightarrow>
        (case eachS (v1_putBlock addr read_ok (v1_counts (tables w))) blks p of
           (Inl e, p') \<Rightarrow> (Inl e, p', w)
         | (Inr u, p') \<Rightarrow>
             (case idx blks 0 of
                Inl e \<Rightarrow> (Inl e, p', w)
              | Inr b \<Rightarrow>
                  snd (v1_commit rows_ok counts_ok f (b_height b + word_of_nat (length blks) - 1) (p', w)))))"

text \<open>
  \<open>PutBlock\<close> has a value receiver: its copy of the slice is lost, the map is shared until the
  copy replaces its own.
\<close>

definition v1_PutBlock ::
  "(string \<Rightarrow> string option) \<Rightarrow> (string \<Rightarrow> bool) \<Rightarrow> bool \<Rightarrow> bool \<Rightarrow> tx_faults \<Rightarrow> block \<Rightarrow>
   v1_plugin \<times> v1_tables world \<Rightarrow> unit res \<times> v1_plugin \<times> v1_tables world" where
  "v1_PutBlock addr read_ok rows_ok counts_ok f blk s =
     (case s of (p, w) \<Rightarrow>
        (case v1_putBlock addr read_ok (v1_counts (tables w)) blk p of
           (Inl e, p') \<Rightarrow> (Inl e, p\<lparr>vp1_counts := vp1_counts p'\<rparr>, w)
         | (Inr u, p') \<Rightarrow>
             (case v1_commit rows_ok counts_ok f (b_height blk) (p', w) of
                (m, r, _, w') \<Rightarrow> (r, p\<lparr>vp1_counts := m\<rparr>, w'))))"

text \<open>
  \<open>Start\<close> after the migration, as in account_income; \<open>getIncomes\<close> is the same in both.
\<close>

definition v1_seed_one :: "string \<times> int \<Rightarrow> v1_tables \<Rightarrow> v1_tables res" where
  "v1_seed_one ab t =
     (case ab of (a, b) \<Rightarrow>
        if a \<in> vc_address ` set (v1_counts t) then Inl DbError
        else Inr (t\<lparr>v1_rows := v1_rows t @ [\<lparr>ai_height = 0, ai_address = a, ai_income = Income b 0 0 0\<rparr>],
                    v1_counts := v1_counts t @
                      [\<lparr>vc_id = next_id (v1_counts t), vc_address = a, vc_income = Income b 0 0 0\<rparr>]\<rparr>))"

definition v1_Start ::
  "bool \<Rightarrow> bool \<Rightarrow> (string \<times> int) list \<Rightarrow> int \<Rightarrow> v1_plugin \<times> v1_tables world \<Rightarrow>
   unit res \<times> v1_plugin \<times> v1_tables world" where
  "v1_Start count_ok tx_ok balances rewarding s =
     (case s of (p, w) \<Rightarrow>
        let p1 = p\<lparr>vp1_counts := []\<rparr> in
        if \<not> count_ok then (Inl DbError, p1, w)
        else if \<exists>r \<in> set (v1_rows (tables w)). ai_height r = 0 then (Inr (), p1, w)
        else case foldE v1_seed_one (AList.update rewarding_address rewarding balances) (tables w) of
               Inl e \<Rightarrow> (Inl e, p1, w)
             | Inr t \<Rightarrow> if tx_ok then (Inr (), p1, w\<lparr>tables := t\<rparr>) else (Inl DbError, p1, w))"

subsection \<open>The totals a batch writes back\<close>

text \<open>An entry of the map comes from the table, unchanged, or is new.\<close>

definition loaded :: "v1_count list \<Rightarrow> v1_count \<Rightarrow> bool" where
  "loaded db c \<longleftrightarrow> c \<in> set db \<or> vc_id c = 0"

lemma update_new: "a \<notin> fst ` set m \<Longrightarrow> AList.update a c m = m @ [(a, c)]"
  by (induction m) auto

lemma append_fresh:
  assumes "v1_putIncome read_ok db h (a, i) p = (Inr (), p')" and "a \<notin> fst ` set (vp1_counts p)"
  shows "vp1_rows p' = vp1_rows p @ [\<lparr>ai_height = h, ai_address = a, ai_income = i\<rparr>]"
    and "\<exists>c. loaded db c \<and> vp1_counts p' = vp1_counts p @ [(a, c)]"
proof -
  have none: "map_of (vp1_counts p) a = None" using assms(2) by (simp add: map_of_eq_None_iff)
  have upd: "AList.update a c (vp1_counts p) = vp1_counts p @ [(a, c)]" for c
    using assms(2) by (rule update_new)
  show "vp1_rows p' = vp1_rows p @ [\<lparr>ai_height = h, ai_address = a, ai_income = i\<rparr>]"
    using assms(1) none
    by (auto simp: v1_putIncome_def appendToAccountIncomeCount_def Let_def split: if_splits option.splits)
  have "c \<in> set db" if "find (\<lambda>r. vc_address r = a) db = Some c" for c
    using that by (auto simp: find_Some_iff)
  with assms(1) none upd show "\<exists>c. loaded db c \<and> vp1_counts p' = vp1_counts p @ [(a, c)]"
    by (auto simp: v1_putIncome_def appendToAccountIncomeCount_def loaded_def Let_def
        split: if_splits option.splits)
qed

lemma append_block:
  assumes "eachS (v1_putIncome read_ok db h) m p = (Inr (), p')" and "distinct (map fst m)"
    and "fst ` set m \<inter> fst ` set (vp1_counts p) = {}" and "\<forall>c \<in> set (vp1_counts p). loaded db (snd c)"
  shows "vp1_rows p' = vp1_rows p @ map (\<lambda>(a, i). \<lparr>ai_height = h, ai_address = a, ai_income = i\<rparr>) m
    \<and> (\<forall>c \<in> set (vp1_counts p'). loaded db (snd c))"
  using assms
proof (induction m arbitrary: p)
  case Nil
  then show ?case by simp
next
  case (Cons x m)
  obtain a i where x: "x = (a, i)" by fastforce
  from Cons.prems(1) x obtain p1 where p1: "v1_putIncome read_ok db h (a, i) p = (Inr (), p1)"
      "eachS (v1_putIncome read_ok db h) m p1 = (Inr (), p')"
    by (auto simp: bindS_eq_Inr)
  have "a \<notin> fst ` set (vp1_counts p)" using Cons.prems(3) x by auto
  note step = append_fresh [OF p1(1) this]
  then obtain c where c: "loaded db c" "vp1_counts p1 = vp1_counts p @ [(a, c)]" by blast
  have "vp1_rows p' = vp1_rows p1 @ map (\<lambda>(a, i). \<lparr>ai_height = h, ai_address = a, ai_income = i\<rparr>) m
      \<and> (\<forall>c \<in> set (vp1_counts p'). loaded db (snd c))"
    by (rule Cons.IH [OF p1(2)]) (use Cons.prems c x in auto)
  with step(1) x show ?case by simp
qed

lemma next_id_fresh: "r \<in> set db \<Longrightarrow> vc_id r < next_id db"
proof (induction db)
  case Nil
  then show ?case by simp
next
  case (Cons x db)
  have "next_id db \<le> next_id (x # db)" by (simp add: next_id_def)
  with Cons show ?case by (auto simp: next_id_def)
qed

lemma map_replace_id:
  "distinct (map vc_id db) \<Longrightarrow> c \<in> set db \<Longrightarrow> map (\<lambda>r. if vc_id r = vc_id c then c else r) db = db"
  by (rule map_idI) (metis distinct_map inj_onD)

text \<open>Writing back entries that come from the table unchanged does nothing to its rows.\<close>

lemma upserts_keep:
  assumes "v1_upserts m (db @ new) = Inr (m', db')" and "distinct (map vc_id db)"
    and "\<forall>c \<in> set m. loaded db (snd c)" and "\<forall>r \<in> set new. vc_id r \<notin> vc_id ` set db"
    and "\<forall>r \<in> set db. vc_id r \<noteq> 0"
  shows "\<exists>new'. db' = db @ new'"
  using assms(1,3,4)
proof (induction m arbitrary: new m')
  case Nil
  then show ?case by auto
next
  case (Cons x m)
  obtain a c where x: "x = (a, c)" by fastforce
  from Cons.prems(1) x obtain c' db1 m1 where up: "v1_upsert c (db @ new) = Inr (c', db1)"
      "v1_upserts m db1 = Inr (m1, db')"
    by (auto simp: bindE_eq_Inr)
  from Cons.prems(2) x consider "c \<in> set db" | "vc_id c = 0" by (auto simp: loaded_def)
  then show ?case
  proof cases
    case 1
    then have "map (\<lambda>r. if vc_id r = vc_id c then c else r) (db @ new) = db @ new"
      using map_replace_id [OF assms(2)] Cons.prems(3) by (auto intro!: map_idI) (metis imageI)
    moreover have "vc_id c \<noteq> 0 \<and> (\<exists>r \<in> set (db @ new). vc_id r = vc_id c)" using 1 assms(5) by auto
    ultimately have "db1 = db @ new" using up(1) by (simp add: v1_upsert_def)
    with Cons.IH [of new m1] up(2) Cons.prems show ?thesis by simp
  next
    case 2
    with up(1) have "db1 = db @ (new @ [c\<lparr>vc_id := next_id (db @ new)\<rparr>])"
      by (auto simp: v1_upsert_def Let_def split: if_splits)
    moreover have "next_id (db @ new) \<notin> vc_id ` set db"
      using next_id_fresh [of _ "db @ new"] by force
    ultimately show ?thesis
      using Cons.IH [of "new @ [c\<lparr>vc_id := next_id (db @ new)\<rparr>]" m1] up(2) Cons.prems by simp
  qed
qed

subsection \<open>Properties\<close>

text \<open>
  The first income of a known address is lost from its total. A batch of one block
  writes a row for every address of the block, but every total the table already had is written
  back as it was loaded: what the block adds to these addresses never reaches their totals.
\<close>

theorem v1_known_totals_frozen:
  assumes "v1_PutBlocks addr read_ok rows_ok counts_ok f [blk] (p, w) = (Inr (), p', w')"
    and "vp1_rows p = []" and "vp1_counts p = []"
    and "distinct (map vc_id (v1_counts (tables w)))" and "\<forall>r \<in> set (v1_counts (tables w)). vc_id r \<noteq> 0"
  shows "(\<exists>new. v1_counts (tables w') = v1_counts (tables w) @ new) \<and>
    income_of a (v1_rows (tables w')) =
      income_of a (v1_rows (tables w)) + sum_list (map (log_income addr a) (tx_logs_of blk))"
proof -
  let ?db = "v1_counts (tables w)"
  obtain x p1 where p1: "v1_putBlock addr read_ok ?db blk p = (x, p1)" by fastforce
  with assms(1) have x: "x = Inr ()"
    by (cases x) (simp_all add: v1_PutBlocks_def bindS_def)
  from p1 x have run: "eachS (v1_putIncome read_ok ?db (b_height blk)) (getIncomes addr blk) p = (Inr (), p1)"
    by (simp add: v1_putBlock_def)
  from append_block [OF run getIncomes_distinct] assms(2,3)
  have rows: "vp1_rows p1 = map (\<lambda>(a, i). \<lparr>ai_height = b_height blk, ai_address = a, ai_income = i\<rparr>) (getIncomes addr blk)"
    and loaded: "\<forall>c \<in> set (vp1_counts p1). loaded ?db (snd c)"
    by simp_all
  obtain m db where up: "v1_upserts (vp1_counts p1) ?db = Inr (m, db)"
      and w': "v1_rows (tables w') = v1_rows (tables w) @ vp1_rows p1" "v1_counts (tables w') = db"
  proof -
    from assms(1) p1 x obtain q where c: "v1_commit rows_ok counts_ok f (b_height blk) (p1, w) = (q, Inr (), p', w')"
      by (cases "v1_commit rows_ok counts_ok f (b_height blk) (p1, w)") (simp add: v1_PutBlocks_def bindS_def)
    then obtain m db where m: "v1_upserts (vp1_counts p1) ?db = Inr (m, db)"
        and tx: "index_tx f ''account_income_v1'' (Inr (b_height blk)) Inr
          (w\<lparr>tables := (tables w)\<lparr>v1_rows := v1_rows (tables w) @ vp1_rows p1, v1_counts := db\<rparr>\<rparr>) = (Inr (), w')"
      by (auto simp: v1_commit_def Let_def split: if_splits sum.splits prod.splits)
    from tx have "tables w' = (tables w)\<lparr>v1_rows := v1_rows (tables w) @ vp1_rows p1, v1_counts := db\<rparr>"
      by (rule index_tx_ok) simp
    with m that show ?thesis by simp
  qed
  have "\<exists>new. db = ?db @ new"
    using upserts_keep [of "vp1_counts p1" ?db "[]" m db] up assms(4,5) loaded by simp
  with w' rows show ?thesis
    by (simp add: income_of_entries getIncomes_distinct getIncomes_entry)
qed

text \<open>The address had 100 and sends 30 more: its row says so, its total stays.\<close>

definition v1_example :: "v1_plugin \<times> v1_tables world" where
  "v1_example = (\<lparr>vp1_rows = [], vp1_counts = []\<rparr>,
     \<lparr>tables = \<lparr>v1_rows = [], v1_counts = [\<lparr>vc_id = 1, vc_address = ''io_a'', vc_income = Income 100 1 0 0\<rparr>]\<rparr>,
      heights = [''account_income_v1'' \<mapsto> 4], index_cache = Map.empty\<rparr>)"

theorem v1_known_totals_frozen_witness:
  "\<exists>p' w'. v1_PutBlocks Some (\<lambda>_. True) True True no_faults [pay_block 5 [pay ''io_a'' ''io_a'' 30]] v1_example
      = (Inr (), p', w')
    \<and> hd (v1_counts (tables w')) = \<lparr>vc_id = 1, vc_address = ''io_a'', vc_income = Income 100 1 0 0\<rparr>
    \<and> income_of ''io_a'' (v1_rows (tables w')) = Income 30 1 30 1"
proof -
  let ?blk = "pay_block 5 [pay ''io_a'' ''io_a'' 30]"
  have "\<exists>p' w'. v1_PutBlocks Some (\<lambda>_. True) True True no_faults [?blk] v1_example = (Inr (), p', w')"
    by (simp add: v1_PutBlocks_def v1_example_def v1_putBlock_def bindS_def getIncomes_def tx_logs_of_def
        pay_block_def pay_def income_log_def bump_def v1_putIncome_def appendToAccountIncomeCount_def
        Let_def v1_commit_def v1_upsert_def index_tx_no_faults)
  then obtain p' w' where run: "v1_PutBlocks Some (\<lambda>_. True) True True no_faults [?blk] v1_example = (Inr (), p', w')"
    by blast
  from v1_known_totals_frozen [OF run [unfolded v1_example_def], of "''io_a''"] run show ?thesis
    by (auto simp: tx_logs_of_def pay_block_def pay_def log_income_def credited_def zero_income_def)
qed

end
