(* ===== verification/BlockSupply.thy ===== *)
theory BlockSupply
  imports AccountIncome
begin

text \<open>
  plugins/block_supply: the supply of the token at each block, from the balances that
  account_income has for the zero address and the locked address. The balances are read in full
  when the plugin starts and then carried along in memory. The rows of account_income are an
  argument; block_supply only reads them. \<open>address.ZeroAddress\<close> comes from iotex-address.
\<close>

subsection \<open>State and queries\<close>

record bs_row =
  bs_height :: u64
  bs_total :: string
  bs_circulating :: string

record bs_plugin =
  bp_supplies :: "bs_row list"
  bp_running :: "string \<rightharpoonup> int"

record bs_env =
  be_zero :: string
  be_income :: "ai_row list"
  be_answers :: "u64 \<Rightarrow> string \<Rightarrow> bool" \<comment> \<open>whether the query at that height is answered\<close>

definition lockAddresses :: string where
  "lockAddresses = ''io1uqhmnttmv0pg8prugxxn7d8ex9angrvfjfthxa''"

definition totalBalance :: int where
  "totalBalance = 12700000000000000000000000000"

definition nsv1Balance :: int where
  "nsv1Balance = 262281303940000000000000000"

definition bnfxBalance :: int where
  "bnfxBalance = 3414253030000000000000000"

text \<open>\<open>sum(in_flow)-sum(out_flow)\<close> is NULL without rows, which the code reads as 0.\<close>

definition balance_rows :: "(u64 \<Rightarrow> bool) \<Rightarrow> string \<Rightarrow> ai_row list \<Rightarrow> int" where
  "balance_rows at a rows = sum_rows (\<lambda>r. at (ai_height r) \<and> ai_address r = a) (\<lambda>r. net (ai_income r)) rows"

definition accountBalanceByHeight :: "bs_env \<Rightarrow> u64 \<Rightarrow> string \<Rightarrow> int res" where
  "accountBalanceByHeight env h a =
     (if be_answers env h a then Inr (balance_rows (\<lambda>k. k \<le> h) a (be_income env)) else Inl DbError)"

definition accountBalanceDeltaAtHeight :: "bs_env \<Rightarrow> u64 \<Rightarrow> string \<Rightarrow> int res" where
  "accountBalanceDeltaAtHeight env h a =
     (if be_answers env h a then Inr (balance_rows (\<lambda>k. k = h) a (be_income env)) else Inl DbError)"

definition computeTotalSupply :: "int \<Rightarrow> string" where
  "computeTotalSupply zeroAddrBal = show_int (totalBalance - zeroAddrBal - nsv1Balance - bnfxBalance)"

definition computeTotalCirculatingSupply :: "string \<Rightarrow> int \<Rightarrow> string res" where
  "computeTotalCirculatingSupply totalSupply lockedBal =
     (case parse_int10 totalSupply of
        None \<Rightarrow> Inl (Err (''failed to format to big int:'' @ totalSupply))
      | Some i \<Rightarrow> Inr (show_int (i - lockedBal)))"

subsection \<open>Operations\<close>

definition tracked :: "bs_env \<Rightarrow> string list" where
  "tracked env = [be_zero env, lockAddresses]"

definition seed_balance :: "bs_env \<Rightarrow> u64 \<Rightarrow> string \<Rightarrow> bs_plugin \<Rightarrow> unit res \<times> bs_plugin" where
  "seed_balance env h a p =
     (case accountBalanceByHeight env h a of
        Inl e \<Rightarrow> (Inl e, p)
      | Inr b \<Rightarrow> (Inr (), p\<lparr>bp_running := (bp_running p)(a \<mapsto> b)\<rparr>))"

text \<open>\<open>Start\<close>, after the table was migrated.\<close>

definition bs_Start ::
  "bs_env \<Rightarrow> bool \<Rightarrow> bool \<Rightarrow> bs_plugin \<times> 't world \<Rightarrow> unit res \<times> bs_plugin \<times> 't world" where
  "bs_Start env read_ok create_ok s =
     (case s of (p, w) \<Rightarrow>
        (case GetIndexHeight read_ok create_ok ''block_supply'' w of
           (Inl e, w') \<Rightarrow> (Inl e, p, w')
         | (Inr h, w') \<Rightarrow>
             (case eachS (seed_balance env h) (tracked env) (p\<lparr>bp_running := Map.empty\<rparr>) of
                (r, p') \<Rightarrow> (r, p', w'))))"

text \<open>The big.Int of an address without an entry is nil, and adding to it panics.\<close>

definition apply_delta :: "bs_env \<Rightarrow> u64 \<Rightarrow> string \<Rightarrow> bs_plugin \<Rightarrow> unit res \<times> bs_plugin" where
  "apply_delta env h a p =
     (case accountBalanceDeltaAtHeight env h a of
        Inl e \<Rightarrow> (Inl e, p)
      | Inr d \<Rightarrow>
          (case bp_running p a of
             None \<Rightarrow> (Inl (Panic ''nil pointer dereference''), p)
           | Some b \<Rightarrow> (Inr (), p\<lparr>bp_running := (bp_running p)(a \<mapsto> b + d)\<rparr>)))"

definition running :: "bs_plugin \<Rightarrow> string \<Rightarrow> int res" where
  "running p a = (case bp_running p a of None \<Rightarrow> Inl (Panic ''nil pointer dereference'') | Some b \<Rightarrow> Inr b)"

definition bs_putBlock :: "bs_env \<Rightarrow> block \<Rightarrow> bs_plugin \<Rightarrow> unit res \<times> bs_plugin" where
  "bs_putBlock env blk =
     bindS (eachS (apply_delta env (b_height blk)) (tracked env)) (\<lambda>_ p.
       case bindE (running p (be_zero env)) (\<lambda>z.
            bindE (running p lockAddresses) (\<lambda>l.
              let totalSupply = computeTotalSupply z
              in bindE (computeTotalCirculatingSupply totalSupply l) (\<lambda>c. Inr (totalSupply, c)))) of
         Inl e \<Rightarrow> (Inl e, p)
       | Inr (t, c) \<Rightarrow>
           (Inr (), p\<lparr>bp_supplies := bp_supplies p @
              [\<lparr>bs_height = b_height blk, bs_total = t, bs_circulating = c\<rparr>]\<rparr>))"

text \<open>The block height is the primary key.\<close>

definition bs_flush :: "bs_plugin \<Rightarrow> bs_row list \<Rightarrow> bs_row list res" where
  "bs_flush p rows =
     (let rows' = rows @ bp_supplies p
      in if bp_supplies p \<noteq> [] \<and> \<not> (distinct (map bs_height (bp_supplies p))
            \<and> bs_height ` set (bp_supplies p) \<inter> bs_height ` set rows = {})
         then Inl DbError else Inr rows')"

definition bs_clear :: "bs_plugin \<Rightarrow> bs_plugin" where
  "bs_clear p = p\<lparr>bp_supplies := []\<rparr>"

definition bs_commit ::
  "tx_faults \<Rightarrow> u64 \<Rightarrow> bs_plugin \<times> bs_row list world \<Rightarrow> unit res \<times> bs_plugin \<times> bs_row list world" where
  "bs_commit f = buf_commit f ''block_supply'' bs_flush bs_clear"

definition bs_PutBlocks ::
  "bs_env \<Rightarrow> tx_faults \<Rightarrow> block list \<Rightarrow> bs_plugin \<times> bs_row list world \<Rightarrow>
   unit res \<times> bs_plugin \<times> bs_row list world" where
  "bs_PutBlocks env f = buf_PutBlocks (bs_putBlock env) (bs_commit f)"

definition bs_PutBlock ::
  "bs_env \<Rightarrow> tx_faults \<Rightarrow> block \<Rightarrow> bs_plugin \<times> bs_row list world \<Rightarrow>
   unit res \<times> bs_plugin \<times> bs_row list world" where
  "bs_PutBlock env f = buf_PutBlock (bs_putBlock env) (bs_commit f)"

subsection \<open>The balances carried along\<close>

definition balance_at :: "bs_env \<Rightarrow> u64 \<Rightarrow> string \<Rightarrow> int" where
  "balance_at env h a = balance_rows (\<lambda>k. k \<le> h) a (be_income env)"

definition tracks :: "bs_env \<Rightarrow> u64 \<Rightarrow> bs_plugin \<Rightarrow> bool" where
  "tracks env h p \<longleftrightarrow> (\<forall>a \<in> set (tracked env). bp_running p a = Some (balance_at env h a))"

text \<open>The row that the balances of a height give, computed from all of account_income.\<close>

definition supply_row :: "bs_env \<Rightarrow> u64 \<Rightarrow> bs_row" where
  "supply_row env h =
     (let t = totalBalance - balance_at env h (be_zero env) - nsv1Balance - bnfxBalance
      in \<lparr>bs_height = h, bs_total = show_int t, bs_circulating = show_int (t - balance_at env h lockAddresses)\<rparr>)"

lemma balance_next:
  assumes "h < - 1"
  shows "balance_at env (h + 1) a = balance_at env h a + balance_rows (\<lambda>k. k = h + 1) a (be_income env)"
proof -
  have next_h: "unat (h + 1) = unat h + 1" using unat_next [OF assms] by simp
  have le: "k \<le> h + 1 \<longleftrightarrow> k \<le> h \<or> k = h + 1" for k :: u64
    unfolding word_le_nat_alt word_unat_eq_iff next_h by auto
  have "\<not> h + 1 \<le> h" unfolding word_le_nat_alt next_h by simp
  with le have "sum_rows (\<lambda>r. ai_height r \<le> h + 1 \<and> ai_address r = a) f rows =
      sum_rows (\<lambda>r. ai_height r \<le> h \<and> ai_address r = a) f rows +
      sum_rows (\<lambda>r. ai_height r = h + 1 \<and> ai_address r = a) f rows" for f rows
    by (induction rows) auto
  then show ?thesis by (simp add: balance_at_def balance_rows_def)
qed

lemma computeTotalCirculatingSupply_int [simp]:
  "computeTotalCirculatingSupply (show_int i) l = Inr (show_int (i - l))"
  by (simp add: computeTotalCirculatingSupply_def)

lemma bs_putBlock_tracks:
  assumes "bs_putBlock env blk p = (Inr (), p')" and "tracks env h p" and "b_height blk = h + 1"
    and "h < - 1" and "be_zero env \<noteq> lockAddresses"
  shows "tracks env (h + 1) p' \<and> bp_supplies p' = bp_supplies p @ [supply_row env (h + 1)]"
proof -
  from assms(1) obtain q where q: "eachS (apply_delta env (h + 1)) (tracked env) p = (Inr (), q)"
    using assms(3) by (auto simp: bs_putBlock_def bindS_def split: prod.splits sum.splits)
  have q': "q = p\<lparr>bp_running := (bp_running p)(be_zero env \<mapsto> balance_at env (h + 1) (be_zero env),
      lockAddresses \<mapsto> balance_at env (h + 1) lockAddresses)\<rparr>"
    using q assms(2,5)
    by (auto simp: tracked_def tracks_def bindS_eq_Inr apply_delta_def accountBalanceDeltaAtHeight_def
        balance_next [OF assms(4)] split: if_splits)
  have "bindS (eachS (apply_delta env (b_height blk)) (tracked env)) k p = k () q" for k :: "unit \<Rightarrow> bs_plugin \<Rightarrow> unit res \<times> bs_plugin"
    using q assms(3) by (simp add: bindS_def)
  with assms(1,3) have "p' = q\<lparr>bp_supplies := bp_supplies q @ [supply_row env (h + 1)]\<rparr>"
    using assms(5)
    by (simp add: bs_putBlock_def q' running_def Let_def supply_row_def computeTotalSupply_def)
  with q' assms(5) show ?thesis by (auto simp: tracks_def tracked_def)
qed

lemma bs_putBlocks_tracks:
  assumes "eachS (bs_putBlock env) blks p = (Inr (), p')" and "tracks env h p" and "contiguous (h + 1) blks"
    and "unat h + length blks < 2 ^ 64" and "be_zero env \<noteq> lockAddresses"
  shows "tracks env (h + word_of_nat (length blks)) p'
    \<and> bp_supplies p' = bp_supplies p @ map (supply_row env) (map b_height blks)"
  using assms(1-4)
proof (induction blks arbitrary: p h)
  case Nil
  then show ?case by simp
next
  case (Cons b blks)
  from Cons.prems(1) obtain q where q: "bs_putBlock env b p = (Inr (), q)"
      "eachS (bs_putBlock env) blks q = (Inr (), p')"
    by (auto simp: bindS_eq_Inr)
  have b: "b_height b = h + 1" using Cons.prems(3) by (force simp: contiguous_def)
  have max: "h < - 1"
    using Cons.prems(4) by (simp add: word_less_nat_alt unsigned_minus_1_eq_mask mask_eq_exp_minus_1)
  note step = bs_putBlock_tracks [OF q(1) Cons.prems(2) b max assms(5)]
  have rest: "contiguous (h + 1 + 1) blks"
    unfolding contiguous_def
  proof (intro allI impI)
    fix i assume "i < length blks"
    with Cons.prems(3) have "b_height ((b # blks) ! Suc i) = h + 1 + word_of_nat (Suc i)"
      unfolding contiguous_def by (metis Suc_less_eq length_Cons)
    then show "b_height (blks ! i) = h + 1 + 1 + word_of_nat i" by simp
  qed
  have "unat (h + 1) + length blks < 2 ^ 64"
    using Cons.prems(4) unat_next [OF max] by simp
  from Cons.IH [OF q(2) conjunct1 [OF step] rest this] step b show ?case
    by (simp add: ac_simps)
qed

subsection \<open>Rows hold numbers\<close>

definition numeric_row :: "bs_row \<Rightarrow> bool" where
  "numeric_row r \<longleftrightarrow> (\<exists>t l. bs_total r = show_int t \<and> bs_circulating r = show_int (t - l))"

lemma bs_putBlock_numeric: "keeps (\<lambda>p. \<forall>r \<in> set (bp_supplies p). numeric_row r) (bs_putBlock env b)"
proof -
  have delta: "keeps (\<lambda>p. \<forall>r \<in> set (bp_supplies p). numeric_row r) (eachS (apply_delta env h) as)" for h as
    by (rule keeps_eachS) (auto simp: keeps_def apply_delta_def split: sum.splits option.splits)
  have last: "keeps (\<lambda>p. \<forall>r \<in> set (bp_supplies p). numeric_row r) (\<lambda>p.
       case bindE (running p (be_zero env)) (\<lambda>z.
            bindE (running p lockAddresses) (\<lambda>l.
              let totalSupply = computeTotalSupply z
              in bindE (computeTotalCirculatingSupply totalSupply l) (\<lambda>c. Inr (totalSupply, c)))) of
         Inl e \<Rightarrow> (Inl e, p)
       | Inr (t, c) \<Rightarrow>
           (Inr (), p\<lparr>bp_supplies := bp_supplies p @
              [\<lparr>bs_height = b_height b, bs_total = t, bs_circulating = c\<rparr>]\<rparr>))"
    by (auto simp: keeps_def Let_def computeTotalSupply_def numeric_row_def bindE_eq_Inr split: sum.splits)
  show ?thesis unfolding bs_putBlock_def by (rule keeps_bindS [OF delta last])
qed

interpretation block_supply: buffered_sink "bs_putBlock env" bs_flush bs_clear
  "\<lambda>p. \<forall>r \<in> set (bp_supplies p). numeric_row r" "\<lambda>rows. \<forall>r \<in> set rows. numeric_row r" for env
  by unfold_locales (auto simp: bs_putBlock_numeric bs_clear_def bs_flush_def Let_def split: if_splits)

subsection \<open>Properties\<close>

lemma bs_Start_tracks:
  assumes "bs_Start env read_ok create_ok (p, w) = (Inr (), p', w')" and "be_zero env \<noteq> lockAddresses"
  shows "\<exists>h. GetIndexHeight read_ok create_ok ''block_supply'' w = (Inr h, w') \<and> tracks env h p'
    \<and> bp_supplies p' = bp_supplies p"
  using assms
  by (auto simp: bs_Start_def tracked_def bindS_eq_Inr seed_balance_def accountBalanceByHeight_def
      tracks_def balance_at_def split: prod.splits sum.splits if_splits)

text \<open>
  C14: Carrying the balances along gives the supply that reading all of account_income would give.
  From a plugin that was started, or that put its blocks up to height \<open>h\<close>, a batch of the blocks
  behind \<open>h\<close> that commits adds for each block the row computed from the sums over every row of
  account_income up to that block, and leaves the plugin in such a state at the last block.
\<close>

theorem supply_equals_full_aggregate:
  assumes "bs_PutBlocks env f blks (p, w) = (Inr (), p', w')"
    and "tracks env h p" and "bp_supplies p = []" and "contiguous (h + 1) blks"
    and "unat h + length blks < 2 ^ 64" and "be_zero env \<noteq> lockAddresses"
  shows "tables w' = tables w @ map (supply_row env) (map b_height blks)
    \<and> tracks env (h + word_of_nat (length blks)) p' \<and> bp_supplies p' = []"
proof -
  from assms(1) [unfolded bs_PutBlocks_def bs_commit_def] obtain p1
    where p1: "eachS (bs_putBlock env) blks p = (Inr (), p1)" "p' = bs_clear p1"
      "bs_flush p1 (tables w) = Inr (tables w')"
    by (rule buf_PutBlocks_ok)
  note b = bs_putBlocks_tracks [OF p1(1) assms(2,4,5,6)]
  from p1(3) have "tables w' = tables w @ bp_supplies p1"
    by (auto simp: bs_flush_def Let_def split: if_splits)
  with b p1(2) assms(3) show ?thesis by (simp add: bs_clear_def tracks_def)
qed

definition bs_example :: bs_env where
  "bs_example = \<lparr>be_zero = ''io_0'',
     be_income = [\<lparr>ai_height = 1, ai_address = ''io_0'', ai_income = Income 1000 1 0 0\<rparr>,
                  \<lparr>ai_height = 2, ai_address = lockAddresses, ai_income = Income 500 1 0 0\<rparr>,
                  \<lparr>ai_height = 2, ai_address = ''io_0'', ai_income = Income 0 0 200 1\<rparr>],
     be_answers = (\<lambda>_ _. True)\<rparr>"

definition bs_started :: bs_plugin where
  "bs_started = \<lparr>bp_supplies = [], bp_running = [''io_0'' \<mapsto> 1000, lockAddresses \<mapsto> 0]\<rparr>"

definition bs_world :: "bs_row list world" where
  "bs_world = \<lparr>tables = [supply_row bs_example 1], heights = [''block_supply'' \<mapsto> 1], index_cache = Map.empty\<rparr>"

lemma bs_example_zero: "be_zero bs_example \<noteq> lockAddresses"
  by (simp add: bs_example_def lockAddresses_def)

lemma bs_started_tracks: "tracks bs_example 1 bs_started"
  by (simp add: tracks_def tracked_def bs_started_def bs_example_def balance_at_def balance_rows_def
      lockAddresses_def word_le_nat_alt)

lemma bs_example_put:
  "bs_putBlock bs_example (pay_block 2 []) bs_started =
     (Inr (), \<lparr>bp_supplies = [supply_row bs_example 2],
        bp_running = [''io_0'' \<mapsto> 800, lockAddresses \<mapsto> 500]\<rparr>)"
  by (simp add: bs_putBlock_def bindS_def tracked_def apply_delta_def accountBalanceDeltaAtHeight_def
      balance_rows_def bs_example_def bs_started_def pay_block_def lockAddresses_def running_def Let_def
      computeTotalSupply_def supply_row_def balance_at_def fun_eq_iff word_le_nat_alt)

theorem supply_equals_full_aggregate_witness:
  "\<exists>p' w'. bs_PutBlocks bs_example no_faults [pay_block 2 []] (bs_started, bs_world) = (Inr (), p', w')
    \<and> tables w' = [supply_row bs_example 1, supply_row bs_example 2]"
proof -
  have "\<exists>p' w'. bs_PutBlocks bs_example no_faults [pay_block 2 []] (bs_started, bs_world) = (Inr (), p', w')"
    by (simp add: bs_PutBlocks_def buf_PutBlocks_def bindS_def bs_example_put bs_commit_def
        buf_commit_def index_tx_no_faults bs_flush_def bs_world_def supply_row_def Let_def)
  then obtain p' w' where run:
      "bs_PutBlocks bs_example no_faults [pay_block 2 []] (bs_started, bs_world) = (Inr (), p', w')" by blast
  from supply_equals_full_aggregate [OF run bs_started_tracks _ _ _ bs_example_zero] run show ?thesis
    by (simp add: bs_started_def pay_block_def bs_world_def)
qed

text \<open>
  The columns of block_supply, which are strings, always hold decimal numbers, and the
  circulating supply is read from the total as the code reads it: whatever batches are put and
  whatever fails, parsing either column of any row succeeds.
\<close>

theorem supply_columns_are_numbers:
  assumes "bs_PutBlocks env f blks (p, w) = (r, p', w')"
    and "\<forall>x \<in> set (bp_supplies p). numeric_row x" and "\<forall>x \<in> set (tables w). numeric_row x"
  shows "\<forall>x \<in> set (tables w'). parse_int10 (bs_total x) \<noteq> None \<and> parse_int10 (bs_circulating x) \<noteq> None
    \<and> (\<exists>l. computeTotalCirculatingSupply (bs_total x) l = Inr (bs_circulating x))"
proof -
  have "\<forall>x \<in> set (tables w'). numeric_row x"
    using block_supply.batch_ok [OF assms(1) [unfolded bs_PutBlocks_def bs_commit_def] assms(2,3)] by blast
  then show ?thesis by (force simp: numeric_row_def)
qed

theorem supply_columns_are_numbers_witness:
  "\<exists>r p' w'. bs_PutBlocks bs_example no_faults [pay_block 2 []] (bs_started, bs_world) = (r, p', w')
    \<and> (\<forall>x \<in> set (tables w'). parse_int10 (bs_total x) \<noteq> None)"
proof -
  obtain r p' w' where run: "bs_PutBlocks bs_example no_faults [pay_block 2 []] (bs_started, bs_world) = (r, p', w')"
    using prod_cases3 by blast
  have "\<forall>x \<in> set (bp_supplies bs_started). numeric_row x" by (simp add: bs_started_def)
  moreover have "\<forall>x \<in> set (tables bs_world). numeric_row x"
    by (auto simp: bs_world_def supply_row_def numeric_row_def Let_def)
  ultimately show ?thesis using supply_columns_are_numbers [OF run] run by blast
qed

text \<open>
  A query that fails half way makes the balances drift. The flow of the zero address is added
  before the query for the locked address is refused; when the block is put again it is added a
  second time, and every supply from then on is off by it.
\<close>

theorem failed_query_drifts:
  "\<exists>q p'. bs_putBlock (bs_example\<lparr>be_answers := \<lambda>h a. a \<noteq> lockAddresses\<rparr>) (pay_block 2 []) bs_started = (Inl DbError, q)
    \<and> bs_putBlock bs_example (pay_block 2 []) q = (Inr (), p')
    \<and> bp_running p' ''io_0'' = Some 600 \<and> balance_at bs_example 2 ''io_0'' = 800"
  by (simp add: bs_putBlock_def bindS_def tracked_def apply_delta_def accountBalanceDeltaAtHeight_def
      balance_rows_def bs_example_def bs_started_def pay_block_def lockAddresses_def running_def Let_def
      computeTotalSupply_def balance_at_def)

end
