(* ===== verification/TokenHolders.thy ===== *)
theory TokenHolders
  imports TxSink
begin

text \<open>
  plugins/erc1155_721_holder_v2/state.go: who holds which token of the ERC-721 and ERC-1155
  contracts. The operations of a batch are worked out on the rows they touch, loaded into
  memory, and the outcome is written back in three statements. Token ids are decimal strings,
  values decimals without a fraction, hence integers.
\<close>

subsection \<open>Operations and state\<close>

datatype holder_op_type =
    ERC721Mint | ERC721Burn | ERC721Transfer | ERC1155Mint | ERC1155Burn | ERC1155Transfer

record holder_operation =
  ho_type :: holder_op_type
  ho_contract :: string
  ho_from :: string
  ho_to :: string
  ho_token :: string
  ho_erc :: "16 word"
  ho_value :: int

datatype holder_key = HolderKey (hk_contract: string) (hk_holder: string) (hk_token: string)

datatype holder_token_key = HolderTokenKey (tk_contract: string) (tk_token: string)

datatype holder_state = HolderState (hs_erc: "16 word") (hs_value: int)

text \<open>The table has a unique index on contract, holder and token: it is a map.\<close>

type_synonym holders = "holder_key \<rightharpoonup> holder_state"

definition from_key :: "holder_operation \<Rightarrow> holder_key" where
  "from_key op = HolderKey (ho_contract op) (ho_from op) (ho_token op)"

definition to_key :: "holder_operation \<Rightarrow> holder_key" where
  "to_key op = HolderKey (ho_contract op) (ho_to op) (ho_token op)"

definition token_key :: "holder_operation \<Rightarrow> holder_token_key" where
  "token_key op = HolderTokenKey (ho_contract op) (ho_token op)"

definition token_of :: "holder_key \<Rightarrow> holder_token_key" where
  "token_of k = HolderTokenKey (hk_contract k) (hk_token k)"

text \<open>A key that is missing from a Go map reads as the zero value.\<close>

definition applyPositiveDelta :: "holder_key \<Rightarrow> 16 word \<Rightarrow> int \<Rightarrow> holders \<Rightarrow> holders" where
  "applyPositiveDelta k erc v states =
     states(k \<mapsto> HolderState erc ((case states k of None \<Rightarrow> 0 | Some s \<Rightarrow> hs_value s) + v))"

definition underflow :: go_error where
  "underflow = Err ''holder balance underflow''"

definition applyNegativeDelta ::
  "holder_key \<Rightarrow> int \<Rightarrow> holders \<times> holder_key set \<Rightarrow> (holders \<times> holder_key set) res" where
  "applyNegativeDelta k v sd =
     (case sd of (states, deleteByKey) \<Rightarrow>
        (case states k of
           None \<Rightarrow> Inr (states, deleteByKey)
         | Some s \<Rightarrow>
             if hs_value s < v then Inl underflow
             else if hs_value s = v then Inr (states(k := None), insert k deleteByKey)
             else Inr (states(k \<mapsto> HolderState (hs_erc s) (hs_value s - v)), deleteByKey)))"

text \<open>The loop over the operations, on the states in memory and the two sets of deletions.\<close>

record holder_work =
  hw_states :: holders
  hw_by_key :: "holder_key set"
  hw_by_token :: "holder_token_key set"

definition negative :: "holder_operation \<Rightarrow> holder_work \<Rightarrow> holder_work res" where
  "negative op w =
     bindE (applyNegativeDelta (from_key op) (ho_value op) (hw_states w, hw_by_key w))
       (\<lambda>(states, ks). Inr (w\<lparr>hw_states := states, hw_by_key := ks\<rparr>))"

definition positive :: "holder_operation \<Rightarrow> holder_work \<Rightarrow> holder_work" where
  "positive op w = w\<lparr>hw_states := applyPositiveDelta (to_key op) (ho_erc op) (ho_value op) (hw_states w)\<rparr>"

definition apply_op :: "holder_operation \<Rightarrow> holder_work \<Rightarrow> holder_work res" where
  "apply_op op w =
     (case ho_type op of
        ERC721Mint \<Rightarrow>
          Inr (w\<lparr>hw_by_token := hw_by_token w - {token_key op},
                 hw_states := (hw_states w)(to_key op \<mapsto> HolderState (ho_erc op) 1)\<rparr>)
      | ERC721Burn \<Rightarrow>
          Inr (w\<lparr>hw_by_token := insert (token_key op) (hw_by_token w),
                 hw_states := (\<lambda>k. if token_of k = token_key op then None else hw_states w k)\<rparr>)
      | ERC721Transfer \<Rightarrow>
          Inr (w\<lparr>hw_by_token := hw_by_token w - {token_key op},
                 hw_by_key := insert (from_key op) (hw_by_key w),
                 hw_states := (hw_states w)(from_key op := None, to_key op \<mapsto> HolderState (ho_erc op) 1)\<rparr>)
      | ERC1155Mint \<Rightarrow> Inr (positive op w)
      | ERC1155Burn \<Rightarrow> negative op w
      | ERC1155Transfer \<Rightarrow> bindE (negative op w) (\<lambda>w. Inr (positive op w)))"

text \<open>\<open>collectTouchedKeys\<close>: each key once, in the order of first use.\<close>

definition touch :: "holder_key \<Rightarrow> holder_key list \<Rightarrow> holder_key list" where
  "touch k keys = (if k \<in> set keys then keys else keys @ [k])"

definition touch_op :: "holder_operation \<Rightarrow> holder_key list \<Rightarrow> holder_key list" where
  "touch_op op keys =
     (case ho_type op of
        ERC1155Mint \<Rightarrow> touch (to_key op) keys
      | ERC1155Burn \<Rightarrow> touch (from_key op) keys
      | ERC1155Transfer \<Rightarrow> touch (to_key op) (touch (from_key op) keys)
      | _ \<Rightarrow> keys)"

definition collectTouchedKeys :: "holder_operation list \<Rightarrow> holder_key list" where
  "collectTouchedKeys ops = fold touch_op ops []"

text \<open>
  The statements. Reading, deleting and writing go in chunks of 500 keys, which together are the
  keys given.
\<close>

definition loadExistingHolderStates :: "holders \<Rightarrow> holder_key list \<Rightarrow> holders" where
  "loadExistingHolderStates t keys = t |` set keys"

definition deleteHoldersByToken :: "holder_token_key set \<Rightarrow> holders \<Rightarrow> holders" where
  "deleteHoldersByToken toks t = (\<lambda>k. if token_of k \<in> toks then None else t k)"

definition deleteHoldersByKey :: "holder_key set \<Rightarrow> holders \<Rightarrow> holders" where
  "deleteHoldersByKey ks t = t |` (- ks)"

definition upsertHolderStates :: "holders \<Rightarrow> holders \<Rightarrow> holders" where
  "upsertHolderStates states t = t ++ states"

definition applyHolderOperations :: "holder_operation list \<Rightarrow> holders \<Rightarrow> holders res" where
  "applyHolderOperations ops t =
     (if ops = [] then Inr t
      else bindE (foldE apply_op ops
             \<lparr>hw_states = loadExistingHolderStates t (collectTouchedKeys ops), hw_by_key = {}, hw_by_token = {}\<rparr>)
           (\<lambda>w. Inr (upsertHolderStates (hw_states w)
                       (deleteHoldersByKey (hw_by_key w) (deleteHoldersByToken (hw_by_token w) t)))))"

subsection \<open>One operation at a time\<close>

text \<open>The reference: each operation on the table itself.\<close>

definition spec_negative :: "holder_operation \<Rightarrow> holders \<Rightarrow> holders res" where
  "spec_negative op t =
     (case t (from_key op) of
        None \<Rightarrow> Inr t
      | Some s \<Rightarrow>
          if hs_value s < ho_value op then Inl underflow
          else if hs_value s = ho_value op then Inr (t(from_key op := None))
          else Inr (t(from_key op \<mapsto> HolderState (hs_erc s) (hs_value s - ho_value op))))"

definition spec_op :: "holder_operation \<Rightarrow> holders \<Rightarrow> holders res" where
  "spec_op op t =
     (case ho_type op of
        ERC721Mint \<Rightarrow> Inr (t(to_key op \<mapsto> HolderState (ho_erc op) 1))
      | ERC721Burn \<Rightarrow> Inr (\<lambda>k. if token_of k = token_key op then None else t k)
      | ERC721Transfer \<Rightarrow> Inr (t(from_key op := None, to_key op \<mapsto> HolderState (ho_erc op) 1))
      | ERC1155Mint \<Rightarrow> Inr (applyPositiveDelta (to_key op) (ho_erc op) (ho_value op) t)
      | ERC1155Burn \<Rightarrow> spec_negative op t
      | ERC1155Transfer \<Rightarrow>
          bindE (spec_negative op t) (\<lambda>t. Inr (applyPositiveDelta (to_key op) (ho_erc op) (ho_value op) t)))"

definition is_721 :: "holder_operation \<Rightarrow> bool" where
  "is_721 op \<longleftrightarrow> ho_type op \<in> {ERC721Mint, ERC721Burn, ERC721Transfer}"

text \<open>No contract is both kinds, and no token of a batch comes back after it was burned.\<close>

definition kinds_apart :: "holder_operation list \<Rightarrow> bool" where
  "kinds_apart ops \<longleftrightarrow>
     (\<forall>o1 \<in> set ops. \<forall>o2 \<in> set ops. is_721 o1 \<and> \<not> is_721 o2 \<longrightarrow> ho_contract o1 \<noteq> ho_contract o2)"

fun no_remint :: "holder_operation list \<Rightarrow> bool" where
  "no_remint [] = True"
| "no_remint (op # ops) =
     ((ho_type op = ERC721Burn \<longrightarrow>
        (\<forall>o2 \<in> set ops. ho_type o2 \<in> {ERC721Mint, ERC721Transfer} \<longrightarrow> token_key o2 \<noteq> token_key op))
      \<and> no_remint ops)"

text \<open>
  What is in memory stands for the table \<open>s\<close>: written back onto \<open>t\<close> it gives \<open>s\<close>, it has the keys
  of \<open>ks\<close> as \<open>s\<close> has them, and none of their tokens is to be deleted.
\<close>

definition written :: "holders \<Rightarrow> holder_work \<Rightarrow> holders" where
  "written t w = upsertHolderStates (hw_states w)
     (deleteHoldersByKey (hw_by_key w) (deleteHoldersByToken (hw_by_token w) t))"

definition stands_for :: "holders \<Rightarrow> holder_key set \<Rightarrow> holder_work \<Rightarrow> holders \<Rightarrow> bool" where
  "stands_for t ks w s \<longleftrightarrow>
     written t w = s \<and> (\<forall>k \<in> ks. hw_states w k = s k) \<and> token_of ` ks \<inter> hw_by_token w = {}"

lemma positive_by_token [simp]: "hw_by_token (positive op w) = hw_by_token w"
  by (simp add: positive_def)

lemma written_apply:
  "written t w k = (case hw_states w k of
     Some s \<Rightarrow> Some s
   | None \<Rightarrow> if k \<in> hw_by_key w \<or> token_of k \<in> hw_by_token w then None else t k)"
  by (auto simp: written_def upsertHolderStates_def deleteHoldersByKey_def deleteHoldersByToken_def
      restrict_map_def map_add_def split: option.split)

lemmas written_defs = fun_eq_iff written_apply

lemma token_of_key [simp]:
  "token_of (from_key op) = token_key op" "token_of (to_key op) = token_key op"
  by (simp_all add: token_of_def from_key_def to_key_def token_key_def)

text \<open>What the updates of the loop do to what is written back.\<close>

lemma written_upd:
  "written t (w\<lparr>hw_states := (hw_states w)(k \<mapsto> v)\<rparr>) = (written t w)(k \<mapsto> v)"
  "written t (w\<lparr>hw_states := (hw_states w)(k := None), hw_by_key := insert k (hw_by_key w)\<rparr>) =
     (written t w)(k := None)"
  "written t (w\<lparr>hw_by_token := insert tk (hw_by_token w),
       hw_states := (\<lambda>k. if token_of k = tk then None else hw_states w k)\<rparr>) =
     (\<lambda>k. if token_of k = tk then None else written t w k)"
  by (auto simp: written_defs split: option.splits)

lemma stands_forD:
  "stands_for t ks w s \<Longrightarrow> k \<in> ks \<Longrightarrow> hw_states w k = s k"
  "stands_for t ks w s \<Longrightarrow> written t w = s"
  "stands_for t ks w s \<Longrightarrow> k \<in> ks \<Longrightarrow> token_of k \<notin> hw_by_token w"
  by (auto simp: stands_for_def)

lemma stands_for_negative:
  assumes "stands_for t ks w s" and "from_key op \<in> ks"
  shows "negative op w = Inl e \<Longrightarrow> spec_negative op s = Inl e"
    and "negative op w = Inr w' \<Longrightarrow>
      \<exists>s'. spec_negative op s = Inr s' \<and> stands_for t ks w' s' \<and> hw_by_token w' = hw_by_token w"
proof -
  note k = stands_forD(1) [OF assms]
  show "negative op w = Inl e \<Longrightarrow> spec_negative op s = Inl e"
    by (auto simp: negative_def spec_negative_def applyNegativeDelta_def k split: option.splits if_splits)
  assume w': "negative op w = Inr w'"
  show "\<exists>s'. spec_negative op s = Inr s' \<and> stands_for t ks w' s' \<and> hw_by_token w' = hw_by_token w"
  proof (cases "s (from_key op)")
    case None
    with w' k assms show ?thesis by (simp add: negative_def spec_negative_def applyNegativeDelta_def)
  next
    case (Some x)
    with w' k assms written_upd show ?thesis
      by (auto simp: negative_def spec_negative_def applyNegativeDelta_def stands_for_def
          split: if_splits)
  qed
qed

lemma stands_for_positive:
  assumes "stands_for t ks w s" and "to_key op \<in> ks"
  shows "stands_for t ks (positive op w) (applyPositiveDelta (to_key op) (ho_erc op) (ho_value op) s)"
  using assms written_upd(1) by (auto simp: positive_def applyPositiveDelta_def stands_for_def)

text \<open>The keys that the ERC-1155 operations touch.\<close>

definition op_keys :: "holder_operation \<Rightarrow> holder_key set" where
  "op_keys op =
     (case ho_type op of
        ERC1155Mint \<Rightarrow> {to_key op}
      | ERC1155Burn \<Rightarrow> {from_key op}
      | ERC1155Transfer \<Rightarrow> {from_key op, to_key op}
      | _ \<Rightarrow> {})"

lemma set_touch: "set (touch k keys) = insert k (set keys)"
  by (auto simp: touch_def)

lemma set_touch_op: "set (touch_op op keys) = op_keys op \<union> set keys"
  by (cases "ho_type op") (auto simp: touch_op_def op_keys_def set_touch)

lemma set_touched: "set (collectTouchedKeys ops) = (\<Union>op \<in> set ops. op_keys op)"
proof -
  have "set (fold touch_op ops keys) = (\<Union>op \<in> set ops. op_keys op) \<union> set keys" for keys
    by (induction ops arbitrary: keys) (auto simp: set_touch_op)
  then show ?thesis by (simp add: collectTouchedKeys_def)
qed

text \<open>One operation, and then all of them.\<close>

lemma stands_for_op:
  assumes "stands_for t ks w s" and "op_keys op \<subseteq> ks"
    and "is_721 op \<Longrightarrow> token_key op \<notin> token_of ` ks"
    and "ho_type op \<in> {ERC721Mint, ERC721Transfer} \<Longrightarrow> token_key op \<notin> hw_by_token w"
  shows "apply_op op w = Inl e \<Longrightarrow> spec_op op s = Inl e"
    and "apply_op op w = Inr w' \<Longrightarrow> \<exists>s'. spec_op op s = Inr s' \<and> stands_for t ks w' s' \<and>
      hw_by_token w' \<subseteq> (if ho_type op = ERC721Burn then insert (token_key op) (hw_by_token w) else hw_by_token w)"
proof -
  show "apply_op op w = Inl e \<Longrightarrow> spec_op op s = Inl e"
    using assms(1,2) stands_for_negative(1)
    by (cases "ho_type op") (auto simp: apply_op_def spec_op_def op_keys_def bindE_eq_Inl)
  assume w': "apply_op op w = Inr w'"
  show "\<exists>s'. spec_op op s = Inr s' \<and> stands_for t ks w' s' \<and>
      hw_by_token w' \<subseteq> (if ho_type op = ERC721Burn then insert (token_key op) (hw_by_token w) else hw_by_token w)"
  proof (cases "ho_type op")
    case ERC721Mint
    have k: "to_key op \<notin> ks" using assms(3) ERC721Mint by (force simp: is_721_def)
    have "hw_by_token w - {token_key op} = hw_by_token w" using assms(4) ERC721Mint by auto
    with w' ERC721Mint have "w' = w\<lparr>hw_states := (hw_states w)(to_key op \<mapsto> HolderState (ho_erc op) 1)\<rparr>"
      by (simp add: apply_op_def)
    with assms(1) k ERC721Mint written_upd(1) show ?thesis by (auto simp: spec_op_def stands_for_def)
  next
    case ERC721Burn
    have other: "token_of k \<noteq> token_key op" if "k \<in> ks" for k
      using assms(3) that ERC721Burn by (metis image_eqI insertI1 insertI2 is_721_def)
    have w'_eq: "w' = w\<lparr>hw_by_token := insert (token_key op) (hw_by_token w),
        hw_states := (\<lambda>k. if token_of k = token_key op then None else hw_states w k)\<rparr>"
      using w' ERC721Burn by (simp add: apply_op_def)
    let ?s = "\<lambda>k. if token_of k = token_key op then None else s k"
    have "stands_for t ks w' ?s"
      unfolding stands_for_def
    proof (intro conjI ballI)
      show "written t w' = ?s" by (simp only: w'_eq written_upd(3) stands_forD(2) [OF assms(1)])
      show "hw_states w' k = ?s k" if "k \<in> ks" for k
        using other [OF that] assms(1) that by (simp add: w'_eq stands_for_def)
      show "token_of ` ks \<inter> hw_by_token w' = {}" using other stands_forD(3) [OF assms(1)] unfolding w'_eq by (simp add: disjoint_iff) (metis imageE)
    qed
    with ERC721Burn w'_eq show ?thesis by (simp add: spec_op_def)
  next
    case ERC721Transfer
    have k: "to_key op \<notin> ks" "from_key op \<notin> ks" using assms(3) ERC721Transfer by (force simp: is_721_def)+
    have "hw_by_token w - {token_key op} = hw_by_token w" using assms(4) ERC721Transfer by auto
    with w' ERC721Transfer have "w' = (w\<lparr>hw_states := (hw_states w)(from_key op := None),
        hw_by_key := insert (from_key op) (hw_by_key w)\<rparr>)\<lparr>hw_states :=
          ((hw_states w)(from_key op := None))(to_key op \<mapsto> HolderState (ho_erc op) 1)\<rparr>"
      by (simp add: apply_op_def)
    with assms(1) k ERC721Transfer
      written_upd(1) [of t "w\<lparr>hw_states := (hw_states w)(from_key op := None),
        hw_by_key := insert (from_key op) (hw_by_key w)\<rparr>"] written_upd(2)
    show ?thesis by (auto simp: spec_op_def stands_for_def)
  next
    case ERC1155Mint
    with w' assms(1,2) stands_for_positive [of t ks w s op] show ?thesis
      by (auto simp: apply_op_def spec_op_def op_keys_def)
  next
    case ERC1155Burn
    with w' assms(1,2) stands_for_negative(2) [of t ks w s op w'] show ?thesis
      by (auto simp: apply_op_def spec_op_def op_keys_def)
  next
    case ERC1155Transfer
    with w' obtain v where v: "negative op w = Inr v" "w' = positive op v"
      by (auto simp: apply_op_def bindE_eq_Inr)
    with assms(1,2) ERC1155Transfer stands_for_negative(2) [of t ks w s op v] obtain u
      where u: "spec_negative op s = Inr u" "stands_for t ks v u" "hw_by_token v = hw_by_token w"
      by (auto simp: op_keys_def)
    with v(2) assms(2) ERC1155Transfer stands_for_positive [of t ks v u op] show ?thesis
      by (simp add: spec_op_def op_keys_def)
  qed
qed

lemma stands_for_ops:
  assumes "stands_for t ks w s" and "(\<Union>op \<in> set ops. op_keys op) \<subseteq> ks"
    and "\<forall>op \<in> set ops. is_721 op \<longrightarrow> token_key op \<notin> token_of ` ks" and "no_remint ops"
    and "\<forall>op \<in> set ops. ho_type op \<in> {ERC721Mint, ERC721Transfer} \<longrightarrow> token_key op \<notin> hw_by_token w"
  shows "map_res (written t) (foldE apply_op ops w) = foldE spec_op ops s"
  using assms
proof (induction ops arbitrary: w s)
  case Nil
  then show ?case by (simp add: stands_forD(2))
next
  case (Cons op ops)
  note step = stands_for_op [OF Cons.prems(1), of op]
  have pre: "op_keys op \<subseteq> ks" "is_721 op \<Longrightarrow> token_key op \<notin> token_of ` ks"
      "ho_type op \<in> {ERC721Mint, ERC721Transfer} \<Longrightarrow> token_key op \<notin> hw_by_token w"
    using Cons.prems(2,3,5) by auto
  show ?case
  proof (cases "apply_op op w")
    case (Inl e)
    with step(1) [OF pre] show ?thesis by simp
  next
    case (Inr w')
    with step(2) [OF pre] obtain s' where s': "spec_op op s = Inr s'" "stands_for t ks w' s'"
        "hw_by_token w' \<subseteq> (if ho_type op = ERC721Burn then insert (token_key op) (hw_by_token w) else hw_by_token w)"
      by blast
    have "map_res (written t) (foldE apply_op ops w') = foldE spec_op ops s'"
      using Cons.prems s'(3) by (intro Cons.IH [OF s'(2)]) (auto split: if_splits)
    with Inr s'(1) show ?thesis by simp
  qed
qed

lemma op_keys_contract:
  "k \<in> op_keys op \<Longrightarrow> hk_contract k = ho_contract op \<and> \<not> is_721 op"
  by (cases "ho_type op") (auto simp: op_keys_def is_721_def from_key_def to_key_def)

subsection \<open>Properties\<close>

lemma batch_sequential:
  assumes "kinds_apart ops" and "no_remint ops"
  shows "applyHolderOperations ops t = foldE spec_op ops t"
proof (cases "ops = []")
  case True
  then show ?thesis by (simp add: applyHolderOperations_def)
next
  case False
  let ?ks = "set (collectTouchedKeys ops)"
  let ?w = "\<lparr>hw_states = loadExistingHolderStates t (collectTouchedKeys ops), hw_by_key = {}, hw_by_token = {}\<rparr>"
  have "written t ?w = t"
    by (auto simp: written_defs loadExistingHolderStates_def restrict_map_def split: option.split)
  then have "stands_for t ?ks ?w t"
    by (simp add: stands_for_def loadExistingHolderStates_def)
  moreover have "\<forall>op \<in> set ops. is_721 op \<longrightarrow> token_key op \<notin> token_of ` ?ks"
  proof (intro ballI impI notI)
    fix op assume op: "op \<in> set ops" "is_721 op" "token_key op \<in> token_of ` ?ks"
    then obtain k o2 where k: "o2 \<in> set ops" "k \<in> op_keys o2" "token_key op = token_of k"
      by (auto simp: set_touched)
    then have "ho_contract op = ho_contract o2"
      using op_keys_contract [OF k(2)] by (simp add: token_key_def token_of_def)
    with op k op_keys_contract [OF k(2)] assms(1) show False unfolding kinds_apart_def by blast
  qed
  ultimately have "map_res (written t) (foldE apply_op ops ?w) = foldE spec_op ops t"
    using assms(2) by (intro stands_for_ops [where ks = ?ks]) (auto simp: set_touched)
  with False show ?thesis by (simp add: applyHolderOperations_def map_res_def written_def)
qed

text \<open>
  C16: Working a batch out in memory is the same as applying its operations one by one to the
  table, the refusal of a balance that would go negative included, for every table and every
  batch in which no contract is both an ERC-721 and an ERC-1155 contract and no ERC-721 token
  comes back after it was burned.
\<close>

theorem holder_batch_is_sequential:
  assumes "kinds_apart ops" and "no_remint ops"
  shows "applyHolderOperations ops t = foldE spec_op ops t"
  using assms by (rule batch_sequential)

definition op_721 :: "holder_op_type \<Rightarrow> string \<Rightarrow> string \<Rightarrow> holder_operation" where
  "op_721 ty from_a to = \<lparr>ho_type = ty, ho_contract = ''io_c'', ho_from = from_a, ho_to = to,
     ho_token = ''11'', ho_erc = 721, ho_value = 1\<rparr>"

definition op_1155 :: "holder_op_type \<Rightarrow> string \<Rightarrow> string \<Rightarrow> int \<Rightarrow> holder_operation" where
  "op_1155 ty from_a to v = \<lparr>ho_type = ty, ho_contract = ''io_m'', ho_from = from_a, ho_to = to,
     ho_token = ''7'', ho_erc = 1155, ho_value = v\<rparr>"

definition example_ops :: "holder_operation list" where
  "example_ops = [op_1155 ERC1155Mint [] ''io_a'' 10, op_721 ERC721Transfer ''io_a'' ''io_b'',
     op_1155 ERC1155Transfer ''io_a'' ''io_b'' 10]"

theorem holder_batch_is_sequential_witness:
  "applyHolderOperations example_ops [HolderKey ''io_c'' ''io_a'' ''11'' \<mapsto> HolderState 721 1] =
     foldE spec_op example_ops [HolderKey ''io_c'' ''io_a'' ''11'' \<mapsto> HolderState 721 1]"
  by (rule holder_batch_is_sequential)
    (simp_all add: example_ops_def op_1155_def op_721_def kinds_apart_def is_721_def)

text \<open>
  A token that is burned and minted again within one batch keeps its old holder. The mint takes
  the token out of the set of deletions, the row of the holder before the burn is never loaded,
  and so it stays beside the new one: two holders of one ERC-721 token, where one operation at a
  time leaves the new one only.
\<close>

theorem remint_leaves_two_holders:
  assumes "t (HolderKey ''io_c'' a ''11'') = Some s" and "a \<noteq> b"
  shows "\<exists>t'. applyHolderOperations [op_721 ERC721Burn a [], op_721 ERC721Mint [] b] t = Inr t'
    \<and> t' (HolderKey ''io_c'' a ''11'') = Some s \<and> t' (HolderKey ''io_c'' b ''11'') = Some (HolderState 721 1)
    \<and> (\<exists>t2. foldE spec_op [op_721 ERC721Burn a [], op_721 ERC721Mint [] b] t = Inr t2
         \<and> t2 (HolderKey ''io_c'' a ''11'') = None)"
  using assms
  by (simp add: applyHolderOperations_def apply_op_def op_721_def collectTouchedKeys_def touch_op_def
      loadExistingHolderStates_def upsertHolderStates_def deleteHoldersByKey_def deleteHoldersByToken_def
      to_key_def token_key_def token_of_def spec_op_def map_add_def)

theorem remint_leaves_two_holders_witness:
  "\<exists>t'. applyHolderOperations [op_721 ERC721Burn ''io_a'' [], op_721 ERC721Mint [] ''io_b'']
      [HolderKey ''io_c'' ''io_a'' ''11'' \<mapsto> HolderState 721 1] = Inr t'
    \<and> t' (HolderKey ''io_c'' ''io_a'' ''11'') \<noteq> None \<and> t' (HolderKey ''io_c'' ''io_b'' ''11'') \<noteq> None"
  using remint_leaves_two_holders [of "[HolderKey ''io_c'' ''io_a'' ''11'' \<mapsto> HolderState 721 1]" "''io_a''"
      "HolderState 721 1" "''io_b''"] by auto

end
