(* ===== verification/TokenEvents.thy ===== *)
theory TokenEvents
  imports TokenHolders Chain
begin

text \<open>
  plugins/erc1155_721_holder_v2/token.go, erc721.go and erc1155.go, with CheckInterfaceID of
  kernel/abi.go: which contracts are token contracts, what operations on holders the logs of a
  block are, and the plugin's PutBlocks. Reading a contract and unpacking a log belong to the
  node and to go-ethereum: they are parameters.
\<close>

subsection \<open>Which contracts are tokens\<close>

text \<open>
  \<open>read\<close> is the node's ReadContract on an address and call data: the receipt's status and the
  returned data in hexadecimal.
\<close>

definition CheckInterfaceID ::
  "(string \<Rightarrow> byte list \<Rightarrow> (u64 \<times> string) res) \<Rightarrow> byte list \<Rightarrow> string \<Rightarrow> bool res" where
  "CheckInterfaceID read iface addr =
     bindE (read addr ([0x01, 0xff, 0xc9, 0xa7] @ iface @ replicate 28 0)) (\<lambda>(status, ret).
       if status \<noteq> 1 \<or> ret = [] then Inr False
       else case hex_decode ret of
              None \<Rightarrow> Inl (Err ''encoding/hex: invalid byte'')
            | Some bs \<Rightarrow> Inr (length bs = 32 \<and> last bs = 1))"

definition ERC721InterfaceID :: "byte list" where
  "ERC721InterfaceID = [0x80, 0xac, 0x58, 0xcd]"

definition ERC1155InterfaceID :: "byte list" where
  "ERC1155InterfaceID = [0xd9, 0xb6, 0x7a, 0x26]"

text \<open>The maps \<open>erc721Contract\<close> and \<open>nonErc721Contract\<close>, and those of ERC-1155.\<close>

record contract_cache =
  cc_is :: "string set"
  cc_not :: "string set"

record token_caches =
  tc_721 :: contract_cache
  tc_1155 :: contract_cache

definition cached_check ::
  "(string \<Rightarrow> bool res) \<Rightarrow> string \<Rightarrow> contract_cache \<Rightarrow> bool res \<times> contract_cache" where
  "cached_check check addr c =
     (if addr \<in> cc_not c then (Inr False, c)
      else if addr \<in> cc_is c then (Inr True, c)
      else case check addr of
             Inl e \<Rightarrow> (Inl e, c)
           | Inr ok \<Rightarrow> if ok then (Inr True, c\<lparr>cc_is := insert addr (cc_is c)\<rparr>)
                      else (Inr False, c\<lparr>cc_not := insert addr (cc_not c)\<rparr>))"

text \<open>
  What the plugin takes from outside: reading contracts, unpacking the three events (sender and
  recipient as address strings), the address of zeros and the hash of a hexadecimal string.
\<close>

record token_env =
  te_read :: "string \<Rightarrow> byte list \<Rightarrow> (u64 \<times> string) res"
  te_transfer :: "log \<Rightarrow> (string \<times> string \<times> nat) res" \<comment> \<open>from, to, token\<close>
  te_batch :: "log \<Rightarrow> (string \<times> string \<times> nat list \<times> nat list) res" \<comment> \<open>from, to, ids, values\<close>
  te_single :: "log \<Rightarrow> (string \<times> string \<times> nat \<times> nat) res" \<comment> \<open>from, to, id, value\<close>
  te_zero :: string
  te_hash :: "string \<Rightarrow> hash256"

definition isErc721 :: "token_env \<Rightarrow> string \<Rightarrow> token_caches \<Rightarrow> bool res \<times> token_caches" where
  "isErc721 env addr c =
     (case cached_check (CheckInterfaceID (te_read env) ERC721InterfaceID) addr (tc_721 c) of
        (r, cc) \<Rightarrow> (r, c\<lparr>tc_721 := cc\<rparr>))"

definition isErc1155 :: "token_env \<Rightarrow> string \<Rightarrow> token_caches \<Rightarrow> bool res \<times> token_caches" where
  "isErc1155 env addr c =
     (case cached_check (CheckInterfaceID (te_read env) ERC1155InterfaceID) addr (tc_1155 c) of
        (r, cc) \<Rightarrow> (r, c\<lparr>tc_1155 := cc\<rparr>))"

subsection \<open>The operations of a log\<close>

definition TransferString :: string where
  "TransferString = ''ddf252ad1be2c89b69c2b068fc378daa952ba7f163c4a11628f55a4df523b3ef''"

definition TransferBatchString :: string where
  "TransferBatchString = ''4a39dc06d4c0dbc64b70af90fd698a233a518aa5d07e595d983b8c0526c8f7fb''"

definition TransferSingleString :: string where
  "TransferSingleString = ''c3d58168c5ae7397731d063d5bbf3d657854427343f4c083240f7aacaa2d0f62''"

definition collectERC721Operations :: "token_env \<Rightarrow> log \<Rightarrow> holder_operation list res" where
  "collectERC721Operations env l =
     bindE (idx (log_topics l) 0) (\<lambda>topic.
       if topic \<noteq> te_hash env TransferString then Inr []
       else bindE (te_transfer env l) (\<lambda>(from_a, to, token).
         let op = \<lparr>ho_type = ERC721Transfer, ho_contract = log_address l, ho_from = from_a, ho_to = to,
                   ho_token = show_nat token, ho_erc = 721, ho_value = 1\<rparr>
         in Inr [if from_a = te_zero env then op\<lparr>ho_type := ERC721Mint, ho_from := []\<rparr>
                 else if to = te_zero env then op\<lparr>ho_type := ERC721Burn, ho_to := []\<rparr>
                 else op]))"

text \<open>\<open>tokenVals[idx]\<close> panics where there are fewer values than ids.\<close>

definition erc1155_op :: "token_env \<Rightarrow> log \<Rightarrow> string \<Rightarrow> string \<Rightarrow> nat \<Rightarrow> nat \<Rightarrow> holder_operation" where
  "erc1155_op env l from_a to token v =
     (let op = \<lparr>ho_type = ERC1155Transfer, ho_contract = log_address l, ho_from = from_a, ho_to = to,
                ho_token = show_nat token, ho_erc = 1155, ho_value = int v\<rparr>
      in if from_a = te_zero env then op\<lparr>ho_type := ERC1155Mint, ho_from := []\<rparr>
         else if to = te_zero env then op\<lparr>ho_type := ERC1155Burn, ho_to := []\<rparr>
         else op)"

fun erc1155_ops :: "token_env \<Rightarrow> log \<Rightarrow> string \<Rightarrow> string \<Rightarrow> nat list \<Rightarrow> nat list \<Rightarrow> holder_operation list res" where
  "erc1155_ops env l from_a to [] vs = Inr []"
| "erc1155_ops env l from_a to (i # is) [] = Inl (Panic ''index out of range'')"
| "erc1155_ops env l from_a to (i # is) (v # vs) =
     bindE (erc1155_ops env l from_a to is vs) (\<lambda>ops. Inr (erc1155_op env l from_a to i v # ops))"

definition collectERC1155Operations :: "token_env \<Rightarrow> log \<Rightarrow> holder_operation list res" where
  "collectERC1155Operations env l =
     bindE (idx (log_topics l) 0) (\<lambda>topic.
       if topic = te_hash env TransferBatchString
       then bindE (te_batch env l) (\<lambda>(from_a, to, ids, vals). erc1155_ops env l from_a to ids vals)
       else if topic = te_hash env TransferSingleString
       then bindE (te_single env l) (\<lambda>(from_a, to, i, v). erc1155_ops env l from_a to [i] [v])
       else Inr [])"

definition collect_log :: "token_env \<Rightarrow> log \<Rightarrow> token_caches \<Rightarrow> holder_operation list res \<times> token_caches" where
  "collect_log env l =
     (if log_address l = [] \<or> length (log_topics l) < 2 then decodedS (Inr [])
      else bindS (isErc721 env (log_address l)) (\<lambda>ok.
           bindS (decodedS (if ok then collectERC721Operations env l else Inr [])) (\<lambda>ops1.
           bindS (isErc1155 env (log_address l)) (\<lambda>ok.
           bindS (decodedS (if ok then collectERC1155Operations env l else Inr [])) (\<lambda>ops2.
             decodedS (Inr (ops1 @ ops2)))))))"

definition collectHolderOperations ::
  "token_env \<Rightarrow> block \<Rightarrow> token_caches \<Rightarrow> holder_operation list res \<times> token_caches" where
  "collectHolderOperations env blk =
     concatS (\<lambda>r. if r_status r \<noteq> receipt_success then decodedS (Inr [])
                 else concatS (collect_log env) (r_logs r)) (b_receipts blk)"

definition collectHolderOperationsFromBlocks ::
  "token_env \<Rightarrow> block list \<Rightarrow> token_caches \<Rightarrow> holder_operation list res \<times> token_caches" where
  "collectHolderOperationsFromBlocks env = concatS (collectHolderOperations env)"

definition holder_plugin_name :: string where
  "holder_plugin_name = ''erc1155_721_holder_2.1.0''"

definition holder_PutBlocks ::
  "token_env \<Rightarrow> tx_faults \<Rightarrow> block list \<Rightarrow> token_caches \<times> holders world \<Rightarrow>
   unit res \<times> token_caches \<times> holders world" where
  "holder_PutBlocks env f blks s =
     (case s of (c, w) \<Rightarrow>
        if blks = [] then (Inr (), c, w)
        else case collectHolderOperationsFromBlocks env blks c of
               (Inl e, c') \<Rightarrow> (Inl e, c', w)
             | (Inr ops, c') \<Rightarrow>
                 (case index_tx f holder_plugin_name (Inr (b_height (last blks)))
                         (applyHolderOperations ops) w of
                    (r, w') \<Rightarrow> (r, c', w')))"

definition holder_PutBlock ::
  "token_env \<Rightarrow> tx_faults \<Rightarrow> block \<Rightarrow> token_caches \<times> holders world \<Rightarrow>
   unit res \<times> token_caches \<times> holders world" where
  "holder_PutBlock env f b = holder_PutBlocks env f [b]"

subsection \<open>The caches change nothing\<close>

text \<open>A cache that holds only what the node answered.\<close>

definition cache_sound :: "(string \<Rightarrow> bool res) \<Rightarrow> contract_cache \<Rightarrow> bool" where
  "cache_sound check c \<longleftrightarrow> (\<forall>a \<in> cc_is c. check a = Inr True) \<and> (\<forall>a \<in> cc_not c. check a = Inr False)"

definition caches_sound :: "token_env \<Rightarrow> token_caches \<Rightarrow> bool" where
  "caches_sound env c \<longleftrightarrow>
     cache_sound (CheckInterfaceID (te_read env) ERC721InterfaceID) (tc_721 c) \<and>
     cache_sound (CheckInterfaceID (te_read env) ERC1155InterfaceID) (tc_1155 c)"

definition no_caches :: token_caches where
  "no_caches = \<lparr>tc_721 = \<lparr>cc_is = {}, cc_not = {}\<rparr>, tc_1155 = \<lparr>cc_is = {}, cc_not = {}\<rparr>\<rparr>"

text \<open>\<open>answers P r m\<close>: from every state with \<open>P\<close>, \<open>m\<close> returns \<open>r\<close> and keeps \<open>P\<close>.\<close>

definition answers :: "('s \<Rightarrow> bool) \<Rightarrow> 'a res \<Rightarrow> ('s \<Rightarrow> 'a res \<times> 's) \<Rightarrow> bool" where
  "answers P r m \<longleftrightarrow> (\<forall>s. P s \<longrightarrow> fst (m s) = r \<and> P (snd (m s)))"

lemma answersI: "(\<And>s. P s \<Longrightarrow> \<exists>t. m s = (r, t) \<and> P t) \<Longrightarrow> answers P r m"
  unfolding answers_def by (metis fst_conv snd_conv)

lemma answersD: "answers P r m \<Longrightarrow> P s \<Longrightarrow> \<exists>t. m s = (r, t) \<and> P t"
  unfolding answers_def by (metis prod.collapse)

lemma answers_decodedS: "answers P r (decodedS r)"
  by (simp add: answers_def decodedS_def)

lemma answers_Inr [simp]: "answers P (Inr x) (Pair (Inr x))"
  by (simp add: answers_def)

lemma answers_bindS:
  assumes "answers P r m" and "\<And>x. r = Inr x \<Longrightarrow> answers P (g x) (f x)"
  shows "answers P (bindE r g) (bindS m f)"
proof (rule answersI)
  fix s assume "P s"
  from answersD [OF assms(1) this] obtain t where t: "m s = (r, t)" "P t" by blast
  show "\<exists>t. bindS m f s = (bindE r g, t) \<and> P t"
  proof (cases r)
    case (Inl e)
    with t show ?thesis by simp
  next
    case (Inr x)
    with t answersD [OF assms(2) [OF Inr] t(2)] show ?thesis by simp
  qed
qed

fun concatE :: "('b \<Rightarrow> 'a list res) \<Rightarrow> 'b list \<Rightarrow> 'a list res" where
  "concatE f [] = Inr []"
| "concatE f (x # xs) = bindE (f x) (\<lambda>ys. bindE (concatE f xs) (\<lambda>zs. Inr (ys @ zs)))"

lemma answers_concatS: "(\<And>x. answers P (f x) (m x)) \<Longrightarrow> answers P (concatE f xs) (concatS m xs)"
proof (induction xs)
  case Nil
  then show ?case by (simp add: answers_def)
next
  case (Cons x xs)
  then have "answers P (bindE (f x) (\<lambda>ys. bindE (concatE f xs) (\<lambda>zs. Inr (ys @ zs))))
      (bindS (m x) (\<lambda>ys. bindS (concatS m xs) (\<lambda>zs s. (Inr (ys @ zs), s))))"
    by (intro answers_bindS) simp_all
  then show ?case by (simp add: answers_def)
qed

lemma cached_check_sound:
  assumes "cache_sound check c"
  shows "fst (cached_check check a c) = check a" and "cache_sound check (snd (cached_check check a c))"
  using assms
  by (auto simp: cached_check_def cache_sound_def split: sum.splits)

lemma answers_isErc:
  "answers (caches_sound env) (CheckInterfaceID (te_read env) ERC721InterfaceID a) (isErc721 env a)"
  "answers (caches_sound env) (CheckInterfaceID (te_read env) ERC1155InterfaceID a) (isErc1155 env a)"
  using cached_check_sound
  by (auto simp: answers_def isErc721_def isErc1155_def caches_sound_def case_prod_beta)

text \<open>The operations of a log, a block and a batch as the node alone determines them.\<close>

definition log_ops :: "token_env \<Rightarrow> log \<Rightarrow> holder_operation list res" where
  "log_ops env l =
     (if log_address l = [] \<or> length (log_topics l) < 2 then Inr []
      else bindE (CheckInterfaceID (te_read env) ERC721InterfaceID (log_address l)) (\<lambda>ok.
           bindE (if ok then collectERC721Operations env l else Inr []) (\<lambda>ops1.
           bindE (CheckInterfaceID (te_read env) ERC1155InterfaceID (log_address l)) (\<lambda>ok.
           bindE (if ok then collectERC1155Operations env l else Inr []) (\<lambda>ops2. Inr (ops1 @ ops2))))))"

definition block_ops :: "token_env \<Rightarrow> block \<Rightarrow> holder_operation list res" where
  "block_ops env blk =
     concatE (\<lambda>r. if r_status r \<noteq> receipt_success then Inr [] else concatE (log_ops env) (r_logs r)) (b_receipts blk)"

definition batch_ops :: "token_env \<Rightarrow> block list \<Rightarrow> holder_operation list res" where
  "batch_ops env = concatE (block_ops env)"

lemma answers_collect_log: "answers (caches_sound env) (log_ops env l) (collect_log env l)"
  unfolding log_ops_def collect_log_def
  by (auto intro!: answers_bindS answers_isErc answers_decodedS)

lemma answers_collect:
  "answers (caches_sound env) (batch_ops env blks) (collectHolderOperationsFromBlocks env blks)"
  unfolding batch_ops_def collectHolderOperationsFromBlocks_def
proof (rule answers_concatS)
  fix b
  show "answers (caches_sound env) (block_ops env b) (collectHolderOperations env b)"
    unfolding block_ops_def collectHolderOperations_def
    by (rule answers_concatS) (auto intro: answers_concatS answers_collect_log answers_decodedS)
qed

lemma no_caches_sound: "caches_sound env no_caches"
  by (simp add: caches_sound_def cache_sound_def no_caches_def)

end
