(* ===== verification/TokenProps.thy ===== *)
theory TokenProps
  imports TokenEvents
begin

text \<open>Properties of the token holder plugin over whole batches.\<close>

subsection \<open>Splitting a batch\<close>

lemma concatE_append:
  "concatE f (xs @ ys) = bindE (concatE f xs) (\<lambda>as. bindE (concatE f ys) (\<lambda>bs. Inr (as @ bs)))"
  by (induction xs) (simp_all add: bindE_assoc bindE_def split: sum.splits)

lemma no_remint_append: "no_remint (xs @ ys) \<Longrightarrow> no_remint xs \<and> no_remint ys"
  by (induction xs) auto

lemma kinds_apart_append: "kinds_apart (xs @ ys) \<Longrightarrow> kinds_apart xs \<and> kinds_apart ys"
  by (auto simp: kinds_apart_def)

lemma holder_PutBlocks_sound:
  assumes "caches_sound env c" and "blks \<noteq> []"
  shows "\<exists>c'. caches_sound env c' \<and> holder_PutBlocks env f blks (c, w) =
    (case batch_ops env blks of
       Inl e \<Rightarrow> (Inl e, c', w)
     | Inr ops \<Rightarrow> (case index_tx f holder_plugin_name (Inr (b_height (last blks)))
                      (applyHolderOperations ops) w of (r, w') \<Rightarrow> (r, c', w')))"
proof -
  from answersD [OF answers_collect assms(1)] obtain c'
    where c': "collectHolderOperationsFromBlocks env blks c = (batch_ops env blks, c')" "caches_sound env c'"
    by blast
  then have "holder_PutBlocks env f blks (c, w) =
    (case batch_ops env blks of
       Inl e \<Rightarrow> (Inl e, c', w)
     | Inr ops \<Rightarrow> (case index_tx f holder_plugin_name (Inr (b_height (last blks)))
                      (applyHolderOperations ops) w of (r, w') \<Rightarrow> (r, c', w')))"
    using assms(2) by (cases "batch_ops env blks") (simp_all add: holder_PutBlocks_def)
  with c'(2) show ?thesis by blast
qed

lemma holder_PutBlocks_ok:
  assumes "holder_PutBlocks env f blks (c, w) = (Inr (), c', w')" and "caches_sound env c" and "blks \<noteq> []"
  obtains ops where "batch_ops env blks = Inr ops" and "applyHolderOperations ops (tables w) = Inr (tables w')"
    and "caches_sound env c'"
proof -
  from holder_PutBlocks_sound [OF assms(2,3), of f w] obtain c2 where c2: "caches_sound env c2"
    "(Inr (), c', w') = (case batch_ops env blks of
       Inl e \<Rightarrow> (Inl e, c2, w)
     | Inr ops \<Rightarrow> (case index_tx f holder_plugin_name (Inr (b_height (last blks)))
                      (applyHolderOperations ops) w of (r, w') \<Rightarrow> (r, c2, w')))"
    unfolding assms(1) by blast
  then obtain ops where
    ops: "batch_ops env blks = Inr ops" "caches_sound env c'"
      "index_tx f holder_plugin_name (Inr (b_height (last blks))) (applyHolderOperations ops) w = (Inr (), w')"
    by (cases "batch_ops env blks") (simp_all add: case_prod_beta prod_eq_iff)
  from ops(3) have "applyHolderOperations ops (tables w) = Inr (tables w')"
    by (rule index_tx_ok) simp
  with ops that show ?thesis by blast
qed

lemma holder_PutBlocks_runs:
  assumes "batch_ops env blks = Inr ops" and "applyHolderOperations ops (tables w) = Inr t"
    and "caches_sound env c" and "blks \<noteq> []"
  shows "\<exists>c' w'. holder_PutBlocks env no_faults blks (c, w) = (Inr (), c', w') \<and> tables w' = t
    \<and> caches_sound env c'"
  using holder_PutBlocks_sound [OF assms(3,4), of no_faults w] assms(1,2)
  by (auto simp: index_tx_no_faults)

subsection \<open>Balances\<close>

definition nonneg :: "holders \<Rightarrow> bool" where
  "nonneg t \<longleftrightarrow> (\<forall>k s. t k = Some s \<longrightarrow> 0 \<le> hs_value s)"

lemma nonnegD: "nonneg t \<Longrightarrow> t k = Some s \<Longrightarrow> 0 \<le> hs_value s"
  by (simp add: nonneg_def)

lemma nonneg_upd: "nonneg t \<Longrightarrow> 0 \<le> v \<Longrightarrow> nonneg (t(k \<mapsto> HolderState e v))" "nonneg t \<Longrightarrow> nonneg (t(k := None))"
  by (simp_all add: nonneg_def)

lemma nonneg_negative:
  "negative op w = Inr w' \<Longrightarrow> nonneg (hw_states w) \<Longrightarrow> nonneg (hw_states w')"
  by (auto simp: negative_def applyNegativeDelta_def nonneg_upd split: option.splits if_splits)

lemma nonneg_positive:
  assumes "0 \<le> ho_value op" and "nonneg (hw_states w)"
  shows "nonneg (hw_states (positive op w))"
proof -
  have "0 \<le> (case hw_states w (to_key op) of None \<Rightarrow> 0 | Some s \<Rightarrow> hs_value s)"
    using nonnegD [OF assms(2)] by (auto split: option.split)
  with assms show ?thesis by (simp add: positive_def applyPositiveDelta_def nonneg_upd(1))
qed

lemma nonneg_apply_op:
  assumes "apply_op op w = Inr w'" and "0 \<le> ho_value op" and "nonneg (hw_states w)"
  shows "nonneg (hw_states w')"
proof (cases "ho_type op")
  case ERC721Burn
  with assms show ?thesis by (auto simp: apply_op_def nonneg_def split: if_splits)
next
  case ERC1155Transfer
  with assms show ?thesis
    by (auto simp: apply_op_def bindE_eq_Inr intro: nonneg_positive nonneg_negative)
qed (use assms in \<open>auto simp: apply_op_def nonneg_upd intro: nonneg_positive nonneg_negative\<close>)

lemma nonneg_applyHolderOperations:
  assumes "applyHolderOperations ops t = Inr t'" and "nonneg t" and "\<forall>op \<in> set ops. 0 \<le> ho_value op"
  shows "nonneg t'"
proof (cases "ops = []")
  case True
  with assms show ?thesis by (simp add: applyHolderOperations_def)
next
  case False
  with assms(1) obtain w where w: "foldE apply_op ops \<lparr>hw_states = loadExistingHolderStates t (collectTouchedKeys ops),
        hw_by_key = {}, hw_by_token = {}\<rparr> = Inr w" "t' = written t w"
    by (auto simp: applyHolderOperations_def bindE_eq_Inr written_def)
  have "nonneg (hw_states w)"
    using w(1)
    by (rule foldE_invariant)
      (use assms(2,3) nonneg_apply_op in \<open>auto simp: loadExistingHolderStates_def restrict_map_def nonneg_def split: if_splits\<close>)
  with assms(2) show ?thesis
    by (auto simp: w(2) nonneg_def written_apply split: option.splits if_splits)
qed

lemma erc1155_ops_nonneg: "erc1155_ops env l a b is vs = Inr ops \<Longrightarrow> \<forall>op \<in> set ops. 0 \<le> ho_value op"
proof (induction env l a b "is" vs arbitrary: ops rule: erc1155_ops.induct)
  case (3 env l a b i "is" v vs)
  then show ?case by (auto simp: bindE_eq_Inr erc1155_op_def Let_def)
qed simp_all

lemma collect1155_nonneg: "collectERC1155Operations env l = Inr ops \<Longrightarrow> \<forall>op \<in> set ops. 0 \<le> ho_value op"
  unfolding collectERC1155Operations_def
  by (auto simp: bindE_eq_Inr dest: erc1155_ops_nonneg simp del: erc1155_ops.simps split: if_splits)

lemma collect721_nonneg: "collectERC721Operations env l = Inr ops \<Longrightarrow> \<forall>op \<in> set ops. 0 \<le> ho_value op"
  by (auto simp: collectERC721Operations_def bindE_eq_Inr Let_def split: if_splits)

lemma concatE_all: "concatE f xs = Inr ys \<Longrightarrow> (\<And>x zs. f x = Inr zs \<Longrightarrow> \<forall>z \<in> set zs. P z) \<Longrightarrow> \<forall>y \<in> set ys. P y"
  by (induction xs arbitrary: ys) (auto simp: bindE_eq_Inr)

lemma log_ops_nonneg: "log_ops env l = Inr ops \<Longrightarrow> \<forall>op \<in> set ops. 0 \<le> ho_value op"
  using collect721_nonneg collect1155_nonneg
  by (fastforce simp: log_ops_def bindE_eq_Inr split: if_splits)

lemma batch_ops_nonneg: "batch_ops env blks = Inr ops \<Longrightarrow> \<forall>op \<in> set ops. 0 \<le> ho_value op"
  unfolding batch_ops_def block_ops_def
  by (erule concatE_all, erule concatE_all) (auto elim!: concatE_all dest: log_ops_nonneg split: if_splits)

subsection \<open>Properties\<close>

text \<open>
  What a batch is taken to say does not depend on what the plugin happens to remember about
  contracts. From any caches that hold only answers of the node, the operations collected, or the
  error, are those collected with empty caches, and the caches hold only answers afterwards.
\<close>

theorem holder_caches_irrelevant:
  assumes "caches_sound env c" and "collectHolderOperationsFromBlocks env blks c = (r, c')"
  shows "r = fst (collectHolderOperationsFromBlocks env blks no_caches) \<and> caches_sound env c'"
  using answersD [OF answers_collect assms(1)] answersD [OF answers_collect no_caches_sound] assms(2)
  by (metis Pair_inject fst_conv)

text \<open>An environment with one ERC-1155 contract and one log of it.\<close>

definition token_example :: token_env where
  "token_example = \<lparr>te_read = (\<lambda>a d. if a = ''io_m'' \<and> d ! 4 = 0xd9 then Inr (1, replicate 63 CHR ''0'' @ ''1'')
       else Inr (0, [])),
     te_transfer = (\<lambda>l. Inl RpcError), te_batch = (\<lambda>l. Inl RpcError),
     te_single = (\<lambda>l. Inr (if log_data l = [] then ''io_0'' else ''io_a'', ''io_a'', 7, 10)),
     te_zero = ''io_0'', te_hash = (\<lambda>s. if s = TransferSingleString then [3] else [])\<rparr>"

definition token_log :: "byte list \<Rightarrow> log" where
  "token_log d = \<lparr>log_address = ''io_m'', log_topics = [[3], [4]], log_data = d\<rparr>"

definition token_block :: "u64 \<Rightarrow> log list \<Rightarrow> block" where
  "token_block h ls = \<lparr>b_height = h, b_timestamp = 0, b_actions = [],
     b_receipts = [\<lparr>r_status = 1, r_action_hash = [], r_gas_consumed = 0, r_tx_index = 0, r_logs = ls, r_tx_logs = []\<rparr>]\<rparr>"

definition mint_op :: holder_operation where
  "mint_op = op_1155 ERC1155Mint [] ''io_a'' 10"

lemma token_example_checks:
  "CheckInterfaceID (te_read token_example) ERC721InterfaceID ''io_m'' = Inr False"
  "CheckInterfaceID (te_read token_example) ERC1155InterfaceID ''io_m'' = Inr True"
  by code_simp+

lemma token_example_ops: "log_ops token_example (token_log []) = Inr [mint_op]"
proof -
  have "show_nat 7 = ''7''" by code_simp
  then show ?thesis
    using token_example_checks
    by (simp add: log_ops_def token_log_def collectERC1155Operations_def token_example_def mint_op_def
        op_1155_def erc1155_op_def Let_def TransferBatchString_def TransferSingleString_def)
qed

lemma token_example_batch:
  "batch_ops token_example [token_block h [token_log []]] = Inr [mint_op]"
  "batch_ops token_example [token_block h [token_log []], token_block k [token_log []]] = Inr [mint_op, mint_op]"
  by (simp_all add: batch_ops_def block_ops_def token_block_def receipt_success_def token_example_ops)

definition token_world :: "holders \<Rightarrow> holders world" where
  "token_world t = \<lparr>tables = t, heights = [holder_plugin_name \<mapsto> 4], index_cache = Map.empty\<rparr>"

theorem holder_caches_irrelevant_witness:
  "\<exists>r c'. collectHolderOperationsFromBlocks token_example [token_block 5 [token_log []]]
      (no_caches\<lparr>tc_1155 := \<lparr>cc_is = {''io_m''}, cc_not = {}\<rparr>\<rparr>) = (r, c')
    \<and> r = fst (collectHolderOperationsFromBlocks token_example [token_block 5 [token_log []]] no_caches)"
proof -
  have "caches_sound token_example (no_caches\<lparr>tc_1155 := \<lparr>cc_is = {''io_m''}, cc_not = {}\<rparr>\<rparr>)"
    using token_example_checks by (simp add: caches_sound_def cache_sound_def no_caches_def)
  from holder_caches_irrelevant [OF this] show ?thesis
    by (metis surj_pair)
qed

text \<open>
  How blocks are cut into batches does not matter. If two runs of blocks are put in one batch,
  putting the first and then the second leaves the same holders, whenever no contract of the blocks
  is of both kinds and no ERC-721 token comes back after it was burned.
\<close>

theorem holder_batches_compose:
  assumes "holder_PutBlocks env no_faults (blks1 @ blks2) (c, w) = (Inr (), c', w')"
    and "caches_sound env c" and "blks1 \<noteq> []" and "blks2 \<noteq> []"
    and "batch_ops env (blks1 @ blks2) = Inr ops" and "kinds_apart ops" and "no_remint ops"
  shows "\<exists>c1 w1 c2 w2. holder_PutBlocks env no_faults blks1 (c, w) = (Inr (), c1, w1)
    \<and> holder_PutBlocks env no_faults blks2 (c1, w1) = (Inr (), c2, w2) \<and> tables w2 = tables w'"
proof -
  from assms(5) obtain ops1 ops2 where ops: "batch_ops env blks1 = Inr ops1" "batch_ops env blks2 = Inr ops2"
      "ops = ops1 @ ops2"
    by (auto simp: batch_ops_def concatE_append bindE_eq_Inr)
  have "applyHolderOperations ops (tables w) = Inr (tables w')"
    using holder_PutBlocks_ok [OF assms(1,2)] assms(3,5) by (metis Inr_inject append_is_Nil_conv)
  then have "foldE spec_op (ops1 @ ops2) (tables w) = Inr (tables w')"
    using batch_sequential [OF assms(6,7)] ops(3) by simp
  then obtain t where t: "foldE spec_op ops1 (tables w) = Inr t" "foldE spec_op ops2 t = Inr (tables w')"
    by (auto simp: foldE_append bindE_eq_Inr)
  have 1: "applyHolderOperations ops1 (tables w) = Inr t" and 2: "applyHolderOperations ops2 t = Inr (tables w')"
    using t batch_sequential no_remint_append [of ops1 ops2] kinds_apart_append [of ops1 ops2]
      assms(6,7) ops(3) by auto
  from holder_PutBlocks_runs [OF ops(1) 1 assms(2,3)] obtain c1 w1
    where w1: "holder_PutBlocks env no_faults blks1 (c, w) = (Inr (), c1, w1)" "tables w1 = t" "caches_sound env c1"
    by blast
  from holder_PutBlocks_runs [of env blks2 ops2 w1, OF ops(2) _ w1(3) assms(4)] 2 w1 show ?thesis by blast
qed

lemma token_example_run:
  "\<exists>c' w'. holder_PutBlocks token_example no_faults [token_block 5 [token_log []], token_block 6 [token_log []]]
      (no_caches, token_world Map.empty) = (Inr (), c', w')"
  using holder_PutBlocks_runs [OF token_example_batch(2) _ no_caches_sound, of "token_world Map.empty"]
  by (simp add: applyHolderOperations_def apply_op_def mint_op_def op_1155_def positive_def) blast

theorem holder_batches_compose_witness:
  "\<exists>c1 w1 c2 w2. holder_PutBlocks token_example no_faults [token_block 5 [token_log []]]
      (no_caches, token_world Map.empty) = (Inr (), c1, w1)
    \<and> holder_PutBlocks token_example no_faults [token_block 6 [token_log []]] (c1, w1) = (Inr (), c2, w2)"
proof -
  obtain c' w' where run: "holder_PutBlocks token_example no_faults
      ([token_block 5 [token_log []]] @ [token_block 6 [token_log []]]) (no_caches, token_world Map.empty) = (Inr (), c', w')"
    using token_example_run by auto
  have "batch_ops token_example ([token_block 5 [token_log []]] @ [token_block 6 [token_log []]]) = Inr [mint_op, mint_op]"
    using token_example_batch(2) by simp
  from holder_batches_compose [OF run no_caches_sound _ _ this] show ?thesis
    by (auto simp: kinds_apart_def mint_op_def op_1155_def is_721_def)
qed

text \<open>
  C22: No holder ever has a negative value. Whatever blocks are put and whatever fails, every row of
  the table keeps a value of at least 0; a burn or transfer of more than the holder has refuses
  its batch.
\<close>

theorem holder_values_nonneg:
  assumes "holder_PutBlocks env f blks (c, w) = (r, c', w')" and "caches_sound env c"
    and "\<forall>k s. tables w k = Some s \<longrightarrow> 0 \<le> hs_value s"
  shows "caches_sound env c' \<and> (\<forall>k s. tables w' k = Some s \<longrightarrow> 0 \<le> hs_value s)"
proof (cases "blks = []")
  case True
  with assms show ?thesis by (simp add: holder_PutBlocks_def)
next
  case False
  note sound = holder_PutBlocks_sound [OF assms(2) False, of f w]
  show ?thesis
  proof (cases "batch_ops env blks")
    case (Inl e)
    with sound assms show ?thesis by auto
  next
    case (Inr ops)
    obtain q w2 where tx: "index_tx f holder_plugin_name (Inr (b_height (last blks))) (applyHolderOperations ops) w = (q, w2)"
      by fastforce
    with sound Inr assms(1) have w': "w' = w2" "caches_sound env c'" by auto
    have "nonneg (tables w2)"
    proof (cases q)
      case (Inl e)
      with tx index_tx_error have "tables w2 = tables w" by blast
      with assms(3) show ?thesis by (simp add: nonneg_def)
    next
      case (Inr u)
      with tx have "applyHolderOperations ops (tables w) = Inr (tables w2)" by (auto elim: index_tx_ok)
      then show ?thesis
        by (rule nonneg_applyHolderOperations)
          (use assms(3) batch_ops_nonneg \<open>batch_ops env blks = Inr ops\<close> in \<open>auto simp: nonneg_def\<close>)
    qed
    with w' show ?thesis by (simp add: nonneg_def)
  qed
qed

theorem holder_values_nonneg_witness:
  "\<exists>r c' w'. holder_PutBlocks token_example no_faults [token_block 5 [token_log []], token_block 6 [token_log []]]
      (no_caches, token_world Map.empty) = (r, c', w') \<and> (\<forall>k s. tables w' k = Some s \<longrightarrow> 0 \<le> hs_value s)"
proof -
  obtain c' w' where run: "holder_PutBlocks token_example no_faults
      [token_block 5 [token_log []], token_block 6 [token_log []]] (no_caches, token_world Map.empty) = (Inr (), c', w')"
    using token_example_run by blast
  from holder_values_nonneg [OF run no_caches_sound] run show ?thesis by (simp add: token_world_def)
qed

end
