(* ===== verification/TokenHoldersV1.thy ===== *)
theory TokenHoldersV1
  imports TokenProps
begin

text \<open>
  plugins/erc1155_721_holder: the first version of the token holder plugin. It writes every event
  to the table at once, keeps the value 0 for ERC-721 tokens, recognises contracts by probing their
  functions, and does not refuse a balance below 0.
\<close>

subsection \<open>Which contracts are tokens\<close>

definition ApproveString :: string where
  "ApproveString = ''8c5be1e5ebec7d5bd14f71427d1e84f3dd0314c0f7b2291e5b200ac8c7c3b925''"

definition ApprovalForAllString :: string where
  "ApprovalForAllString = ''17307eab39ab6107e8899845ad3d59bd9653f200f220920489ca2b5937696c31''"

definition URIString :: string where
  "URIString = ''6bb7ff708619ba0610cba295a58592e0451dee2622938c8755667688daf3529b''"

definition check721Topics :: "string \<Rightarrow> string \<Rightarrow> bool" where
  "check721Topics topics data \<longleftrightarrow>
     \<not> (topics = [] \<or> ((length topics \<noteq> 256 \<and> length data \<noteq> 0) \<and> length topics \<noteq> 192)) \<and>
     (str_contains topics TransferString \<or> str_contains topics ApproveString
       \<or> str_contains topics ApprovalForAllString)"

definition checkTopics :: "string \<Rightarrow> bool" where
  "checkTopics topics \<longleftrightarrow> str_contains topics TransferBatchString \<or> str_contains topics TransferSingleString
     \<or> str_contains topics URIString \<or> str_contains topics ApprovalForAllString"

text \<open>
  \<open>readContract(addr, callData, noData)\<close>: \<open>read\<close> is the node, which answers with the status and the
  data of a call or an error. The calls are named by their functions.
\<close>

definition readContract ::
  "(string \<Rightarrow> string \<Rightarrow> (u64 \<times> string) res) \<Rightarrow> string \<Rightarrow> string \<Rightarrow> bool \<Rightarrow> bool" where
  "readContract read addr call noData =
     (case read addr call of
        Inl e \<Rightarrow> False
      | Inr (status, ret) \<Rightarrow> (status = 1 \<or> status = 106) \<and> (noData \<or> ret \<noteq> []))"

definition probe721 :: "(string \<Rightarrow> string \<Rightarrow> (u64 \<times> string) res) \<Rightarrow> string \<Rightarrow> bool" where
  "probe721 read addr \<longleftrightarrow>
     readContract read addr ''balanceOf'' False \<and> readContract read addr ''approve'' False
     \<and> readContract read addr ''ownerOf'' False \<and> \<not> readContract read addr ''decimals'' False"

definition probe1155 :: "(string \<Rightarrow> string \<Rightarrow> (u64 \<times> string) res) \<Rightarrow> string \<Rightarrow> bool" where
  "probe1155 read addr \<longleftrightarrow>
     readContract read addr ''balanceOf(account,id)'' False \<and> readContract read addr ''balanceOfBatch'' False
     \<and> readContract read addr ''setApprovalForAll'' True \<and> readContract read addr ''isApprovedForAll'' False
     \<and> readContract read addr ''safeTransferFrom'' True \<and> readContract read addr ''safeBatchTransferFrom'' True"

record token_env_v1 = token_env +
  t1_read :: "string \<Rightarrow> string \<Rightarrow> (u64 \<times> string) res"

definition v1_isErc721 :: "token_env_v1 \<Rightarrow> string \<Rightarrow> string \<Rightarrow> string \<Rightarrow> token_caches \<Rightarrow> bool res \<times> token_caches" where
  "v1_isErc721 env addr topics data c =
     (if \<not> check721Topics topics data then (Inr False, c)
      else case cached_check (\<lambda>a. Inr (probe721 (t1_read env) a)) addr (tc_721 c) of
             (r, cc) \<Rightarrow> (r, c\<lparr>tc_721 := cc\<rparr>))"

definition v1_isErc1155 :: "token_env_v1 \<Rightarrow> string \<Rightarrow> string \<Rightarrow> token_caches \<Rightarrow> bool res \<times> token_caches" where
  "v1_isErc1155 env addr topics c =
     (if \<not> checkTopics topics then (Inr False, c)
      else case cached_check (\<lambda>a. Inr (probe1155 (t1_read env) a)) addr (tc_1155 c) of
             (r, cc) \<Rightarrow> (r, c\<lparr>tc_1155 := cc\<rparr>))"

subsection \<open>The statements for an event\<close>

text \<open>ON CONFLICT the value alone is set, to 0 or to the sum.\<close>

definition v1_own :: "holder_operation \<Rightarrow> holders \<Rightarrow> holders" where
  "v1_own op t = t(to_key op \<mapsto>
     (case t (to_key op) of None \<Rightarrow> HolderState 721 0 | Some s \<Rightarrow> HolderState (hs_erc s) 0))"

definition v1_credit :: "holder_operation \<Rightarrow> holders \<Rightarrow> holders" where
  "v1_credit op t = t(to_key op \<mapsto>
     (case t (to_key op) of
        None \<Rightarrow> HolderState 1155 (ho_value op)
      | Some s \<Rightarrow> HolderState (hs_erc s) (hs_value s + ho_value op)))"

text \<open>The old value is scanned as a string; without a row it is empty and parses as 0.\<close>

definition v1_debit :: "holder_operation \<Rightarrow> holders \<Rightarrow> holders" where
  "v1_debit op t =
     (let old = (case t (from_key op) of None \<Rightarrow> 0 | Some s \<Rightarrow> hs_value s)
      in if old = ho_value op then t(from_key op := None)
         else case t (from_key op) of
                None \<Rightarrow> t
              | Some s \<Rightarrow> t(from_key op \<mapsto> HolderState (hs_erc s) (hs_value s - ho_value op)))"

definition v1_op :: "holder_operation \<Rightarrow> holders \<Rightarrow> holders" where
  "v1_op op t =
     (case ho_type op of
        ERC721Mint \<Rightarrow> v1_own op t
      | ERC721Burn \<Rightarrow> (\<lambda>k. if token_of k = token_key op then None else t k)
      | ERC721Transfer \<Rightarrow> v1_own op (t(from_key op := None))
      | ERC1155Mint \<Rightarrow> v1_credit op t
      | ERC1155Burn \<Rightarrow> v1_debit op t
      | ERC1155Transfer \<Rightarrow> v1_credit op (v1_debit op t))"

subsection \<open>Blocks\<close>

text \<open>
  The handler of one log inside the transaction. The two switches decode an event as the later
  version does. The caches live outside the database.
\<close>

definition v1_log :: "token_env_v1 \<Rightarrow> log \<Rightarrow> token_caches \<times> holders \<Rightarrow> unit res \<times> token_caches \<times> holders" where
  "v1_log env l s =
     (case s of (c, t) \<Rightarrow>
        if log_address l = [] \<or> length (log_topics l) < 2 then (Inr (), c, t)
        else
          let topics = concat (map hex_encode (log_topics l));
              e = token_env.truncate env
          in case v1_isErc721 env (log_address l) topics (hex_encode (log_data l)) c of
               (Inl err, c1) \<Rightarrow> (Inl err, c1, t)
             | (Inr is721, c1) \<Rightarrow>
                 (case (if is721 then collectERC721Operations e l else Inr []) of
                    Inl err \<Rightarrow> (Inl err, c1, t)
                  | Inr ops1 \<Rightarrow>
                      (case v1_isErc1155 env (log_address l) topics c1 of
                         (Inl err, c2) \<Rightarrow> (Inl err, c2, fold v1_op ops1 t)
                       | (Inr is1155, c2) \<Rightarrow>
                           (case (if is1155 then collectERC1155Operations e l else Inr []) of
                              Inl err \<Rightarrow> (Inl err, c2, fold v1_op ops1 t)
                            | Inr ops2 \<Rightarrow> (Inr (), c2, fold v1_op ops2 (fold v1_op ops1 t))))))"

definition v1_block :: "token_env_v1 \<Rightarrow> block \<Rightarrow> token_caches \<times> holders \<Rightarrow> unit res \<times> token_caches \<times> holders" where
  "v1_block env blk =
     eachS (\<lambda>r. if r_status r \<noteq> receipt_success then updS id else eachS (v1_log env) (r_logs r)) (b_receipts blk)"

definition v1_holder_PutBlock ::
  "token_env_v1 \<Rightarrow> tx_faults \<Rightarrow> block \<Rightarrow> token_caches \<times> holders world \<Rightarrow>
   unit res \<times> token_caches \<times> holders world" where
  "v1_holder_PutBlock env f blk s =
     (case s of (c, w) \<Rightarrow>
        (case v1_block env blk (c, tables w) of
           (r, c', t) \<Rightarrow>
             (case index_tx f ''erc1155_721_holder'' (Inr (b_height blk)) (\<lambda>_. map_res (\<lambda>_. t) r) w of
                (r', w') \<Rightarrow> (r', c', w'))))"

subsection \<open>Both versions see the same holders\<close>

text \<open>\<open>kind\<close> says of which kind a contract is; rows and operations are of the kind of their contract.\<close>

definition typed_ops :: "(string \<Rightarrow> 16 word) \<Rightarrow> holder_operation list \<Rightarrow> bool" where
  "typed_ops kind ops \<longleftrightarrow> (\<forall>op \<in> set ops. ho_erc op = kind (ho_contract op)
     \<and> ho_erc op = (if is_721 op then 721 else 1155))"

definition same_row :: "16 word \<Rightarrow> holder_state option \<Rightarrow> holder_state option \<Rightarrow> bool" where
  "same_row kd r1 r2 \<longleftrightarrow>
     (case (r1, r2) of
        (None, None) \<Rightarrow> True
      | (Some s1, Some s2) \<Rightarrow> hs_erc s1 = kd \<and> hs_erc s2 = kd
          \<and> (if kd = 721 then hs_value s1 = 0 \<and> hs_value s2 = 1 else hs_value s1 = hs_value s2)
      | _ \<Rightarrow> False)"

definition same_holders :: "(string \<Rightarrow> 16 word) \<Rightarrow> holders \<Rightarrow> holders \<Rightarrow> bool" where
  "same_holders kind t1 t2 \<longleftrightarrow> (\<forall>k. same_row (kind (hk_contract k)) (t1 k) (t2 k))"

lemma same_holders_upd:
  "same_holders kind t1 t2 \<Longrightarrow> same_row (kind (hk_contract k)) r1 r2 \<Longrightarrow>
   same_holders kind (t1(k := r1)) (t2(k := r2))"
  by (simp add: same_holders_def)

lemma same_holders_at: "same_holders kind t1 t2 \<Longrightarrow> same_row (kind (hk_contract k)) (t1 k) (t2 k)"
  by (simp add: same_holders_def)

lemma key_contract [simp]:
  "hk_contract (from_key op) = ho_contract op" "hk_contract (to_key op) = ho_contract op"
  by (simp_all add: from_key_def to_key_def)

lemma same_holders_own:
  assumes "same_holders kind t1 t2" and "kind (ho_contract op) = 721" and "ho_erc op = 721"
  shows "same_holders kind (v1_own op t1) (t2(to_key op \<mapsto> HolderState (ho_erc op) 1))"
  unfolding v1_own_def
  using same_holders_at [OF assms(1), of "to_key op"] assms(2,3)
  by (intro same_holders_upd [OF assms(1)]) (auto simp: same_row_def split: option.splits)

lemma same_holders_credit:
  assumes "same_holders kind t1 t2" and "kind (ho_contract op) = 1155" and "ho_erc op = 1155"
  shows "same_holders kind (v1_credit op t1) (applyPositiveDelta (to_key op) (ho_erc op) (ho_value op) t2)"
  unfolding v1_credit_def applyPositiveDelta_def
  using same_holders_at [OF assms(1), of "to_key op"] assms(2,3)
  by (intro same_holders_upd [OF assms(1)]) (auto simp: same_row_def split: option.splits)

lemma same_holders_debit:
  assumes "same_holders kind t1 t2" and "kind (ho_contract op) = 1155" and "spec_negative op t2 = Inr u2"
  shows "same_holders kind (v1_debit op t1) u2"
proof (cases "t2 (from_key op)")
  case None
  with same_holders_at [OF assms(1), of "from_key op"] have "t1 (from_key op) = None"
    by (auto simp: same_row_def split: option.splits)
  with None assms show ?thesis
    by (auto simp: v1_debit_def spec_negative_def fun_upd_idem)
next
  case (Some s2)
  with same_holders_at [OF assms(1), of "from_key op"] assms(2) obtain s1
    where s1: "t1 (from_key op) = Some s1" "hs_value s1 = hs_value s2" "hs_erc s1 = 1155" "hs_erc s2 = 1155"
    by (auto simp: same_row_def split: option.splits)
  with Some assms(2,3) show ?thesis
    by (auto simp: v1_debit_def spec_negative_def Let_def same_row_def split: if_splits
        intro!: same_holders_upd [OF assms(1)])
qed

lemma same_holders_op:
  assumes "same_holders kind t1 t2" and "spec_op op t2 = Inr u2" and "ho_erc op = kind (ho_contract op)"
    and "ho_erc op = (if is_721 op then 721 else 1155)"
  shows "same_holders kind (v1_op op t1) u2"
proof (cases "ho_type op")
  case ERC721Mint
  with assms same_holders_own [of kind t1 t2 op] show ?thesis
    by (auto simp: v1_op_def spec_op_def is_721_def)
next
  case ERC721Burn
  with assms(2) have u2: "u2 = (\<lambda>k. if token_of k = token_key op then None else t2 k)"
    by (simp add: spec_op_def)
  have "same_row (kind (hk_contract k)) (if token_of k = token_key op then None else t1 k)
      (if token_of k = token_key op then None else t2 k)" for k
    using same_holders_at [OF assms(1), of k] by (simp add: same_row_def)
  with ERC721Burn u2 show ?thesis by (simp add: v1_op_def same_holders_def)
next
  case ERC721Transfer
  have "same_holders kind (t1(from_key op := None)) (t2(from_key op := None))"
    by (rule same_holders_upd [OF assms(1)]) (simp add: same_row_def)
  with ERC721Transfer assms same_holders_own [of kind _ _ op] show ?thesis
    by (fastforce simp: v1_op_def spec_op_def is_721_def)
next
  case ERC1155Mint
  with assms same_holders_credit [of kind t1 t2 op] show ?thesis
    by (auto simp: v1_op_def spec_op_def is_721_def)
next
  case ERC1155Burn
  with assms same_holders_debit [of kind t1 t2 op u2] show ?thesis
    by (auto simp: v1_op_def spec_op_def is_721_def)
next
  case ERC1155Transfer
  with assms(2) obtain t where t: "spec_negative op t2 = Inr t"
      "u2 = applyPositiveDelta (to_key op) (ho_erc op) (ho_value op) t"
    by (auto simp: spec_op_def bindE_eq_Inr)
  have k: "kind (ho_contract op) = 1155" "ho_erc op = 1155"
    using assms(3,4) ERC1155Transfer by (simp_all add: is_721_def)
  from same_holders_credit [OF same_holders_debit [OF assms(1) k(1) t(1)] k] t(2) ERC1155Transfer show ?thesis
    by (simp add: v1_op_def)
qed

text \<open>
  C17: The two versions of the plugin see the same holders. From tables that agree on who holds what,
  the operations of a batch that the later version accepts lead the earlier one, event by event, to
  a table with the same holders and the same ERC-1155 values; only the value of an ERC-721 token is
  0 there and 1 here. Each contract is of one standard, and no ERC-721 token comes back in the batch
  after it was burned: such a token has one holder in the earlier version and two in the later.
\<close>

theorem holder_versions_agree:
  assumes "same_holders kind t1 t2" and "applyHolderOperations ops t2 = Inr u2"
    and "typed_ops kind ops" and "no_remint ops"
  shows "same_holders kind (fold v1_op ops t1) u2"
proof -
  have "kinds_apart ops"
    unfolding kinds_apart_def
  proof (intro ballI impI notI)
    fix o1 o2 assume "o1 \<in> set ops" "o2 \<in> set ops" "is_721 o1 \<and> \<not> is_721 o2" "ho_contract o1 = ho_contract o2"
    with assms(3) have "(721 :: 16 word) = 1155" unfolding typed_ops_def by metis
    then show False by simp
  qed
  with assms(2,4) have "foldE spec_op ops t2 = Inr u2" by (simp add: batch_sequential)
  with assms(1,3) show ?thesis
  proof (induction ops arbitrary: t1 t2)
    case Nil
    then show ?case by simp
  next
    case (Cons op ops)
    from Cons.prems(3) obtain t where t: "spec_op op t2 = Inr t" "foldE spec_op ops t = Inr u2"
      by (auto simp: bindE_eq_Inr)
    have ty: "ho_erc op = kind (ho_contract op)" "ho_erc op = (if is_721 op then 721 else 1155)"
        "typed_ops kind ops"
      using Cons.prems(2) unfolding typed_ops_def by (meson list.set_intros)+
    have "same_holders kind (v1_op op t1) t"
      by (rule same_holders_op [OF Cons.prems(1) t(1) ty(1,2)])
    from Cons.IH [OF this ty(3) t(2)] show ?case by simp
  qed
qed

theorem holder_versions_agree_witness:
  "\<exists>u2. applyHolderOperations example_ops Map.empty = Inr u2 \<and>
     same_holders (\<lambda>c. if c = ''io_c'' then 721 else 1155) (fold v1_op example_ops Map.empty) u2"
proof -
  have "\<exists>u2. foldE spec_op example_ops Map.empty = Inr u2"
    by (simp add: example_ops_def op_1155_def op_721_def spec_op_def applyPositiveDelta_def
        spec_negative_def from_key_def to_key_def)
  then obtain u2 where "applyHolderOperations example_ops Map.empty = Inr u2"
    using batch_sequential [of example_ops "Map.empty"]
    by (auto simp: example_ops_def op_1155_def op_721_def kinds_apart_def is_721_def)
  with holder_versions_agree [OF _ this, of "\<lambda>c. if c = ''io_c'' then 721 else 1155" "Map.empty"] show ?thesis
    by (auto simp: same_holders_def same_row_def typed_ops_def example_ops_def op_1155_def op_721_def is_721_def)
qed

end
