(* ===== verification/LruCache.thy ===== *)
theory LruCache
  imports Prelude
begin

text \<open>
  The bounded cache of plugins/staking_actions_ch/state_cache.go: a list of entries, the one used
  last in front, with a map into it. Keys and values are arbitrary here. The interface \<open>bounded_cache\<close>
  states what a client may rely on: reading changes nothing but the order, writing may evict other
  entries, and as long as the keys in use fit, none of them is evicted.
\<close>

subsection \<open>Operations\<close>

text \<open>The map holds the elements of the list, which have distinct keys.\<close>

record ('k, 'v) lru =
  lru_max :: nat
  lru_entries :: "('k \<times> 'v) list"

definition defaultBucketStateCacheSize :: int where
  "defaultBucketStateCacheSize = 100000"

definition newBucketStateCache :: "int \<Rightarrow> ('k, 'v) lru" where
  "newBucketStateCache n =
     \<lparr>lru_max = nat (if n \<le> 0 then defaultBucketStateCacheSize else n), lru_entries = []\<rparr>"

definition to_front :: "'k \<Rightarrow> 'v \<Rightarrow> ('k \<times> 'v) list \<Rightarrow> ('k \<times> 'v) list" where
  "to_front k v es = (k, v) # filter (\<lambda>e. fst e \<noteq> k) es"

definition lru_get :: "'k \<Rightarrow> ('k, 'v) lru \<Rightarrow> 'v option \<times> ('k, 'v) lru" where
  "lru_get k c =
     (case map_of (lru_entries c) k of
        None \<Rightarrow> (None, c)
      | Some v \<Rightarrow> (Some v, c\<lparr>lru_entries := to_front k v (lru_entries c)\<rparr>))"

definition removeOldest :: "('k, 'v) lru \<Rightarrow> ('k, 'v) lru" where
  "removeOldest c = c\<lparr>lru_entries := butlast (lru_entries c)\<rparr>"

definition lru_set :: "'k \<Rightarrow> 'v \<Rightarrow> ('k, 'v) lru \<Rightarrow> ('k, 'v) lru" where
  "lru_set k v c =
     (if k \<in> fst ` set (lru_entries c) then c\<lparr>lru_entries := to_front k v (lru_entries c)\<rparr>
      else let c' = c\<lparr>lru_entries := (k, v) # lru_entries c\<rparr>
           in if lru_max c < length (lru_entries c') then removeOldest c' else c')"

subsection \<open>What is cached, and what is safe\<close>

definition lru_lookup :: "('k, 'v) lru \<Rightarrow> 'k \<rightharpoonup> 'v" where
  "lru_lookup c = map_of (lru_entries c)"

definition lru_ok :: "('k, 'v) lru \<Rightarrow> bool" where
  "lru_ok c \<longleftrightarrow> distinct (map fst (lru_entries c)) \<and> length (lru_entries c) \<le> lru_max c"

text \<open>The keys of \<open>S\<close> are the ones used last: they stand in front of all others.\<close>

definition lru_recent :: "'k set \<Rightarrow> ('k, 'v) lru \<Rightarrow> bool" where
  "lru_recent S c \<longleftrightarrow> (\<exists>xs ys. map fst (lru_entries c) = xs @ ys \<and> set xs = S)"

lemma keys_to_front [simp]: "map fst (to_front k v es) = k # filter (\<lambda>x. x \<noteq> k) (map fst es)"
  by (simp add: to_front_def filter_map comp_def)

lemma map_of_filter_other: "j \<noteq> k \<Longrightarrow> map_of (filter (\<lambda>e. fst e \<noteq> k) es) j = map_of es j"
  by (induction es) auto

lemma lookup_to_front [simp]: "map_of (to_front k v es) = (map_of es)(k \<mapsto> v)"
  by (auto simp: to_front_def fun_eq_iff map_of_filter_other)

lemma filter_absent: "k \<notin> set xs \<Longrightarrow> filter (\<lambda>x. x \<noteq> k) xs = xs"
  by (auto simp: filter_id_conv)

lemma filter_other_length:
  "distinct xs \<Longrightarrow> k \<in> set xs \<Longrightarrow> Suc (length (filter (\<lambda>x. x \<noteq> k) xs)) = length xs"
  by (induction xs) (auto simp: filter_absent)

lemma length_to_front: "distinct (map fst es) \<Longrightarrow> k \<in> fst ` set es \<Longrightarrow> length (to_front k v es) = length es"
proof -
  assume d: "distinct (map fst es)" and k: "k \<in> fst ` set es"
  have "Suc (length (filter (\<lambda>x. x \<noteq> k) (map fst es))) = length (map fst es)"
    using filter_other_length [OF d] k by simp
  then have "length (map fst (to_front k v es)) = length (map fst es)" by (simp only: keys_to_front list.size)
  then show ?thesis by (simp only: length_map)
qed

lemma map_of_Some_key: "map_of es k = Some v \<Longrightarrow> k \<in> fst ` set es"
  by (force dest: map_of_SomeD)

lemma get_result: "fst (lru_get k c) = lru_lookup c k"
  by (simp add: lru_get_def lru_lookup_def split: option.split)

lemma get_lookup: "lru_lookup (snd (lru_get k c)) = lru_lookup c"
  by (auto simp: lru_get_def lru_lookup_def fun_upd_idem split: option.split)

lemma get_max [simp]: "lru_max (snd (lru_get k c)) = lru_max c"
  by (simp add: lru_get_def split: option.split)

lemma set_max [simp]: "lru_max (lru_set k v c) = lru_max c"
  by (simp add: lru_set_def removeOldest_def Let_def)

lemma get_ok: "lru_ok c \<Longrightarrow> lru_ok (snd (lru_get k c))"
  by (auto simp: lru_get_def lru_ok_def length_to_front [OF _ map_of_Some_key] split: option.split)

lemma new_ok: "lru_ok (newBucketStateCache n)"
  by (simp add: newBucketStateCache_def lru_ok_def)

lemma recent_to_front:
  assumes "map fst es = xs @ ys" and "set xs = S"
  shows "\<exists>us vs. map fst (to_front k v es) = us @ vs \<and> set us = insert k S"
proof (intro exI conjI)
  show "map fst (to_front k v es) = (k # filter (\<lambda>x. x \<noteq> k) xs) @ filter (\<lambda>x. x \<noteq> k) ys"
    by (simp add: assms(1))
  show "set (k # filter (\<lambda>x. x \<noteq> k) xs) = insert k S" using assms(2) by auto
qed

lemma get_recent:
  assumes "lru_recent S c" and "k \<in> dom (lru_lookup c)"
  shows "lru_recent (insert k S) (snd (lru_get k c))"
  using assms recent_to_front
  by (fastforce simp: lru_recent_def lru_get_def lru_lookup_def)

lemma recent_cached: "lru_recent S c \<Longrightarrow> S \<subseteq> dom (lru_lookup c)"
  by (auto simp: lru_recent_def lru_lookup_def dom_map_of_conv_image_fst)
    (metis UnI1 set_append image_set)

lemma recent_empty [simp]: "lru_recent {} c"
  by (simp add: lru_recent_def)

lemma set_ok: "lru_ok c \<Longrightarrow> lru_ok (lru_set k v c)"
proof -
  assume ok: "lru_ok c"
  show ?thesis
  proof (cases "k \<in> fst ` set (lru_entries c)")
    case True
    with ok show ?thesis by (auto simp: lru_set_def lru_ok_def length_to_front)
  next
    case False
    with ok have "distinct (map fst ((k, v) # lru_entries c))" by (simp add: lru_ok_def)
    then have "distinct (map fst (butlast ((k, v) # lru_entries c)))"
      by (simp only: map_butlast distinct_butlast)
    with False ok show ?thesis by (auto simp: lru_set_def lru_ok_def removeOldest_def Let_def)
  qed
qed

lemma map_of_butlast: "map_of (butlast es) j \<in> {None, map_of es j}"
  by (induction es) auto

lemma set_lookup_same: "0 < lru_max c \<Longrightarrow> lru_lookup (lru_set k v c) k = Some v"
  by (auto simp: lru_set_def lru_lookup_def removeOldest_def Let_def)

lemma set_lookup_other: "j \<noteq> k \<Longrightarrow> lru_lookup (lru_set k v c) j \<in> {None, lru_lookup c j}"
proof -
  assume j: "j \<noteq> k"
  have "map_of (butlast ((k, v) # lru_entries c)) j \<in> {None, map_of ((k, v) # lru_entries c) j}"
    by (rule map_of_butlast)
  with j show ?thesis by (auto simp: lru_set_def lru_lookup_def removeOldest_def Let_def)
qed

lemma set_recent:
  assumes "lru_ok c" and "lru_recent S c" and "card (insert k S) \<le> lru_max c"
  shows "lru_recent (insert k S) (lru_set k v c)"
proof -
  from assms(2) obtain xs ys where xs: "map fst (lru_entries c) = xs @ ys" "set xs = S"
    by (auto simp: lru_recent_def)
  show ?thesis
  proof (cases "k \<in> fst ` set (lru_entries c)")
    case True
    then show ?thesis using recent_to_front [OF xs] by (auto simp: lru_recent_def lru_set_def)
  next
    case False
    then have "k \<notin> set (map fst (lru_entries c))" by simp
    then have "k \<notin> set xs" using xs(1) by simp
    moreover have "distinct xs" using assms(1) xs(1) by (auto simp: lru_ok_def)
    ultimately have "length (k # xs) = card (insert k S)"
      using xs(2) distinct_card [of "k # xs"] by simp
    then have fits: "length (k # xs) \<le> lru_max c" using assms(3) by simp
    let ?es = "(k, v) # lru_entries c"
    have all: "map fst ?es = (k # xs) @ ys" using xs(1) by simp
    have "\<exists>ys'. map fst (lru_entries (lru_set k v c)) = (k # xs) @ ys'"
    proof (cases "lru_max c < length ?es")
      case full: True
      have "length ?es = length ((k # xs) @ ys)" using arg_cong [OF all, of length] by simp
      with full fits have "ys \<noteq> []" by auto
      then have "map fst (butlast ?es) = (k # xs) @ butlast ys"
        by (simp only: map_butlast all butlast_append) simp
      with False full show ?thesis by (auto simp: lru_set_def removeOldest_def Let_def)
    next
      case room: False
      with False all show ?thesis by (auto simp: lru_set_def Let_def)
    qed
    then obtain ys' where "map fst (lru_entries (lru_set k v c)) = (k # xs) @ ys'" ..
    moreover have "set (k # xs) = insert k S" using xs(2) by simp
    ultimately show ?thesis unfolding lru_recent_def by blast
  qed
qed

subsection \<open>The interface\<close>

text \<open>
  \<open>look\<close> abstracts a cache to a map, \<open>room\<close> is the number of entries it can hold, \<open>used S\<close> says
  that no key outside of \<open>S\<close> was used after one of \<open>S\<close>.
\<close>

locale bounded_cache =
  fixes get :: "'k \<Rightarrow> 'c \<Rightarrow> 'v option \<times> 'c"
    and put :: "'k \<Rightarrow> 'v \<Rightarrow> 'c \<Rightarrow> 'c"
    and look :: "'c \<Rightarrow> 'k \<rightharpoonup> 'v"
    and room :: "'c \<Rightarrow> nat"
    and ok :: "'c \<Rightarrow> bool"
    and used :: "'k set \<Rightarrow> 'c \<Rightarrow> bool"
  assumes get_result: "fst (get k c) = look c k"
    and get_look: "look (snd (get k c)) = look c"
    and get_room: "room (snd (get k c)) = room c"
    and get_ok: "ok c \<Longrightarrow> ok (snd (get k c))"
    and get_used: "used S c \<Longrightarrow> k \<in> dom (look c) \<Longrightarrow> used (insert k S) (snd (get k c))"
    and put_same: "0 < room c \<Longrightarrow> look (put k v c) k = Some v"
    and put_other: "j \<noteq> k \<Longrightarrow> look (put k v c) j \<in> {None, look c j}"
    and put_room: "room (put k v c) = room c"
    and put_ok: "ok c \<Longrightarrow> ok (put k v c)"
    and put_used: "ok c \<Longrightarrow> used S c \<Longrightarrow> card (insert k S) \<le> room c \<Longrightarrow> used (insert k S) (put k v c)"
    and used_cached: "used S c \<Longrightarrow> S \<subseteq> dom (look c)"
    and used_empty: "used {} c"
begin

text \<open>A cache whose entries are all what \<open>f\<close> gives for their key.\<close>

definition agrees :: "('k \<Rightarrow> 'v) \<Rightarrow> 'c \<Rightarrow> bool" where
  "agrees f c \<longleftrightarrow> (\<forall>k v. look c k = Some v \<longrightarrow> v = f k)"

lemma agreesD: "agrees f c \<Longrightarrow> look c k = Some v \<Longrightarrow> v = f k"
  by (simp add: agrees_def)

lemma agrees_get: "agrees f c \<Longrightarrow> agrees f (snd (get k c))"
  by (simp add: agrees_def get_look)

lemma agrees_upd:
  assumes "agrees f c" and "0 < room c"
  shows "agrees (f(k := v)) (put k v c)"
  unfolding agrees_def
proof (intro allI impI)
  fix j u assume j: "look (put k v c) j = Some u"
  show "u = (f(k := v)) j"
  proof (cases "j = k")
    case True
    with j put_same [OF assms(2)] show ?thesis by simp
  next
    case False
    with j put_other [OF False, of v c] have "look c j = Some u" by auto
    with assms(1) False show ?thesis by (simp add: agrees_def)
  qed
qed

lemma agrees_put: "agrees f c \<Longrightarrow> 0 < room c \<Longrightarrow> agrees f (put k (f k) c)"
  using agrees_upd [of f c k "f k"] by simp

text \<open>Filling in keys that are missing.\<close>

lemma put_all:
  assumes "ok c" and "agrees f c" and "used S c" and "finite S" and "card (set ks \<union> S) \<le> room c"
  shows "ok (fold (\<lambda>k. put k (f k)) ks c) \<and> agrees f (fold (\<lambda>k. put k (f k)) ks c)
    \<and> used (set ks \<union> S) (fold (\<lambda>k. put k (f k)) ks c) \<and> room (fold (\<lambda>k. put k (f k)) ks c) = room c"
  using assms
proof (induction ks arbitrary: c S)
  case Nil
  then show ?case by simp
next
  case (Cons k ks)
  have "card (insert k S) \<le> card (set (k # ks) \<union> S)" using Cons.prems(4) by (intro card_mono) auto
  then have fits: "card (insert k S) \<le> room c" using Cons.prems(5) by simp
  have "0 < card (insert k S)" using Cons.prems(4) by (simp add: card_gt_0_iff)
  then have pos: "0 < room c" using fits by simp
  have "set ks \<union> insert k S = set (k # ks) \<union> S" by auto
  with Cons.IH [of "put k (f k) c" "insert k S"] Cons.prems fits pos show ?case
    by (simp add: put_ok put_used agrees_put put_room)
qed

end

interpretation lru: bounded_cache lru_get lru_set lru_lookup lru_max lru_ok lru_recent
  by unfold_locales
    (use set_lookup_other in \<open>simp_all add: get_result get_lookup get_ok get_recent set_lookup_same
      set_ok set_recent recent_cached\<close>)

end
