(* ===== verification/StakingActionsCh.thy ===== *)
theory StakingActionsCh
  imports StakingActions LruCache "HOL-Library.AList"
begin

text \<open>
  plugins/staking_actions_ch: the ledger of staking actions in ClickHouse. Rows are gathered in
  memory and inserted per batch. What the handler reads about a bucket comes from a bounded cache of
  aggregates over the table, filled from ClickHouse where an entry is missing, and from what is
  pending in the batch.
\<close>

subsection \<open>Rows and aggregates\<close>

record ch_row = sa_row +
  ch_index :: nat

record bucket_info =
  bi_owner :: string
  bi_candidate :: string
  bi_auto_stake :: bool
  bi_duration :: u32

record cached_bucket_state =
  cb_info :: bucket_info
  cb_has_info :: bool
  cb_total :: int
  cb_non_unstake :: int
  cb_unstakes :: int

record pending_bucket_state =
  pb_latest :: "bucket_info option"
  pb_positive :: "bucket_info option"
  pb_total :: int
  pb_non_unstake :: int
  pb_unstakes :: int

definition no_info :: bucket_info where
  "no_info = \<lparr>bi_owner = [], bi_candidate = [], bi_auto_stake = False, bi_duration = 0\<rparr>"

definition no_state :: cached_bucket_state where
  "no_state = \<lparr>cb_info = no_info, cb_has_info = False, cb_total = 0, cb_non_unstake = 0, cb_unstakes = 0\<rparr>"

definition no_pending :: pending_bucket_state where
  "no_pending = \<lparr>pb_latest = None, pb_positive = None, pb_total = 0, pb_non_unstake = 0, pb_unstakes = 0\<rparr>"

definition info_of :: "ch_row \<Rightarrow> bucket_info" where
  "info_of r = \<lparr>bi_owner = lr_owner r, bi_candidate = lr_candidate r, bi_auto_stake = lr_auto_stake r,
                bi_duration = lr_duration r\<rparr>"

text \<open>
  \<open>argMaxIf(_, tuple(block_height, "index"), _)\<close>. Rows whose tuples are equal and greatest leave the
  choice to ClickHouse; here the later row is taken, but as the runner feeds blocks no two rows with
  a positive amount for a bucket have one tuple.
\<close>

definition tuple_less :: "ch_row \<Rightarrow> ch_row \<Rightarrow> bool" where
  "tuple_less r r' \<longleftrightarrow> lr_height r < lr_height r' \<or> lr_height r = lr_height r' \<and> ch_index r < ch_index r'"

definition argMaxIf :: "(ch_row \<Rightarrow> bool) \<Rightarrow> ch_row list \<Rightarrow> ch_row option" where
  "argMaxIf p rows =
     fold (\<lambda>r best. if p r \<and> (case best of None \<Rightarrow> True | Some r' \<Rightarrow> \<not> tuple_less r r') then Some r else best)
       rows None"

definition positive_row :: "u64 \<Rightarrow> ch_row \<Rightarrow> bool" where
  "positive_row b r \<longleftrightarrow> lr_bucket r = b \<and> 0 < lr_amount r"

definition non_unstake :: "u64 \<Rightarrow> ch_row list \<Rightarrow> int" where
  "non_unstake b = sum_rows (\<lambda>r. lr_bucket r = b \<and> lr_act_type r \<noteq> ''Unstake'') lr_amount"

definition unstakes :: "u64 \<Rightarrow> ch_row list \<Rightarrow> int" where
  "unstakes b rows = int (length (filter (\<lambda>r. lr_bucket r = b \<and> lr_act_type r = ''Unstake'') rows))"

text \<open>
  The row of a bucket in the result of the query, if the table has rows of it. The sums are printed by
  ClickHouse and parsed again (\<open>parseDecimal\<close>), which gives them back.
\<close>

definition bucket_state_row :: "ch_row list \<Rightarrow> u64 \<Rightarrow> cached_bucket_state option" where
  "bucket_state_row t b =
     (if \<exists>r \<in> set t. lr_bucket r = b
      then Some \<lparr>cb_info = (case argMaxIf (positive_row b) t of None \<Rightarrow> no_info | Some r \<Rightarrow> info_of r),
                 cb_has_info = (\<exists>r \<in> set t. positive_row b r),
                 cb_total = bucket_sum b t, cb_non_unstake = non_unstake b t, cb_unstakes = unstakes b t\<rparr>
      else None)"

definition bucket_state :: "ch_row list \<Rightarrow> u64 \<Rightarrow> cached_bucket_state" where
  "bucket_state t b = (case bucket_state_row t b of None \<Rightarrow> no_state | Some s \<Rightarrow> s)"

subsection \<open>The plugin\<close>

text \<open>
  \<open>che_query_ok\<close> says whether ClickHouse answers the query for a list of buckets, \<open>che_range\<close> the
  order in which \<open>range\<close> visits the keys of a map. \<open>pendingBucketInfo\<close> is an association list.
\<close>

record ch_env =
  che_abi :: staking_abi
  che_candidates :: "cand_row list"
  che_greenland :: u64
  che_query_ok :: "u64 list \<Rightarrow> bool"
  che_range :: "u64 list \<Rightarrow> u64 list"

record ch_plugin =
  ch_tip :: u64
  ch_buffer :: "ch_row list"
  ch_cache :: "(u64, cached_bucket_state) lru"
  ch_pending :: "(u64 \<times> pending_bucket_state) list"

definition ch_Start :: "int \<Rightarrow> ch_plugin" where
  "ch_Start cacheSize = \<lparr>ch_tip = 0, ch_buffer = [], ch_cache = newBucketStateCache cacheSize, ch_pending = []\<rparr>"

definition ch_bucket :: "action \<Rightarrow> u64 option" where
  "ch_bucket act =
     (case act of
        TransferStake b _ \<Rightarrow> Some b
      | Restake b _ _ \<Rightarrow> Some b
      | ChangeCandidate b _ \<Rightarrow> Some b
      | DepositToStake b _ \<Rightarrow> Some b
      | Unstake b \<Rightarrow> Some b
      | _ \<Rightarrow> None)"

definition collect_bucket :: "envelope \<Rightarrow> u64 list \<Rightarrow> u64 list" where
  "collect_bucket e ids =
     (case ch_bucket (e_action e) of
        None \<Rightarrow> ids
      | Some b \<Rightarrow> if b \<in> set ids then ids else ids @ [b])"

definition collectBucketIDs :: "block list \<Rightarrow> u64 list" where
  "collectBucketIDs blks = fold (\<lambda>blk. fold collect_bucket (b_actions blk)) blks []"

text \<open>The first loop of \<open>preloadBucketStates\<close>: the buckets that are not cached, each once.\<close>

fun missing_buckets ::
  "u64 list \<Rightarrow> u64 list \<Rightarrow> (u64, cached_bucket_state) lru \<Rightarrow> u64 list \<times> (u64, cached_bucket_state) lru" where
  "missing_buckets [] seen c = ([], c)"
| "missing_buckets (b # bs) seen c =
     (if b \<in> set seen then missing_buckets bs seen c
      else case lru_get b c of
             (Some _, c') \<Rightarrow> missing_buckets bs (b # seen) c'
           | (None, c') \<Rightarrow> (case missing_buckets bs (b # seen) c' of (ms, c'') \<Rightarrow> (b # ms, c'')))"

definition preloadBucketStates :: "ch_env \<Rightarrow> ch_row list \<Rightarrow> u64 list \<Rightarrow> ch_plugin \<Rightarrow> unit res \<times> ch_plugin" where
  "preloadBucketStates env t ids p =
     (if ids = [] then (Inr (), p)
      else case missing_buckets ids [] (ch_cache p) of
             (missing, c) \<Rightarrow>
               if missing = [] then (Inr (), p\<lparr>ch_cache := c\<rparr>)
               else if \<not> che_query_ok env missing then (Inl DbError, p\<lparr>ch_cache := c\<rparr>)
               else (Inr (), p\<lparr>ch_cache := fold (\<lambda>b. lru_set b (bucket_state t b)) missing c\<rparr>))"

text \<open>\<open>state, _ := Get(bucketID)\<close>: the zero value where nothing is cached.\<close>

definition cached_state :: "u64 \<Rightarrow> ch_plugin \<Rightarrow> cached_bucket_state res \<times> ch_plugin" where
  "cached_state b p =
     (case lru_get b (ch_cache p) of
        (s, c) \<Rightarrow> (Inr (case s of None \<Rightarrow> no_state | Some s \<Rightarrow> s), p\<lparr>ch_cache := c\<rparr>))"

definition loaded_state :: "ch_env \<Rightarrow> ch_row list \<Rightarrow> u64 \<Rightarrow> ch_plugin \<Rightarrow> cached_bucket_state res \<times> ch_plugin" where
  "loaded_state env t b = bindS (preloadBucketStates env t [b]) (\<lambda>_. cached_state b)"

definition getBucketSumAmount :: "ch_env \<Rightarrow> ch_row list \<Rightarrow> u64 \<Rightarrow> ch_plugin \<Rightarrow> int res \<times> ch_plugin" where
  "getBucketSumAmount env t b =
     bindS (loaded_state env t b) (\<lambda>s p.
       (Inr (cb_total s + (case map_of (ch_pending p) b of None \<Rightarrow> 0 | Some d \<Rightarrow> pb_total d)), p))"

definition getFixBucketSumAmount :: "ch_env \<Rightarrow> ch_row list \<Rightarrow> u64 \<Rightarrow> ch_plugin \<Rightarrow> int res \<times> ch_plugin" where
  "getFixBucketSumAmount env t b =
     bindS (loaded_state env t b) (\<lambda>s p.
       case (case map_of (ch_pending p) b of
               None \<Rightarrow> (cb_unstakes s, cb_non_unstake s)
             | Some d \<Rightarrow> (cb_unstakes s + pb_unstakes d, cb_non_unstake s + pb_non_unstake d)) of
         (unstakeCount, nonUnstakeAmount) \<Rightarrow>
           (Inr (if unstakeCount = 0 then 0 else nonUnstakeAmount), p))"

definition getBucketInfoAddress :: "ch_env \<Rightarrow> ch_row list \<Rightarrow> u64 \<Rightarrow> ch_plugin \<Rightarrow> bucket_info res \<times> ch_plugin" where
  "getBucketInfoAddress env t b p =
     (case Option.bind (map_of (ch_pending p) b) pb_latest of
        Some info \<Rightarrow> (Inr info, p)
      | None \<Rightarrow> bindS (loaded_state env t b) (\<lambda>s p. (Inr (cb_info s), p)) p)"

definition record_pending ::
  "ch_row \<Rightarrow> (u64 \<times> pending_bucket_state) list \<Rightarrow> (u64 \<times> pending_bucket_state) list" where
  "record_pending r ps =
     (let d = (case map_of ps (lr_bucket r) of None \<Rightarrow> no_pending | Some d \<Rightarrow> d);
          is_unstake = lr_act_type r = ''Unstake''
      in AList.update (lr_bucket r)
           (d\<lparr>pb_latest := Some (info_of r), pb_total := pb_total d + lr_amount r,
              pb_unstakes := (if is_unstake then pb_unstakes d + 1 else pb_unstakes d),
              pb_non_unstake := (if is_unstake then pb_non_unstake d else pb_non_unstake d + lr_amount r),
              pb_positive := (if 0 < lr_amount r then Some (info_of r) else pb_positive d)\<rparr>) ps)"

definition appendStakingActions :: "ch_row list \<Rightarrow> ch_plugin \<Rightarrow> ch_plugin" where
  "appendStakingActions rows p =
     p\<lparr>ch_buffer := ch_buffer p @ rows, ch_pending := fold record_pending rows (ch_pending p)\<rparr>"

subsection \<open>One action\<close>

definition ch_new_row ::
  "u64 \<Rightarrow> nat \<Rightarrow> envelope \<Rightarrow> u64 \<Rightarrow> bucket_info \<Rightarrow> string \<Rightarrow> int \<Rightarrow> ch_row" where
  "ch_new_row h i e b info act amt =
     \<lparr>lr_height = h, lr_bucket = b, lr_owner = bi_owner info, lr_candidate = bi_candidate info,
      lr_amount = amt, lr_act_type = act, lr_auto_stake = bi_auto_stake info,
      lr_duration = bi_duration info, sa_sender = e_sender e, sa_act_hash = hex_encode (e_hash e),
      ch_index = i\<rparr>"

definition ch_getCandidateAddressByName :: "cand_row list \<Rightarrow> string \<Rightarrow> u64 \<Rightarrow> string res" where
  "ch_getCandidateAddressByName cands name h =
     bindE (FetchByNameWithHeight name h cands) (\<lambda>c. Inr (cr_owner c))"

definition ch_create ::
  "ch_env \<Rightarrow> u64 \<Rightarrow> nat \<Rightarrow> envelope \<Rightarrow> u64 option \<Rightarrow> string \<Rightarrow> int \<Rightarrow> u32 \<Rightarrow> bool \<Rightarrow>
   ch_plugin \<Rightarrow> unit res \<times> ch_plugin" where
  "ch_create env h i e bucket name amt dur auto =
     bindS (decodedS (ch_getCandidateAddressByName (che_candidates env) name h)) (\<lambda>cand.
     case bucket of
       None \<Rightarrow> decodedS (Inl missing_bucket)
     | Some b \<Rightarrow> updS (appendStakingActions
         [ch_new_row h i e b \<lparr>bi_owner = e_sender e, bi_candidate = cand, bi_auto_stake = auto,
            bi_duration = dur\<rparr> ''StakeCreate'' amt]))"

definition ch_transfer ::
  "ch_env \<Rightarrow> ch_row list \<Rightarrow> u64 \<Rightarrow> nat \<Rightarrow> envelope \<Rightarrow> u64 \<Rightarrow> string \<Rightarrow> ch_plugin \<Rightarrow> unit res \<times> ch_plugin" where
  "ch_transfer env t h i e b voter =
     bindS (getBucketSumAmount env t b) (\<lambda>amt.
     bindS (getBucketInfoAddress env t b) (\<lambda>info.
     updS (appendStakingActions
       [ch_new_row h i e b info ''TransferStake'' (amt * - 1),
        ch_new_row h i e b (info\<lparr>bi_owner := voter\<rparr>) ''TransferStake'' amt])))"

definition ch_restake ::
  "ch_env \<Rightarrow> ch_row list \<Rightarrow> u64 \<Rightarrow> nat \<Rightarrow> envelope \<Rightarrow> u64 \<Rightarrow> u32 \<Rightarrow> bool \<Rightarrow> ch_plugin \<Rightarrow> unit res \<times> ch_plugin" where
  "ch_restake env t h i e b dur auto =
     bindS (getBucketInfoAddress env t b) (\<lambda>info.
     bindS (if h < che_greenland env then getFixBucketSumAmount env t b else decodedS (Inr 0)) (\<lambda>fixAmount.
     updS (appendStakingActions
       [ch_new_row h i e b (info\<lparr>bi_owner := e_sender e, bi_auto_stake := auto, bi_duration := dur\<rparr>)
          ''Restake'' fixAmount])))"

definition ch_change_candidate ::
  "ch_env \<Rightarrow> ch_row list \<Rightarrow> u64 \<Rightarrow> nat \<Rightarrow> envelope \<Rightarrow> u64 \<Rightarrow> string \<Rightarrow> ch_plugin \<Rightarrow> unit res \<times> ch_plugin" where
  "ch_change_candidate env t h i e b name =
     bindS (getBucketSumAmount env t b) (\<lambda>amt.
     bindS (getBucketInfoAddress env t b) (\<lambda>info.
     bindS (updS (appendStakingActions [ch_new_row h i e b info ''ChangeCandidate'' (amt * - 1)])) (\<lambda>_.
     bindS (decodedS (ch_getCandidateAddressByName (che_candidates env) name h)) (\<lambda>cand.
     updS (appendStakingActions [ch_new_row h i e b (info\<lparr>bi_candidate := cand\<rparr>) ''ChangeCandidate'' amt])))))"

definition ch_deposit ::
  "ch_env \<Rightarrow> ch_row list \<Rightarrow> u64 \<Rightarrow> nat \<Rightarrow> envelope \<Rightarrow> u64 \<Rightarrow> int \<Rightarrow> ch_plugin \<Rightarrow> unit res \<times> ch_plugin" where
  "ch_deposit env t h i e b amt =
     bindS (getBucketInfoAddress env t b) (\<lambda>info.
     updS (appendStakingActions [ch_new_row h i e b info ''DepositToStake'' amt]))"

definition ch_unstake ::
  "ch_env \<Rightarrow> ch_row list \<Rightarrow> u64 \<Rightarrow> nat \<Rightarrow> envelope \<Rightarrow> u64 \<Rightarrow> ch_plugin \<Rightarrow> unit res \<times> ch_plugin" where
  "ch_unstake env t h i e b =
     bindS (getBucketSumAmount env t b) (\<lambda>amt.
     bindS (getBucketInfoAddress env t b) (\<lambda>info.
     updS (appendStakingActions
       [ch_new_row h i e b (info\<lparr>bi_owner := e_sender e\<rparr>) ''Unstake'' (amt * - 1)])))"

definition ch_register ::
  "u64 \<Rightarrow> nat \<Rightarrow> envelope \<Rightarrow> u64 option \<Rightarrow> string \<Rightarrow> int \<Rightarrow> u32 \<Rightarrow> bool \<Rightarrow> ch_plugin \<Rightarrow> unit res \<times> ch_plugin" where
  "ch_register h i e bucket own amt dur auto =
     (case bucket of
        None \<Rightarrow> decodedS (Inl missing_bucket)
      | Some b \<Rightarrow>
          if b = NoBucket then updS id
          else updS (appendStakingActions
            [ch_new_row h i e b \<lparr>bi_owner = own, bi_candidate = own, bi_auto_stake = auto,
               bi_duration = dur\<rparr> ''CandidateRegister'' amt]))"

definition ch_action ::
  "ch_env \<Rightarrow> ch_row list \<Rightarrow> u64 \<Rightarrow> nat \<Rightarrow> envelope \<Rightarrow> u64 option \<Rightarrow> ch_plugin \<Rightarrow> unit res \<times> ch_plugin" where
  "ch_action env t h i e bucket =
     (case e_action e of
        CreateStake name amt dur auto \<Rightarrow> ch_create env h i e bucket name amt dur auto
      | TransferStake b voter \<Rightarrow> ch_transfer env t h i e b voter
      | Restake b dur auto \<Rightarrow> ch_restake env t h i e b dur auto
      | ChangeCandidate b name \<Rightarrow> ch_change_candidate env t h i e b name
      | DepositToStake b amt \<Rightarrow> ch_deposit env t h i e b amt
      | Unstake b \<Rightarrow> ch_unstake env t h i e b
      | CandidateRegister _ _ _ own amt dur auto _ \<Rightarrow> ch_register h i e bucket own amt dur auto
      | _ \<Rightarrow> updS id)"

subsection \<open>Blocks\<close>

text \<open>The loop over the receipts, whose body is \<open>act\<close>; \<open>bucketMap\<close> lives as long as the block.\<close>

definition ch_receipt ::
  "staking_abi \<Rightarrow> (nat \<Rightarrow> envelope \<Rightarrow> u64 option \<Rightarrow> 's \<Rightarrow> unit res \<times> 's) \<Rightarrow> block \<Rightarrow> nat \<times> receipt \<Rightarrow>
   (string \<rightharpoonup> u64) \<times> 's \<Rightarrow> unit res \<times> (string \<rightharpoonup> u64) \<times> 's" where
  "ch_receipt abi act blk ir s =
     (case ir of (i, r) \<Rightarrow> case s of (bucketMap, p) \<Rightarrow>
        if r_status r \<noteq> receipt_success then (Inr (), s)
        else case actions_by_hash (b_actions blk) (r_action_hash r) of
               None \<Rightarrow> (Inr (), s)
             | Some e \<Rightarrow>
                 let actHash = hex_encode (e_hash e);
                     bm = (case BucketIndex abi (r_logs r) of
                             None \<Rightarrow> bucketMap | Some b \<Rightarrow> bucketMap(actHash \<mapsto> b))
                 in (case act i e (bm actHash) p of (x, p') \<Rightarrow> (x, bm, p')))"

definition ch_block_of ::
  "staking_abi \<Rightarrow> (u64 \<Rightarrow> nat \<Rightarrow> envelope \<Rightarrow> u64 option \<Rightarrow> 's \<Rightarrow> unit res \<times> 's) \<Rightarrow> block \<Rightarrow> 's \<Rightarrow> unit res \<times> 's" where
  "ch_block_of abi act blk p =
     (case eachS (ch_receipt abi (act (b_height blk)) blk) (List.enumerate 0 (b_receipts blk)) (Map.empty, p) of
        (x, _, p') \<Rightarrow> (x, p'))"

definition ch_putBlock :: "ch_env \<Rightarrow> ch_row list \<Rightarrow> block \<Rightarrow> ch_plugin \<Rightarrow> unit res \<times> ch_plugin" where
  "ch_putBlock env t = ch_block_of (che_abi env) (ch_action env t)"

definition applied_state :: "cached_bucket_state \<Rightarrow> pending_bucket_state \<Rightarrow> cached_bucket_state" where
  "applied_state s d =
     (let s' = s\<lparr>cb_total := cb_total s + pb_total d, cb_non_unstake := cb_non_unstake s + pb_non_unstake d,
                 cb_unstakes := cb_unstakes s + pb_unstakes d\<rparr>
      in case pb_positive d of None \<Rightarrow> s' | Some info \<Rightarrow> s'\<lparr>cb_info := info, cb_has_info := True\<rparr>)"

definition apply_pending ::
  "(u64 \<times> pending_bucket_state) list \<Rightarrow> u64 \<Rightarrow> (u64, cached_bucket_state) lru \<Rightarrow> (u64, cached_bucket_state) lru" where
  "apply_pending ps b c =
     (case lru_get b c of
        (s, c') \<Rightarrow> lru_set b (applied_state (case s of None \<Rightarrow> no_state | Some s \<Rightarrow> s) (the (map_of ps b))) c')"

definition applyPendingBucketStates :: "ch_env \<Rightarrow> ch_plugin \<Rightarrow> ch_plugin" where
  "applyPendingBucketStates env p =
     p\<lparr>ch_cache := fold (apply_pending (ch_pending p)) (che_range env (map fst (ch_pending p))) (ch_cache p)\<rparr>"

text \<open>
  \<open>commit\<close>: \<open>insert_ok\<close> is ClickHouse's answer to the insert, \<open>height_ok\<close> the other database's to the
  index height. The table in ClickHouse is the \<open>tables\<close> of the world.
\<close>

definition ch_clear :: "ch_plugin \<Rightarrow> ch_plugin" where
  "ch_clear p = p\<lparr>ch_buffer := [], ch_pending := []\<rparr>"

definition ch_name :: string where
  "ch_name = ''staking_actions_ch''"

record ch_faults =
  insert_ok :: bool
  height_ok :: bool

definition ch_commit ::
  "ch_env \<Rightarrow> ch_faults \<Rightarrow> ch_plugin \<times> ch_row list world \<Rightarrow> unit res \<times> ch_plugin \<times> ch_row list world" where
  "ch_commit env f s =
     (case s of (p, w) \<Rightarrow>
        if ch_buffer p \<noteq> [] \<and> \<not> insert_ok f then (Inl DbError, ch_clear p, w)
        else let p' = (if ch_buffer p = [] then p else ch_clear (applyPendingBucketStates env p))
             in (case UpdateIndexHeight (height_ok f) ch_name (ch_tip p) (w\<lparr>tables := tables w @ ch_buffer p\<rparr>) of
                   (x, w') \<Rightarrow> (x, p', w')))"

definition ch_PutBlocks ::
  "ch_env \<Rightarrow> ch_faults \<Rightarrow> block list \<Rightarrow> ch_plugin \<times> ch_row list world \<Rightarrow>
   unit res \<times> ch_plugin \<times> ch_row list world" where
  "ch_PutBlocks env f blks s =
     (case s of (p, w) \<Rightarrow>
        (case bindS (preloadBucketStates env (tables w) (collectBucketIDs blks))
                (\<lambda>_. eachS (ch_putBlock env (tables w)) blks) p of
           (Inl e, p') \<Rightarrow> (Inl e, p', w)
         | (Inr _, p') \<Rightarrow>
             (case idx blks 0 of
                Inl e \<Rightarrow> (Inl e, p', w)
              | Inr b \<Rightarrow> ch_commit env f (p'\<lparr>ch_tip := b_height b + word_of_nat (length blks) - 1\<rparr>, w))))"

definition ch_PutBlock ::
  "ch_env \<Rightarrow> ch_faults \<Rightarrow> block \<Rightarrow> ch_plugin \<times> ch_row list world \<Rightarrow>
   unit res \<times> ch_plugin \<times> ch_row list world" where
  "ch_PutBlock env f blk s =
     (case s of (p, w) \<Rightarrow>
        (case bindS (preloadBucketStates env (tables w) (collectBucketIDs [blk]))
                (\<lambda>_. ch_putBlock env (tables w) blk) p of
           (Inl e, p') \<Rightarrow> (Inl e, p', w)
         | (Inr _, p') \<Rightarrow> ch_commit env f (p'\<lparr>ch_tip := b_height blk\<rparr>, w)))"

end
