(* ===== verification/StakingActionsChProps.thy ===== *)
theory StakingActionsChProps
  imports StakingActionsCh
begin

text \<open>
  What staking_actions_ch writes, stated without its cache: a reference that reads every aggregate
  from the rows themselves. As long as a batch uses no more buckets than the cache holds, the plugin
  and the reference do the same.
\<close>

subsection \<open>Two runs side by side\<close>

definition simS ::
  "('s \<Rightarrow> 't \<Rightarrow> bool) \<Rightarrow> ('s \<Rightarrow> 'a res \<times> 's) \<Rightarrow> ('t \<Rightarrow> 'a res \<times> 't) \<Rightarrow> bool" where
  "simS R m m' \<longleftrightarrow> (\<forall>s t. R s t \<longrightarrow> fst (m s) = fst (m' t) \<and> R (snd (m s)) (snd (m' t)))"

lemma simSD: "simS R m m' \<Longrightarrow> R s t \<Longrightarrow> m s = (x, s') \<Longrightarrow> m' t = (y, t') \<Longrightarrow> x = y \<and> R s' t'"
  by (force simp: simS_def)

lemma simSI: "(\<And>s t. R s t \<Longrightarrow> \<exists>s' t'. m s = (fst (m' t), s') \<and> snd (m' t) = t' \<and> R s' t') \<Longrightarrow> simS R m m'"
  by (force simp: simS_def)

lemma simS_bindS:
  assumes "simS R m m'" and "\<And>x. simS R (f x) (f' x)"
  shows "simS R (bindS m f) (bindS m' f')"
  unfolding simS_def
proof (intro allI impI)
  fix s t assume st: "R s t"
  obtain x s1 y t1 where m: "m s = (x, s1)" "m' t = (y, t1)" by fastforce
  from simSD [OF assms(1) st m] have "x = y" "R s1 t1" by simp_all
  then show "fst (bindS m f s) = fst (bindS m' f' t) \<and> R (snd (bindS m f s)) (snd (bindS m' f' t))"
    using m assms(2) by (cases x) (auto simp: simS_def)
qed

lemma simS_eachS:
  "(\<And>x. x \<in> set xs \<Longrightarrow> simS R (f x) (f' x)) \<Longrightarrow> simS R (eachS f xs) (eachS f' xs)"
proof (induction xs)
  case Nil
  then show ?case by (simp add: simS_def)
next
  case (Cons x xs)
  then have "simS R (bindS (f x) (\<lambda>_. eachS f xs)) (bindS (f' x) (\<lambda>_. eachS f' xs))"
    by (intro simS_bindS) auto
  then show ?case by (simp add: simS_def)
qed

lemma simS_updS: "(\<And>s t. R s t \<Longrightarrow> R (f s) (f' t)) \<Longrightarrow> simS R (updS f) (updS f')"
  by (simp add: simS_def updS_def)

lemma simS_decodedS: "simS R (decodedS x) (decodedS x)"
  by (simp add: simS_def decodedS_def)

definition readS :: "('s \<Rightarrow> 'a) \<Rightarrow> 's \<Rightarrow> 'a res \<times> 's" where
  "readS f s = (Inr (f s), s)"

subsection \<open>The reference\<close>

text \<open>\<open>t\<close> is the table, the state the rows of the batch so far.\<close>

definition ref_info :: "ch_row list \<Rightarrow> u64 \<Rightarrow> ch_row list \<Rightarrow> bucket_info" where
  "ref_info t b buf =
     (case bucket_last b buf of
        Some r \<Rightarrow> info_of r
      | None \<Rightarrow> (case argMaxIf (positive_row b) t of None \<Rightarrow> no_info | Some r \<Rightarrow> info_of r))"

definition ref_sum :: "ch_row list \<Rightarrow> u64 \<Rightarrow> ch_row list \<Rightarrow> int" where
  "ref_sum t b buf = bucket_sum b (t @ buf)"

definition ref_fix :: "ch_row list \<Rightarrow> u64 \<Rightarrow> ch_row list \<Rightarrow> int" where
  "ref_fix t b buf = fix_sum b (t @ buf)"

definition add_rows :: "ch_row list \<Rightarrow> ch_row list \<Rightarrow> unit res \<times> ch_row list" where
  "add_rows rows = updS (\<lambda>buf. buf @ rows)"

definition ref_action ::
  "ch_env \<Rightarrow> ch_row list \<Rightarrow> u64 \<Rightarrow> nat \<Rightarrow> envelope \<Rightarrow> u64 option \<Rightarrow> ch_row list \<Rightarrow> unit res \<times> ch_row list" where
  "ref_action env t h i e bucket =
     (let mk = ch_new_row h i e; name_of = (\<lambda>name. ch_getCandidateAddressByName (che_candidates env) name h)
      in case e_action e of
        CreateStake name amt dur auto \<Rightarrow>
          bindS (decodedS (name_of name)) (\<lambda>cand.
          case bucket of
            None \<Rightarrow> decodedS (Inl missing_bucket)
          | Some b \<Rightarrow> add_rows [mk b \<lparr>bi_owner = e_sender e, bi_candidate = cand, bi_auto_stake = auto,
                                    bi_duration = dur\<rparr> ''StakeCreate'' amt])
      | TransferStake b voter \<Rightarrow>
          bindS (readS (ref_sum t b)) (\<lambda>amt. bindS (readS (ref_info t b)) (\<lambda>info.
          add_rows [mk b info ''TransferStake'' (amt * - 1),
                    mk b (info\<lparr>bi_owner := voter\<rparr>) ''TransferStake'' amt]))
      | Restake b dur auto \<Rightarrow>
          bindS (readS (ref_info t b)) (\<lambda>info.
          bindS (if h < che_greenland env then readS (ref_fix t b) else decodedS (Inr 0)) (\<lambda>fixAmount.
          add_rows [mk b (info\<lparr>bi_owner := e_sender e, bi_auto_stake := auto, bi_duration := dur\<rparr>)
                      ''Restake'' fixAmount]))
      | ChangeCandidate b name \<Rightarrow>
          bindS (readS (ref_sum t b)) (\<lambda>amt. bindS (readS (ref_info t b)) (\<lambda>info.
          bindS (add_rows [mk b info ''ChangeCandidate'' (amt * - 1)]) (\<lambda>_.
          bindS (decodedS (name_of name)) (\<lambda>cand.
          add_rows [mk b (info\<lparr>bi_candidate := cand\<rparr>) ''ChangeCandidate'' amt]))))
      | DepositToStake b amt \<Rightarrow>
          bindS (readS (ref_info t b)) (\<lambda>info. add_rows [mk b info ''DepositToStake'' amt])
      | Unstake b \<Rightarrow>
          bindS (readS (ref_sum t b)) (\<lambda>amt. bindS (readS (ref_info t b)) (\<lambda>info.
          add_rows [mk b (info\<lparr>bi_owner := e_sender e\<rparr>) ''Unstake'' (amt * - 1)]))
      | CandidateRegister _ _ _ own amt dur auto _ \<Rightarrow>
          (case bucket of
             None \<Rightarrow> decodedS (Inl missing_bucket)
           | Some b \<Rightarrow>
               if b = NoBucket then updS id
               else add_rows [mk b \<lparr>bi_owner = own, bi_candidate = own, bi_auto_stake = auto,
                                   bi_duration = dur\<rparr> ''CandidateRegister'' amt])
      | _ \<Rightarrow> updS id)"

definition ref_blocks :: "ch_env \<Rightarrow> ch_row list \<Rightarrow> block list \<Rightarrow> ch_row list \<Rightarrow> unit res \<times> ch_row list" where
  "ref_blocks env t = eachS (ch_block_of (che_abi env) (ref_action env t))"

definition ref_PutBlocks ::
  "ch_env \<Rightarrow> ch_faults \<Rightarrow> block list \<Rightarrow> ch_row list world \<Rightarrow> unit res \<times> ch_row list world" where
  "ref_PutBlocks env f blks w =
     (case ref_blocks env (tables w) blks [] of
        (Inl e, new) \<Rightarrow> (Inl e, w)
      | (Inr _, new) \<Rightarrow>
          bindS (decodedS (idx blks 0)) (\<lambda>b w.
            if new \<noteq> [] \<and> \<not> insert_ok f then (Inl DbError, w)
            else UpdateIndexHeight (height_ok f) ch_name (b_height b + word_of_nat (length blks) - 1)
                   (w\<lparr>tables := tables w @ new\<rparr>)) w)"

subsection \<open>Aggregates of rows\<close>

lemma bucket_state_eq:
  "bucket_state t b =
     \<lparr>cb_info = (case argMaxIf (positive_row b) t of None \<Rightarrow> no_info | Some r \<Rightarrow> info_of r),
      cb_has_info = (\<exists>r \<in> set t. positive_row b r),
      cb_total = bucket_sum b t, cb_non_unstake = non_unstake b t, cb_unstakes = unstakes b t\<rparr>"
proof (cases "\<exists>r \<in> set t. lr_bucket r = b")
  case True
  then show ?thesis by (simp add: bucket_state_def bucket_state_row_def)
next
  case False
  then have none: "\<And>r. r \<in> set t \<Longrightarrow> lr_bucket r \<noteq> b" by blast
  have "argMaxIf (positive_row b) t = None"
  proof -
    have "fold (\<lambda>r best. if positive_row b r \<and> (case best of None \<Rightarrow> True | Some r' \<Rightarrow> \<not> tuple_less r r')
        then Some r else best) t x = x" for x
      using none by (induction t) (auto simp: positive_row_def)
    then show ?thesis by (simp add: argMaxIf_def)
  qed
  moreover have "bucket_sum b t = 0" "non_unstake b t = 0"
    unfolding bucket_sum_def non_unstake_def by (rule sum_rows_none; use none in blast)+
  moreover have "unstakes b t = 0" using none by (auto simp: unstakes_def filter_empty_conv)
  moreover have "\<not> (\<exists>r \<in> set t. positive_row b r)" using none by (auto simp: positive_row_def)
  ultimately show ?thesis using False by (simp add: bucket_state_def bucket_state_row_def no_state_def)
qed

lemma aggregates_append [simp]:
  "non_unstake b (xs @ ys) = non_unstake b xs + non_unstake b ys"
  "unstakes b (xs @ ys) = unstakes b xs + unstakes b ys"
  by (simp_all add: non_unstake_def unstakes_def)

lemma fix_by_counts: "(if unstakes b rows = 0 then 0 else non_unstake b rows) = fix_sum b rows"
  by (auto simp: fix_sum_def unstakes_def non_unstake_def filter_empty_conv)

definition pending_of :: "ch_row list \<Rightarrow> u64 \<Rightarrow> pending_bucket_state option" where
  "pending_of buf b =
     map_option (\<lambda>r. \<lparr>pb_latest = Some (info_of r),
        pb_positive = map_option info_of (last_row (positive_row b) buf),
        pb_total = bucket_sum b buf, pb_non_unstake = non_unstake b buf, pb_unstakes = unstakes b buf\<rparr>)
       (bucket_last b buf)"

lemma no_rows_of_bucket:
  assumes "bucket_last b buf = None"
  shows "bucket_sum b buf = 0" and "non_unstake b buf = 0" and "unstakes b buf = 0"
    and "last_row (positive_row b) buf = None" and "\<And>r. r \<in> set buf \<Longrightarrow> lr_bucket r \<noteq> b"
proof -
  show none: "\<And>r. r \<in> set buf \<Longrightarrow> lr_bucket r \<noteq> b" using assms by (auto simp: bucket_last_def last_row_None_iff)
  show "bucket_sum b buf = 0" "non_unstake b buf = 0"
    unfolding bucket_sum_def non_unstake_def by (rule sum_rows_none; use none in blast)+
  show "unstakes b buf = 0" using none by (auto simp: unstakes_def filter_empty_conv)
  show "last_row (positive_row b) buf = None" using none by (auto simp: last_row_None_iff positive_row_def)
qed

lemma pending_of_record: "map_of (fold record_pending buf []) b = pending_of buf b"
proof (induction buf rule: rev_induct)
  case Nil
  then show ?case by (simp add: pending_of_def)
next
  case (snoc r buf)
  show ?case
  proof (cases "lr_bucket r = b")
    case False
    with snoc show ?thesis
      by (simp add: record_pending_def Let_def update_conv' pending_of_def non_unstake_def unstakes_def
          positive_row_def)
  next
    case True
    show ?thesis
    proof (cases "bucket_last b buf")
      case None
      with no_rows_of_bucket [OF None] snoc True show ?thesis
        by (simp add: record_pending_def Let_def update_conv' pending_of_def no_pending_def positive_row_def
            non_unstake_def unstakes_def)
    next
      case (Some q)
      with snoc True show ?thesis
        by (simp add: record_pending_def Let_def update_conv' pending_of_def non_unstake_def unstakes_def
            positive_row_def)
    qed
  qed
qed

subsection \<open>Rows in order\<close>

definition in_order :: "ch_row list \<Rightarrow> bool" where
  "in_order = sorted_wrt (\<lambda>r r'. \<not> tuple_less r' r)"

lemma in_order_append:
  "in_order (xs @ ys) \<longleftrightarrow> in_order xs \<and> in_order ys \<and> (\<forall>x \<in> set xs. \<forall>y \<in> set ys. \<not> tuple_less y x)"
  by (auto simp: in_order_def sorted_wrt_append)

lemma argMaxIf_snoc:
  "argMaxIf p (rows @ [r]) =
     (if p r \<and> (case argMaxIf p rows of None \<Rightarrow> True | Some r' \<Rightarrow> \<not> tuple_less r r') then Some r
      else argMaxIf p rows)"
  by (simp add: argMaxIf_def)

lemma argMaxIf_in_order: "in_order rows \<Longrightarrow> argMaxIf p rows = last_row p rows"
proof (induction rows rule: rev_induct)
  case Nil
  then show ?case by (simp add: argMaxIf_def)
next
  case (snoc r rows)
  then have "argMaxIf p rows = last_row p rows" and "\<forall>x \<in> set rows. \<not> tuple_less r x"
    by (simp_all add: in_order_append)
  then show ?case
    by (auto simp: argMaxIf_snoc split: option.split dest: last_row_SomeD)
qed

text \<open>Rows appended in order: what is cached and what is pending add up to the new aggregate.\<close>

lemma applied_pending:
  assumes "in_order (t @ buf)" and "pending_of buf b = Some d"
  shows "applied_state (bucket_state t b) d = bucket_state (t @ buf) b"
proof -
  have order: "argMaxIf p t = last_row p t" "argMaxIf p (t @ buf) = last_row p (t @ buf)" for p
    using assms(1) argMaxIf_in_order by (auto simp: in_order_append)
  from assms(2) have d: "d = \<lparr>pb_latest = pb_latest d,
      pb_positive = map_option info_of (last_row (positive_row b) buf), pb_total = bucket_sum b buf,
      pb_non_unstake = non_unstake b buf, pb_unstakes = unstakes b buf\<rparr>"
    by (auto simp: pending_of_def)
  show ?thesis
  proof (cases "last_row (positive_row b) buf")
    case None
    then have "\<not> (\<exists>r \<in> set buf. positive_row b r)" by (auto simp: last_row_None_iff)
    with None order show ?thesis
      by (subst d) (auto simp: applied_state_def bucket_state_eq last_row_append)
  next
    case (Some r)
    then have "\<exists>r \<in> set buf. positive_row b r" by (auto dest: last_row_SomeD)
    with Some order show ?thesis
      by (subst d) (auto simp: applied_state_def bucket_state_eq last_row_append)
  qed
qed

lemma nothing_pending:
  assumes "in_order (t @ buf)" and "pending_of buf b = None"
  shows "bucket_state (t @ buf) b = bucket_state t b"
proof -
  have "bucket_last b buf = None" using assms(2) by (simp add: pending_of_def)
  note none = no_rows_of_bucket [OF this]
  have order: "argMaxIf p t = last_row p t" "argMaxIf p (t @ buf) = last_row p (t @ buf)" for p
    using assms(1) argMaxIf_in_order by (auto simp: in_order_append)
  have "\<not> (\<exists>r \<in> set buf. positive_row b r)" using none(5) by (auto simp: positive_row_def)
  with none order show ?thesis by (auto simp: bucket_state_eq last_row_append)
qed

subsection \<open>The plugin and the reference side by side\<close>

text \<open>
  \<open>S\<close> are the buckets loaded for the batch, \<open>M\<close> the size of the cache: its entries are the aggregates
  of the table, those of \<open>S\<close> are in it and were used last, and what is pending is what was gathered.
\<close>

definition ch_rel :: "ch_row list \<Rightarrow> u64 set \<Rightarrow> nat \<Rightarrow> ch_plugin \<Rightarrow> ch_row list \<Rightarrow> bool" where
  "ch_rel t S M p buf \<longleftrightarrow>
     ch_buffer p = buf \<and> ch_pending p = fold record_pending buf [] \<and> lru_max (ch_cache p) = M \<and>
     lru.agrees (bucket_state t) (ch_cache p) \<and> lru_ok (ch_cache p) \<and> lru_recent S (ch_cache p)"

lemma loaded_state_cached:
  assumes "ch_rel t S M p buf" and "b \<in> S"
  shows "\<exists>p'. loaded_state env t b p = (Inr (bucket_state t b), p') \<and> ch_rel t S M p' buf"
proof -
  let ?c = "ch_cache p"
  have rel: "lru.agrees (bucket_state t) ?c" "lru_ok ?c" "lru_recent S ?c"
    using assms(1) by (simp_all add: ch_rel_def)
  have get: "\<exists>c'. lru_get b c = (Some (bucket_state t b), c') \<and> lru.agrees (bucket_state t) c' \<and> lru_ok c'
      \<and> lru_recent S c' \<and> lru_max c' = lru_max c"
    if c: "lru.agrees (bucket_state t) c" "lru_ok c" "lru_recent S c" for c
  proof -
    have "b \<in> dom (lru_lookup c)" using lru.used_cached [OF c(3)] assms(2) by blast
    then obtain v where v: "lru_lookup c b = Some v" by auto
    with lru.agreesD [OF c(1) v] lru.get_result [of b c]
    have "lru_get b c = (Some (bucket_state t b), snd (lru_get b c))" by (cases "lru_get b c") simp
    moreover have "lru_recent S (snd (lru_get b c))"
      using lru.get_used [OF c(3), of b] v insert_absorb [OF assms(2)] by auto
    ultimately show ?thesis
      using lru.agrees_get [OF c(1), of b] lru.get_ok [OF c(2), of b] lru.get_room [of b c] by metis
  qed
  from get [OF rel] obtain c1 where c1: "lru_get b ?c = (Some (bucket_state t b), c1)"
      "lru.agrees (bucket_state t) c1" "lru_ok c1" "lru_recent S c1" "lru_max c1 = lru_max ?c" by blast
  from get [OF c1(2-4)] obtain c2 where c2: "lru_get b c1 = (Some (bucket_state t b), c2)"
      "lru.agrees (bucket_state t) c2" "lru_ok c2" "lru_recent S c2" "lru_max c2 = lru_max c1" by blast
  have "loaded_state env t b p = (Inr (bucket_state t b), p\<lparr>ch_cache := c2\<rparr>)"
    using c1(1) c2(1) by (simp add: loaded_state_def preloadBucketStates_def cached_state_def bindS_def)
  moreover have "ch_rel t S M (p\<lparr>ch_cache := c2\<rparr>) buf"
    using assms(1) c1(5) c2(2-5) by (simp add: ch_rel_def)
  ultimately show ?thesis by blast
qed

lemma ch_rel_pending: "ch_rel t S M p buf \<Longrightarrow> map_of (ch_pending p) b = pending_of buf b"
  by (simp add: ch_rel_def pending_of_record)

lemma sim_sum:
  assumes "b \<in> S"
  shows "simS (ch_rel t S M) (getBucketSumAmount env t b) (readS (ref_sum t b))"
proof (rule simSI)
  fix p buf assume rel: "ch_rel t S M p buf"
  from loaded_state_cached [OF rel assms] obtain p'
    where p': "loaded_state env t b p = (Inr (bucket_state t b), p')" "ch_rel t S M p' buf" by blast
  have "getBucketSumAmount env t b p = (Inr (ref_sum t b buf), p')"
    using p'(1) ch_rel_pending [OF p'(2), of b] no_rows_of_bucket(1) [of b buf]
    by (cases "bucket_last b buf")
      (auto simp: getBucketSumAmount_def ref_sum_def bucket_state_eq pending_of_def)
  with p'(2) show "\<exists>s' t'. getBucketSumAmount env t b p = (fst (readS (ref_sum t b) buf), s') \<and>
      snd (readS (ref_sum t b) buf) = t' \<and> ch_rel t S M s' t'"
    by (simp add: readS_def)
qed

lemma sim_fix:
  assumes "b \<in> S"
  shows "simS (ch_rel t S M) (getFixBucketSumAmount env t b) (readS (ref_fix t b))"
proof (rule simSI)
  fix p buf assume rel: "ch_rel t S M p buf"
  from loaded_state_cached [OF rel assms] obtain p'
    where p': "loaded_state env t b p = (Inr (bucket_state t b), p')" "ch_rel t S M p' buf" by blast
  have "getFixBucketSumAmount env t b p = (Inr (ref_fix t b buf), p')"
    using p'(1) ch_rel_pending [OF p'(2), of b] no_rows_of_bucket(2,3) [of b buf]
    by (cases "bucket_last b buf")
      (auto simp: getFixBucketSumAmount_def ref_fix_def fix_by_counts [symmetric] bucket_state_eq pending_of_def)
  with p'(2) show "\<exists>s' t'. getFixBucketSumAmount env t b p = (fst (readS (ref_fix t b) buf), s') \<and>
      snd (readS (ref_fix t b) buf) = t' \<and> ch_rel t S M s' t'"
    by (simp add: readS_def)
qed

lemma sim_info:
  assumes "b \<in> S"
  shows "simS (ch_rel t S M) (getBucketInfoAddress env t b) (readS (ref_info t b))"
proof (rule simSI)
  fix p buf assume rel: "ch_rel t S M p buf"
  note pend = ch_rel_pending [OF rel, of b]
  have "\<exists>p'. getBucketInfoAddress env t b p = (Inr (ref_info t b buf), p') \<and> ch_rel t S M p' buf"
  proof (cases "bucket_last b buf")
    case (Some r)
    with pend rel show ?thesis by (simp add: getBucketInfoAddress_def ref_info_def pending_of_def)
  next
    case None
    from loaded_state_cached [OF rel assms] obtain p'
      where "loaded_state env t b p = (Inr (bucket_state t b), p')" "ch_rel t S M p' buf" by blast
    with None pend show ?thesis
      by (auto simp: getBucketInfoAddress_def ref_info_def pending_of_def bucket_state_eq)
  qed
  then show "\<exists>s' t'. getBucketInfoAddress env t b p = (fst (readS (ref_info t b) buf), s') \<and>
      snd (readS (ref_info t b) buf) = t' \<and> ch_rel t S M s' t'"
    by (auto simp: readS_def)
qed

lemma sim_append: "simS (ch_rel t S M) (updS (appendStakingActions rows)) (add_rows rows)"
  unfolding add_rows_def by (rule simS_updS) (simp add: ch_rel_def appendStakingActions_def)

lemma sim_skip: "simS (ch_rel t S M) (updS id) (updS id)"
  by (rule simS_updS) simp

lemmas sim_rules = simS_bindS sim_sum sim_fix sim_info sim_append simS_decodedS sim_skip

lemma sim_action:
  assumes "\<And>b. ch_bucket (e_action e) = Some b \<Longrightarrow> b \<in> S"
  shows "simS (ch_rel t S M) (ch_action env t h i e bucket) (ref_action env t h i e bucket)"
proof (cases "e_action e")
  case (CreateStake name amt dur auto)
  then show ?thesis
    by (cases bucket) (auto simp: ch_action_def ref_action_def ch_create_def Let_def intro!: sim_rules)
next
  case (CandidateRegister name oper rew own amt dur auto payload)
  then show ?thesis
    by (cases bucket) (auto simp: ch_action_def ref_action_def ch_register_def Let_def intro!: sim_rules)
next
  case (TransferStake b voter)
  then have "b \<in> S" using assms by (simp add: ch_bucket_def)
  with TransferStake show ?thesis
    by (auto simp: ch_action_def ref_action_def ch_transfer_def Let_def intro!: sim_rules)
next
  case (Restake b dur auto)
  then have "b \<in> S" using assms by (simp add: ch_bucket_def)
  with Restake show ?thesis
    by (auto simp: ch_action_def ref_action_def ch_restake_def Let_def intro!: sim_rules)
next
  case (ChangeCandidate b name)
  then have "b \<in> S" using assms by (simp add: ch_bucket_def)
  with ChangeCandidate show ?thesis
    by (auto simp: ch_action_def ref_action_def ch_change_candidate_def Let_def intro!: sim_rules)
next
  case (DepositToStake b amt)
  then have "b \<in> S" using assms by (simp add: ch_bucket_def)
  with DepositToStake show ?thesis
    by (auto simp: ch_action_def ref_action_def ch_deposit_def Let_def intro!: sim_rules)
next
  case (Unstake b)
  then have "b \<in> S" using assms by (simp add: ch_bucket_def)
  with Unstake show ?thesis
    by (auto simp: ch_action_def ref_action_def ch_unstake_def Let_def intro!: sim_rules)
qed (simp_all add: ch_action_def ref_action_def Let_def sim_skip)

text \<open>The loop over the receipts, for any two actions that go side by side.\<close>

lemma sim_block:
  assumes "\<And>e h i bucket. e \<in> set (b_actions blk) \<Longrightarrow> simS R (act h i e bucket) (act' h i e bucket)"
  shows "simS R (ch_block_of abi act blk) (ch_block_of abi act' blk)"
proof -
  let ?R = "\<lambda>(bm, s) (bm', t). bm = bm' \<and> R s t"
  have loop: "simS ?R (eachS (ch_receipt abi (act (b_height blk)) blk) irs)
      (eachS (ch_receipt abi (act' (b_height blk)) blk) irs)" for irs
  proof (rule simS_eachS)
    fix ir :: "nat \<times> receipt"
    obtain i r where ir: "ir = (i, r)" by (cases ir)
    show "simS ?R (ch_receipt abi (act (b_height blk)) blk ir) (ch_receipt abi (act' (b_height blk)) blk ir)"
    proof (cases "actions_by_hash (b_actions blk) (r_action_hash r)")
      case None
      then show ?thesis by (auto simp: simS_def ir ch_receipt_def)
    next
      case (Some e)
      have "e \<in> set (b_actions blk)" using actions_by_hash_SomeD [OF Some] by simp
      from assms [OF this] have "simS R (act (b_height blk) i e bu) (act' (b_height blk) i e bu)" for bu .
      note act = this
      show ?thesis
      proof (rule simSI, clarify)
        fix bm p buf assume rel: "R p buf"
        obtain x p' where m: "act (b_height blk) i e ((case BucketIndex abi (r_logs r) of None \<Rightarrow> bm
            | Some b \<Rightarrow> bm(hex_encode (e_hash e) \<mapsto> b)) (hex_encode (e_hash e))) p = (x, p')" by fastforce
        obtain y buf' where m': "act' (b_height blk) i e ((case BucketIndex abi (r_logs r) of None \<Rightarrow> bm
            | Some b \<Rightarrow> bm(hex_encode (e_hash e) \<mapsto> b)) (hex_encode (e_hash e))) buf = (y, buf')" by fastforce
        from simSD [OF act rel m m'] Some m m' rel
        show "\<exists>s' t'. ch_receipt abi (act (b_height blk)) blk ir (bm, p) =
              (fst (ch_receipt abi (act' (b_height blk)) blk ir (bm, buf)), s') \<and>
            snd (ch_receipt abi (act' (b_height blk)) blk ir (bm, buf)) = t' \<and> ?R s' t'"
          by (simp add: ir ch_receipt_def Let_def)
      qed
    qed
  qed
  show ?thesis
    unfolding simS_def
  proof (intro allI impI)
    fix s t assume "R s t"
    then have start: "?R (Map.empty, s) (Map.empty, t)" by simp
    let ?irs = "List.enumerate 0 (b_receipts blk)"
    obtain x bm s' where m: "eachS (ch_receipt abi (act (b_height blk)) blk) ?irs (Map.empty, s) = (x, bm, s')"
      by (metis prod_cases3)
    obtain y bm' t' where m': "eachS (ch_receipt abi (act' (b_height blk)) blk) ?irs (Map.empty, t) = (y, bm', t')"
      by (metis prod_cases3)
    from simSD [OF loop start m m'] m m'
    show "fst (ch_block_of abi act blk s) = fst (ch_block_of abi act' blk t) \<and>
        R (snd (ch_block_of abi act blk s)) (snd (ch_block_of abi act' blk t))"
      by (simp add: ch_block_of_def)
  qed
qed

lemma collect_bucket_set: "set (collect_bucket e ids) = set ids \<union> set_option (ch_bucket (e_action e))"
  by (auto simp: collect_bucket_def split: option.splits)

lemma collectBucketIDs_set:
  "set (collectBucketIDs blks) = (\<Union>blk \<in> set blks. \<Union>e \<in> set (b_actions blk). set_option (ch_bucket (e_action e)))"
proof -
  have acts: "set (fold collect_bucket acts ids) = set ids \<union> (\<Union>e \<in> set acts. set_option (ch_bucket (e_action e)))"
    for acts ids by (induction acts arbitrary: ids) (auto simp: collect_bucket_set)
  have "set (fold (\<lambda>blk. fold collect_bucket (b_actions blk)) blks ids) =
      set ids \<union> (\<Union>blk \<in> set blks. \<Union>e \<in> set (b_actions blk). set_option (ch_bucket (e_action e)))" for ids
    by (induction blks arbitrary: ids) (auto simp: acts)
  then show ?thesis by (simp add: collectBucketIDs_def)
qed

lemma sim_blocks:
  "simS (ch_rel t (set (collectBucketIDs blks)) M) (eachS (ch_putBlock env t) blks) (ref_blocks env t blks)"
  unfolding ref_blocks_def
proof (rule simS_eachS)
  fix blk assume blk: "blk \<in> set blks"
  show "simS (ch_rel t (set (collectBucketIDs blks)) M) (ch_putBlock env t blk)
      (ch_block_of (che_abi env) (ref_action env t) blk)"
    unfolding ch_putBlock_def
    by (rule sim_block, rule sim_action) (use blk in \<open>force simp: collectBucketIDs_set\<close>)
qed

subsection \<open>Loading the buckets of a batch\<close>

lemma missing_buckets_loads:
  assumes "missing_buckets ids seen c = (ms, c')" and "lru.agrees f c" and "lru_ok c" and "lru_recent S c"
  shows "lru.agrees f c' \<and> lru_ok c' \<and> lru_max c' = lru_max c \<and>
    (\<exists>hits. set ids \<subseteq> set ms \<union> hits \<union> set seen \<and> set ms \<union> hits \<subseteq> set ids \<and> lru_recent (hits \<union> S) c')"
  using assms
proof (induction ids arbitrary: seen c ms S)
  case Nil
  then show ?case by auto
next
  case (Cons b bs)
  show ?case
  proof (cases "b \<in> set seen")
    case True
    with Cons.prems(1) have "missing_buckets bs seen c = (ms, c')" by simp
    from Cons.IH [OF this Cons.prems(2-4)] obtain hits where "lru.agrees f c'" "lru_ok c'" "lru_max c' = lru_max c"
        "set bs \<subseteq> set ms \<union> hits \<union> set seen" "set ms \<union> hits \<subseteq> set bs" "lru_recent (hits \<union> S) c'" by auto
    then show ?thesis using True by (intro conjI exI [of _ hits]) auto
  next
    case False
    note prems = Cons.prems(2-4)
    show ?thesis
    proof (cases "lru_lookup c b")
      case None
      then have "lru_get b c = (None, c)" by (auto simp: lru_get_def lru_lookup_def)
      with Cons.prems(1) False obtain ms' where ms': "missing_buckets bs (b # seen) c = (ms', c')" "ms = b # ms'"
        by (auto split: prod.splits)
      from Cons.IH [OF ms'(1) prems] obtain hits where "lru.agrees f c'" "lru_ok c'" "lru_max c' = lru_max c"
          "set bs \<subseteq> set ms' \<union> hits \<union> set (b # seen)" "set ms' \<union> hits \<subseteq> set bs" "lru_recent (hits \<union> S) c'"
        by auto
      then show ?thesis using ms'(2) by (intro conjI exI [of _ hits]) auto
    next
      case (Some v)
      then obtain c1 where c1: "lru_get b c = (Some v, c1)"
        using lru.get_result [of b c] by (cases "lru_get b c") auto
      with Cons.prems(1) False have rest: "missing_buckets bs (b # seen) c1 = (ms, c')" by simp
      have "lru.agrees f c1" "lru_ok c1" "lru_recent (insert b S) c1" "lru_max c1 = lru_max c"
        using lru.agrees_get [OF prems(1), of b] lru.get_ok [OF prems(2), of b]
          lru.get_used [OF prems(3), of b] lru.get_room [of b c] c1 Some by auto
      with Cons.IH [OF rest this(1-3)] obtain hits where "lru.agrees f c'" "lru_ok c'" "lru_max c' = lru_max c"
          "set bs \<subseteq> set ms \<union> hits \<union> set (b # seen)" "set ms \<union> hits \<subseteq> set bs" "lru_recent (hits \<union> insert b S) c'"
        by auto
      then show ?thesis by (intro conjI exI [of _ "insert b hits"]) auto
    qed
  qed
qed

lemma preload_loads:
  assumes "lru.agrees (bucket_state t) (ch_cache p)" and "lru_ok (ch_cache p)"
    and "ch_buffer p = []" and "ch_pending p = []" and "\<And>ids. che_query_ok env ids"
    and "card (set ids) \<le> lru_max (ch_cache p)"
  shows "\<exists>p'. preloadBucketStates env t ids p = (Inr (), p') \<and> ch_rel t (set ids) (lru_max (ch_cache p)) p' []"
proof (cases "ids = []")
  case True
  with assms show ?thesis by (simp add: preloadBucketStates_def ch_rel_def)
next
  case False
  obtain ms c where mc: "missing_buckets ids [] (ch_cache p) = (ms, c)" by fastforce
  from missing_buckets_loads [OF this assms(1,2) lru.used_empty] obtain hits
    where c: "lru.agrees (bucket_state t) c" "lru_ok c" "lru_max c = lru_max (ch_cache p)"
      "set ids = set ms \<union> hits" "lru_recent hits c" by (auto simp: set_eq_subset)
  have fin: "finite hits" using c(4) by (metis List.finite_set finite_Un)
  have fits: "card (set ms \<union> hits) \<le> lru_max c" using assms(6) c(3,4) by simp
  from lru.put_all [OF c(2,1,5) fin fits]
  have "preloadBucketStates env t ids p = (Inr (), p\<lparr>ch_cache := fold (\<lambda>b. lru_set b (bucket_state t b)) ms c\<rparr>)"
    using False mc assms(5) by (cases "ms = []") (simp_all add: preloadBucketStates_def)
  with lru.put_all [OF c(2,1,5) fin fits] c(3,4) assms(3,4) show ?thesis by (simp add: ch_rel_def)
qed

subsection \<open>Applying what is pending\<close>

lemma apply_pending_all:
  assumes "lru.agrees f c" and "lru_ok c" and "lru_recent S c" and "finite S"
    and "card (S \<union> set bs) \<le> lru_max c" and "distinct bs"
    and "\<And>b. b \<in> set bs \<Longrightarrow> b \<in> S \<or> f b = no_state"
  shows "lru.agrees (\<lambda>b. if b \<in> set bs then applied_state (f b) (the (map_of ps b)) else f b)
      (fold (apply_pending ps) bs c) \<and>
    lru_ok (fold (apply_pending ps) bs c) \<and> lru_max (fold (apply_pending ps) bs c) = lru_max c"
  using assms
proof (induction bs arbitrary: f c S)
  case Nil
  then show ?case by simp
next
  case (Cons b bs)
  let ?v = "applied_state (f b) (the (map_of ps b))"
  obtain s c1 where g: "lru_get b c = (s, c1)" by fastforce
  have s: "(case s of None \<Rightarrow> no_state | Some s \<Rightarrow> s) = f b"
  proof (cases "lru_lookup c b")
    case None
    then have "b \<notin> S" using lru.used_cached [OF Cons.prems(3)] by auto
    then have "f b = no_state" using Cons.prems(7) by auto
    with None g lru.get_result [of b c] show ?thesis by simp
  next
    case (Some v)
    with lru.agreesD [OF Cons.prems(1)] g lru.get_result [of b c] show ?thesis by auto
  qed
  have step: "apply_pending ps b c = lru_set b ?v c1" using g s by (simp add: apply_pending_def)
  have c1: "lru.agrees f c1" "lru_ok c1" "lru_max c1 = lru_max c"
    using lru.agrees_get [OF Cons.prems(1), of b] lru.get_ok [OF Cons.prems(2), of b] lru.get_room [of b c] g
    by simp_all
  have "card (insert b S) \<le> card (S \<union> set (b # bs))" using Cons.prems(4) by (intro card_mono) auto
  then have fits: "card (insert b S) \<le> lru_max c1" using Cons.prems(5) c1(3) by simp
  have "0 < card (insert b S)" using Cons.prems(4) by (simp add: card_gt_0_iff)
  then have room: "0 < lru_max c1" using fits by simp
  have "lru_recent S c1 \<or> lru_recent (insert b S) c1"
  proof (cases "lru_lookup c b")
    case None
    then have "lru_get b c = (None, c)" by (auto simp: lru_get_def lru_lookup_def)
    with g Cons.prems(3) show ?thesis by simp
  next
    case (Some v)
    with lru.get_used [OF Cons.prems(3), of b] g show ?thesis by auto
  qed
  then have used: "lru_recent (insert b S) (lru_set b ?v c1)"
    using lru.put_used [OF c1(2), of S b] lru.put_used [OF c1(2), of "insert b S" b] fits by auto
  let ?f = "f(b := ?v)"
  have rest: "lru.agrees ?f (lru_set b ?v c1)" "lru_ok (lru_set b ?v c1)" "lru_max (lru_set b ?v c1) = lru_max c"
    using lru.agrees_upd [OF c1(1) room] lru.put_ok [OF c1(2)] c1(3) by (simp_all add: lru.put_room)
  have "b \<notin> set bs" using Cons.prems(6) by simp
  then have f: "(\<lambda>x. if x \<in> set bs then applied_state (?f x) (the (map_of ps x)) else ?f x) =
      (\<lambda>x. if x \<in> set (b # bs) then applied_state (f x) (the (map_of ps x)) else f x)"
    by (auto simp: fun_eq_iff)
  have "insert b S \<union> set bs = S \<union> set (b # bs)" by auto
  then have room_rest: "card (insert b S \<union> set bs) \<le> lru_max (lru_set b ?v c1)"
    using Cons.prems(5) rest(3) by simp
  have "\<And>x. x \<in> set bs \<Longrightarrow> x \<in> insert b S \<or> ?f x = no_state"
    using Cons.prems(7) \<open>b \<notin> set bs\<close> by auto
  from Cons.IH [OF rest(1,2) used _ room_rest _ this] Cons.prems(4,6) f rest(3) step show ?case by simp
qed

subsection \<open>The rows of a batch come in order\<close>

definition appends :: "(ch_row \<Rightarrow> bool) \<Rightarrow> (ch_row list \<Rightarrow> 'a res \<times> ch_row list) \<Rightarrow> bool" where
  "appends P m \<longleftrightarrow> (\<forall>buf. \<exists>new. snd (m buf) = buf @ new \<and> (\<forall>r \<in> set new. P r))"

lemma appendsD: "appends P m \<Longrightarrow> m buf = (x, buf') \<Longrightarrow> \<exists>new. buf' = buf @ new \<and> (\<forall>r \<in> set new. P r)"
  unfolding appends_def by (metis snd_conv)

lemma appends_rules:
  "appends P (readS f)" "appends P (decodedS x)" "appends P (updS id)"
  "(\<forall>r \<in> set rows. P r) \<Longrightarrow> appends P (add_rows rows)"
  by (auto simp: appends_def readS_def decodedS_def updS_def add_rows_def)

lemma ch_appends_bindS:
  assumes "appends P m" and "\<And>x. appends P (f x)"
  shows "appends P (bindS m f)"
  unfolding appends_def
proof
  fix buf
  obtain x buf1 where m: "m buf = (x, buf1)" by fastforce
  from appendsD [OF assms(1) m] obtain new where new: "buf1 = buf @ new" "\<forall>r \<in> set new. P r" by blast
  show "\<exists>new. snd (bindS m f buf) = buf @ new \<and> (\<forall>r \<in> set new. P r)"
  proof (cases x)
    case (Inl e)
    with m new show ?thesis by simp
  next
    case (Inr y)
    obtain z buf2 where f: "f y buf1 = (z, buf2)" by fastforce
    from appendsD [OF assms(2) f] obtain new2 where "buf2 = buf1 @ new2" "\<forall>r \<in> set new2. P r" by blast
    with m Inr f new show ?thesis by (intro exI [of _ "new @ new2"]) auto
  qed
qed

lemma ch_new_row_at [simp]:
  "lr_height (ch_new_row h i e b info act amt) = h" "ch_index (ch_new_row h i e b info act amt) = i"
  by (simp_all add: ch_new_row_def)

lemma ref_action_appends:
  "appends (\<lambda>r. lr_height r = h \<and> ch_index r = i) (ref_action env t h i e bucket)"
  by (cases "e_action e"; cases bucket)
    (auto simp: ref_action_def Let_def intro!: ch_appends_bindS appends_rules)

lemma in_order_one_receipt:
  "(\<forall>r \<in> set rows. lr_height r = h \<and> ch_index r = i) \<Longrightarrow> in_order rows"
  by (induction rows) (auto simp: in_order_def tuple_less_def)

lemma ref_receipts_in_order:
  assumes "eachS (ch_receipt abi (ref_action env t h) blk) (List.enumerate n rs) (bm, buf) = (x, bm', buf')"
  shows "\<exists>new. buf' = buf @ new \<and> in_order new \<and> (\<forall>r \<in> set new. lr_height r = h \<and> n \<le> ch_index r)"
  using assms
proof (induction rs arbitrary: n bm buf)
  case Nil
  then show ?case by (simp add: in_order_def)
next
  case (Cons r rs)
  obtain y bm1 buf1 where one: "ch_receipt abi (ref_action env t h) blk (n, r) (bm, buf) = (y, bm1, buf1)"
    by (metis prod_cases3)
  have "\<exists>new. buf1 = buf @ new \<and> (\<forall>q \<in> set new. lr_height q = h \<and> ch_index q = n)"
  proof (cases "actions_by_hash (b_actions blk) (r_action_hash r)")
    case None
    with one show ?thesis by (auto simp: ch_receipt_def split: if_splits)
  next
    case (Some e)
    with one show ?thesis using appendsD [OF ref_action_appends]
      by (fastforce simp: ch_receipt_def Let_def split: if_splits prod.splits)
  qed
  then obtain new1 where new1: "buf1 = buf @ new1" "\<forall>q \<in> set new1. lr_height q = h \<and> ch_index q = n" by blast
  note o1 = in_order_one_receipt [OF new1(2)]
  show ?case
  proof (cases y)
    case (Inl e)
    with one Cons.prems new1 o1 show ?thesis by auto
  next
    case (Inr u)
    with one Cons.prems have "eachS (ch_receipt abi (ref_action env t h) blk) (List.enumerate (Suc n) rs) (bm1, buf1) =
        (x, bm', buf')" by simp
    from Cons.IH [OF this] obtain new2 where new2: "buf' = buf1 @ new2" "in_order new2"
        "\<forall>q \<in> set new2. lr_height q = h \<and> Suc n \<le> ch_index q" by blast
    then have "in_order (new1 @ new2)" using o1 new1(2) by (auto simp: in_order_append tuple_less_def)
    with new1 new2 show ?thesis by (intro exI [of _ "new1 @ new2"]) auto
  qed
qed

definition ascending :: "block list \<Rightarrow> bool" where
  "ascending = sorted_wrt (\<lambda>b c. b_height b < b_height c)"

lemma ref_blocks_in_order:
  assumes "ref_blocks env t blks buf = (x, buf')" and "ascending blks"
  shows "\<exists>new. buf' = buf @ new \<and> in_order new \<and> (\<forall>r \<in> set new. \<exists>b \<in> set blks. lr_height r = b_height b)"
  using assms
proof (induction blks arbitrary: buf)
  case Nil
  then show ?case by (simp add: ref_blocks_def in_order_def)
next
  case (Cons blk blks)
  obtain y buf1 where one: "ch_block_of (che_abi env) (ref_action env t) blk buf = (y, buf1)" by fastforce
  then obtain bm where "eachS (ch_receipt (che_abi env) (ref_action env t (b_height blk)) blk)
      (List.enumerate 0 (b_receipts blk)) (Map.empty, buf) = (y, bm, buf1)"
    by (auto simp: ch_block_of_def split: prod.splits)
  from ref_receipts_in_order [OF this] obtain new1 where new1: "buf1 = buf @ new1" "in_order new1"
      "\<forall>r \<in> set new1. lr_height r = b_height blk" by blast
  show ?case
  proof (cases y)
    case (Inl e)
    with one Cons.prems(1) new1 show ?thesis by (auto simp: ref_blocks_def)
  next
    case (Inr u)
    with one Cons.prems(1) have "ref_blocks env t blks buf1 = (x, buf')" by (simp add: ref_blocks_def)
    from Cons.IH [OF this] Cons.prems(2) obtain new2 where new2: "buf' = buf1 @ new2" "in_order new2"
        "\<forall>r \<in> set new2. \<exists>b \<in> set blks. lr_height r = b_height b" by (auto simp: ascending_def)
    have "\<forall>b \<in> set blks. b_height blk < b_height b" using Cons.prems(2) by (simp add: ascending_def)
    with new1 new2 have "in_order (new1 @ new2)" by (fastforce simp: in_order_append tuple_less_def)
    with new1 new2 show ?thesis by (intro exI [of _ "new1 @ new2"]) auto
  qed
qed

subsection \<open>Between two batches\<close>

text \<open>The plugin between two batches, and blocks that follow the table.\<close>

definition ch_ready :: "ch_plugin \<Rightarrow> ch_row list \<Rightarrow> bool" where
  "ch_ready p t \<longleftrightarrow> ch_buffer p = [] \<and> ch_pending p = [] \<and> lru_ok (ch_cache p) \<and>
     lru.agrees (bucket_state t) (ch_cache p)"

definition follows :: "block list \<Rightarrow> ch_row list \<Rightarrow> bool" where
  "follows blks t \<longleftrightarrow> in_order t \<and> ascending blks \<and> (\<forall>r \<in> set t. \<forall>b \<in> set blks. lr_height r < b_height b)"

definition any_range :: "ch_env \<Rightarrow> bool" where
  "any_range env \<longleftrightarrow> (\<forall>ks. distinct ks \<longrightarrow> distinct (che_range env ks) \<and> set (che_range env ks) = set ks)"

text \<open>
  The buckets in use fit into the cache, and a bucket whose rows are new was loaded or had none.
\<close>

definition fits :: "block list \<Rightarrow> ch_row list \<Rightarrow> ch_row list \<Rightarrow> ch_plugin \<Rightarrow> bool" where
  "fits blks t new p \<longleftrightarrow>
     card (set (collectBucketIDs blks) \<union> lr_bucket ` set new) \<le> lru_max (ch_cache p) \<and>
     (\<forall>r \<in> set new. lr_bucket r \<in> set (collectBucketIDs blks) \<or> lr_bucket r \<notin> lr_bucket ` set t)"

lemma pending_keys:
  "set (map fst (fold record_pending buf [])) = lr_bucket ` set buf \<and> distinct (map fst (fold record_pending buf []))"
proof (induction buf rule: rev_induct)
  case Nil
  then show ?case by simp
next
  case (snoc r buf)
  have "map fst (record_pending r ps) = (if lr_bucket r \<in> set (map fst ps) then map fst ps
      else map fst ps @ [lr_bucket r])" for ps
    by (simp add: record_pending_def Let_def update_keys)
  with snoc show ?case by auto
qed

lemma applied_ready:
  assumes "ch_rel t (set (collectBucketIDs blks)) M p new" and "in_order (t @ new)" and "any_range env"
    and "fits blks t new p"
  shows "ch_ready (ch_clear (applyPendingBucketStates env p)) (t @ new)"
proof -
  let ?ks = "map fst (ch_pending p)" and ?S = "set (collectBucketIDs blks)"
  let ?bs = "che_range env ?ks"
  have rel: "ch_pending p = fold record_pending new []" "lru.agrees (bucket_state t) (ch_cache p)"
      "lru_ok (ch_cache p)" "lru_recent ?S (ch_cache p)"
    using assms(1) by (simp_all add: ch_rel_def)
  have ks: "set ?ks = lr_bucket ` set new" "distinct ?ks" using pending_keys [of new] rel(1) by simp_all
  have bs: "distinct ?bs" "set ?bs = lr_bucket ` set new"
    using assms(3) ks by (simp_all add: any_range_def)
  have room: "card (?S \<union> set ?bs) \<le> lru_max (ch_cache p)"
    and fresh: "b \<in> ?S \<or> b \<notin> lr_bucket ` set t" if "b \<in> set ?bs" for b
    using assms(4) bs(2) that by (auto simp: fits_def)
  have room: "card (?S \<union> set ?bs) \<le> lru_max (ch_cache p)" using assms(4) bs(2) by (simp add: fits_def)
  have none: "bucket_state t b = no_state" if "b \<notin> lr_bucket ` set t" for b
    using that by (force simp: bucket_state_def bucket_state_row_def)
  have "b \<in> ?S \<or> bucket_state t b = no_state" if "b \<in> set ?bs" for b
    using fresh [OF that] none by blast
  note all = apply_pending_all [OF rel(2-4) _ room bs(1) this, of "ch_pending p"]
  have "(if b \<in> set ?bs then applied_state (bucket_state t b) (the (map_of (ch_pending p) b)) else bucket_state t b)
      = bucket_state (t @ new) b" for b
  proof (cases "pending_of new b")
    case None
    then have "b \<notin> set ?bs" using bs(2) no_rows_of_bucket(5) [of b new] by (auto simp: pending_of_def)
    with nothing_pending [OF assms(2) None] show ?thesis by simp
  next
    case (Some d)
    then have "b \<in> set ?bs" using bs(2) by (auto simp: pending_of_def dest: bucket_last_SomeD)
    moreover have "map_of (ch_pending p) b = Some d" using Some rel(1) by (simp add: pending_of_record)
    ultimately show ?thesis using applied_pending [OF assms(2) Some] by simp
  qed
  with all show ?thesis by (simp add: ch_ready_def ch_clear_def applyPendingBucketStates_def)
qed

lemma sim_batch:
  assumes "ch_ready p t" and "\<And>ids. che_query_ok env ids" and "fits blks t new p"
    and "ref_blocks env t blks [] = (x, new)"
  obtains p' where "bindS (preloadBucketStates env t (collectBucketIDs blks)) (\<lambda>_. eachS (ch_putBlock env t) blks) p
      = (x, p')" and "ch_rel t (set (collectBucketIDs blks)) (lru_max (ch_cache p)) p' new"
proof -
  let ?S = "set (collectBucketIDs blks)"
  have "card ?S \<le> card (?S \<union> lr_bucket ` set new)" by (intro card_mono) auto
  with assms(3) have "card ?S \<le> lru_max (ch_cache p)" by (simp add: fits_def)
  with preload_loads [of t p env "collectBucketIDs blks"] assms(1,2) obtain p1
    where p1: "preloadBucketStates env t (collectBucketIDs blks) p = (Inr (), p1)"
      "ch_rel t ?S (lru_max (ch_cache p)) p1 []" by (auto simp: ch_ready_def)
  obtain y p2 where p2: "eachS (ch_putBlock env t) blks p1 = (y, p2)" by fastforce
  from simSD [OF sim_blocks p1(2) p2 assms(4)] p1(1) p2 that show ?thesis by simp
qed

end
