(* ===== verification/StakingActionsChTwin.thy ===== *)
theory StakingActionsChTwin
  imports StakingActionsChProps
begin

text \<open>
  The ledger of staking_actions_ch beside that of staking_actions, its cache beside none, and what
  becomes of it where the cache is too small, a batch fails, or batches are cut differently.
\<close>

subsection \<open>The twin in the other database\<close>

text \<open>What a row says beside owner, candidate and lock, and the rows both plugins write.\<close>

definition movement :: "('x sa_row_scheme) \<Rightarrow> u64 \<times> u64 \<times> int \<times> string \<times> string \<times> string" where
  "movement r = (lr_height r, lr_bucket r, lr_amount r, lr_act_type r, sa_sender r, sa_act_hash r)"

definition ch_types :: "string set" where
  "ch_types = {''StakeCreate'', ''TransferStake'', ''Restake'', ''ChangeCandidate'', ''DepositToStake'',
     ''Unstake'', ''CandidateRegister''}"

definition both_write :: "('x ledger_row_scheme) \<Rightarrow> bool" where
  "both_write r \<longleftrightarrow> lr_act_type r \<in> ch_types"

definition same_movements :: "sa_tables \<Rightarrow> ch_row list \<Rightarrow> bool" where
  "same_movements T rows \<longleftrightarrow> map movement (filter both_write (sa_rows T)) = map movement rows \<and>
     (\<forall>r \<in> set (sa_rows T). \<not> both_write r \<longrightarrow> lr_amount r = 0)"

text \<open>One configuration of the two plugins, in which nothing is slashed.\<close>

definition twins :: "sa_env \<Rightarrow> ch_env \<Rightarrow> bool" where
  "twins senv env \<longleftrightarrow> \<not> sae_shadow senv \<and> sae_slashes senv = [] \<and> sae_abi senv = che_abi env \<and>
     sae_candidates senv = che_candidates env \<and> sae_greenland senv = che_greenland env"

lemma sum_of_movements:
  "map movement xs = map movement ys \<Longrightarrow> bucket_sum b xs = bucket_sum b ys"
  "map movement xs = map movement ys \<Longrightarrow> fix_sum b xs = fix_sum b ys"
proof -
  assume eq: "map movement xs = map movement ys"
  have "list_all2 (\<lambda>x y. movement x = movement y) xs ys"
    using eq by (simp add: list_all2_conv_all_nth) (metis length_map nth_map)
  then have "bucket_sum b xs = bucket_sum b ys \<and>
      sum_rows (\<lambda>r. lr_bucket r = b \<and> lr_act_type r \<noteq> ''Unstake'') lr_amount xs =
      sum_rows (\<lambda>r. lr_bucket r = b \<and> lr_act_type r \<noteq> ''Unstake'') lr_amount ys \<and>
      (\<exists>r \<in> set xs. lr_bucket r = b \<and> lr_act_type r = ''Unstake'') =
      (\<exists>r \<in> set ys. lr_bucket r = b \<and> lr_act_type r = ''Unstake'')"
    by (induction rule: list_all2_induct) (auto simp: movement_def)
  then show "bucket_sum b xs = bucket_sum b ys" "fix_sum b xs = fix_sum b ys"
    unfolding fix_sum_def by (simp_all only: if_cancel)
qed

lemma sum_of_both:
  "(\<And>r. r \<in> set rows \<Longrightarrow> \<not> both_write r \<Longrightarrow> lr_amount r = 0) \<Longrightarrow> bucket_sum b rows = bucket_sum b (filter both_write rows)"
  by (induction rows) auto

lemma fix_of_both:
  assumes "\<And>r. r \<in> set rows \<Longrightarrow> \<not> both_write r \<Longrightarrow> lr_amount r = 0"
  shows "fix_sum b rows = fix_sum b (filter both_write rows)"
proof -
  have "sum_rows (\<lambda>r. lr_bucket r = b \<and> lr_act_type r \<noteq> ''Unstake'') lr_amount rows =
      sum_rows (\<lambda>r. lr_bucket r = b \<and> lr_act_type r \<noteq> ''Unstake'') lr_amount (filter both_write rows)"
    using assms by (induction rows) auto
  moreover have "(\<exists>r \<in> set rows. lr_bucket r = b \<and> lr_act_type r = ''Unstake'') =
      (\<exists>r \<in> set (filter both_write rows). lr_bucket r = b \<and> lr_act_type r = ''Unstake'')"
    by (auto simp: both_write_def ch_types_def)
  ultimately show ?thesis unfolding fix_sum_def by (simp only: if_cancel)
qed

lemma same_sums:
  assumes "same_movements T (t @ buf)"
  shows "bucket_sum b (sa_rows T) = ref_sum t b buf" and "fix_sum b (sa_rows T) = ref_fix t b buf"
  using assms sum_of_both [of "sa_rows T" b] fix_of_both [of "sa_rows T" b] sum_of_movements
  unfolding same_movements_def ref_sum_def ref_fix_def by metis+

lemma same_movements_insert:
  assumes "same_movements T rows" and "movement r = movement q" and "both_write r"
  shows "same_movements (sa_insert r T) (rows @ [q])"
  using assms by (simp add: same_movements_def sa_insert_def)

lemma same_movements_other:
  assumes "same_movements T rows" and "\<not> both_write r" and "lr_amount r = 0"
  shows "same_movements (sa_insert r T) rows"
  using assms by (simp add: same_movements_def sa_insert_def)

lemma same_movements_queue: "same_movements (T\<lparr>sa_exit_queue := q\<rparr>) rows = same_movements T rows"
  by (simp add: same_movements_def)

lemma sa_exit_step_other:
  assumes "sa_exit_step h e act ident c at T = Inr T'" and "same_movements T rows" and "act \<notin> ch_types"
  shows "same_movements T' rows"
proof -
  have "same_movements (sa_insert (sa_candidate_row h e (cr_owner c) ident act) T) rows"
    by (rule same_movements_other) (use assms(2,3) in \<open>simp_all add: both_write_def sa_candidate_row_def\<close>)
  with assms(1) show ?thesis
    by (auto simp: sa_exit_step_def Let_def bindE_eq_Inr same_movements_queue)
qed

lemmas twin_rows = movement_def sa_row_of_def sa_new_row_def ch_new_row_def both_write_def ch_types_def

lemma twin_insert:
  "same_movements T (t @ buf) \<Longrightarrow> movement r = movement q \<Longrightarrow> both_write r \<Longrightarrow>
   same_movements (sa_insert r T) (t @ buf @ [q])"
  using same_movements_insert [of T "t @ buf" r q] by simp

lemma twin_insert2:
  "same_movements T (t @ buf) \<Longrightarrow> movement r = movement q \<Longrightarrow> both_write r \<Longrightarrow>
   movement r' = movement q' \<Longrightarrow> both_write r' \<Longrightarrow>
   same_movements (sa_insert r' (sa_insert r T)) (t @ buf @ [q, q'])"
  using twin_insert [of "sa_insert r T" t "buf @ [q]" r' q'] twin_insert [of T t buf r q] by simp

lemma twin_action:
  assumes tw: "twins senv env" and same: "same_movements T (t @ buf)"
    and sa: "sa_action senv h e logs bucket T = Inr T'"
    and ch: "ref_action env t h i e bucket buf = (Inr (), buf')"
  shows "same_movements T' (t @ buf')"
proof (cases "e_action e")
  case (CreateStake name amt dur auto)
  with sa ch obtain b cand where "bucket = Some b" and
      "T' = sa_insert (sa_new_row h e b (e_sender e) cand ''StakeCreate'' amt auto dur) T"
    by (cases bucket) (auto simp: sa_action_def sa_create_def bindE_eq_Inr)
  with CreateStake ch show ?thesis
    by (auto simp: ref_action_def add_rows_def updS_def twin_rows split: sum.splits intro!: twin_insert [OF same])
next
  case (TransferStake b voter)
  with sa ch tw show ?thesis
    by (auto simp: sa_action_def sa_transfer_def ref_action_def Let_def add_rows_def updS_def readS_def bindS_def
        sa_insert_base_def twins_def same_sums [OF same] twin_rows intro!: twin_insert2 [OF same])
next
  case (Restake b dur auto)
  with sa ch tw show ?thesis
    by (auto simp: sa_action_def sa_restake_def ref_action_def Let_def add_rows_def updS_def readS_def bindS_def
        decodedS_def twins_def same_sums [OF same] twin_rows split: if_splits intro!: twin_insert [OF same])
next
  case (ChangeCandidate b name)
  with sa ch tw show ?thesis
    by (auto simp: sa_action_def sa_change_candidate_def ref_action_def Let_def add_rows_def updS_def readS_def
        bindS_def decodedS_def bindE_eq_Inr twins_def same_sums [OF same] twin_rows split: sum.splits
        intro!: twin_insert2 [OF same])
next
  case (DepositToStake b amt)
  with sa ch show ?thesis
    by (auto simp: sa_action_def sa_deposit_def ref_action_def Let_def add_rows_def updS_def readS_def bindS_def
        twin_rows intro!: twin_insert [OF same])
next
  case (Unstake b)
  with sa ch show ?thesis
    by (auto simp: sa_action_def sa_unstake_def ref_action_def Let_def add_rows_def updS_def readS_def bindS_def
        same_sums [OF same] twin_rows intro!: twin_insert [OF same])
next
  case (CandidateRegister name oper rew own amt dur auto payload)
  with sa ch same show ?thesis
    by (cases bucket) (auto simp: sa_action_def sa_register_def ref_action_def Let_def add_rows_def updS_def
        decodedS_def twin_rows split: if_splits intro!: twin_insert [OF same])
next
  case (GrantReward ty)
  with sa ch tw same show ?thesis
    by (auto simp: sa_action_def sa_grant_def ref_action_def updS_def twins_def FetchSlashByActionHash_def
        split: if_splits)
next
  case (CandidateEndorsement b opr)
  with sa ch same show ?thesis
    by (auto simp: sa_action_def sa_endorsement_def ref_action_def updS_def bindE_eq_Inr ch_types_def
        split: option.splits dest!: sa_exit_step_other [OF _ same])
next
  case (CandidateDeactivate is_confirm)
  with sa ch same show ?thesis
    by (cases is_confirm) (auto simp: sa_action_def sa_deactivate_def ref_action_def updS_def bindE_eq_Inr
        ch_types_def dest!: sa_exit_step_other [OF _ same])
next
  case (ScheduleCandidateDeactivation d)
  with sa ch same show ?thesis
    by (auto simp: sa_action_def sa_schedule_def ref_action_def updS_def bindE_eq_Inr ch_types_def
        dest!: sa_exit_step_other [OF _ same])
next
  case SetVoterRewardOptIn
  with sa ch same show ?thesis
    by (auto simp: sa_action_def sa_opt_in_def ref_action_def updS_def bindE_eq_Inr
        intro!: same_movements_other simp: both_write_def ch_types_def sa_candidate_row_def)
qed (use sa ch same in \<open>auto simp: sa_action_def ref_action_def updS_def\<close>)

lemma twin_receipts:
  assumes tw: "twins senv env" and "same_movements T (t @ buf)"
    and "foldE (\<lambda>r s. if r_status r \<noteq> receipt_success then Inr s
           else case actions_by_hash (b_actions blk) (r_action_hash r) of
                  None \<Rightarrow> Inr s | Some e \<Rightarrow> sa_step senv blk e r s) rs (bm, T) = Inr (bm1, T')"
    and "eachS (ch_receipt (che_abi env) (ref_action env t (b_height blk)) blk) (List.enumerate n rs) (bm, buf)
      = (Inr (), bm2, buf')"
  shows "same_movements T' (t @ buf')"
  using assms(2-4)
proof (induction rs arbitrary: n bm T buf)
  case Nil
  then show ?case by simp
next
  case (Cons r rs)
  note IH = Cons.IH
  show ?case
  proof (cases "r_status r \<noteq> receipt_success \<or> actions_by_hash (b_actions blk) (r_action_hash r) = None")
    case True
    then have "ch_receipt (che_abi env) (ref_action env t (b_height blk)) blk (n, r) (bm, buf) = (Inr (), bm, buf)"
      by (auto simp: ch_receipt_def)
    with Cons.prems(3) have rest: "eachS (ch_receipt (che_abi env) (ref_action env t (b_height blk)) blk)
        (List.enumerate (Suc n) rs) (bm, buf) = (Inr (), bm2, buf')" by simp
    have "foldE (\<lambda>r s. if r_status r \<noteq> receipt_success then Inr s
           else case actions_by_hash (b_actions blk) (r_action_hash r) of
                  None \<Rightarrow> Inr s | Some e \<Rightarrow> sa_step senv blk e r s) rs (bm, T) = Inr (bm1, T')"
      using Cons.prems(2) True by (auto split: if_splits)
    from IH [OF Cons.prems(1) this rest] show ?thesis .
  next
    case False
    then obtain e where e: "r_status r = receipt_success"
        "actions_by_hash (b_actions blk) (r_action_hash r) = Some e" by auto
    let ?bm = "case BucketIndex (che_abi env) (r_logs r) of None \<Rightarrow> bm | Some b \<Rightarrow> bm(hex_encode (e_hash e) \<mapsto> b)"
    let ?bu = "?bm (hex_encode (e_hash e))"
    have abi: "sae_abi senv = che_abi env" using tw by (simp add: twins_def)
    from Cons.prems(2) e abi obtain T1 where T1: "sa_action senv (b_height blk) e (r_logs r) ?bu T = Inr T1"
        "foldE (\<lambda>r s. if r_status r \<noteq> receipt_success then Inr s
           else case actions_by_hash (b_actions blk) (r_action_hash r) of
                  None \<Rightarrow> Inr s | Some e \<Rightarrow> sa_step senv blk e r s) rs (?bm, T1) = Inr (bm1, T')"
      by (auto simp: bindE_eq_Inr sa_step_def Let_def)
    obtain x buf1 where x: "ref_action env t (b_height blk) n e ?bu buf = (x, buf1)" by fastforce
    with e have one: "ch_receipt (che_abi env) (ref_action env t (b_height blk)) blk (n, r) (bm, buf) = (x, ?bm, buf1)"
      by (simp add: ch_receipt_def Let_def)
    with Cons.prems(3) have "x = Inr ()" by (cases x) simp_all
    with one Cons.prems(3) have rest: "eachS (ch_receipt (che_abi env) (ref_action env t (b_height blk)) blk)
        (List.enumerate (Suc n) rs) (?bm, buf1) = (Inr (), bm2, buf')" by simp
    from twin_action [OF tw Cons.prems(1) T1(1)] x \<open>x = Inr ()\<close> have "same_movements T1 (t @ buf1)" by simp
    from IH [OF this T1(2) rest] show ?thesis .
  qed
qed

text \<open>The reference without a cache and staking_actions, block by block.\<close>

lemma ref_agrees_with_staking_actions:
  assumes "twins senv env" and "same_movements T (t @ buf)"
    and "foldE (sa_handleBlock senv) blks T = Inr T'" and "ref_blocks env t blks buf = (Inr (), new)"
  shows "same_movements T' (t @ new) \<and> (\<forall>b. bucket_sum b (sa_rows T') = bucket_sum b (t @ new))"
proof -
  have same: "same_movements T' (t @ new)"
    using assms(2-4)
  proof (induction blks arbitrary: T buf)
    case Nil
    then show ?case by (simp add: ref_blocks_def)
  next
    case (Cons blk blks)
    from Cons.prems(2) obtain T1 where T1: "sa_handleBlock senv blk T = Inr T1"
        "foldE (sa_handleBlock senv) blks T1 = Inr T'" by (auto simp: bindE_eq_Inr)
    obtain x buf1 where x: "ch_block_of (che_abi env) (ref_action env t) blk buf = (x, buf1)" by fastforce
    with Cons.prems(3) have "x = Inr ()" and rest: "ref_blocks env t blks buf1 = (Inr (), new)"
      by (cases x; simp add: ref_blocks_def)+
    from T1(1) obtain bm where sa: "on_receipts (sa_step senv blk) blk (Map.empty, T) = Inr (bm, T1)"
      by (auto simp: sa_handleBlock_def bindE_eq_Inr)
    from x \<open>x = Inr ()\<close> obtain bm' where ch: "eachS (ch_receipt (che_abi env) (ref_action env t (b_height blk)) blk)
        (List.enumerate 0 (b_receipts blk)) (Map.empty, buf) = (Inr (), bm', buf1)"
      by (auto simp: ch_block_of_def split: prod.splits)
    have "same_movements T1 (t @ buf1)"
      by (rule twin_receipts [OF assms(1) Cons.prems(1) sa [unfolded on_receipts_def] ch])
    from Cons.IH [OF this T1(2) rest] show ?case .
  qed
  with same_sums(1) [OF same] show ?thesis by (simp add: ref_sum_def)
qed

subsection \<open>The cache is invisible\<close>

lemma ch_cache_invisible:
  assumes "ch_ready p (tables w)" and "follows blks (tables w)" and "any_range env"
    and "\<And>ids. che_query_ok env ids" and "fits blks (tables w) (snd (ref_blocks env (tables w) blks [])) p"
    and "ch_PutBlocks env f blks (p, w) = (r, p', w')"
  shows "ref_PutBlocks env f blks w = (r, w') \<and>
    (fst (ref_blocks env (tables w) blks []) = Inr () \<longrightarrow> ch_ready p' (tables w'))"
proof -
  let ?t = "tables w"
  obtain x new where ref: "ref_blocks env ?t blks [] = (x, new)" by fastforce
  with assms(5) have fit: "fits blks ?t new p" by simp
  from sim_batch [OF assms(1,4) fit ref] obtain p1
    where p1: "bindS (preloadBucketStates env ?t (collectBucketIDs blks)) (\<lambda>_. eachS (ch_putBlock env ?t) blks) p = (x, p1)"
      and rel: "ch_rel ?t (set (collectBucketIDs blks)) (lru_max (ch_cache p)) p1 new" by blast
  have buf: "ch_buffer p1 = new" using rel by (simp add: ch_rel_def)
  from ref_blocks_in_order [OF ref] assms(2) have "in_order (?t @ new)"
    by (fastforce simp: follows_def in_order_append tuple_less_def)
  moreover have tip: "ch_rel ?t (set (collectBucketIDs blks)) (lru_max (ch_cache p)) (p1\<lparr>ch_tip := h\<rparr>) new" for h
    using rel by (simp add: ch_rel_def)
  moreover have "fits blks ?t new (p1\<lparr>ch_tip := h\<rparr>)" for h
    using fit rel by (simp add: fits_def ch_rel_def)
  ultimately have applied: "ch_ready (ch_clear (applyPendingBucketStates env (p1\<lparr>ch_tip := h\<rparr>))) (?t @ new)" for h
    using applied_ready [OF _ _ assms(3)] by blast
  have cleared: "ch_ready (ch_clear (p1\<lparr>ch_tip := h\<rparr>)) ?t" for h
    using rel by (simp add: ch_ready_def ch_clear_def ch_rel_def)
  have idle: "new = [] \<Longrightarrow> ch_ready (p1\<lparr>ch_tip := h\<rparr>) ?t" "new = [] \<Longrightarrow> ch_ready p1 ?t" for h
    using rel by (simp_all add: ch_ready_def ch_rel_def)
  show ?thesis
  proof (cases x)
    case (Inl e)
    with p1 ref assms(6) show ?thesis by (auto simp: ch_PutBlocks_def ref_PutBlocks_def)
  next
    case (Inr u)
    show ?thesis
    proof (cases blks)
      case Nil
      with ref Inr have "new = []" by (simp add: ref_blocks_def)
      with Nil p1 ref assms(6) Inr idle(2) show ?thesis by (simp add: ch_PutBlocks_def ref_PutBlocks_def)
    next
      case (Cons b bs)
      with p1 ref assms(6) Inr buf applied cleared idle(1) show ?thesis
        by (auto simp: ch_PutBlocks_def ref_PutBlocks_def ch_commit_def UpdateIndexHeight_def Let_def
            split: if_splits)
    qed
  qed
qed

text \<open>
  C9: The cache and the pending amounts are invisible. A batch that uses no more buckets than the
  cache holds leaves in ClickHouse, and as index height, what the reference leaves that reads every
  aggregate from the rows, errors and refused statements included; and when no block of it fails, the
  cache afterwards holds the aggregates of the table as it then is, whatever the order in which the
  pending buckets are visited.
\<close>

theorem ch_cache_is_invisible:
  assumes "ch_ready p (tables w)" and "follows blks (tables w)" and "any_range env"
    and "\<And>ids. che_query_ok env ids" and "fits blks (tables w) (snd (ref_blocks env (tables w) blks [])) p"
    and "ch_PutBlocks env f blks (p, w) = (r, p', w')"
  shows "ref_PutBlocks env f blks w = (r, w') \<and>
    (fst (ref_blocks env (tables w) blks []) = Inr () \<longrightarrow> ch_ready p' (tables w'))"
  using assms by (rule ch_cache_invisible)

text \<open>
  C15: The ledger in ClickHouse agrees with staking_actions. A batch that PutBlocks of staking_actions_ch
  stores, in which nothing is slashed and which uses no more buckets than the cache holds, and the same
  blocks handled by staking_actions take tables with the same movements to tables with the same
  movements: row by row the same height, bucket, amount, action and sender. So the amounts of every
  bucket are the same in both databases.
\<close>

theorem ch_agrees_with_staking_actions:
  assumes "twins senv env" and "same_movements T (tables w)" and "foldE (sa_handleBlock senv) blks T = Inr T'"
    and "ch_ready p (tables w)" and "follows blks (tables w)" and "any_range env"
    and "\<And>ids. che_query_ok env ids" and "fits blks (tables w) (snd (ref_blocks env (tables w) blks [])) p"
    and "ch_PutBlocks env f blks (p, w) = (Inr (), p', w')"
  shows "same_movements T' (tables w') \<and> (\<forall>b. bucket_sum b (sa_rows T') = bucket_sum b (tables w'))"
proof -
  have "ref_PutBlocks env f blks w = (Inr (), w')" using ch_cache_invisible [OF assms(4-9)] by simp
  then obtain new where new: "ref_blocks env (tables w) blks [] = (Inr (), new)" and "tables w' = tables w @ new"
    by (auto simp: ref_PutBlocks_def UpdateIndexHeight_def update_height_row_def Let_def
        split: prod.splits sum.splits if_splits)
  with ref_agrees_with_staking_actions [OF assms(1) _ assms(3) new] assms(2) show ?thesis by simp
qed

subsection \<open>Examples\<close>

definition ch_example :: "cand_row list \<Rightarrow> ch_env" where
  "ch_example cands = \<lparr>che_abi = \<lparr>stakedTopic = [1], candidateActivatedTopic = [2], registeredTopic = [3],
     legacyBucketTopics = [], sl_unpack_staked = (\<lambda>_. None)\<rparr>, che_candidates = cands, che_greenland = 0,
     che_query_ok = (\<lambda>_. True), che_range = (\<lambda>ks. ks)\<rparr>"

definition ch_stake :: "u64 \<Rightarrow> int \<Rightarrow> ch_row" where
  "ch_stake b amt = \<lparr>lr_height = 1, lr_bucket = b, lr_owner = ''o'', lr_candidate = ''c'', lr_amount = amt,
     lr_act_type = ''StakeCreate'', lr_auto_stake = True, lr_duration = 30, sa_sender = ''o'',
     sa_act_hash = [], ch_index = unat b\<rparr>"

definition ch_block :: "u64 \<Rightarrow> action list \<Rightarrow> block" where
  "ch_block h acts = \<lparr>b_height = h, b_timestamp = 0,
     b_actions = map (\<lambda>(i, a). \<lparr>e_hash = [word_of_nat i], e_sender = ''o'', e_action = a\<rparr>) (List.enumerate 0 acts),
     b_receipts = map (\<lambda>(i, a). \<lparr>r_status = 1, r_action_hash = [word_of_nat i], r_gas_consumed = 0,
       r_tx_index = i, r_logs = [], r_tx_logs = []\<rparr>) (List.enumerate 0 acts)\<rparr>"

definition ch_world :: "ch_row list \<Rightarrow> ch_row list world" where
  "ch_world rows = \<lparr>tables = rows, heights = Map.empty, index_cache = Map.empty\<rparr>"

definition ch_fine :: ch_faults where
  "ch_fine = \<lparr>insert_ok = True, height_ok = True\<rparr>"

text \<open>The tables that batches leave, one after the other.\<close>

fun ch_run :: "(ch_env \<times> block list) list \<Rightarrow> ch_plugin \<times> ch_row list world \<Rightarrow> ch_row list" where
  "ch_run [] s = tables (snd s)"
| "ch_run ((env, blks) # bs) s = ch_run bs (snd (ch_PutBlocks env ch_fine blks s))"

lemma update_height_row_code [code]:
  "update_height_row name h w =
     (case heights w name of None \<Rightarrow> w | Some _ \<Rightarrow> w\<lparr>heights := (heights w)(name \<mapsto> h)\<rparr>)"
  by (auto simp: update_height_row_def split: option.split)

definition ch_cand :: cand_row where
  "ch_cand = \<lparr>cr_height = 1, cr_name = ''n'', cr_operator = [], cr_reward = [], cr_owner = ''d'', cr_id = ''d'',
     cr_amount = 0, cr_duration = 0, cr_act_type = [], cr_auto_stake = False, cr_payload = []\<rparr>"

text \<open>
  A cache smaller than a batch forgets amounts. With room for one bucket, a deposit to each of two
  buckets of 100 evicts what was read of them before it is updated, and the entry written afterwards
  holds the deposit alone: the Unstake of the next batch takes out 20 of the 120 in the bucket.
\<close>

theorem small_cache_forgets:
  "bucket_sum 2 (ch_run
     [(ch_example [], [ch_block 2 [DepositToStake 1 10, DepositToStake 2 20]]),
      (ch_example [], [ch_block 3 [Unstake 2]])]
     (ch_Start 1, ch_world [ch_stake 1 100, ch_stake 2 100])) = 100"
  by code_simp

text \<open>With room for two buckets nothing is left.\<close>

lemma large_cache_remembers:
  "bucket_sum 2 (ch_run
     [(ch_example [], [ch_block 2 [DepositToStake 1 10, DepositToStake 2 20]]),
      (ch_example [], [ch_block 3 [Unstake 2]])]
     (ch_Start 2, ch_world [ch_stake 1 100, ch_stake 2 100])) = 0"
  by code_simp

text \<open>
  A failed batch stays in memory. A batch with a deposit of 10 and a change to a candidate that is
  not indexed yet fails; when the runner puts it again, now with the candidate there, the rows of the
  first attempt are written too, and of the 110 in the bucket 10 are left.
\<close>

theorem failed_ch_batch_stays:
  "(let blks = [ch_block 2 [DepositToStake 1 10], ch_block 3 [ChangeCandidate 1 ''n'']] in
     map lr_amount (ch_run [(ch_example [], blks), (ch_example [ch_cand], blks)]
       (ch_Start 2, ch_world [ch_stake 1 100])) = [100, 10, - 110, 10, - 10, 10])"
  by code_simp

text \<open>
  The rows depend on how the runner cuts the batches. A deposit after a Restake in one batch takes
  the new lock, in the next batch the lock of the last row with a positive amount.
\<close>

theorem batches_change_rows:
  "(let restake = ch_block 2 [Restake 1 60 False]; deposit = ch_block 3 [DepositToStake 1 10];
        run = (\<lambda>bs. map lr_duration (ch_run (map (Pair (ch_example [])) bs) (ch_Start 2, ch_world [ch_stake 1 100])))
    in run [[restake, deposit]] = [30, 60, 60] \<and> run [[restake], [deposit]] = [30, 60, 30])"
  by code_simp

subsection \<open>Witnesses\<close>

definition two_deposits :: "block list" where
  "two_deposits = [ch_block 2 [DepositToStake 1 10, TransferStake 1 ''v''], ch_block 3 [Restake 2 60 False, Unstake 1]]"

definition two_stakes :: "ch_row list" where
  "two_stakes = [ch_stake 1 100, ch_stake 2 100]"

lemma two_deposits_fit:
  "ch_ready (ch_Start 2) (tables (ch_world two_stakes))" "follows two_deposits (tables (ch_world two_stakes))"
  "any_range (ch_example [])" "che_query_ok (ch_example []) ids"
  "fits two_deposits (tables (ch_world two_stakes))
     (snd (ref_blocks (ch_example []) (tables (ch_world two_stakes)) two_deposits [])) (ch_Start 2)"
proof -
  show "ch_ready (ch_Start 2) (tables (ch_world two_stakes))"
    by (simp add: ch_ready_def ch_Start_def newBucketStateCache_def lru_ok_def lru.agrees_def lru_lookup_def)
  show "follows two_deposits (tables (ch_world two_stakes))"
    by (simp add: follows_def in_order_def ascending_def two_deposits_def two_stakes_def ch_world_def ch_stake_def
        ch_block_def tuple_less_def)
  show "any_range (ch_example [])" "che_query_ok (ch_example []) ids"
    by (simp_all add: any_range_def ch_example_def)
  show "fits two_deposits (tables (ch_world two_stakes))
      (snd (ref_blocks (ch_example []) (tables (ch_world two_stakes)) two_deposits [])) (ch_Start 2)"
    by code_simp
qed

theorem ch_cache_is_invisible_witness:
  "case ch_PutBlocks (ch_example []) ch_fine two_deposits (ch_Start 2, ch_world two_stakes) of
     (r, p', w') \<Rightarrow> ref_PutBlocks (ch_example []) ch_fine two_deposits (ch_world two_stakes) = (r, w') \<and>
       ch_ready p' (tables w')"
proof -
  obtain r p' w' where run: "ch_PutBlocks (ch_example []) ch_fine two_deposits (ch_Start 2, ch_world two_stakes)
      = (r, p', w')" by (metis prod_cases3)
  have "fst (ref_blocks (ch_example []) (tables (ch_world two_stakes)) two_deposits []) = Inr ()"
    by code_simp
  with ch_cache_is_invisible [OF two_deposits_fit run] run show ?thesis by simp
qed

definition twin_env :: sa_env where
  "twin_env = \<lparr>sae_shadow = False, sae_abi = che_abi (ch_example []), sae_candidates = [], sae_slashes = [],
     sae_greenland = 0, topicDeactivationRequested = [4], topicDeactivationScheduled = [5],
     topicDeactivated = [6], topicVoterRewardOptInSet = [7], sae_addr = (\<lambda>_. Inr []),
     sae_node_candidate = (\<lambda>_ _. Inl RpcError)\<rparr>"

definition twin_tables :: sa_tables where
  "twin_tables = \<lparr>sa_rows = map (\<lambda>r. \<lparr>lr_height = lr_height r, lr_bucket = lr_bucket r, lr_owner = ''x'',
       lr_candidate = ''y'', lr_amount = lr_amount r, lr_act_type = lr_act_type r, lr_auto_stake = False,
       lr_duration = 0, sa_sender = sa_sender r, sa_act_hash = sa_act_hash r\<rparr>) two_stakes,
     sa_other = [], sa_exit_queue = []\<rparr>"

theorem ch_agrees_with_staking_actions_witness:
  "\<exists>T' p' w'. foldE (sa_handleBlock twin_env) two_deposits twin_tables = Inr T' \<and>
     ch_PutBlocks (ch_example []) ch_fine two_deposits (ch_Start 2, ch_world two_stakes) = (Inr (), p', w') \<and>
     same_movements T' (tables w') \<and> bucket_sum 1 (sa_rows T') = bucket_sum 1 (tables w')"
proof -
  have tw: "twins twin_env (ch_example [])"
    by (simp add: twins_def twin_env_def ch_example_def)
  have "same_movements twin_tables two_stakes" by code_simp
  then have same: "same_movements twin_tables (tables (ch_world two_stakes))" by (simp add: ch_world_def)
  have "(case foldE (sa_handleBlock twin_env) two_deposits twin_tables of Inr _ \<Rightarrow> True | Inl _ \<Rightarrow> False)"
    by code_simp
  then obtain T' where T': "foldE (sa_handleBlock twin_env) two_deposits twin_tables = Inr T'"
    by (cases "foldE (sa_handleBlock twin_env) two_deposits twin_tables") simp_all
  obtain r p' w' where run: "ch_PutBlocks (ch_example []) ch_fine two_deposits (ch_Start 2, ch_world two_stakes)
      = (r, p', w')" by (metis prod_cases3)
  have ok: "(case ch_PutBlocks (ch_example []) ch_fine two_deposits (ch_Start 2, ch_world two_stakes) of
      (r, _) \<Rightarrow> r = Inr ())" by code_simp
  with run have run: "ch_PutBlocks (ch_example []) ch_fine two_deposits (ch_Start 2, ch_world two_stakes)
      = (Inr (), p', w')" by simp
  from ch_agrees_with_staking_actions [OF tw same T' two_deposits_fit run] T' run show ?thesis by blast
qed

end
