(* ===== verification/RowSink.thy ===== *)
theory RowSink
  imports BufferedSink
begin

text \<open>
  Buffered plugins that only gather rows: block_reward, reward_history, block_meta, probation and
  candidatelist keep what they remember between blocks beside a buffer of rows, and their commit
  stores the buffer. The interface \<open>row_sink\<close> states what they share, and what follows for batches.
\<close>

type_synonym ('m, 'r) row_plugin = "'m \<times> 'r list"

text \<open>\<open>store\<close> is the statement of the transaction that writes the rows.\<close>

definition row_commit ::
  "('r list \<Rightarrow> 't \<Rightarrow> 't res) \<Rightarrow> string \<Rightarrow> tx_faults \<Rightarrow> u64 \<Rightarrow> ('m, 'r) row_plugin \<times> 't world \<Rightarrow>
   unit res \<times> ('m, 'r) row_plugin \<times> 't world" where
  "row_commit store name f = buf_commit f name (\<lambda>(m, buf). store buf) (\<lambda>(m, buf). (m, []))"

definition row_PutBlocks ::
  "(block \<Rightarrow> ('m, 'r) row_plugin \<Rightarrow> unit res \<times> ('m, 'r) row_plugin) \<Rightarrow> ('r list \<Rightarrow> 't \<Rightarrow> 't res) \<Rightarrow> string \<Rightarrow>
   tx_faults \<Rightarrow> block list \<Rightarrow> ('m, 'r) row_plugin \<times> 't world \<Rightarrow> unit res \<times> ('m, 'r) row_plugin \<times> 't world" where
  "row_PutBlocks put store name f = buf_PutBlocks put (row_commit store name f)"

definition row_PutBlock ::
  "(block \<Rightarrow> ('m, 'r) row_plugin \<Rightarrow> unit res \<times> ('m, 'r) row_plugin) \<Rightarrow> ('r list \<Rightarrow> 't \<Rightarrow> 't res) \<Rightarrow> string \<Rightarrow>
   tx_faults \<Rightarrow> block \<Rightarrow> ('m, 'r) row_plugin \<times> 't world \<Rightarrow> unit res \<times> ('m, 'r) row_plugin \<times> 't world" where
  "row_PutBlock put store name f = buf_PutBlock put (row_commit store name f)"

text \<open>Inserting rows, and rows that are appended as they are gathered.\<close>

definition insert_rows :: "'r list \<Rightarrow> 'r list \<Rightarrow> 'r list res" where
  "insert_rows rows t = Inr (t @ rows)"

definition emit :: "'r list \<Rightarrow> ('m, 'r) row_plugin \<Rightarrow> unit res \<times> ('m, 'r) row_plugin" where
  "emit rows = updS (\<lambda>(m, buf). (m, buf @ rows))"

text \<open>What a program appends to the buffer does not depend on what is in it.\<close>

definition appending :: "(('m, 'r) row_plugin \<Rightarrow> 'a res \<times> ('m, 'r) row_plugin) \<Rightarrow> bool" where
  "appending p \<longleftrightarrow> (\<forall>m. \<exists>x m' new. \<forall>buf. p (m, buf) = (x, m', buf @ new))"

lemma appendingI: "(\<And>m. \<exists>x m' new. \<forall>buf. p (m, buf) = (x, m', buf @ new)) \<Longrightarrow> appending p"
  by (simp add: appending_def)

lemma appending_emit: "appending (emit rows)"
  by (auto simp: appending_def emit_def updS_def)

lemma appending_decodedS: "appending (decodedS x)"
  by (simp add: appending_def decodedS_def)

lemma appending_skip: "appending (updS id)"
  by (simp add: appending_def updS_def)

lemma appending_bindS:
  assumes "appending p" and "\<And>x. appending (q x)"
  shows "appending (bindS p q)"
proof (rule appendingI)
  fix m
  from assms(1) obtain x m1 new where p: "\<And>buf. p (m, buf) = (x, m1, buf @ new)"
    unfolding appending_def by metis
  show "\<exists>x m' new. \<forall>buf. bindS p q (m, buf) = (x, m', buf @ new)"
  proof (cases x)
    case (Inl e)
    with p show ?thesis by auto
  next
    case (Inr y)
    from assms(2) [of y] obtain z m2 new2 where q: "\<And>buf. q y (m1, buf) = (z, m2, buf @ new2)"
      unfolding appending_def by metis
    have "bindS p q (m, buf) = (z, m2, buf @ (new @ new2))" for buf
      using p [of buf] Inr q [of "buf @ new"] by simp
    then show ?thesis by blast
  qed
qed

lemma appending_eachS: "(\<And>x. x \<in> set xs \<Longrightarrow> appending (p x)) \<Longrightarrow> appending (eachS p xs)"
proof (induction xs)
  case Nil
  have "eachS p [] = decodedS (Inr ())" by (simp add: fun_eq_iff decodedS_def)
  then show ?case by (simp only: appending_decodedS)
next
  case (Cons x xs)
  then have "appending (bindS (p x) (\<lambda>_. eachS p xs))" by (intro appending_bindS) auto
  moreover have "eachS p (x # xs) = bindS (p x) (\<lambda>_. eachS p xs)" by (simp add: fun_eq_iff)
  ultimately show ?case by simp
qed

lemma appendingD: "appending p \<Longrightarrow> p (m, []) = (x, m', new) \<Longrightarrow> p (m, buf) = (x, m', buf @ new)"
  unfolding appending_def by (metis append_Nil prod.inject)

lemma eachS_append: "eachS f (xs @ ys) s = bindS (eachS f xs) (\<lambda>_. eachS f ys) s"
proof (induction xs arbitrary: s)
  case Nil
  then show ?case by (simp add: bindS_def)
next
  case (Cons x xs)
  then show ?case by (cases "f x s"; cases "fst (f x s)") (auto simp: bindS_def split: prod.splits sum.splits)
qed

locale row_sink =
  fixes put :: "block \<Rightarrow> ('m, 'r) row_plugin \<Rightarrow> unit res \<times> ('m, 'r) row_plugin"
    and store :: "'r list \<Rightarrow> 't \<Rightarrow> 't res"
    and name :: string
  assumes put_appending: "appending (put b)"
begin

text \<open>The memory after the blocks and the rows they gather.\<close>

definition gathered :: "block list \<Rightarrow> 'm \<Rightarrow> unit res \<times> 'm \<times> 'r list" where
  "gathered blks m = eachS put blks (m, [])"

lemma gathered_buf:
  assumes "gathered blks m = (x, m', new)"
  shows "eachS put blks (m, buf) = (x, m', buf @ new)"
proof -
  have "appending (eachS put blks)" by (rule appending_eachS) (rule put_appending)
  from appendingD [OF this] assms show ?thesis by (simp add: gathered_def)
qed

text \<open>A batch stores what was left in the buffer and then the rows of its blocks, if all goes well.\<close>

lemma batch_ok:
  assumes "row_PutBlocks put store name f blks ((m, buf), w) = (Inr (), p', w')"
  obtains m' new where "gathered blks m = (Inr (), m', new)" and "p' = (m', [])" and "blks \<noteq> []"
    and "store (buf @ new) (tables w) = Inr (tables w')"
    and "heights w' = (if name \<in> dom (heights w) then (heights w)(name \<mapsto> b_height (last blks)) else heights w)"
proof -
  obtain x m1 new where g: "gathered blks m = (x, m1, new)" by (metis prod_cases3)
  from assms [unfolded row_PutBlocks_def row_commit_def]
  obtain p1 where p1: "eachS put blks (m, buf) = (Inr (), p1)" "blks \<noteq> []" "p' = (\<lambda>(m, buf). (m, [])) p1"
      "(\<lambda>(m, buf). store buf) p1 (tables w) = Inr (tables w')"
      "heights w' = (if name \<in> dom (heights w) then (heights w)(name \<mapsto> b_height (last blks)) else heights w)"
    by (rule buf_PutBlocks_ok)
  with gathered_buf [OF g, of buf] that g show ?thesis by auto
qed

text \<open>A block that fails leaves the rows gathered so far in the buffer, and nothing else changes.\<close>

lemma batch_fails:
  assumes "gathered blks m = (Inl e, m', new)"
  shows "row_PutBlocks put store name f blks ((m, buf), w) = (Inl e, (m', buf @ new), w)"
  using gathered_buf [OF assms, of buf] by (simp add: row_PutBlocks_def buf_PutBlocks_def)

text \<open>Refused by the database, the rows are gone.\<close>

lemma batch_refused:
  assumes "row_PutBlocks put store name f blks ((m, buf), w) = (Inl e, p', w')"
    and "gathered blks m = (Inr (), m', new)" and "blks \<noteq> []"
  shows "p' = (m', [])" and "tables w' = tables w" and "heights w' = heights w"
proof -
  obtain b where b: "last_elem blks = Inr b" using assms(3) by simp
  from assms(1) gathered_buf [OF assms(2), of buf] b
  have "row_commit store name f (b_height b) ((m', buf @ new), w) = (Inl e, p', w')"
    by (simp add: row_PutBlocks_def buf_PutBlocks_def)
  from buf_commit_error [OF this [unfolded row_commit_def]] show "p' = (m', [])"
    and "tables w' = tables w" and "heights w' = heights w" by simp_all
qed

lemma gathered_append:
  assumes "gathered xs m = (Inr (), m1, new1)" and "gathered ys m1 = (x, m2, new2)"
  shows "gathered (xs @ ys) m = (x, m2, new1 @ new2)"
  using assms(1) gathered_buf [OF assms(2), of new1] by (simp add: gathered_def eachS_append)

lemma gathered_splits:
  assumes "gathered (xs @ ys) m = (Inr (), m2, new)"
  obtains m1 new1 new2 where "gathered xs m = (Inr (), m1, new1)" and "gathered ys m1 = (Inr (), m2, new2)"
    and "new = new1 @ new2"
proof -
  obtain x m1 new1 where x: "gathered xs m = (x, m1, new1)" by (metis prod_cases3)
  obtain y m3 new2 where y: "gathered ys m1 = (y, m3, new2)" by (metis prod_cases3)
  from assms x have "x = Inr ()" by (cases x) (auto simp: gathered_def eachS_append)
  with gathered_append [OF x [unfolded \<open>x = Inr ()\<close>] y] assms x y that show ?thesis by simp
qed

text \<open>
  Where storing rows one after the other is storing them together, a batch cut in two leaves the
  same memory and the same table.
\<close>

lemma batches_compose:
  assumes "\<And>r r' t. store (r @ r') t = bindE (store r t) (store r')"
    and "row_PutBlocks put store name f1 xs ((m, []), w) = (Inr (), p1, w1)"
    and "row_PutBlocks put store name f2 ys (p1, w1) = (Inr (), p2, w2)"
    and "row_PutBlocks put store name f (xs @ ys) ((m, []), w) = (Inr (), p, w')"
  shows "p = p2 \<and> tables w' = tables w2"
proof -
  from assms(2) obtain m1 new1 where 1: "gathered xs m = (Inr (), m1, new1)" "p1 = (m1, [])"
      "store new1 (tables w) = Inr (tables w1)" by (rule batch_ok) auto
  from assms(3) [unfolded 1(2)] obtain m2 new2 where 2: "gathered ys m1 = (Inr (), m2, new2)" "p2 = (m2, [])"
      "store new2 (tables w1) = Inr (tables w2)" by (rule batch_ok) auto
  from assms(4) obtain m3 new where 3: "gathered (xs @ ys) m = (Inr (), m3, new)" "p = (m3, [])"
      "store new (tables w) = Inr (tables w')" by (rule batch_ok) auto
  from gathered_append [OF 1(1) 2(1)] 3(1) have "m3 = m2" "new = new1 @ new2" by simp_all
  with 1 2 3 assms(1) show ?thesis by simp
qed

end

text \<open>
  The rows of a plugin that remembers nothing from block to block are a function of the block.
\<close>

fun collect :: "('b \<Rightarrow> 'r list res) \<Rightarrow> 'b list \<Rightarrow> 'r list res" where
  "collect g [] = Inr []"
| "collect g (b # bs) = bindE (g b) (\<lambda>r. bindE (collect g bs) (\<lambda>rs. Inr (r @ rs)))"

lemma collect_append: "collect g (xs @ ys) = bindE (collect g xs) (\<lambda>r. bindE (collect g ys) (\<lambda>r'. Inr (r @ r')))"
  by (induction xs) (auto simp: bindE_def split: sum.splits)

lemma collect_Inr: "collect g xs = Inr rs \<longleftrightarrow> (\<forall>x \<in> set xs. \<exists>r. g x = Inr r) \<and> rs = concat (map (\<lambda>x. projr (g x)) xs)"
  by (induction xs arbitrary: rs) (auto simp: bindE_eq_Inr)

locale stateless_sink = row_sink put store name
  for put :: "block \<Rightarrow> (unit, 'r) row_plugin \<Rightarrow> unit res \<times> (unit, 'r) row_plugin"
    and store :: "'r list \<Rightarrow> 't \<Rightarrow> 't res" and name +
  fixes rows :: "block \<Rightarrow> 'r list res"
  assumes put_rows: "put b ((), []) = (case rows b of Inl e \<Rightarrow> (Inl e, (), []) | Inr rs \<Rightarrow> (Inr (), (), rs))"
begin

lemma gathered_collect: "gathered blks () = (Inr (), u, new) \<longleftrightarrow> collect rows blks = Inr new"
proof (induction blks arbitrary: new)
  case Nil
  then show ?case by (auto simp: gathered_def)
next
  case (Cons b blks)
  show ?case
  proof (cases "rows b")
    case (Inl e)
    then show ?thesis by (simp add: gathered_def put_rows)
  next
    case (Inr r)
    obtain x m' new' where g: "gathered blks () = (x, m', new')" by (metis prod_cases3)
    have step: "gathered (b # blks) () = (x, m', r @ new')"
      using gathered_buf [OF g, of r] Inr by (simp add: gathered_def put_rows)
    show ?thesis
    proof (cases x)
      case (Inl e)
      with g Cons.IH have "collect rows blks \<noteq> Inr rs" for rs by force
      with step Inl show ?thesis by (auto simp: bindE_eq_Inr)
    next
      case (Inr y)
      with g Cons.IH [of new'] have "collect rows blks = Inr new'" by simp
      with step Inr \<open>rows b = Inr r\<close> show ?thesis by auto
    qed
  qed
qed

lemma batch_rows:
  assumes "row_PutBlocks put store name f blks (((), buf), w) = (Inr (), p', w')"
  obtains new where "collect rows blks = Inr new" and "p' = ((), [])"
    and "store (buf @ new) (tables w) = Inr (tables w')"
  using assms by (rule batch_ok) (use gathered_collect that in auto)

text \<open>
  A block that fails in the middle of a batch leaves the rows of the blocks before it behind.
\<close>

lemma batch_leaves:
  assumes "collect rows xs = Inr new" and "rows b = Inl e"
  shows "row_PutBlocks put store name f (xs @ b # ys) (((), buf), w) = (Inl e, ((), buf @ new), w)"
proof -
  have "gathered xs () = (Inr (), (), new)" using assms(1) gathered_collect by simp
  moreover have "gathered (b # ys) () = (Inl e, (), [])" by (simp add: gathered_def put_rows assms(2))
  ultimately have "gathered (xs @ b # ys) () = (Inl e, (), new)" using gathered_append by fastforce
  from batch_fails [OF this] show ?thesis by simp
qed

end

lemma insert_rows_append: "insert_rows (r @ r') t = bindE (insert_rows r t) (insert_rows r')"
  by (simp add: insert_rows_def)

end
