(* ===== verification/EpochLists.thy ===== *)
theory EpochLists
  imports RowSink
begin

text \<open>
  What the plugins take over from the node at the first block of an epoch: the candidate list
  (plugins/candidatelist) and the probation list (plugins/probation), with the functions of models
  that read them back (models/candidatelist.go, models/probation.go) and the paged reads of the node
  that candidatelist, reward_history and hermes each have a copy of. The epochs of
  kernel/epoch.go come from the rolldpos protocol.
\<close>

subsection \<open>Epochs\<close>

record epochs =
  GetEpochNum :: "u64 \<Rightarrow> u64"
  GetEpochHeight :: "u64 \<Rightarrow> u64"
  FairbankBlockHeight :: u64
  NumDelegates :: u64
  DardanellesNumSubEpochs :: u64

definition FairbankEffectiveHeight :: "epochs \<Rightarrow> u64" where
  "FairbankEffectiveHeight ep = FairbankBlockHeight ep + NumDelegates ep * DardanellesNumSubEpochs ep"

definition epoch_start :: "epochs \<Rightarrow> u64 \<Rightarrow> bool" where
  "epoch_start ep h \<longleftrightarrow> h = GetEpochHeight ep (GetEpochNum ep h)"

subsection \<open>Pages\<close>

text \<open>
  \<open>page offset limit\<close> is one call of the node. The first argument bounds the number of pages; a
  node that never returns a short page keeps the code in the loop for ever.
\<close>

fun fetch_pages ::
  "nat \<Rightarrow> ('a \<Rightarrow> bool) \<Rightarrow> nat \<Rightarrow> (u32 \<Rightarrow> u32 \<Rightarrow> 'a list res) \<Rightarrow> u32 \<Rightarrow> 'a list \<Rightarrow> 'a list res" where
  "fetch_pages 0 keep limit page i out = Inl (Err ''the page loop does not end'')"
| "fetch_pages (Suc fuel) keep limit page i out =
     bindE (page (i * word_of_nat limit) (word_of_nat limit)) (\<lambda>xs.
       let out' = out @ filter keep xs
       in if length xs < limit then Inr out' else fetch_pages fuel keep limit page (i + 1) out')"

lemma fetch_pages_from:
  assumes node: "\<And>off lim. page off lim = Inr (take (unat lim) (drop (unat off) listing))"
    and small: "length listing + limit < 2 ^ 32" and "0 < limit"
  shows "k * limit \<le> length listing \<Longrightarrow> length listing < (k + fuel) * limit \<Longrightarrow>
    fetch_pages fuel keep limit page (word_of_nat k) (filter keep (take (k * limit) listing)) = Inr (filter keep listing)"
proof (induction fuel arbitrary: k)
  case 0
  then show ?case by simp
next
  case (Suc fuel)
  have "k * limit < 2 ^ 32" and "limit < 2 ^ 32" using Suc.prems(1) small by linarith+
  then have off: "unat (word_of_nat k * word_of_nat limit :: u32) = k * limit"
    and lim: "unat (word_of_nat limit :: u32) = limit"
    by (simp_all add: of_nat_mult [symmetric] unat_of_nat take_bit_nat_eq_self del: of_nat_mult)
  let ?xs = "take limit (drop (k * limit) listing)"
  have page: "page (word_of_nat k * word_of_nat limit) (word_of_nat limit) = Inr ?xs"
    by (simp add: node off lim)
  have out: "filter keep (take (k * limit) listing) @ filter keep ?xs = filter keep (take (Suc k * limit) listing)"
    by (simp add: filter_append [symmetric] take_add [symmetric] add.commute)
  show ?case
  proof (cases "length ?xs < limit")
    case True
    then have "length listing \<le> Suc k * limit" by (auto simp: min_def split: if_splits)
    then show ?thesis using page out True by (simp add: Let_def)
  next
    case False
    then have le: "Suc k * limit \<le> length listing" using Suc.prems(1) assms(3) by (auto simp: min_def split: if_splits)
    have "length listing < (Suc k + fuel) * limit" using Suc.prems(2) by simp
    from Suc.IH [OF le this] page out False show ?thesis by (simp add: Let_def add.commute)
  qed
qed

text \<open>
  Reading page by page is complete and ends. Against a node that serves the parts of a listing
  that offset and limit name, the loop returns what is to be kept of the whole listing, in order,
  within one more page than the listing fills, as long as the 32-bit offset can name its end.
\<close>

theorem fetch_pages_complete:
  assumes "\<And>off lim. page off lim = Inr (take (unat lim) (drop (unat off) listing))"
    and "length listing + limit < 2 ^ 32" and "0 < limit" and "length listing < fuel * limit"
  shows "fetch_pages fuel keep limit page 0 [] = Inr (filter keep listing)"
  using fetch_pages_from [OF assms(1,2,3), of 0 fuel keep] assms(4) by simp

theorem fetch_pages_complete_witness:
  "fetch_pages 3 even 2 (\<lambda>off lim. Inr (take (unat lim) (drop (unat off) [1, 2, 3, 4, 6 :: nat]))) 0 [] = Inr [2, 4, 6]"
  by (subst fetch_pages_complete [where listing = "[1, 2, 3, 4, 6 :: nat]"]) simp_all

subsection \<open>Candidate lists\<close>

record node_candidate =
  nc_id :: string
  nc_owner :: string
  nc_operator :: string
  nc_reward :: string
  nc_name :: string
  nc_total_votes :: string
  nc_self_tokens :: string
  nc_self_bucket :: u64

record candidate_list_row =
  cl_epoch :: u64
  cl_data :: "byte list"

text \<open>
  \<open>li_candidates\<close> and \<open>li_probation\<close> are the node (a state that is not there is \<open>NotFound\<close>),
  \<open>li_marshal\<close> and \<open>li_unmarshal\<close> protobuf's coding of a candidate list.
\<close>

record probation_pb =
  pp_intensity :: u32
  pp_list :: "(string \<times> u32) list"

record list_env =
  li_epochs :: epochs
  li_pages :: nat
  li_candidates :: "u64 \<Rightarrow> u32 \<Rightarrow> u32 \<Rightarrow> node_candidate list res" \<comment> \<open>height, offset, limit\<close>
  li_marshal :: "node_candidate list \<Rightarrow> byte list res"
  li_unmarshal :: "byte list \<Rightarrow> node_candidate list res"
  li_probation :: "u64 \<Rightarrow> probation_pb res" \<comment> \<open>epoch\<close>

definition readCandidatesLimit :: nat where
  "readCandidatesLimit = 20000"

definition self_staked :: "node_candidate \<Rightarrow> bool" where
  "self_staked c \<longleftrightarrow> nc_self_tokens c \<noteq> ''0''"

definition GetAllStakingCandidates :: "list_env \<Rightarrow> u64 \<Rightarrow> node_candidate list res" where
  "GetAllStakingCandidates env h =
     fetch_pages (li_pages env) self_staked readCandidatesLimit (li_candidates env h) 0 []"

text \<open>\<open>t\<close> is the table when the batch begins: the plugin counts its rows outside of any transaction.\<close>

definition candlist_put ::
  "list_env \<Rightarrow> candidate_list_row list \<Rightarrow> block \<Rightarrow> (unit, candidate_list_row) row_plugin \<Rightarrow>
   unit res \<times> (unit, candidate_list_row) row_plugin" where
  "candlist_put env t blk =
     (let h = b_height blk; e = GetEpochNum (li_epochs env) h in
      if FairbankEffectiveHeight (li_epochs env) \<le> h \<and> epoch_start (li_epochs env) h
      then if \<exists>r \<in> set t. cl_epoch r = e then updS id
           else bindS (decodedS (GetAllStakingCandidates env h)) (\<lambda>cs.
                bindS (decodedS (li_marshal env cs)) (\<lambda>bs. emit [\<lparr>cl_epoch = e, cl_data = bs\<rparr>]))
      else updS id)"

text \<open>The epoch is the primary key.\<close>

definition create_list :: "candidate_list_row \<Rightarrow> candidate_list_row list \<Rightarrow> candidate_list_row list res" where
  "create_list r t = (if cl_epoch r \<in> cl_epoch ` set t then Inl DbError else Inr (t @ [r]))"

definition candlist_PutBlocks ::
  "list_env \<Rightarrow> tx_faults \<Rightarrow> block list \<Rightarrow> (unit, candidate_list_row) row_plugin \<times> candidate_list_row list world \<Rightarrow>
   unit res \<times> (unit, candidate_list_row) row_plugin \<times> candidate_list_row list world" where
  "candlist_PutBlocks env f blks s =
     row_PutBlocks (candlist_put env (tables (snd s))) (foldE create_list) ''candidatelist'' f blks s"

definition candlist_PutBlock ::
  "list_env \<Rightarrow> tx_faults \<Rightarrow> block \<Rightarrow> (unit, candidate_list_row) row_plugin \<times> candidate_list_row list world \<Rightarrow>
   unit res \<times> (unit, candidate_list_row) row_plugin \<times> candidate_list_row list world" where
  "candlist_PutBlock env f blk s =
     row_PutBlock (candlist_put env (tables (snd s))) (foldE create_list) ''candidatelist'' f blk s"

definition GetCandidateList ::
  "(byte list \<Rightarrow> node_candidate list res) \<Rightarrow> u64 \<Rightarrow> candidate_list_row list \<Rightarrow> node_candidate list res" where
  "GetCandidateList unmarshal e t =
     (case find (\<lambda>r. cl_epoch r = e) t of None \<Rightarrow> Inl RecordNotFound | Some r \<Rightarrow> unmarshal (cl_data r))"

text \<open>What a block adds to the table \<open>t\<close>.\<close>

definition candlist_rows :: "list_env \<Rightarrow> candidate_list_row list \<Rightarrow> block \<Rightarrow> candidate_list_row list res" where
  "candlist_rows env t blk =
     (let h = b_height blk; e = GetEpochNum (li_epochs env) h in
      if FairbankEffectiveHeight (li_epochs env) \<le> h \<and> epoch_start (li_epochs env) h \<and> e \<notin> cl_epoch ` set t
      then bindE (GetAllStakingCandidates env h) (\<lambda>cs. map_res (\<lambda>bs. [\<lparr>cl_epoch = e, cl_data = bs\<rparr>]) (li_marshal env cs))
      else Inr [])"

interpretation candlist: stateless_sink "candlist_put env t" "foldE create_list" "''candidatelist''"
  "candlist_rows env t" for env t
proof
  fix b
  have seen: "(\<exists>r \<in> set t. cl_epoch r = e) \<longleftrightarrow> e \<in> cl_epoch ` set t" for e by auto
  have cond: "appending (if c then p else q)" if "appending p" "appending q" for c and p q
    :: "(unit, candidate_list_row) row_plugin \<Rightarrow> unit res \<times> (unit, candidate_list_row) row_plugin"
    using that by simp
  show "appending (candlist_put env t b)"
    unfolding candlist_put_def Let_def
    by (intro cond appending_bindS appending_decodedS appending_emit appending_skip)
  show "candlist_put env t b ((), []) =
      (case candlist_rows env t b of Inl e \<Rightarrow> (Inl e, (), []) | Inr rs \<Rightarrow> (Inr (), (), rs))"
  proof (cases "GetAllStakingCandidates env (b_height b)")
    case (Inl e)
    then show ?thesis by (auto simp: candlist_put_def candlist_rows_def Let_def updS_def decodedS_def seen)
  next
    case (Inr cs)
    then show ?thesis
      by (cases "li_marshal env cs")
        (auto simp: candlist_put_def candlist_rows_def Let_def updS_def decodedS_def emit_def seen)
  qed
qed

lemma create_lists:
  "foldE create_list rs t = Inr t' \<Longrightarrow> t' = t @ rs \<and> (distinct (map cl_epoch t) \<longrightarrow> distinct (map cl_epoch t'))"
proof (induction rs arbitrary: t)
  case Nil
  then show ?case by simp
next
  case (Cons r rs)
  then have new: "cl_epoch r \<notin> cl_epoch ` set t" and rest: "foldE create_list rs (t @ [r]) = Inr t'"
    using create_list_def [of r t] by (auto split: if_splits)
  have "distinct (map cl_epoch (t @ [r]))" if "distinct (map cl_epoch t)" using that new by simp
  with Cons.IH [OF rest] show ?case by (metis append.assoc append_Cons append_Nil)
qed

lemma find_unique:
  "distinct (map key t) \<Longrightarrow> r \<in> set t \<Longrightarrow> find (\<lambda>r'. key r' = key r) t = Some r"
  by (induction t) (auto simp: image_iff)

text \<open>
  Candidate lists round-trip through the table. When a batch that holds the first block of an
  epoch, after Fairbank, goes through, then reading the list of that epoch back answers the
  candidates with a self-stake that the node listed at that height, in the node's order, if
  protobuf reads what it writes.
\<close>

theorem candidate_list_roundtrip:
  assumes "candlist_PutBlocks env f blks (((), []), w) = (Inr (), p', w')"
    and "distinct (map cl_epoch (tables w))"
    and "blk \<in> set blks" and "FairbankEffectiveHeight (li_epochs env) \<le> b_height blk"
    and "epoch_start (li_epochs env) (b_height blk)"
    and "GetEpochNum (li_epochs env) (b_height blk) \<notin> cl_epoch ` set (tables w)"
    and "\<And>cs bs. li_marshal env cs = Inr bs \<Longrightarrow> li_unmarshal env bs = Inr cs"
  shows "GetCandidateList (li_unmarshal env) (GetEpochNum (li_epochs env) (b_height blk)) (tables w') =
    GetAllStakingCandidates env (b_height blk)"
proof -
  from assms(1) have "row_PutBlocks (candlist_put env (tables w)) (foldE create_list) ''candidatelist'' f blks
      (((), []), w) = (Inr (), p', w')" by (simp add: candlist_PutBlocks_def)
  then obtain new where new: "collect (candlist_rows env (tables w)) blks = Inr new"
      "foldE create_list new (tables w) = Inr (tables w')" by (rule candlist.batch_rows) simp
  from create_lists [OF new(2)] assms(2) have t': "tables w' = tables w @ new"
    and uniq: "distinct (map cl_epoch (tables w'))" by blast+
  from new(1) assms(3) obtain rs where rs: "candlist_rows env (tables w) blk = Inr rs"
    and rs_new: "set rs \<subseteq> set new" unfolding collect_Inr by force
  from rs assms(4,5,6) obtain cs bs where cs: "GetAllStakingCandidates env (b_height blk) = Inr cs"
      "li_marshal env cs = Inr bs" "rs = [\<lparr>cl_epoch = GetEpochNum (li_epochs env) (b_height blk), cl_data = bs\<rparr>]"
    by (auto simp: candlist_rows_def Let_def bindE_eq_Inr map_res_eq)
  with rs_new t' have "\<lparr>cl_epoch = GetEpochNum (li_epochs env) (b_height blk), cl_data = bs\<rparr> \<in> set (tables w')"
    by simp
  from find_unique [OF uniq this] cs assms(7) show ?thesis by (simp add: GetCandidateList_def)
qed

text \<open>An epoch every 10 blocks, two candidates of which one has a self-stake.\<close>

definition ten_epochs :: epochs where
  "ten_epochs = \<lparr>GetEpochNum = (\<lambda>h. h div 10 + 1), GetEpochHeight = (\<lambda>e. (e - 1) * 10), FairbankBlockHeight = 0,
     NumDelegates = 2, DardanellesNumSubEpochs = 5\<rparr>"

definition sample_candidate :: "string \<Rightarrow> string \<Rightarrow> node_candidate" where
  "sample_candidate nm self = \<lparr>nc_id = ''io1'' @ nm, nc_owner = ''io1'' @ nm, nc_operator = ''io1op'', nc_reward = ''io1rw'',
     nc_name = nm, nc_total_votes = ''7'', nc_self_tokens = self, nc_self_bucket = 0\<rparr>"

definition sample_lists :: list_env where
  "sample_lists = \<lparr>li_epochs = ten_epochs, li_pages = 2,
     li_candidates = (\<lambda>h off lim. Inr [sample_candidate ''a'' ''5'', sample_candidate ''b'' ''0'']),
     li_marshal = (\<lambda>cs. if cs = [sample_candidate ''a'' ''5''] then Inr [1] else Inl (Err ''unknown'')),
     li_unmarshal = (\<lambda>bs. if bs = [1] then Inr [sample_candidate ''a'' ''5''] else Inl (Err ''unknown'')),
     li_probation = (\<lambda>e. if e = 4 then Inl NotFound else Inr \<lparr>pp_intensity = 90, pp_list = [(''io1op'', 2)]\<rparr>)\<rparr>"

lemma sample_lists_simps [simp]:
  "li_epochs sample_lists = ten_epochs" "li_pages sample_lists = 2"
  "li_candidates sample_lists h off lim = Inr [sample_candidate ''a'' ''5'', sample_candidate ''b'' ''0'']"
  "li_marshal sample_lists [sample_candidate ''a'' ''5''] = Inr [1]"
  "li_probation sample_lists e = (if e = 4 then Inl NotFound else Inr \<lparr>pp_intensity = 90, pp_list = [(''io1op'', 2)]\<rparr>)"
  by (simp_all add: sample_lists_def)

lemma sample_lists_marshal:
  "li_marshal sample_lists cs = Inr bs \<Longrightarrow> li_unmarshal sample_lists bs = Inr cs"
  by (auto simp: sample_lists_def split: if_splits)

lemma sample_lists_all [simp]: "GetAllStakingCandidates sample_lists h = Inr [sample_candidate ''a'' ''5'']"
  by (simp add: GetAllStakingCandidates_def readCandidatesLimit_def numeral_2_eq_2 self_staked_def sample_candidate_def)

definition epoch_block :: "u64 \<Rightarrow> block" where
  "epoch_block h = \<lparr>b_height = h, b_timestamp = 0, b_actions = [], b_receipts = []\<rparr>"

definition fresh_tables :: "'t \<Rightarrow> 't world" where
  "fresh_tables t = \<lparr>tables = t, heights = Map.empty, index_cache = Map.empty\<rparr>"

lemmas row_run = row_PutBlocks_def row_commit_def buf_PutBlocks_def buf_commit_def bindS_def updS_def decodedS_def
  emit_def index_tx_no_faults insert_rows_def fresh_tables_def

theorem candidate_list_roundtrip_witness:
  "\<exists>w'. candlist_PutBlocks sample_lists no_faults [epoch_block 19, epoch_block 20] (((), []), fresh_tables []) = (Inr (), ((), []), w')
    \<and> GetCandidateList (li_unmarshal sample_lists) 3 (tables w') = Inr [sample_candidate ''a'' ''5'']"
proof -
  obtain w' where run: "candlist_PutBlocks sample_lists no_faults [epoch_block 19, epoch_block 20] (((), []), fresh_tables [])
      = (Inr (), ((), []), w')"
    by (auto simp: candlist_PutBlocks_def row_run candlist_put_def create_list_def epoch_block_def epoch_start_def
        FairbankEffectiveHeight_def Let_def ten_epochs_def)
  have "GetCandidateList (li_unmarshal sample_lists) (GetEpochNum (li_epochs sample_lists) (b_height (epoch_block 20)))
      (tables w') = GetAllStakingCandidates sample_lists (b_height (epoch_block 20))"
    by (rule candidate_list_roundtrip [OF run])
      (auto simp: sample_lists_marshal epoch_block_def epoch_start_def FairbankEffectiveHeight_def ten_epochs_def
        fresh_tables_def)
  with run show ?thesis by (simp add: epoch_block_def ten_epochs_def)
qed

subsection \<open>Probation lists\<close>

record probation_row =
  pr_height :: u64
  pr_epoch :: u64
  pr_address :: string
  pr_intensity :: u32
  pr_count :: u64

definition fetchProbationList :: "(u64 \<Rightarrow> probation_pb res) \<Rightarrow> u64 \<Rightarrow> probation_pb option res" where
  "fetchProbationList node e =
     (case node e of
        Inl err \<Rightarrow> if err = NotFound then Inr None else Inl err
      | Inr pb \<Rightarrow> Inr (Some pb))"

definition probation_rows :: "u64 \<Rightarrow> u64 \<Rightarrow> probation_pb \<Rightarrow> probation_row list" where
  "probation_rows h e pb =
     map (\<lambda>(addr, count). \<lparr>pr_height = h, pr_epoch = e, pr_address = addr,
            pr_intensity = pp_intensity pb, pr_count = ucast count\<rparr>) (pp_list pb)"

text \<open>\<open>probationList.ProbationList\<close> of a nil list.\<close>

definition probation_put ::
  "list_env \<Rightarrow> block \<Rightarrow> (unit, probation_row) row_plugin \<Rightarrow> unit res \<times> (unit, probation_row) row_plugin" where
  "probation_put env blk =
     (let h = b_height blk; e = GetEpochNum (li_epochs env) h in
      if epoch_start (li_epochs env) h
      then bindS (decodedS (fetchProbationList (li_probation env) e)) (\<lambda>pb.
             case pb of
               None \<Rightarrow> decodedS (Inl (Panic ''nil pointer dereference''))
             | Some pb \<Rightarrow> emit (probation_rows h e pb))
      else updS id)"

definition probation_PutBlocks ::
  "list_env \<Rightarrow> tx_faults \<Rightarrow> block list \<Rightarrow> (unit, probation_row) row_plugin \<times> probation_row list world \<Rightarrow>
   unit res \<times> (unit, probation_row) row_plugin \<times> probation_row list world" where
  "probation_PutBlocks env = row_PutBlocks (probation_put env) insert_rows ''probation''"

definition probation_PutBlock ::
  "list_env \<Rightarrow> tx_faults \<Rightarrow> block \<Rightarrow> (unit, probation_row) row_plugin \<times> probation_row list world \<Rightarrow>
   unit res \<times> (unit, probation_row) row_plugin \<times> probation_row list world" where
  "probation_PutBlock env = row_PutBlock (probation_put env) insert_rows ''probation''"

definition GetCountByEpochNum :: "u64 \<Rightarrow> probation_row list \<Rightarrow> u64" where
  "GetCountByEpochNum e t = word_of_nat (length (filter (\<lambda>r. pr_epoch r = e) t))"

definition GetProbationListByEpoch :: "u64 \<Rightarrow> probation_row list \<Rightarrow> probation_pb" where
  "GetProbationListByEpoch e t =
     fold (\<lambda>r pb. pb\<lparr>pp_intensity := pr_intensity r, pp_list := pp_list pb @ [(pr_address r, ucast (pr_count r))]\<rparr>)
       (filter (\<lambda>r. pr_epoch r = e) t) \<lparr>pp_intensity = 0, pp_list = []\<rparr>"

text \<open>What a block adds to the table.\<close>

definition probation_of :: "list_env \<Rightarrow> block \<Rightarrow> probation_row list res" where
  "probation_of env blk =
     (let h = b_height blk; e = GetEpochNum (li_epochs env) h in
      if epoch_start (li_epochs env) h
      then bindE (fetchProbationList (li_probation env) e) (\<lambda>pb.
             case pb of None \<Rightarrow> Inl (Panic ''nil pointer dereference'') | Some pb \<Rightarrow> Inr (probation_rows h e pb))
      else Inr [])"

interpretation probation: stateless_sink "probation_put env" insert_rows "''probation''" "probation_of env" for env
proof
  fix b
  have pb: "appending (case pb of None \<Rightarrow> decodedS (Inl (Panic ''nil pointer dereference''))
      | Some pb \<Rightarrow> emit (probation_rows h e pb))" for pb h e
    by (cases pb) (simp_all add: appending_decodedS appending_emit)
  show "appending (probation_put env b)"
    by (simp add: probation_put_def Let_def appending_bindS appending_decodedS appending_skip pb)
  show "probation_put env b ((), []) = (case probation_of env b of Inl e \<Rightarrow> (Inl e, (), []) | Inr rs \<Rightarrow> (Inr (), (), rs))"
    by (auto simp: probation_put_def probation_of_def Let_def decodedS_def bindS_def updS_def emit_def bindE_def
        split: sum.splits option.splits)
qed

lemma probation_of_epochs: "probation_of env blk = Inr rs \<Longrightarrow> r \<in> set rs \<Longrightarrow>
    pr_epoch r = GetEpochNum (li_epochs env) (b_height blk) \<and> pr_height r = b_height blk"
  by (auto simp: probation_of_def Let_def bindE_eq_Inr probation_rows_def split: if_splits option.splits)

text \<open>Of the blocks of a batch, only the first block of an epoch adds rows of the epoch.\<close>

lemma probation_of_other:
  assumes "probation_of env b = Inr rs" and "epoch_start (li_epochs env) (b_height blk)" and "b_height b \<noteq> b_height blk"
  shows "filter (\<lambda>r. pr_epoch r = GetEpochNum (li_epochs env) (b_height blk)) rs = []"
proof -
  have "epoch_start (li_epochs env) (b_height b)" if "rs \<noteq> []"
    using assms(1) that by (auto simp: probation_of_def Let_def split: if_splits)
  with assms(2,3) probation_of_epochs [OF assms(1)] show ?thesis
    unfolding filter_empty_conv epoch_start_def by (metis length_pos_if_in_set less_numeral_extra(3) list.size(3))
qed

lemma probation_collected:
  assumes "collect (probation_of env) blks = Inr new" and "distinct (map b_height blks)" and "blk \<in> set blks"
    and "epoch_start (li_epochs env) (b_height blk)"
  shows "\<exists>rs. probation_of env blk = Inr rs \<and>
    filter (\<lambda>r. pr_epoch r = GetEpochNum (li_epochs env) (b_height blk)) new = rs"
proof -
  let ?of_epoch = "filter (\<lambda>r. pr_epoch r = GetEpochNum (li_epochs env) (b_height blk))"
  from split_list [OF assms(3)] obtain xs ys where blks: "blks = xs @ blk # ys" by blast
  with assms(1) obtain r1 rs r2 where new: "collect (probation_of env) xs = Inr r1" "probation_of env blk = Inr rs"
      "collect (probation_of env) ys = Inr r2" "new = r1 @ rs @ r2"
    by (auto simp: collect_append bindE_eq_Inr)
  have other: "?of_epoch r = []" if "collect (probation_of env) bs = Inr r" "b_height blk \<notin> b_height ` set bs" for bs r
    using that probation_of_other [OF _ assms(4)]
    by (induction bs arbitrary: r) (auto simp: bindE_eq_Inr)
  have "?of_epoch rs = rs" using new(2) by (auto simp: filter_id_conv dest: probation_of_epochs)
  moreover have "?of_epoch r1 = []" and "?of_epoch r2 = []"
    using other [OF new(1)] other [OF new(3)] assms(2) by (auto simp: blks)
  ultimately show ?thesis using new(2,4) by simp
qed

lemma u32_u64_u32: "ucast (ucast x :: u64) = (x :: u32)"
  by (simp add: unsigned_ucast_eq take_bit_word_eq_self)

lemma read_probation_rows:
  "fold (\<lambda>r pb. pb\<lparr>pp_intensity := pr_intensity r, pp_list := pp_list pb @ [(pr_address r, ucast (pr_count r))]\<rparr>)
     (probation_rows h e pb) \<lparr>pp_intensity = i, pp_list = xs\<rparr> =
   \<lparr>pp_intensity = (if pp_list pb = [] then i else pp_intensity pb), pp_list = xs @ pp_list pb\<rparr>"
proof -
  have "fold (\<lambda>r pb. pb\<lparr>pp_intensity := pr_intensity r, pp_list := pp_list pb @ [(pr_address r, ucast (pr_count r))]\<rparr>)
      (map (\<lambda>(addr, count). \<lparr>pr_height = h, pr_epoch = e, pr_address = addr, pr_intensity = n, pr_count = ucast count\<rparr>) ps)
      \<lparr>pp_intensity = i, pp_list = xs\<rparr> = \<lparr>pp_intensity = (if ps = [] then i else n), pp_list = xs @ ps\<rparr>" for ps n
    by (induction ps arbitrary: i xs) (auto simp: u32_u64_u32)
  then show ?thesis by (simp add: probation_rows_def)
qed

text \<open>
  Probation lists round-trip through their table. When a batch with the first block of an
  epoch goes through and the table had no row of that epoch, \<open>GetProbationListByEpoch\<close> answers the
  list the node gave, entries in order; the intensity of a list without entries is lost.
\<close>

theorem probation_roundtrip:
  assumes "probation_PutBlocks env f blks (((), []), w) = (Inr (), p', w')"
    and "distinct (map b_height blks)" and "blk \<in> set blks" and "epoch_start (li_epochs env) (b_height blk)"
    and "GetCountByEpochNum (GetEpochNum (li_epochs env) (b_height blk)) (tables w) = 0" and "length (tables w) < 2 ^ 64"
    and "li_probation env (GetEpochNum (li_epochs env) (b_height blk)) = Inr pb"
  shows "GetProbationListByEpoch (GetEpochNum (li_epochs env) (b_height blk)) (tables w') =
    (if pp_list pb = [] then \<lparr>pp_intensity = 0, pp_list = []\<rparr> else pb)"
proof -
  let ?e = "GetEpochNum (li_epochs env) (b_height blk)"
  from assms(1) obtain new where new: "collect (probation_of env) blks = Inr new" "tables w' = tables w @ new"
    unfolding probation_PutBlocks_def by (rule probation.batch_rows) (simp add: insert_rows_def)
  have "probation_of env blk = Inr (probation_rows (b_height blk) ?e pb)"
    using assms(4,7) by (simp add: probation_of_def Let_def fetchProbationList_def)
  with probation_collected [OF new(1) assms(2,3,4)]
  have rows: "filter (\<lambda>r. pr_epoch r = ?e) new = probation_rows (b_height blk) ?e pb" by simp
  have "length (filter (\<lambda>r. pr_epoch r = ?e) (tables w)) < 2 ^ 64"
    using length_filter_le [of "\<lambda>r. pr_epoch r = ?e" "tables w"] assms(6) by linarith
  then have "filter (\<lambda>r. pr_epoch r = ?e) (tables w) = []"
    using assms(5) by (simp add: GetCountByEpochNum_def word_of_nat_eq_0_iff) (metis dvd_imp_le length_0_conv length_greater_0_conv not_less)
  then show ?thesis
    using read_probation_rows [of "b_height blk" ?e pb 0 "[]"] new(2) rows by (cases pb) (auto simp: GetProbationListByEpoch_def)
qed

theorem probation_roundtrip_witness:
  "\<exists>w'. probation_PutBlocks sample_lists no_faults [epoch_block 19, epoch_block 20] (((), []), fresh_tables []) = (Inr (), ((), []), w')
    \<and> GetProbationListByEpoch 3 (tables w') = \<lparr>pp_intensity = 90, pp_list = [(''io1op'', 2)]\<rparr>"
proof -
  obtain w' where run: "probation_PutBlocks sample_lists no_faults [epoch_block 19, epoch_block 20] (((), []), fresh_tables [])
      = (Inr (), ((), []), w')"
    by (auto simp: probation_PutBlocks_def row_run probation_put_def epoch_block_def epoch_start_def Let_def
        ten_epochs_def fetchProbationList_def)
  from probation_roundtrip [OF run, of "epoch_block 20"] run show ?thesis
    by (auto simp: epoch_block_def epoch_start_def ten_epochs_def fresh_tables_def GetCountByEpochNum_def)
qed

text \<open>
  An error of the node in the middle of a batch doubles rows. The rows gathered before the
  block that failed stay in the memory of the plugin; when the runner puts the same batch again
  and it goes through, they are stored twice, and the lists of their epochs read back doubled.
\<close>

theorem probation_retry_doubles:
  assumes "collect (probation_of env1) xs = Inr new" and "probation_of env1 blk = Inl e"
    and "probation_PutBlocks env1 f1 (xs @ blk # ys) (((), []), w) = (r, p1, w1)"
    and "collect (probation_of env2) (xs @ blk # ys) = Inr all"
    and "probation_PutBlocks env2 f2 (xs @ blk # ys) (p1, w1) = (Inr (), p2, w2)"
  shows "r = Inl e \<and> tables w2 = tables w @ new @ all"
proof -
  from probation.batch_leaves [OF assms(1,2), of f1 ys "[]" w] assms(3)
  have 1: "r = Inl e" "p1 = ((), new)" "w1 = w" by (simp_all add: probation_PutBlocks_def)
  from assms(5) obtain new2 where "collect (probation_of env2) (xs @ blk # ys) = Inr new2"
      "insert_rows (new @ new2) (tables w) = Inr (tables w2)"
    unfolding probation_PutBlocks_def 1(2,3) by (rule probation.batch_rows)
  with assms(4) 1 show ?thesis by (simp add: insert_rows_def)
qed

definition healed_lists :: list_env where
  "healed_lists = sample_lists\<lparr>li_probation := (\<lambda>e. Inr \<lparr>pp_intensity = 90, pp_list = [(''io1op'', 2)]\<rparr>)\<rparr>"

lemma sample_probation_rows:
  "probation_of sample_lists (epoch_block 20) = Inr (probation_rows 20 3 \<lparr>pp_intensity = 90, pp_list = [(''io1op'', 2)]\<rparr>)"
  "probation_of sample_lists (epoch_block 30) = Inl (Panic ''nil pointer dereference'')"
  "probation_of healed_lists (epoch_block 20) = Inr (probation_rows 20 3 \<lparr>pp_intensity = 90, pp_list = [(''io1op'', 2)]\<rparr>)"
  "probation_of healed_lists (epoch_block 30) = Inr (probation_rows 30 4 \<lparr>pp_intensity = 90, pp_list = [(''io1op'', 2)]\<rparr>)"
  by (simp_all add: probation_of_def healed_lists_def epoch_block_def epoch_start_def ten_epochs_def fetchProbationList_def Let_def)

theorem probation_retry_doubles_witness:
  "\<exists>r p1 w1 p2 w2.
    probation_PutBlocks sample_lists no_faults [epoch_block 20, epoch_block 30] (((), []), fresh_tables []) = (r, p1, w1) \<and>
    probation_PutBlocks healed_lists no_faults [epoch_block 20, epoch_block 30] (p1, w1) = (Inr (), p2, w2) \<and>
    map pr_epoch (tables w2) = [3, 3, 4]"
proof -
  obtain r p1 w1 where 1: "probation_PutBlocks sample_lists no_faults ([epoch_block 20] @ epoch_block 30 # []) (((), []), fresh_tables [])
      = (r, p1, w1)" by (metis prod_cases3)
  have new: "collect (probation_of sample_lists) [epoch_block 20] = Inr (probation_rows 20 3 \<lparr>pp_intensity = 90, pp_list = [(''io1op'', 2)]\<rparr>)"
    by (simp add: sample_probation_rows)
  from probation.batch_leaves [OF new sample_probation_rows(2), of no_faults "[]" "[]" "fresh_tables []"] 1
  have p1: "p1 = ((), probation_rows 20 3 \<lparr>pp_intensity = 90, pp_list = [(''io1op'', 2)]\<rparr>)" "w1 = fresh_tables []"
    by (simp_all add: probation_PutBlocks_def)
  obtain p2 w2 where 2: "probation_PutBlocks healed_lists no_faults ([epoch_block 20] @ epoch_block 30 # []) (p1, w1) = (Inr (), p2, w2)"
    unfolding p1 by (auto simp: probation_PutBlocks_def row_run probation_put_def epoch_block_def epoch_start_def Let_def
        healed_lists_def ten_epochs_def fetchProbationList_def)
  have "collect (probation_of healed_lists) ([epoch_block 20] @ epoch_block 30 # []) =
      Inr (probation_rows 20 3 \<lparr>pp_intensity = 90, pp_list = [(''io1op'', 2)]\<rparr> @ probation_rows 30 4 \<lparr>pp_intensity = 90, pp_list = [(''io1op'', 2)]\<rparr>)"
    by (simp add: sample_probation_rows)
  from probation_retry_doubles [OF new sample_probation_rows(2) 1 this 2] have "map pr_epoch (tables w2) = [3, 3, 4]"
    by (simp add: fresh_tables_def probation_rows_def)
  with 1 2 show ?thesis by (intro exI [of _ r] exI [of _ p1] exI [of _ w1] exI [of _ p2] exI [of _ w2]) simp
qed

text \<open>
  Before there is a probation list the plugin panics. Where the node answers that it has none
  for the epoch, the nil list it stands for is dereferenced, and no batch with the first block of
  that epoch goes through.
\<close>

theorem probation_panics_without_list:
  assumes "blk \<in> set blks" and "epoch_start (li_epochs env) (b_height blk)"
    and "li_probation env (GetEpochNum (li_epochs env) (b_height blk)) = Inl NotFound"
  shows "probation_of env blk = Inl (Panic ''nil pointer dereference'')
    \<and> fst (probation_PutBlocks env f blks (((), buf), w)) \<noteq> Inr ()"
proof -
  have none: "probation_of env blk = Inl (Panic ''nil pointer dereference'')"
    using assms(2,3) by (simp add: probation_of_def Let_def fetchProbationList_def)
  have "collect (probation_of env) blks \<noteq> Inr new" for new
    using none assms(1) unfolding collect_Inr by force
  then have "probation_PutBlocks env f blks (((), buf), w) \<noteq> (Inr (), p', w')" for p' w'
    unfolding probation_PutBlocks_def by (auto elim: probation.batch_rows)
  with none show ?thesis by (metis prod.collapse)
qed

theorem probation_panics_without_list_witness:
  "fst (probation_PutBlocks sample_lists no_faults [epoch_block 29, epoch_block 30] (((), []), fresh_tables [])) \<noteq> Inr ()"
proof -
  have "epoch_start (li_epochs sample_lists) (b_height (epoch_block 30))"
    and "li_probation sample_lists (GetEpochNum (li_epochs sample_lists) (b_height (epoch_block 30))) = Inl NotFound"
    by (simp_all add: epoch_start_def epoch_block_def ten_epochs_def)
  from probation_panics_without_list [of "epoch_block 30" "[epoch_block 29, epoch_block 30]", OF _ this] show ?thesis by simp
qed

end
