(* ===== verification/RewardRows.thy ===== *)
theory RewardRows
  imports EpochLists RewardLog Candidates
begin

text \<open>
  The plugins that write one row per payout of a GrantReward receipt: block_reward
  (plugins/block_reward), which asks the candidate table for the name of the payee and remembers the
  answer, and reward_history (plugins/reward_history), which resolves names against the candidates of
  the node at the start of the epoch before.
\<close>

subsection \<open>The payouts of a block\<close>

fun is_grant :: "action \<Rightarrow> bool" where
  "is_grant (GrantReward t) = True"
| "is_grant _ = False"

definition grant_hashes :: "block \<Rightarrow> hash256 set" where
  "grant_hashes blk = set (map e_hash (filter (\<lambda>e. is_grant (e_action e)) (b_actions blk)))"

definition granted :: "hash256 set \<Rightarrow> block \<Rightarrow> receipt list" where
  "granted grants blk = filter (\<lambda>r. r_action_hash r \<in> grants) (b_receipts blk)"

text \<open>The payouts of all granting receipts, receipt by receipt.\<close>

definition payouts :: "(byte list \<Rightarrow> reward_log list res) \<Rightarrow> block \<Rightarrow> (string \<times> reward_info) list res" where
  "payouts unmarshal blk = collect (\<lambda>r. RewardInfoFromReceipt unmarshal (r_logs r)) (granted (grant_hashes blk) blk)"

lemma total_of_gas [simp]: "total_of k (t\<lparr>rt_gas := g\<rparr>) = total_of k t"
  by (cases k) simp_all

lemma RewardAt_payouts:
  assumes "payouts unmarshal blk = Inr ms"
  shows "\<exists>t. RewardAt unmarshal blk (grant_hashes blk) = Inr t \<and>
    (\<forall>k. is_reward k \<longrightarrow> total_of k t = sum_list (map (reward_of k \<circ> snd) ms))"
proof -
  let ?g = "\<lambda>r. RewardInfoFromReceipt unmarshal (r_logs r)"
  let ?body = "\<lambda>r t0. let t = t0\<lparr>rt_gas := rt_gas t0 + r_gas_consumed r\<rparr> in
       if r_action_hash r \<in> grant_hashes blk then bindE (?g r) (\<lambda>m. Inr (fold (\<lambda>kv. add_info (snd kv)) m t)) else Inr t"
  have "collect ?g (filter (\<lambda>r. r_action_hash r \<in> grant_hashes blk) rs) = Inr ms \<Longrightarrow>
      \<exists>t. foldE ?body rs t0 = Inr t \<and>
        (\<forall>k. is_reward k \<longrightarrow> total_of k t = total_of k t0 + sum_list (map (reward_of k \<circ> snd) ms))" for rs t0 ms
  proof (induction rs arbitrary: t0 ms)
    case Nil
    then show ?case by simp
  next
    case (Cons r rs)
    let ?t = "t0\<lparr>rt_gas := rt_gas t0 + r_gas_consumed r\<rparr>"
    show ?case
    proof (cases "r_action_hash r \<in> grant_hashes blk")
      case False
      with Cons.prems Cons.IH [of ms ?t] show ?thesis by (simp add: Let_def)
    next
      case True
      with Cons.prems obtain m ms' where m: "?g r = Inr m" "ms = m @ ms'"
          "collect ?g (filter (\<lambda>r. r_action_hash r \<in> grant_hashes blk) rs) = Inr ms'"
        by (auto simp: bindE_eq_Inr)
      from Cons.IH [OF m(3), of "fold (\<lambda>kv. add_info (snd kv)) m ?t"] True m(1,2)
      show ?thesis by (auto simp: Let_def fold_add_info add.assoc comp_def)
    qed
  qed
  from this [OF assms [unfolded payouts_def granted_def],
      of "\<lparr>rt_block = 0, rt_epoch = 0, rt_foundation = 0, rt_priority = 0, rt_gas = 0\<rparr>"]
  obtain t where t: "RewardAt unmarshal blk (grant_hashes blk) = Inr t"
    and k: "\<And>k. is_reward k \<Longrightarrow> total_of k t = total_of k \<lparr>rt_block = 0, rt_epoch = 0, rt_foundation = 0, rt_priority = 0, rt_gas = 0\<rparr>
      + sum_list (map (reward_of k \<circ> snd) ms)"
    unfolding RewardAt_def by blast
  have "total_of k t = sum_list (map (reward_of k \<circ> snd) ms)" if "is_reward k" for k
    using k [OF that] that by (auto simp: is_reward_def)
  with t show ?thesis by blast
qed

subsection \<open>block\_reward\<close>

record reward_row =
  rr_height :: u64
  rr_epoch :: u64
  rr_address :: string
  rr_hash :: hash256 \<comment> \<open>stored in hex\<close>
  rr_name :: string
  rr_block :: int
  rr_epoch_reward :: int
  rr_foundation :: int
  rr_priority :: int

text \<open>
  \<open>re_live key\<close> tells whether gocache still holds what it memoized under \<open>key\<close> (it forgets after ten
  minutes), \<open>re_cands\<close> is the table candidate as the plugin's connection sees it, or the error.
\<close>

record reward_env =
  re_epochs :: epochs
  re_unmarshal :: "byte list \<Rightarrow> reward_log list res"
  re_live :: "string \<Rightarrow> bool"
  re_cands :: "cand_row list res"

type_synonym names_memo = "string \<rightharpoonup> string"

definition newest_name :: "cand_row list \<Rightarrow> string \<Rightarrow> string" where
  "newest_name cands addr = (case last_row (\<lambda>r. cr_reward r = addr) cands of None \<Rightarrow> [] | Some r \<Rightarrow> cr_name r)"

definition getCandidateNameByAddress ::
  "reward_env \<Rightarrow> string \<Rightarrow> (names_memo, 'r) row_plugin \<Rightarrow> string res \<times> (names_memo, 'r) row_plugin" where
  "getCandidateNameByAddress env addr s =
     (case s of (m, buf) \<Rightarrow>
        let key = ''000'' @ addr;
            ask = (case re_cands env of
                     Inl e \<Rightarrow> (Inl e, m, buf)
                   | Inr cands \<Rightarrow> (Inr (newest_name cands addr), m(key \<mapsto> newest_name cands addr), buf))
        in case m key of
             None \<Rightarrow> ask
           | Some name \<Rightarrow> if re_live env key then (Inr name, m, buf) else ask)"

definition reward_row_of :: "u64 \<Rightarrow> u64 \<Rightarrow> receipt \<Rightarrow> string \<Rightarrow> string \<Rightarrow> reward_info \<Rightarrow> reward_row" where
  "reward_row_of h e r addr name i =
     \<lparr>rr_height = h, rr_epoch = e, rr_address = addr, rr_hash = r_action_hash r, rr_name = name,
       rr_block = BlockReward_of i, rr_epoch_reward = EpochReward_of i, rr_foundation = FoundationBonus_of i,
       rr_priority = PriorityBonus_of i\<rparr>"

definition collectRewardRows ::
  "reward_env \<Rightarrow> u64 \<Rightarrow> u64 \<Rightarrow> receipt \<Rightarrow> (string \<times> reward_info) list \<Rightarrow>
   (names_memo, reward_row) row_plugin \<Rightarrow> reward_row list res \<times> (names_memo, reward_row) row_plugin" where
  "collectRewardRows env h e r =
     concatS (\<lambda>(addr, i). bindS (getCandidateNameByAddress env addr) (\<lambda>name.
       decodedS (Inr [reward_row_of h e r addr name i])))"

definition block_reward_put ::
  "reward_env \<Rightarrow> block \<Rightarrow> (names_memo, reward_row) row_plugin \<Rightarrow> unit res \<times> (names_memo, reward_row) row_plugin" where
  "block_reward_put env blk =
     (let h = b_height blk; e = GetEpochNum (re_epochs env) h; grants = grant_hashes blk in
      eachS (\<lambda>r. if r_action_hash r \<notin> grants then updS id
                 else bindS (decodedS (RewardInfoFromReceipt (re_unmarshal env) (r_logs r))) (\<lambda>infos.
                      bindS (collectRewardRows env h e r infos) emit))
        (b_receipts blk))"

definition block_reward_PutBlocks ::
  "reward_env \<Rightarrow> tx_faults \<Rightarrow> block list \<Rightarrow> (names_memo, reward_row) row_plugin \<times> reward_row list world \<Rightarrow>
   unit res \<times> (names_memo, reward_row) row_plugin \<times> reward_row list world" where
  "block_reward_PutBlocks env = row_PutBlocks (block_reward_put env) insert_rows ''block_reward''"

definition block_reward_PutBlock ::
  "reward_env \<Rightarrow> tx_faults \<Rightarrow> block \<Rightarrow> (names_memo, reward_row) row_plugin \<times> reward_row list world \<Rightarrow>
   unit res \<times> (names_memo, reward_row) row_plugin \<times> reward_row list world" where
  "block_reward_PutBlock env = row_PutBlock (block_reward_put env) insert_rows ''block_reward''"

lemma appending_concatS: "(\<And>x. x \<in> set xs \<Longrightarrow> appending (p x)) \<Longrightarrow> appending (concatS p xs)"
proof (induction xs)
  case Nil
  have "concatS p [] = decodedS (Inr [])" by (simp add: fun_eq_iff decodedS_def)
  then show ?case by (simp only: appending_decodedS)
next
  case (Cons x xs)
  have "concatS p (x # xs) = bindS (p x) (\<lambda>r. bindS (concatS p xs) (\<lambda>rs. decodedS (Inr (r @ rs))))"
    by (simp add: fun_eq_iff decodedS_def bindS_def split: prod.splits sum.splits)
  moreover have "appending (bindS (p x) (\<lambda>r. bindS (concatS p xs) (\<lambda>rs. decodedS (Inr (r @ rs)))))"
    using Cons by (intro appending_bindS appending_decodedS) auto
  ultimately show ?case by (simp only:)
qed

lemma appending_name: "appending (getCandidateNameByAddress env addr)"
proof (rule appendingI)
  fix m :: names_memo
  show "\<exists>x m' new. \<forall>buf. getCandidateNameByAddress env addr (m, buf) = (x, m', buf @ new)"
    by (cases "m (''000'' @ addr)"; cases "re_cands env"; cases "re_live env (''000'' @ addr)")
      (auto simp: getCandidateNameByAddress_def Let_def)
qed

interpretation block_reward: row_sink "block_reward_put env" insert_rows "''block_reward''" for env
proof
  fix b
  have cond: "appending (if c then p else q)" if "appending p" "appending q" for c and p q
    :: "(names_memo, reward_row) row_plugin \<Rightarrow> unit res \<times> (names_memo, reward_row) row_plugin"
    using that by simp
  have rows: "appending (collectRewardRows env h e r infos)" for h e r infos
    unfolding collectRewardRows_def
    by (rule appending_concatS) (auto intro!: appending_bindS appending_name appending_decodedS split: prod.splits)
  show "appending (block_reward_put env b)"
    unfolding block_reward_put_def Let_def
    by (intro appending_eachS cond appending_bindS appending_decodedS appending_emit appending_skip rows)
qed

text \<open>The amounts of the rows do not depend on the names.\<close>

definition row_info :: "reward_row \<Rightarrow> string \<times> int \<times> int \<times> int \<times> int" where
  "row_info r = (rr_address r, rr_block r, rr_epoch_reward r, rr_foundation r, rr_priority r)"

definition pay_info :: "string \<times> reward_info \<Rightarrow> string \<times> int \<times> int \<times> int \<times> int" where
  "pay_info kv = (fst kv, BlockReward_of (snd kv), EpochReward_of (snd kv), FoundationBonus_of (snd kv), PriorityBonus_of (snd kv))"

lemma getCandidateNameByAddress_buf: "getCandidateNameByAddress env addr (m, buf) = (x, m', buf') \<Longrightarrow> buf' = buf"
  by (auto simp: getCandidateNameByAddress_def Let_def split: option.splits sum.splits if_splits)

lemma collectRewardRows_rows:
  "collectRewardRows env h e r infos (m, buf) = (Inr rows, m', buf') \<Longrightarrow>
   buf' = buf \<and> map row_info rows = map pay_info infos \<and> (\<forall>row \<in> set rows. rr_height row = h)"
proof (induction infos arbitrary: m rows)
  case Nil
  then show ?case by (simp add: collectRewardRows_def)
next
  case (Cons kv infos)
  obtain addr i where kv: "kv = (addr, i)" by fastforce
  from Cons.prems obtain name m1 buf1 rows2 where step:
      "getCandidateNameByAddress env addr (m, buf) = (Inr name, m1, buf1)"
      "collectRewardRows env h e r infos (m1, buf1) = (Inr rows2, m', buf')"
      "rows = reward_row_of h e r addr name i # rows2"
    by (auto simp: collectRewardRows_def kv bindS_eq_Inr decodedS_def)
  from getCandidateNameByAddress_buf [OF step(1)] have "buf1 = buf" by simp
  with Cons.IH [of m1 rows2] step show ?case by (simp add: kv reward_row_of_def row_info_def pay_info_def)
qed

lemma block_reward_put_rows:
  assumes "block_reward_put env blk (m, []) = (Inr (), m', rows)"
  shows "\<exists>infos. payouts (re_unmarshal env) blk = Inr infos \<and> map row_info rows = map pay_info infos \<and>
    (\<forall>row \<in> set rows. rr_height row = b_height blk)"
proof -
  let ?h = "b_height blk" and ?g = "\<lambda>r. RewardInfoFromReceipt (re_unmarshal env) (r_logs r)"
  let ?one = "\<lambda>r. if r_action_hash r \<notin> grant_hashes blk then updS id
      else bindS (decodedS (?g r)) (\<lambda>infos. bindS (collectRewardRows env ?h (GetEpochNum (re_epochs env) ?h) r infos) emit)"
  have "eachS ?one rs (m, buf) = (Inr (), m', rows) \<Longrightarrow> \<exists>infos new.
      collect ?g (filter (\<lambda>r. r_action_hash r \<in> grant_hashes blk) rs) = Inr infos \<and> rows = buf @ new \<and>
      map row_info new = map pay_info infos \<and> (\<forall>row \<in> set new. rr_height row = ?h)" for rs m buf rows
  proof (induction rs arbitrary: m buf)
    case Nil
    then show ?case by simp
  next
    case (Cons r rs)
    show ?case
    proof (cases "r_action_hash r \<in> grant_hashes blk")
      case False
      with Cons.prems Cons.IH [of m buf] show ?thesis by (simp add: updS_def bindS_def)
    next
      case True
      with Cons.prems obtain infos m1 buf1 rows1 where step: "?g r = Inr infos"
          "collectRewardRows env ?h (GetEpochNum (re_epochs env) ?h) r infos (m, buf) = (Inr rows1, m1, buf1)"
          "eachS ?one rs (m1, buf1 @ rows1) = (Inr (), m', rows)"
        by (auto simp: bindS_eq_Inr emit_def updS_def decodedS_def simp del: bindS_decodedS)
      from collectRewardRows_rows [OF step(2)] Cons.IH [OF step(3)] step(1) True show ?thesis
        by fastforce
    qed
  qed
  from this [of "b_receipts blk" m "[]" rows] assms show ?thesis
    by (auto simp: block_reward_put_def payouts_def granted_def Let_def)
qed

fun reward_column :: "reward_log_type \<Rightarrow> reward_row \<Rightarrow> int" where
  "reward_column RL_BLOCK_REWARD r = rr_block r"
| "reward_column RL_EPOCH_REWARD r = rr_epoch_reward r"
| "reward_column RL_FOUNDATION_BONUS r = rr_foundation r"
| "reward_column RL_PRIORITY_BONUS r = rr_priority r"
| "reward_column _ r = 0"

lemma sum_columns:
  assumes "map row_info rows = map pay_info infos" and "is_reward k"
  shows "sum_list (map (reward_column k) rows) = sum_list (map (reward_of k \<circ> snd) infos)"
proof -
  have "map (reward_column k) rows = map (reward_of k \<circ> snd) infos"
  proof (rule nth_equalityI)
    show len: "length (map (reward_column k) rows) = length (map (reward_of k \<circ> snd) infos)"
      using assms(1) by (metis length_map)
    fix i
    assume "i < length (map (reward_column k) rows)"
    then have "row_info (rows ! i) = pay_info (infos ! i)"
      using assms(1) len by (metis length_map nth_map)
    with \<open>i < _\<close> len assms(2) show "map (reward_column k) rows ! i = map (reward_of k \<circ> snd) infos ! i"
      by (auto simp: row_info_def pay_info_def is_reward_def)
  qed
  then show ?thesis by simp
qed

text \<open>Every block of a batch gathers rows of its own height only.\<close>

lemma block_reward_gathered:
  assumes "block_reward.gathered env blks m = (Inr (), m', new)" and "distinct (map b_height blks)" and "blk \<in> set blks"
  shows "\<exists>m1 m2. block_reward_put env blk (m1, []) = (Inr (), m2, filter (\<lambda>r. rr_height r = b_height blk) new)"
proof -
  let ?at = "filter (\<lambda>r. rr_height r = b_height blk)"
  from split_list [OF assms(3)] obtain xs ys where blks: "blks = xs @ [blk] @ ys" by auto
  from block_reward.gathered_splits [OF assms(1) [unfolded blks]] obtain m1 new1 new23
    where 1: "block_reward.gathered env xs m = (Inr (), m1, new1)"
      and 23: "block_reward.gathered env ([blk] @ ys) m1 = (Inr (), m', new23)" and "new = new1 @ new23" .
  from block_reward.gathered_splits [OF 23] obtain m2 new2 new3
    where 2: "block_reward.gathered env [blk] m1 = (Inr (), m2, new2)"
      and 3: "block_reward.gathered env ys m2 = (Inr (), m', new3)" and "new23 = new2 @ new3" .
  have heights: "rr_height r \<in> b_height ` set bs" if "block_reward.gathered env bs n = (Inr (), n', rs)" "r \<in> set rs"
    for bs n n' rs r using that
  proof (induction bs arbitrary: n rs)
    case Nil
    then show ?case by (simp add: block_reward.gathered_def)
  next
    case (Cons b bs)
    from Cons.prems(1) have "block_reward.gathered env ([b] @ bs) n = (Inr (), n', rs)" by simp
    from block_reward.gathered_splits [OF this] obtain n1 rs1 rs2
      where b: "block_reward.gathered env [b] n = (Inr (), n1, rs1)"
        and bs: "block_reward.gathered env bs n1 = (Inr (), n', rs2)" and "rs = rs1 @ rs2" .
    have "block_reward_put env b (n, []) = (Inr (), n1, rs1)"
      using b by (auto simp: block_reward.gathered_def bindS_eq_Inr)
    from block_reward_put_rows [OF this] Cons.IH [OF bs] Cons.prems(2) \<open>rs = rs1 @ rs2\<close> show ?case by auto
  qed
  have put: "block_reward_put env blk (m1, []) = (Inr (), m2, new2)"
    using 2 by (auto simp: block_reward.gathered_def bindS_eq_Inr)
  have others: "?at rs = []" if "block_reward.gathered env bs n = (Inr (), n', rs)" "b_height blk \<notin> b_height ` set bs"
    for bs n n' rs using heights [OF that(1)] that(2) unfolding filter_empty_conv by metis
  have "?at new1 = []" using others [OF 1] assms(2) by (simp add: blks)
  moreover have "?at new3 = []" using others [OF 3] assms(2) by (simp add: blks)
  moreover have "?at new2 = new2" using block_reward_put_rows [OF put] by (auto simp: filter_id_conv)
  ultimately show ?thesis using put \<open>new = new1 @ new23\<close> \<open>new23 = new2 @ new3\<close> by auto
qed

lemma sum_rows_filter: "sum_rows p f rows = sum_list (map f (filter p rows))"
  by (induction rows) auto

lemma block_reward_sums:
  assumes "block_reward_PutBlocks env f blks ((m, []), w) = (Inr (), p', w')"
    and "distinct (map b_height blks)" and "blk \<in> set blks"
    and "\<forall>r \<in> set (tables w). rr_height r \<noteq> b_height blk"
  shows "\<exists>t. RewardAt (re_unmarshal env) blk (grant_hashes blk) = Inr t \<and>
    (\<forall>k. is_reward k \<longrightarrow> sum_rows (\<lambda>r. rr_height r = b_height blk) (reward_column k) (tables w') = total_of k t)"
proof -
  from assms(1) obtain m' new where new: "block_reward.gathered env blks m = (Inr (), m', new)" "tables w' = tables w @ new"
    unfolding block_reward_PutBlocks_def by (rule block_reward.batch_ok) (simp add: insert_rows_def)
  let ?rows = "filter (\<lambda>r. rr_height r = b_height blk) new"
  from block_reward_gathered [OF new(1) assms(2,3)] obtain m1 m2
    where put: "block_reward_put env blk (m1, []) = (Inr (), m2, ?rows)" by blast
  from block_reward_put_rows [OF put] obtain infos where infos: "payouts (re_unmarshal env) blk = Inr infos"
      "map row_info ?rows = map pay_info infos" by blast
  have "filter (\<lambda>r. rr_height r = b_height blk) (tables w) = []" using assms(4) by (simp add: filter_empty_conv)
  then have "sum_rows (\<lambda>r. rr_height r = b_height blk) (reward_column k) (tables w') = sum_list (map (reward_column k) ?rows)"
    for k by (simp add: sum_rows_filter new(2))
  with RewardAt_payouts [OF infos(1)] sum_columns [OF infos(2)] show ?thesis by auto
qed

text \<open>
  The rows of block_reward add up to the rewards of the block. After a batch that goes through,
  the rows at the height of one of its blocks sum, for each of the four kinds of reward, to what
  \<open>RewardAt\<close> computes from that block, whatever names the memo gave, if there was no row of that
  height before.
\<close>

theorem block_reward_totals:
  assumes "block_reward_PutBlocks env f blks ((m, []), w) = (Inr (), p', w')"
    and "distinct (map b_height blks)" and "blk \<in> set blks"
    and "\<forall>r \<in> set (tables w). rr_height r \<noteq> b_height blk"
  shows "\<exists>t. RewardAt (re_unmarshal env) blk (grant_hashes blk) = Inr t \<and>
    (\<forall>k. is_reward k \<longrightarrow> sum_rows (\<lambda>r. rr_height r = b_height blk) (reward_column k) (tables w') = total_of k t)"
  using assms by (rule block_reward_sums)

definition sample_rewards :: reward_env where
  "sample_rewards = \<lparr>re_epochs = ten_epochs, re_unmarshal = (\<lambda>_. Inr example_rewards), re_live = (\<lambda>_. True), re_cands = Inr []\<rparr>"

definition grant_block :: "u64 \<Rightarrow> block" where
  "grant_block h = \<lparr>b_height = h, b_timestamp = 0,
     b_actions = [\<lparr>e_hash = [9], e_sender = ''io1'', e_action = GrantReward EpochReward\<rparr>],
     b_receipts = [\<lparr>r_status = 1, r_action_hash = [9], r_gas_consumed = 3, r_tx_index = 0,
       r_logs = [example_reward_log], r_tx_logs = []\<rparr>]\<rparr>"

lemma grant_hashes_sample: "grant_hashes (grant_block h) = {[9]}"
  by (simp add: grant_hashes_def grant_block_def)

lemma reward_sample:
  "RewardInfoFromReceipt (re_unmarshal sample_rewards) [example_reward_log] = Inr [(''io1'', no_rewards\<lparr>EpochReward_of := 12\<rparr>)]"
  "b_receipts (grant_block h) = [\<lparr>r_status = 1, r_action_hash = [9], r_gas_consumed = 3, r_tx_index = 0,
       r_logs = [example_reward_log], r_tx_logs = []\<rparr>]"
  by (simp_all add: sample_rewards_def grant_block_def example_reward_run)

lemma name_sample:
  "getCandidateNameByAddress sample_rewards addr (m, buf) =
     (case m (''000'' @ addr) of None \<Rightarrow> (Inr [], m(''000'' @ addr \<mapsto> []), buf) | Some name \<Rightarrow> (Inr name, m, buf))"
  by (simp add: getCandidateNameByAddress_def sample_rewards_def newest_name_def Let_def split: option.splits)

theorem block_reward_totals_witness:
  "\<exists>m' w'. block_reward_PutBlocks sample_rewards no_faults [grant_block 5, grant_block 6] ((Map.empty, []), fresh_tables [])
      = (Inr (), (m', []), w')
    \<and> sum_rows (\<lambda>r. rr_height r = 6) rr_epoch_reward (tables w') = 12"
proof -
  obtain m' w' where run: "block_reward_PutBlocks sample_rewards no_faults [grant_block 5, grant_block 6]
      ((Map.empty, []), fresh_tables []) = (Inr (), (m', []), w')"
    by (simp add: block_reward_PutBlocks_def row_run block_reward_put_def grant_hashes_sample reward_sample name_sample
        collectRewardRows_def Let_def)
  obtain t where t: "RewardAt (re_unmarshal sample_rewards) (grant_block 6) (grant_hashes (grant_block 6)) = Inr t"
      "\<forall>k. is_reward k \<longrightarrow> sum_rows (\<lambda>r. rr_height r = 6) (reward_column k) (tables w') = total_of k t"
    using block_reward_totals [OF run, of "grant_block 6"] by (auto simp: grant_block_def fresh_tables_def)
  moreover from t(1) have "rt_epoch t = 12"
    by (auto simp: RewardAt_def sample_rewards_def grant_block_def grant_hashes_def example_reward_run add_info_def no_rewards_def)
  moreover have "reward_column RL_EPOCH_REWARD = rr_epoch_reward" by (simp add: fun_eq_iff)
  ultimately have "sum_rows (\<lambda>r. rr_height r = 6) rr_epoch_reward (tables w') = 12"
    by (metis is_reward_def insertCI total_of.simps(2))
  with run show ?thesis by blast
qed

end
