(* ===== verification/RewardHistory.thy ===== *)
theory RewardHistory
  imports RewardRows
begin

text \<open>
  plugins/reward_history: a row per payout, with the name of the delegate that an address belongs to
  and the role the address plays. The two maps are package variables: they are filled at the first
  block of an epoch, from the candidates at the start of the epoch before, and lost with the process.
\<close>

record history_row =
  rh_height :: u64
  rh_epoch :: u64
  rh_address :: string
  rh_kind :: string
  rh_hash :: hash256
  rh_name :: string
  rh_block :: int
  rh_epoch_reward :: int
  rh_foundation :: int

record history_maps =
  RewardAddrToName :: "string \<Rightarrow> string list"
  PayoutAddrKind :: "string \<rightharpoonup> string"

text \<open>A nil map and an empty map read the same, and the handler makes the maps before it writes.\<close>

definition no_names :: history_maps where
  "no_names = \<lparr>RewardAddrToName = (\<lambda>_. []), PayoutAddrKind = Map.empty\<rparr>"

definition addName :: "string \<Rightarrow> string \<Rightarrow> history_maps \<Rightarrow> history_maps" where
  "addName addr name m =
     (if addr = [] \<or> name \<in> set (RewardAddrToName m addr) then m
      else m\<lparr>RewardAddrToName := (RewardAddrToName m)(addr := RewardAddrToName m addr @ [name])\<rparr>)"

definition setPayoutKind :: "string \<Rightarrow> string \<Rightarrow> history_maps \<Rightarrow> history_maps" where
  "setPayoutKind addr kind m =
     (if addr = [] then m
      else case PayoutAddrKind m addr of
             Some prev \<Rightarrow> if prev \<noteq> kind then m\<lparr>PayoutAddrKind := (PayoutAddrKind m)(addr \<mapsto> ''reward'')\<rparr>
                          else m\<lparr>PayoutAddrKind := (PayoutAddrKind m)(addr \<mapsto> kind)\<rparr>
           | None \<Rightarrow> m\<lparr>PayoutAddrKind := (PayoutAddrKind m)(addr \<mapsto> kind)\<rparr>)"

definition index_rewards :: "node_candidate list \<Rightarrow> history_maps \<Rightarrow> history_maps" where
  "index_rewards = fold (\<lambda>c m. setPayoutKind (nc_reward c) ''reward'' (addName (nc_reward c) (nc_name c) m))"

definition index_owners :: "node_candidate list \<Rightarrow> history_maps \<Rightarrow> history_maps" where
  "index_owners = fold (\<lambda>c m. if nc_owner c = [] \<or> nc_owner c = nc_reward c then m
     else setPayoutKind (nc_owner c) ''owner'' (addName (nc_owner c) (nc_name c) m))"

definition index_candidates :: "node_candidate list \<Rightarrow> history_maps" where
  "index_candidates cs = index_owners cs (index_rewards cs no_names)"

definition name_of :: "history_maps \<Rightarrow> string \<Rightarrow> string" where
  "name_of m addr = (case RewardAddrToName m addr of [] \<Rightarrow> [] | name # _ \<Rightarrow> name)"

definition kind_of :: "history_maps \<Rightarrow> string \<Rightarrow> string" where
  "kind_of m addr = (case PayoutAddrKind m addr of None \<Rightarrow> [] | Some k \<Rightarrow> k)"

definition history_row_of ::
  "u64 \<Rightarrow> u64 \<Rightarrow> receipt \<Rightarrow> history_maps \<Rightarrow> string \<times> reward_info \<Rightarrow> history_row" where
  "history_row_of h e r m kv =
     \<lparr>rh_height = h, rh_epoch = e, rh_address = fst kv, rh_kind = kind_of m (fst kv), rh_hash = r_action_hash r,
       rh_name = name_of m (fst kv), rh_block = BlockReward_of (snd kv), rh_epoch_reward = EpochReward_of (snd kv),
       rh_foundation = FoundationBonus_of (snd kv)\<rparr>"

text \<open>The two halves of \<open>putBlock\<close>: the maps, and the rows of the granting receipts.\<close>

definition refresh_names ::
  "list_env \<Rightarrow> u64 \<Rightarrow> (history_maps, history_row) row_plugin \<Rightarrow> unit res \<times> (history_maps, history_row) row_plugin" where
  "refresh_names env h =
     (let e = GetEpochNum (li_epochs env) h in
      if epoch_start (li_epochs env) h \<and> FairbankEffectiveHeight (li_epochs env) \<le> h
      then bindS (decodedS (GetAllStakingCandidates env (GetEpochHeight (li_epochs env) (e - 1)))) (\<lambda>cs.
             updS (\<lambda>(m, buf). (index_candidates cs, buf)))
      else updS id)"

definition history_receipt ::
  "(byte list \<Rightarrow> reward_log list res) \<Rightarrow> u64 \<Rightarrow> u64 \<Rightarrow> hash256 set \<Rightarrow> receipt \<Rightarrow>
   (history_maps, history_row) row_plugin \<Rightarrow> unit res \<times> (history_maps, history_row) row_plugin" where
  "history_receipt unmarshal h e grants r =
     (if r_action_hash r \<notin> grants then updS id
      else bindS (decodedS (RewardInfoFromReceipt unmarshal (r_logs r))) (\<lambda>infos.
             updS (\<lambda>(m, buf). (m, buf @ map (history_row_of h e r m) infos))))"

definition history_put ::
  "list_env \<Rightarrow> (byte list \<Rightarrow> reward_log list res) \<Rightarrow> block \<Rightarrow> (history_maps, history_row) row_plugin \<Rightarrow>
   unit res \<times> (history_maps, history_row) row_plugin" where
  "history_put env unmarshal blk =
     bindS (refresh_names env (b_height blk)) (\<lambda>_.
       eachS (history_receipt unmarshal (b_height blk) (GetEpochNum (li_epochs env) (b_height blk)) (grant_hashes blk))
         (b_receipts blk))"

definition history_PutBlocks ::
  "list_env \<Rightarrow> (byte list \<Rightarrow> reward_log list res) \<Rightarrow> tx_faults \<Rightarrow> block list \<Rightarrow>
   (history_maps, history_row) row_plugin \<times> history_row list world \<Rightarrow>
   unit res \<times> (history_maps, history_row) row_plugin \<times> history_row list world" where
  "history_PutBlocks env unmarshal = row_PutBlocks (history_put env unmarshal) insert_rows ''reward_history''"

definition history_PutBlock ::
  "list_env \<Rightarrow> (byte list \<Rightarrow> reward_log list res) \<Rightarrow> tx_faults \<Rightarrow> block \<Rightarrow>
   (history_maps, history_row) row_plugin \<times> history_row list world \<Rightarrow>
   unit res \<times> (history_maps, history_row) row_plugin \<times> history_row list world" where
  "history_PutBlock env unmarshal = row_PutBlock (history_put env unmarshal) insert_rows ''reward_history''"

lemma appending_receipt: "appending (history_receipt unmarshal h e grants r)"
proof (rule appendingI)
  fix m :: history_maps
  show "\<exists>x m' new. \<forall>buf. history_receipt unmarshal h e grants r (m, buf) = (x, m', buf @ new)"
    by (cases "RewardInfoFromReceipt unmarshal (r_logs r)") (auto simp: history_receipt_def updS_def)
qed

lemma appending_refresh: "appending (refresh_names env h)"
proof (rule appendingI)
  fix m :: history_maps
  show "\<exists>x m' new. \<forall>buf. refresh_names env h (m, buf) = (x, m', buf @ new)"
    by (cases "GetAllStakingCandidates env (GetEpochHeight (li_epochs env) (GetEpochNum (li_epochs env) h - 1))")
      (auto simp: refresh_names_def updS_def Let_def)
qed

interpretation history: row_sink "history_put env unmarshal" insert_rows "''reward_history''" for env unmarshal
  by unfold_locales
    (simp add: history_put_def appending_bindS appending_eachS appending_receipt appending_refresh)

subsection \<open>Whose address it is\<close>




lemma RewardAddrToName_addName:
  "RewardAddrToName (addName a n m) b =
     (if a = b \<and> a \<noteq> [] \<and> n \<notin> set (RewardAddrToName m b) then RewardAddrToName m b @ [n] else RewardAddrToName m b)"
  by (simp add: addName_def)

lemma addName_nonempty: "a \<noteq> [] \<Longrightarrow> RewardAddrToName (addName a n m) a \<noteq> []"
  by (auto simp: RewardAddrToName_addName)

lemma other_parts [simp]:
  "RewardAddrToName (setPayoutKind a k m) = RewardAddrToName m"
  "PayoutAddrKind (addName a n m) = PayoutAddrKind m"
  by (simp_all add: setPayoutKind_def addName_def split: option.splits)


lemma name_of_setPayoutKind [simp]: "name_of (setPayoutKind b k m) a = name_of m a"
  by (simp add: name_of_def)









subsection \<open>Properties\<close>

lemma refresh_elsewhere:
  "\<not> (epoch_start (li_epochs env) h \<and> FairbankEffectiveHeight (li_epochs env) \<le> h) \<Longrightarrow>
    refresh_names env h s = (Inr (), s)"
  by (auto simp: refresh_names_def Let_def updS_def)

lemma history_receipt_steps:
  "r_action_hash r \<notin> grants \<Longrightarrow> history_receipt unmarshal h e grants r (m, buf) = (Inr (), m, buf)"
  "r_action_hash r \<in> grants \<Longrightarrow> RewardInfoFromReceipt unmarshal (r_logs r) = Inl err \<Longrightarrow>
    history_receipt unmarshal h e grants r (m, buf) = (Inl err, m, buf)"
  "r_action_hash r \<in> grants \<Longrightarrow> RewardInfoFromReceipt unmarshal (r_logs r) = Inr infos \<Longrightarrow>
    history_receipt unmarshal h e grants r (m, buf) = (Inr (), m, buf @ map (history_row_of h e r m) infos)"
  by (simp_all add: history_receipt_def updS_def)

lemma receipts_keep_maps:
  "eachS (history_receipt unmarshal h e grants) rs (m, buf) = (x, m', buf') \<Longrightarrow>
    m' = m \<and> (\<exists>infos. buf' = buf @ map (\<lambda>(r, kv). history_row_of h e r m kv) infos)"
proof (induction rs arbitrary: buf)
  case Nil
  have "buf' = buf @ map (\<lambda>(r, kv). history_row_of h e r m kv) []" using Nil by simp
  with Nil show ?case by auto
next
  case (Cons r rs)
  show ?case
  proof (cases "r_action_hash r \<in> grants")
    case False
    with Cons.prems have "eachS (history_receipt unmarshal h e grants) rs (m, buf) = (x, m', buf')"
      by (simp add: history_receipt_steps)
    from Cons.IH [OF this] show ?thesis .
  next
    case True
    show ?thesis
    proof (cases "RewardInfoFromReceipt unmarshal (r_logs r)")
      case (Inl err)
      with True Cons.prems have "m' = m" and "buf' = buf @ map (\<lambda>(r, kv). history_row_of h e r m kv) []"
        by (simp_all add: history_receipt_steps)
      then show ?thesis by blast
    next
      case (Inr infos)
      with True Cons.prems have "eachS (history_receipt unmarshal h e grants) rs
          (m, buf @ map (history_row_of h e r m) infos) = (x, m', buf')"
        by (simp add: history_receipt_steps)
      from Cons.IH [OF this] obtain infos' where "m' = m"
        and "buf' = (buf @ map (history_row_of h e r m) infos) @ map (\<lambda>(r, kv). history_row_of h e r m kv) infos'" by blast
      then have "m' = m" and "buf' = buf @ map (\<lambda>(r, kv). history_row_of h e r m kv) (map (Pair r) infos @ infos')"
        by (simp_all add: comp_def)
      then show ?thesis by blast
    qed
  qed
qed

text \<open>Blocks that do not start an epoch leave the maps alone and resolve against them.\<close>

definition named_by :: "history_maps \<Rightarrow> history_row \<Rightarrow> bool" where
  "named_by m r \<longleftrightarrow> rh_name r = name_of m (rh_address r) \<and> rh_kind r = kind_of m (rh_address r)"

lemma history_put_within:
  assumes "refresh_names env (b_height b) (m, []) = (Inr (), m1, [])"
    and "history_put env unmarshal b (m, []) = (x, m', new)"
  shows "m' = m1 \<and> (\<forall>r \<in> set new. named_by m1 r)"
proof -
  from assms have "eachS (history_receipt unmarshal (b_height b) (GetEpochNum (li_epochs env) (b_height b)) (grant_hashes b))
      (b_receipts b) (m1, []) = (x, m', new)" by (simp add: history_put_def)
  from receipts_keep_maps [OF this] show ?thesis by (auto simp: named_by_def history_row_of_def)
qed

lemma history_gathered_within:
  assumes "\<forall>b \<in> set blks. \<not> (epoch_start (li_epochs env) (b_height b) \<and> FairbankEffectiveHeight (li_epochs env) \<le> b_height b)"
  shows "history.gathered env unmarshal blks m = (Inr (), m', new) \<Longrightarrow> m' = m \<and> (\<forall>r \<in> set new. named_by m r)"
  using assms
proof (induction blks arbitrary: new)
  case Nil
  then show ?case by (simp add: history.gathered_def)
next
  case (Cons b blks)
  from Cons.prems(1) have "history.gathered env unmarshal ([b] @ blks) m = (Inr (), m', new)" by simp
  from history.gathered_splits [OF this] obtain m1 new1 new2
    where b: "history.gathered env unmarshal [b] m = (Inr (), m1, new1)"
      and bs: "history.gathered env unmarshal blks m1 = (Inr (), m', new2)" and "new = new1 @ new2" .
  have "history_put env unmarshal b (m, []) = (Inr (), m1, new1)"
    using b by (auto simp: history.gathered_def bindS_eq_Inr)
  moreover have "refresh_names env (b_height b) (m, []) = (Inr (), m, [])"
    using Cons.prems(2) by (intro refresh_elsewhere) simp
  ultimately have 1: "m1 = m \<and> (\<forall>r \<in> set new1. named_by m r)" by (intro history_put_within)
  with bs Cons.IH [of new2] Cons.prems(2) \<open>new = new1 @ new2\<close> show ?case by auto
qed







definition sample_payout :: "byte list \<Rightarrow> reward_log list res" where
  "sample_payout bs = Inr [\<lparr>rl_type = RL_EPOCH_REWARD, rl_addr = ''io1rw'', rl_amount = ''5''\<rparr>]"

lemma sample_payout_run:
  "RewardInfoFromReceipt sample_payout [example_reward_log] = Inr [(''io1rw'', no_rewards\<lparr>EpochReward_of := 5\<rparr>)]"
  by (simp add: RewardInfoFromReceipt_def example_reward_log_def sample_payout_def reward_entry_def parse_int10_def
      parse_nat_def digit_value_def Let_def no_rewards_def)

definition sample_maps :: "u64 \<Rightarrow> history_maps" where
  "sample_maps h = (if epoch_start ten_epochs h \<and> 10 \<le> h then index_candidates [sample_candidate ''a'' ''5''] else no_names)"

definition sample_row :: "u64 \<Rightarrow> history_row" where
  "sample_row h = history_row_of h (GetEpochNum ten_epochs h) (hd (b_receipts (grant_block h))) (sample_maps h)
     (''io1rw'', no_rewards\<lparr>EpochReward_of := 5\<rparr>)"

lemma sample_history_put: "history_put sample_lists sample_payout (grant_block h) (no_names, []) = (Inr (), sample_maps h, [sample_row h])"
proof -
  obtain r where r: "b_receipts (grant_block h) = [r]" "r_action_hash r = [9]" "r_logs r = [example_reward_log]"
    and h: "b_height (grant_block h) = h" by (simp add: grant_block_def)
  have "FairbankEffectiveHeight ten_epochs = 10" by (simp add: FairbankEffectiveHeight_def ten_epochs_def)
  then have "refresh_names sample_lists h (no_names, []) = (Inr (), sample_maps h, [])"
    by (simp add: refresh_names_def sample_maps_def Let_def updS_def)
  moreover have "history_receipt sample_payout h e {[9]} r (m, []) =
      (Inr (), m, [history_row_of h e r m (''io1rw'', no_rewards\<lparr>EpochReward_of := 5\<rparr>)])" for e m
    using r sample_payout_run by (simp add: history_receipt_steps)
  ultimately show ?thesis
    by (simp add: history_put_def h r(1) grant_hashes_sample sample_row_def)
qed

lemma sample_history_run:
  "\<exists>w'. history_PutBlocks sample_lists sample_payout no_faults [grant_block h] ((no_names, []), fresh_tables []) =
     (Inr (), (sample_maps h, []), w') \<and> tables w' = [sample_row h]"
  by (simp add: history_PutBlocks_def row_PutBlocks_def row_commit_def buf_PutBlocks_def buf_commit_def
      sample_history_put index_tx_no_faults insert_rows_def fresh_tables_def)


text \<open>
  A restart blanks the rest of the epoch. The maps live in the process; until the first block of
  the next epoch, a process that starts anew writes rows without name and without kind, whoever was
  paid.
\<close>

theorem history_restart_blanks:
  assumes "history_PutBlocks env unmarshal f blks ((no_names, []), w) = (Inr (), p', w')"
    and "\<forall>b \<in> set blks. \<not> epoch_start (li_epochs env) (b_height b)"
  shows "\<exists>new. tables w' = tables w @ new \<and> (\<forall>r \<in> set new. rh_name r = [] \<and> rh_kind r = [])"
proof -
  from assms(1) obtain m' new where new: "history.gathered env unmarshal blks no_names = (Inr (), m', new)"
      "tables w' = tables w @ new"
    unfolding history_PutBlocks_def by (rule history.batch_ok) (simp add: insert_rows_def)
  from history_gathered_within [OF _ new(1)] assms(2) have "\<forall>r \<in> set new. named_by no_names r" by auto
  with new(2) show ?thesis by (auto simp: named_by_def name_of_def kind_of_def no_names_def)
qed

theorem history_restart_blanks_witness:
  "\<exists>p' w'. history_PutBlocks sample_lists sample_payout no_faults [grant_block 21] ((no_names, []), fresh_tables []) = (Inr (), p', w')
    \<and> map rh_address (tables w') = [''io1rw''] \<and> map rh_name (tables w') = [[]]"
proof -
  obtain p' w' where run: "history_PutBlocks sample_lists sample_payout no_faults [grant_block 21]
      ((no_names, []), fresh_tables []) = (Inr (), p', w')" and rows: "tables w' = [sample_row 21]"
    using sample_history_run by blast
  have addr: "map rh_address (tables w') = [''io1rw'']" by (simp add: rows sample_row_def history_row_of_def)
  from history_restart_blanks [OF run] obtain new where "tables w' = new" "\<forall>r \<in> set new. rh_name r = []"
    by (auto simp: fresh_tables_def epoch_start_def ten_epochs_def grant_block_def)
  with run addr show ?thesis by auto
qed

end
