(* ===== verification/BlockMeta.thy ===== *)
theory BlockMeta
  imports RewardRows
begin

text \<open>
  A row per block: plugins/block_meta, with the active producers of the epoch and their names in
  memory, rows upserted by height and a repair of epoch numbers at a configured height, and
  plugins/block_meta_v2, which writes block by block and names producers by the owner of their
  candidate. The header fields of a block the rows copy are functions of the block.
\<close>

record meta_row =
  mt_height :: u64
  mt_gas :: u64
  mt_name :: string
  mt_address :: string
  mt_expected_name :: string
  mt_expected_address :: string
  mt_block :: int
  mt_epoch_reward :: int
  mt_foundation :: int
  mt_priority :: int
  mt_epoch :: u64
  mt_epoch_height :: u64
  mt_size :: u64
  mt_base_fee :: int
  mt_blob_gas :: u64
  mt_excess_blob :: u64

text \<open>
  \<open>me_active\<close> is the node's list of the active producers of an epoch, \<open>me_cands\<close> the table
  candidate as a query outside the transaction sees it, \<open>me_revise_fault\<close> a refused repair.
\<close>

record meta_env =
  me_epochs :: epochs
  me_revise :: u64
  me_wake :: u64
  me_active :: "u64 \<Rightarrow> string list res"
  me_cands :: "cand_row list res"
  me_unmarshal :: "byte list \<Rightarrow> reward_log list res"
  me_producer :: "block \<Rightarrow> string"
  me_size :: "block \<Rightarrow> u64 res"
  me_base_fee :: "block \<Rightarrow> int option"
  me_blob_gas :: "block \<Rightarrow> u64"
  me_excess_blob :: "block \<Rightarrow> u64"
  me_revise_fault :: bool

text \<open>
  The memory of block_meta. The repair writes to the table while a batch is gathered, so the table
  is part of what \<open>putBlock\<close> changes.
\<close>

record meta_mem =
  mm_active :: "string list option"
  mm_cache :: "(string \<rightharpoonup> string) option"
  mm_table :: "meta_row list"

definition operator_row :: "cand_row list \<Rightarrow> u64 \<Rightarrow> string \<Rightarrow> cand_row option" where
  "operator_row cands h addr = last_row (\<lambda>r. cr_height r \<le> h \<and> cr_operator r = addr) cands"

definition getCandidateName :: "meta_env \<Rightarrow> u64 \<Rightarrow> string \<Rightarrow> string" where
  "getCandidateName env h addr =
     (case me_cands env of
        Inl e \<Rightarrow> []
      | Inr cands \<Rightarrow> (case operator_row cands h addr of None \<Rightarrow> [] | Some r \<Rightarrow> cr_name r))"

definition getCandidateNamesBatch :: "meta_env \<Rightarrow> u64 \<Rightarrow> string list \<Rightarrow> (string \<rightharpoonup> string) res" where
  "getCandidateNamesBatch env h addrs =
     (if addrs = [] then Inr Map.empty
      else map_res (\<lambda>cands addr. if addr \<in> set addrs then map_option cr_name (operator_row cands h addr) else None)
             (me_cands env))"

definition updateActiveBlockProducers ::
  "meta_env \<Rightarrow> u64 \<Rightarrow> (meta_mem, 'r) row_plugin \<Rightarrow> unit res \<times> (meta_mem, 'r) row_plugin" where
  "updateActiveBlockProducers env e =
     bindS (decodedS (me_active env e)) (\<lambda>addrs.
     bindS (updS (\<lambda>(m, buf). (m\<lparr>mm_active := Some addrs\<rparr>, buf))) (\<lambda>_.
     bindS (decodedS (getCandidateNamesBatch env (GetEpochHeight (me_epochs env) e) addrs)) (\<lambda>cache.
     updS (\<lambda>(m, buf). (m\<lparr>mm_cache := Some cache\<rparr>, buf)))))"

definition lookupCandidateName :: "meta_env \<Rightarrow> meta_mem \<Rightarrow> u64 \<Rightarrow> string \<Rightarrow> string" where
  "lookupCandidateName env m h addr =
     (case Option.bind (mm_cache m) (\<lambda>c. c addr) of None \<Rightarrow> getCandidateName env h addr | Some name \<Rightarrow> name)"

definition revise_row :: "meta_env \<Rightarrow> meta_row \<Rightarrow> meta_row" where
  "revise_row env r =
     (if me_wake env \<le> mt_height r then r\<lparr>mt_epoch := GetEpochNum (me_epochs env) (mt_height r)\<rparr> else r)"

definition reviseEpochNumber :: "meta_env \<Rightarrow> meta_mem \<Rightarrow> meta_mem" where
  "reviseEpochNumber env m =
     (if me_revise_fault env then m else m\<lparr>mm_table := map (revise_row env) (mm_table m)\<rparr>)"

text \<open>\<open>producers[int(height) % len(producers)]\<close>: a height that is negative as an \<open>int\<close> panics.\<close>

definition producer_at :: "u64 \<Rightarrow> string list \<Rightarrow> string res" where
  "producer_at h addrs =
     (let x = sint h; n = int (length addrs) in
      if 0 \<le> x then idx addrs (nat (x mod n))
      else if (- x) mod n = 0 then idx addrs 0 else Inl (Panic ''index out of range''))"

definition expected_producer :: "u64 \<Rightarrow> string list option \<Rightarrow> string option res" where
  "expected_producer h active =
     (case active of
        None \<Rightarrow> Inr None
      | Some addrs \<Rightarrow> if addrs = [] then Inr None else map_res Some (producer_at h addrs))"

definition meta_row_of :: "meta_env \<Rightarrow> meta_mem \<Rightarrow> block \<Rightarrow> reward_totals \<Rightarrow> string option \<Rightarrow> u64 \<Rightarrow> meta_row" where
  "meta_row_of env m blk t expected sz =
     (let h = b_height blk; e = GetEpochNum (me_epochs env) h; prod_addr = me_producer env blk;
          prod_name = lookupCandidateName env m h prod_addr in
      \<lparr>mt_height = h, mt_gas = rt_gas t, mt_name = prod_name, mt_address = prod_addr,
        mt_expected_name = (case expected of None \<Rightarrow> []
          | Some a \<Rightarrow> if prod_addr = a then prod_name else lookupCandidateName env m h a),
        mt_expected_address = (case expected of None \<Rightarrow> [] | Some a \<Rightarrow> a),
        mt_block = rt_block t, mt_epoch_reward = rt_epoch t, mt_foundation = rt_foundation t, mt_priority = rt_priority t,
        mt_epoch = e, mt_epoch_height = GetEpochHeight (me_epochs env) e, mt_size = sz,
        mt_base_fee = (case me_base_fee env blk of None \<Rightarrow> 0 | Some f \<Rightarrow> f),
        mt_blob_gas = me_blob_gas env blk, mt_excess_blob = me_excess_blob env blk\<rparr>)"

definition needs_producers :: "epochs \<Rightarrow> u64 \<Rightarrow> string list option \<Rightarrow> bool" where
  "needs_producers ep h active \<longleftrightarrow> epoch_start ep h \<or> active = None"

definition meta_prepare ::
  "meta_env \<Rightarrow> block \<Rightarrow> (meta_mem, meta_row) row_plugin \<Rightarrow> unit res \<times> (meta_mem, meta_row) row_plugin" where
  "meta_prepare env blk s =
     (let h = b_height blk in
      bindS (if needs_producers (me_epochs env) h (mm_active (fst s))
             then updateActiveBlockProducers env (GetEpochNum (me_epochs env) h) else updS id) (\<lambda>_.
        updS (\<lambda>(m, buf). (if 0 < me_revise env \<and> h = me_revise env then reviseEpochNumber env m else m, buf))) s)"

definition meta_gather ::
  "meta_env \<Rightarrow> block \<Rightarrow> (meta_mem, meta_row) row_plugin \<Rightarrow> unit res \<times> (meta_mem, meta_row) row_plugin" where
  "meta_gather env blk s =
     bindS (decodedS (RewardAt (me_unmarshal env) blk (grant_hashes blk))) (\<lambda>t.
     bindS (decodedS (expected_producer (b_height blk) (mm_active (fst s)))) (\<lambda>expected.
     bindS (decodedS (me_size env blk)) (\<lambda>sz.
     emit [meta_row_of env (fst s) blk t expected sz]))) s"

definition meta_put ::
  "meta_env \<Rightarrow> block \<Rightarrow> (meta_mem, meta_row) row_plugin \<Rightarrow> unit res \<times> (meta_mem, meta_row) row_plugin" where
  "meta_put env blk = bindS (meta_prepare env blk) (\<lambda>_. meta_gather env blk)"

subsection \<open>Writing\<close>

text \<open>
  The height is the primary key. \<open>ON CONFLICT DO UPDATE\<close> replaces all columns, and refuses a
  statement that names a row twice; \<open>CreateInBatches\<close> makes one statement of a thousand rows.
\<close>

definition upsert_meta :: "meta_row \<Rightarrow> meta_row list \<Rightarrow> meta_row list" where
  "upsert_meta r t =
     (if mt_height r \<in> mt_height ` set t then map (\<lambda>r'. if mt_height r' = mt_height r then r else r') t else t @ [r])"

definition upsert_metas :: "meta_row list \<Rightarrow> meta_row list \<Rightarrow> meta_row list res" where
  "upsert_metas rows t = (if distinct (map mt_height rows) then Inr (fold upsert_meta rows t) else Inl DbError)"

function in_chunks :: "nat \<Rightarrow> 'a list \<Rightarrow> 'a list list" where
  "in_chunks n xs = (if xs = [] \<or> n = 0 then [] else take n xs # in_chunks n (drop n xs))"
  by pat_completeness auto

termination
  by (relation "measure (\<lambda>(n, xs). length xs)") auto

declare in_chunks.simps [simp del]

definition store_metas :: "meta_row list \<Rightarrow> meta_row list \<Rightarrow> meta_row list res" where
  "store_metas rows = foldE upsert_metas (in_chunks 1000 rows)"

text \<open>The repair is in the table when the batch commits, and also when it does not.\<close>

definition meta_PutBlocks ::
  "meta_env \<Rightarrow> tx_faults \<Rightarrow> block list \<Rightarrow> (meta_mem, meta_row) row_plugin \<times> meta_row list world \<Rightarrow>
   unit res \<times> (meta_mem, meta_row) row_plugin \<times> meta_row list world" where
  "meta_PutBlocks env f blks s =
     (case s of ((m, buf), w) \<Rightarrow>
        (case eachS (meta_put env) blks (m\<lparr>mm_table := tables w\<rparr>, buf) of
           (r, m', buf') \<Rightarrow>
             (let w1 = w\<lparr>tables := mm_table m'\<rparr> in
              case bindE r (\<lambda>_. last_elem blks) of
                Inl e \<Rightarrow> (Inl e, (m', buf'), w1)
              | Inr b \<Rightarrow> row_commit store_metas ''block_meta'' f (b_height b) ((m', buf'), w1))))"

definition meta_PutBlock ::
  "meta_env \<Rightarrow> tx_faults \<Rightarrow> block \<Rightarrow> (meta_mem, meta_row) row_plugin \<times> meta_row list world \<Rightarrow>
   unit res \<times> (meta_mem, meta_row) row_plugin \<times> meta_row list world" where
  "meta_PutBlock env f blk s =
     (case s of ((m, buf), w) \<Rightarrow>
        (case meta_put env blk (m\<lparr>mm_table := tables w\<rparr>, buf) of
           (r, m', buf') \<Rightarrow>
             (let w1 = w\<lparr>tables := mm_table m'\<rparr> in
              case r of
                Inl e \<Rightarrow> (Inl e, (m', buf'), w1)
              | Inr u \<Rightarrow> row_commit store_metas ''block_meta'' f (b_height blk) ((m', buf'), w1))))"

lemma meta_PutBlock_single: "meta_PutBlocks env f [b] s = meta_PutBlock env f b s"
  by (auto simp: meta_PutBlocks_def meta_PutBlock_def bindS_def Let_def split: prod.splits sum.splits)

subsection \<open>block\_meta\_v2\<close>

record meta_v2_row =
  m2_height :: u64
  m2_gas :: u64
  m2_name :: string
  m2_address :: string
  m2_expected_name :: string
  m2_expected_address :: string
  m2_block :: int
  m2_epoch_reward :: int
  m2_foundation :: int
  m2_epoch :: u64
  m2_epoch_height :: u64
  m2_size :: u64

definition candidate_name_owner :: "meta_env \<Rightarrow> u64 \<Rightarrow> string \<Rightarrow> string \<times> string" where
  "candidate_name_owner env h addr =
     (case me_cands env of
        Inl e \<Rightarrow> ([], [])
      | Inr cands \<Rightarrow> (case operator_row cands h addr of None \<Rightarrow> ([], []) | Some r \<Rightarrow> (cr_name r, cr_owner r)))"

definition meta_v2_row_of :: "meta_env \<Rightarrow> block \<Rightarrow> reward_totals \<Rightarrow> string option \<Rightarrow> u64 \<Rightarrow> meta_v2_row" where
  "meta_v2_row_of env blk t expected sz =
     (let h = b_height blk; e = GetEpochNum (me_epochs env) h; prod_addr = me_producer env blk;
          prod_who = candidate_name_owner env h prod_addr;
          expected_who = (case expected of None \<Rightarrow> ([], [])
            | Some a \<Rightarrow> if prod_addr = a then prod_who else candidate_name_owner env h a) in
      \<lparr>m2_height = h, m2_gas = rt_gas t, m2_name = fst prod_who, m2_address = snd prod_who,
        m2_expected_name = fst expected_who, m2_expected_address = snd expected_who,
        m2_block = rt_block t, m2_epoch_reward = rt_epoch t, m2_foundation = rt_foundation t,
        m2_epoch = e, m2_epoch_height = GetEpochHeight (me_epochs env) e, m2_size = sz\<rparr>)"

definition create_meta_v2 :: "meta_v2_row \<Rightarrow> meta_v2_row list \<Rightarrow> meta_v2_row list res" where
  "create_meta_v2 r t = (if m2_height r \<in> m2_height ` set t then Inl DbError else Inr (t @ [r]))"

definition updateActiveBlockProducers_v2 :: "meta_env \<Rightarrow> u64 \<Rightarrow> string list option \<Rightarrow> string list option res" where
  "updateActiveBlockProducers_v2 env h active =
     (if needs_producers (me_epochs env) h active
      then map_res Some (me_active env (GetEpochNum (me_epochs env) h)) else Inr active)"

definition meta_v2_PutBlock ::
  "meta_env \<Rightarrow> tx_faults \<Rightarrow> block \<Rightarrow> string list option \<times> meta_v2_row list world \<Rightarrow>
   unit res \<times> string list option \<times> meta_v2_row list world" where
  "meta_v2_PutBlock env f blk s =
     (case s of (active, w) \<Rightarrow>
        (case updateActiveBlockProducers_v2 env (b_height blk) active of
           Inl e \<Rightarrow> (Inl e, active, w)
         | Inr active' \<Rightarrow>
             (case bindE (RewardAt (me_unmarshal env) blk (grant_hashes blk)) (\<lambda>t.
                   bindE (expected_producer (b_height blk) active') (\<lambda>expected.
                   map_res (meta_v2_row_of env blk t expected) (me_size env blk))) of
                Inl e \<Rightarrow> (Inl e, active', w)
              | Inr r \<Rightarrow>
                  (case index_tx f ''block_meta_v2'' (Inr (b_height blk)) (create_meta_v2 r) w of
                     (x, w') \<Rightarrow> (x, active', w')))))"

subsection \<open>What a batch writes\<close>

fun meta_column :: "reward_log_type \<Rightarrow> meta_row \<Rightarrow> int" where
  "meta_column RL_BLOCK_REWARD r = mt_block r"
| "meta_column RL_EPOCH_REWARD r = mt_epoch_reward r"
| "meta_column RL_FOUNDATION_BONUS r = mt_foundation r"
| "meta_column RL_PRIORITY_BONUS r = mt_priority r"
| "meta_column _ r = 0"

definition row_for :: "meta_env \<Rightarrow> block \<Rightarrow> meta_row \<Rightarrow> bool" where
  "row_for env blk r \<longleftrightarrow>
     mt_height r = b_height blk \<and> mt_epoch r = GetEpochNum (me_epochs env) (b_height blk) \<and>
     (\<exists>t. RewardAt (me_unmarshal env) blk (grant_hashes blk) = Inr t \<and> mt_gas r = rt_gas t \<and>
       (\<forall>k. is_reward k \<longrightarrow> meta_column k r = total_of k t))"

lemma reviseEpochNumber_heights [simp]: "map mt_height (mm_table (reviseEpochNumber env m)) = map mt_height (mm_table m)"
  by (simp add: reviseEpochNumber_def revise_row_def comp_def)

lemma updateActiveBlockProducers_parts:
  "updateActiveBlockProducers env e (m, buf) = (x, m', buf') \<Longrightarrow> mm_table m' = mm_table m \<and> buf' = buf"
  by (cases "me_active env e"; cases "getCandidateNamesBatch env (GetEpochHeight (me_epochs env) e) (projr (me_active env e))")
    (auto simp: updateActiveBlockProducers_def updS_def)

lemma meta_prepare_parts:
  assumes "meta_prepare env blk (m, buf) = (x, m', buf')"
  shows "buf' = buf" and "mm_table m' = mm_table m \<or> 0 < me_revise env \<and> b_height blk = me_revise env \<and>
    mm_table m' = mm_table (reviseEpochNumber env m)"
    and "x = Inr () \<Longrightarrow> 0 < me_revise env \<Longrightarrow> b_height blk = me_revise env \<Longrightarrow>
      mm_table m' = mm_table (reviseEpochNumber env m)"
proof -
  obtain y m1 buf1 where 1: "(if needs_producers (me_epochs env) (b_height blk) (mm_active m)
      then updateActiveBlockProducers env (GetEpochNum (me_epochs env) (b_height blk)) else updS id) (m, buf) = (y, m1, buf1)"
    by (metis prod_cases3)
  then have same: "mm_table m1 = mm_table m \<and> buf1 = buf"
    by (auto simp: updS_def dest: updateActiveBlockProducers_parts split: if_splits)
  have m': "buf' = buf1 \<and> (case y of Inl e \<Rightarrow> x = Inl e \<and> m' = m1 | Inr u \<Rightarrow>
      m' = (if 0 < me_revise env \<and> b_height blk = me_revise env then reviseEpochNumber env m1 else m1))"
    using assms 1 by (cases y) (auto simp: meta_prepare_def Let_def bindS_def updS_def)
  have rev: "mm_table (reviseEpochNumber env m1) = mm_table (reviseEpochNumber env m)"
    using same by (simp add: reviseEpochNumber_def)
  from m' same show "buf' = buf" by simp
  from m' same rev show "mm_table m' = mm_table m \<or> 0 < me_revise env \<and> b_height blk = me_revise env \<and>
    mm_table m' = mm_table (reviseEpochNumber env m)" by (cases y) (auto split: if_splits)
  show "mm_table m' = mm_table (reviseEpochNumber env m)"
    if "x = Inr ()" "0 < me_revise env" "b_height blk = me_revise env"
    using m' rev that by (cases y) auto
qed

lemma meta_prepare_heights:
  "meta_prepare env blk (m, buf) = (x, m', buf') \<Longrightarrow> map mt_height (mm_table m') = map mt_height (mm_table m)"
  using meta_prepare_parts(2) [of env blk m buf x m' buf'] by auto

lemma meta_gather_row:
  assumes "meta_gather env blk (m, buf) = (Inr (), m', buf')"
  obtains r where "m' = m" and "buf' = buf @ [r]" and "row_for env blk r"
proof -
  from assms obtain t expected sz where t: "RewardAt (me_unmarshal env) blk (grant_hashes blk) = Inr t"
      "m' = m" "buf' = buf @ [meta_row_of env m blk t expected sz]"
    by (auto simp: meta_gather_def emit_def updS_def split: sum.splits)
  have "meta_column k (meta_row_of env m blk t expected sz) = total_of k t" if "is_reward k" for k
    using that by (auto simp: is_reward_def meta_row_of_def Let_def)
  with t have "row_for env blk (meta_row_of env m blk t expected sz)"
    by (simp add: row_for_def meta_row_of_def Let_def)
  with t that show ?thesis by blast
qed

lemma meta_gather_keeps: "meta_gather env blk (m, buf) = (x, m', buf') \<Longrightarrow> m' = m"
  by (auto simp: meta_gather_def emit_def updS_def bindS_def decodedS_def split: sum.splits prod.splits)

lemma meta_put_row:
  assumes "meta_put env blk (m, buf) = (Inr (), m', buf')"
  obtains r where "buf' = buf @ [r]" and "row_for env blk r" and "map mt_height (mm_table m') = map mt_height (mm_table m)"
proof -
  from assms obtain m1 buf1 where 1: "meta_prepare env blk (m, buf) = (Inr (), m1, buf1)"
      "meta_gather env blk (m1, buf1) = (Inr (), m', buf')"
    by (auto simp: meta_put_def bindS_eq_Inr)
  from 1(2) obtain r where "m' = m1" "buf' = buf1 @ [r]" "row_for env blk r" by (rule meta_gather_row)
  with meta_prepare_parts(1) [OF 1(1)] meta_prepare_heights [OF 1(1)] that show ?thesis by simp
qed

lemma meta_puts_rows:
  "eachS (meta_put env) blks (m, buf) = (Inr (), m', buf') \<Longrightarrow>
    (\<exists>new. buf' = buf @ new \<and> list_all2 (row_for env) blks new) \<and> map mt_height (mm_table m') = map mt_height (mm_table m)"
proof (induction blks arbitrary: m buf)
  case Nil
  then show ?case by simp
next
  case (Cons b blks)
  then obtain m1 buf1 where b: "meta_put env b (m, buf) = (Inr (), m1, buf1)"
      and bs: "eachS (meta_put env) blks (m1, buf1) = (Inr (), m', buf')"
    by (auto simp: bindS_eq_Inr)
  from b obtain r where r: "buf1 = buf @ [r]" "row_for env b r" "map mt_height (mm_table m1) = map mt_height (mm_table m)"
    by (rule meta_put_row)
  from Cons.IH [OF bs] obtain new where "buf' = buf1 @ new" "list_all2 (row_for env) blks new"
      "map mt_height (mm_table m') = map mt_height (mm_table m1)" by blast
  with r have "buf' = buf @ (r # new)" "list_all2 (row_for env) (b # blks) (r # new)"
      "map mt_height (mm_table m') = map mt_height (mm_table m)" by simp_all
  then show ?case by blast
qed

lemma concat_in_chunks: "0 < n \<Longrightarrow> concat (in_chunks n xs) = xs"
  by (induction n xs rule: in_chunks.induct) (subst in_chunks.simps, auto)

text \<open>What upserting leaves in the table.\<close>

lemma upsert_meta_rows:
  assumes "distinct (map mt_height t)"
  shows "distinct (map mt_height (upsert_meta r t))"
    and "r' \<in> set (upsert_meta r t) \<longleftrightarrow> r' = r \<or> r' \<in> set t \<and> mt_height r' \<noteq> mt_height r"
proof -
  have same: "map mt_height (map (\<lambda>r'. if mt_height r' = mt_height r then r else r') t) = map mt_height t" by simp
  show "distinct (map mt_height (upsert_meta r t))"
  proof (cases "mt_height r \<in> mt_height ` set t")
    case True
    with assms same show ?thesis by (simp only: upsert_meta_def if_True)
  next
    case False
    with assms show ?thesis by (simp add: upsert_meta_def)
  qed
  show "r' \<in> set (upsert_meta r t) \<longleftrightarrow> r' = r \<or> r' \<in> set t \<and> mt_height r' \<noteq> mt_height r"
    by (auto simp: upsert_meta_def image_iff split: if_splits)
qed

lemma upsert_many:
  "distinct (map mt_height t) \<Longrightarrow> distinct (map mt_height rows) \<Longrightarrow>
   distinct (map mt_height (fold upsert_meta rows t)) \<and>
   (\<forall>r. r \<in> set (fold upsert_meta rows t) \<longleftrightarrow> r \<in> set rows \<or> r \<in> set t \<and> mt_height r \<notin> mt_height ` set rows)"
proof (induction rows arbitrary: t)
  case Nil
  then show ?case by simp
next
  case (Cons r rows)
  then have "distinct (map mt_height (upsert_meta r t))" and rows: "distinct (map mt_height rows)"
    and r: "mt_height r \<notin> mt_height ` set rows"
    by (simp_all add: upsert_meta_rows)
  from Cons.IH [OF this(1,2)] upsert_meta_rows(2) [OF Cons.prems(1), of _ r] r show ?case by auto
qed

lemma store_metas_fold:
  assumes "distinct (map mt_height rows)"
  shows "store_metas rows t = Inr (fold upsert_meta rows t)"
proof -
  have "distinct (map mt_height (concat cs)) \<Longrightarrow> foldE upsert_metas cs t = Inr (fold upsert_meta (concat cs) t)" for cs t
    by (induction cs arbitrary: t) (auto simp: upsert_metas_def)
  from this [of "in_chunks 1000 rows" t] assms show ?thesis by (simp add: store_metas_def concat_in_chunks)
qed

lemma meta_batch:
  assumes "meta_PutBlocks env f blks ((m, []), w) = (Inr (), p', w')"
    and "distinct (map b_height blks)" and "distinct (map mt_height (tables w))"
  obtains m' new where "eachS (meta_put env) blks (m\<lparr>mm_table := tables w\<rparr>, []) = (Inr (), m', new)"
    and "list_all2 (row_for env) blks new" and "distinct (map mt_height (tables w'))"
    and "\<forall>r. r \<in> set (tables w') \<longleftrightarrow> r \<in> set new \<or> r \<in> set (mm_table m') \<and> mt_height r \<notin> b_height ` set blks"
    and "p' = (m', [])"
proof -
  obtain x m' new where each: "eachS (meta_put env) blks (m\<lparr>mm_table := tables w\<rparr>, []) = (x, m', new)"
    by (metis prod_cases3)
  with assms(1) have x: "x = Inr ()" and ne: "blks \<noteq> []"
    and commit: "row_commit store_metas ''block_meta'' f (b_height (last blks)) ((m', new), w\<lparr>tables := mm_table m'\<rparr>) = (Inr (), p', w')"
    by (auto simp: meta_PutBlocks_def Let_def bindE_def split: sum.splits) (cases "blks = []"; simp)+
  from meta_puts_rows [OF each [unfolded x]] have rows: "list_all2 (row_for env) blks new"
    and hs: "map mt_height (mm_table m') = map mt_height (tables w)" by auto
  have "map mt_height new = map b_height blks"
    using rows by (induction rule: list_all2_induct) (auto simp: row_for_def)
  then have new: "distinct (map mt_height new)" "mt_height ` set new = b_height ` set blks"
    using assms(2) by (simp_all flip: set_map)
  from buf_commit_ok(1,2) [OF commit [unfolded row_commit_def]] have "tables w' = fold upsert_meta new (mm_table m')"
    and p': "p' = (m', [])" by (simp_all add: store_metas_fold new(1))
  with upsert_many [of "mm_table m'" new] new hs assms(3) each x rows show ?thesis by (intro that [of m' new]) simp_all
qed

lemma unique_height:
  "distinct (map mt_height t) \<Longrightarrow> r \<in> set t \<Longrightarrow> filter (\<lambda>r'. mt_height r' = mt_height r) t = [r]"
  by (induction t) (auto simp: filter_empty_conv image_iff)

lemma meta_row_of_block:
  assumes "meta_PutBlocks env f blks ((m, []), w) = (Inr (), p', w')"
    and "distinct (map b_height blks)" and "distinct (map mt_height (tables w))" and "blk \<in> set blks"
  shows "\<exists>r. filter (\<lambda>r. mt_height r = b_height blk) (tables w') = [r] \<and> row_for env blk r"
proof -
  from assms(1-3) obtain m' new where "eachS (meta_put env) blks (m\<lparr>mm_table := tables w\<rparr>, []) = (Inr (), m', new)"
    and new: "list_all2 (row_for env) blks new" "distinct (map mt_height (tables w'))"
      "\<forall>r. r \<in> set (tables w') \<longleftrightarrow> r \<in> set new \<or> r \<in> set (mm_table m') \<and> mt_height r \<notin> b_height ` set blks"
    by (rule meta_batch)
  from new(1) assms(4) obtain r where r: "r \<in> set new" "row_for env blk r"
    by (metis in_set_conv_nth list_all2_conv_all_nth)
  with new(3) unique_height [OF new(2), of r] show ?thesis by (auto simp: row_for_def)
qed

text \<open>
  The rows of block_meta are exact. After a batch that goes through there is, for every block of
  it, exactly one row of its height, with the block's epoch, its gas and the four reward totals that
  \<open>RewardAt\<close> computes, also where the height had a row before and where the batch is longer than one
  statement.
\<close>

theorem meta_rows_exact:
  assumes "meta_PutBlocks env f blks ((m, []), w) = (Inr (), p', w')"
    and "distinct (map b_height blks)" and "distinct (map mt_height (tables w))" and "blk \<in> set blks"
  shows "\<exists>r. filter (\<lambda>r. mt_height r = b_height blk) (tables w') = [r] \<and> row_for env blk r"
  using assms by (rule meta_row_of_block)

subsection \<open>Repair, names and the other tables\<close>

text \<open>Rows from the wake height on have the epoch of their height.\<close>

definition epochs_right :: "meta_env \<Rightarrow> meta_row list \<Rightarrow> bool" where
  "epochs_right env t \<longleftrightarrow>
     (\<forall>r \<in> set t. me_wake env \<le> mt_height r \<longrightarrow> mt_epoch r = GetEpochNum (me_epochs env) (mt_height r))"

lemma revised_right: "\<not> me_revise_fault env \<Longrightarrow> epochs_right env (mm_table (reviseEpochNumber env m))"
  by (auto simp: epochs_right_def reviseEpochNumber_def revise_row_def)

lemma meta_put_right:
  assumes "meta_put env b (m, buf) = (Inr (), m', buf')" and "\<not> me_revise_fault env"
    and "epochs_right env (mm_table m) \<or> 0 < me_revise env \<and> b_height b = me_revise env"
  shows "epochs_right env (mm_table m')"
proof -
  from assms(1) obtain m1 buf1 where 1: "meta_prepare env b (m, buf) = (Inr (), m1, buf1)"
      "meta_gather env b (m1, buf1) = (Inr (), m', buf')" by (auto simp: meta_put_def bindS_eq_Inr)
  from meta_gather_keeps [OF 1(2)] have "m' = m1" .
  with meta_prepare_parts(2,3) [OF 1(1)] assms(2,3) revised_right [of env m] show ?thesis by auto
qed

lemma meta_puts_right:
  assumes "\<not> me_revise_fault env"
  shows "eachS (meta_put env) blks (m, buf) = (Inr (), m', buf') \<Longrightarrow>
    epochs_right env (mm_table m) \<or> 0 < me_revise env \<and> me_revise env \<in> b_height ` set blks \<Longrightarrow>
    epochs_right env (mm_table m')"
proof (induction blks arbitrary: m buf)
  case Nil
  then show ?case by simp
next
  case (Cons b blks)
  from Cons.prems(1) obtain m1 buf1 where b: "meta_put env b (m, buf) = (Inr (), m1, buf1)"
      and bs: "eachS (meta_put env) blks (m1, buf1) = (Inr (), m', buf')"
    by (auto simp: bindS_eq_Inr)
  from meta_put_right [OF b assms] Cons.IH [OF bs] Cons.prems(2) show ?case by auto
qed

text \<open>
  The repair mends the epochs. When the batch with the configured height goes through and the
  repair is not refused, every row from the wake height on has the epoch of its height, the rows
  stored before and the rows of the batch.
\<close>

theorem revise_mends_epochs:
  assumes "meta_PutBlocks env f blks ((m, []), w) = (Inr (), p', w')"
    and "distinct (map b_height blks)" and "distinct (map mt_height (tables w))"
    and "0 < me_revise env" and "me_revise env \<in> b_height ` set blks" and "\<not> me_revise_fault env"
  shows "epochs_right env (tables w')"
proof -
  from assms(1-3) obtain m' new where new: "eachS (meta_put env) blks (m\<lparr>mm_table := tables w\<rparr>, []) = (Inr (), m', new)"
      "list_all2 (row_for env) blks new"
      "\<forall>r. r \<in> set (tables w') \<longleftrightarrow> r \<in> set new \<or> r \<in> set (mm_table m') \<and> mt_height r \<notin> b_height ` set blks"
    by (rule meta_batch)
  have "mt_epoch r = GetEpochNum (me_epochs env) (mt_height r)" if r: "r \<in> set new" for r
  proof -
    from new(2) r obtain b where "row_for env b r" by (metis in_set_conv_nth list_all2_conv_all_nth)
    then show ?thesis by (simp add: row_for_def)
  qed
  with meta_puts_right [OF assms(6) new(1)] assms(4,5) new(3) show ?thesis by (auto simp: epochs_right_def)
qed

text \<open>
  The cache of producer names answers what the candidate table would, as long as no row of the
  producer's operator address was written between the start of the epoch, when the cache was filled,
  and the block.
\<close>

theorem cached_name_is_current:
  assumes "me_cands env = Inr cands" and "getCandidateNamesBatch env eh addrs = Inr cache" and "eh \<le> h"
    and "\<forall>r \<in> set cands. cr_operator r = a \<longrightarrow> eh < cr_height r \<longrightarrow> h < cr_height r"
  shows "lookupCandidateName env (m\<lparr>mm_cache := Some cache\<rparr>) h a = getCandidateName env h a"
proof -
  have "last_row (\<lambda>r. cr_height r \<le> eh \<and> cr_operator r = a) cs = last_row (\<lambda>r. cr_height r \<le> h \<and> cr_operator r = a) cs"
    if "set cs \<subseteq> set cands" for cs
    using that
  proof (induction cs rule: rev_induct)
    case Nil
    then show ?case by simp
  next
    case (snoc r cs)
    then have "cr_operator r = a \<Longrightarrow> cr_height r \<le> eh \<longleftrightarrow> cr_height r \<le> h"
      using assms(3,4) by (metis Un_iff in_set_conv_decomp leD leI order.trans set_append subsetD)
    with snoc show ?case by auto
  qed
  from this [of cands] have same: "operator_row cands eh a = operator_row cands h a" by (simp add: operator_row_def)
  have cache: "cache a = (if a \<in> set addrs then map_option cr_name (operator_row cands eh a) else None)"
    using assms(1,2) by (auto simp: getCandidateNamesBatch_def split: if_splits)
  show ?thesis
    by (cases "a \<in> set addrs"; cases "operator_row cands h a")
      (simp_all add: lookupCandidateName_def getCandidateName_def assms(1) cache same)
qed

lemma meta_v2_rows:
  assumes "meta_v2_PutBlock env f blk (active, w) = (Inr (), active', w')"
  obtains t r where "RewardAt (me_unmarshal env) blk (grant_hashes blk) = Inr t"
    and "tables w' = tables w @ [r]" and "m2_height r = b_height blk" and "m2_height r \<notin> m2_height ` set (tables w)"
    and "m2_block r = rt_block t" and "m2_epoch_reward r = rt_epoch t" and "m2_foundation r = rt_foundation t"
    and "m2_gas r = rt_gas t" and "m2_epoch r = GetEpochNum (me_epochs env) (b_height blk)"
proof -
  from assms obtain t expected sz where t: "RewardAt (me_unmarshal env) blk (grant_hashes blk) = Inr t"
    and tx: "index_tx f ''block_meta_v2'' (Inr (b_height blk)) (create_meta_v2 (meta_v2_row_of env blk t expected sz)) w = (Inr (), w')"
    by (auto simp: meta_v2_PutBlock_def bindE_eq_Inr map_res_eq split: sum.splits prod.splits)
  let ?r = "meta_v2_row_of env blk t expected sz"
  from tx have "create_meta_v2 ?r (tables w) = Inr (tables w')" by (rule index_tx_ok) simp
  then have "tables w' = tables w @ [?r]" and "m2_height ?r \<notin> m2_height ` set (tables w)"
    by (simp_all add: create_meta_v2_def split: if_splits)
  with t that show ?thesis by (simp add: meta_v2_row_of_def Let_def)
qed

text \<open>
  C24: The three tables with the rewards of a block agree. When block_meta, block_meta_v2 and
  block_reward, reading reward logs and epochs alike, have each put a batch with the block through,
  the row of block_meta, the row of block_meta_v2 and the sum of the rows of block_reward at its
  height carry the same block, epoch and foundation rewards.
\<close>

theorem reward_tables_agree:
  assumes "meta_PutBlocks env f1 blks1 ((m, []), w1) = (Inr (), p1, w1')"
    and "distinct (map b_height blks1)" and "distinct (map mt_height (tables w1))" and "blk \<in> set blks1"
    and "meta_v2_PutBlock env f2 blk (active, w2) = (Inr (), active', w2')"
    and "block_reward_PutBlocks renv f3 blks3 ((memo, []), w3) = (Inr (), p3, w3')"
    and "distinct (map b_height blks3)" and "blk \<in> set blks3" and "\<forall>r \<in> set (tables w3). rr_height r \<noteq> b_height blk"
    and "re_unmarshal renv = me_unmarshal env"
  shows "\<exists>r r2. filter (\<lambda>r. mt_height r = b_height blk) (tables w1') = [r] \<and>
    filter (\<lambda>r. m2_height r = b_height blk) (tables w2') = [r2] \<and> mt_epoch r = m2_epoch r2 \<and> mt_gas r = m2_gas r2 \<and>
    mt_block r = m2_block r2 \<and> mt_block r = sum_rows (\<lambda>r. rr_height r = b_height blk) rr_block (tables w3') \<and>
    mt_epoch_reward r = m2_epoch_reward r2 \<and>
    mt_epoch_reward r = sum_rows (\<lambda>r. rr_height r = b_height blk) rr_epoch_reward (tables w3') \<and>
    mt_foundation r = m2_foundation r2 \<and>
    mt_foundation r = sum_rows (\<lambda>r. rr_height r = b_height blk) rr_foundation (tables w3')"
proof -
  let ?sum = "\<lambda>k. sum_rows (\<lambda>r. rr_height r = b_height blk) (reward_column k) (tables w3')"
  from meta_row_of_block [OF assms(1-4)] obtain r t where r: "filter (\<lambda>r. mt_height r = b_height blk) (tables w1') = [r]"
    and t: "RewardAt (me_unmarshal env) blk (grant_hashes blk) = Inr t" "mt_gas r = rt_gas t"
      "\<And>k. is_reward k \<Longrightarrow> meta_column k r = total_of k t"
    and e: "mt_epoch r = GetEpochNum (me_epochs env) (b_height blk)"
    by (auto simp: row_for_def)
  from assms(5) obtain t2 r2 where r2: "RewardAt (me_unmarshal env) blk (grant_hashes blk) = Inr t2"
      "tables w2' = tables w2 @ [r2]" "m2_height r2 = b_height blk" "m2_height r2 \<notin> m2_height ` set (tables w2)"
      "m2_block r2 = rt_block t2" "m2_epoch_reward r2 = rt_epoch t2" "m2_foundation r2 = rt_foundation t2"
      "m2_gas r2 = rt_gas t2" "m2_epoch r2 = GetEpochNum (me_epochs env) (b_height blk)"
    by (rule meta_v2_rows)
  then have one: "filter (\<lambda>r. m2_height r = b_height blk) (tables w2') = [r2]"
    by (auto simp: filter_empty_conv image_iff)
  from block_reward_sums [OF assms(6-9)] assms(10) t(1) have sums: "?sum k = total_of k t" if "is_reward k" for k
    using that by auto
  have cols: "reward_column RL_BLOCK_REWARD = rr_block" "reward_column RL_EPOCH_REWARD = rr_epoch_reward"
      "reward_column RL_FOUNDATION_BONUS = rr_foundation" by (simp_all add: fun_eq_iff)
  have "t2 = t" using t(1) r2(1) by simp
  with r one e t(2) r2 t(3) [of RL_BLOCK_REWARD] t(3) [of RL_EPOCH_REWARD] t(3) [of RL_FOUNDATION_BONUS]
    sums [of RL_BLOCK_REWARD] sums [of RL_EPOCH_REWARD] sums [of RL_FOUNDATION_BONUS]
  show ?thesis by (simp add: is_reward_def cols)
qed

definition sample_meta :: meta_env where
  "sample_meta = \<lparr>me_epochs = ten_epochs, me_revise = 6, me_wake = 5, me_active = (\<lambda>e. Inr [''io1op'']),
     me_cands = Inr [\<lparr>cr_height = 0, cr_name = ''a'', cr_operator = ''io1op'', cr_reward = ''io1'', cr_owner = ''io1o'',
       cr_id = [], cr_amount = 0, cr_duration = 0, cr_act_type = [], cr_auto_stake = False, cr_payload = []\<rparr>],
     me_unmarshal = (\<lambda>_. Inr example_rewards), me_producer = (\<lambda>b. ''io1op''), me_size = (\<lambda>b. Inr 9),
     me_base_fee = (\<lambda>b. None), me_blob_gas = (\<lambda>b. 0), me_excess_blob = (\<lambda>b. 0), me_revise_fault = False\<rparr>"

lemma sample_meta_simps [simp]:
  "me_epochs sample_meta = ten_epochs" "me_revise sample_meta = 6" "me_unmarshal sample_meta = (\<lambda>_. Inr example_rewards)"
  "me_active sample_meta e = Inr [''io1op'']" "me_size sample_meta b = Inr 9" "me_revise_fault sample_meta = False"
  by (simp_all add: sample_meta_def)

lemma sample_names: "\<exists>c. getCandidateNamesBatch sample_meta h [a] = Inr c"
  by (simp add: getCandidateNamesBatch_def sample_meta_def)

lemma sample_reward_at:
  "\<exists>t. RewardAt (\<lambda>_. Inr example_rewards) (grant_block h) (grant_hashes (grant_block h)) = Inr t \<and> rt_epoch t = 12"
  by (simp add: RewardAt_def grant_hashes_sample reward_sample(2) example_reward_run add_info_def no_rewards_def)

lemma sample_expected: "h \<in> {6, 7} \<Longrightarrow> active \<in> {None, Some [''io1op'']} \<Longrightarrow> \<exists>a. expected_producer h active = Inr a"
  by (auto simp: expected_producer_def producer_at_def)

lemma sample_prepare:
  assumes "mm_active m \<in> {None, Some [''io1op'']}"
  shows "\<exists>m'. meta_prepare sample_meta blk (m, buf) = (Inr (), m', buf) \<and> mm_active m' \<in> {None, Some [''io1op'']}"
proof -
  obtain c where c: "getCandidateNamesBatch sample_meta (GetEpochHeight ten_epochs (GetEpochNum ten_epochs (b_height blk))) [''io1op''] = Inr c"
    using sample_names by blast
  have "mm_active (reviseEpochNumber env m) = mm_active m" for env m by (simp add: reviseEpochNumber_def)
  with assms c show ?thesis
    by (auto simp: meta_prepare_def updateActiveBlockProducers_def updS_def bindS_def decodedS_def Let_def)
qed

lemma sample_meta_put:
  assumes "mm_active m \<in> {None, Some [''io1op'']}" and "h \<in> {6, 7}"
  shows "\<exists>m' r. meta_put sample_meta (grant_block h) (m, buf) = (Inr (), m', buf @ [r]) \<and> mm_active m' \<in> {None, Some [''io1op'']}"
proof -
  from sample_prepare [OF assms(1)] obtain m'
    where m': "meta_prepare sample_meta (grant_block h) (m, buf) = (Inr (), m', buf)" "mm_active m' \<in> {None, Some [''io1op'']}" by blast
  obtain t where t: "RewardAt (\<lambda>_. Inr example_rewards) (grant_block h) (grant_hashes (grant_block h)) = Inr t"
    using sample_reward_at by blast
  obtain a where a: "expected_producer h (mm_active m') = Inr a" using sample_expected [OF assms(2) m'(2)] by blast
  have h: "b_height (grant_block h) = h" by (simp add: grant_block_def)
  from m' t a show ?thesis by (simp add: meta_put_def meta_gather_def emit_def updS_def h)
qed

definition no_meta :: meta_mem where
  "no_meta = \<lparr>mm_active = None, mm_cache = None, mm_table = []\<rparr>"

lemma sample_meta_run:
  "\<exists>m' w'. meta_PutBlocks sample_meta no_faults [grant_block 6, grant_block 7] ((no_meta, []), fresh_tables []) = (Inr (), (m', []), w')"
proof -
  have h: "b_height (grant_block h) = h" for h by (simp add: grant_block_def)
  obtain m1 r1 where 1: "meta_put sample_meta (grant_block 6) (no_meta\<lparr>mm_table := []\<rparr>, []) = (Inr (), m1, [] @ [r1])"
      "mm_active m1 \<in> {None, Some [''io1op'']}"
    using sample_meta_put [of "no_meta\<lparr>mm_table := []\<rparr>" 6 "[]"] by (auto simp: no_meta_def)
  obtain m2 r2 where 2: "meta_put sample_meta (grant_block 7) (m1, [r1]) = (Inr (), m2, [r1] @ [r2])"
    using sample_meta_put [OF 1(2), of 7 "[r1]"] by auto
  have each: "eachS (meta_put sample_meta) [grant_block 6, grant_block 7] (no_meta\<lparr>mm_table := []\<rparr>, []) = (Inr (), m2, [r1, r2])"
    using 1 2 by simp
  from meta_puts_rows [OF each] have "list_all2 (row_for sample_meta) [grant_block 6, grant_block 7] [r1, r2]" by simp
  then have "distinct (map mt_height [r1, r2])" by (simp add: row_for_def h)
  from store_metas_fold [OF this] each show ?thesis
    by (simp add: meta_PutBlocks_def fresh_tables_def row_commit_def buf_commit_def index_tx_no_faults Let_def)
qed

theorem meta_rows_exact_witness:
  "\<exists>m' w' r. meta_PutBlocks sample_meta no_faults [grant_block 6, grant_block 7] ((no_meta, []), fresh_tables []) = (Inr (), (m', []), w')
    \<and> filter (\<lambda>r. mt_height r = 7) (tables w') = [r] \<and> mt_epoch_reward r = 12"
proof -
  obtain m' w' where run: "meta_PutBlocks sample_meta no_faults [grant_block 6, grant_block 7]
      ((no_meta, []), fresh_tables []) = (Inr (), (m', []), w')" using sample_meta_run by blast
  from meta_rows_exact [OF run, of "grant_block 7"] obtain r
    where r: "filter (\<lambda>r. mt_height r = 7) (tables w') = [r]" "row_for sample_meta (grant_block 7) r"
    by (auto simp: fresh_tables_def grant_block_def)
  obtain t where "RewardAt (\<lambda>_. Inr example_rewards) (grant_block 7) (grant_hashes (grant_block 7)) = Inr t" "rt_epoch t = 12"
    using sample_reward_at by blast
  with r(2) have "mt_epoch_reward r = 12" by (auto simp: row_for_def is_reward_def)
  with run r(1) show ?thesis by blast
qed

theorem revise_mends_epochs_witness:
  "\<exists>m' w'. meta_PutBlocks sample_meta no_faults [grant_block 6, grant_block 7] ((no_meta, []), fresh_tables []) = (Inr (), (m', []), w')
    \<and> epochs_right sample_meta (tables w')"
proof -
  obtain m' w' where run: "meta_PutBlocks sample_meta no_faults [grant_block 6, grant_block 7]
      ((no_meta, []), fresh_tables []) = (Inr (), (m', []), w')" using sample_meta_run by blast
  have "epochs_right sample_meta (tables w')"
    by (rule revise_mends_epochs [OF run]) (simp_all add: grant_block_def fresh_tables_def)
  with run show ?thesis by blast
qed

theorem cached_name_is_current_witness:
  "\<exists>cache. getCandidateNamesBatch sample_meta 0 [''io1op''] = Inr cache \<and>
    lookupCandidateName sample_meta (no_meta\<lparr>mm_cache := Some cache\<rparr>) 7 ''io1op'' = getCandidateName sample_meta 7 ''io1op''"
proof -
  obtain cache where cache: "getCandidateNamesBatch sample_meta 0 [''io1op''] = Inr cache" using sample_names by blast
  obtain cands where cands: "me_cands sample_meta = Inr cands" "\<forall>r \<in> set cands. cr_height r = 0" by (simp add: sample_meta_def)
  from cached_name_is_current [OF cands(1) cache, of 7 "''io1op''" no_meta] cands(2) cache show ?thesis by auto
qed

theorem reward_tables_agree_witness:
  "\<exists>p1 w1 a w2 p3 w3 r r2.
    meta_PutBlocks sample_meta no_faults [grant_block 6, grant_block 7] ((no_meta, []), fresh_tables []) = (Inr (), p1, w1) \<and>
    meta_v2_PutBlock sample_meta no_faults (grant_block 6) (None, fresh_tables []) = (Inr (), a, w2) \<and>
    block_reward_PutBlocks sample_rewards no_faults [grant_block 6] ((Map.empty, []), fresh_tables []) = (Inr (), p3, w3) \<and>
    filter (\<lambda>r. mt_height r = 6) (tables w1) = [r] \<and> filter (\<lambda>r. m2_height r = 6) (tables w2) = [r2] \<and>
    mt_epoch_reward r = m2_epoch_reward r2"
proof -
  have h: "b_height (grant_block 6) = 6" by (simp add: grant_block_def)
  obtain p1 w1 where 1: "meta_PutBlocks sample_meta no_faults [grant_block 6, grant_block 7]
      ((no_meta, []), fresh_tables []) = (Inr (), p1, w1)" using sample_meta_run by blast
  obtain t where t: "RewardAt (\<lambda>_. Inr example_rewards) (grant_block 6) (grant_hashes (grant_block 6)) = Inr t"
    using sample_reward_at by blast
  obtain e where e: "expected_producer 6 (Some [''io1op'']) = Inr e" using sample_expected by blast
  obtain a w2 where 2: "meta_v2_PutBlock sample_meta no_faults (grant_block 6) (None, fresh_tables []) = (Inr (), a, w2)"
    using t e by (auto simp: meta_v2_PutBlock_def updateActiveBlockProducers_v2_def needs_producers_def h create_meta_v2_def
        fresh_tables_def index_tx_no_faults)
  obtain p3 w3 where 3: "block_reward_PutBlocks sample_rewards no_faults [grant_block 6]
      ((Map.empty, []), fresh_tables []) = (Inr (), p3, w3)"
    by (simp add: block_reward_PutBlocks_def row_run block_reward_put_def grant_hashes_sample reward_sample name_sample
        collectRewardRows_def Let_def)
  have "re_unmarshal sample_rewards = me_unmarshal sample_meta" by (simp add: sample_rewards_def)
  from reward_tables_agree [OF 1 _ _ _ 2 3 _ _ _ this] 1 2 3 show ?thesis
    by (auto simp: fresh_tables_def h grant_block_def)
qed

end
