(* ===== verification/HermesVotes.thy ===== *)
theory HermesVotes
  imports EpochLists StakingBucket "HOL-Library.AList" "HOL-Library.Multiset"
begin

text \<open>
  plugins/hermes/util.go and the vote tables of plugins/hermes/hermes.go: the candidates of an epoch
  after probation, the weight of every bucket that votes for one of them, the votes per voter and
  candidate, and the votes per bucket.
\<close>

subsection \<open>Buckets\<close>

record hermes_bucket = vote_bucket +
  hb_owner :: string
  hb_contract :: string
  hb_stake_start :: int
  hb_unstake_start :: int

definition hermes_readBucketsLimit :: nat where
  "hermes_readBucketsLimit = 300000"

definition still_staked :: "hermes_bucket \<Rightarrow> bool" where
  "still_staked v \<longleftrightarrow> \<not> hb_unstake_start v > hb_stake_start v"

text \<open>\<open>page\<close> is the node at a height, \<open>fuel\<close> bounds the pages as in \<open>fetch_pages\<close>.\<close>

definition GetAllStakingBuckets :: "nat \<Rightarrow> (u32 \<Rightarrow> u32 \<Rightarrow> hermes_bucket list res) \<Rightarrow> hermes_bucket list res" where
  "GetAllStakingBuckets fuel page = fetch_pages fuel still_staked hermes_readBucketsLimit page 0 []"

definition CalculateVoteWeight :: "vote_consts \<Rightarrow> hermes_bucket \<Rightarrow> bool \<Rightarrow> int res" where
  "CalculateVoteWeight c v selfStake =
     (case parse_int10 (vb_staked_amount v) of
        None \<Rightarrow> Inl (Err ''failed to convert string to big int'')
      | Some a \<Rightarrow> Inr (calculateVoteWeight c a (vb_auto_stake v) (vb_staked_duration v) selfStake))"

subsection \<open>Probation\<close>

text \<open>
  \<open>new(big.Float).SetInt(val)\<close> times a float64, truncated. The rate is computed from the intensity
  in 32 bits by \<open>filterStakingCandidates\<close> and in 64 bits by \<open>stakingProbationListToMap\<close>.
\<close>

definition scale_votes :: "f64 \<Rightarrow> int \<Rightarrow> int" where
  "scale_votes rate v =
     sgn v * int (f_trunc (f_mul_prec (max 64 (bitlen (nat \<bar>v\<bar>))) (F64 (nat \<bar>v\<bar>) 0) rate))"

definition filter_rate :: "u32 \<Rightarrow> f64" where
  "filter_rate intensity = f_div (f_of_nat (unat (100 - intensity))) (f_of_nat 100)"

definition list_rate :: "u32 \<Rightarrow> f64" where
  "list_rate intensity = f_div (f_of_nat (unat (100 - ucast intensity :: u64))) (f_of_nat 100)"

definition probation_addresses :: "probation_pb \<Rightarrow> string set" where
  "probation_addresses pb = set (map fst (pp_list pb))"

definition filter_candidate :: "probation_pb \<Rightarrow> node_candidate \<Rightarrow> node_candidate res" where
  "filter_candidate pb c =
     (case parse_int10 (nc_total_votes c) of
        None \<Rightarrow> Inl (Err ''total weighted votes convert error'')
      | Some v \<Rightarrow> Inr (if nc_operator c \<in> probation_addresses pb
          then c\<lparr>nc_total_votes := show_int (scale_votes (filter_rate (pp_intensity pb)) v)\<rparr> else c))"

text \<open>
  \<open>sort votes height\<close> is \<open>util.Sort\<close> of iotex-election on the map from operator address to votes:
  it answers the keys of the map.
\<close>

definition filterStakingCandidates ::
  "((string \<times> int) list \<Rightarrow> u64 \<Rightarrow> string list) \<Rightarrow> node_candidate list \<Rightarrow> probation_pb \<Rightarrow> u64 \<Rightarrow> node_candidate list res" where
  "filterStakingCandidates sort_keys cs pb h =
     bindE (foldE (\<lambda>c m. bindE (filter_candidate pb c) (\<lambda>c'.
         case parse_int10 (nc_total_votes c') of
           None \<Rightarrow> Inl (Err ''total weighted votes convert error'')
         | Some v \<Rightarrow> Inr (AList.update (nc_operator c) (c', v) m))) cs []) (\<lambda>m.
     Inr (List.map_filter (\<lambda>k. map_option fst (map_of m k)) (sort_keys (map (\<lambda>(k, c, v). (k, v)) m) h)))"

text \<open>The intensity of an empty list stays 0 in Go; no candidate is scaled by it.\<close>

definition stakingProbationListToMap :: "node_candidate list \<Rightarrow> probation_pb \<Rightarrow> f64 \<times> string set" where
  "stakingProbationListToMap cs pb =
     (if cs = [] \<or> pp_list pb = [] then F64 0 0 else list_rate (pp_intensity pb),
      set (map nc_id (filter (\<lambda>c. nc_operator c \<in> probation_addresses pb) cs)))"

definition ownerAddressToNameMap :: "node_candidate list \<Rightarrow> string \<rightharpoonup> string" where
  "ownerAddressToNameMap cs = map_of (rev (map (\<lambda>c. (nc_id c, nc_name c)) cs))"

definition selfStakeIndexMap :: "node_candidate list \<Rightarrow> u64 set" where
  "selfStakeIndexMap cs = set (map nc_self_bucket cs)"

subsection \<open>Votes\<close>

text \<open>\<open>vk_redsea\<close> is the Redsea height of the genesis, \<open>vk_order\<close> the order in which Go ranges over a map.\<close>

record vote_env =
  vk_consts :: vote_consts
  vk_redsea :: u64
  vk_order :: "((u64 \<times> string \<times> string \<times> bool) \<times> int) list \<Rightarrow> ((u64 \<times> string \<times> string \<times> bool) \<times> int) list"

type_synonym aggregate_key = "u64 \<times> string \<times> string \<times> bool" \<comment> \<open>epoch, candidate, voter, native\<close>

definition native_weight :: "vote_env \<Rightarrow> node_candidate list \<Rightarrow> hermes_bucket \<Rightarrow> int res" where
  "native_weight env cs v = CalculateVoteWeight (vk_consts env) v (vb_index v \<in> selfStakeIndexMap cs)"

definition staked_amount_of :: "hermes_bucket \<Rightarrow> int res" where
  "staked_amount_of v =
     (case parse_int10 (vb_staked_amount v) of
        None \<Rightarrow> Inl (Err ''failed to convert string to big int'') | Some a \<Rightarrow> Inr a)"

definition lsd_weight :: "vote_env \<Rightarrow> u64 \<Rightarrow> hermes_bucket \<Rightarrow> int res" where
  "lsd_weight env h v =
     bindE (staked_amount_of v) (\<lambda>a.
       if vk_redsea env \<le> h then CalculateVoteWeight (vk_consts env) v False else Inr a)"

definition active_votes :: "node_candidate list \<Rightarrow> hermes_bucket list \<Rightarrow> hermes_bucket list" where
  "active_votes cs vs = filter (\<lambda>v. ownerAddressToNameMap cs (vb_candidate v) \<noteq> None) vs"

definition native_votes :: "node_candidate list \<Rightarrow> hermes_bucket list \<Rightarrow> hermes_bucket list" where
  "native_votes cs vs = filter (\<lambda>v. hb_contract v = []) (active_votes cs vs)"

definition lsd_votes :: "node_candidate list \<Rightarrow> hermes_bucket list \<Rightarrow> hermes_bucket list" where
  "lsd_votes cs vs = filter (\<lambda>v. hb_contract v \<noteq> []) (active_votes cs vs)"

definition vote_key :: "u64 \<Rightarrow> bool \<Rightarrow> hermes_bucket \<Rightarrow> aggregate_key" where
  "vote_key e native v = (e, vb_candidate v, hb_owner v, native)"

definition add_vote :: "aggregate_key \<Rightarrow> int \<Rightarrow> (aggregate_key \<times> int) list \<Rightarrow> (aggregate_key \<times> int) list" where
  "add_vote k w sums = AList.update k ((case map_of sums k of None \<Rightarrow> 0 | Some x \<Rightarrow> x) + w) sums"

type_synonym vote_sums = "(aggregate_key \<times> int) list \<times> int"

definition sum_vote :: "(hermes_bucket \<Rightarrow> int res) \<Rightarrow> u64 \<Rightarrow> bool \<Rightarrow> hermes_bucket \<Rightarrow> vote_sums \<Rightarrow> vote_sums res" where
  "sum_vote weight e native v s =
     (case s of (sums, voted) \<Rightarrow>
        bindE (weight v) (\<lambda>w. bindE (staked_amount_of v) (\<lambda>a.
          Inr (add_vote (vote_key e native v) w sums, voted + a))))"

definition sum_votes :: "vote_env \<Rightarrow> u64 \<Rightarrow> u64 \<Rightarrow> node_candidate list \<Rightarrow> hermes_bucket list \<Rightarrow> vote_sums res" where
  "sum_votes env h e cs vs =
     bindE (foldE (sum_vote (native_weight env cs) e True) (native_votes cs vs) ([], 0))
           (foldE (sum_vote (lsd_weight env h) e False) (lsd_votes cs vs))"

subsection \<open>Rows\<close>

record aggregate_row =
  ag_epoch :: u64
  ag_name :: string
  ag_voter :: string
  ag_native :: bool
  ag_votes :: int

record bucket_vote_row =
  bv_epoch :: u64
  bv_name :: string
  bv_voter :: string
  bv_native :: bool
  bv_bucket :: u64
  bv_votes :: int

record voting_meta_row =
  vm_epoch :: u64
  vm_voted :: int
  vm_total_weighted :: int
  vm_delegates :: nat

text \<open>\<open>fmt.Sprintf("%d%s%s%t", ...)\<close>.\<close>

definition key_string :: "aggregate_key \<Rightarrow> string" where
  "key_string k = (case k of (e, cand, voter, native) \<Rightarrow>
     show_nat (unat e) @ cand @ voter @ (if native then ''true'' else ''false''))"

definition probated :: "f64 \<times> string set \<Rightarrow> string \<Rightarrow> int \<Rightarrow> int" where
  "probated p cand v = (if cand \<in> snd p then scale_votes (fst p) v else v)"

definition aggregate_row_of ::
  "node_candidate list \<Rightarrow> f64 \<times> string set \<Rightarrow> aggregate_key \<times> int \<Rightarrow> aggregate_row res" where
  "aggregate_row_of cs p kv =
     (case kv of ((e, cand, voter, native), v) \<Rightarrow>
        case ownerAddressToNameMap cs cand of
          None \<Rightarrow> Inl (Err ''candidate cannot find name through owner address'')
        | Some name \<Rightarrow> Inr \<lparr>ag_epoch = e, ag_name = name, ag_voter = voter, ag_native = native,
            ag_votes = probated p cand v\<rparr>)"

definition aggregate_rows ::
  "node_candidate list \<Rightarrow> f64 \<times> string set \<Rightarrow> (aggregate_key \<times> int) list \<Rightarrow> (string set \<times> aggregate_row list) res" where
  "aggregate_rows cs p kvs =
     foldE (\<lambda>kv (seen, out).
       if key_string (fst kv) \<in> seen then Inr (seen, out)
       else bindE (aggregate_row_of cs p kv) (\<lambda>r. Inr (insert (key_string (fst kv)) seen, out @ [r]))) kvs ({}, [])"

definition total_weighted :: "node_candidate list \<Rightarrow> int res" where
  "total_weighted cs =
     foldE (\<lambda>c s. case parse_int10 (nc_total_votes c) of
       None \<Rightarrow> Inl (Err ''total weighted votes convert error'') | Some v \<Rightarrow> Inr (s + v)) cs 0"

text \<open>The voting meta row comes first: its epoch is unique, \<open>metas\<close> are the rows there are.\<close>

definition updateAggregateStaking ::
  "vote_env \<Rightarrow> u64 \<Rightarrow> hermes_bucket list \<Rightarrow> node_candidate list \<Rightarrow> u64 \<Rightarrow> probation_pb \<Rightarrow>
   voting_meta_row list \<times> aggregate_row list \<Rightarrow> (voting_meta_row list \<times> aggregate_row list) res" where
  "updateAggregateStaking env h vs cs e pb t =
     (case t of (metas, rows) \<Rightarrow>
        bindE (sum_votes env h e cs vs) (\<lambda>(sums, voted).
        bindE (total_weighted cs) (\<lambda>tw.
          if e \<in> vm_epoch ` set metas then Inl DbError
          else bindE (aggregate_rows cs (stakingProbationListToMap cs pb) (vk_order env sums)) (\<lambda>(seen, new).
            Inr (metas @ [\<lparr>vm_epoch = e, vm_voted = voted, vm_total_weighted = tw, vm_delegates = length cs\<rparr>],
                 rows @ new)))))"

definition bucket_vote_row_of ::
  "node_candidate list \<Rightarrow> f64 \<times> string set \<Rightarrow> u64 \<Rightarrow> bool \<Rightarrow> hermes_bucket \<Rightarrow> int \<Rightarrow> bucket_vote_row" where
  "bucket_vote_row_of cs p e native v w =
     \<lparr>bv_epoch = e, bv_name = (case ownerAddressToNameMap cs (vb_candidate v) of None \<Rightarrow> [] | Some name \<Rightarrow> name),
       bv_voter = hb_owner v, bv_native = native, bv_bucket = vb_index v, bv_votes = probated p (vb_candidate v) w\<rparr>"

definition updateBucketStaking ::
  "vote_env \<Rightarrow> u64 \<Rightarrow> hermes_bucket list \<Rightarrow> node_candidate list \<Rightarrow> u64 \<Rightarrow> probation_pb \<Rightarrow>
   bucket_vote_row list \<Rightarrow> bucket_vote_row list res" where
  "updateBucketStaking env h vs cs e pb rows =
     (let p = stakingProbationListToMap cs pb in
      bindE (collect (\<lambda>v. map_res (\<lambda>w. [bucket_vote_row_of cs p e True v w]) (native_weight env cs v)) (native_votes cs vs)) (\<lambda>nat_rows.
      bindE (collect (\<lambda>v. map_res (\<lambda>w. [bucket_vote_row_of cs p e False v w]) (lsd_weight env h v)) (lsd_votes cs vs)) (\<lambda>lsd_rows.
      Inr (rows @ nat_rows @ lsd_rows))))"

subsection \<open>Probation only takes votes\<close>

text \<open>Rates are at most 1.\<close>

definition at_most_one :: "f64 \<Rightarrow> bool" where
  "at_most_one r \<longleftrightarrow> (\<exists>q j. r = F64 q (- int j) \<and> q \<le> 2 ^ j)"

lemma f_div_at_most_one:
  assumes "a \<le> b" and "0 < b" and "b < 2 ^ 53"
  shows "at_most_one (f_div (f_of_nat a) (f_of_nat b))"
proof -
  let ?k = "55 + bitlen b"
  let ?q = "a * 2 ^ ?k div b" and ?r = "a * 2 ^ ?k mod b"
  have "f_of_nat a = F64 a 0" and "f_of_nat b = F64 b 0" using assms(1,3) by (simp_all add: f_of_nat_exact)
  then have div: "f_div (f_of_nat a) (f_of_nat b) = round_prec 53 (2 * ?q + (if ?r = 0 then 0 else 1)) (- int (?k + 1))"
    by (simp only: f_div.simps Let_def) simp
  have "?q * b + ?r = a * 2 ^ ?k" by (rule div_mult_mod_eq)
  moreover have "a * 2 ^ ?k \<le> 2 ^ ?k * b" using assms(1) by (simp add: mult.commute)
  ultimately have le: "?q * b + ?r \<le> 2 ^ ?k * b" by linarith
  have two: "1 * 2 ^ (?k + 1) = 2 * (2 ^ ?k :: nat)" by (simp only: power_add power_one_right mult_1 mult.commute)
  have mant: "2 * ?q + (if ?r = 0 then 0 else 1) \<le> 1 * 2 ^ (?k + 1)"
  proof (cases "?r = 0")
    case True
    with le assms(2) have "?q \<le> 2 ^ ?k" by simp
    with True show ?thesis unfolding two by (simp only: if_True simp_thms)
  next
    case False
    with le have "?q * b < 2 ^ ?k * b" by linarith
    then have "?q < 2 ^ ?k" by simp
    then have "2 * ?q + 1 \<le> 2 * 2 ^ ?k" by linarith
    with False show ?thesis unfolding two by (simp only: if_False simp_thms)
  qed
  also have "(1 * 2 ^ (?k + 1) :: nat) < 2 ^ (53 + (?k + 1))" by simp
  finally have "2 * ?q + (if ?r = 0 then 0 else 1) < 2 ^ (53 + (?k + 1))" .
  with mant obtain q j where "round_prec 53 (2 * ?q + (if ?r = 0 then 0 else 1)) (- int (?k + 1)) = F64 q (- int j)"
      and "q \<le> 1 * 2 ^ j" by (rule round_prec_below)
  with div show ?thesis by (auto simp: at_most_one_def)
qed

lemma scale_votes_below:
  assumes "at_most_one r" and "0 \<le> v"
  shows "0 \<le> scale_votes r v \<and> scale_votes r v \<le> v"
proof -
  obtain q j where r: "r = F64 q (- int j)" "q \<le> 2 ^ j" using assms(1) by (auto simp: at_most_one_def)
  let ?n = "nat \<bar>v\<bar>"
  let ?p = "max 64 (bitlen ?n)"
  have "?n < 2 ^ bitlen ?n" by (rule bitlen_less)
  also have "(2 :: nat) ^ bitlen ?n \<le> 2 ^ ?p" by (rule power_increasing) simp_all
  finally have n: "?n < 2 ^ ?p" .
  have "?n * q \<le> ?n * 2 ^ j" using r(2) by simp
  moreover have "?n * 2 ^ j < 2 ^ (?p + j)" using n by (simp add: power_add)
  ultimately have "f_trunc (round_prec ?p (?n * q) (- int j)) \<le> ?n"
    by (intro round_prec_le) (assumption, linarith)
  then have "f_trunc (f_mul_prec ?p (F64 ?n 0) r) \<le> ?n" by (simp add: r(1))
  then show ?thesis using assms(2) by (auto simp: scale_votes_def sgn_if)
qed

lemma filter_rate_at_most_one: "i \<le> 100 \<Longrightarrow> at_most_one (filter_rate i)"
  unfolding filter_rate_def by (rule f_div_at_most_one) (simp_all add: word_le_nat_alt unat_sub)

text \<open>What probation makes of one candidate.\<close>

definition probation_of_candidate :: "probation_pb \<Rightarrow> node_candidate \<Rightarrow> node_candidate \<Rightarrow> bool" where
  "probation_of_candidate pb c c' \<longleftrightarrow>
     (\<exists>x. c' = c\<lparr>nc_total_votes := x\<rparr>) \<and> (nc_operator c \<notin> probation_addresses pb \<longrightarrow> c' = c) \<and>
     (\<exists>v v'. parse_int10 (nc_total_votes c) = Some v \<and> parse_int10 (nc_total_votes c') = Some v' \<and> (0 \<le> v \<longrightarrow> 0 \<le> v' \<and> v' \<le> v))"

lemma filter_candidate_ok:
  assumes "filter_candidate pb c = Inr c'" and "pp_intensity pb \<le> 100"
  shows "probation_of_candidate pb c c'"
proof -
  from assms(1) obtain v where v: "parse_int10 (nc_total_votes c) = Some v"
    and c': "c' = (if nc_operator c \<in> probation_addresses pb
      then c\<lparr>nc_total_votes := show_int (scale_votes (filter_rate (pp_intensity pb)) v)\<rparr> else c)"
    by (auto simp: filter_candidate_def split: option.splits)
  show ?thesis
  proof (cases "nc_operator c \<in> probation_addresses pb")
    case True
    then have c': "c' = c\<lparr>nc_total_votes := show_int (scale_votes (filter_rate (pp_intensity pb)) v)\<rparr>" using c' by simp
    with True v scale_votes_below [OF filter_rate_at_most_one [OF assms(2)], of v]
    show ?thesis unfolding probation_of_candidate_def by auto
  next
    case False
    then have "c' = c" using c' by simp
    moreover have "c = c\<lparr>nc_total_votes := nc_total_votes c\<rparr>" by simp
    ultimately show ?thesis using v unfolding probation_of_candidate_def by blast
  qed
qed

lemma probation_keeps_operator: "probation_of_candidate pb c c' \<Longrightarrow> nc_operator c' = nc_operator c"
  by (auto simp: probation_of_candidate_def)

lemma alist_update_new: "k \<notin> fst ` set m \<Longrightarrow> AList.update k x m = m @ [(k, x)]"
  by (induction m) auto

text \<open>The map that \<open>util.Sort\<close> is given, when no two candidates share an operator address.\<close>

lemma filter_fold:
  assumes "pp_intensity pb \<le> 100"
  shows "foldE (\<lambda>c m. bindE (filter_candidate pb c) (\<lambda>c'.
         case parse_int10 (nc_total_votes c') of
           None \<Rightarrow> Inl (Err ''total weighted votes convert error'')
         | Some v \<Rightarrow> Inr (AList.update (nc_operator c) (c', v) m))) cs m = Inr m' \<Longrightarrow>
    distinct (map nc_operator cs) \<Longrightarrow> set (map nc_operator cs) \<inter> fst ` set m = {} \<Longrightarrow>
    \<exists>cvs. m' = m @ cvs \<and> list_all2 (\<lambda>c (k, c', v). k = nc_operator c \<and> probation_of_candidate pb c c') cs cvs"
proof (induction cs arbitrary: m)
  case Nil
  then show ?case by simp
next
  case (Cons c cs)
  from Cons.prems(1) obtain c' v where c': "filter_candidate pb c = Inr c'"
    and rest: "foldE (\<lambda>c m. bindE (filter_candidate pb c) (\<lambda>c'.
         case parse_int10 (nc_total_votes c') of
           None \<Rightarrow> Inl (Err ''total weighted votes convert error'')
         | Some v \<Rightarrow> Inr (AList.update (nc_operator c) (c', v) m))) cs (AList.update (nc_operator c) (c', v) m) = Inr m'"
    by (auto simp: bindE_eq_Inr split: option.splits)
  have upd: "AList.update (nc_operator c) (c', v) m = m @ [(nc_operator c, c', v)]"
    using Cons.prems(3) by (intro alist_update_new) auto
  from Cons.IH [OF rest] Cons.prems(2,3) obtain cvs where cvs: "m' = m @ [(nc_operator c, c', v)] @ cvs"
      "list_all2 (\<lambda>c (k, c', v). k = nc_operator c \<and> probation_of_candidate pb c c') cs cvs"
    unfolding upd by auto
  then have "list_all2 (\<lambda>c (k, c', v). k = nc_operator c \<and> probation_of_candidate pb c c') (c # cs) ((nc_operator c, c', v) # cvs)"
    using filter_candidate_ok [OF c' assms] by simp
  with cvs(1) show ?case by auto
qed

lemma list_all2_in_set: "list_all2 P xs ys \<Longrightarrow> y \<in> set ys \<Longrightarrow> \<exists>x \<in> set xs. P x y"
  by (induction rule: list_all2_induct) auto

text \<open>
  Filtering by probation keeps the candidates and only takes votes. Every candidate comes out
  once, whatever order \<open>util.Sort\<close> gives; nothing but its votes changes, they change only if its
  operator address is on the list, and they never grow.
\<close>

theorem filter_keeps_candidates:
  assumes "filterStakingCandidates sort_keys cs pb h = Inr out"
    and "distinct (map nc_operator cs)" and "pp_intensity pb \<le> 100"
    and "\<And>m. distinct (sort_keys m h) \<and> set (sort_keys m h) = set (map fst m)"
  shows "mset (map nc_operator out) = mset (map nc_operator cs) \<and>
    (\<forall>c' \<in> set out. \<exists>c \<in> set cs. probation_of_candidate pb c c')"
proof -
  from assms(1) obtain m where m: "foldE (\<lambda>c m. bindE (filter_candidate pb c) (\<lambda>c'.
         case parse_int10 (nc_total_votes c') of
           None \<Rightarrow> Inl (Err ''total weighted votes convert error'')
         | Some v \<Rightarrow> Inr (AList.update (nc_operator c) (c', v) m))) cs [] = Inr m"
    and out: "out = List.map_filter (\<lambda>k. map_option fst (map_of m k)) (sort_keys (map (\<lambda>(k, c, v). (k, v)) m) h)"
    by (auto simp: filterStakingCandidates_def bindE_eq_Inr)
  from filter_fold [OF assms(3) m assms(2)]
  have all: "list_all2 (\<lambda>c (k, c', v). k = nc_operator c \<and> probation_of_candidate pb c c') cs m" by auto
  then have keys: "map fst m = map nc_operator cs" by (induction rule: list_all2_induct) auto
  let ?ks = "sort_keys (map (\<lambda>(k, c, v). (k, v)) m) h"
  have ks: "distinct ?ks" "set ?ks = set (map nc_operator cs)"
    using assms(4) [of "map (\<lambda>(k, c, v). (k, v)) m"] keys by (auto simp: comp_def case_prod_beta)
  have entry: "\<exists>c' v. map_of m k = Some (c', v) \<and> nc_operator c' = k \<and> (\<exists>c \<in> set cs. probation_of_candidate pb c c')"
    if "k \<in> set ?ks" for k
  proof -
    from that ks(2) keys obtain cv where cv: "map_of m k = Some cv"
      by (metis map_of_eq_None_iff not_None_eq set_map)
    then obtain c' v where c': "cv = (c', v)" "(k, c', v) \<in> set m" by (cases cv) (auto dest: map_of_SomeD)
    from list_all2_in_set [OF all c'(2)] obtain c
      where c: "c \<in> set cs" "k = nc_operator c" "probation_of_candidate pb c c'" by auto
    have "nc_operator c' = k" using probation_keeps_operator [OF c(3)] c(2) by simp
    with cv c'(1) c show ?thesis by blast
  qed
  have "map nc_operator (List.map_filter (\<lambda>k. map_option fst (map_of m k)) ks) = ks" if "set ks \<subseteq> set ?ks" for ks
    using that
  proof (induction ks)
    case Nil
    then show ?case by (simp add: List.map_filter_simps)
  next
    case (Cons k ks)
    with entry [of k] show ?case by (auto simp: List.map_filter_simps)
  qed
  then have "map nc_operator out = ?ks" using out by simp
  moreover have "mset ?ks = mset (map nc_operator cs)"
    using ks assms(2) by (metis mset_set_set)
  moreover have "\<forall>c' \<in> set out. \<exists>c \<in> set cs. probation_of_candidate pb c c'"
    using entry by (fastforce simp: out List.map_filter_def)
  ultimately show ?thesis by simp
qed

lemma sample_votes: "parse_int10 (nc_total_votes (sample_candidate nm self)) = Some 7"
  by (simp add: sample_candidate_def parse_int10_def parse_nat_def digit_value_def)

definition sort_by_key :: "(string \<times> int) list \<Rightarrow> u64 \<Rightarrow> string list" where
  "sort_by_key m h = remdups (map fst m)"

theorem filter_keeps_candidates_witness:
  "\<exists>c v. filterStakingCandidates sort_by_key [sample_candidate ''a'' ''5''] \<lparr>pp_intensity = 90, pp_list = [(''io1op'', 2)]\<rparr> 20 = Inr [c]
    \<and> nc_operator c = ''io1op'' \<and> parse_int10 (nc_total_votes c) = Some v \<and> v \<le> 7"
proof -
  let ?pb = "\<lparr>pp_intensity = 90, pp_list = [(''io1op'', 2)]\<rparr>"
  have op: "nc_operator (sample_candidate nm self) = ''io1op''" for nm self by (simp add: sample_candidate_def)
  obtain c where run: "filterStakingCandidates sort_by_key [sample_candidate ''a'' ''5''] ?pb 20 = Inr [c]"
    by (simp add: filterStakingCandidates_def filter_candidate_def sample_votes op sort_by_key_def List.map_filter_simps
        probation_addresses_def)
  have "distinct (sort_by_key m h) \<and> set (sort_by_key m h) = set (map fst m)" for m h by (simp add: sort_by_key_def)
  from filter_keeps_candidates [OF run _ _ this] have "nc_operator c = ''io1op''"
      "probation_of_candidate ?pb (sample_candidate ''a'' ''5'') c" by (simp_all add: op)
  with sample_votes [of "''a''" "''5''"] run show ?thesis by (auto simp: probation_of_candidate_def)
qed

end
