(* ===== verification/HermesSums.thy ===== *)
theory HermesSums
  imports HermesVotes
begin

text \<open>
  The two vote tables of hermes against each other: the votes per voter and candidate are the sums of
  the votes per bucket.
\<close>

subsection \<open>Sums over keys\<close>

definition key_total :: "(aggregate_key \<Rightarrow> bool) \<Rightarrow> (aggregate_key \<times> int) list \<Rightarrow> int" where
  "key_total P sums = sum_rows (\<lambda>kv. P (fst kv)) snd sums"

lemma key_total_update:
  assumes "distinct (map fst m)"
  shows "key_total P (AList.update k x m) = key_total P m + (if P k then x - (case map_of m k of None \<Rightarrow> 0 | Some y \<Rightarrow> y) else 0)"
  using assms
proof (induction m)
  case Nil
  then show ?case by (simp add: key_total_def)
next
  case (Cons kv m)
  obtain k' y where kv: "kv = (k', y)" by fastforce
  have "map_of m k = None" if "k' = k" using Cons.prems that by (simp add: kv map_of_eq_None_iff)
  with Cons show ?case by (auto simp: kv key_total_def)
qed

lemma add_vote_total:
  "distinct (map fst m) \<Longrightarrow> key_total P (add_vote k w m) = key_total P m + (if P k then w else 0)"
  by (simp add: add_vote_def key_total_update)

lemma add_vote_keys:
  "distinct (map fst m) \<Longrightarrow> distinct (map fst (add_vote k w m))"
  "fst ` set (add_vote k w m) = insert k (fst ` set m)"
  by (simp_all add: add_vote_def distinct_update dom_update)

text \<open>What a loop over votes adds.\<close>

definition votes_total :: "(hermes_bucket \<Rightarrow> int res) \<Rightarrow> (hermes_bucket \<Rightarrow> bool) \<Rightarrow> hermes_bucket list \<Rightarrow> int" where
  "votes_total weight Q vs = sum_rows Q (\<lambda>v. projr (weight v)) vs"

lemma sum_vote_fold:
  "foldE (sum_vote weight e native) vs (sums, voted) = Inr (sums', voted') \<Longrightarrow> distinct (map fst sums) \<Longrightarrow>
   distinct (map fst sums') \<and> fst ` set sums' = fst ` set sums \<union> vote_key e native ` set vs \<and>
   key_total P sums' = key_total P sums + votes_total weight (\<lambda>v. P (vote_key e native v)) vs"
proof (induction vs arbitrary: sums voted)
  case Nil
  then show ?case by (simp add: votes_total_def)
next
  case (Cons v vs)
  from Cons.prems(1) obtain w a where w: "weight v = Inr w"
    and rest: "foldE (sum_vote weight e native) vs (add_vote (vote_key e native v) w sums, voted + a) = Inr (sums', voted')"
    by (auto simp: sum_vote_def [of weight e native v] bindE_eq_Inr)
  from Cons.IH [OF rest add_vote_keys(1) [OF Cons.prems(2)]] w
  show ?case by (simp add: add_vote_keys(2) add_vote_total [OF Cons.prems(2)] votes_total_def)
qed

subsection \<open>The strings that stand for keys\<close>

text \<open>
  Keys of one epoch, whose candidates have addresses of one length, have different strings.
\<close>

lemma key_string_inj:
  assumes "key_string (e, c1, v1, n1) = key_string (e, c2, v2, n2)" and "length c1 = length c2"
  shows "(c1, v1, n1) = (c2, v2, n2)"
proof -
  from assms have "c1 = c2" and tails: "v1 @ (if n1 then ''true'' else ''false'') = v2 @ (if n2 then ''true'' else ''false'')"
    by (auto simp: key_string_def)
  from tails have "n1 = n2"
  proof (cases n1; cases n2)
    assume "n1" "\<not> n2"
    with tails have "v1 @ ''true'' = (v2 @ ''f'') @ ''alse''" by simp
    then show ?thesis by (subst (asm) append_eq_append_conv) simp_all
  next
    assume "\<not> n1" "n2"
    with tails have "(v1 @ ''f'') @ ''alse'' = v2 @ ''true''" by simp
    then show ?thesis by (subst (asm) append_eq_append_conv) simp_all
  qed simp_all
  with tails \<open>c1 = c2\<close> show ?thesis by simp
qed

text \<open>With different strings no row is left out.\<close>

lemma aggregate_rows_all:
  "foldE (\<lambda>kv (seen, out).
       if key_string (fst kv) \<in> seen then Inr (seen, out)
       else bindE (aggregate_row_of cs p kv) (\<lambda>r. Inr (insert (key_string (fst kv)) seen, out @ [r]))) kvs (seen, out) = Inr (seen', out') \<Longrightarrow>
   distinct (map (key_string \<circ> fst) kvs) \<Longrightarrow> key_string ` fst ` set kvs \<inter> seen = {} \<Longrightarrow>
   \<exists>new. out' = out @ new \<and> list_all2 (\<lambda>kv r. aggregate_row_of cs p kv = Inr r) kvs new"
proof (induction kvs arbitrary: seen out)
  case Nil
  then show ?case by simp
next
  case (Cons kv kvs)
  let ?body = "\<lambda>kv (seen, out). if key_string (fst kv) \<in> seen then Inr (seen, out)
       else bindE (aggregate_row_of cs p kv) (\<lambda>r. Inr (insert (key_string (fst kv)) seen, out @ [r]))"
  from Cons.prems obtain r where r: "aggregate_row_of cs p kv = Inr r"
    and rest: "foldE ?body kvs (insert (key_string (fst kv)) seen, out @ [r]) = Inr (seen', out')"
    by (auto simp: bindE_eq_Inr)
  have "key_string ` fst ` set kvs \<inter> insert (key_string (fst kv)) seen = {}"
    using Cons.prems(2,3) by (simp add: image_image)
  from Cons.IH [OF rest _ this] Cons.prems(2) obtain new
    where "out' = (out @ [r]) @ new" "list_all2 (\<lambda>kv r. aggregate_row_of cs p kv = Inr r) kvs new" by auto
  with r have "out' = out @ (r # new)" "list_all2 (\<lambda>kv r. aggregate_row_of cs p kv = Inr r) (kv # kvs) (r # new)"
    by simp_all
  then show ?case by blast
qed

subsection \<open>The two tables\<close>

text \<open>The keys of the votes of one voter, with one flag, for the candidates of one name.\<close>

definition votes_for :: "node_candidate list \<Rightarrow> string \<Rightarrow> string \<Rightarrow> bool \<Rightarrow> aggregate_key \<Rightarrow> bool" where
  "votes_for cs name voter native k \<longleftrightarrow>
     (case k of (e, cand, vt, nt) \<Rightarrow> ownerAddressToNameMap cs cand = Some name \<and> vt = voter \<and> nt = native)"

definition not_probated :: "node_candidate list \<Rightarrow> probation_pb \<Rightarrow> string \<Rightarrow> bool" where
  "not_probated cs pb name \<longleftrightarrow> (\<forall>c \<in> set cs. nc_operator c \<in> probation_addresses pb \<longrightarrow>
     ownerAddressToNameMap cs (nc_id c) \<noteq> Some name)"

lemma probated_same:
  "not_probated cs pb name \<Longrightarrow> ownerAddressToNameMap cs cand = Some name \<Longrightarrow>
    probated (stakingProbationListToMap cs pb) cand v = v"
  by (auto simp: not_probated_def probated_def stakingProbationListToMap_def)

lemma aggregate_sum:
  assumes "list_all2 (\<lambda>kv r. aggregate_row_of cs (stakingProbationListToMap cs pb) kv = Inr r) kvs new"
    and "not_probated cs pb name"
  shows "sum_rows (\<lambda>r. ag_name r = name \<and> ag_voter r = voter \<and> ag_native r = native) ag_votes new =
    key_total (votes_for cs name voter native) kvs"
  using assms(1)
proof (induction rule: list_all2_induct)
  case Nil
  then show ?case by (simp add: key_total_def)
next
  case (Cons kv kvs r new)
  obtain e cand vt nt v where kv: "kv = ((e, cand, vt, nt), v)" by (metis prod_cases4 prod.collapse)
  from Cons.hyps(1) obtain nm where nm: "ownerAddressToNameMap cs cand = Some nm"
    and r: "r = \<lparr>ag_epoch = e, ag_name = nm, ag_voter = vt, ag_native = nt,
       ag_votes = probated (stakingProbationListToMap cs pb) cand v\<rparr>"
    by (auto simp: kv aggregate_row_of_def split: option.splits)
  have "probated (stakingProbationListToMap cs pb) cand v = v" if "nm = name"
    using probated_same [OF assms(2), of cand v] nm that by simp
  with Cons.IH nm show ?case by (auto simp: kv r key_total_def votes_for_def)
qed

lemma bucket_sum:
  assumes "collect (\<lambda>v. map_res (\<lambda>w. [bucket_vote_row_of cs (stakingProbationListToMap cs pb) e nt v w]) (weight v)) vs = Inr new"
    and "not_probated cs pb name" and "\<forall>v \<in> set vs. ownerAddressToNameMap cs (vb_candidate v) \<noteq> None"
  shows "sum_rows (\<lambda>r. bv_name r = name \<and> bv_voter r = voter \<and> bv_native r = native) bv_votes new =
    votes_total weight (\<lambda>v. votes_for cs name voter native (vote_key e nt v)) vs"
  using assms(1,3)
proof (induction vs arbitrary: new)
  case Nil
  then show ?case by (simp add: votes_total_def)
next
  case (Cons v vs)
  from Cons.prems(1) obtain w new' where w: "weight v = Inr w"
    and rest: "collect (\<lambda>v. map_res (\<lambda>w. [bucket_vote_row_of cs (stakingProbationListToMap cs pb) e nt v w]) (weight v)) vs = Inr new'"
    and new: "new = bucket_vote_row_of cs (stakingProbationListToMap cs pb) e nt v w # new'"
    by (auto simp: bindE_eq_Inr map_res_eq)
  obtain nm where nm: "ownerAddressToNameMap cs (vb_candidate v) = Some nm" using Cons.prems(2) by auto
  have "probated (stakingProbationListToMap cs pb) (vb_candidate v) w = w" if "nm = name"
    using probated_same [OF assms(2), of "vb_candidate v" w] nm that by simp
  with Cons.IH [OF rest] Cons.prems(2) w nm show ?case
    by (auto simp: new bucket_vote_row_of_def votes_total_def votes_for_def vote_key_def)
qed

lemma sum_rows_mset: "sum_rows p f rows = sum_mset (image_mset f (filter_mset p (mset rows)))"
  by (induction rows) simp_all

lemma key_total_perm: "mset kvs = mset kvs' \<Longrightarrow> key_total P kvs = key_total P kvs'"
  by (simp add: key_total_def sum_rows_mset)

text \<open>
  C34: The votes per voter are the sums of the votes per bucket. The rows that one epoch adds to
  hermes_aggregate_votings and to hermes_bucket_votings state, for every delegate, voter and kind of
  bucket, the same votes, in whatever order Go ranges over its map, for delegates that are not on
  probation and where all candidates have addresses of one length, as addresses do.
\<close>

theorem aggregate_is_bucket_sum:
  assumes "updateAggregateStaking env h vs cs e pb (metas, rows) = Inr (metas', rows')"
    and "updateBucketStaking env h vs cs e pb brows = Inr brows'"
    and "not_probated cs pb name" and "\<forall>c \<in> set cs. length (nc_id c) = len"
    and "\<And>sums. mset (vk_order env sums) = mset sums"
  shows "\<exists>new bnew. rows' = rows @ new \<and> brows' = brows @ bnew \<and>
    sum_rows (\<lambda>r. ag_name r = name \<and> ag_voter r = voter \<and> ag_native r = native) ag_votes new =
    sum_rows (\<lambda>r. bv_name r = name \<and> bv_voter r = voter \<and> bv_native r = native) bv_votes bnew"
proof -
  let ?P = "votes_for cs name voter native" and ?p = "stakingProbationListToMap cs pb"
  from assms(1) obtain sums voted seen new where s: "sum_votes env h e cs vs = Inr (sums, voted)"
    and a: "aggregate_rows cs ?p (vk_order env sums) = Inr (seen, new)" and rows': "rows' = rows @ new"
    by (auto simp: updateAggregateStaking_def bindE_eq_Inr split: if_splits)
  from s obtain sums1 voted1 where s1: "foldE (sum_vote (native_weight env cs) e True) (native_votes cs vs) ([], 0) = Inr (sums1, voted1)"
    and s2: "foldE (sum_vote (lsd_weight env h) e False) (lsd_votes cs vs) (sums1, voted1) = Inr (sums, voted)"
    by (auto simp: sum_votes_def bindE_eq_Inr)
  have 1: "distinct (map fst sums1)" "fst ` set sums1 = vote_key e True ` set (native_votes cs vs)"
      "key_total ?P sums1 = votes_total (native_weight env cs) (\<lambda>v. ?P (vote_key e True v)) (native_votes cs vs)"
    using sum_vote_fold [OF s1, of ?P] by (simp_all add: key_total_def)
  have 2: "distinct (map fst sums)" "fst ` set sums = fst ` set sums1 \<union> vote_key e False ` set (lsd_votes cs vs)"
      "key_total ?P sums = key_total ?P sums1 + votes_total (lsd_weight env h) (\<lambda>v. ?P (vote_key e False v)) (lsd_votes cs vs)"
    using sum_vote_fold [OF s2 1(1), of ?P] by simp_all
  have active: "\<exists>c \<in> set cs. nc_id c = vb_candidate v"
    if "v \<in> set (native_votes cs vs) \<union> set (lsd_votes cs vs)" for v
  proof -
    from that have "ownerAddressToNameMap cs (vb_candidate v) \<noteq> None"
      by (auto simp: native_votes_def lsd_votes_def active_votes_def)
    then show ?thesis by (auto simp: ownerAddressToNameMap_def map_of_eq_None_iff image_iff)
  qed
  have keys: "\<exists>cand vt nt. k = (e, cand, vt, nt) \<and> length cand = len" if "k \<in> fst ` set sums" for k
  proof -
    from that 1(2) 2(2) obtain v nt where v: "v \<in> set (native_votes cs vs) \<union> set (lsd_votes cs vs)" "k = vote_key e nt v" by auto
    from active [OF v(1)] assms(4) have "length (vb_candidate v) = len" by auto
    with v(2) show ?thesis by (simp add: vote_key_def)
  qed
  have perm: "mset (vk_order env sums) = mset sums" by (rule assms(5))
  have "inj_on key_string (fst ` set sums)"
  proof (rule inj_onI)
    fix k k'
    assume "k \<in> fst ` set sums" "k' \<in> fst ` set sums" "key_string k = key_string k'"
    moreover from keys [OF calculation(1)] keys [OF calculation(2)] obtain c1 v1 n1 c2 v2 n2
      where "k = (e, c1, v1, n1)" "k' = (e, c2, v2, n2)" "length c1 = length c2" by auto
    ultimately show "k = k'" using key_string_inj [of e c1 v1 n1 c2 v2 n2] by simp
  qed
  moreover have "distinct (map fst (vk_order env sums))" and "fst ` set (vk_order env sums) = fst ` set sums"
    using perm 2(1) by (metis mset_map mset_eq_imp_distinct_iff, metis mset_eq_setD)
  ultimately have strings: "distinct (map (key_string \<circ> fst) (vk_order env sums))"
    by (simp flip: map_map add: distinct_map)
  from aggregate_rows_all [OF a [unfolded aggregate_rows_def] strings]
  have "list_all2 (\<lambda>kv r. aggregate_row_of cs ?p kv = Inr r) (vk_order env sums) new" by auto
  from aggregate_sum [OF this assms(3)] key_total_perm [OF perm, of ?P] 1(3) 2(3)
  have agg: "sum_rows (\<lambda>r. ag_name r = name \<and> ag_voter r = voter \<and> ag_native r = native) ag_votes new =
      votes_total (native_weight env cs) (\<lambda>v. ?P (vote_key e True v)) (native_votes cs vs) +
      votes_total (lsd_weight env h) (\<lambda>v. ?P (vote_key e False v)) (lsd_votes cs vs)" by simp
  from assms(2) obtain b1 b2 where
      b1: "collect (\<lambda>v. map_res (\<lambda>w. [bucket_vote_row_of cs ?p e True v w]) (native_weight env cs v)) (native_votes cs vs) = Inr b1"
    and b2: "collect (\<lambda>v. map_res (\<lambda>w. [bucket_vote_row_of cs ?p e False v w]) (lsd_weight env h v)) (lsd_votes cs vs) = Inr b2"
    and brows': "brows' = brows @ (b1 @ b2)"
    by (auto simp: updateBucketStaking_def Let_def bindE_eq_Inr)
  have names: "\<forall>v \<in> set (native_votes cs vs). ownerAddressToNameMap cs (vb_candidate v) \<noteq> None"
      "\<forall>v \<in> set (lsd_votes cs vs). ownerAddressToNameMap cs (vb_candidate v) \<noteq> None"
    by (auto simp: native_votes_def lsd_votes_def active_votes_def)
  from bucket_sum [OF b1 assms(3) names(1), of voter native] bucket_sum [OF b2 assms(3) names(2), of voter native] agg
  have "sum_rows (\<lambda>r. bv_name r = name \<and> bv_voter r = voter \<and> bv_native r = native) bv_votes (b1 @ b2) =
      sum_rows (\<lambda>r. ag_name r = name \<and> ag_voter r = voter \<and> ag_native r = native) ag_votes new" by simp
  with rows' brows' show ?thesis by (intro exI [of _ new] exI [of _ "b1 @ b2"]) simp
qed

definition lsd_bucket :: "u64 \<Rightarrow> string \<Rightarrow> hermes_bucket" where
  "lsd_bucket i amount = \<lparr>vb_index = i, vb_candidate = ''io1a'', vb_staked_amount = amount, vb_auto_stake = False,
     vb_staked_duration = 0, vb_endorsement_expire = 0, hb_owner = ''io1v'', hb_contract = ''io1lsd'',
     hb_stake_start = 0, hb_unstake_start = 0\<rparr>"

definition small_votes :: vote_env where
  "small_votes = \<lparr>vk_consts = \<lparr>vc_log = (\<lambda>x. x), vc_duration_lg = F64 1 0, vc_auto_stake = F64 1 0, vc_self_stake = F64 1 0\<rparr>,
     vk_redsea = 1000, vk_order = rev\<rparr>"

lemma small_vote_runs:
  "\<exists>metas rows. updateAggregateStaking small_votes 20 [lsd_bucket 1 ''5'', lsd_bucket 2 ''7''] [sample_candidate ''a'' ''5''] 3
      \<lparr>pp_intensity = 0, pp_list = []\<rparr> ([], []) = Inr (metas, rows)"
  "updateBucketStaking small_votes 20 [lsd_bucket 1 ''5'', lsd_bucket 2 ''7''] [sample_candidate ''a'' ''5''] 3
      \<lparr>pp_intensity = 0, pp_list = []\<rparr> [] = Inr
     [\<lparr>bv_epoch = 3, bv_name = ''a'', bv_voter = ''io1v'', bv_native = False, bv_bucket = 1, bv_votes = 5\<rparr>,
      \<lparr>bv_epoch = 3, bv_name = ''a'', bv_voter = ''io1v'', bv_native = False, bv_bucket = 2, bv_votes = 7\<rparr>]"
proof -
  have parse: "parse_int10 ''5'' = Some 5" "parse_int10 ''7'' = Some 7"
    by (simp_all add: parse_int10_def parse_nat_def digit_value_def)
  have names: "ownerAddressToNameMap [sample_candidate ''a'' ''5''] = [''io1a'' \<mapsto> ''a'']"
    by (simp add: ownerAddressToNameMap_def sample_candidate_def)
  have votes: "native_votes [sample_candidate ''a'' ''5''] [lsd_bucket 1 ''5'', lsd_bucket 2 ''7''] = []"
      "lsd_votes [sample_candidate ''a'' ''5''] [lsd_bucket 1 ''5'', lsd_bucket 2 ''7''] = [lsd_bucket 1 ''5'', lsd_bucket 2 ''7'']"
    by (simp_all add: native_votes_def lsd_votes_def active_votes_def names lsd_bucket_def)
  have amounts: "staked_amount_of (lsd_bucket i ''5'') = Inr 5" "staked_amount_of (lsd_bucket i ''7'') = Inr 7" for i
    by (simp_all add: staked_amount_of_def lsd_bucket_def parse)
  have weights: "lsd_weight small_votes 20 (lsd_bucket i ''5'') = Inr 5" "lsd_weight small_votes 20 (lsd_bucket i ''7'') = Inr 7" for i
    by (simp_all add: lsd_weight_def amounts small_votes_def)
  have key: "vote_key 3 False (lsd_bucket i a) = (3, ''io1a'', ''io1v'', False)" for i a
    by (simp add: vote_key_def lsd_bucket_def)
  have prob: "stakingProbationListToMap [sample_candidate ''a'' ''5''] \<lparr>pp_intensity = 0, pp_list = []\<rparr> = (F64 0 0, {})"
    by (simp add: stakingProbationListToMap_def probation_addresses_def)
  have order: "vk_order small_votes = rev" by (simp add: small_votes_def)
  show "\<exists>metas rows. updateAggregateStaking small_votes 20 [lsd_bucket 1 ''5'', lsd_bucket 2 ''7''] [sample_candidate ''a'' ''5''] 3
      \<lparr>pp_intensity = 0, pp_list = []\<rparr> ([], []) = Inr (metas, rows)"
    by (simp add: updateAggregateStaking_def sum_votes_def votes sum_vote_def weights amounts key add_vote_def
        total_weighted_def sample_votes aggregate_rows_def aggregate_row_of_def names prob order)
  show "updateBucketStaking small_votes 20 [lsd_bucket 1 ''5'', lsd_bucket 2 ''7''] [sample_candidate ''a'' ''5''] 3
      \<lparr>pp_intensity = 0, pp_list = []\<rparr> [] = Inr
     [\<lparr>bv_epoch = 3, bv_name = ''a'', bv_voter = ''io1v'', bv_native = False, bv_bucket = 1, bv_votes = 5\<rparr>,
      \<lparr>bv_epoch = 3, bv_name = ''a'', bv_voter = ''io1v'', bv_native = False, bv_bucket = 2, bv_votes = 7\<rparr>]"
    by (simp add: updateBucketStaking_def votes weights bucket_vote_row_of_def names prob Let_def probated_def)
      (simp add: lsd_bucket_def)
qed

theorem aggregate_is_bucket_sum_witness:
  "\<exists>metas rows. updateAggregateStaking small_votes 20 [lsd_bucket 1 ''5'', lsd_bucket 2 ''7''] [sample_candidate ''a'' ''5''] 3
      \<lparr>pp_intensity = 0, pp_list = []\<rparr> ([], []) = Inr (metas, rows) \<and>
    sum_rows (\<lambda>r. ag_name r = ''a'' \<and> ag_voter r = ''io1v'' \<and> ag_native r = False) ag_votes rows = 12"
proof -
  from small_vote_runs(1) obtain metas rows where run: "updateAggregateStaking small_votes 20 [lsd_bucket 1 ''5'', lsd_bucket 2 ''7'']
      [sample_candidate ''a'' ''5''] 3 \<lparr>pp_intensity = 0, pp_list = []\<rparr> ([], []) = Inr (metas, rows)" by blast
  have "not_probated [sample_candidate ''a'' ''5''] \<lparr>pp_intensity = 0, pp_list = []\<rparr> ''a''"
    by (simp add: not_probated_def probation_addresses_def)
  moreover have "\<forall>c \<in> set [sample_candidate ''a'' ''5'']. length (nc_id c) = 4" by (simp add: sample_candidate_def)
  moreover have "mset (vk_order small_votes sums) = mset sums" for sums by (simp add: small_votes_def)
  ultimately have "sum_rows (\<lambda>r. ag_name r = ''a'' \<and> ag_voter r = ''io1v'' \<and> ag_native r = False) ag_votes rows = 12"
    using aggregate_is_bucket_sum [OF run small_vote_runs(2), of "''a''" 4 "''io1v''" False] by auto
  with run show ?thesis by blast
qed

end
