(* ===== verification/HermesLogs.thy ===== *)
theory HermesLogs
  imports Chain GoFloat RowSink "HOL-Library.Product_Lexorder" "HOL-Library.Multiset"
begin

text \<open>
  plugins/hermes/util.go: the reward portions that delegates set in the profile contract, read from the
  log table of block_receipts in ranges of a million blocks.
\<close>

record receipt_log =
  brl_height :: u64
  brl_hash :: string
  brl_address :: string
  brl_topics :: "string list" \<comment> \<open>Topic0 to Topic3, empty where there is none\<close>
  brl_data :: "byte list"
  brl_tx_index :: nat
  brl_index :: nat

record chain_log =
  cl_address :: string
  cl_topics :: "hash256 list"
  cl_log_data :: "byte list"
  cl_height :: u64
  cl_hash :: hash256

text \<open>
  The query: the logs of a contract in \<open>[from, from + count)\<close>, ordered; the rows of the table are
  in the order of their ids.
\<close>

definition log_order :: "receipt_log \<Rightarrow> u64 \<times> nat \<times> nat" where
  "log_order r = (brl_height r, brl_tx_index r, brl_index r)"

definition select_logs :: "receipt_log list \<Rightarrow> string \<Rightarrow> u64 \<Rightarrow> u64 \<Rightarrow> receipt_log list" where
  "select_logs t addr lo n =
     sort_key log_order (filter (\<lambda>r. brl_address r = addr \<and> lo \<le> brl_height r \<and> brl_height r < lo + n) t)"

definition decode_topics :: "string list \<Rightarrow> hash256 list res" where
  "decode_topics ts =
     collect (\<lambda>t. case hex_decode t of None \<Rightarrow> Inl (Err ''failed to decode topic'') | Some bs \<Rightarrow> Inr [bs])
       (filter (\<lambda>t. t \<noteq> []) ts)"

definition wanted :: "hash256 list \<Rightarrow> hash256 list \<Rightarrow> bool" where
  "wanted filt topics \<longleftrightarrow> filt = [] \<or> (\<exists>t \<in> set topics. t \<in> set filt)"

definition log_from_row :: "hash256 list \<Rightarrow> receipt_log \<Rightarrow> chain_log list res" where
  "log_from_row filt r =
     bindE (decode_topics (brl_topics r)) (\<lambda>topics.
       if \<not> wanted filt topics then Inr []
       else case hex_decode (brl_hash r) of
              None \<Rightarrow> Inl (Err ''failed to decode action hash'')
            | Some h \<Rightarrow> Inr [\<lparr>cl_address = brl_address r, cl_topics = topics, cl_log_data = brl_data r,
                              cl_height = brl_height r, cl_hash = h\<rparr>])"

definition getLogFromDB :: "receipt_log list \<Rightarrow> string \<Rightarrow> hash256 list \<Rightarrow> u64 \<Rightarrow> u64 \<Rightarrow> chain_log list res" where
  "getLogFromDB t addr filt lo n = collect (log_from_row filt) (select_logs t addr lo n)"

subsection \<open>Portions\<close>

record profile_event =
  pe_delegate :: string \<comment> \<open>as an io1 address\<close>
  pe_name :: string
  pe_value :: "byte list"

record portions =
  blockRewardPortions :: "string \<rightharpoonup> f64"
  epochRewardPortions :: "string \<rightharpoonup> f64"
  foundationPortions :: "string \<rightharpoonup> f64"

definition no_portions :: portions where
  "no_portions = \<lparr>blockRewardPortions = Map.empty, epochRewardPortions = Map.empty, foundationPortions = Map.empty\<rparr>"

text \<open>\<open>float64(big.NewInt(0).SetBytes(value).Uint64()) / 100\<close>.\<close>

definition portion_of :: "byte list \<Rightarrow> f64" where
  "portion_of bs = f_div (f_of_nat (be_nat bs mod 2 ^ 64)) (f_of_nat 100)"

definition set_portion :: "profile_event \<Rightarrow> portions \<Rightarrow> portions" where
  "set_portion ev p =
     (if pe_name ev = ''blockRewardPortion''
      then p\<lparr>blockRewardPortions := (blockRewardPortions p)(pe_delegate ev \<mapsto> portion_of (pe_value ev))\<rparr>
      else if pe_name ev = ''epochRewardPortion''
      then p\<lparr>epochRewardPortions := (epochRewardPortions p)(pe_delegate ev \<mapsto> portion_of (pe_value ev))\<rparr>
      else if pe_name ev = ''foundationRewardPortion''
      then p\<lparr>foundationPortions := (foundationPortions p)(pe_delegate ev \<mapsto> portion_of (pe_value ev))\<rparr>
      else p)"

text \<open>
  \<open>unpack\<close> is the ABI decoder of ProfileUpdated; what it cannot decode is passed over. A log counts
  once for every topic that is the event's.
\<close>

definition portion_log ::
  "(byte list \<Rightarrow> profile_event option) \<Rightarrow> hash256 \<Rightarrow> chain_log \<Rightarrow> portions \<Rightarrow> portions" where
  "portion_log unpack topic l p =
     fold (\<lambda>t p. if t = topic
                 then (case unpack (cl_log_data l) of None \<Rightarrow> p | Some ev \<Rightarrow> set_portion ev p) else p)
       (cl_topics l) p"

definition maxBlockRange :: u64 where
  "maxBlockRange = 1000000"

definition shard_count :: "u64 \<Rightarrow> u64" where
  "shard_count n = (if n mod maxBlockRange \<noteq> 0 then n div maxBlockRange + 1 else n div maxBlockRange)"

text \<open>The shards \<open>i, i + 1, ...\<close>; \<open>k\<close> of them are left.\<close>

fun read_shards ::
  "nat \<Rightarrow> (u64 \<Rightarrow> u64 \<Rightarrow> chain_log list res) \<Rightarrow> (chain_log \<Rightarrow> portions \<Rightarrow> portions) \<Rightarrow> u64 \<Rightarrow> u64 \<Rightarrow> u64 \<Rightarrow>
   portions \<Rightarrow> portions res" where
  "read_shards 0 read_logs book lo n i p = Inr p"
| "read_shards (Suc k) read_logs book lo n i p =
     (let shardCount = (if i = shard_count n - 1 \<and> n mod maxBlockRange \<noteq> 0 then n mod maxBlockRange else maxBlockRange) in
      bindE (read_logs (lo + i * maxBlockRange) shardCount) (\<lambda>ls.
        read_shards k read_logs book lo n (i + 1) (fold book ls p)))"

definition getLog ::
  "receipt_log list \<Rightarrow> (byte list \<Rightarrow> profile_event option) \<Rightarrow> hash256 \<Rightarrow> string \<Rightarrow> u64 \<Rightarrow> u64 \<Rightarrow> portions res" where
  "getLog t unpack topic addr lo n =
     read_shards (unat (shard_count n)) (getLogFromDB t addr [topic]) (portion_log unpack topic) lo n 0 no_portions"

definition RewardportionContractDeployHeight :: u64 where
  "RewardportionContractDeployHeight = 5095225"

definition getAllStakingDelegateRewardPortions ::
  "receipt_log list \<Rightarrow> (byte list \<Rightarrow> profile_event option) \<Rightarrow> hash256 \<Rightarrow> string \<Rightarrow> u64 \<Rightarrow> portions res" where
  "getAllStakingDelegateRewardPortions t unpack topic addr h =
     getLog t unpack topic addr RewardportionContractDeployHeight (h - RewardportionContractDeployHeight)"

subsection \<open>Shards and the whole range\<close>

text \<open>Sorting the rows below a height and those from it on, one after the other, is sorting all.\<close>

lemma sort_key_split:
  assumes "\<And>x y. x \<in> set xs \<Longrightarrow> y \<in> set xs \<Longrightarrow> P x \<Longrightarrow> \<not> P y \<Longrightarrow> f x < f y"
  shows "sort_key f xs = sort_key f (filter P xs) @ sort_key f (filter (\<lambda>x. \<not> P x) xs)"
proof (rule properties_for_sort_key)
  let ?ys = "sort_key f (filter P xs) @ sort_key f (filter (\<lambda>x. \<not> P x) xs)"
  show "mset ?ys = mset xs" by simp
  show "sorted (map f ?ys)" using assms by (auto simp: sorted_append less_imp_le)
  fix k
  assume "k \<in> set ?ys"
  then have k: "k \<in> set xs" by auto
  have stable: "filter (\<lambda>x. f k = f x) (sort_key f zs) = filter (\<lambda>x. f k = f x) zs" for zs
    using sort_key_stable [of f "f k" zs] by (simp add: eq_commute)
  show "filter (\<lambda>x. f k = f x) ?ys = filter (\<lambda>x. f k = f x) xs"
  proof (cases "P k")
    case True
    with assms k have "x \<in> set xs \<Longrightarrow> f k = f x \<Longrightarrow> P x" for x by force
    then have "filter (\<lambda>x. f k = f x) (filter P xs) = filter (\<lambda>x. f k = f x) xs"
      and "filter (\<lambda>x. f k = f x) (filter (\<lambda>x. \<not> P x) xs) = []"
      by (auto simp: filter_empty_conv intro!: filter_cong)
    then show ?thesis by (simp only: filter_append stable append_Nil2)
  next
    case False
    with assms k have "x \<in> set xs \<Longrightarrow> f k = f x \<Longrightarrow> \<not> P x" for x by force
    then have "filter (\<lambda>x. f k = f x) (filter (\<lambda>x. \<not> P x) xs) = filter (\<lambda>x. f k = f x) xs"
      and "filter (\<lambda>x. f k = f x) (filter P xs) = []"
      by (auto simp: filter_empty_conv intro!: filter_cong)
    then show ?thesis by (simp only: filter_append stable append_Nil)
  qed
qed

lemma select_logs_split:
  assumes "lo \<le> lo + n" and "lo + n \<le> lo + n + k"
  shows "select_logs t addr lo (n + k) = select_logs t addr lo n @ select_logs t addr (lo + n) k"
proof -
  let ?xs = "filter (\<lambda>r. brl_address r = addr \<and> lo \<le> brl_height r \<and> brl_height r < lo + (n + k)) t"
  have "sort_key log_order ?xs = sort_key log_order (filter (\<lambda>r. brl_height r < lo + n) ?xs) @
      sort_key log_order (filter (\<lambda>r. \<not> brl_height r < lo + n) ?xs)"
    by (rule sort_key_split) (auto simp: log_order_def less_prod_def)
  moreover have "filter (\<lambda>r. brl_height r < lo + n) ?xs =
      filter (\<lambda>r. brl_address r = addr \<and> lo \<le> brl_height r \<and> brl_height r < lo + n) t"
    using assms(2) by (auto simp: add.assoc [symmetric] intro!: filter_cong)
  moreover have "filter (\<lambda>r. \<not> brl_height r < lo + n) ?xs =
      filter (\<lambda>r. brl_address r = addr \<and> lo + n \<le> brl_height r \<and> brl_height r < lo + n + k) t"
    using assms(1) by (auto simp: add.assoc [symmetric] intro!: filter_cong)
  ultimately show ?thesis by (simp only: select_logs_def)
qed

lemma getLogFromDB_split:
  assumes "lo \<le> lo + n" and "lo + n \<le> lo + n + k"
  shows "getLogFromDB t addr filt lo (n + k) =
    bindE (getLogFromDB t addr filt lo n) (\<lambda>ls. map_res ((@) ls) (getLogFromDB t addr filt (lo + n) k))"
  unfolding getLogFromDB_def select_logs_split [OF assms] collect_append by (simp add: map_res_def bindE_def)

text \<open>The shards as numbers.\<close>

definition shards :: "nat \<Rightarrow> nat" where
  "shards n = n div 1000000 + (if n mod 1000000 = 0 then 0 else 1)"

lemma u64_bound: "unat (n :: u64) < 2 ^ 64"
  using unsigned_less [of n] by simp

lemma maxBlockRange_nat [simp]: "unat maxBlockRange = 1000000"
  by (simp add: maxBlockRange_def)

lemma shard_count_shards: "shard_count n = word_of_nat (shards (unat n))"
proof -
  have d: "n div maxBlockRange = word_of_nat (unat n div 1000000)"
    using u64_bound [of n]
    by (simp add: word_eq_iff_unsigned [where 'a = nat] unat_div unat_of_nat take_bit_nat_eq_self less_imp_diff_less
        le_less_trans [OF div_le_dividend])
  have m: "n mod maxBlockRange = 0 \<longleftrightarrow> unat n mod 1000000 = 0"
    by (metis maxBlockRange_nat unat_mod unsigned_eq_0_iff)
  show ?thesis by (simp add: shard_count_def shards_def d m)
qed

lemma shards_last:
  assumes "i + Suc k = shards n" and "i * 1000000 \<le> n"
  shows "k = 0 \<and> n mod 1000000 \<noteq> 0 \<and> n - i * 1000000 = n mod 1000000 \<or>
    (k \<noteq> 0 \<or> n mod 1000000 = 0) \<and> Suc i * 1000000 \<le> n"
proof -
  have n: "n = n div 1000000 * 1000000 + n mod 1000000" by simp
  show ?thesis
  proof (cases "n mod 1000000 = 0")
    case True
    then have "Suc i \<le> n div 1000000" using assms(1) by (simp add: shards_def)
    then have "Suc i * 1000000 \<le> n div 1000000 * 1000000" by (rule mult_le_mono1)
    with True n show ?thesis by linarith
  next
    case False
    then have i: "i + k = n div 1000000" using assms(1) by (simp add: shards_def)
    show ?thesis
    proof (cases "k = 0")
      case True
      with i n False show ?thesis by (metis add.right_neutral add_diff_cancel_left')
    next
      case nz: False
      then have "Suc i \<le> n div 1000000" using i by simp
      then have "Suc i * 1000000 \<le> n div 1000000 * 1000000" by (rule mult_le_mono1)
      with nz n show ?thesis by linarith
    qed
  qed
qed

lemma read_shards_whole:
  fixes R :: "u64 \<Rightarrow> u64 \<Rightarrow> chain_log list res"
  assumes split: "\<And>lo n k. lo \<le> lo + n \<Longrightarrow> lo + n \<le> lo + n + k \<Longrightarrow> R lo (n + k) = bindE (R lo n) (\<lambda>ls. map_res ((@) ls) (R (lo + n) k))"
    and zero: "\<And>lo. R lo 0 = Inr []"
    and fits: "unat lo + unat n < 2 ^ 64"
  shows "i + k = shards (unat n) \<Longrightarrow> i * 1000000 \<le> unat n \<Longrightarrow>
    read_shards k R book lo n (word_of_nat i) p =
      map_res (\<lambda>ls. fold book ls p) (R (lo + word_of_nat (i * 1000000)) (word_of_nat (unat n - i * 1000000)))"
proof (induction k arbitrary: i p)
  case 0
  have "unat n \<le> i * 1000000"
  proof -
    have "unat n = unat n div 1000000 * 1000000 + unat n mod 1000000" by simp
    moreover have "unat n mod 1000000 < 1000000" by simp
    ultimately show ?thesis using 0(1) by (auto simp: shards_def split: if_splits)
  qed
  then show ?case by (simp add: zero)
next
  case (Suc k)
  let ?M = "1000000 :: nat" and ?lo = "lo + word_of_nat (i * 1000000)"
  have small: "unat n < 2 ^ 64" by (rule u64_bound)
  have at: "word_of_nat i * maxBlockRange = word_of_nat (i * ?M)" by (simp add: maxBlockRange_def)
  have modM: "n mod maxBlockRange = word_of_nat (unat n mod ?M)"
    using small by (simp add: word_eq_iff_unsigned [where 'a = nat] unat_mod unat_of_nat take_bit_nat_eq_self
        le_less_trans [OF mod_less_eq_dividend])
  have "shards (unat n) \<le> unat n" by (cases "unat n mod 1000000 = 0") (auto simp: shards_def)
  then have S: "shards (unat n) < 2 ^ 64" using small by linarith
  have i_last: "word_of_nat i = shard_count n - 1 \<longleftrightarrow> k = 0"
  proof -
    have "shard_count n - 1 = word_of_nat (i + k)"
      using Suc.prems(1) by (simp add: shard_count_shards flip: Suc.prems(1))
    moreover have "word_of_nat i = (word_of_nat (i + k) :: u64) \<longleftrightarrow> i = i + k"
      using S Suc.prems(1) by (simp add: word_eq_iff_unsigned [where 'a = nat] unat_of_nat take_bit_nat_eq_self del: of_nat_add)
    ultimately show ?thesis by simp
  qed
  have mod0: "n mod maxBlockRange \<noteq> 0 \<longleftrightarrow> unat n mod ?M \<noteq> 0"
    by (metis maxBlockRange_nat unat_mod unsigned_eq_0_iff)
  have step: "read_shards (Suc k) R book lo n (word_of_nat i) p =
      bindE (R ?lo (if k = 0 \<and> unat n mod ?M \<noteq> 0 then word_of_nat (unat n mod ?M) else maxBlockRange)) (\<lambda>ls.
        read_shards k R book lo n (word_of_nat (Suc i)) (fold book ls p))"
    unfolding read_shards.simps Let_def at i_last mod0 unfolding modM by (simp only: of_nat_Suc add.commute)
  from shards_last [OF Suc.prems] show ?case
  proof (rule disjE)
    assume "k = 0 \<and> unat n mod ?M \<noteq> 0 \<and> unat n - i * ?M = unat n mod ?M"
    then show ?thesis unfolding step by (simp add: bindE_def map_res_def)
  next
    assume "(k \<noteq> 0 \<or> unat n mod ?M = 0) \<and> Suc i * ?M \<le> unat n"
    then have not_last: "k \<noteq> 0 \<or> unat n mod ?M = 0" and le: "Suc i * ?M \<le> unat n" by simp_all
    have max: "maxBlockRange = word_of_nat ?M" by (simp add: maxBlockRange_def)
    have "Suc i * ?M = i * ?M + ?M" by simp
    then have next_lo: "?lo + maxBlockRange = lo + word_of_nat (Suc i * ?M)"
      unfolding max by (simp only: of_nat_add add.assoc)
    have "unat n - i * ?M = ?M + (unat n - Suc i * ?M)" using le by simp
    then have rest: "(word_of_nat (unat n - i * ?M) :: u64) = maxBlockRange + word_of_nat (unat n - Suc i * ?M)"
      unfolding max by (simp only: of_nat_add)
    have far: "unat (lo + word_of_nat a) = unat lo + a" if "a \<le> unat n" for a
    proof -
      have "a < 2 ^ 64" using that small by linarith
      then have a: "unat (word_of_nat a :: u64) = a" by (simp add: unat_of_nat take_bit_nat_eq_self)
      have "unat lo + a < 2 ^ 64" using that fits by linarith
      then show ?thesis using unat_plus_if' [of lo "word_of_nat a"] by (simp add: a)
    qed
    have "word_of_nat (unat n) = (word_of_nat (Suc i * ?M + (unat n - Suc i * ?M)) :: u64)"
      using le by (simp only: le_add_diff_inverse)
    then have end_lo: "lo + word_of_nat (Suc i * ?M) + word_of_nat (unat n - Suc i * ?M) = lo + word_of_nat (unat n)"
      by (simp only: of_nat_add add.assoc)
    have le3: "i * ?M \<le> Suc i * ?M" "i * ?M \<le> unat n" using le by simp_all
    have ok1: "?lo \<le> lo + word_of_nat (Suc i * ?M)"
      using far [OF le3(2)] far [OF le] le3(1) by (simp only: word_le_nat_alt add_le_cancel_left)
    have ok2: "lo + word_of_nat (Suc i * ?M) \<le> lo + word_of_nat (unat n)"
      using far [OF le] far [OF order_refl] le by (simp only: word_le_nat_alt add_le_cancel_left)
    have ok: "?lo \<le> ?lo + maxBlockRange" "?lo + maxBlockRange \<le> ?lo + maxBlockRange + word_of_nat (unat n - Suc i * ?M)"
      unfolding next_lo end_lo by (fact ok1, fact ok2)
    have "read_shards (Suc k) R book lo n (word_of_nat i) p =
        bindE (R ?lo maxBlockRange) (\<lambda>ls. read_shards k R book lo n (word_of_nat (Suc i)) (fold book ls p))"
      unfolding step using not_last by auto
    also have "\<dots> = bindE (R ?lo maxBlockRange) (\<lambda>ls.
        map_res (\<lambda>ls'. fold book ls' (fold book ls p)) (R (lo + word_of_nat (Suc i * ?M)) (word_of_nat (unat n - Suc i * ?M))))"
      using Suc.IH [of "Suc i"] Suc.prems(1) le by simp
    also have "\<dots> = map_res (\<lambda>ls. fold book ls p) (R ?lo (word_of_nat (unat n - i * ?M)))"
      unfolding rest split [OF ok] next_lo
      by (simp add: map_res_def bindE_def split: sum.splits)
    finally show ?thesis .
  qed
qed

text \<open>
  Reading the profile logs in ranges of a million blocks is reading them all at once: the portions
  are those that the logs of the whole range give, booked in chain order, and the errors are the same.
\<close>

theorem getLog_whole_range:
  assumes "unat lo + unat n < 2 ^ 64"
  shows "getLog t unpack topic addr lo n =
    map_res (\<lambda>ls. fold (portion_log unpack topic) ls no_portions) (getLogFromDB t addr [topic] lo n)"
proof -
  have zero: "getLogFromDB t addr [topic] lo 0 = Inr []" for lo
    by (auto simp: getLogFromDB_def select_logs_def filter_empty_conv collect_Inr)
  have "shards (unat n) \<le> unat n" by (cases "unat n mod 1000000 = 0") (auto simp: shards_def)
  then have "unat (shard_count n) = shards (unat n)"
    using u64_bound [of n] by (simp add: shard_count_shards unat_of_nat take_bit_nat_eq_self)
  then show ?thesis
    using read_shards_whole [where R = "getLogFromDB t addr [topic]" and i = 0 and k = "shards (unat n)" and lo = lo and n = n,
        OF getLogFromDB_split zero assms]
    by (simp add: getLog_def)
qed

definition profile_logs :: "receipt_log list" where
  "profile_logs = [\<lparr>brl_height = 2000000, brl_hash = ''00'', brl_address = ''io1p'', brl_topics = [''0a'', [], [], []],
     brl_data = [1], brl_tx_index = 0, brl_index = 0\<rparr>,
   \<lparr>brl_height = 5, brl_hash = ''00'', brl_address = ''io1p'', brl_topics = [''0a'', [], [], []],
     brl_data = [2], brl_tx_index = 0, brl_index = 0\<rparr>]"

definition profile_unpack :: "byte list \<Rightarrow> profile_event option" where
  "profile_unpack bs = Some \<lparr>pe_delegate = ''io1d'', pe_name = ''blockRewardPortion'', pe_value = bs\<rparr>"

theorem getLog_whole_range_witness:
  "\<exists>p. getLog profile_logs profile_unpack [10] ''io1p'' 0 2500000 = Inr p
    \<and> blockRewardPortions p ''io1d'' = Some (portion_of [1])"
proof -
  have sorted: "select_logs profile_logs ''io1p'' 0 2500000 = rev profile_logs"
    by (simp add: select_logs_def profile_logs_def log_order_def less_eq_prod_def)
  have hex: "hex_decode ''00'' = Some [0]" "hex_decode ''0a'' = Some [10]" by code_simp+
  have row: "log_from_row [[10]] r = Inr [\<lparr>cl_address = ''io1p'', cl_topics = [[10]], cl_log_data = brl_data r,
      cl_height = brl_height r, cl_hash = [0]\<rparr>]" if "r \<in> set profile_logs" for r
    using that by (auto simp: profile_logs_def log_from_row_def decode_topics_def hex wanted_def simp del: hex_decode.simps)
  have "collect (log_from_row [[10]]) rs = Inr (map (\<lambda>r. \<lparr>cl_address = ''io1p'', cl_topics = [[10]], cl_log_data = brl_data r,
      cl_height = brl_height r, cl_hash = [0]\<rparr>) rs)" if "set rs \<subseteq> set profile_logs" for rs
    using that by (induction rs) (simp_all add: row)
  from this [of "rev profile_logs"] obtain ls where "getLogFromDB profile_logs ''io1p'' [[10]] 0 2500000 = Inr ls"
      "map cl_log_data ls = [[2], [1]]" "map cl_topics ls = [[[10]], [[10]]]"
    by (simp add: getLogFromDB_def sorted) (simp add: profile_logs_def)
  moreover obtain l1 l2 where "ls = [l1, l2]" using calculation(2) by auto
  ultimately have "map_res (\<lambda>ls. fold (portion_log profile_unpack [10]) ls no_portions)
      (getLogFromDB profile_logs ''io1p'' [[10]] 0 2500000) =
    Inr (no_portions\<lparr>blockRewardPortions := [''io1d'' \<mapsto> portion_of [1]]\<rparr>)"
    by (simp add: portion_log_def profile_unpack_def set_portion_def no_portions_def)
  then show ?thesis using getLog_whole_range [of 0 2500000 profile_logs profile_unpack "[10]" "''io1p''"] by simp
qed

end
