(* ===== verification/HermesPlugin.thy ===== *)
theory HermesPlugin
  imports HermesSums HermesLogs HermesReward
begin

text \<open>
  plugins/hermes/hermes.go: the rows of the Distribute events of a block, the tables an epoch begins
  with, and PutBlocks, which holds back the rows of ordinary blocks until an epoch begins or the batch
  ends. Also plugins/hermes_retention, which deletes the vote rows of old epochs.
\<close>

subsection \<open>Tables and parameters\<close>

record distribute_row =
  hd_height :: u64
  hd_epoch :: u64
  hd_hash :: hash256
  hd_start :: u64
  hd_end :: u64
  hd_name :: string
  hd_recipients :: u64
  hd_amount :: int

text \<open>A row of hermes_voting_results; the reward rebuild reads its first columns.\<close>

record result_row = voting_row +
  rs_operator :: string
  rs_staking :: string
  rs_self_staking :: int
  rs_block_percentage :: f64
  rs_epoch_percentage :: f64
  rs_bonus_percentage :: f64

text \<open>The first three tables belong to block_meta, block_reward and voter_reward.\<close>

record hermes_db =
  hm_block_meta :: "block_meta_row list"
  hm_block_rewards :: "block_reward_row list"
  hm_config :: "config_row list"
  hm_account :: "account_reward_row list"
  hm_distributes :: "distribute_row list"
  hm_results :: "result_row list"
  hm_aggregates :: "aggregate_row list"
  hm_buckets :: "bucket_vote_row list"
  hm_voting_meta :: "voting_meta_row list"

text \<open>
  Parameters: the tables of candidatelist, probation and block_receipts; the node's pages of buckets at
  a height; the ABI decoders; \<open>he_decimal\<close>, decimal.NewFromString with its error ignored; the faults of the
  transactions, by the height they record, and of the rebuild, by the height of its block.
\<close>

record hermes_env =
  he_epochs :: epochs
  he_votes :: vote_env
  he_lists :: "candidate_list_row list"
  he_unmarshal :: "byte list \<Rightarrow> node_candidate list res"
  he_probations :: "probation_row list"
  he_pages :: nat
  he_node_buckets :: "u64 \<Rightarrow> u32 \<Rightarrow> u32 \<Rightarrow> hermes_bucket list res"
  he_sort :: "(string \<times> int) list \<Rightarrow> u64 \<Rightarrow> string list"
  he_logs :: "receipt_log list"
  he_profile :: "byte list \<Rightarrow> profile_event option"
  he_unpack :: "byte list \<Rightarrow> (int \<times> int \<times> int \<times> int) res" \<comment> \<open>start, end, recipients, amount\<close>
  he_decimal :: "string \<Rightarrow> int"
  he_faults :: "u64 \<Rightarrow> tx_faults"
  he_rebuild_fault :: "u64 \<Rightarrow> bool"

definition topic_of_hex :: "string \<Rightarrow> hash256" where
  "topic_of_hex s = (case hex_decode s of None \<Rightarrow> [] | Some bs \<Rightarrow> bs)"

definition DISTRIBUTE :: hash256 where
  "DISTRIBUTE = topic_of_hex ''7de680eab607fdcc6137464e40d375ad63446cf255dcea9bd4a19676f7f24f56''"

definition topicProfileUpdated :: hash256 where
  "topicProfileUpdated = topic_of_hex ''217aa5ef0b78f028d51fd573433bdbe2daf6f8505e6a71f3af1393c8440b341b''"

definition HermesContractAddress :: string where
  "HermesContractAddress = ''io1fqulsuv8p820wmr0yd39jzx0m3pnpmuzzcywh8''"

definition RewardPortionContract :: string where
  "RewardPortionContract = ''io1lfl4ppn2c3wcft04f0rk0jy9lyn4pcjcm7638u''"

subsection \<open>Distributions\<close>

text \<open>The bytes before the first zero; without one the slice bound is -1.\<close>

definition getDelegateNameFromTopic :: "hash256 \<Rightarrow> byte list res" where
  "getDelegateNameFromTopic t =
     (if 0 \<in> set t then Inr (takeWhile (\<lambda>b. b \<noteq> 0) t) else Inl (Panic ''slice bounds out of range''))"

definition name_string :: "byte list \<Rightarrow> string" where
  "name_string bs = map (\<lambda>b. char_of (unat b)) bs"

definition distribute_log :: "hermes_env \<Rightarrow> block \<Rightarrow> receipt \<Rightarrow> log \<Rightarrow> distribute_row list res" where
  "distribute_log env blk r l =
     (if log_address l = [] \<or> length (log_topics l) < 2 \<or> log_address l \<noteq> HermesContractAddress then Inr []
      else if log_topics l ! 0 \<noteq> DISTRIBUTE then Inr []
      else bindE (he_unpack env (log_data l)) (\<lambda>(start, ende, recipients, amount).
           bindE (getDelegateNameFromTopic (log_topics l ! 1)) (\<lambda>name.
           Inr [\<lparr>hd_height = b_height blk, hd_epoch = GetEpochNum (he_epochs env) (b_height blk),
             hd_hash = r_action_hash r, hd_start = word_of_int start, hd_end = word_of_int ende,
             hd_name = name_string name, hd_recipients = word_of_int recipients, hd_amount = amount\<rparr>])))"

definition buildDistributeBatch :: "hermes_env \<Rightarrow> block \<Rightarrow> distribute_row list res" where
  "buildDistributeBatch env blk =
     collect (\<lambda>r. if r_status r \<noteq> receipt_success then Inr [] else collect (distribute_log env blk r) (r_logs r))
       (b_receipts blk)"

subsection \<open>The start of an epoch\<close>

definition reward_view :: "hermes_db \<Rightarrow> hermes_tables" where
  "reward_view t = \<lparr>ht_block_meta = hm_block_meta t, ht_block_rewards = hm_block_rewards t,
     ht_voting = map voting_row.truncate (hm_results t), ht_config = hm_config t, ht_account = hm_account t\<rparr>"

definition rebuild_rewards :: "hermes_env \<Rightarrow> u64 \<Rightarrow> hermes_db \<Rightarrow> hermes_db res" where
  "rebuild_rewards env e t =
     map_res (\<lambda>v. t\<lparr>hm_account := ht_account v\<rparr>) (RebuildAccountRewardTable (GetEpochHeight (he_epochs env)) e (reward_view t))"

record epoch_context =
  cx_height :: u64
  cx_epoch :: u64
  cx_candidates :: "node_candidate list"
  cx_buckets :: "hermes_bucket list"
  cx_probation :: probation_pb

definition begins_hermes_epoch :: "epochs \<Rightarrow> u64 \<Rightarrow> bool" where
  "begins_hermes_epoch ep h \<longleftrightarrow>
     GetEpochNum ep (FairbankEffectiveHeight ep) < GetEpochNum ep h \<and> epoch_start ep h \<and> FairbankEffectiveHeight ep \<le> h"

definition read_epoch_context :: "hermes_env \<Rightarrow> u64 \<Rightarrow> epoch_context res" where
  "read_epoch_context env h =
     (let e = GetEpochNum (he_epochs env) h; pb = GetProbationListByEpoch e (he_probations env) in
      bindE (GetAllStakingBuckets (he_pages env) (he_node_buckets env (GetEpochHeight (he_epochs env) (e - 1)))) (\<lambda>vs.
      bindE (GetCandidateList (he_unmarshal env) (e - 1) (he_lists env)) (\<lambda>cs.
      bindE (filterStakingCandidates (he_sort env) cs pb h) (\<lambda>cs'.
      Inr \<lparr>cx_height = h, cx_epoch = e, cx_candidates = cs', cx_buckets = vs, cx_probation = pb\<rparr>))))"

text \<open>The rebuild of the epoch before is a transaction of its own; the index height is not in it.\<close>

definition prepareEpochContext :: "hermes_env \<Rightarrow> u64 \<Rightarrow> hermes_db world \<Rightarrow> epoch_context option res \<times> hermes_db world" where
  "prepareEpochContext env h w =
     (if \<not> begins_hermes_epoch (he_epochs env) h then (Inr None, w)
      else case rebuild_rewards env (GetEpochNum (he_epochs env) h - 1) (tables w) of
             Inl e \<Rightarrow> (Inl e, w)
           | Inr t \<Rightarrow>
               if he_rebuild_fault env h then (Inl DbError, w)
               else (map_res Some (read_epoch_context env h), w\<lparr>tables := t\<rparr>))"

definition portion_at :: "(string \<rightharpoonup> f64) \<Rightarrow> string \<Rightarrow> f64" where
  "portion_at m a = (case m a of None \<Rightarrow> F64 0 0 | Some f \<Rightarrow> f)"

definition updateStakingResult :: "hermes_env \<Rightarrow> node_candidate list \<Rightarrow> u64 \<Rightarrow> u64 \<Rightarrow> result_row list \<Rightarrow> result_row list res" where
  "updateStakingResult env cs e h rows =
     bindE (getAllStakingDelegateRewardPortions (he_logs env) (he_profile env) topicProfileUpdated RewardPortionContract h) (\<lambda>p.
       Inr (rows @ map (\<lambda>c. \<lparr>hv_epoch = e, hv_name = nc_name c, hv_reward_address = nc_reward c,
         hv_votes = he_decimal env (nc_total_votes c), rs_operator = nc_operator c, rs_staking = nc_id c,
         rs_self_staking = he_decimal env (nc_self_tokens c),
         rs_block_percentage = portion_at (blockRewardPortions p) (nc_owner c),
         rs_epoch_percentage = portion_at (epochRewardPortions p) (nc_owner c),
         rs_bonus_percentage = portion_at (foundationPortions p) (nc_owner c)\<rparr>) cs))"

text \<open>Each of the three vote tables is filled only if it has no row of the epoch yet.\<close>

definition store_results :: "hermes_env \<Rightarrow> epoch_context \<Rightarrow> hermes_db \<Rightarrow> hermes_db res" where
  "store_results env cx t =
     (if \<exists>r \<in> set (hm_results t). hv_epoch r = cx_epoch cx then Inr t
      else map_res (\<lambda>rows. t\<lparr>hm_results := rows\<rparr>)
             (updateStakingResult env (cx_candidates cx) (cx_epoch cx) (cx_height cx) (hm_results t)))"

definition store_aggregates :: "hermes_env \<Rightarrow> epoch_context \<Rightarrow> hermes_db \<Rightarrow> hermes_db res" where
  "store_aggregates env cx t =
     (if \<exists>r \<in> set (hm_aggregates t). ag_epoch r = cx_epoch cx then Inr t
      else map_res (\<lambda>(metas, rows). t\<lparr>hm_voting_meta := metas, hm_aggregates := rows\<rparr>)
             (updateAggregateStaking (he_votes env) (cx_height cx) (cx_buckets cx) (cx_candidates cx) (cx_epoch cx)
                (cx_probation cx) (hm_voting_meta t, hm_aggregates t)))"

definition store_buckets :: "hermes_env \<Rightarrow> epoch_context \<Rightarrow> hermes_db \<Rightarrow> hermes_db res" where
  "store_buckets env cx t =
     (if \<exists>r \<in> set (hm_buckets t). bv_epoch r = cx_epoch cx then Inr t
      else map_res (\<lambda>rows. t\<lparr>hm_buckets := rows\<rparr>)
             (updateBucketStaking (he_votes env) (cx_height cx) (cx_buckets cx) (cx_candidates cx) (cx_epoch cx)
                (cx_probation cx) (hm_buckets t)))"

definition store_distributes :: "distribute_row list \<Rightarrow> hermes_db \<Rightarrow> hermes_db" where
  "store_distributes batches t = t\<lparr>hm_distributes := hm_distributes t @ batches\<rparr>"

definition commitDistributeBatch :: "hermes_env \<Rightarrow> u64 \<Rightarrow> distribute_row list \<Rightarrow> hermes_db world \<Rightarrow> unit res \<times> hermes_db world" where
  "commitDistributeBatch env tip batches =
     index_tx (he_faults env tip) ''hermes'' (Inr tip) (\<lambda>t. Inr (store_distributes batches t))"

definition commitEpochBlock :: "hermes_env \<Rightarrow> epoch_context \<Rightarrow> distribute_row list \<Rightarrow> hermes_db world \<Rightarrow> unit res \<times> hermes_db world" where
  "commitEpochBlock env cx batches =
     index_tx (he_faults env (cx_height cx)) ''hermes'' (Inr (cx_height cx)) (\<lambda>t.
       bindE (store_results env cx (store_distributes batches t)) (\<lambda>t.
       bindE (store_aggregates env cx t) (store_buckets env cx)))"

subsection \<open>PutBlocks\<close>

text \<open>What is held back: the rows and the height of the last block they belong to, 0 if there is none.\<close>

type_synonym pending = "distribute_row list \<times> u64"

definition flush_pending :: "hermes_env \<Rightarrow> pending \<times> hermes_db world \<Rightarrow> unit res \<times> pending \<times> hermes_db world" where
  "flush_pending env s =
     (case s of ((rows, h), w) \<Rightarrow>
        if h = 0 then (Inr (), (rows, h), w)
        else (case commitDistributeBatch env h rows w of (r, w') \<Rightarrow> (r, ([], 0), w')))"

definition hermes_step :: "hermes_env \<Rightarrow> block \<Rightarrow> pending \<times> hermes_db world \<Rightarrow> unit res \<times> pending \<times> hermes_db world" where
  "hermes_step env blk =
     bindS (decodedS (buildDistributeBatch env blk)) (\<lambda>batches.
     bindS (\<lambda>(p, w). case prepareEpochContext env (b_height blk) w of (r, w') \<Rightarrow> (r, p, w')) (\<lambda>cx.
       case cx of
         None \<Rightarrow> updS (\<lambda>((rows, h), w). ((rows @ batches, b_height blk), w))
       | Some cx \<Rightarrow> bindS (flush_pending env) (\<lambda>_ (p, w).
           case commitEpochBlock env cx batches w of (r, w') \<Rightarrow> (r, p, w'))))"

definition hermes_PutBlocks :: "hermes_env \<Rightarrow> block list \<Rightarrow> hermes_db world \<Rightarrow> unit res \<times> hermes_db world" where
  "hermes_PutBlocks env blks w =
     (if blks = [] then (Inr (), w)
      else case bindS (eachS (hermes_step env) blks) (\<lambda>_. flush_pending env) (([], 0), w) of
             (r, p, w') \<Rightarrow> (r, w'))"

definition hermes_PutBlock :: "hermes_env \<Rightarrow> block \<Rightarrow> hermes_db world \<Rightarrow> unit res \<times> hermes_db world" where
  "hermes_PutBlock env blk = hermes_PutBlocks env [blk]"

subsection \<open>Retention\<close>

definition computeCutoff :: "u64 \<Rightarrow> u64 \<Rightarrow> u64 option" where
  "computeCutoff tip keep = (if tip < keep then None else Some (tip - keep + 1))"

text \<open>\<open>COALESCE(MAX(epoch_number), 0)\<close>.\<close>

definition tip_epoch :: "hermes_db \<Rightarrow> u64" where
  "tip_epoch t = fold max (map vm_epoch (hm_voting_meta t)) 0"

definition retention_epochs :: "u64 option \<Rightarrow> u64" where
  "retention_epochs cfg = (case cfg of None \<Rightarrow> 2185 | Some n \<Rightarrow> if 0 < n then n else 2185)"

definition purge_tables :: "u64 \<Rightarrow> hermes_db \<Rightarrow> hermes_db" where
  "purge_tables cutoff t =
     t\<lparr>hm_buckets := filter (\<lambda>r. \<not> bv_epoch r < cutoff) (hm_buckets t),
       hm_aggregates := filter (\<lambda>r. \<not> ag_epoch r < cutoff) (hm_aggregates t)\<rparr>"

text \<open>\<open>exists\<close> tells whether the table is there, \<open>ok\<close> whether the database takes the transaction.\<close>

definition purge :: "bool \<Rightarrow> bool \<Rightarrow> u64 \<Rightarrow> hermes_db \<Rightarrow> unit res \<times> hermes_db" where
  "purge meta_exists ok keep t =
     (if \<not> meta_exists then (Inr (), t)
      else case computeCutoff (tip_epoch t) keep of
             None \<Rightarrow> (Inr (), t)
           | Some cutoff \<Rightarrow> if ok then (Inr (), purge_tables cutoff t) else (Inl DbError, t))"

end
