(* ===== verification/HermesProps.thy ===== *)
theory HermesProps
  imports HermesPlugin
begin

text \<open>
  Properties of the hermes plugin: batches against single blocks, what an epoch leaves when it is put
  again, and the window that the retention worker keeps.
\<close>

subsection \<open>Batches\<close>

definition undisturbed :: "hermes_env \<Rightarrow> bool" where
  "undisturbed env \<longleftrightarrow> (\<forall>h. he_faults env h = no_faults)"

text \<open>The world once what is held back has been written.\<close>

definition flushed :: "pending \<Rightarrow> hermes_db world \<Rightarrow> hermes_db world" where
  "flushed p w = (if snd p = 0 then w else snd (index_tx no_faults ''hermes'' (Inr (snd p)) (\<lambda>t. Inr (store_distributes (fst p) t)) w))"

definition pending_ok :: "pending \<Rightarrow> bool" where
  "pending_ok p \<longleftrightarrow> (snd p = 0 \<longrightarrow> fst p = [])"

lemma flush_flushed:
  assumes "undisturbed env"
  shows "\<exists>p'. flush_pending env (p, w) = (Inr (), p', flushed p w) \<and> (pending_ok p \<longrightarrow> p' = ([], 0))"
  using assms by (cases p)
    (auto simp: flush_pending_def flushed_def commitDistributeBatch_def undisturbed_def index_tx_no_faults pending_ok_def)

lemma rebuild_store:
  "rebuild_rewards env e (store_distributes rows t) = map_res (store_distributes rows) (rebuild_rewards env e t)"
  by (cases "RebuildAccountRewardTable (GetEpochHeight (he_epochs env)) e (reward_view t)")
    (simp_all add: rebuild_rewards_def store_distributes_def reward_view_def)

lemma rebuild_keeps_distributes: "rebuild_rewards env e t = Inr t' \<Longrightarrow> hm_distributes t' = hm_distributes t"
  by (auto simp: rebuild_rewards_def map_res_eq)

text \<open>The rebuild does not read the rows that are held back.\<close>

lemma prepare_flushed:
  assumes "prepareEpochContext env h w = (r, w')"
  shows "prepareEpochContext env h (flushed p w) = (r, flushed p w')"
proof (cases "snd p = 0 \<or> \<not> begins_hermes_epoch (he_epochs env) h")
  case True
  with assms show ?thesis by (auto simp: flushed_def prepareEpochContext_def)
next
  case False
  then have fl: "flushed p v = snd (index_tx no_faults ''hermes'' (Inr (snd p)) (\<lambda>t. Inr (store_distributes (fst p) t)) v)" for v
    by (simp add: flushed_def)
  show ?thesis
  proof (cases "rebuild_rewards env (GetEpochNum (he_epochs env) h - 1) (tables w)")
    case (Inl e)
    with False assms show ?thesis by (auto simp: prepareEpochContext_def fl index_tx_no_faults rebuild_store)
  next
    case (Inr t)
    with False assms show ?thesis
      by (auto simp: prepareEpochContext_def fl index_tx_no_faults rebuild_store update_height_row_def)
  qed
qed

lemma single_step:
  assumes "undisturbed env"
  shows "hermes_PutBlock env b w = (case hermes_step env b (([], 0), w) of
    (Inl e, p, w') \<Rightarrow> (Inl e, w') | (Inr u, p, w') \<Rightarrow> (Inr (), flushed p w'))"
proof -
  obtain r p w' where s: "hermes_step env b (([], 0), w) = (r, p, w')" by (metis prod_cases3)
  show ?thesis
  proof (cases r)
    case (Inl e)
    with s show ?thesis by (simp add: hermes_PutBlock_def hermes_PutBlocks_def bindS_def)
  next
    case (Inr u)
    from flush_flushed [OF assms, of p w'] s Inr show ?thesis
      by (auto simp: hermes_PutBlock_def hermes_PutBlocks_def bindS_def)
  qed
qed

lemma step_flushed:
  assumes "undisturbed env" and "hermes_step env b (p, w) = (Inr (), p', w')" and "pending_ok p" and "b_height b \<noteq> 0"
  shows "hermes_PutBlock env b (flushed p w) = (Inr (), flushed p' w') \<and> pending_ok p'"
proof -
  from assms(2) obtain batches cx w1 where batches: "buildDistributeBatch env b = Inr batches"
    and prep: "prepareEpochContext env (b_height b) w = (Inr cx, w1)"
    by (auto simp: hermes_step_def bindS_def decodedS_def split: sum.splits prod.splits)
  have prep': "prepareEpochContext env (b_height b) (flushed p w) = (Inr cx, flushed p w1)"
    by (rule prepare_flushed) (rule prep)
  show ?thesis
  proof (cases cx)
    case None
    with assms(2) batches prep have p': "p' = (fst p @ batches, b_height b)" "w' = w1"
      by (auto simp: hermes_step_def updS_def bindS_def decodedS_def split: prod.splits)
    have "hermes_step env b (([], 0), flushed p w) = (Inr (), (batches, b_height b), flushed p w1)"
      using batches prep' None by (simp add: hermes_step_def updS_def bindS_def decodedS_def)
    moreover have "flushed (batches, b_height b) (flushed p w1) = flushed p' w'"
      using assms(3,4) unfolding p' by (cases p)
        (auto simp: flushed_def pending_ok_def index_tx_no_faults store_distributes_def update_height_row_def)
    ultimately show ?thesis using single_step [OF assms(1)] assms(4) by (simp add: p' pending_ok_def)
  next
    case (Some c)
    obtain q where q: "flush_pending env (p, w1) = (Inr (), q, flushed p w1)" "q = ([], 0)"
      using flush_flushed [OF assms(1), of p w1] assms(3) by blast
    from assms(2) batches prep Some q have p'_eq: "p' = ([], 0)"
      and commit: "commitEpochBlock env c batches (flushed p w1) = (Inr (), w')"
      by (auto simp: hermes_step_def bindS_def decodedS_def split: prod.splits)
    have q': "flush_pending env (([], 0), flushed p w1) = (Inr (), ([], 0), flushed p w1)"
      by (simp add: flush_pending_def)
    have "hermes_step env b (([], 0), flushed p w) = (Inr (), ([], 0), w')"
      using batches prep' Some q' commit by (simp add: hermes_step_def bindS_def decodedS_def)
    then show ?thesis using single_step [OF assms(1)] by (simp add: p'_eq flushed_def pending_ok_def)
  qed
qed

lemma steps_flushed:
  assumes "undisturbed env"
  shows "eachS (hermes_step env) blks (p, w) = (Inr (), p', w') \<Longrightarrow> pending_ok p \<Longrightarrow> \<forall>b \<in> set blks. b_height b \<noteq> 0 \<Longrightarrow>
    eachS (hermes_PutBlock env) blks (flushed p w) = (Inr (), flushed p' w') \<and> pending_ok p'"
proof (induction blks arbitrary: p w)
  case Nil
  then show ?case by simp
next
  case (Cons b blks)
  from Cons.prems(1) obtain p1 w1 where b: "hermes_step env b (p, w) = (Inr (), p1, w1)"
      and bs: "eachS (hermes_step env) blks (p1, w1) = (Inr (), p', w')" by (auto simp: bindS_eq_Inr)
  from step_flushed [OF assms b Cons.prems(2)] Cons.prems(3) Cons.IH [OF bs] show ?case by (auto simp: bindS_def)
qed

text \<open>
  C33: A batch of hermes is its blocks one at a time. When no transaction is refused, a batch that goes
  through leaves the database, the index height and its cache exactly as putting the blocks one by one
  does, although it holds back the rows of ordinary blocks until an epoch begins.
\<close>

theorem hermes_batch_is_sequential:
  assumes "undisturbed env" and "hermes_PutBlocks env blks w = (Inr (), w')" and "\<forall>b \<in> set blks. b_height b \<noteq> 0"
  shows "eachS (hermes_PutBlock env) blks w = (Inr (), w')"
proof (cases "blks = []")
  case True
  with assms(2) show ?thesis by (simp add: hermes_PutBlocks_def)
next
  case False
  with assms(2) obtain p w1 p2 where 1: "eachS (hermes_step env) blks (([], 0), w) = (Inr (), p, w1)"
      and 2: "flush_pending env (p, w1) = (Inr (), p2, w')"
    by (auto simp: hermes_PutBlocks_def bindS_def split: prod.splits sum.splits)
  have start: "flushed ([], 0) w = w" by (simp add: flushed_def)
  from steps_flushed [OF assms(1) 1] assms(3)
  have "eachS (hermes_PutBlock env) blks w = (Inr (), flushed p w1)" by (simp add: start pending_ok_def)
  moreover have "flushed p w1 = w'" using flush_flushed [OF assms(1), of p w1] 2 by auto
  ultimately show ?thesis by simp
qed

text \<open>A quiet chain: no buckets, no candidates, an epoch every ten blocks.\<close>

definition quiet_hermes :: hermes_env where
  "quiet_hermes = \<lparr>he_epochs = ten_epochs, he_votes = small_votes,
     he_lists = [\<lparr>cl_epoch = 520000, cl_data = []\<rparr>], he_unmarshal = (\<lambda>_. Inr []), he_probations = [],
     he_pages = 1, he_node_buckets = (\<lambda>h off lim. Inr []), he_sort = sort_by_key, he_logs = [],
     he_profile = (\<lambda>_. None), he_unpack = (\<lambda>_. Inr (1, 2, 3, 4)), he_decimal = (\<lambda>_. 0),
     he_faults = (\<lambda>_. no_faults), he_rebuild_fault = (\<lambda>_. False)\<rparr>"

definition empty_hermes :: hermes_db where
  "empty_hermes = \<lparr>hm_block_meta = [], hm_block_rewards = [], hm_config = [], hm_account = [], hm_distributes = [],
     hm_results = [], hm_aggregates = [], hm_buckets = [], hm_voting_meta = []\<rparr>"

lemma quiet_portions:
  "getAllStakingDelegateRewardPortions [] unpack topic addr 5200000 = Inr no_portions"
proof -
  have none: "getLogFromDB [] addr filt lo n = Inr []" for addr filt lo n
    by (simp add: getLogFromDB_def select_logs_def)
  have count: "shard_count 104775 = 1" by (simp add: shard_count_def maxBlockRange_def)
  show ?thesis
    by (simp add: getAllStakingDelegateRewardPortions_def RewardportionContractDeployHeight_def getLog_def count none Let_def)
qed

lemma quiet_context:
  "read_epoch_context quiet_hermes 5200000 =
    Inr \<lparr>cx_height = 5200000, cx_epoch = 520001, cx_candidates = [], cx_buckets = [], cx_probation = \<lparr>pp_intensity = 0, pp_list = []\<rparr>\<rparr>"
  by (simp add: read_epoch_context_def quiet_hermes_def ten_epochs_def GetProbationListByEpoch_def GetAllStakingBuckets_def
      hermes_readBucketsLimit_def GetCandidateList_def filterStakingCandidates_def sort_by_key_def List.map_filter_simps Let_def
      fetch_pages.simps(2) [of 0, simplified])

lemma quiet_rebuild: "rebuild_rewards quiet_hermes e empty_hermes = Inr empty_hermes"
  by (simp add: rebuild_rewards_def RebuildAccountRewardTable_def CheckEpochCoverage_def reward_view_def empty_hermes_def Let_def)

lemma quiet_step:
  "hermes_step quiet_hermes (epoch_block 5200000) (([], 0), fresh_tables empty_hermes) =
    (Inr (), ([], 0), fresh_tables (empty_hermes\<lparr>hm_voting_meta :=
      [\<lparr>vm_epoch = 520001, vm_voted = 0, vm_total_weighted = 0, vm_delegates = 0\<rparr>]\<rparr>)\<lparr>index_cache := [''hermes'' \<mapsto> 5200000]\<rparr>)"
proof -
  have batches: "buildDistributeBatch quiet_hermes (epoch_block h) = Inr []" for h
    by (simp add: buildDistributeBatch_def epoch_block_def)
  have begins: "begins_hermes_epoch (he_epochs quiet_hermes) 5200000" "GetEpochNum (he_epochs quiet_hermes) 5200000 - 1 = 520000"
      "he_rebuild_fault quiet_hermes h = False" "he_faults quiet_hermes h = no_faults" "he_votes quiet_hermes = small_votes"
      "he_logs quiet_hermes = []" for h
    by (simp_all add: quiet_hermes_def begins_hermes_epoch_def epoch_start_def ten_epochs_def FairbankEffectiveHeight_def)
  have h: "b_height (epoch_block h) = h" for h by (simp add: epoch_block_def)
  have sums: "sum_votes small_votes h e [] [] = Inr ([], 0)" for h e
    by (simp add: sum_votes_def native_votes_def lsd_votes_def active_votes_def)
  have order: "vk_order small_votes [] = []" by (simp add: small_votes_def)
  have agg: "updateAggregateStaking small_votes h [] [] e pb ([], []) =
      Inr ([\<lparr>vm_epoch = e, vm_voted = 0, vm_total_weighted = 0, vm_delegates = 0\<rparr>], [])" for h e pb
    by (simp add: updateAggregateStaking_def sums total_weighted_def aggregate_rows_def order)
  have bkt: "updateBucketStaking small_votes h [] [] e pb [] = Inr []" for h e pb
    by (simp add: updateBucketStaking_def native_votes_def lsd_votes_def active_votes_def Let_def)
  have store: "store_results quiet_hermes \<lparr>cx_height = 5200000, cx_epoch = 520001, cx_candidates = [], cx_buckets = [],
      cx_probation = pb\<rparr> empty_hermes = Inr empty_hermes" for pb
    by (simp add: store_results_def empty_hermes_def updateStakingResult_def begins quiet_portions)
  have dist: "store_distributes [] empty_hermes = empty_hermes" by (simp add: store_distributes_def)
  let ?cx = "\<lparr>cx_height = 5200000, cx_epoch = 520001, cx_candidates = [], cx_buckets = [],
    cx_probation = \<lparr>pp_intensity = 0, pp_list = []\<rparr>\<rparr>"
  let ?t = "empty_hermes\<lparr>hm_voting_meta := [\<lparr>vm_epoch = 520001, vm_voted = 0, vm_total_weighted = 0, vm_delegates = 0\<rparr>]\<rparr>"
  have aggs: "store_aggregates quiet_hermes ?cx empty_hermes = Inr ?t"
    by (simp add: store_aggregates_def agg begins empty_hermes_def)
  have bkts: "store_buckets quiet_hermes ?cx ?t = Inr ?t" by (simp add: store_buckets_def bkt begins empty_hermes_def)
  have "commitEpochBlock quiet_hermes ?cx [] (fresh_tables empty_hermes) =
      (Inr (), (fresh_tables ?t)\<lparr>index_cache := [''hermes'' \<mapsto> 5200000]\<rparr>)"
    by (simp add: commitEpochBlock_def begins index_tx_no_faults dist store aggs bkts update_height_row_def fresh_tables_def)
  moreover have "prepareEpochContext quiet_hermes 5200000 (fresh_tables empty_hermes) = (Inr (Some ?cx), fresh_tables empty_hermes)"
    by (simp add: prepareEpochContext_def begins quiet_rebuild quiet_context fresh_tables_def)
  ultimately show ?thesis
    by (simp add: hermes_step_def batches h flush_pending_def bindS_def decodedS_def)
qed

theorem hermes_batch_is_sequential_witness:
  "\<exists>w'. hermes_PutBlocks quiet_hermes [epoch_block 5200000] (fresh_tables empty_hermes) = (Inr (), w')
    \<and> map vm_epoch (hm_voting_meta (tables w')) = [520001]
    \<and> eachS (hermes_PutBlock quiet_hermes) [epoch_block 5200000] (fresh_tables empty_hermes) = (Inr (), w')"
proof -
  obtain w' where run: "hermes_PutBlocks quiet_hermes [epoch_block 5200000] (fresh_tables empty_hermes) = (Inr (), w')"
    and metas: "map vm_epoch (hm_voting_meta (tables w')) = [520001]"
    by (simp add: hermes_PutBlocks_def bindS_def quiet_step flush_pending_def) (simp add: fresh_tables_def)
  have "undisturbed quiet_hermes" by (simp add: undisturbed_def quiet_hermes_def)
  from hermes_batch_is_sequential [OF this run] run metas show ?thesis by (auto simp: epoch_block_def)
qed

subsection \<open>Names\<close>

text \<open>
  A delegate name that fills its 32 bytes stops the plugin. The name is cut at the first zero byte
  and the code expects one: a Distribute event of a delegate without panics, and with it every batch
  that holds the block.
\<close>

theorem full_name_panics:
  assumes "blk \<in> set blks" and "r \<in> set (b_receipts blk)" and "r_status r = receipt_success" and "l \<in> set (r_logs r)"
    and "log_address l = HermesContractAddress" and "2 \<le> length (log_topics l)" and "log_topics l ! 0 = DISTRIBUTE"
    and "0 \<notin> set (log_topics l ! 1)"
  shows "fst (hermes_PutBlocks env blks w) \<noteq> Inr ()"
proof -
  have "distribute_log env blk r l \<noteq> Inr rows" for rows
    using assms(5-8) by (auto simp: distribute_log_def getDelegateNameFromTopic_def HermesContractAddress_def bindE_eq_Inr)
  then have logs: "collect (distribute_log env blk r) (r_logs r) \<noteq> Inr rows" for rows
    using assms(4) unfolding collect_Inr by blast
  have build: "buildDistributeBatch env blk \<noteq> Inr rows" for rows
  proof
    assume "buildDistributeBatch env blk = Inr rows"
    with assms(2,3) have "\<exists>rows. collect (distribute_log env blk r) (r_logs r) = Inr rows"
      unfolding buildDistributeBatch_def by (subst (asm) collect_Inr) fastforce
    with logs show False by blast
  qed
  have step: "hermes_step env blk s \<noteq> (Inr (), s')" for s s'
    using build by (cases "buildDistributeBatch env blk") (auto simp: hermes_step_def bindS_def decodedS_def)
  have "eachS (hermes_step env) bs s \<noteq> (Inr (), s')" if "blk \<in> set bs" for bs s s'
    using that
  proof (induction bs arbitrary: s)
    case Nil
    then show ?case by simp
  next
    case (Cons b bs)
    show ?case
    proof
      assume "eachS (hermes_step env) (b # bs) s = (Inr (), s')"
      then obtain s1 where "hermes_step env b s = (Inr (), s1)" and "eachS (hermes_step env) bs s1 = (Inr (), s')"
        by (auto simp: bindS_eq_Inr)
      with Cons step show False by (metis set_ConsD)
    qed
  qed
  then have "eachS (hermes_step env) blks (([], 0), w) \<noteq> (Inr (), s')" for s' using assms(1) by blast
  moreover have "blks \<noteq> []" using assms(1) by auto
  ultimately show ?thesis
    by (cases "eachS (hermes_step env) blks (([], 0), w)"; cases "fst (eachS (hermes_step env) blks (([], 0), w))")
      (auto simp: hermes_PutBlocks_def bindS_def split: prod.splits)
qed

definition full_name_block :: block where
  "full_name_block = \<lparr>b_height = 5200001, b_timestamp = 0, b_actions = [], b_receipts = [\<lparr>r_status = 1, r_action_hash = [9],
     r_gas_consumed = 0, r_tx_index = 0, r_logs = [\<lparr>log_address = HermesContractAddress,
       log_topics = [DISTRIBUTE, replicate 32 65], log_data = []\<rparr>], r_tx_logs = []\<rparr>]\<rparr>"

theorem full_name_panics_witness:
  "fst (hermes_PutBlocks quiet_hermes [full_name_block] (fresh_tables empty_hermes)) \<noteq> Inr ()"
  by (rule full_name_panics [of full_name_block _ "hd (b_receipts full_name_block)"
        "hd (r_logs (hd (b_receipts full_name_block)))"])
    (simp_all add: full_name_block_def receipt_success_def)

subsection \<open>Retention\<close>

text \<open>
  The retention worker keeps a window of epochs. After a purge that goes through, the vote tables
  hold exactly the rows of the newest epochs, as many as are to be kept, counted from the newest epoch
  of the voting meta table; nothing wraps around, also while there are fewer epochs than that.
\<close>

theorem purge_keeps_window:
  assumes "purge True True keep t = (Inr (), t')" and "0 < keep"
  shows "hm_aggregates t' = filter (\<lambda>r. unat (tip_epoch t) < unat (ag_epoch r) + unat keep) (hm_aggregates t) \<and>
    hm_buckets t' = filter (\<lambda>r. unat (tip_epoch t) < unat (bv_epoch r) + unat keep) (hm_buckets t)"
proof (cases "tip_epoch t < keep")
  case True
  then have "t' = t" using assms(1) by (simp add: purge_def computeCutoff_def)
  moreover have "unat (tip_epoch t) < unat e + unat keep" for e :: u64
    using True by (simp add: word_less_nat_alt)
  ultimately show ?thesis by simp
next
  case False
  then have le: "unat keep \<le> unat (tip_epoch t)" by (simp add: word_less_nat_alt)
  have pos: "0 < unat keep" using assms(2) by (simp add: word_less_nat_alt)
  have "unat (tip_epoch t - keep + 1) = unat (tip_epoch t) - unat keep + 1"
  proof -
    have sub: "unat (tip_epoch t - keep) = unat (tip_epoch t) - unat keep" using False by (simp add: unat_sub)
    have "unat (tip_epoch t - keep) + 1 < 2 ^ 64" using sub pos le u64_bound [of "tip_epoch t"] by linarith
    then show ?thesis using sub by (simp add: unat_plus_if')
  qed
  then have "\<not> e < tip_epoch t - keep + 1 \<longleftrightarrow> unat (tip_epoch t) < unat e + unat keep" for e
    using le pos by (simp add: word_less_nat_alt del: unat_1) linarith
  moreover have "t' = purge_tables (tip_epoch t - keep + 1) t"
    using assms(1) False by (simp add: purge_def computeCutoff_def)
  ultimately show ?thesis by (simp add: purge_tables_def)
qed

definition aged_hermes :: hermes_db where
  "aged_hermes = empty_hermes\<lparr>hm_voting_meta := map (\<lambda>e. \<lparr>vm_epoch = e, vm_voted = 0, vm_total_weighted = 0, vm_delegates = 0\<rparr>) [7, 8, 9],
     hm_buckets := []\<rparr>"

theorem purge_keeps_window_witness:
  "\<exists>t'. purge True True 2 aged_hermes = (Inr (), t') \<and> hm_buckets t' = []"
proof -
  obtain t' where run: "purge True True 2 aged_hermes = (Inr (), t')"
    by (simp add: purge_def computeCutoff_def tip_epoch_def aged_hermes_def)
  from purge_keeps_window [OF this] run show ?thesis by (auto simp: aged_hermes_def empty_hermes_def)
qed

end
