(* ===== verification/DataUri.thy ===== *)
theory DataUri
  imports Chain "HOL-Library.Sublist"
begin

text \<open>
  plugins/inscription/data_uri.go: the regular expression that takes a data URI apart, with Go's
  choice among several matches, and ParseDataURI.
\<close>

subsection \<open>Regular expressions\<close>

text \<open>
  The constructs the expression uses. Go takes the leftmost match and, among those, the one a
  backtracking search finds first: \<open>matches r s g\<close> lists what is left of \<open>s\<close>, with the groups, in
  that order. Without the (?s) flag the dot stands for every character but the newline.
\<close>

datatype regex =
    Lit string
  | Dots \<comment> \<open>the dot once or more, as few as possible\<close>
  | AllDots \<comment> \<open>the dot any number of times, as many as possible\<close>
  | Seq regex regex
  | Maybe regex
  | Many regex
  | Group string regex

type_synonym groups = "string \<rightharpoonup> string"

fun dots :: "string \<Rightarrow> string list" where
  "dots [] = []"
| "dots (c # cs) = (if c = CHR 0x0A then [] else cs # dots cs)"

definition strip_prefix :: "string \<Rightarrow> string \<Rightarrow> string list" where
  "strip_prefix p s = (if take (length p) s = p then [drop (length p) s] else [])"

function (sequential) matches :: "regex \<Rightarrow> string \<Rightarrow> groups \<Rightarrow> (string \<times> groups) list" where
  "matches (Lit p) s g = map (\<lambda>s'. (s', g)) (strip_prefix p s)"
| "matches Dots s g = map (\<lambda>s'. (s', g)) (dots s)"
| "matches AllDots s g = map (\<lambda>s'. (s', g)) (rev (dots s) @ [s])"
| "matches (Seq r q) s g = concat (map (\<lambda>(s', g'). matches q s' g') (matches r s g))"
| "matches (Maybe r) s g = matches r s g @ [(s, g)]"
| "matches (Many r) s g =
     concat (map (\<lambda>(s', g'). if length s' < length s then matches (Many r) s' g' else []) (matches r s g)) @ [(s, g)]"
| "matches (Group n r) s g = map (\<lambda>(s', g'). (s', g'(n \<mapsto> take (length s - length s') s))) (matches r s g)"
  by pat_completeness auto
termination
  by (relation "measures [\<lambda>(r, s, g). size r, \<lambda>(r, s, g). length s]") auto

text \<open>\<open>FindStringSubmatch\<close>: the groups of the first match at the leftmost position that has one.\<close>

fun find_submatch :: "regex \<Rightarrow> string \<Rightarrow> groups option" where
  "find_submatch r s =
     (case matches r s Map.empty of
        (s', g) # _ \<Rightarrow> Some g
      | [] \<Rightarrow> (case s of [] \<Rightarrow> None | c # cs \<Rightarrow> find_submatch r cs))"

declare matches.simps(6) [simp del] find_submatch.simps [simp del]

subsection \<open>Data URIs\<close>

definition mime_regex :: regex where
  "mime_regex = Group ''mimetype'' (Seq Dots (Seq (Lit ''/'') Dots))"

definition parameter_regex :: regex where
  "parameter_regex = Seq (Lit '';'') (Seq Dots (Seq (Lit ''='') Dots))"

definition media_regex :: regex where
  "media_regex = Group ''mediatype'' (Seq (Maybe mime_regex) (Maybe (Group ''parameters'' (Many parameter_regex))))"

definition payload_regex :: regex where
  "payload_regex = Seq (Maybe (Group ''extension'' (Lit '';base64''))) (Seq (Lit '','') (Group ''data'' AllDots))"

definition dataURIRegexp :: regex where
  "dataURIRegexp = Seq (Lit ''data:'') (Seq media_regex payload_regex)"

record data_uri =
  du_mime :: string
  du_parameters :: string
  du_extension :: string
  du_data :: string

definition submatch :: "groups \<Rightarrow> string \<Rightarrow> string" where
  "submatch g n = (case g n of None \<Rightarrow> [] | Some s \<Rightarrow> s)"

definition uri_of_groups :: "groups \<Rightarrow> data_uri" where
  "uri_of_groups g = \<lparr>du_mime = submatch g ''mimetype'', du_parameters = submatch g ''parameters'',
     du_extension = submatch g ''extension'', du_data = submatch g ''data''\<rparr>"

definition ParseDataURI :: "string \<Rightarrow> data_uri res" where
  "ParseDataURI uri =
     (case find_submatch dataURIRegexp uri of
        None \<Rightarrow> Inl (Err ''invalid data uri'')
      | Some g \<Rightarrow> Inr (uri_of_groups g))"

subsection \<open>First matches\<close>

definition headed :: "'a list \<Rightarrow> 'a \<Rightarrow> bool" where
  "headed xs x \<longleftrightarrow> (\<exists>ys. xs = x # ys)"

text \<open>\<open>first_good P xs x\<close>: the first element of \<open>xs\<close> that is not refused by \<open>P\<close> is \<open>x\<close>.\<close>

definition first_good :: "('a \<Rightarrow> bool) \<Rightarrow> 'a list \<Rightarrow> 'a \<Rightarrow> bool" where
  "first_good P xs x \<longleftrightarrow> (\<exists>bad ys. xs = bad @ x # ys \<and> (\<forall>b \<in> set bad. \<not> P b))"

lemma first_good_single: "first_good P [x] x"
  unfolding first_good_def by (rule exI [of _ "[]"]) auto

lemma first_good_Cons: "first_good P (x # xs) x"
  unfolding first_good_def by (rule exI [of _ "[]"]) auto

lemma first_good_append: "first_good P xs x \<Longrightarrow> first_good P (xs @ ys) x"
  unfolding first_good_def by (metis append.assoc append_Cons)

lemma first_good_skip:
  assumes "\<forall>b \<in> set bad. \<not> P b" and "first_good P xs x"
  shows "first_good P (bad @ xs) x"
proof -
  from assms(2) obtain bad' ys where "xs = bad' @ x # ys" "\<forall>b \<in> set bad'. \<not> P b" by (auto simp: first_good_def)
  with assms(1) show ?thesis unfolding first_good_def by (intro exI [of _ "bad @ bad'"] exI [of _ ys]) auto
qed

lemma first_good_concat:
  assumes "first_good P xs x" and "first_good Q (k x) y" and "\<And>b. b \<in> set xs \<Longrightarrow> \<not> P b \<Longrightarrow> \<forall>c \<in> set (k b). \<not> Q c"
  shows "first_good Q (concat (map k xs)) y"
proof -
  from assms(1) obtain bad ys where xs: "xs = bad @ x # ys" and bad: "\<forall>b \<in> set bad. \<not> P b" by (auto simp: first_good_def)
  have "first_good Q (concat (map k bad) @ k x @ concat (map k ys)) y"
    by (rule first_good_skip) (use bad assms(3) xs in \<open>auto intro!: first_good_append assms(2)\<close>)
  then show ?thesis by (simp add: xs)
qed

lemma first_good_map:
  "first_good P xs x \<Longrightarrow> (\<And>b. Q (f b) \<longleftrightarrow> P b) \<Longrightarrow> first_good Q (map f xs) (f x)"
  unfolding first_good_def by auto (metis image_iff list.set_map)

lemma headed_concat:
  assumes "first_good P xs x" and "\<And>b. b \<in> set xs \<Longrightarrow> \<not> P b \<Longrightarrow> k b = []" and "headed (k x) y"
  shows "headed (concat (map k xs)) y"
proof -
  from assms(1) obtain bad ys where xs: "xs = bad @ x # ys" and bad: "\<forall>b \<in> set bad. \<not> P b" by (auto simp: first_good_def)
  have "concat (map k bad) = []" using bad assms(2) xs by simp
  moreover obtain zs where "k x = y # zs" using assms(3) by (auto simp: headed_def)
  ultimately have "concat (map k xs) = y # zs @ concat (map k ys)" by (simp add: xs del: concat_eq_Nil_conv)
  then show ?thesis by (auto simp: headed_def)
qed

lemma dots_suffix: "x \<in> set (dots s) \<Longrightarrow> suffix x s \<and> length x < length s"
  by (induction s) (auto simp: suffix_Cons split: if_splits)

lemma matches_suffix: "(s', g') \<in> set (matches r s g) \<Longrightarrow> suffix s' s"
proof (induction r s g arbitrary: s' g' rule: matches.induct)
  case (1 p s g)
  then show ?case by (auto simp: strip_prefix_def suffix_drop split: if_splits)
next
  case (2 s g)
  then show ?case using dots_suffix by auto
next
  case (3 s g)
  then show ?case using dots_suffix by auto
next
  case (4 r q s g)
  from "4.prems" obtain s1 g1 where 1: "(s1, g1) \<in> set (matches r s g)" and 2: "(s', g') \<in> set (matches q s1 g1)" by auto
  from "4.IH"(1) [OF 1] "4.IH"(2) [OF 1 refl 2] show ?case by (rule suffix_order.trans [rotated])
next
  case (5 r s g)
  then show ?case by auto
next
  case (6 r s g)
  show ?case
  proof (cases "(s', g') = (s, g)")
    case False
    have "set (matches (Many r) s g) =
        set (concat (map (\<lambda>(s', g'). if length s' < length s then matches (Many r) s' g' else []) (matches r s g)) @ [(s, g)])"
      by (rule arg_cong [OF matches.simps(6)])
    with False "6.prems" obtain s1 g1 where 1: "(s1, g1) \<in> set (matches r s g)" and lt: "length s1 < length s"
      and 2: "(s', g') \<in> set (matches (Many r) s1 g1)" by (auto simp del: Pair_inject split: if_splits)
    from "6.IH"(1) [OF 1] "6.IH"(2) [OF 1 refl lt 2] show ?thesis by (rule suffix_order.trans [rotated])
  qed simp
next
  case (7 n r s g)
  then show ?case by auto
qed

lemma dots_first:
  assumes "w \<noteq> []" and "CHR 0x0A \<notin> set w" and "\<And>p q. w = p @ q \<Longrightarrow> p \<noteq> [] \<Longrightarrow> q \<noteq> [] \<Longrightarrow> \<not> P (q @ rest)"
  shows "first_good P (dots (w @ rest)) rest"
  using assms
proof (induction w)
  case Nil
  then show ?case by simp
next
  case (Cons c w)
  show ?case
  proof (cases "w = []")
    case True
    with Cons.prems show ?thesis by (simp add: first_good_Cons)
  next
    case False
    have "first_good P (dots (w @ rest)) rest"
    proof (rule Cons.IH [OF False])
      show "CHR 0x0A \<notin> set w" using Cons.prems(2) by simp
      show "\<not> P (q @ rest)" if "w = p @ q" and "p \<noteq> []" and "q \<noteq> []" for p q
        using Cons.prems(3) [of "c # p" q] that by simp
    qed
    moreover have "\<not> P (w @ rest)" using Cons.prems(3) [of "[c]" w] False by simp
    ultimately show ?thesis using Cons.prems(2) first_good_skip [of "[w @ rest]" P] by auto
  qed
qed

lemma all_dots:
  assumes "CHR 0x0A \<notin> set d"
  shows "\<exists>xs. rev (dots d) @ [d] = [] # xs"
proof (cases "d = []")
  case False
  with assms have "\<exists>xs. dots d = xs @ [[]]"
  proof (induction d)
    case (Cons c d)
    then show ?case by (cases "d = []") auto
  qed simp
  then show ?thesis by auto
qed simp

subsection \<open>Parameters\<close>

definition clean :: "string \<Rightarrow> bool" where
  "clean w \<longleftrightarrow> w \<noteq> [] \<and> set w \<inter> {CHR ''/'', CHR '';'', CHR ''='', CHR '','', CHR 0x0A} = {}"

definition print_parameters :: "(string \<times> string) list \<Rightarrow> string" where
  "print_parameters ps = concat (map (\<lambda>(k, v). '';'' @ k @ ''='' @ v) ps)"

definition print_payload :: "bool \<Rightarrow> string \<Rightarrow> string" where
  "print_payload b64 d = (if b64 then '';base64'' else []) @ '','' @ d"

definition delimited :: "string \<Rightarrow> bool" where
  "delimited s \<longleftrightarrow> (\<exists>c cs. s = c # cs \<and> (c = CHR '';'' \<or> c = CHR '',''))"

definition payable :: "string \<Rightarrow> bool" where
  "payable s \<longleftrightarrow> take 1 s = '','' \<or> take 8 s = '';base64,''"

lemma clean_part:
  assumes "clean w" and "w = p @ q" and "q \<noteq> []"
  shows "\<not> delimited (q @ rest)" and "\<not> payable (q @ rest)" and "strip_prefix ''/'' (q @ rest) = []"
    and "strip_prefix ''='' (q @ rest) = []" and "strip_prefix '';'' (q @ rest) = []"
proof -
  obtain c cs where q: "q = c # cs" using assms(3) by (cases q) auto
  then have "c \<notin> {CHR ''/'', CHR '';'', CHR ''='', CHR '','', CHR 0x0A}" using assms(1,2) by (auto simp: clean_def)
  then show "\<not> delimited (q @ rest)" and "\<not> payable (q @ rest)" and "strip_prefix ''/'' (q @ rest) = []"
    and "strip_prefix ''='' (q @ rest) = []" and "strip_prefix '';'' (q @ rest) = []"
    by (auto simp: q delimited_def payable_def strip_prefix_def)
qed

lemma print_payload_start: "\<exists>c cs. print_payload b64 d = c # cs \<and> (c = CHR '';'' \<or> c = CHR '','')"
  by (simp add: print_payload_def)

lemma delimited_print: "delimited (print_parameters ps @ print_payload b64 d)"
  using print_payload_start [of b64 d] by (cases ps) (auto simp: print_parameters_def delimited_def)

lemma payable_print: "payable (print_payload b64 d)"
  by (simp add: print_payload_def payable_def)

text \<open>One parameter, and what a parameter cannot start with.\<close>

lemma dots_clean:
  assumes "clean w" and "\<And>q. q \<noteq> [] \<Longrightarrow> (\<exists>p. w = p @ q) \<Longrightarrow> \<not> P (q @ rest)"
  shows "first_good P (dots (w @ rest)) rest"
  by (rule dots_first) (use assms in \<open>auto simp: clean_def\<close>)

lemma parameter_first:
  assumes "clean k" and "clean v"
  shows "first_good (\<lambda>(s, g). delimited s) (matches parameter_regex ('';'' @ k @ ''='' @ v @ rest) g) (rest, g)"
proof -
  have v: "first_good (\<lambda>(s, g). delimited s) (matches Dots (v @ rest) g) (rest, g)"
    unfolding matches.simps
    by (rule first_good_map [OF dots_clean [OF assms(2)]]) (auto dest: clean_part(1) [OF assms(2)])
  have "first_good (\<lambda>(s, g). delimited s) (matches (Seq Dots (Seq (Lit ''='') Dots)) (k @ ''='' @ v @ rest) g) (rest, g)"
  proof (subst matches.simps(4), rule first_good_concat)
    show "first_good (\<lambda>(s, g). strip_prefix ''='' s \<noteq> []) (matches Dots (k @ ''='' @ v @ rest) g) (''='' @ v @ rest, g)"
      unfolding matches.simps
      by (rule first_good_map [OF dots_clean [OF assms(1)]]) (auto dest: clean_part(4) [OF assms(1)])
  qed (use v in \<open>auto simp: strip_prefix_def\<close>)
  then show ?thesis by (simp add: parameter_regex_def strip_prefix_def del: matches.simps(2))
qed

lemma no_parameter: "strip_prefix '';'' s = [] \<Longrightarrow> matches parameter_regex s g = []"
  by (simp add: parameter_regex_def)

lemma many_none: "strip_prefix '';'' s = [] \<Longrightarrow> matches (Many parameter_regex) s g = [(s, g)]"
  by (simp add: matches.simps(6) no_parameter)

lemma not_delimited: "\<not> delimited s \<Longrightarrow> strip_prefix '';'' s = []"
  by (cases s) (auto simp: delimited_def strip_prefix_def)

lemma not_delimited_payable: "\<not> delimited s \<Longrightarrow> \<not> payable s"
  by (cases s) (auto simp: delimited_def payable_def)

lemma suffix_set: "suffix x y \<Longrightarrow> set x \<subseteq> set y"
  by (auto simp: suffix_def)

text \<open>In a base64 payload without a comma a parameter could start, but not end before a comma.\<close>

lemma equals_in_tail:
  assumes "x \<in> set (dots (w @ d))" and "CHR ''='' \<notin> set w" and "take 1 x = ''=''"
  shows "suffix x d"
proof -
  from dots_suffix [OF assms(1)] consider "suffix x d" | q where "x = q @ d" "suffix q w"
    by (auto simp: suffix_append)
  then show ?thesis
  proof cases
    case (2 q)
    show ?thesis
    proof (cases q)
      case (Cons c cs)
      then have "c = CHR ''=''" using 2(1) assms(3) by simp
      then show ?thesis using suffix_set [OF 2(2)] assms(2) Cons by auto
    qed (simp add: 2(1))
  qed
qed

lemma base64_parameter:
  assumes "(s', g') \<in> set (matches parameter_regex ('';base64,'' @ d) g)"
  shows "suffix s' d"
proof -
  from assms obtain x where x: "x \<in> set (dots (''base64,'' @ d))" and s': "(s', g') \<in> set (matches (Seq (Lit ''='') Dots) x g)"
    by (auto simp: parameter_regex_def strip_prefix_def)
  from s' have eq: "take 1 x = ''=''" and suf: "suffix s' (tl x)"
    by (auto simp: strip_prefix_def drop_Suc dest!: dots_suffix split: if_splits)
  have "suffix x d" by (rule equals_in_tail [OF x _ eq]) simp
  then show ?thesis using suf by (cases x) (auto intro: suffix_order.trans suffix_ConsI)
qed

lemma payable_comma: "payable s \<Longrightarrow> CHR '','' \<in> set s"
proof -
  assume "payable s"
  then have "CHR '','' \<in> set (take 1 s) \<or> CHR '','' \<in> set (take 8 s)" by (auto simp: payable_def)
  then show ?thesis using set_take_subset by fastforce
qed

lemma many_payload:
  assumes "b64 \<Longrightarrow> CHR '','' \<notin> set d"
  shows "first_good (\<lambda>(s, g). payable s) (matches (Many parameter_regex) (print_payload b64 d) g) (print_payload b64 d, g)"
proof (cases b64)
  case False
  then have "strip_prefix '';'' (print_payload b64 d) = []" by (simp add: print_payload_def strip_prefix_def)
  then show ?thesis by (simp add: many_none first_good_single)
next
  case True
  have p: "print_payload b64 d = '';base64,'' @ d" using True by (simp add: print_payload_def)
  have bad: "\<not> payable s'" if "(s1, g1) \<in> set (matches parameter_regex (print_payload b64 d) g)"
    and "(s', g') \<in> set (matches (Many parameter_regex) s1 g1)" for s1 g1 s' g'
  proof -
    have "suffix s' d"
      using base64_parameter [OF that(1) [unfolded p]] matches_suffix [OF that(2)] suffix_order.trans by blast
    then show ?thesis using payable_comma suffix_set assms True by blast
  qed
  show ?thesis
    by (subst matches.simps(6), rule first_good_skip) (use bad in \<open>auto intro: first_good_single split: if_splits\<close>)
qed

lemma many_first:
  assumes "b64 \<Longrightarrow> CHR '','' \<notin> set d" and "\<forall>(k, v) \<in> set ps. clean k \<and> clean v"
  shows "first_good (\<lambda>(s, g). payable s) (matches (Many parameter_regex) (print_parameters ps @ print_payload b64 d) g)
    (print_payload b64 d, g)"
  using assms(2)
proof (induction ps)
  case Nil
  then show ?case using many_payload [OF assms(1)] by (simp add: print_parameters_def)
next
  case (Cons kv ps)
  obtain k v where kv: "kv = (k, v)" by (cases kv)
  let ?s = "print_parameters ps @ print_payload b64 d"
  have s: "print_parameters (kv # ps) @ print_payload b64 d = '';'' @ k @ ''='' @ v @ ?s"
    by (simp add: kv print_parameters_def)
  have param: "first_good (\<lambda>(s, g). delimited s) (matches parameter_regex ('';'' @ k @ ''='' @ v @ ?s) g) (?s, g)"
    by (rule parameter_first) (use Cons.prems kv in auto)
  have IH: "first_good (\<lambda>(s, g). payable s) (matches (Many parameter_regex) ?s g) (print_payload b64 d, g)"
    by (rule Cons.IH) (use Cons.prems in auto)
  show ?case
    unfolding s
  proof (subst matches.simps(6), rule first_good_append, rule first_good_concat [OF param])
    show "first_good (\<lambda>(s, g). payable s) (case (?s, g) of (s', g') \<Rightarrow>
        if length s' < length ('';'' @ k @ ''='' @ v @ ?s) then matches (Many parameter_regex) s' g' else [])
        (print_payload b64 d, g)" using IH by simp
  qed (auto simp: many_none not_delimited dest: not_delimited_payable split: if_splits)
qed

subsection \<open>The media type\<close>

definition print_mime :: "(string \<times> string) option \<Rightarrow> string" where
  "print_mime m = (case m of None \<Rightarrow> [] | Some (a, b) \<Rightarrow> a @ ''/'' @ b)"

text \<open>The part before the slash may hold anything but a slash.\<close>

definition mime_start :: "string \<Rightarrow> bool" where
  "mime_start a \<longleftrightarrow> a \<noteq> [] \<and> CHR ''/'' \<notin> set a \<and> CHR 0x0A \<notin> set a"

definition clean_mime :: "(string \<times> string) option \<Rightarrow> bool" where
  "clean_mime m = (case m of None \<Rightarrow> True | Some (a, b) \<Rightarrow> mime_start a \<and> clean b)"

definition mime_groups :: "(string \<times> string) option \<Rightarrow> groups \<Rightarrow> groups" where
  "mime_groups m g = (case m of None \<Rightarrow> g | Some (a, b) \<Rightarrow> g(''mimetype'' \<mapsto> a @ ''/'' @ b))"

lemma dots_no_slash: "CHR ''/'' \<notin> set s \<Longrightarrow> x \<in> set (dots s) \<Longrightarrow> strip_prefix ''/'' x = []"
  using suffix_set [of x s] dots_suffix [of x s] by (cases x) (auto simp: strip_prefix_def)

lemma no_mime: "CHR ''/'' \<notin> set s \<Longrightarrow> matches mime_regex s g = []"
  by (auto simp: mime_regex_def dots_no_slash)

lemma mime_first:
  assumes "clean_mime m" and "m = None \<Longrightarrow> CHR ''/'' \<notin> set rest" and "delimited rest"
  shows "first_good (\<lambda>(s, g). delimited s) (matches (Maybe mime_regex) (print_mime m @ rest) g) (rest, mime_groups m g)"
proof (cases m)
  case None
  then show ?thesis using assms(2) by (simp add: print_mime_def mime_groups_def no_mime first_good_single)
next
  case (Some ab)
  obtain a b where ab: "ab = (a, b)" by (cases ab)
  have clean: "mime_start a" "clean b" using assms(1) by (simp_all add: Some ab clean_mime_def)
  have b: "first_good (\<lambda>(s, g). delimited s) (matches Dots (b @ rest) g) (rest, g)"
    unfolding matches.simps
    by (rule first_good_map [OF dots_clean [OF clean(2)]]) (auto dest: clean_part(1) [OF clean(2)])
  have "first_good (\<lambda>(s, g). delimited s) (matches (Seq Dots (Seq (Lit ''/'') Dots)) (a @ ''/'' @ b @ rest) g) (rest, g)"
  proof (subst matches.simps(4), rule first_good_concat)
    show "first_good (\<lambda>(s, g). strip_prefix ''/'' s \<noteq> []) (matches Dots (a @ ''/'' @ b @ rest) g) (''/'' @ b @ rest, g)"
      unfolding matches.simps
    proof (rule first_good_map [OF dots_first])
      show "\<not> strip_prefix ''/'' (q @ ''/'' @ b @ rest) \<noteq> []" if "a = p @ q" and "q \<noteq> []" for p q
        using that clean(1) by (cases q) (auto simp: mime_start_def strip_prefix_def)
    qed (use clean(1) in \<open>auto simp: mime_start_def\<close>)
  qed (use b in \<open>auto simp: strip_prefix_def\<close>)
  then have "first_good (\<lambda>(s, g). delimited s) (matches mime_regex (a @ ''/'' @ b @ rest) g)
      ((\<lambda>(s', g'). (s', g'(''mimetype'' \<mapsto> take (length (a @ ''/'' @ b @ rest) - length s') (a @ ''/'' @ b @ rest)))) (rest, g))"
    unfolding mime_regex_def matches.simps(7) by (rule first_good_map) auto
  then show ?thesis
    by (auto intro!: first_good_append simp: Some ab print_mime_def mime_groups_def)
qed

lemma media_first:
  assumes "clean_mime m" and "\<forall>(k, v) \<in> set ps. clean k \<and> clean v" and "m = None \<Longrightarrow> CHR ''/'' \<notin> set d"
    and "b64 \<Longrightarrow> CHR '','' \<notin> set d"
  shows "first_good (\<lambda>(s, g). payable s)
    (matches media_regex (print_mime m @ print_parameters ps @ print_payload b64 d) g)
    (print_payload b64 d, (mime_groups m g)(''parameters'' \<mapsto> print_parameters ps,
       ''mediatype'' \<mapsto> print_mime m @ print_parameters ps))"
proof -
  let ?p = "print_payload b64 d" and ?s = "print_parameters ps @ print_payload b64 d"
  have no_slash: "CHR ''/'' \<notin> set ?s" if "m = None"
  proof -
    have "CHR ''/'' \<notin> set (print_parameters ps)" using assms(2) by (fastforce simp: print_parameters_def clean_def)
    then show ?thesis using assms(3) [OF that] by (auto simp: print_payload_def)
  qed
  have params: "first_good (\<lambda>(s, g). payable s) (matches (Maybe (Group ''parameters'' (Many parameter_regex))) ?s g')
      (?p, g'(''parameters'' \<mapsto> print_parameters ps))" for g'
  proof -
    have "first_good (\<lambda>(s, g). payable s) (matches (Group ''parameters'' (Many parameter_regex)) ?s g')
        ((\<lambda>(s', g'). (s', g'(''parameters'' \<mapsto> take (length ?s - length s') ?s))) (?p, g'))"
      unfolding matches.simps(7) by (rule first_good_map [OF many_first]) (use assms in auto)
    then show ?thesis by (auto intro!: first_good_append)
  qed
  have "first_good (\<lambda>(s, g). payable s)
      (matches (Seq (Maybe mime_regex) (Maybe (Group ''parameters'' (Many parameter_regex)))) (print_mime m @ ?s) g)
      (?p, (mime_groups m g)(''parameters'' \<mapsto> print_parameters ps))"
  proof (subst matches.simps(4), rule first_good_concat)
    show "first_good (\<lambda>(s, g). delimited s) (matches (Maybe mime_regex) (print_mime m @ ?s) g) (?s, mime_groups m g)"
      by (rule mime_first) (use assms(1) no_slash delimited_print in auto)
  qed (use params in \<open>auto simp: many_none not_delimited dest: not_delimited_payable\<close>)
  then have "first_good (\<lambda>(s, g). payable s) (matches media_regex (print_mime m @ ?s) g)
      ((\<lambda>(s', g'). (s', g'(''mediatype'' \<mapsto> take (length (print_mime m @ ?s) - length s') (print_mime m @ ?s))))
         (?p, (mime_groups m g)(''parameters'' \<mapsto> print_parameters ps)))"
    unfolding media_regex_def matches.simps(7) by (rule first_good_map) auto
  then show ?thesis by simp
qed

subsection \<open>The payload\<close>

lemma seq_lit: "matches (Seq (Lit p) q) (p @ s) g = matches q s g"
  by (simp add: strip_prefix_def)

lemma not_payable: "\<not> payable s \<Longrightarrow> matches payload_regex s g = []"
proof -
  assume a: "\<not> payable s"
  have comma: "strip_prefix '','' s = []" using a by (auto simp: payable_def strip_prefix_def)
  have ext: "strip_prefix '','' x = []" if "x \<in> set (strip_prefix '';base64'' s)" for x
  proof -
    have "take 7 s = '';base64''" and x: "x = drop 7 s" using that by (auto simp: strip_prefix_def eval_nat_numeral split: if_splits)
    then have "take 8 s = '';base64'' @ take 1 x" using take_add [of 7 1 s] by simp
    then have "take 1 x \<noteq> '',''" using a by (auto simp: payable_def)
    then show ?thesis by (simp add: strip_prefix_def)
  qed
  show ?thesis using comma ext by (auto simp: payload_regex_def)
qed

lemma payload_first:
  assumes "CHR 0x0A \<notin> set d"
  shows "headed (matches payload_regex (print_payload b64 d) g)
    ([], (if b64 then g(''extension'' \<mapsto> '';base64'') else g)(''data'' \<mapsto> d))"
proof -
  obtain xs where xs: "rev (dots d) @ [d] = [] # xs" using all_dots [OF assms] by blast
  have data: "\<exists>ys. matches (Group ''data'' AllDots) d g = ([], g(''data'' \<mapsto> d)) # ys" for g
    using xs by (auto simp: Cons_eq_append_conv)
  have tail: "\<exists>ys. matches (Seq (Lit '','') (Group ''data'' AllDots)) ('','' @ d) g = ([], g(''data'' \<mapsto> d)) # ys" for g
    using data [of g] by (simp add: strip_prefix_def del: matches.simps(3,7))
  show ?thesis
  proof (cases b64)
    case True
    then have "matches (Maybe (Group ''extension'' (Lit '';base64''))) (print_payload b64 d) g =
        [('','' @ d, g(''extension'' \<mapsto> '';base64'')), (print_payload b64 d, g)]"
      by (simp add: print_payload_def strip_prefix_def)
    then show ?thesis using tail [of "g(''extension'' \<mapsto> '';base64'')"] True
      by (auto simp: payload_regex_def headed_def)
  next
    case False
    then have "matches (Maybe (Group ''extension'' (Lit '';base64''))) (print_payload b64 d) g = [('','' @ d, g)]"
      by (simp add: print_payload_def strip_prefix_def)
    then show ?thesis using tail [of g] False by (auto simp: payload_regex_def headed_def)
  qed
qed

subsection \<open>Round trip\<close>

definition print_uri :: "(string \<times> string) option \<Rightarrow> (string \<times> string) list \<Rightarrow> bool \<Rightarrow> string \<Rightarrow> string" where
  "print_uri m ps b64 d = ''data:'' @ print_mime m @ print_parameters ps @ print_payload b64 d"

lemma parse_printed:
  assumes "clean_mime m" and "\<forall>(k, v) \<in> set ps. clean k \<and> clean v" and "CHR 0x0A \<notin> set d"
    and "m = None \<Longrightarrow> CHR ''/'' \<notin> set d" and "b64 \<Longrightarrow> CHR '','' \<notin> set d"
  shows "ParseDataURI (print_uri m ps b64 d) =
    Inr \<lparr>du_mime = print_mime m, du_parameters = print_parameters ps,
      du_extension = (if b64 then '';base64'' else []), du_data = d\<rparr>"
proof -
  let ?g = "(mime_groups m Map.empty)(''parameters'' \<mapsto> print_parameters ps,
    ''mediatype'' \<mapsto> print_mime m @ print_parameters ps)"
  let ?h = "(if b64 then ?g(''extension'' \<mapsto> '';base64'') else ?g)(''data'' \<mapsto> d)"
  have "headed (matches (Seq media_regex payload_regex) (print_mime m @ print_parameters ps @ print_payload b64 d) Map.empty) ([], ?h)"
    unfolding matches.simps(4)
    by (rule headed_concat [OF media_first]) (use assms payload_first in \<open>auto simp: not_payable\<close>)
  then have "\<exists>ys. matches dataURIRegexp (print_uri m ps b64 d) Map.empty = ([], ?h) # ys"
    unfolding dataURIRegexp_def print_uri_def seq_lit headed_def .
  then have "find_submatch dataURIRegexp (print_uri m ps b64 d) = Some ?h" by (subst find_submatch.simps) auto
  then show ?thesis
    by (cases m) (auto simp: ParseDataURI_def uri_of_groups_def submatch_def mime_groups_def print_mime_def)
qed

text \<open>
  C26: A data URI is taken apart into the parts it was written from. That holds for any media type,
  parameters and payload of one line, but for two cases: without a media type the payload must not have a
  slash, and after ;base64 it must not have a comma, which no base64 text has.
\<close>

theorem data_uri_roundtrip:
  assumes "clean_mime m" and "\<forall>(k, v) \<in> set ps. clean k \<and> clean v" and "CHR 0x0A \<notin> set d"
    and "m = None \<Longrightarrow> CHR ''/'' \<notin> set d" and "b64 \<Longrightarrow> CHR '','' \<notin> set d"
  shows "ParseDataURI (print_uri m ps b64 d) =
    Inr \<lparr>du_mime = print_mime m, du_parameters = print_parameters ps,
      du_extension = (if b64 then '';base64'' else []), du_data = d\<rparr>"
  using assms by (rule parse_printed)

theorem data_uri_roundtrip_witness:
  "ParseDataURI ''data:text/html;charset=utf-8;base64,QUE='' = Inr \<lparr>du_mime = ''text/html'',
     du_parameters = '';charset=utf-8'', du_extension = '';base64'', du_data = ''QUE=''\<rparr>"
  using data_uri_roundtrip [of "Some (''text'', ''html'')" "[(''charset'', ''utf-8'')]" "''QUE=''" True]
  by (simp add: print_uri_def print_mime_def print_parameters_def print_payload_def clean_mime_def mime_start_def clean_def)

text \<open>
  A slash moves the payload into the media type. The media type is optional but tried first: in
  a URI without one, as the inscriptions of a token are written, everything up to the first comma
  after a slash of the payload becomes the media type, and only the rest is the payload.
\<close>

theorem slash_shifts_payload:
  assumes "CHR ''/'' \<notin> set a" and "CHR 0x0A \<notin> set a" and "clean b" and "CHR 0x0A \<notin> set c"
  shows "ParseDataURI (''data:,'' @ a @ ''/'' @ b @ '','' @ c) =
    Inr \<lparr>du_mime = '','' @ a @ ''/'' @ b, du_parameters = [], du_extension = [], du_data = c\<rparr>"
  using parse_printed [of "Some ('','' @ a, b)" "[]" c False] assms
  by (simp add: print_uri_def print_mime_def print_parameters_def print_payload_def clean_mime_def mime_start_def)

theorem slash_shifts_payload_witness:
  "ParseDataURI ''data:,{op:deploy,tick:a/b,max:5}'' =
    Inr \<lparr>du_mime = '',{op:deploy,tick:a/b'', du_parameters = [], du_extension = [], du_data = ''max:5}''\<rparr>"
  using slash_shifts_payload [of "''{op:deploy,tick:a''" "''b''" "''max:5}''"] by (simp add: clean_def)

end
