(* ===== verification/Inscription.thy ===== *)
theory Inscription
  imports DataUri IndexStore
begin

text \<open>
  plugins/inscription/inscription.go: the texts that actions carry, the inscriptions they create and
  pass on, and the tokens deployed, minted and transferred by the payloads of inscriptions. The rows
  of a block are gathered in memory, with maps for what the block itself has changed, and written in
  one transaction.
\<close>

subsection \<open>Rows\<close>

record raw_row =
  ir_height :: u64
  ir_hash :: string
  ir_index :: nat
  ir_sender :: string
  ir_recipient :: string
  ir_time :: int
  ir_text :: string

record inscription_row =
  in_height :: u64
  in_hash :: string
  in_index :: nat
  in_uri :: data_uri

record inscription_transfer =
  it_height :: u64
  it_hash :: string
  it_index :: nat
  it_sender :: string
  it_recipient :: string
  it_time :: int
  it_inscription :: string

record inscription_holder =
  ih_owner :: string
  ih_inscription :: string
  ih_time :: int

record inscription_token =
  tk_height :: u64
  tk_hash :: string
  tk_owner :: string
  tk_protocol :: string
  tk_tick :: string
  tk_op :: string
  tk_max :: u64
  tk_limit :: u64
  tk_description :: string
  tk_verified :: bool
  tk_time :: int

record token_holder =
  th_owner :: string
  th_protocol :: string
  th_tick :: string
  th_amount :: u64
  th_time :: int

record token_transaction =
  tt_height :: u64
  tt_hash :: string
  tt_index :: nat
  tt_sender :: string
  tt_recipient :: string
  tt_time :: int
  tt_method :: string

text \<open>The seven tables, and the seven slices that a block fills.\<close>

record insc_rows =
  ic_raws :: "raw_row list"
  ic_inscriptions :: "inscription_row list"
  ic_transfers :: "inscription_transfer list"
  ic_holders :: "inscription_holder list"
  ic_tokens :: "inscription_token list"
  ic_token_holders :: "token_holder list"
  ic_transactions :: "token_transaction list"

definition no_insc_rows :: insc_rows where
  "no_insc_rows = \<lparr>ic_raws = [], ic_inscriptions = [], ic_transfers = [], ic_holders = [], ic_tokens = [],
     ic_token_holders = [], ic_transactions = []\<rparr>"

record insc_mem =
  im_rows :: insc_rows
  im_inscriptions :: "string \<rightharpoonup> inscription_row"
  im_holders :: "string \<rightharpoonup> inscription_holder"
  im_tokens :: "string \<rightharpoonup> inscription_token"
  im_token_holders :: "string \<rightharpoonup> token_holder"

definition empty_insc :: insc_mem where
  "empty_insc = \<lparr>im_rows = no_insc_rows, im_inscriptions = Map.empty, im_holders = Map.empty, im_tokens = Map.empty,
     im_token_holders = Map.empty\<rparr>"

text \<open>
  Parameters: the Ethereum form of an action, its data and its recipient if it has one; gjson's
  \<open>Get(...).String()\<close> and \<open>Get(...).Uint()\<close>; which reads of the database fail; and what the database
  stores for a value of \<open>Verified\<close>, a column that gorm declares with a default.
\<close>

datatype insc_read = ReadInscription | ReadHolder | ReadToken | ReadFrom | ReadTo

record insc_env =
  ie_eth :: "envelope \<Rightarrow> (byte list \<times> string option) res"
  ie_string :: "string \<Rightarrow> string \<Rightarrow> string"
  ie_uint :: "string \<Rightarrow> string \<Rightarrow> u64"
  ie_fault :: "u64 \<Rightarrow> nat \<Rightarrow> insc_read \<Rightarrow> bool"
  ie_stored :: "bool \<Rightarrow> bool"

subsection \<open>Texts\<close>

definition continuation :: "byte \<Rightarrow> bool" where
  "continuation b \<longleftrightarrow> 0x80 \<le> b \<and> b \<le> 0xBF"

text \<open>\<open>utf8.Valid\<close>: no overlong forms, no surrogates, nothing above U+10FFFF.\<close>

fun utf8_valid :: "byte list \<Rightarrow> bool" where
  "utf8_valid [] = True"
| "utf8_valid (a # bs) =
     (if a < 0x80 then utf8_valid bs
      else if 0xC2 \<le> a \<and> a \<le> 0xDF then
        (case bs of b # cs \<Rightarrow> continuation b \<and> utf8_valid cs | _ \<Rightarrow> False)
      else if 0xE0 \<le> a \<and> a \<le> 0xEF then
        (case bs of b # c # cs \<Rightarrow> continuation b \<and> continuation c \<and> (a = 0xE0 \<longrightarrow> 0xA0 \<le> b)
           \<and> (a = 0xED \<longrightarrow> b \<le> 0x9F) \<and> utf8_valid cs | _ \<Rightarrow> False)
      else if 0xF0 \<le> a \<and> a \<le> 0xF4 then
        (case bs of b # c # d # cs \<Rightarrow> continuation b \<and> continuation c \<and> continuation d \<and> (a = 0xF0 \<longrightarrow> 0x90 \<le> b)
           \<and> (a = 0xF4 \<longrightarrow> b \<le> 0x8F) \<and> utf8_valid cs | _ \<Rightarrow> False)
      else False)"

definition bytesToUTF8 :: "byte list \<Rightarrow> string res" where
  "bytesToUTF8 bs =
     (if \<not> utf8_valid bs then Inl (Err ''not a utf8 string'')
      else Inr (filter (\<lambda>c. c \<noteq> CHR 0x00) (map (\<lambda>b. char_of (unat b)) bs)))"

definition is_hex_char :: "char \<Rightarrow> bool" where
  "is_hex_char c \<longleftrightarrow> (let n = of_char c :: nat in 97 \<le> n \<and> n \<le> 102 \<or> 65 \<le> n \<and> n \<le> 70 \<or> 48 \<le> n \<and> n \<le> 57)"

definition isHash :: "string \<Rightarrow> bool" where
  "isHash s \<longleftrightarrow> length s = 64 \<and> (\<forall>c \<in> set s. is_hex_char c)"

definition getTokenKey :: "string \<Rightarrow> string \<Rightarrow> string" where
  "getTokenKey p tick = p @ ''-'' @ tick"

subsection \<open>Lookups: what the block has changed, else the database\<close>

definition getInscriptionByHash :: "bool \<Rightarrow> insc_rows \<Rightarrow> insc_mem \<Rightarrow> string \<Rightarrow> inscription_row res" where
  "getInscriptionByHash fault db m h =
     (if \<not> isHash h then Inl (Err ''not a hex string'')
      else case im_inscriptions m h of
        Some i \<Rightarrow> Inr i
      | None \<Rightarrow> if fault then Inl DbError
                else (case find (\<lambda>i. in_hash i = h) (ic_inscriptions db) of None \<Rightarrow> Inl RecordNotFound | Some i \<Rightarrow> Inr i))"

definition getInscriptionHolderByHash :: "bool \<Rightarrow> insc_rows \<Rightarrow> insc_mem \<Rightarrow> string \<Rightarrow> inscription_holder res" where
  "getInscriptionHolderByHash fault db m h =
     (case im_holders m h of
        Some r \<Rightarrow> Inr r
      | None \<Rightarrow> if fault then Inl DbError
                else (case last_row (\<lambda>r. ih_inscription r = h) (ic_holders db) of None \<Rightarrow> Inl RecordNotFound | Some r \<Rightarrow> Inr r))"

definition getInscriptionTokenByPAndTick :: "bool \<Rightarrow> insc_rows \<Rightarrow> insc_mem \<Rightarrow> string \<Rightarrow> string \<Rightarrow> inscription_token res" where
  "getInscriptionTokenByPAndTick fault db m p tick =
     (case im_tokens m (getTokenKey p tick) of
        Some t \<Rightarrow> Inr t
      | None \<Rightarrow> if fault then Inl DbError
                else (case find (\<lambda>t. tk_protocol t = p \<and> tk_tick t = tick) (ic_tokens db) of
                        None \<Rightarrow> Inl RecordNotFound | Some t \<Rightarrow> Inr t))"

definition getTokenHolderInfoByHolder :: "bool \<Rightarrow> insc_rows \<Rightarrow> insc_mem \<Rightarrow> string \<Rightarrow> token_holder res" where
  "getTokenHolderInfoByHolder fault db m a =
     (case im_token_holders m a of
        Some r \<Rightarrow> Inr r
      | None \<Rightarrow> if fault then Inl DbError
                else (case last_row (\<lambda>r. th_owner r = a) (ic_token_holders db) of None \<Rightarrow> Inl RecordNotFound | Some r \<Rightarrow> Inr r))"

subsection \<open>One action\<close>

definition receipt_of :: "block \<Rightarrow> hash256 \<Rightarrow> receipt option" where
  "receipt_of blk h = find (\<lambda>r. r_action_hash r = h) (b_receipts blk)"

text \<open>The text and the recipient of an action that succeeded and carries UTF-8 data.\<close>

definition insc_input :: "insc_env \<Rightarrow> block \<Rightarrow> envelope \<Rightarrow> (string \<times> string) option" where
  "insc_input env blk e =
     (case receipt_of blk (e_hash e) of
        None \<Rightarrow> None
      | Some r \<Rightarrow>
          if r_status r \<noteq> receipt_success then None
          else case ie_eth env e of
            Inl _ \<Rightarrow> None
          | Inr (bs, to) \<Rightarrow>
              if bs = [] then None
              else case bytesToUTF8 bs of
                Inl _ \<Rightarrow> None
              | Inr text \<Rightarrow> map_option (\<lambda>a. (text, a)) to)"

definition add_rows :: "(insc_rows \<Rightarrow> insc_rows) \<Rightarrow> insc_mem \<Rightarrow> insc_mem" where
  "add_rows f m = m\<lparr>im_rows := f (im_rows m)\<rparr>"

definition add_raw :: "block \<Rightarrow> nat \<Rightarrow> envelope \<Rightarrow> string \<times> string \<Rightarrow> insc_mem \<Rightarrow> insc_mem" where
  "add_raw blk i e inp = add_rows (\<lambda>t. t\<lparr>ic_raws := ic_raws t @ [\<lparr>ir_height = b_height blk, ir_hash = hex_encode (e_hash e),
     ir_index = i, ir_sender = e_sender e, ir_recipient = snd inp, ir_time = b_timestamp blk, ir_text = fst inp\<rparr>]\<rparr>)"

text \<open>
  A text that is not a data URI passes on the inscription whose hash it is. The flag tells whether
  the code goes on: after a transfer it does, with the creation of an inscription.
\<close>

definition insc_transfer ::
  "insc_env \<Rightarrow> block \<Rightarrow> insc_rows \<Rightarrow> nat \<Rightarrow> envelope \<Rightarrow> string \<times> string \<Rightarrow> insc_mem \<Rightarrow> bool \<times> insc_mem" where
  "insc_transfer env blk db i e inp m =
     (case inp of (text, to) \<Rightarrow>
        case getInscriptionByHash (ie_fault env (b_height blk) i ReadInscription) db m text of
          Inl _ \<Rightarrow> (False, m)
        | Inr ins \<Rightarrow>
            (let m1 = add_rows (\<lambda>t. t\<lparr>ic_transfers := ic_transfers t @ [\<lparr>it_height = b_height blk, it_hash = hex_encode (e_hash e),
                   it_index = i, it_sender = e_sender e, it_recipient = to, it_time = b_timestamp blk,
                   it_inscription = in_hash ins\<rparr>]\<rparr>) m in
             case getInscriptionHolderByHash (ie_fault env (b_height blk) i ReadHolder) db m1 text of
               Inl _ \<Rightarrow> (False, m1)
             | Inr ho \<Rightarrow>
                 if ih_owner ho \<noteq> e_sender e then (False, m1)
                 else
                   (let toOwner = \<lparr>ih_owner = to, ih_inscription = text, ih_time = b_timestamp blk\<rparr> in
                    (True, add_rows (\<lambda>t. t\<lparr>ic_holders := ic_holders t @ [ho\<lparr>ih_time := b_timestamp blk\<rparr>, toOwner]\<rparr>)
                       (m1\<lparr>im_holders := (im_holders m1)(text \<mapsto> toOwner)\<rparr>)))))"

definition insc_create :: "block \<Rightarrow> nat \<Rightarrow> envelope \<Rightarrow> data_uri \<Rightarrow> insc_mem \<Rightarrow> insc_mem" where
  "insc_create blk i e uri m =
     (let h = hex_encode (e_hash e);
          ins = \<lparr>in_height = b_height blk, in_hash = h, in_index = i, in_uri = uri\<rparr>;
          ho = \<lparr>ih_owner = e_sender e, ih_inscription = h, ih_time = b_timestamp blk\<rparr> in
      add_rows (\<lambda>t. t\<lparr>ic_inscriptions := ic_inscriptions t @ [ins], ic_holders := ic_holders t @ [ho]\<rparr>)
        (m\<lparr>im_inscriptions := (im_inscriptions m)(h \<mapsto> ins), im_holders := (im_holders m)(h \<mapsto> ho)\<rparr>))"

subsection \<open>Tokens\<close>

definition deployed_token :: "insc_env \<Rightarrow> block \<Rightarrow> envelope \<Rightarrow> string \<Rightarrow> bool \<Rightarrow> inscription_token" where
  "deployed_token env blk e d verified =
     \<lparr>tk_height = b_height blk, tk_hash = hex_encode (e_hash e), tk_owner = e_sender e, tk_protocol = ie_string env d ''p'',
       tk_tick = ie_string env d ''tick'', tk_op = ie_string env d ''op'', tk_max = ie_uint env d ''max'',
       tk_limit = ie_uint env d ''lim'', tk_description = ie_string env d ''description'', tk_verified = verified,
       tk_time = b_timestamp blk\<rparr>"

text \<open>\<open>None\<close> stands for \<open>continue\<close>: no row in the table of transactions.\<close>

definition insc_deploy :: "insc_env \<Rightarrow> block \<Rightarrow> insc_rows \<Rightarrow> nat \<Rightarrow> envelope \<Rightarrow> string \<Rightarrow> insc_mem \<Rightarrow> insc_mem option" where
  "insc_deploy env blk db i e d m =
     (let p = ie_string env d ''p''; tick = ie_string env d ''tick'';
          add = (\<lambda>tok. Some (add_rows (\<lambda>t. t\<lparr>ic_tokens := ic_tokens t @ [tok]\<rparr>)
                  (m\<lparr>im_tokens := (im_tokens m)(getTokenKey p tick \<mapsto> tok)\<rparr>))) in
      case getInscriptionTokenByPAndTick (ie_fault env (b_height blk) i ReadToken) db m p tick of
        Inr _ \<Rightarrow> add (deployed_token env blk e d False)
      | Inl RecordNotFound \<Rightarrow> add (deployed_token env blk e d True)
      | Inl _ \<Rightarrow> None)"

definition new_holding :: "insc_env \<Rightarrow> block \<Rightarrow> string \<Rightarrow> string \<Rightarrow> token_holder" where
  "new_holding env blk d a = \<lparr>th_owner = a, th_protocol = ie_string env d ''p'', th_tick = ie_string env d ''tick'',
     th_amount = ie_uint env d ''amt'', th_time = b_timestamp blk\<rparr>"

definition grown_holding :: "insc_env \<Rightarrow> block \<Rightarrow> string \<Rightarrow> token_holder \<Rightarrow> token_holder" where
  "grown_holding env blk d r = r\<lparr>th_amount := th_amount r + ie_uint env d ''amt'', th_time := b_timestamp blk\<rparr>"

text \<open>The holding of an address after it received the amount.\<close>

definition receive :: "insc_env \<Rightarrow> block \<Rightarrow> bool \<Rightarrow> insc_rows \<Rightarrow> string \<Rightarrow> string \<Rightarrow> insc_mem \<Rightarrow> token_holder option" where
  "receive env blk fault db d a m =
     (case getTokenHolderInfoByHolder fault db m a of
        Inr r \<Rightarrow> Some (grown_holding env blk d r)
      | Inl RecordNotFound \<Rightarrow> Some (new_holding env blk d a)
      | Inl _ \<Rightarrow> None)"

definition put_holding :: "string \<Rightarrow> token_holder \<Rightarrow> insc_mem \<Rightarrow> insc_mem" where
  "put_holding a r m = add_rows (\<lambda>t. t\<lparr>ic_token_holders := ic_token_holders t @ [r]\<rparr>)
     (m\<lparr>im_token_holders := (im_token_holders m)(a \<mapsto> r)\<rparr>)"

definition insc_mint :: "insc_env \<Rightarrow> block \<Rightarrow> insc_rows \<Rightarrow> nat \<Rightarrow> envelope \<Rightarrow> string \<Rightarrow> insc_mem \<Rightarrow> insc_mem option" where
  "insc_mint env blk db i e d m =
     map_option (\<lambda>r. put_holding (e_sender e) r m)
       (receive env blk (ie_fault env (b_height blk) i ReadFrom) db d (e_sender e) m)"

definition insc_send ::
  "insc_env \<Rightarrow> block \<Rightarrow> insc_rows \<Rightarrow> nat \<Rightarrow> envelope \<Rightarrow> string \<Rightarrow> string \<Rightarrow> insc_mem \<Rightarrow> insc_mem option" where
  "insc_send env blk db i e to d m =
     (case getTokenHolderInfoByHolder (ie_fault env (b_height blk) i ReadFrom) db m (e_sender e) of
        Inl _ \<Rightarrow> None
      | Inr from \<Rightarrow>
          (let amt = ie_uint env d ''amt'' in
           if th_amount from < amt then None
           else map_option (\<lambda>r. put_holding to r (put_holding (e_sender e) (from\<lparr>th_amount := th_amount from - amt\<rparr>) m))
                  (receive env blk (ie_fault env (b_height blk) i ReadTo) db d to m)))"

definition insc_token ::
  "insc_env \<Rightarrow> block \<Rightarrow> insc_rows \<Rightarrow> nat \<Rightarrow> envelope \<Rightarrow> string \<Rightarrow> string \<Rightarrow> insc_mem \<Rightarrow> insc_mem" where
  "insc_token env blk db i e to d m =
     (let op = ie_string env d ''op'';
          m' = (if op = ''deploy'' then insc_deploy env blk db i e d m
                else if op = ''mint'' then insc_mint env blk db i e d m
                else if op = ''transfer'' then insc_send env blk db i e to d m
                else Some m) in
      case m' of
        None \<Rightarrow> m
      | Some m1 \<Rightarrow> add_rows (\<lambda>t. t\<lparr>ic_transactions := ic_transactions t @ [\<lparr>tt_height = b_height blk,
          tt_hash = hex_encode (e_hash e), tt_index = i, tt_sender = e_sender e, tt_recipient = to,
          tt_time = b_timestamp blk, tt_method = op\<rparr>]\<rparr>) m1)"

subsection \<open>Blocks\<close>

definition empty_uri :: data_uri where
  "empty_uri = \<lparr>du_mime = [], du_parameters = [], du_extension = [], du_data = []\<rparr>"

definition insc_action :: "insc_env \<Rightarrow> block \<Rightarrow> insc_rows \<Rightarrow> nat \<times> envelope \<Rightarrow> insc_mem \<Rightarrow> insc_mem" where
  "insc_action env blk db ie m =
     (case ie of (i, e) \<Rightarrow>
        case insc_input env blk e of
          None \<Rightarrow> m
        | Some (text, to) \<Rightarrow>
            (let m0 = add_raw blk i e (text, to) m;
                 (go, uri, m1) = (case ParseDataURI text of
                     Inr u \<Rightarrow> (True, u, m0)
                   | Inl _ \<Rightarrow> (case insc_transfer env blk db i e (text, to) m0 of (go, m1) \<Rightarrow> (go, empty_uri, m1))) in
             if go then insc_token env blk db i e to (du_data uri) (insc_create blk i e uri m1) else m1))"

definition insc_block :: "insc_env \<Rightarrow> block \<Rightarrow> insc_rows \<Rightarrow> insc_rows" where
  "insc_block env blk db =
     im_rows (fold (insc_action env blk db) (enumerate 0 (b_actions blk)) empty_insc)"

text \<open>The inserts of the transaction.\<close>

definition store_rows :: "insc_env \<Rightarrow> insc_rows \<Rightarrow> insc_rows \<Rightarrow> insc_rows" where
  "store_rows env new db = \<lparr>ic_raws = ic_raws db @ ic_raws new, ic_inscriptions = ic_inscriptions db @ ic_inscriptions new,
     ic_transfers = ic_transfers db @ ic_transfers new, ic_holders = ic_holders db @ ic_holders new,
     ic_tokens = ic_tokens db @ map (\<lambda>t. t\<lparr>tk_verified := ie_stored env (tk_verified t)\<rparr>) (ic_tokens new),
     ic_token_holders = ic_token_holders db @ ic_token_holders new,
     ic_transactions = ic_transactions db @ ic_transactions new\<rparr>"

definition insc_PutBlock :: "insc_env \<Rightarrow> tx_faults \<Rightarrow> block \<Rightarrow> insc_rows world \<Rightarrow> unit res \<times> insc_rows world" where
  "insc_PutBlock env f blk =
     index_tx f ''inscriptionv1'' (Inr (b_height blk)) (\<lambda>t. Inr (store_rows env (insc_block env blk t) t))"

text \<open>A configured start height moves the index height forward.\<close>

definition insc_Start :: "bool \<Rightarrow> bool \<Rightarrow> u64 \<Rightarrow> insc_rows world \<Rightarrow> unit res \<times> insc_rows world" where
  "insc_Start read_ok write_ok startHeight w =
     (case GetIndexHeight read_ok write_ok ''inscriptionv1'' w of
        (Inl err, w') \<Rightarrow> (Inl err, w')
      | (Inr h, w') \<Rightarrow>
          if h < startHeight \<and> 0 < startHeight then UpdateIndexHeight write_ok ''inscriptionv1'' (startHeight - 1) w'
          else (Inr (), w'))"

end
