(* ===== verification/InscriptionProps.thy ===== *)
theory InscriptionProps
  imports Inscription
begin

text \<open>
  Properties of the inscription plugin: the maps of a block against the tables, balances of tokens and
  owners of inscriptions.
\<close>

subsection \<open>Maps and rows\<close>

lemma rows_add_rows [simp]:
  "im_rows (add_rows f m) = f (im_rows m)"
  "im_inscriptions (add_rows f m) = im_inscriptions m" "im_holders (add_rows f m) = im_holders m"
  "im_tokens (add_rows f m) = im_tokens m" "im_token_holders (add_rows f m) = im_token_holders m"
  by (simp_all add: add_rows_def)

definition in_store :: "insc_rows \<Rightarrow> string \<Rightarrow> bool" where
  "in_store t h \<longleftrightarrow> (\<exists>i \<in> set (ic_inscriptions t). in_hash i = h)"

definition token_in :: "insc_rows \<Rightarrow> string \<Rightarrow> string \<Rightarrow> bool" where
  "token_in t p tick \<longleftrightarrow> (\<exists>k \<in> set (ic_tokens t). tk_protocol k = p \<and> tk_tick k = tick)"

definition no_dash :: "string \<Rightarrow> bool" where
  "no_dash s \<longleftrightarrow> CHR ''-'' \<notin> set s"

text \<open>The maps hold what the rows of the block say.\<close>

definition mem_ok :: "insc_mem \<Rightarrow> bool" where
  "mem_ok m \<longleftrightarrow>
     (\<forall>h. im_inscriptions m h = None \<longleftrightarrow> \<not> in_store (im_rows m) h) \<and>
     (\<forall>h i. im_inscriptions m h = Some i \<longrightarrow> in_hash i = h) \<and>
     (\<forall>h. im_holders m h = last_row (\<lambda>r. ih_inscription r = h) (ic_holders (im_rows m))) \<and>
     (\<forall>a. im_token_holders m a = last_row (\<lambda>r. th_owner r = a) (ic_token_holders (im_rows m))) \<and>
     dom (im_tokens m) = (\<lambda>k. getTokenKey (tk_protocol k) (tk_tick k)) ` set (ic_tokens (im_rows m)) \<and>
     (\<forall>k \<in> set (ic_tokens (im_rows m)). no_dash (tk_tick k))"

lemma mem_ok_empty: "mem_ok empty_insc"
  by (simp add: mem_ok_def empty_insc_def no_insc_rows_def in_store_def)

lemma key_inj:
  assumes "getTokenKey p t = getTokenKey p' t'" and "no_dash t" and "no_dash t'"
  shows "p = p' \<and> t = t'"
proof -
  have tw: "takeWhile (\<lambda>c. c \<noteq> CHR ''-'') (rev t @ CHR ''-'' # xs) = rev t" if "no_dash t" for t xs
    using that by (subst takeWhile_append2) (auto simp: no_dash_def)
  have "rev (getTokenKey p t) = rev (getTokenKey p' t')" using assms(1) by simp
  then have "rev t @ CHR ''-'' # rev p = rev t' @ CHR ''-'' # rev p'" by (simp add: getTokenKey_def)
  with tw [OF assms(2)] tw [OF assms(3)] have "rev t = rev t'" by metis
  then show ?thesis using assms(1) by (simp add: getTokenKey_def)
qed

text \<open>What the code sees: the tables with the rows of the block after them.\<close>

definition live :: "insc_env \<Rightarrow> insc_rows \<Rightarrow> insc_mem \<Rightarrow> insc_rows" where
  "live env db m = store_rows env (im_rows m) db"

lemma find_row: "(case find P xs of None \<Rightarrow> Inl RecordNotFound | Some x \<Rightarrow> Inr x) =
    (if \<exists>x \<in> set xs. P x then Inr (the (find P xs)) else Inl RecordNotFound)"
proof (cases "find P xs")
  case None
  then have "\<forall>x \<in> set xs. \<not> P x" by (simp add: find_None_iff)
  with None show ?thesis by simp
next
  case (Some y)
  then have "\<exists>x \<in> set xs. P x" by (auto simp: find_Some_iff)
  with Some show ?thesis by simp
qed

lemma find_inscription_hash: "\<exists>i \<in> set xs. in_hash i = h \<Longrightarrow> in_hash (the (find (\<lambda>i. in_hash i = h) xs)) = h"
  by (induction xs) auto

lemma lookup_inscription:
  assumes "mem_ok m"
  shows "map_res in_hash (getInscriptionByHash False db m h) =
    (if \<not> isHash h then Inl (Err ''not a hex string'')
     else if in_store (live env db m) h then Inr h else Inl RecordNotFound)"
proof -
  have live: "in_store (live env db m) h \<longleftrightarrow> in_store db h \<or> in_store (im_rows m) h"
    by (auto simp: live_def store_rows_def in_store_def)
  show ?thesis
  proof (cases "im_inscriptions m h")
    case None
    then have "\<not> in_store (im_rows m) h" using assms by (simp add: mem_ok_def)
    moreover have "(\<exists>i \<in> set (ic_inscriptions db). in_hash i = h) \<longleftrightarrow> in_store db h" by (simp add: in_store_def)
    ultimately show ?thesis
      using None find_inscription_hash [of "ic_inscriptions db" h] by (simp add: getInscriptionByHash_def find_row live)
  next
    case (Some i)
    moreover have "im_inscriptions m h = None \<longleftrightarrow> \<not> in_store (im_rows m) h" using assms by (simp add: mem_ok_def)
    ultimately have "in_store (im_rows m) h" "in_hash i = h" using assms by (auto simp: mem_ok_def)
    with Some show ?thesis by (simp add: getInscriptionByHash_def live)
  qed
qed

lemma lookup_holder:
  assumes "mem_ok m"
  shows "getInscriptionHolderByHash False db m h =
    (case last_row (\<lambda>r. ih_inscription r = h) (ic_holders (live env db m)) of None \<Rightarrow> Inl RecordNotFound | Some r \<Rightarrow> Inr r)"
  using assms by (auto simp: getInscriptionHolderByHash_def mem_ok_def live_def store_rows_def last_row_append split: option.splits)

lemma lookup_token_holder:
  assumes "mem_ok m"
  shows "getTokenHolderInfoByHolder False db m a =
    (case last_row (\<lambda>r. th_owner r = a) (ic_token_holders (live env db m)) of None \<Rightarrow> Inl RecordNotFound | Some r \<Rightarrow> Inr r)"
  using assms by (auto simp: getTokenHolderInfoByHolder_def mem_ok_def live_def store_rows_def last_row_append split: option.splits)

lemma lookup_token:
  assumes "mem_ok m" and "no_dash tick"
  shows "map_res (\<lambda>_. ()) (getInscriptionTokenByPAndTick False db m p tick) =
    (if token_in (live env db m) p tick then Inr () else Inl RecordNotFound)"
proof -
  have dom: "dom (im_tokens m) = (\<lambda>k. getTokenKey (tk_protocol k) (tk_tick k)) ` set (ic_tokens (im_rows m))"
    and dashes: "\<forall>k \<in> set (ic_tokens (im_rows m)). no_dash (tk_tick k)" using assms(1) by (simp_all add: mem_ok_def)
  have "getTokenKey p tick \<in> dom (im_tokens m) \<longleftrightarrow> token_in (im_rows m) p tick"
    unfolding dom token_in_def using key_inj [OF _ assms(2)] dashes by blast
  moreover have "token_in (live env db m) p tick \<longleftrightarrow> token_in db p tick \<or> token_in (im_rows m) p tick"
    by (simp add: live_def store_rows_def token_in_def bex_Un)
  moreover have "(\<exists>k \<in> set (ic_tokens db). tk_protocol k = p \<and> tk_tick k = tick) \<longleftrightarrow> token_in db p tick"
    by (simp add: token_in_def)
  ultimately show ?thesis
    by (auto simp: getInscriptionTokenByPAndTick_def find_row domIff split: option.splits)
qed

subsection \<open>Specification: the tables alone\<close>

definition t_raw :: "block \<Rightarrow> nat \<Rightarrow> envelope \<Rightarrow> string \<times> string \<Rightarrow> insc_rows \<Rightarrow> insc_rows" where
  "t_raw blk i e inp t = t\<lparr>ic_raws := ic_raws t @ [\<lparr>ir_height = b_height blk, ir_hash = hex_encode (e_hash e),
     ir_index = i, ir_sender = e_sender e, ir_recipient = snd inp, ir_time = b_timestamp blk, ir_text = fst inp\<rparr>]\<rparr>"

definition t_holder :: "insc_rows \<Rightarrow> string \<Rightarrow> inscription_holder option" where
  "t_holder t h = last_row (\<lambda>r. ih_inscription r = h) (ic_holders t)"

definition t_holding :: "insc_rows \<Rightarrow> string \<Rightarrow> token_holder option" where
  "t_holding t a = last_row (\<lambda>r. th_owner r = a) (ic_token_holders t)"

definition t_transfer :: "block \<Rightarrow> nat \<Rightarrow> envelope \<Rightarrow> string \<times> string \<Rightarrow> insc_rows \<Rightarrow> bool \<times> insc_rows" where
  "t_transfer blk i e inp t =
     (case inp of (text, to) \<Rightarrow>
        if \<not> isHash text \<or> \<not> in_store t text then (False, t)
        else
          (let t1 = t\<lparr>ic_transfers := ic_transfers t @ [\<lparr>it_height = b_height blk, it_hash = hex_encode (e_hash e),
                   it_index = i, it_sender = e_sender e, it_recipient = to, it_time = b_timestamp blk, it_inscription = text\<rparr>]\<rparr> in
           case t_holder t text of
             None \<Rightarrow> (False, t1)
           | Some ho \<Rightarrow>
               if ih_owner ho \<noteq> e_sender e then (False, t1)
               else (True, t1\<lparr>ic_holders := ic_holders t @ [ho\<lparr>ih_time := b_timestamp blk\<rparr>,
                       \<lparr>ih_owner = to, ih_inscription = text, ih_time = b_timestamp blk\<rparr>]\<rparr>)))"

definition t_create :: "block \<Rightarrow> nat \<Rightarrow> envelope \<Rightarrow> data_uri \<Rightarrow> insc_rows \<Rightarrow> insc_rows" where
  "t_create blk i e uri t =
     t\<lparr>ic_inscriptions := ic_inscriptions t @ [\<lparr>in_height = b_height blk, in_hash = hex_encode (e_hash e), in_index = i, in_uri = uri\<rparr>],
       ic_holders := ic_holders t @ [\<lparr>ih_owner = e_sender e, ih_inscription = hex_encode (e_hash e), ih_time = b_timestamp blk\<rparr>]\<rparr>"

definition t_put :: "token_holder \<Rightarrow> insc_rows \<Rightarrow> insc_rows" where
  "t_put r t = t\<lparr>ic_token_holders := ic_token_holders t @ [r]\<rparr>"

definition t_received :: "insc_env \<Rightarrow> block \<Rightarrow> string \<Rightarrow> string \<Rightarrow> insc_rows \<Rightarrow> token_holder" where
  "t_received env blk d a t =
     (case t_holding t a of None \<Rightarrow> new_holding env blk d a | Some r \<Rightarrow> grown_holding env blk d r)"

definition t_deploy :: "insc_env \<Rightarrow> block \<Rightarrow> envelope \<Rightarrow> string \<Rightarrow> insc_rows \<Rightarrow> insc_rows" where
  "t_deploy env blk e d t =
     t\<lparr>ic_tokens := ic_tokens t @ [deployed_token env blk e d
        (ie_stored env (\<not> token_in t (ie_string env d ''p'') (ie_string env d ''tick'')))]\<rparr>"

definition t_send :: "insc_env \<Rightarrow> block \<Rightarrow> envelope \<Rightarrow> string \<Rightarrow> string \<Rightarrow> insc_rows \<Rightarrow> insc_rows option" where
  "t_send env blk e to d t =
     (case t_holding t (e_sender e) of
        None \<Rightarrow> None
      | Some from \<Rightarrow>
          if th_amount from < ie_uint env d ''amt'' then None
          else Some (t_put (t_received env blk d to t) (t_put (from\<lparr>th_amount := th_amount from - ie_uint env d ''amt''\<rparr>) t)))"

definition t_token :: "insc_env \<Rightarrow> block \<Rightarrow> nat \<Rightarrow> envelope \<Rightarrow> string \<Rightarrow> string \<Rightarrow> insc_rows \<Rightarrow> insc_rows" where
  "t_token env blk i e to d t =
     (let op = ie_string env d ''op'';
          t' = (if op = ''deploy'' then Some (t_deploy env blk e d t)
                else if op = ''mint'' then Some (t_put (t_received env blk d (e_sender e) t) t)
                else if op = ''transfer'' then t_send env blk e to d t
                else Some t) in
      case t' of
        None \<Rightarrow> t
      | Some t1 \<Rightarrow> t1\<lparr>ic_transactions := ic_transactions t1 @ [\<lparr>tt_height = b_height blk,
          tt_hash = hex_encode (e_hash e), tt_index = i, tt_sender = e_sender e, tt_recipient = to,
          tt_time = b_timestamp blk, tt_method = op\<rparr>]\<rparr>)"

definition t_action :: "insc_env \<Rightarrow> block \<Rightarrow> nat \<times> envelope \<Rightarrow> insc_rows \<Rightarrow> insc_rows" where
  "t_action env blk ie t =
     (case ie of (i, e) \<Rightarrow>
        case insc_input env blk e of
          None \<Rightarrow> t
        | Some (text, to) \<Rightarrow>
            (let t0 = t_raw blk i e (text, to) t;
                 (go, uri, t1) = (case ParseDataURI text of
                     Inr u \<Rightarrow> (True, u, t0)
                   | Inl _ \<Rightarrow> (case t_transfer blk i e (text, to) t0 of (go, t1) \<Rightarrow> (go, empty_uri, t1))) in
             if go then t_token env blk i e to (du_data uri) (t_create blk i e uri t1) else t1))"

subsection \<open>The maps implement the specification\<close>

definition unfaulted :: "insc_env \<Rightarrow> bool" where
  "unfaulted env \<longleftrightarrow> (\<forall>h i r. \<not> ie_fault env h i r)"

definition refines_on :: "insc_env \<Rightarrow> insc_rows \<Rightarrow> insc_mem \<Rightarrow> (insc_rows \<Rightarrow> insc_rows) \<Rightarrow> insc_mem \<Rightarrow> bool" where
  "refines_on env db m f m' \<longleftrightarrow> mem_ok m' \<and> live env db m' = f (live env db m)"

lemma raw_refines: "mem_ok m \<Longrightarrow> refines_on env db m (t_raw blk i e inp) (add_raw blk i e inp m)"
  by (simp add: refines_on_def mem_ok_def add_raw_def t_raw_def live_def store_rows_def in_store_def)

lemma holder_live: "mem_ok m \<Longrightarrow> getInscriptionHolderByHash False db m h =
    (case t_holder (live env db m) h of None \<Rightarrow> Inl RecordNotFound | Some r \<Rightarrow> Inr r)"
  using lookup_holder [of m db h env] by (simp add: t_holder_def)

lemma holding_live: "mem_ok m \<Longrightarrow> getTokenHolderInfoByHolder False db m a =
    (case t_holding (live env db m) a of None \<Rightarrow> Inl RecordNotFound | Some r \<Rightarrow> Inr r)"
  using lookup_token_holder [of m db a env] by (simp add: t_holding_def)

lemma t_holder_hash: "t_holder t h = Some r \<Longrightarrow> ih_inscription r = h"
  by (auto simp: t_holder_def dest: last_row_SomeD)

lemma t_holding_owner: "t_holding t a = Some r \<Longrightarrow> th_owner r = a"
  by (auto simp: t_holding_def dest: last_row_SomeD)

lemma create_refines: "mem_ok m \<Longrightarrow> refines_on env db m (t_create blk i e uri) (insc_create blk i e uri m)"
  by (auto simp: refines_on_def mem_ok_def insc_create_def t_create_def live_def store_rows_def in_store_def Let_def)

lemma put_refines: "mem_ok m \<Longrightarrow> th_owner r = a \<Longrightarrow> refines_on env db m (t_put r) (put_holding a r m)"
  by (auto simp: refines_on_def mem_ok_def put_holding_def t_put_def live_def store_rows_def in_store_def)

lemma live_transfers: "live env db (add_rows (\<lambda>t. t\<lparr>ic_transfers := ic_transfers t @ xs\<rparr>) m) =
    (live env db m)\<lparr>ic_transfers := ic_transfers (live env db m) @ xs\<rparr>"
  by (simp add: live_def store_rows_def)

lemma ok_transfers: "mem_ok (add_rows (\<lambda>t. t\<lparr>ic_transfers := ic_transfers t @ xs\<rparr>) m) = mem_ok m"
  by (simp add: mem_ok_def in_store_def)

lemma moved_refines:
  assumes "mem_ok m" and "ih_inscription a = h" and "ih_inscription b = h"
  shows "refines_on env db m (\<lambda>t. t\<lparr>ic_holders := ic_holders t @ [a, b]\<rparr>)
    (add_rows (\<lambda>t. t\<lparr>ic_holders := ic_holders t @ [a, b]\<rparr>) (m\<lparr>im_holders := (im_holders m)(h \<mapsto> b)\<rparr>))"
  using assms by (auto simp: refines_on_def mem_ok_def live_def store_rows_def in_store_def last_row_append last_row_def)

lemma transfer_refines:
  assumes "mem_ok m" and "unfaulted env"
  shows "case insc_transfer env blk db i e inp m of (go, m') \<Rightarrow>
    mem_ok m' \<and> t_transfer blk i e inp (live env db m) = (go, live env db m')"
proof -
  obtain w to where inp: "inp = (w, to)" by (cases inp)
  let ?t = "live env db m"
  have fault: "ie_fault env h j r = False" for h j r using assms(2) by (simp add: unfaulted_def)
  note look = lookup_inscription [OF assms(1), of db w env]
  show ?thesis
  proof (cases "isHash w \<and> in_store ?t w")
    case False
    with look obtain err where "getInscriptionByHash False db m w = Inl err"
      by (cases "getInscriptionByHash False db m w") (auto split: if_splits)
    with False assms(1) show ?thesis by (auto simp: insc_transfer_def t_transfer_def inp fault)
  next
    case True
    with look obtain ins where ins: "getInscriptionByHash False db m w = Inr ins" "in_hash ins = w"
      by (cases "getInscriptionByHash False db m w") auto
    let ?f = "\<lambda>t. t\<lparr>ic_transfers := ic_transfers t @ [\<lparr>it_height = b_height blk, it_hash = hex_encode (e_hash e),
                   it_index = i, it_sender = e_sender e, it_recipient = to, it_time = b_timestamp blk, it_inscription = w\<rparr>]\<rparr>"
    let ?m1 = "add_rows ?f m"
    have ok: "mem_ok ?m1" using assms(1) by (simp add: ok_transfers)
    have live1: "live env db ?m1 = ?f ?t" by (rule live_transfers)
    have keep: "t_holder (?f ?t) w = t_holder ?t w" by (simp add: t_holder_def)
    note hold = holder_live [OF ok, of db w env, unfolded live1 keep]
    show ?thesis
    proof (cases "t_holder ?t w")
      case None
      with True ins hold ok live1 show ?thesis by (simp add: insc_transfer_def t_transfer_def inp fault)
    next
      case (Some ho)
      show ?thesis
      proof (cases "ih_owner ho = e_sender e")
        case False
        with Some True ins hold ok live1 show ?thesis by (simp add: insc_transfer_def t_transfer_def inp fault)
      next
        case True
        let ?a = "ho\<lparr>ih_time := b_timestamp blk\<rparr>"
        let ?b = "\<lparr>ih_owner = to, ih_inscription = w, ih_time = b_timestamp blk\<rparr>"
        have "refines_on env db ?m1 (\<lambda>t. t\<lparr>ic_holders := ic_holders t @ [?a, ?b]\<rparr>)
            (add_rows (\<lambda>t. t\<lparr>ic_holders := ic_holders t @ [?a, ?b]\<rparr>) (?m1\<lparr>im_holders := (im_holders ?m1)(w \<mapsto> ?b)\<rparr>))"
          by (rule moved_refines [OF ok]) (use t_holder_hash [OF Some] in simp_all)
        with Some True \<open>isHash w \<and> in_store ?t w\<close> ins hold live1 show ?thesis
          by (simp add: insc_transfer_def t_transfer_def inp fault refines_on_def Let_def del: rows_add_rows)
      qed
    qed
  qed
qed

lemma received_live:
  assumes "mem_ok m"
  shows "receive env blk False db d a m = Some (t_received env blk d a (live env db m))"
  by (cases "t_holding (live env db m) a") (simp_all add: receive_def holding_live [OF assms, of db a env] t_received_def)

lemma received_owner: "th_owner (t_received env blk d a t) = a"
  by (auto simp: t_received_def new_holding_def grown_holding_def t_holding_owner split: option.splits)

lemma deploy_refines:
  assumes "mem_ok m" and "unfaulted env" and "no_dash (ie_string env d ''tick'')"
  shows "\<exists>m'. insc_deploy env blk db i e d m = Some m' \<and> refines_on env db m (t_deploy env blk e d) m'"
proof -
  let ?p = "ie_string env d ''p''" and ?k = "ie_string env d ''tick''"
  have fault: "ie_fault env h j r = False" for h j r using assms(2) by (simp add: unfaulted_def)
  note look = lookup_token [OF assms(1,3), of db ?p env]
  let ?tok = "deployed_token env blk e d (\<not> token_in (live env db m) ?p ?k)"
  let ?m' = "add_rows (\<lambda>t. t\<lparr>ic_tokens := ic_tokens t @ [?tok]\<rparr>) (m\<lparr>im_tokens := (im_tokens m)(getTokenKey ?p ?k \<mapsto> ?tok)\<rparr>)"
  have "insc_deploy env blk db i e d m = Some ?m'"
    using look by (cases "getInscriptionTokenByPAndTick False db m ?p ?k")
      (auto simp: insc_deploy_def Let_def fault split: if_splits)
  moreover have "live env db ?m' = t_deploy env blk e d (live env db m)"
    by (simp add: live_def store_rows_def t_deploy_def deployed_token_def)
  moreover have "mem_ok ?m'"
    using assms(1,3) by (auto simp: mem_ok_def in_store_def deployed_token_def)
  ultimately show ?thesis by (auto simp: refines_on_def)
qed

lemma send_refines:
  assumes "mem_ok m" and "unfaulted env"
  shows "case insc_send env blk db i e to d m of
      None \<Rightarrow> t_send env blk e to d (live env db m) = None
    | Some m' \<Rightarrow> mem_ok m' \<and> t_send env blk e to d (live env db m) = Some (live env db m')"
proof -
  let ?t = "live env db m"
  have fault: "ie_fault env h j r = False" for h j r using assms(2) by (simp add: unfaulted_def)
  show ?thesis
  proof (cases "t_holding ?t (e_sender e)")
    case None
    then show ?thesis by (simp add: insc_send_def t_send_def fault holding_live [OF assms(1), of db "e_sender e" env])
  next
    case (Some fr)
    let ?from = "fr\<lparr>th_amount := th_amount fr - ie_uint env d ''amt''\<rparr>"
    let ?to = "t_received env blk d to ?t"
    have 1: "refines_on env db m (t_put ?from) (put_holding (e_sender e) ?from m)"
      by (rule put_refines) (use assms(1) t_holding_owner [OF Some] in simp_all)
    have 2: "refines_on env db (put_holding (e_sender e) ?from m) (t_put ?to) (put_holding to ?to (put_holding (e_sender e) ?from m))"
      by (rule put_refines) (use 1 in \<open>simp_all add: refines_on_def received_owner\<close>)
    show ?thesis
      using Some 1 2 by (simp add: insc_send_def t_send_def fault holding_live [OF assms(1), of db "e_sender e" env]
          received_live [OF assms(1)] refines_on_def Let_def)
  qed
qed

definition dashless :: "insc_env \<Rightarrow> string \<Rightarrow> bool" where
  "dashless env d \<longleftrightarrow> ie_string env d ''op'' = ''deploy'' \<longrightarrow> no_dash (ie_string env d ''tick'')"

lemma transaction_refines:
  "mem_ok m \<Longrightarrow> refines_on env db m (\<lambda>t. t\<lparr>ic_transactions := ic_transactions t @ xs\<rparr>)
    (add_rows (\<lambda>t. t\<lparr>ic_transactions := ic_transactions t @ xs\<rparr>) m)"
  by (simp add: refines_on_def mem_ok_def live_def store_rows_def in_store_def)

lemma token_refines:
  assumes "mem_ok m" and "unfaulted env" and "dashless env d"
  shows "refines_on env db m (t_token env blk i e to d) (insc_token env blk db i e to d m)"
proof -
  let ?op = "ie_string env d ''op''" and ?t = "live env db m"
  have fault: "ie_fault env h j r = False" for h j r using assms(2) by (simp add: unfaulted_def)
  have minted: "\<exists>m'. insc_mint env blk db i e d m = Some m' \<and>
      refines_on env db m (t_put (t_received env blk d (e_sender e) ?t)) m'"
    by (auto simp: insc_mint_def fault received_live [OF assms(1)] intro!: put_refines assms(1) received_owner)
  consider (deploy) "?op = ''deploy''" | (mint) "?op = ''mint''" | (send) "?op = ''transfer''"
    | (other) "?op \<noteq> ''deploy''" "?op \<noteq> ''mint''" "?op \<noteq> ''transfer''" by blast
  then show ?thesis
  proof cases
    case deploy
    then obtain m' where "insc_deploy env blk db i e d m = Some m'" "refines_on env db m (t_deploy env blk e d) m'"
      using deploy_refines [OF assms(1,2), of d blk db i e] assms(3) by (auto simp: dashless_def)
    with deploy show ?thesis using transaction_refines [of m' env db]
      by (simp add: insc_token_def t_token_def refines_on_def)
  next
    case mint
    from mint obtain m' where "insc_mint env blk db i e d m = Some m'"
      "refines_on env db m (t_put (t_received env blk d (e_sender e) ?t)) m'" using minted by blast
    with mint show ?thesis
      using transaction_refines [of _ env db] by (auto simp: insc_token_def t_token_def refines_on_def)
  next
    case send
    with send_refines [OF assms(1,2), where blk = blk and db = db and i = i and e = e and to = to and d = d] show ?thesis
      using transaction_refines [of _ env db] assms(1)
      by (auto simp: insc_token_def t_token_def refines_on_def split: option.splits)
  next
    case other
    then show ?thesis using transaction_refines [OF assms(1), of env db] by (simp add: insc_token_def t_token_def refines_on_def)
  qed
qed

text \<open>The payload an action's text carries.\<close>

definition payload_of :: "string \<Rightarrow> string" where
  "payload_of text = (case ParseDataURI text of Inl _ \<Rightarrow> [] | Inr u \<Rightarrow> du_data u)"

definition dashless_action :: "insc_env \<Rightarrow> block \<Rightarrow> envelope \<Rightarrow> bool" where
  "dashless_action env blk e \<longleftrightarrow> (\<forall>text to. insc_input env blk e = Some (text, to) \<longrightarrow> dashless env (payload_of text))"

lemma action_refines:
  assumes "mem_ok m" and "unfaulted env" and "dashless_action env blk e"
  shows "refines_on env db m (t_action env blk (i, e)) (insc_action env blk db (i, e) m)"
proof (cases "insc_input env blk e")
  case None
  then show ?thesis using assms(1) by (simp add: insc_action_def t_action_def refines_on_def)
next
  case (Some inp)
  obtain w to where inp: "inp = (w, to)" by (cases inp)
  let ?m0 = "add_raw blk i e (w, to) m"
  have 0: "mem_ok ?m0" "live env db ?m0 = t_raw blk i e (w, to) (live env db m)"
    using raw_refines [OF assms(1), of env db blk i e "(w, to)"] by (simp_all add: refines_on_def)
  have dash: "dashless env (payload_of w)" using assms(3) Some inp by (simp add: dashless_action_def)
  have go: "refines_on env db m1 (\<lambda>t. t_token env blk i e to (du_data uri) (t_create blk i e uri t))
      (insc_token env blk db i e to (du_data uri) (insc_create blk i e uri m1))"
    if "mem_ok m1" and "dashless env (du_data uri)" for m1 uri
    using create_refines [OF that(1), of env db blk i e uri] token_refines [OF _ assms(2) that(2)]
    by (simp add: refines_on_def)
  show ?thesis
  proof (cases "ParseDataURI w")
    case (Inr u)
    then show ?thesis using go [OF 0(1), of u] dash 0(2) Some inp
      by (simp add: insc_action_def t_action_def refines_on_def payload_of_def)
  next
    case (Inl err)
    obtain g m1 where tr: "insc_transfer env blk db i e (w, to) ?m0 = (g, m1)" by fastforce
    from transfer_refines [OF 0(1) assms(2), where blk = blk and db = db and i = i and e = e and inp = "(w, to)"] tr
    have 1: "mem_ok m1" "t_transfer blk i e (w, to) (live env db ?m0) = (g, live env db m1)" by simp_all
    show ?thesis using go [OF 1(1), of empty_uri] 1 dash 0(2) Some inp Inl tr
      by (simp add: insc_action_def t_action_def refines_on_def payload_of_def empty_uri_def)
  qed
qed

lemma actions_refine:
  assumes "unfaulted env" and "\<forall>(i, e) \<in> set ies. dashless_action env blk e"
  shows "mem_ok m \<Longrightarrow> refines_on env db m (fold (t_action env blk) ies) (fold (insc_action env blk db) ies m)"
  using assms(2)
proof (induction ies arbitrary: m)
  case Nil
  then show ?case by (simp add: refines_on_def)
next
  case (Cons ie ies)
  obtain i e where ie: "ie = (i, e)" by (cases ie)
  have "refines_on env db m (t_action env blk ie) (insc_action env blk db ie m)"
    unfolding ie by (rule action_refines) (use Cons.prems assms(1) ie in auto)
  then show ?case using Cons.IH [of "insc_action env blk db ie m"] Cons.prems(2) by (auto simp: refines_on_def)
qed

lemma live_empty: "live env db empty_insc = db"
  by (simp add: live_def store_rows_def empty_insc_def no_insc_rows_def)

lemma block_refines:
  assumes "unfaulted env" and "\<forall>e \<in> set (b_actions blk). dashless_action env blk e"
  shows "store_rows env (insc_block env blk db) db = fold (t_action env blk) (enumerate 0 (b_actions blk)) db"
proof -
  have "\<forall>(i, e) \<in> set (enumerate 0 (b_actions blk)). dashless_action env blk e"
    using assms(2) by (auto simp: in_set_enumerate_eq)
  from actions_refine [OF assms(1) this mem_ok_empty, of db]
  show ?thesis by (simp add: refines_on_def live_empty) (simp add: live_def insc_block_def)
qed

text \<open>
  C27: The maps that a block keeps in memory are invisible. What a block writes is what its actions
  write one at a time, each reading the tables as the actions before it left them, as long as reads do
  not fail and no token name deployed in it has a dash, the separator of the map's keys.
\<close>

theorem inscription_block_is_sequential:
  assumes "unfaulted env" and "\<forall>e \<in> set (b_actions blk). dashless_action env blk e"
  shows "store_rows env (insc_block env blk db) db = fold (t_action env blk) (enumerate 0 (b_actions blk)) db"
  using assms by (rule block_refines)

subsection \<open>Amounts of tokens\<close>

definition held :: "insc_rows \<Rightarrow> string \<Rightarrow> u64" where
  "held t a = (case t_holding t a of None \<Rightarrow> 0 | Some r \<Rightarrow> th_amount r)"

definition token_supply :: "insc_rows \<Rightarrow> u64" where
  "token_supply t = (\<Sum>a \<in> th_owner ` set (ic_token_holders t). held t a)"

lemma held_put: "held (t_put r t) a = (if th_owner r = a then th_amount r else held t a)"
  by (simp add: held_def t_holding_def t_put_def)

lemma supply_over:
  assumes "finite F" and "th_owner ` set (ic_token_holders t) \<subseteq> F"
  shows "token_supply t = sum (held t) F"
  unfolding token_supply_def
  by (rule sum.mono_neutral_left) (use assms in \<open>auto simp: held_def t_holding_def last_row_None_iff split: option.splits dest!: last_row_SomeD\<close>)

lemma supply_put: "token_supply (t_put r t) = token_supply t - held t (th_owner r) + th_amount r"
proof -
  let ?F = "insert (th_owner r) (th_owner ` set (ic_token_holders t))"
  have "token_supply (t_put r t) = sum (held (t_put r t)) ?F" by (rule supply_over) (auto simp: t_put_def)
  also have "\<dots> = th_amount r + sum (held (t_put r t)) (?F - {th_owner r})"
    by (subst sum.remove [of _ "th_owner r"]) (simp_all add: held_put)
  also have "sum (held (t_put r t)) (?F - {th_owner r}) = sum (held t) (?F - {th_owner r})"
    by (rule sum.cong) (auto simp: held_put)
  also have "sum (held t) (?F - {th_owner r}) = token_supply t - held t (th_owner r)"
    by (subst supply_over [of ?F]) (simp_all add: sum.remove [of ?F "th_owner r"] subset_insertI)
  finally show ?thesis by simp
qed

lemma received_amount: "th_amount (t_received env blk d a t) = held t a + ie_uint env d ''amt''"
  by (auto simp: t_received_def held_def new_holding_def grown_holding_def split: option.splits)

lemma supply_other:
  "token_supply (t_raw blk i e inp t) = token_supply t" "token_supply (t_create blk i e uri t) = token_supply t"
  "token_supply (t_deploy env blk e d t) = token_supply t" "token_supply (t\<lparr>ic_transactions := xs\<rparr>) = token_supply t"
  "token_supply (t\<lparr>ic_transfers := ys\<rparr>) = token_supply t" "token_supply (t\<lparr>ic_holders := zs\<rparr>) = token_supply t"
  by (simp_all add: token_supply_def held_def t_holding_def t_raw_def t_create_def t_deploy_def cong: sum.cong)

lemma supply_transfer: "t_transfer blk i e inp t = (go, t') \<Longrightarrow> token_supply t' = token_supply t"
  by (cases inp) (auto simp: t_transfer_def supply_other Let_def split: if_splits option.splits)

lemma supply_send:
  assumes "t_send env blk e to d t = Some t'"
  shows "token_supply t' = token_supply t + (if e_sender e = to then ie_uint env d ''amt'' else 0)"
proof -
  from assms obtain r where r: "t_holding t (e_sender e) = Some r"
    and t': "t' = t_put (t_received env blk d to t) (t_put (r\<lparr>th_amount := th_amount r - ie_uint env d ''amt''\<rparr>) t)"
    by (auto simp: t_send_def split: option.splits if_splits)
  have "held t (e_sender e) = th_amount r" by (simp add: held_def r)
  then show ?thesis
    unfolding t' by (auto simp: supply_put received_owner received_amount held_put t_holding_owner [OF r])
qed

definition minted :: "insc_env \<Rightarrow> block \<Rightarrow> envelope \<Rightarrow> u64" where
  "minted env blk e =
     (case insc_input env blk e of
        None \<Rightarrow> 0
      | Some (text, to) \<Rightarrow>
          let d = payload_of text in if ie_string env d ''op'' = ''mint'' then ie_uint env d ''amt'' else 0)"

definition sends_to_self :: "insc_env \<Rightarrow> block \<Rightarrow> envelope \<Rightarrow> bool" where
  "sends_to_self env blk e \<longleftrightarrow>
     (\<exists>text. insc_input env blk e = Some (text, e_sender e) \<and> ie_string env (payload_of text) ''op'' = ''transfer'')"

lemma supply_token:
  assumes "ie_string env d ''op'' = ''transfer'' \<Longrightarrow> e_sender e \<noteq> to"
  shows "token_supply (t_token env blk i e to d t) =
    token_supply t + (if ie_string env d ''op'' = ''mint'' then ie_uint env d ''amt'' else 0)"
  using assms supply_send [of env blk e to d t]
  by (auto simp: t_token_def supply_other supply_put received_owner received_amount Let_def split: option.splits)

lemma supply_action:
  assumes "\<not> sends_to_self env blk e" and "ie_string env [] ''op'' = []"
  shows "token_supply (t_action env blk (i, e) t) = token_supply t + minted env blk e"
proof (cases "insc_input env blk e")
  case None
  then show ?thesis by (simp add: t_action_def minted_def)
next
  case (Some inp)
  obtain w to where inp: "inp = (w, to)" by (cases inp)
  have self: "e_sender e \<noteq> to" if "ie_string env (payload_of w) ''op'' = ''transfer''"
    using assms(1) Some inp that by (auto simp: sends_to_self_def)
  show ?thesis
  proof (cases "ParseDataURI w")
    case (Inr u)
    then show ?thesis using Some inp self supply_token [of env "du_data u" e to]
      by (simp add: t_action_def minted_def payload_of_def supply_other)
  next
    case (Inl err)
    obtain go t1 where tr: "t_transfer blk i e (w, to) (t_raw blk i e (w, to) t) = (go, t1)" by fastforce
    then have "token_supply t1 = token_supply t" by (simp add: supply_transfer supply_other)
    with tr Inl Some inp assms(2) supply_token [of env "[]" e to]
    show ?thesis by (simp add: t_action_def minted_def payload_of_def supply_other empty_uri_def)
  qed
qed

text \<open>
  C23: Transfers to others neither make nor destroy tokens. In a block in which nobody transfers to himself,
  no statement is refused and no tick that is deployed has a dash, the sum of the newest amounts of all
  holders grows by what is minted, in 64-bit arithmetic; gjson finds no operation in an empty text.
\<close>

theorem inscription_tokens_conserved:
  assumes "unfaulted env" and "\<forall>e \<in> set (b_actions blk). dashless_action env blk e \<and> \<not> sends_to_self env blk e"
    and "ie_string env [] ''op'' = []"
  shows "token_supply (store_rows env (insc_block env blk db) db) =
    token_supply db + sum_list (map (minted env blk) (b_actions blk))"
proof -
  have "token_supply (fold (t_action env blk) ies t) = token_supply t + sum_list (map (minted env blk \<circ> snd) ies)"
    if "\<forall>(i, e) \<in> set ies. \<not> sends_to_self env blk e" for ies t
    using that
  proof (induction ies arbitrary: t)
    case (Cons ie ies)
    then show ?case using supply_action [OF _ assms(3)] by (cases ie) (simp add: add.assoc)
  qed simp
  moreover have "\<forall>(i, e) \<in> set (enumerate 0 (b_actions blk)). \<not> sends_to_self env blk e"
    using assms(2) by (auto simp: in_set_enumerate_eq)
  ultimately have "token_supply (fold (t_action env blk) (enumerate 0 (b_actions blk)) db) =
      token_supply db + sum_list (map (minted env blk) (b_actions blk))"
    by (simp add: map_map [symmetric] del: map_map)
  moreover have "store_rows env (insc_block env blk db) db = fold (t_action env blk) (enumerate 0 (b_actions blk)) db"
    using block_refines [OF assms(1)] assms(2) by blast
  ultimately show ?thesis by simp
qed

text \<open>The part of an operation on tokens that a transfer to oneself is.\<close>

lemma self_send_held:
  assumes "t_holding t (e_sender e) = Some r" and "ie_uint env d ''amt'' \<le> th_amount r"
    and "ie_string env d ''op'' = ''transfer''"
  shows "held (t_token env blk i e (e_sender e) d t) (e_sender e) = th_amount r + ie_uint env d ''amt''"
proof -
  have other: "held (u\<lparr>ic_transactions := xs\<rparr>) a = held u a" for u xs a by (simp add: held_def t_holding_def)
  have "held t (e_sender e) = th_amount r" by (simp add: held_def assms(1))
  then show ?thesis
    using assms by (simp add: t_token_def t_send_def other held_put received_owner received_amount not_less [symmetric])
qed

text \<open>
  C39: A transfer to oneself makes tokens. When the only operation of a block is a transfer whose sender is
  its recipient and holds the amount, the block that the plugin stores leaves him his old amount plus
  the amount sent: the holding of the recipient is read before the one of the sender is put down.
\<close>

theorem self_transfer_mints:
  assumes "unfaulted env" and "b_actions blk = [e]" and "insc_input env blk e = Some (w, e_sender e)"
    and "ParseDataURI w = Inr u" and "ie_string env (du_data u) ''op'' = ''transfer''"
    and "last_row (\<lambda>h. th_owner h = e_sender e) (ic_token_holders db) = Some r"
    and "ie_uint env (du_data u) ''amt'' \<le> th_amount r"
  shows "\<exists>h. last_row (\<lambda>h. th_owner h = e_sender e) (ic_token_holders (store_rows env (insc_block env blk db) db)) = Some h \<and>
    th_amount h = th_amount r + ie_uint env (du_data u) ''amt''"
proof -
  let ?t = "t_create blk 0 e u (t_raw blk 0 e (w, e_sender e) db)"
  have "dashless_action env blk e" using assms(3-5) by (simp add: dashless_action_def dashless_def payload_of_def)
  then have stored: "store_rows env (insc_block env blk db) db = t_token env blk 0 e (e_sender e) (du_data u) ?t"
    using block_refines [OF assms(1), of blk db] assms(2-4) by (simp add: t_action_def)
  have "t_holding ?t (e_sender e) = Some r" using assms(6) by (simp add: t_holding_def t_create_def t_raw_def)
  from self_send_held [OF this assms(7,5), of blk 0]
  have held: "held (store_rows env (insc_block env blk db) db) (e_sender e) = th_amount r + ie_uint env (du_data u) ''amt''"
    by (simp add: stored)
  have "t_holding (store_rows env (insc_block env blk db) db) (e_sender e) \<noteq> None"
    using \<open>t_holding ?t (e_sender e) = Some r\<close> assms(5,7)
    by (simp add: stored t_token_def t_send_def t_put_def t_holding_def t_received_def last_row_def not_less [symmetric]
        split: option.splits)
  with held show ?thesis by (auto simp: held_def t_holding_def)
qed

subsection \<open>Owners of inscriptions\<close>

definition owner_of :: "insc_rows \<Rightarrow> string \<Rightarrow> string option" where
  "owner_of t h = map_option ih_owner (t_holder t h)"

lemma owner_other:
  "owner_of (t_raw blk i e inp t) h = owner_of t h" "owner_of (t_token env blk i e to d t) h = owner_of t h"
  by (auto simp: owner_of_def t_holder_def t_raw_def t_token_def t_deploy_def t_send_def t_put_def Let_def split: option.splits)

lemma owner_create:
  "owner_of (t_create blk i e uri t) h = (if hex_encode (e_hash e) = h then Some (e_sender e) else owner_of t h)"
  by (simp add: owner_of_def t_holder_def t_create_def)

lemma owner_transfer:
  assumes "t_transfer blk i e (w, to) t = (go, t')"
  shows "owner_of t' h = (if go \<and> w = h then Some to else owner_of t h) \<and> (go \<longrightarrow> owner_of t w = Some (e_sender e))"
proof (cases go)
  case False
  with assms show ?thesis
    by (auto simp: t_transfer_def owner_of_def t_holder_def Let_def split: if_splits option.splits)
next
  case True
  with assms obtain ho where ho: "t_holder t w = Some ho" "ih_owner ho = e_sender e"
    and t': "ic_holders t' = ic_holders t @ [ho\<lparr>ih_time := b_timestamp blk\<rparr>,
        \<lparr>ih_owner = to, ih_inscription = w, ih_time = b_timestamp blk\<rparr>]"
    by (auto simp: t_transfer_def Let_def split: if_splits option.splits)
  have "ih_inscription ho = w" using t_holder_hash [OF ho(1)] .
  then show ?thesis
    using True ho by (simp add: owner_of_def t_holder_def t' last_row_append) (simp add: last_row_def)
qed

lemma owner_action:
  assumes "owner_of t h = Some a" and "hex_encode (e_hash e) \<noteq> h"
    and "\<And>to. insc_input env blk e = Some (h, to) \<Longrightarrow> e_sender e \<noteq> a"
  shows "owner_of (t_action env blk (i, e) t) h = Some a"
proof (cases "insc_input env blk e")
  case None
  then show ?thesis using assms(1) by (simp add: t_action_def)
next
  case (Some inp)
  obtain w to where inp: "inp = (w, to)" by (cases inp)
  show ?thesis
  proof (cases "ParseDataURI w")
    case (Inr u)
    then show ?thesis using Some inp assms(1,2) by (simp add: t_action_def owner_other owner_create)
  next
    case (Inl err)
    obtain go t1 where tr: "t_transfer blk i e (w, to) (t_raw blk i e (w, to) t) = (go, t1)" by fastforce
    from owner_transfer [OF tr] assms(1,3) Some inp have "owner_of t1 h = Some a"
      by (auto simp: owner_other split: if_splits)
    with Inl Some inp tr assms(2) show ?thesis by (simp add: t_action_def owner_other owner_create)
  qed
qed

text \<open>
  C32: Only its owner passes an inscription on. Whoever holds an inscription before a block holds it
  after the block as well, unless the block has an action that he sent and whose data is the hash of the
  inscription; the hash is not that of an action of the block itself.
\<close>

theorem inscription_moves_by_owner:
  assumes "unfaulted env" and "\<forall>e \<in> set (b_actions blk). dashless_action env blk e \<and> hex_encode (e_hash e) \<noteq> h"
    and "owner_of db h = Some a" and "owner_of (store_rows env (insc_block env blk db) db) h \<noteq> Some a"
  shows "\<exists>e \<in> set (b_actions blk). e_sender e = a \<and> (\<exists>to. insc_input env blk e = Some (h, to))"
proof (rule ccontr)
  assume none: "\<not> ?thesis"
  have "owner_of (fold (t_action env blk) ies t) h = Some a"
    if "owner_of t h = Some a" and "\<forall>(i, e) \<in> set ies. e \<in> set (b_actions blk)" for ies t
    using that
  proof (induction ies arbitrary: t)
    case (Cons ie ies)
    obtain i e where ie: "ie = (i, e)" by (cases ie)
    have "owner_of (t_action env blk (i, e) t) h = Some a"
      by (rule owner_action) (use Cons.prems none assms(2) ie in auto)
    then show ?case using Cons ie by simp
  qed simp
  moreover have "\<forall>(i, e) \<in> set (enumerate 0 (b_actions blk)). e \<in> set (b_actions blk)"
    by (auto simp: in_set_enumerate_eq)
  moreover have "store_rows env (insc_block env blk db) db = fold (t_action env blk) (enumerate 0 (b_actions blk)) db"
    using block_refines [OF assms(1)] assms(2) by blast
  ultimately show False using assms(3,4) by simp
qed

subsection \<open>Hashes are not data URIs\<close>

lemma data_uri_has_colon: "find_submatch dataURIRegexp s = Some g \<Longrightarrow> CHR '':'' \<in> set s"
proof (induction s rule: length_induct)
  case (1 s)
  show ?case
  proof (cases "strip_prefix ''data:'' s")
    case Nil
    then have "matches dataURIRegexp s Map.empty = []" by (simp add: dataURIRegexp_def)
    with "1.prems" obtain c cs where "s = c # cs" "find_submatch dataURIRegexp cs = Some g"
      by (subst (asm) find_submatch.simps) (auto split: list.splits)
    then show ?thesis using "1.IH" by auto
  next
    case (Cons x xs)
    then have "take 5 s = ''data:''" by (auto simp: strip_prefix_def eval_nat_numeral split: if_splits)
    then have "CHR '':'' \<in> set (take 5 s)" by simp
    then show ?thesis by (rule in_set_takeD)
  qed
qed

lemma hash_no_uri: "isHash w \<Longrightarrow> ParseDataURI w = Inl (Err ''invalid data uri'')"
proof -
  assume "isHash w"
  then have "CHR '':'' \<notin> set w" by (auto simp: isHash_def is_hex_char_def)
  then have "find_submatch dataURIRegexp w = None" using data_uri_has_colon by (metis option.exhaust)
  then show ?thesis by (simp add: ParseDataURI_def)
qed

text \<open>
  Passing an inscription on creates another. After a transfer by the owner the code goes on to the
  creation of an inscription, with the empty parts of a text that is none: the action that passed on an
  inscription becomes one itself, and its sender the holder of it.
\<close>

theorem transfer_also_creates:
  assumes "insc_input env blk e = Some (h, to)" and "isHash h" and "in_store t h" and "owner_of t h = Some (e_sender e)"
  shows "last (ic_inscriptions (t_action env blk (i, e) t)) =
      \<lparr>in_height = b_height blk, in_hash = hex_encode (e_hash e), in_index = i, in_uri = empty_uri\<rparr> \<and>
    owner_of (t_action env blk (i, e) t) (hex_encode (e_hash e)) = Some (e_sender e) \<and>
    (hex_encode (e_hash e) \<noteq> h \<longrightarrow> owner_of (t_action env blk (i, e) t) h = Some to)"
proof -
  obtain go t1 where tr: "t_transfer blk i e (h, to) (t_raw blk i e (h, to) t) = (go, t1)" by fastforce
  have "in_store (t_raw blk i e (h, to) t) h" using assms(3) by (simp add: in_store_def t_raw_def)
  with tr assms(2,4) owner_other(1) [of blk i e "(h, to)" t h] have go: "go"
    by (auto simp: t_transfer_def owner_of_def Let_def split: option.splits if_splits)
  have step: "t_action env blk (i, e) t = t_token env blk i e to [] (t_create blk i e empty_uri t1)"
    using assms(1) tr go hash_no_uri [OF assms(2)] by (simp add: t_action_def empty_uri_def)
  have keep: "ic_inscriptions (t_token env blk i e to d u) = ic_inscriptions u" for d u
    by (auto simp: t_token_def t_deploy_def t_send_def t_put_def Let_def split: option.splits)
  show ?thesis
    using owner_transfer [OF tr, of h] go by (simp add: step keep owner_other owner_create) (simp add: t_create_def)
qed

subsection \<open>Examples\<close>

text \<open>Texts by action hash: a mint of 5, a transfer of 3, and the hash of an inscription.\<close>

definition ascii_bytes :: "string \<Rightarrow> byte list" where
  "ascii_bytes s = map (\<lambda>c. word_of_nat (of_char c)) s"

definition sample_hash :: string where
  "sample_hash = replicate 64 CHR ''a''"

definition sample_text :: "hash256 \<Rightarrow> string" where
  "sample_text h = (if h = [1] then ''data:,mint'' else if h = [2] then ''data:,transfer'' else sample_hash)"

definition sample_insc :: insc_env where
  "sample_insc = \<lparr>ie_eth = (\<lambda>e. Inr (ascii_bytes (sample_text (e_hash e)), Some ''io1b'')),
     ie_string = (\<lambda>d k. if d = [] then [] else if k = ''op'' then d else ''ordi''),
     ie_uint = (\<lambda>d k. if d = ''mint'' then 5 else 3), ie_fault = (\<lambda>h i r. False), ie_stored = (\<lambda>_. True)\<rparr>"

definition insc_sample_block :: "u8 list \<Rightarrow> block" where
  "insc_sample_block hs = \<lparr>b_height = 7, b_timestamp = 0,
     b_actions = map (\<lambda>n. \<lparr>e_hash = [n], e_sender = ''io1a'', e_action = OtherAction ''Execution''\<rparr>) hs,
     b_receipts = map (\<lambda>n. \<lparr>r_status = 1, r_action_hash = [n], r_gas_consumed = 0, r_tx_index = 0, r_logs = [], r_tx_logs = []\<rparr>) hs\<rparr>"

lemma utf8_ascii: "\<forall>b \<in> set bs. b < 0x80 \<Longrightarrow> utf8_valid bs"
  by (induction bs) auto

lemma ascii_text:
  assumes "\<forall>c \<in> set s. 0 < (of_char c :: nat) \<and> (of_char c :: nat) < 128"
  shows "bytesToUTF8 (ascii_bytes s) = Inr s"
proof -
  have again: "char_of (unat (word_of_nat (of_char c) :: byte)) = c" for c
    by (simp add: unat_of_nat)
  have "utf8_valid (ascii_bytes s)"
    by (rule utf8_ascii) (use assms in \<open>auto simp: ascii_bytes_def word_less_nat_alt unat_of_nat\<close>)
  moreover have "filter (\<lambda>c. c \<noteq> CHR 0x00) s = s"
    by (rule filter_True) (use assms in auto)
  ultimately show ?thesis by (simp add: bytesToUTF8_def) (simp add: ascii_bytes_def comp_def again)
qed

lemma sample_nonempty: "sample_hash \<noteq> []"
  by (simp add: sample_hash_def)

lemma sample_inputs:
  "insc_input sample_insc (insc_sample_block [1, 2]) \<lparr>e_hash = [1], e_sender = a, e_action = x\<rparr> = Some (''data:,mint'', ''io1b'')"
  "insc_input sample_insc (insc_sample_block [1, 2]) \<lparr>e_hash = [2], e_sender = a, e_action = x\<rparr> = Some (''data:,transfer'', ''io1b'')"
  "insc_input sample_insc (insc_sample_block [3]) \<lparr>e_hash = [3], e_sender = a, e_action = x\<rparr> = Some (sample_hash, ''io1b'')"
proof -
  have texts: "bytesToUTF8 (ascii_bytes ''data:,mint'') = Inr ''data:,mint''"
    "bytesToUTF8 (ascii_bytes ''data:,transfer'') = Inr ''data:,transfer''"
    "bytesToUTF8 (ascii_bytes sample_hash) = Inr sample_hash"
    by (rule ascii_text; simp add: sample_hash_def)+
  have nonempty: "ascii_bytes s = [] \<longleftrightarrow> s = []" for s by (simp add: ascii_bytes_def)
  show "insc_input sample_insc (insc_sample_block [1, 2]) \<lparr>e_hash = [1], e_sender = a, e_action = x\<rparr> = Some (''data:,mint'', ''io1b'')"
    "insc_input sample_insc (insc_sample_block [1, 2]) \<lparr>e_hash = [2], e_sender = a, e_action = x\<rparr> = Some (''data:,transfer'', ''io1b'')"
    using texts nonempty by (simp_all add: insc_input_def receipt_of_def sample_insc_def insc_sample_block_def sample_text_def receipt_success_def)
  show "insc_input sample_insc (insc_sample_block [3]) \<lparr>e_hash = [3], e_sender = a, e_action = x\<rparr> = Some (sample_hash, ''io1b'')"
    using texts nonempty by (simp add: insc_input_def receipt_of_def sample_insc_def insc_sample_block_def sample_text_def
        receipt_success_def sample_nonempty)
qed

lemma sample_payloads: "payload_of ''data:,mint'' = ''mint''" "payload_of ''data:,transfer'' = ''transfer''"
  using parse_printed [of None "[]" "''mint''" False] parse_printed [of None "[]" "''transfer''" False]
  by (simp_all add: payload_of_def print_uri_def print_mime_def print_parameters_def print_payload_def clean_mime_def)

lemma sample_hash_isHash: "isHash sample_hash"
  by (simp add: isHash_def sample_hash_def is_hex_char_def)

lemma sample_unfaulted: "unfaulted sample_insc"
  by (simp add: unfaulted_def sample_insc_def)

lemma sample_dashless: "dashless_action sample_insc blk e"
  by (simp add: dashless_action_def dashless_def sample_insc_def no_dash_def)

theorem inscription_tokens_conserved_witness:
  "token_supply (store_rows sample_insc (insc_block sample_insc (insc_sample_block [1, 2]) no_insc_rows) no_insc_rows) = 5"
proof -
  let ?blk = "insc_sample_block [1, 2]"
  have acts: "b_actions ?blk = [\<lparr>e_hash = [1], e_sender = ''io1a'', e_action = OtherAction ''Execution''\<rparr>,
      \<lparr>e_hash = [2], e_sender = ''io1a'', e_action = OtherAction ''Execution''\<rparr>]" by (simp add: insc_sample_block_def)
  have "\<forall>e \<in> set (b_actions ?blk). dashless_action sample_insc ?blk e \<and> \<not> sends_to_self sample_insc ?blk e"
    by (simp add: acts sample_dashless sends_to_self_def sample_inputs)
  from inscription_tokens_conserved [OF sample_unfaulted this]
  have "token_supply (store_rows sample_insc (insc_block sample_insc ?blk no_insc_rows) no_insc_rows) =
      token_supply no_insc_rows + sum_list (map (minted sample_insc ?blk) (b_actions ?blk))"
    by (simp add: sample_insc_def)
  then show ?thesis
    by (simp add: acts minted_def sample_inputs sample_payloads) (simp add: sample_insc_def token_supply_def no_insc_rows_def)
qed

theorem inscription_block_is_sequential_witness:
  "store_rows sample_insc (insc_block sample_insc (insc_sample_block [1, 2]) no_insc_rows) no_insc_rows =
    fold (t_action sample_insc (insc_sample_block [1, 2])) (enumerate 0 (b_actions (insc_sample_block [1, 2]))) no_insc_rows"
  by (rule inscription_block_is_sequential) (simp_all add: sample_unfaulted sample_dashless)

definition self_block :: block where
  "self_block = (insc_sample_block [1, 2])\<lparr>b_actions := [\<lparr>e_hash = [2], e_sender = ''io1b'', e_action = OtherAction ''Execution''\<rparr>]\<rparr>"

lemma self_block_input:
  "insc_input sample_insc self_block \<lparr>e_hash = [2], e_sender = a, e_action = x\<rparr> = Some (''data:,transfer'', ''io1b'')"
  using sample_inputs(2) [of a x] by (simp add: insc_input_def receipt_of_def self_block_def)

theorem self_transfer_mints_witness:
  "\<exists>h. last_row (\<lambda>h. th_owner h = ''io1b'') (ic_token_holders (store_rows sample_insc (insc_block sample_insc self_block
      (t_put \<lparr>th_owner = ''io1b'', th_protocol = [], th_tick = [], th_amount = 4, th_time = 0\<rparr> no_insc_rows))
      (t_put \<lparr>th_owner = ''io1b'', th_protocol = [], th_tick = [], th_amount = 4, th_time = 0\<rparr> no_insc_rows))) = Some h \<and>
    th_amount h = 7"
proof -
  obtain u where u: "ParseDataURI ''data:,transfer'' = Inr u" "du_data u = ''transfer''"
    using sample_payloads(2) by (cases "ParseDataURI ''data:,transfer''") (auto simp: payload_of_def)
  have acts: "b_actions self_block = [\<lparr>e_hash = [2], e_sender = ''io1b'', e_action = OtherAction ''Execution''\<rparr>]"
    by (simp add: self_block_def)
  show ?thesis
    using self_transfer_mints [OF sample_unfaulted acts, where w = "''data:,transfer''" and u = u
        and db = "t_put \<lparr>th_owner = ''io1b'', th_protocol = [], th_tick = [], th_amount = 4, th_time = 0\<rparr> no_insc_rows"
        and r = "\<lparr>th_owner = ''io1b'', th_protocol = [], th_tick = [], th_amount = 4, th_time = 0\<rparr>"] u
    by (simp add: self_block_input) (simp add: sample_insc_def t_put_def no_insc_rows_def last_row_def)
qed

text \<open>An inscription held by io1a, passed on to io1b.\<close>

definition insc_held :: insc_rows where
  "insc_held = t_create (insc_sample_block [3]) 0 \<lparr>e_hash = replicate 32 170, e_sender = ''io1a'', e_action = OtherAction ''Execution''\<rparr>
     empty_uri no_insc_rows"

lemma hex_replicate: "hex_encode (replicate n 170) = replicate (n + n) CHR ''a''"
proof (induction n)
  case (Suc n)
  have "hex_digit 10 = CHR ''a''" by code_simp
  with Suc show ?case by (simp add: hex_encode_def)
qed (simp add: hex_encode_def)

lemma held_hash: "hex_encode (replicate 32 170) = sample_hash"
  unfolding sample_hash_def hex_replicate by simp

lemma insc_held_facts: "in_store insc_held sample_hash" "owner_of insc_held sample_hash = Some ''io1a''"
  by (simp_all add: insc_held_def owner_create held_hash) (simp add: in_store_def t_create_def held_hash)

lemma short_hash: "hex_encode [3] \<noteq> sample_hash"
proof -
  have "length (hex_encode [3]) = 2" "length sample_hash = 64" by (simp_all add: hex_encode_def sample_hash_def)
  then show ?thesis by force
qed

theorem transfer_also_creates_witness:
  "owner_of (t_action sample_insc (insc_sample_block [3]) (0, \<lparr>e_hash = [3], e_sender = ''io1a'', e_action = OtherAction ''Execution''\<rparr>)
     insc_held) (hex_encode [3]) = Some ''io1a''"
  using transfer_also_creates [OF sample_inputs(3) sample_hash_isHash insc_held_facts(1), of "''io1a''"] insc_held_facts(2)
  by simp

lemma passed_on:
  "owner_of (t_action sample_insc (insc_sample_block [3]) (0, \<lparr>e_hash = [3], e_sender = ''io1a'', e_action = OtherAction ''Execution''\<rparr>)
     insc_held) sample_hash = Some ''io1b''"
proof -
  let ?e = "\<lparr>e_hash = [3], e_sender = ''io1a'', e_action = OtherAction ''Execution''\<rparr>" and ?b = "insc_sample_block [3]"
  let ?t = "t_raw ?b 0 ?e (sample_hash, ''io1b'') insc_held"
  obtain go t1 where tr: "t_transfer ?b 0 ?e (sample_hash, ''io1b'') ?t = (go, t1)" by fastforce
  have "in_store ?t sample_hash" using insc_held_facts(1) by (simp add: in_store_def t_raw_def)
  moreover have "owner_of ?t sample_hash = Some ''io1a''" using insc_held_facts(2) by (simp add: owner_other)
  ultimately have go using tr sample_hash_isHash by (auto simp: t_transfer_def owner_of_def Let_def split: option.splits if_splits)
  then show ?thesis
    using owner_transfer [OF tr, of sample_hash] tr hash_no_uri [OF sample_hash_isHash] short_hash
    by (simp add: t_action_def sample_inputs owner_other owner_create)
qed

theorem inscription_moves_by_owner_witness:
  "\<exists>e \<in> set (b_actions (insc_sample_block [3])). e_sender e = ''io1a'' \<and>
     (\<exists>to. insc_input sample_insc (insc_sample_block [3]) e = Some (sample_hash, to))"
proof (rule inscription_moves_by_owner [OF sample_unfaulted])
  let ?b = "insc_sample_block [3]"
  have acts: "b_actions ?b = [\<lparr>e_hash = [3], e_sender = ''io1a'', e_action = OtherAction ''Execution''\<rparr>]"
    by (simp add: insc_sample_block_def)
  show "\<forall>e \<in> set (b_actions ?b). dashless_action sample_insc ?b e \<and> hex_encode (e_hash e) \<noteq> sample_hash"
    by (simp add: acts sample_dashless short_hash)
  show "owner_of insc_held sample_hash = Some ''io1a''" by (rule insc_held_facts)
  have "store_rows sample_insc (insc_block sample_insc ?b insc_held) insc_held =
      fold (t_action sample_insc ?b) (enumerate 0 (b_actions ?b)) insc_held"
    by (rule block_refines) (simp_all add: sample_unfaulted sample_dashless)
  then show "owner_of (store_rows sample_insc (insc_block sample_insc ?b insc_held) insc_held) sample_hash \<noteq> Some ''io1a''"
    using passed_on by (simp add: acts)
qed

end
