(* ===== verification/Erc20.thy ===== *)
theory Erc20
  imports TokenEvents BufferedSink
begin

text \<open>
  The ERC-20 plugins: erc20, erc20_v2 and erc20_ch. Which contracts are ERC-20, the rows of a log,
  and the three ways of keeping rows until they are written: erc20 takes them out of the plugin before
  its transaction, erc20_v2 empties each slice in the transaction, erc20_ch works on a copy of
  the plugin and writes to ClickHouse.
\<close>

subsection \<open>Which contracts are ERC-20\<close>

definition transferSha3 :: string where
  "transferSha3 = ''ddf252ad1be2c89b69c2b068fc378daa952ba7f163c4a11628f55a4df523b3ef''"

definition depositSha3 :: string where
  "depositSha3 = ''e1fffcc4923d04b559f4d29a8bfc6cda04eb5b0d3c460751c2402c5c5cc9109c''"

definition withdrawalSha3 :: string where
  "withdrawalSha3 = ''7fcf532c15f0a6db0bd6d0e038bea71d30d808c7d98cb3bf7268a95bf5081b65''"

definition approvalSha3 :: string where
  "approvalSha3 = ''8c5be1e5ebec7d5bd14f71427d1e84f3dd0314c0f7b2291e5b200ac8c7c3b925''"

definition totalSupplyString :: string where
  "totalSupplyString = ''18160ddd''"

definition balanceOfString :: string where
  "balanceOfString = ''70a08231000000000000000000000000fea7d8ac16886585f1c232f13fefc3cfa26eb4cc''"

definition allowanceString :: string where
  "allowanceString = ''dd62ed3e000000000000000000000000fea7d8ac16886585f1c232f13fefc3cfa26eb4cc000000000000000000000000fea7d8ac16886585f1c232f13fefc3cfa26eb4cc''"

definition approveString :: string where
  "approveString = ''095ea7b3000000000000000000000000fea7d8ac16886585f1c232f13fefc3cfa26eb4cc0000000000000000000000000000000000000000000000000000000000000001''"

definition checkTopics :: "string \<Rightarrow> string \<Rightarrow> bool" where
  "checkTopics topics data \<longleftrightarrow>
     \<not> (topics = [] \<or> 192 < length topics \<or> 192 < length data) \<and>
     (str_contains topics transferSha3 \<or> str_contains topics depositSha3 \<or> str_contains topics withdrawalSha3
       \<or> str_contains topics approvalSha3)"

text \<open>
  From outside: the node's ReadContract on an address and call data in hexadecimal, its receipt
  status and data; and UnpackLog for the four events, with the addresses as strings.
\<close>

record erc20_env =
  e2_read :: "string \<Rightarrow> string \<Rightarrow> (u64 \<times> string) res"
  e2_transfer :: "log \<Rightarrow> (string \<times> string \<times> int) res" \<comment> \<open>from, to, value\<close>
  e2_approval :: "log \<Rightarrow> (string \<times> string \<times> int) res" \<comment> \<open>owner, spender, value\<close>
  e2_deposit :: "log \<Rightarrow> (string \<times> int) res"
  e2_withdrawal :: "log \<Rightarrow> (string \<times> int) res"

definition readContract :: "erc20_env \<Rightarrow> string \<Rightarrow> string \<Rightarrow> bool" where
  "readContract env addr callData =
     (case e2_read env addr callData of
        Inl _ \<Rightarrow> False
      | Inr (status, ret) \<Rightarrow> (status = 1 \<or> status = 106) \<and> ret \<noteq> [])"

text \<open>The four calls; \<open>cached_check\<close> keeps the answer in one of two maps.\<close>

definition erc20_probe :: "erc20_env \<Rightarrow> string \<Rightarrow> bool" where
  "erc20_probe env addr \<longleftrightarrow>
     readContract env addr totalSupplyString \<and> readContract env addr balanceOfString \<and>
     readContract env addr allowanceString \<and> readContract env addr approveString"

definition isErc20 :: "erc20_env \<Rightarrow> string \<Rightarrow> string \<Rightarrow> string \<Rightarrow> contract_cache \<Rightarrow> bool res \<times> contract_cache" where
  "isErc20 env addr topics data c =
     (if \<not> checkTopics topics data then (Inr False, c)
      else cached_check (\<lambda>a. Inr (erc20_probe env a)) addr c)"

subsection \<open>The rows of a log\<close>

record erc20_transfer =
  x2_height :: u64
  x2_hash :: string
  x2_contract :: string
  x2_amount :: int
  x2_sender :: string
  x2_recipient :: string
  x2_time :: int

record erc20_approval =
  a2_height :: u64
  a2_hash :: string
  a2_contract :: string
  a2_amount :: int
  a2_owner :: string
  a2_spender :: string
  a2_time :: int

record erc20_holder =
  h2_contract :: string
  h2_holder :: string

text \<open>The tables, and the slices of the plugin.\<close>

record erc20_rows =
  e2_transfers :: "erc20_transfer list"
  e2_approvals :: "erc20_approval list"
  e2_holders :: "erc20_holder list"

definition no_erc20_rows :: erc20_rows where
  "no_erc20_rows = \<lparr>e2_transfers = [], e2_approvals = [], e2_holders = []\<rparr>"

definition transfer_row :: "block \<Rightarrow> receipt \<Rightarrow> log \<Rightarrow> string \<Rightarrow> string \<Rightarrow> int \<Rightarrow> erc20_transfer" where
  "transfer_row blk r l sender recipient v = \<lparr>x2_height = b_height blk, x2_hash = hex_encode (r_action_hash r),
     x2_contract = log_address l, x2_amount = v, x2_sender = sender, x2_recipient = recipient, x2_time = b_timestamp blk\<rparr>"

definition approval_row :: "block \<Rightarrow> receipt \<Rightarrow> log \<Rightarrow> string \<Rightarrow> string \<Rightarrow> int \<Rightarrow> erc20_approval" where
  "approval_row blk r l holder spender v = \<lparr>a2_height = b_height blk, a2_hash = hex_encode (r_action_hash r),
     a2_contract = log_address l, a2_amount = v, a2_owner = holder, a2_spender = spender, a2_time = b_timestamp blk\<rparr>"

text \<open>The switch: transfers, approvals and the addresses that become holders.\<close>

type_synonym erc20_event = "erc20_transfer list \<times> erc20_approval list \<times> string list"

definition erc20_event :: "erc20_env \<Rightarrow> block \<Rightarrow> receipt \<Rightarrow> log \<Rightarrow> erc20_event res" where
  "erc20_event env blk r l =
     (let topic = hex_encode (log_topics l ! 0) in
      if topic = transferSha3 then
        bindE (e2_transfer env l) (\<lambda>(sender, recipient, v).
          Inr ([transfer_row blk r l sender recipient v], [], [sender, recipient]))
      else if topic = approvalSha3 then
        bindE (e2_approval env l) (\<lambda>(holder, spender, v). Inr ([], [approval_row blk r l holder spender v], []))
      else if topic = depositSha3 then
        bindE (e2_deposit env l) (\<lambda>(dst, v). Inr ([transfer_row blk r l [] dst v], [], [dst]))
      else if topic = withdrawalSha3 then
        bindE (e2_withdrawal env l) (\<lambda>(src, v). Inr ([transfer_row blk r l src [] v], [], [src]))
      else Inr ([], [], []))"

text \<open>\<open>add\<close> puts the holders into the plugin: a map in erc20, a slice in erc20_v2 and erc20_ch.\<close>

definition add_event ::
  "(erc20_holder \<Rightarrow> erc20_holder list \<Rightarrow> erc20_holder list) \<Rightarrow> log \<Rightarrow> erc20_event \<Rightarrow> erc20_rows \<Rightarrow> erc20_rows" where
  "add_event add l ev rows =
     (case ev of (ts, as, hs) \<Rightarrow>
        \<lparr>e2_transfers = e2_transfers rows @ ts, e2_approvals = e2_approvals rows @ as,
         e2_holders = fold (\<lambda>a. add \<lparr>h2_contract = log_address l, h2_holder = a\<rparr>) hs (e2_holders rows)\<rparr>)"

definition slice_add :: "erc20_holder \<Rightarrow> erc20_holder list \<Rightarrow> erc20_holder list" where
  "slice_add h hs = hs @ [h]"

definition map_add_holder :: "erc20_holder \<Rightarrow> erc20_holder list \<Rightarrow> erc20_holder list" where
  "map_add_holder h hs = (if h2_holder h = [] \<or> h \<in> set hs then hs else hs @ [h])"

type_synonym erc20_plugin = "contract_cache \<times> erc20_rows"

definition topics_text :: "log \<Rightarrow> string" where
  "topics_text l = concat (map hex_encode (log_topics l))"

definition erc20_log ::
  "(erc20_holder \<Rightarrow> erc20_holder list \<Rightarrow> erc20_holder list) \<Rightarrow> erc20_env \<Rightarrow> block \<Rightarrow> receipt \<Rightarrow> log \<Rightarrow>
   erc20_plugin \<Rightarrow> unit res \<times> erc20_plugin" where
  "erc20_log add env blk r l p =
     (case p of (c, rows) \<Rightarrow>
        if log_address l = [] \<or> length (log_topics l) < 2 then (Inr (), p)
        else case isErc20 env (log_address l) (topics_text l) (hex_encode (log_data l)) c of
          (Inl err, c') \<Rightarrow> (Inl err, (c', rows))
        | (Inr ok, c') \<Rightarrow>
            if \<not> ok then (Inr (), (c', rows))
            else case erc20_event env blk r l of
              Inl err \<Rightarrow> (Inl err, (c', rows))
            | Inr ev \<Rightarrow> (Inr (), (c', add_event add l ev rows)))"

definition erc20_putBlock ::
  "(erc20_holder \<Rightarrow> erc20_holder list \<Rightarrow> erc20_holder list) \<Rightarrow> erc20_env \<Rightarrow> block \<Rightarrow> erc20_plugin \<Rightarrow> unit res \<times> erc20_plugin" where
  "erc20_putBlock add env blk =
     eachS (\<lambda>r. if r_status r \<noteq> receipt_success then decodedS (Inr ())
                else eachS (erc20_log add env blk r) (r_logs r)) (b_receipts blk)"

subsection \<open>erc20\<close>

text \<open>
  The map of holders is ranged over in an order of Go's own. The table has no unique index, so
  \<open>ON CONFLICT DO NOTHING\<close> never finds a conflict.
\<close>

definition erc20_map_putBlock :: "erc20_env \<Rightarrow> block \<Rightarrow> erc20_plugin \<Rightarrow> unit res \<times> erc20_plugin" where
  "erc20_map_putBlock env = erc20_putBlock map_add_holder env"

definition erc20_flush :: "(erc20_holder list \<Rightarrow> erc20_holder list) \<Rightarrow> erc20_plugin \<Rightarrow> erc20_rows \<Rightarrow> erc20_rows res" where
  "erc20_flush order p t = Inr \<lparr>e2_transfers = e2_transfers t @ e2_transfers (snd p),
     e2_approvals = e2_approvals t @ e2_approvals (snd p), e2_holders = e2_holders t @ order (e2_holders (snd p))\<rparr>"

definition erc20_clear :: "erc20_plugin \<Rightarrow> erc20_plugin" where
  "erc20_clear p = (fst p, no_erc20_rows)"

definition erc20_commit ::
  "(erc20_holder list \<Rightarrow> erc20_holder list) \<Rightarrow> tx_faults \<Rightarrow> u64 \<Rightarrow> erc20_plugin \<times> erc20_rows world \<Rightarrow>
   unit res \<times> erc20_plugin \<times> erc20_rows world" where
  "erc20_commit order f = buf_commit f ''erc20'' (erc20_flush order) erc20_clear"

definition erc20_PutBlocks ::
  "(erc20_holder list \<Rightarrow> erc20_holder list) \<Rightarrow> erc20_env \<Rightarrow> tx_faults \<Rightarrow> block list \<Rightarrow> erc20_plugin \<times> erc20_rows world \<Rightarrow>
   unit res \<times> erc20_plugin \<times> erc20_rows world" where
  "erc20_PutBlocks order env f = buf_PutBlocks (erc20_map_putBlock env) (erc20_commit order f)"

definition erc20_PutBlock ::
  "(erc20_holder list \<Rightarrow> erc20_holder list) \<Rightarrow> erc20_env \<Rightarrow> tx_faults \<Rightarrow> block \<Rightarrow> erc20_plugin \<times> erc20_rows world \<Rightarrow>
   unit res \<times> erc20_plugin \<times> erc20_rows world" where
  "erc20_PutBlock order env f = buf_PutBlock (erc20_map_putBlock env) (erc20_commit order f)"

subsection \<open>erc20_v2\<close>

text \<open>Which insert the database refuses, and the faults of the transaction after the inserts.\<close>

record erc20_faults =
  f2_transfers :: bool
  f2_approvals :: bool
  f2_holders :: bool
  f2_tx :: tx_faults

definition no_erc20_faults :: erc20_faults where
  "no_erc20_faults = \<lparr>f2_transfers = False, f2_approvals = False, f2_holders = False, f2_tx = no_faults\<rparr>"

text \<open>The unique index on contract and holder: a row that is there is left alone.\<close>

definition insert_holder :: "erc20_holder \<Rightarrow> erc20_holder list \<Rightarrow> erc20_holder list" where
  "insert_holder h hs = (if h \<in> set hs then hs else hs @ [h])"

definition erc20_v2_store :: "erc20_rows \<Rightarrow> erc20_rows \<Rightarrow> erc20_rows" where
  "erc20_v2_store rows t = \<lparr>e2_transfers = e2_transfers t @ e2_transfers rows,
     e2_approvals = e2_approvals t @ e2_approvals rows, e2_holders = fold insert_holder (e2_holders rows) (e2_holders t)\<rparr>"

text \<open>Each slice is emptied right after its own insert, whether that was taken or not.\<close>

definition erc20_v2_commit ::
  "erc20_faults \<Rightarrow> u64 \<Rightarrow> erc20_plugin \<times> erc20_rows world \<Rightarrow> unit res \<times> erc20_plugin \<times> erc20_rows world" where
  "erc20_v2_commit f tip s =
     (case s of ((c, rows), w) \<Rightarrow>
        if e2_transfers rows \<noteq> [] \<and> f2_transfers f then (Inl DbError, (c, rows\<lparr>e2_transfers := []\<rparr>), w)
        else if e2_approvals rows \<noteq> [] \<and> f2_approvals f then
          (Inl DbError, (c, rows\<lparr>e2_transfers := [], e2_approvals := []\<rparr>), w)
        else if e2_holders rows \<noteq> [] \<and> f2_holders f then (Inl DbError, (c, no_erc20_rows), w)
        else (case index_tx (f2_tx f) ''erc20_v2'' (Inr tip) (\<lambda>t. Inr (erc20_v2_store rows t)) w of
                (r, w') \<Rightarrow> (r, (c, no_erc20_rows), w')))"

text \<open>The height of the batch is computed from its first block.\<close>

definition erc20_v2_PutBlocks ::
  "erc20_env \<Rightarrow> erc20_faults \<Rightarrow> block list \<Rightarrow> erc20_plugin \<times> erc20_rows world \<Rightarrow>
   unit res \<times> erc20_plugin \<times> erc20_rows world" where
  "erc20_v2_PutBlocks env f blks s =
     (case s of (p, w) \<Rightarrow>
        (case eachS (erc20_putBlock slice_add env) blks p of
           (Inl err, p') \<Rightarrow> (Inl err, p', w)
         | (Inr u, p') \<Rightarrow>
             (case idx blks 0 of
                Inl err \<Rightarrow> (Inl err, p', w)
              | Inr b \<Rightarrow> erc20_v2_commit f (b_height b + word_of_nat (length blks) - 1) (p', w))))"

definition erc20_v2_PutBlock ::
  "erc20_env \<Rightarrow> erc20_faults \<Rightarrow> block \<Rightarrow> erc20_plugin \<times> erc20_rows world \<Rightarrow>
   unit res \<times> erc20_plugin \<times> erc20_rows world" where
  "erc20_v2_PutBlock env f = buf_PutBlock (erc20_putBlock slice_add env) (erc20_v2_commit f)"

subsection \<open>erc20_ch\<close>

text \<open>
  The methods have value receivers: the slices are those of a copy, empty at the start and gone at the
  end. What ClickHouse took stays, whatever fails after it; the index height is in the other database.
  The time of the block in a holder row is left out.
\<close>

definition erc20_ch_putBlock :: "erc20_env \<Rightarrow> block \<Rightarrow> erc20_plugin \<Rightarrow> unit res \<times> erc20_plugin" where
  "erc20_ch_putBlock env = erc20_putBlock slice_add env"

definition erc20_ch_commit ::
  "erc20_faults \<Rightarrow> bool \<Rightarrow> u64 \<Rightarrow> erc20_rows \<Rightarrow> erc20_rows world \<Rightarrow> unit res \<times> erc20_rows world" where
  "erc20_ch_commit f height_ok tip rows w =
     (let t = tables w;
          t1 = t\<lparr>e2_transfers := e2_transfers t @ e2_transfers rows\<rparr>;
          t2 = t1\<lparr>e2_approvals := e2_approvals t @ e2_approvals rows\<rparr>;
          t3 = t2\<lparr>e2_holders := e2_holders t @ e2_holders rows\<rparr> in
      if e2_transfers rows \<noteq> [] \<and> f2_transfers f then (Inl DbError, w)
      else if e2_approvals rows \<noteq> [] \<and> f2_approvals f then (Inl DbError, w\<lparr>tables := t1\<rparr>)
      else if e2_holders rows \<noteq> [] \<and> f2_holders f then (Inl DbError, w\<lparr>tables := t2\<rparr>)
      else UpdateIndexHeight height_ok ''erc20_ch'' tip (w\<lparr>tables := t3\<rparr>))"

definition erc20_ch_PutBlocks ::
  "erc20_env \<Rightarrow> erc20_faults \<Rightarrow> bool \<Rightarrow> block list \<Rightarrow> contract_cache \<times> erc20_rows world \<Rightarrow>
   unit res \<times> contract_cache \<times> erc20_rows world" where
  "erc20_ch_PutBlocks env f height_ok blks s =
     (case s of (c, w) \<Rightarrow>
        (case eachS (erc20_ch_putBlock env) blks (c, no_erc20_rows) of
           (Inl err, (c', rows)) \<Rightarrow> (Inl err, c', w)
         | (Inr u, (c', rows)) \<Rightarrow>
             (case idx blks 0 of
                Inl err \<Rightarrow> (Inl err, c', w)
              | Inr b \<Rightarrow>
                  (case erc20_ch_commit f height_ok (b_height b + word_of_nat (length blks) - 1) rows w of
                     (r, w') \<Rightarrow> (r, c', w')))))"

definition erc20_ch_PutBlock ::
  "erc20_env \<Rightarrow> erc20_faults \<Rightarrow> bool \<Rightarrow> block \<Rightarrow> contract_cache \<times> erc20_rows world \<Rightarrow>
   unit res \<times> contract_cache \<times> erc20_rows world" where
  "erc20_ch_PutBlock env f height_ok blk s =
     (case s of (c, w) \<Rightarrow>
        (case erc20_ch_putBlock env blk (c, no_erc20_rows) of
           (Inl err, (c', rows)) \<Rightarrow> (Inl err, c', w)
         | (Inr u, (c', rows)) \<Rightarrow>
             (case erc20_ch_commit f height_ok (b_height blk) rows w of (r, w') \<Rightarrow> (r, c', w'))))"

end
