(* ===== verification/TokenTables.thy ===== *)
theory TokenTables
  imports TokenHoldersV1 Erc20
begin

text \<open>
  The plugins that keep the transfers and approvals of ERC-721 and ERC-1155 tokens: erc721 and erc1155,
  which write each event in the transaction of its block, erc721_v2 and erc1155_v2, which gather a batch, and
  erc721_v2_ch, which writes to ClickHouse. All go through the logs of a block in the same way and
  differ in which contracts they take for tokens and in where the rows go.
\<close>

subsection \<open>The logs of a block\<close>

text \<open>
  \<open>check\<close> decides whether a log is of a token contract, over the maps of contracts seen before, and
  \<open>rows\<close> adds the rows of the log.
\<close>

definition gated_log ::
  "(log \<Rightarrow> contract_cache \<Rightarrow> bool res \<times> contract_cache) \<Rightarrow> (block \<Rightarrow> receipt \<Rightarrow> log \<Rightarrow> 'r \<Rightarrow> 'r res) \<Rightarrow>
   block \<Rightarrow> receipt \<Rightarrow> log \<Rightarrow> contract_cache \<times> 'r \<Rightarrow> unit res \<times> contract_cache \<times> 'r" where
  "gated_log check rows blk r l s =
     (case s of (c, rs) \<Rightarrow>
        case check l c of
          (Inl err, c') \<Rightarrow> (Inl err, c', rs)
        | (Inr ok, c') \<Rightarrow>
            if \<not> ok then (Inr (), c', rs)
            else case rows blk r l rs of
              Inl err \<Rightarrow> (Inl err, c', rs)
            | Inr rs' \<Rightarrow> (Inr (), c', rs'))"

definition gated_block ::
  "(log \<Rightarrow> contract_cache \<Rightarrow> bool res \<times> contract_cache) \<Rightarrow> (block \<Rightarrow> receipt \<Rightarrow> log \<Rightarrow> 'r \<Rightarrow> 'r res) \<Rightarrow>
   block \<Rightarrow> contract_cache \<times> 'r \<Rightarrow> unit res \<times> contract_cache \<times> 'r" where
  "gated_block check rows blk =
     eachS (\<lambda>r. if r_status r \<noteq> receipt_success then decodedS (Inr ())
                else eachS (gated_log check rows blk r) (r_logs r)) (b_receipts blk)"

text \<open>
  From outside, beside what the holder plugins use: UnpackLog for the other events, with addresses as
  strings, and which logs have rows that the database refuses.
\<close>

record nft_env = token_env_v1 +
  ne_approval :: "log \<Rightarrow> (string \<times> string \<times> nat) res" \<comment> \<open>owner, approved, token\<close>
  ne_all :: "log \<Rightarrow> (string \<times> string \<times> bool) res" \<comment> \<open>owner or account, operator, approved\<close>
  ne_batch :: "log \<Rightarrow> (string \<times> string \<times> string \<times> nat list \<times> nat list) res" \<comment> \<open>operator, from, to, ids, values\<close>
  ne_single :: "log \<Rightarrow> (string \<times> string \<times> string \<times> nat \<times> nat) res" \<comment> \<open>operator, from, to, id, value\<close>
  ne_uri :: "log \<Rightarrow> (string \<times> nat) res"
  ne_refused :: "log \<Rightarrow> bool"

subsection \<open>Which logs are of tokens\<close>

text \<open>erc721 and erc1155 look at the topics and call the contract; a refused call counts as an answer.\<close>

definition erc721_probed :: "nft_env \<Rightarrow> log \<Rightarrow> contract_cache \<Rightarrow> bool res \<times> contract_cache" where
  "erc721_probed env l c =
     (if \<not> check721Topics (topics_text l) (hex_encode (log_data l)) then (Inr False, c)
      else cached_check (\<lambda>a. Inr (probe721 (t1_read env) a)) (log_address l) c)"

definition erc1155_probed :: "nft_env \<Rightarrow> log \<Rightarrow> contract_cache \<Rightarrow> bool res \<times> contract_cache" where
  "erc1155_probed env l c =
     (if log_address l = [] \<or> length (log_topics l) < 2 \<or> \<not> TokenHoldersV1.checkTopics (topics_text l) then (Inr False, c)
      else cached_check (\<lambda>a. Inr (probe1155 (t1_read env) a)) (log_address l) c)"

text \<open>The second versions ask every contract with a log for the interface of its standard.\<close>

definition declares :: "nft_env \<Rightarrow> byte list \<Rightarrow> log \<Rightarrow> contract_cache \<Rightarrow> bool res \<times> contract_cache" where
  "declares env iface l c = cached_check (CheckInterfaceID (te_read env) iface) (log_address l) c"

subsection \<open>ERC-721\<close>

record erc721_transfer =
  xn_height :: u64
  xn_hash :: string
  xn_contract :: string
  xn_token :: nat
  xn_sender :: string
  xn_recipient :: string
  xn_time :: int

record erc721_approval =
  an_height :: u64
  an_hash :: string
  an_contract :: string
  an_owner :: string
  an_approved :: string
  an_token :: nat
  an_time :: int

record approval_for_all =
  fn_height :: u64
  fn_hash :: string
  fn_contract :: string
  fn_owner :: string
  fn_operator :: string
  fn_approved :: bool
  fn_time :: int

text \<open>The rows of holders have the two columns of those of ERC-20.\<close>

record erc721_rows =
  n_transfers :: "erc721_transfer list"
  n_approvals :: "erc721_approval list"
  n_alls :: "approval_for_all list"
  n_holders :: "erc20_holder list"

definition no_erc721_rows :: erc721_rows where
  "no_erc721_rows = \<lparr>n_transfers = [], n_approvals = [], n_alls = [], n_holders = []\<rparr>"

definition erc721_transfer_row :: "block \<Rightarrow> receipt \<Rightarrow> log \<Rightarrow> string \<Rightarrow> string \<Rightarrow> nat \<Rightarrow> erc721_transfer" where
  "erc721_transfer_row blk r l sender recipient token = \<lparr>xn_height = b_height blk, xn_hash = hex_encode (r_action_hash r),
     xn_contract = log_address l, xn_token = token, xn_sender = sender, xn_recipient = recipient, xn_time = b_timestamp blk\<rparr>"

definition erc721_approval_row :: "block \<Rightarrow> receipt \<Rightarrow> log \<Rightarrow> string \<Rightarrow> string \<Rightarrow> nat \<Rightarrow> erc721_approval" where
  "erc721_approval_row blk r l holder approved token = \<lparr>an_height = b_height blk, an_hash = hex_encode (r_action_hash r),
     an_contract = log_address l, an_owner = holder, an_approved = approved, an_token = token, an_time = b_timestamp blk\<rparr>"

definition approval_all_row :: "block \<Rightarrow> receipt \<Rightarrow> log \<Rightarrow> string \<Rightarrow> string \<Rightarrow> bool \<Rightarrow> approval_for_all" where
  "approval_all_row blk r l holder operator ok = \<lparr>fn_height = b_height blk, fn_hash = hex_encode (r_action_hash r),
     fn_contract = log_address l, fn_owner = holder, fn_operator = operator, fn_approved = ok, fn_time = b_timestamp blk\<rparr>"

type_synonym erc721_event = "erc721_transfer list \<times> erc721_approval list \<times> approval_for_all list \<times> string list"

text \<open>The switch; \<open>log.Topics[0]\<close> panics on a log without topics.\<close>

definition erc721_event :: "nft_env \<Rightarrow> block \<Rightarrow> receipt \<Rightarrow> log \<Rightarrow> erc721_event res" where
  "erc721_event env blk r l =
     bindE (idx (log_topics l) 0) (\<lambda>topic.
       if hex_encode topic = TransferString then
         bindE (te_transfer env l) (\<lambda>(sender, recipient, token).
           Inr ([erc721_transfer_row blk r l sender recipient token], [], [], [sender, recipient]))
       else if hex_encode topic = ApproveString then
         bindE (ne_approval env l) (\<lambda>(holder, approved, token).
           Inr ([], [erc721_approval_row blk r l holder approved token], [], []))
       else if hex_encode topic = ApprovalForAllString then
         bindE (ne_all env l) (\<lambda>(holder, operator, ok). Inr ([], [], [approval_all_row blk r l holder operator ok], []))
       else Inr ([], [], [], []))"

text \<open>The slice of holders of erc721_v2_ch: no empty address, and every address as often as it occurs.\<close>

definition named_add :: "erc20_holder \<Rightarrow> erc20_holder list \<Rightarrow> erc20_holder list" where
  "named_add h hs = (if h2_holder h = [] then hs else hs @ [h])"

definition erc721_add ::
  "(erc20_holder \<Rightarrow> erc20_holder list \<Rightarrow> erc20_holder list) \<Rightarrow> log \<Rightarrow> erc721_event \<Rightarrow> erc721_rows \<Rightarrow> erc721_rows" where
  "erc721_add add l ev rows =
     (case ev of (ts, as, fs, hs) \<Rightarrow>
        \<lparr>n_transfers = n_transfers rows @ ts, n_approvals = n_approvals rows @ as, n_alls = n_alls rows @ fs,
         n_holders = fold (\<lambda>a. add \<lparr>h2_contract = log_address l, h2_holder = a\<rparr>) hs (n_holders rows)\<rparr>)"

definition erc721_rows_of ::
  "(erc20_holder \<Rightarrow> erc20_holder list \<Rightarrow> erc20_holder list) \<Rightarrow> nft_env \<Rightarrow> block \<Rightarrow> receipt \<Rightarrow> log \<Rightarrow> erc721_rows \<Rightarrow> erc721_rows res" where
  "erc721_rows_of add env blk r l rows = bindE (erc721_event env blk r l) (\<lambda>ev. Inr (erc721_add add l ev rows))"

text \<open>erc721 creates the rows one by one and a holder where First finds none: on the table it does what a map does.\<close>

definition erc721_create :: "nft_env \<Rightarrow> block \<Rightarrow> receipt \<Rightarrow> log \<Rightarrow> erc721_rows \<Rightarrow> erc721_rows res" where
  "erc721_create env blk r l t =
     bindE (erc721_event env blk r l) (\<lambda>ev.
       if ev \<noteq> ([], [], [], []) \<and> ne_refused env l then Inl DbError else Inr (erc721_add map_add_holder l ev t))"

text \<open>The maps of contracts are package variables: they stay when the transaction is rolled back.\<close>

definition tx_PutBlock ::
  "string \<Rightarrow> (log \<Rightarrow> contract_cache \<Rightarrow> bool res \<times> contract_cache) \<Rightarrow> (block \<Rightarrow> receipt \<Rightarrow> log \<Rightarrow> 'r \<Rightarrow> 'r res) \<Rightarrow>
   tx_faults \<Rightarrow> block \<Rightarrow> contract_cache \<times> 'r world \<Rightarrow> unit res \<times> contract_cache \<times> 'r world" where
  "tx_PutBlock name check create f blk s =
     (case s of (c, w) \<Rightarrow>
        case gated_block check create blk (c, tables w) of
          (Inl err, (c', t)) \<Rightarrow> (Inl err, c', w)
        | (Inr u, (c', t)) \<Rightarrow>
            (case index_tx f name (Inr (b_height blk)) (\<lambda>_. Inr t) w of (x, w') \<Rightarrow> (x, c', w')))"

definition erc721_PutBlock ::
  "nft_env \<Rightarrow> tx_faults \<Rightarrow> block \<Rightarrow> contract_cache \<times> erc721_rows world \<Rightarrow>
   unit res \<times> contract_cache \<times> erc721_rows world" where
  "erc721_PutBlock env = tx_PutBlock ''erc721'' (erc721_probed env) (erc721_create env)"

definition erc721_v2_putBlock :: "nft_env \<Rightarrow> block \<Rightarrow> contract_cache \<times> erc721_rows \<Rightarrow> unit res \<times> contract_cache \<times> erc721_rows" where
  "erc721_v2_putBlock env = gated_block (declares env ERC721InterfaceID) (erc721_rows_of map_add_holder env)"

text \<open>No unique index on the holders either: \<open>ON CONFLICT DO NOTHING\<close> never finds a conflict.\<close>

definition erc721_v2_flush ::
  "(erc20_holder list \<Rightarrow> erc20_holder list) \<Rightarrow> contract_cache \<times> erc721_rows \<Rightarrow> erc721_rows \<Rightarrow> erc721_rows res" where
  "erc721_v2_flush order p t = Inr \<lparr>n_transfers = n_transfers t @ n_transfers (snd p),
     n_approvals = n_approvals t @ n_approvals (snd p), n_alls = n_alls t @ n_alls (snd p),
     n_holders = n_holders t @ order (n_holders (snd p))\<rparr>"

definition erc721_v2_PutBlocks ::
  "(erc20_holder list \<Rightarrow> erc20_holder list) \<Rightarrow> nft_env \<Rightarrow> tx_faults \<Rightarrow> block list \<Rightarrow>
   (contract_cache \<times> erc721_rows) \<times> erc721_rows world \<Rightarrow> unit res \<times> (contract_cache \<times> erc721_rows) \<times> erc721_rows world" where
  "erc721_v2_PutBlocks order env f =
     buf_PutBlocks (erc721_v2_putBlock env)
       (buf_commit f ''erc721_2.2.3'' (erc721_v2_flush order) (\<lambda>p. (fst p, no_erc721_rows)))"

definition erc721_v2_PutBlock ::
  "(erc20_holder list \<Rightarrow> erc20_holder list) \<Rightarrow> nft_env \<Rightarrow> tx_faults \<Rightarrow> block \<Rightarrow>
   (contract_cache \<times> erc721_rows) \<times> erc721_rows world \<Rightarrow> unit res \<times> (contract_cache \<times> erc721_rows) \<times> erc721_rows world" where
  "erc721_v2_PutBlock order env f =
     buf_PutBlock (erc721_v2_putBlock env)
       (buf_commit f ''erc721_2.2.3'' (erc721_v2_flush order) (\<lambda>p. (fst p, no_erc721_rows)))"

text \<open>
  erc721_v2_ch: four inserts into ClickHouse, each of which stays whatever comes after it; a slice is
  emptied after its insert, taken or not, and the slices after a refused one keep their rows.
\<close>

record erc721_ch_faults =
  fc_transfers :: bool
  fc_approvals :: bool
  fc_holders :: bool
  fc_alls :: bool
  fc_height :: bool

definition erc721_ch_commit ::
  "erc721_ch_faults \<Rightarrow> u64 \<Rightarrow> (contract_cache \<times> erc721_rows) \<times> erc721_rows world \<Rightarrow>
   unit res \<times> (contract_cache \<times> erc721_rows) \<times> erc721_rows world" where
  "erc721_ch_commit f tip s =
     (case s of ((c, rows), w) \<Rightarrow>
        let t = tables w;
            r1 = rows\<lparr>n_transfers := []\<rparr>; t1 = t\<lparr>n_transfers := n_transfers t @ n_transfers rows\<rparr>;
            r2 = r1\<lparr>n_approvals := []\<rparr>; t2 = t1\<lparr>n_approvals := n_approvals t @ n_approvals rows\<rparr>;
            r3 = r2\<lparr>n_holders := []\<rparr>; t3 = t2\<lparr>n_holders := n_holders t @ n_holders rows\<rparr>;
            r4 = r3\<lparr>n_alls := []\<rparr>; t4 = t3\<lparr>n_alls := n_alls t @ n_alls rows\<rparr> in
        if n_transfers rows \<noteq> [] \<and> fc_transfers f then (Inl DbError, (c, r1), w)
        else if n_approvals rows \<noteq> [] \<and> fc_approvals f then (Inl DbError, (c, r2), w\<lparr>tables := t1\<rparr>)
        else if n_holders rows \<noteq> [] \<and> fc_holders f then (Inl DbError, (c, r3), w\<lparr>tables := t2\<rparr>)
        else if n_alls rows \<noteq> [] \<and> fc_alls f then (Inl DbError, (c, r4), w\<lparr>tables := t3\<rparr>)
        else (case UpdateIndexHeight (\<not> fc_height f) ''erc721_ch'' tip (w\<lparr>tables := t4\<rparr>) of
                (x, w') \<Rightarrow> (x, (c, r4), w')))"

definition erc721_ch_putBlock :: "nft_env \<Rightarrow> block \<Rightarrow> contract_cache \<times> erc721_rows \<Rightarrow> unit res \<times> contract_cache \<times> erc721_rows" where
  "erc721_ch_putBlock env = gated_block (declares env ERC721InterfaceID) (erc721_rows_of named_add env)"

definition erc721_ch_PutBlocks ::
  "nft_env \<Rightarrow> erc721_ch_faults \<Rightarrow> block list \<Rightarrow> (contract_cache \<times> erc721_rows) \<times> erc721_rows world \<Rightarrow>
   unit res \<times> (contract_cache \<times> erc721_rows) \<times> erc721_rows world" where
  "erc721_ch_PutBlocks env f blks s =
     (case s of (p, w) \<Rightarrow>
        (case eachS (erc721_ch_putBlock env) blks p of
           (Inl err, p') \<Rightarrow> (Inl err, p', w)
         | (Inr u, p') \<Rightarrow>
             (case idx blks 0 of
                Inl err \<Rightarrow> (Inl err, p', w)
              | Inr b \<Rightarrow> erc721_ch_commit f (b_height b + word_of_nat (length blks) - 1) (p', w))))"

subsection \<open>ERC-1155\<close>

record erc1155_batch =
  bm_height :: u64
  bm_hash :: string
  bm_contract :: string
  bm_operator :: string
  bm_sender :: string
  bm_recipient :: string
  bm_ids :: string
  bm_values :: string
  bm_time :: int

record erc1155_single =
  sm_height :: u64
  sm_hash :: string
  sm_contract :: string
  sm_operator :: string
  sm_sender :: string
  sm_recipient :: string
  sm_id :: nat
  sm_value :: nat
  sm_time :: int

record erc1155_uri =
  um_height :: u64
  um_hash :: string
  um_contract :: string
  um_value :: string
  um_id :: nat
  um_time :: int

record erc1155_rows =
  m_batch :: "erc1155_batch list"
  m_single :: "erc1155_single list"
  m_uris :: "erc1155_uri list"
  m_alls :: "approval_for_all list"

definition no_erc1155_rows :: erc1155_rows where
  "no_erc1155_rows = \<lparr>m_batch = [], m_single = [], m_uris = [], m_alls = []\<rparr>"

text \<open>\<open>json.Marshal\<close> of the numbers as strings; digits need no escape.\<close>

fun json_items :: "nat list \<Rightarrow> string" where
  "json_items [] = []"
| "json_items [n] = ''\"'' @ show_nat n @ ''\"''"
| "json_items (n # ns) = ''\"'' @ show_nat n @ ''\",'' @ json_items ns"

definition json_numbers :: "nat list \<Rightarrow> string" where
  "json_numbers ns = ''['' @ json_items ns @ '']''"

definition erc1155_batch_row ::
  "block \<Rightarrow> receipt \<Rightarrow> log \<Rightarrow> string \<Rightarrow> string \<Rightarrow> string \<Rightarrow> nat list \<Rightarrow> nat list \<Rightarrow> erc1155_batch" where
  "erc1155_batch_row blk r l operator sender recipient ids vals = \<lparr>bm_height = b_height blk,
     bm_hash = hex_encode (r_action_hash r), bm_contract = log_address l, bm_operator = operator, bm_sender = sender,
     bm_recipient = recipient, bm_ids = json_numbers ids, bm_values = json_numbers vals, bm_time = b_timestamp blk\<rparr>"

definition erc1155_single_row ::
  "block \<Rightarrow> receipt \<Rightarrow> log \<Rightarrow> string \<Rightarrow> string \<Rightarrow> string \<Rightarrow> nat \<Rightarrow> nat \<Rightarrow> erc1155_single" where
  "erc1155_single_row blk r l operator sender recipient i v = \<lparr>sm_height = b_height blk,
     sm_hash = hex_encode (r_action_hash r), sm_contract = log_address l, sm_operator = operator, sm_sender = sender,
     sm_recipient = recipient, sm_id = i, sm_value = v, sm_time = b_timestamp blk\<rparr>"

definition erc1155_uri_row :: "block \<Rightarrow> receipt \<Rightarrow> log \<Rightarrow> string \<Rightarrow> nat \<Rightarrow> erc1155_uri" where
  "erc1155_uri_row blk r l v i = \<lparr>um_height = b_height blk, um_hash = hex_encode (r_action_hash r),
     um_contract = log_address l, um_value = v, um_id = i, um_time = b_timestamp blk\<rparr>"

definition erc1155_rows_of :: "nft_env \<Rightarrow> block \<Rightarrow> receipt \<Rightarrow> log \<Rightarrow> erc1155_rows \<Rightarrow> erc1155_rows res" where
  "erc1155_rows_of env blk r l rows =
     bindE (idx (log_topics l) 0) (\<lambda>topic.
       if hex_encode topic = TransferBatchString then
         bindE (ne_batch env l) (\<lambda>(operator, sender, recipient, ids, vals).
           Inr (rows\<lparr>m_batch := m_batch rows @ [erc1155_batch_row blk r l operator sender recipient ids vals]\<rparr>))
       else if hex_encode topic = TransferSingleString then
         bindE (ne_single env l) (\<lambda>(operator, sender, recipient, i, v).
           Inr (rows\<lparr>m_single := m_single rows @ [erc1155_single_row blk r l operator sender recipient i v]\<rparr>))
       else if hex_encode topic = URIString then
         bindE (ne_uri env l) (\<lambda>(v, i). Inr (rows\<lparr>m_uris := m_uris rows @ [erc1155_uri_row blk r l v i]\<rparr>))
       else if hex_encode topic = ApprovalForAllString then
         bindE (ne_all env l) (\<lambda>(account, operator, ok).
           Inr (rows\<lparr>m_alls := m_alls rows @ [approval_all_row blk r l account operator ok]\<rparr>))
       else Inr rows)"

definition erc1155_create :: "nft_env \<Rightarrow> block \<Rightarrow> receipt \<Rightarrow> log \<Rightarrow> erc1155_rows \<Rightarrow> erc1155_rows res" where
  "erc1155_create env blk r l t =
     bindE (erc1155_rows_of env blk r l t) (\<lambda>t'. if t' \<noteq> t \<and> ne_refused env l then Inl DbError else Inr t')"

definition erc1155_PutBlock ::
  "nft_env \<Rightarrow> tx_faults \<Rightarrow> block \<Rightarrow> contract_cache \<times> erc1155_rows world \<Rightarrow>
   unit res \<times> contract_cache \<times> erc1155_rows world" where
  "erc1155_PutBlock env = tx_PutBlock ''erc1155'' (erc1155_probed env) (erc1155_create env)"

definition erc1155_v2_putBlock ::
  "nft_env \<Rightarrow> block \<Rightarrow> contract_cache \<times> erc1155_rows \<Rightarrow> unit res \<times> contract_cache \<times> erc1155_rows" where
  "erc1155_v2_putBlock env = gated_block (declares env ERC1155InterfaceID) (erc1155_rows_of env)"

definition erc1155_v2_flush :: "contract_cache \<times> erc1155_rows \<Rightarrow> erc1155_rows \<Rightarrow> erc1155_rows res" where
  "erc1155_v2_flush p t = Inr \<lparr>m_batch = m_batch t @ m_batch (snd p), m_single = m_single t @ m_single (snd p),
     m_uris = m_uris t @ m_uris (snd p), m_alls = m_alls t @ m_alls (snd p)\<rparr>"

definition erc1155_v2_PutBlocks ::
  "nft_env \<Rightarrow> tx_faults \<Rightarrow> block list \<Rightarrow> (contract_cache \<times> erc1155_rows) \<times> erc1155_rows world \<Rightarrow>
   unit res \<times> (contract_cache \<times> erc1155_rows) \<times> erc1155_rows world" where
  "erc1155_v2_PutBlocks env f =
     buf_PutBlocks (erc1155_v2_putBlock env)
       (buf_commit f ''erc1155_2.2.2'' erc1155_v2_flush (\<lambda>p. (fst p, no_erc1155_rows)))"

definition erc1155_v2_PutBlock ::
  "nft_env \<Rightarrow> tx_faults \<Rightarrow> block \<Rightarrow> (contract_cache \<times> erc1155_rows) \<times> erc1155_rows world \<Rightarrow>
   unit res \<times> (contract_cache \<times> erc1155_rows) \<times> erc1155_rows world" where
  "erc1155_v2_PutBlock env f =
     buf_PutBlock (erc1155_v2_putBlock env)
       (buf_commit f ''erc1155_2.2.2'' erc1155_v2_flush (\<lambda>p. (fst p, no_erc1155_rows)))"

end
