(* ===== verification/Erc20Props.thy ===== *)
theory Erc20Props
  imports Erc20
begin

text \<open>
  Properties of the ERC-20 plugins: the cache of contracts, what the three plugins store, the table of
  holders, and what refused calls and inserts leave behind.
\<close>

subsection \<open>What the node alone determines\<close>

definition erc20_check :: "erc20_env \<Rightarrow> string \<Rightarrow> bool res" where
  "erc20_check env a = Inr (erc20_probe env a)"

definition erc20_log_event :: "erc20_env \<Rightarrow> block \<Rightarrow> receipt \<Rightarrow> log \<Rightarrow> erc20_event res" where
  "erc20_log_event env blk r l =
     (if log_address l = [] \<or> length (log_topics l) < 2 \<or> \<not> checkTopics (topics_text l) (hex_encode (log_data l))
         \<or> \<not> erc20_probe env (log_address l)
      then Inr ([], [], []) else erc20_event env blk r l)"

definition pure_log ::
  "(erc20_holder \<Rightarrow> erc20_holder list \<Rightarrow> erc20_holder list) \<Rightarrow> erc20_env \<Rightarrow> block \<Rightarrow> receipt \<Rightarrow> log \<Rightarrow> erc20_rows \<Rightarrow> erc20_rows res" where
  "pure_log add env blk r l rows = map_res (\<lambda>ev. add_event add l ev rows) (erc20_log_event env blk r l)"

definition pure_block ::
  "(erc20_holder \<Rightarrow> erc20_holder list \<Rightarrow> erc20_holder list) \<Rightarrow> erc20_env \<Rightarrow> block \<Rightarrow> erc20_rows \<Rightarrow> erc20_rows res" where
  "pure_block add env blk =
     foldE (\<lambda>r. if r_status r \<noteq> receipt_success then Inr else foldE (pure_log add env blk r) (r_logs r)) (b_receipts blk)"

definition pure_batch ::
  "(erc20_holder \<Rightarrow> erc20_holder list \<Rightarrow> erc20_holder list) \<Rightarrow> erc20_env \<Rightarrow> block list \<Rightarrow> erc20_rows \<Rightarrow> erc20_rows res" where
  "pure_batch add env = foldE (pure_block add env)"

text \<open>\<open>follows P m f\<close>: where \<open>P\<close> holds of the first part of the state, \<open>m\<close> does to the second part what \<open>f\<close> does.\<close>

definition follows :: "('c \<Rightarrow> bool) \<Rightarrow> ('c \<times> 's \<Rightarrow> unit res \<times> 'c \<times> 's) \<Rightarrow> ('s \<Rightarrow> 's res) \<Rightarrow> bool" where
  "follows P m f \<longleftrightarrow> (\<forall>c s. P c \<longrightarrow> (\<exists>c'. P c' \<and>
     (case f s of Inl e \<Rightarrow> \<exists>s'. m (c, s) = (Inl e, c', s') | Inr s' \<Rightarrow> m (c, s) = (Inr (), c', s'))))"

lemma followsD_ok:
  assumes "follows P m f" and "P c" and "f s = Inr s'"
  shows "\<exists>c'. P c' \<and> m (c, s) = (Inr (), c', s')"
  using assms(1) [unfolded follows_def, rule_format, OF assms(2), of s] assms(3) by simp

lemma followsD_error:
  assumes "follows P m f" and "P c" and "f s = Inl e"
  shows "\<exists>c' s'. P c' \<and> m (c, s) = (Inl e, c', s')"
  using assms(1) [unfolded follows_def, rule_format, OF assms(2), of s] assms(3) by auto

lemma followsI:
  assumes "\<And>c s s'. P c \<Longrightarrow> f s = Inr s' \<Longrightarrow> \<exists>c'. P c' \<and> m (c, s) = (Inr (), c', s')"
    and "\<And>c s e. P c \<Longrightarrow> f s = Inl e \<Longrightarrow> \<exists>c' s'. P c' \<and> m (c, s) = (Inl e, c', s')"
  shows "follows P m f"
  unfolding follows_def
proof (intro allI impI)
  fix c s assume "P c"
  then show "\<exists>c'. P c' \<and> (case f s of Inl e \<Rightarrow> \<exists>s'. m (c, s) = (Inl e, c', s') | Inr s' \<Rightarrow> m (c, s) = (Inr (), c', s'))"
    using assms by (cases "f s") fastforce+
qed

lemma follows_eachS:
  assumes "\<And>x. follows P (m x) (f x)"
  shows "follows P (eachS m xs) (foldE f xs)"
proof (induction xs)
  case Nil
  show ?case by (rule followsI) auto
next
  case (Cons x xs)
  show ?case
  proof (rule followsI)
    fix c s s' assume P: "P c" and run: "foldE f (x # xs) s = Inr s'"
    then obtain s1 where s1: "f x s = Inr s1" "foldE f xs s1 = Inr s'" by (auto simp: bindE_eq_Inr)
    from followsD_ok [OF assms P s1(1)] obtain c1 where "P c1" "m x (c, s) = (Inr (), c1, s1)" by blast
    with followsD_ok [OF Cons \<open>P c1\<close> s1(2)] show "\<exists>c'. P c' \<and> eachS m (x # xs) (c, s) = (Inr (), c', s')" by auto
  next
    fix c s e assume P: "P c" and run: "foldE f (x # xs) s = Inl e"
    then consider "f x s = Inl e" | s1 where "f x s = Inr s1" "foldE f xs s1 = Inl e" by (auto simp: bindE_eq_Inl)
    then show "\<exists>c' s'. P c' \<and> eachS m (x # xs) (c, s) = (Inl e, c', s')"
    proof cases
      case 1
      from followsD_error [OF assms P 1] show ?thesis by auto
    next
      case (2 s1)
      from followsD_ok [OF assms P 2(1)] obtain c1 where "P c1" "m x (c, s) = (Inr (), c1, s1)" by blast
      with followsD_error [OF Cons \<open>P c1\<close> 2(2)] show ?thesis by auto
    qed
  qed
qed

lemma isErc20_sound:
  assumes "cache_sound (erc20_check env) c"
  shows "\<exists>c'. cache_sound (erc20_check env) c' \<and>
    isErc20 env a topics data c = (Inr (checkTopics topics data \<and> erc20_probe env a), c')"
  using cached_check_sound [OF assms, of a] assms
  by (cases "cached_check (erc20_check env) a c") (auto simp: isErc20_def erc20_check_def [abs_def])

lemma add_nothing: "add_event add l ([], [], []) rows = rows"
  by (simp add: add_event_def)

lemma log_follows: "follows (cache_sound (erc20_check env)) (erc20_log add env blk r l) (pure_log add env blk r l)"
proof (rule followsI)
  fix c s s' assume c: "cache_sound (erc20_check env) c" and run: "pure_log add env blk r l s = Inr s'"
  from isErc20_sound [OF c, of "log_address l" "topics_text l" "hex_encode (log_data l)"] c run
  show "\<exists>c'. cache_sound (erc20_check env) c' \<and> erc20_log add env blk r l (c, s) = (Inr (), c', s')"
    by (auto simp: erc20_log_def pure_log_def erc20_log_event_def add_nothing map_res_eq split: if_splits)
next
  fix c s e assume c: "cache_sound (erc20_check env) c" and run: "pure_log add env blk r l s = Inl e"
  from isErc20_sound [OF c, of "log_address l" "topics_text l" "hex_encode (log_data l)"] c run
  show "\<exists>c' s'. cache_sound (erc20_check env) c' \<and> erc20_log add env blk r l (c, s) = (Inl e, c', s')"
    by (auto simp: erc20_log_def pure_log_def erc20_log_event_def map_res_eq split: if_splits)
qed

lemma block_follows: "follows (cache_sound (erc20_check env)) (erc20_putBlock add env blk) (pure_block add env blk)"
  unfolding erc20_putBlock_def pure_block_def
proof (rule follows_eachS)
  fix r
  show "follows (cache_sound (erc20_check env))
    (if r_status r \<noteq> receipt_success then decodedS (Inr ()) else eachS (erc20_log add env blk r) (r_logs r))
    (if r_status r \<noteq> receipt_success then Inr else foldE (pure_log add env blk r) (r_logs r))"
  proof (cases "r_status r = receipt_success")
    case True
    then show ?thesis using follows_eachS [OF log_follows] by simp
  next
    case False
    then show ?thesis by (auto simp: follows_def decodedS_def)
  qed
qed

lemma batch_follows: "follows (cache_sound (erc20_check env)) (eachS (erc20_putBlock add env) blks) (pure_batch add env blks)"
  unfolding pure_batch_def by (rule follows_eachS) (rule block_follows)

subsection \<open>Slices and maps of holders\<close>

definition join_rows :: "erc20_rows \<Rightarrow> erc20_rows \<Rightarrow> erc20_rows" where
  "join_rows a b = \<lparr>e2_transfers = e2_transfers a @ e2_transfers b, e2_approvals = e2_approvals a @ e2_approvals b,
     e2_holders = e2_holders a @ e2_holders b\<rparr>"

lemma join_none [simp]: "join_rows a no_erc20_rows = a"
  by (simp add: join_rows_def no_erc20_rows_def)

lemma fold_slice: "fold (\<lambda>a. slice_add (h a)) hs xs = xs @ map h hs"
  by (induction hs arbitrary: xs) (auto simp: slice_add_def)

lemma slice_event: "add_event slice_add l ev (join_rows a b) = join_rows a (add_event slice_add l ev b)"
  by (auto simp: add_event_def join_rows_def fold_slice split: prod.splits)

lemma pure_log_join: "map_res (join_rows a) (pure_log slice_add env blk r l b) = pure_log slice_add env blk r l (join_rows a b)"
  by (cases "erc20_log_event env blk r l") (simp_all add: pure_log_def slice_event)

lemma pure_block_join: "map_res (join_rows a) (pure_block slice_add env blk b) = pure_block slice_add env blk (join_rows a b)"
  unfolding pure_block_def by (rule foldE_simulation) (auto intro: foldE_simulation pure_log_join)

lemma pure_batch_join: "map_res (join_rows a) (pure_batch slice_add env blks b) = pure_batch slice_add env blks (join_rows a b)"
  unfolding pure_batch_def by (rule foldE_simulation) (rule pure_block_join)

text \<open>The map of erc20 holds what the slice of erc20_v2 holds, each holder once.\<close>

definition as_map :: "erc20_rows \<Rightarrow> erc20_rows" where
  "as_map rows = rows\<lparr>e2_holders := fold map_add_holder (e2_holders rows) []\<rparr>"

lemma map_event: "as_map (add_event slice_add l ev rows) = add_event map_add_holder l ev (as_map rows)"
  by (auto simp: as_map_def add_event_def fold_slice fold_map comp_def split: prod.splits)

lemma pure_log_map: "map_res as_map (pure_log slice_add env blk r l b) = pure_log map_add_holder env blk r l (as_map b)"
  by (cases "erc20_log_event env blk r l") (simp_all add: pure_log_def map_event)

lemma pure_batch_map: "map_res as_map (pure_batch slice_add env blks b) = pure_batch map_add_holder env blks (as_map b)"
  unfolding pure_batch_def pure_block_def
  by (rule foldE_simulation, rule foldE_simulation) (auto intro: foldE_simulation pure_log_map)

lemma fold_map_add_set: "set (fold map_add_holder hs xs) = set xs \<union> {h \<in> set hs. h2_holder h \<noteq> []}"
  by (induction hs arbitrary: xs) (auto simp: map_add_holder_def)

lemma fold_insert_set: "set (fold insert_holder hs xs) = set xs \<union> set hs"
  by (induction hs arbitrary: xs) (auto simp: insert_holder_def)

lemma fold_insert_distinct: "distinct xs \<Longrightarrow> distinct (fold insert_holder hs xs)"
  by (induction hs arbitrary: xs) (auto simp: insert_holder_def)

subsection \<open>The versions agree\<close>

text \<open>UnpackLog gives the addresses of an event; none of them is the empty string.\<close>

definition named :: "erc20_env \<Rightarrow> bool" where
  "named env \<longleftrightarrow> (\<forall>l a b v. e2_transfer env l = Inr (a, b, v) \<longrightarrow> a \<noteq> [] \<and> b \<noteq> []) \<and>
     (\<forall>l a v. e2_deposit env l = Inr (a, v) \<longrightarrow> a \<noteq> []) \<and> (\<forall>l a v. e2_withdrawal env l = Inr (a, v) \<longrightarrow> a \<noteq> [])"

text \<open>The parties of the transfers, as rows of the holder table.\<close>

definition parties :: "erc20_rows \<Rightarrow> erc20_holder set" where
  "parties t = {h. h2_holder h \<noteq> [] \<and> (\<exists>x \<in> set (e2_transfers t). h2_contract h = x2_contract x \<and>
     (h2_holder h = x2_sender x \<or> h2_holder h = x2_recipient x))}"

definition balanced :: "erc20_rows \<Rightarrow> bool" where
  "balanced rows \<longleftrightarrow> set (e2_holders rows) = parties rows"

definition row_parties :: "erc20_transfer \<Rightarrow> erc20_holder set" where
  "row_parties x = {h. h2_holder h \<noteq> [] \<and> h2_contract h = x2_contract x \<and>
     (h2_holder h = x2_sender x \<or> h2_holder h = x2_recipient x)}"

lemma parties_union: "parties t = (\<Union>x \<in> set (e2_transfers t). row_parties x)"
  by (auto simp: parties_def row_parties_def)

lemma row_parties_of: "row_parties (transfer_row blk r l a b v) =
    {\<lparr>h2_contract = log_address l, h2_holder = x\<rparr> | x. x \<noteq> [] \<and> (x = a \<or> x = b)}"
proof (rule set_eqI)
  fix h :: erc20_holder
  obtain k x where "h = \<lparr>h2_contract = k, h2_holder = x\<rparr>" by (cases h)
  then show "h \<in> row_parties (transfer_row blk r l a b v) \<longleftrightarrow>
      h \<in> {\<lparr>h2_contract = log_address l, h2_holder = x\<rparr> | x. x \<noteq> [] \<and> (x = a \<or> x = b)}"
    by (auto simp: row_parties_def transfer_row_def)
qed

lemma event_balanced:
  assumes "named env" and "erc20_log_event env blk r l = Inr ev" and "balanced rows"
  shows "balanced (add_event slice_add l ev rows)"
proof -
  obtain ts as hs where ev: "ev = (ts, as, hs)" by (cases ev)
  have n: "e2_transfer env l = Inr (a, b, v) \<Longrightarrow> a \<noteq> [] \<and> b \<noteq> []" "e2_deposit env l = Inr (a, v) \<Longrightarrow> a \<noteq> []"
      "e2_withdrawal env l = Inr (a, v) \<Longrightarrow> a \<noteq> []" for a b v
    using assms(1) unfolding named_def by blast+
  have "set (map (\<lambda>a. \<lparr>h2_contract = log_address l, h2_holder = a\<rparr>) hs) = (\<Union>x \<in> set ts. row_parties x)"
    using assms(2) unfolding ev erc20_log_event_def erc20_event_def
    by (auto simp: row_parties_of bindE_eq_Inr Let_def dest: n split: if_splits)
  with assms(3) show ?thesis
    by (auto simp: balanced_def parties_union add_event_def ev fold_slice)
qed

lemma pure_block_balanced:
  assumes "named env" and "pure_block slice_add env blk rows = Inr rows'" and "balanced rows"
  shows "balanced rows'"
  using assms(2,3) unfolding pure_block_def
proof (rule foldE_invariant)
  fix r u v
  assume u: "balanced u" and run: "(if r_status r \<noteq> receipt_success then Inr
      else foldE (pure_log slice_add env blk r) (r_logs r)) u = Inr v"
  show "balanced v"
  proof (cases "r_status r = receipt_success")
    case True
    with run have "foldE (pure_log slice_add env blk r) (r_logs r) u = Inr v" by simp
    then show ?thesis
      using u by (rule foldE_invariant) (auto simp: pure_log_def map_res_eq intro: event_balanced [OF assms(1)])
  qed (use run u in simp)
qed

lemma pure_batch_balanced:
  assumes "named env" and "pure_batch slice_add env blks rows = Inr rows'" and "balanced rows"
  shows "balanced rows'"
  using assms(2,3) unfolding pure_batch_def by (rule foldE_invariant) (rule pure_block_balanced [OF assms(1)])

definition same_tables :: "erc20_rows \<Rightarrow> erc20_rows \<Rightarrow> bool" where
  "same_tables a b \<longleftrightarrow> e2_transfers a = e2_transfers b \<and> e2_approvals a = e2_approvals b \<and>
     set (e2_holders a) = set (e2_holders b)"

lemma empty_balanced: "balanced no_erc20_rows"
  by (simp add: balanced_def parties_def no_erc20_rows_def)

lemma as_map_empty: "as_map no_erc20_rows = no_erc20_rows"
  by (simp add: as_map_def no_erc20_rows_def)

lemma v2_run:
  assumes "cache_sound (erc20_check env) c" and "pure_batch slice_add env blks rows = Inr rows'" and "blks \<noteq> []"
  shows "\<exists>c'. cache_sound (erc20_check env) c' \<and> erc20_v2_PutBlocks env f blks ((c, rows), w) =
    erc20_v2_commit f (b_height (hd blks) + word_of_nat (length blks) - 1) ((c', rows'), w)"
proof -
  from followsD_ok [OF batch_follows assms(1,2)] obtain c' where "cache_sound (erc20_check env) c'"
    and "eachS (erc20_putBlock slice_add env) blks (c, rows) = (Inr (), c', rows')" by blast
  then show ?thesis using assms(3) by (auto simp: erc20_v2_PutBlocks_def hd_conv_nth)
qed

text \<open>
  C18: The two ERC-20 plugins of the main database store the same. A batch that erc20 takes erc20_v2
  takes as well, if nothing is refused: the same transfers and approvals in the same order, and
  the same holders, though erc20_v2 collects them in a slice and erc20 in a map that Go ranges over
  in any order.
\<close>

theorem erc20_versions_agree:
  assumes "cache_sound (erc20_check env) c" and "cache_sound (erc20_check env) c2" and "named env"
    and "\<And>hs. set (order hs) = set hs" and "same_tables (tables w) (tables w2)"
    and "erc20_PutBlocks order env no_faults blks ((c, no_erc20_rows), w) = (Inr (), p, w')"
  shows "\<exists>p2 w2'. erc20_v2_PutBlocks env no_erc20_faults blks ((c2, no_erc20_rows), w2) = (Inr (), p2, w2') \<and>
    same_tables (tables w') (tables w2')"
proof -
  from assms(6) obtain p1 where p1: "eachS (erc20_putBlock map_add_holder env) blks (c, no_erc20_rows) = (Inr (), p1)"
    and nonempty: "blks \<noteq> []" and flush: "erc20_flush order p1 (tables w) = Inr (tables w')"
    unfolding erc20_PutBlocks_def erc20_map_putBlock_def erc20_commit_def by (auto elim: buf_PutBlocks_ok)
  obtain rows where rows: "pure_batch slice_add env blks no_erc20_rows = Inr rows"
  proof (cases "pure_batch slice_add env blks no_erc20_rows")
    case (Inl e)
    then have "pure_batch map_add_holder env blks no_erc20_rows = Inl e"
      using pure_batch_map [of env blks no_erc20_rows] by (simp add: as_map_empty)
    from followsD_error [OF batch_follows assms(1) this] p1 show ?thesis by auto
  qed
  then have "pure_batch map_add_holder env blks no_erc20_rows = Inr (as_map rows)"
    using pure_batch_map [of env blks no_erc20_rows] by (simp add: as_map_empty)
  from followsD_ok [OF batch_follows assms(1) this] p1 have snd: "snd p1 = as_map rows" by auto
  from v2_run [OF assms(2) rows nonempty, of no_erc20_faults w2] obtain c' where
    v2: "erc20_v2_PutBlocks env no_erc20_faults blks ((c2, no_erc20_rows), w2) =
      erc20_v2_commit no_erc20_faults (b_height (hd blks) + word_of_nat (length blks) - 1) ((c', rows), w2)" by blast
  have "balanced rows" by (rule pure_batch_balanced [OF assms(3) rows empty_balanced])
  then have named_rows: "\<forall>h \<in> set (e2_holders rows). h2_holder h \<noteq> []" by (auto simp: balanced_def parties_def)
  have v1_tables: "tables w' = \<lparr>e2_transfers = e2_transfers (tables w) @ e2_transfers rows,
      e2_approvals = e2_approvals (tables w) @ e2_approvals rows,
      e2_holders = e2_holders (tables w) @ order (e2_holders (as_map rows))\<rparr>"
    using flush by (simp add: erc20_flush_def snd) (simp add: as_map_def)
  have "set (e2_holders (as_map rows)) = set (e2_holders rows)"
    using named_rows by (auto simp: as_map_def fold_map_add_set)
  then have "same_tables (tables w') (erc20_v2_store rows (tables w2))"
    using assms(4,5) by (simp add: v1_tables same_tables_def erc20_v2_store_def fold_insert_set)
  moreover have "\<exists>v. erc20_v2_commit no_erc20_faults tip ((c', rows), w2) = (Inr (), (c', no_erc20_rows), v) \<and>
      tables v = erc20_v2_store rows (tables w2)" for tip
    by (simp add: erc20_v2_commit_def no_erc20_faults_def index_tx_no_faults update_height_row_def)
  ultimately show ?thesis unfolding v2 by metis
qed

subsection \<open>The table of holders\<close>

lemma fold_insert_parties:
  "balanced t \<Longrightarrow> balanced rows \<Longrightarrow> balanced (erc20_v2_store rows t)"
  by (auto simp: balanced_def erc20_v2_store_def parties_union fold_insert_set)

definition holders_ok :: "erc20_rows \<Rightarrow> bool" where
  "holders_ok t \<longleftrightarrow> balanced t \<and> distinct (e2_holders t)"

definition sound_and_balanced :: "erc20_env \<Rightarrow> erc20_plugin \<Rightarrow> bool" where
  "sound_and_balanced env p \<longleftrightarrow> cache_sound (erc20_check env) (fst p) \<and> balanced (snd p)"

lemma log_keeps_balance:
  assumes "named env"
  shows "keeps (sound_and_balanced env) (erc20_log slice_add env blk r l)"
proof (rule keepsI)
  fix p x p' assume p: "sound_and_balanced env p" and run: "erc20_log slice_add env blk r l p = (x, p')"
  obtain c rows where eq: "p = (c, rows)" by (cases p)
  have c: "cache_sound (erc20_check env) c" and rows: "balanced rows" using p by (simp_all add: sound_and_balanced_def eq)
  show "sound_and_balanced env p'"
  proof (cases "pure_log slice_add env blk r l rows")
    case (Inr rows')
    from followsD_ok [OF log_follows c Inr] run eq Inr rows event_balanced [OF assms]
    show ?thesis by (auto simp: sound_and_balanced_def pure_log_def map_res_eq)
  next
    case (Inl e)
    from followsD_error [OF log_follows c Inl] run eq have sound: "cache_sound (erc20_check env) (fst p')" by auto
    have "snd p' = rows"
      using run Inl eq c isErc20_sound [OF c, of "log_address l" "topics_text l" "hex_encode (log_data l)"]
      by (auto simp: erc20_log_def pure_log_def erc20_log_event_def map_res_eq split: if_splits sum.splits)
    with sound rows show ?thesis by (simp add: sound_and_balanced_def)
  qed
qed

lemma batch_keeps_balance:
  assumes "named env"
  shows "keeps (sound_and_balanced env) (eachS (erc20_putBlock slice_add env) blks)"
proof (rule keeps_eachS)
  fix blk
  show "keeps (sound_and_balanced env) (erc20_putBlock slice_add env blk)"
    unfolding erc20_putBlock_def
    by (rule keeps_eachS) (auto intro: keeps_eachS log_keeps_balance [OF assms] keeps_decodedS)
qed

text \<open>
  C19: The holder table of erc20_v2 is exact. Every address that is a party of a stored transfer has one
  row and no other address has any. Every batch keeps that, whether it is stored, fails to decode
  or is rolled back, and what it leaves in the plugin keeps it for the next, as long as no insert is
  refused on its own.
\<close>

theorem erc20_v2_holders_exact:
  assumes "sound_and_balanced env p" and "named env" and "holders_ok (tables w)"
    and "\<not> f2_transfers f" and "\<not> f2_approvals f" and "\<not> f2_holders f"
    and "erc20_v2_PutBlocks env f blks (p, w) = (x, p', w')"
  shows "holders_ok (tables w') \<and> sound_and_balanced env p'"
proof -
  obtain y p1 where run: "eachS (erc20_putBlock slice_add env) blks p = (y, p1)" by (metis surj_pair)
  have p1: "sound_and_balanced env p1" by (rule keepsD [OF batch_keeps_balance [OF assms(2)] assms(1) run])
  obtain c new where p1_eq: "p1 = (c, new)" by (cases p1)
  have ok: "holders_ok (erc20_v2_store new (tables w))"
    using fold_insert_parties [of "tables w" new] assms(3) p1 fold_insert_distinct
    by (auto simp: holders_ok_def erc20_v2_store_def sound_and_balanced_def p1_eq)
  show ?thesis
  proof (cases "isl y \<or> blks = []")
    case True
    with assms(7) run p1 assms(3) show ?thesis by (cases y) (auto simp: erc20_v2_PutBlocks_def idx_def)
  next
    case False
    then obtain tip where commit: "erc20_v2_commit f tip (p1, w) = (x, p', w')"
      using assms(7) run by (cases y) (auto simp: erc20_v2_PutBlocks_def)
    obtain z w1 where tx: "index_tx (f2_tx f) ''erc20_v2'' (Inr tip) (\<lambda>t. Inr (erc20_v2_store new t)) w = (z, w1)"
      by fastforce
    with commit assms(4-6) have eq: "p' = (c, no_erc20_rows)" "w' = w1"
      by (auto simp: erc20_v2_commit_def p1_eq)
    have "holders_ok (tables w1)"
    proof (cases z)
      case (Inl e)
      with index_tx_error [OF tx [unfolded Inl]] assms(3) show ?thesis by simp
    next
      case (Inr u)
      with tx have "index_tx (f2_tx f) ''erc20_v2'' (Inr tip) (\<lambda>t. Inr (erc20_v2_store new t)) w = (Inr (), w1)" by simp
      then have "tables w1 = erc20_v2_store new (tables w)" by (rule index_tx_ok) simp
      with ok show ?thesis by simp
    qed
    with eq p1 empty_balanced show ?thesis by (simp add: sound_and_balanced_def p1_eq)
  qed
qed

subsection \<open>Refused calls and refused inserts\<close>

text \<open>
  A refused insert stores approvals twice. When the database refuses the transfers of a batch, the
  commit of erc20_v2 empties that slice alone; the batch that the runner puts again gathers its
  approvals a second time, beside those that are still there, and then both are stored.
\<close>

theorem erc20_v2_retry_doubles_approvals:
  assumes "cache_sound (erc20_check env) c" and "pure_batch slice_add env blks no_erc20_rows = Inr new"
    and "blks \<noteq> []" and "e2_transfers new \<noteq> []" and "f2_transfers f"
  shows "\<exists>p' p'' w''. erc20_v2_PutBlocks env f blks ((c, no_erc20_rows), w) = (Inl DbError, p', w) \<and>
    erc20_v2_PutBlocks env no_erc20_faults blks (p', w) = (Inr (), p'', w'') \<and>
    e2_transfers (tables w'') = e2_transfers (tables w) @ e2_transfers new \<and>
    e2_approvals (tables w'') = e2_approvals (tables w) @ e2_approvals new @ e2_approvals new"
proof -
  let ?left = "new\<lparr>e2_transfers := []\<rparr>"
  from v2_run [OF assms(1,2,3), of f w] obtain c1 where c1: "cache_sound (erc20_check env) c1"
    and 1: "erc20_v2_PutBlocks env f blks ((c, no_erc20_rows), w) = (Inl DbError, (c1, ?left), w)"
    using assms(4,5) by (auto simp: erc20_v2_commit_def)
  have "pure_batch slice_add env blks ?left = Inr (join_rows ?left new)"
    using pure_batch_join [of ?left env blks no_erc20_rows] assms(2) by simp
  from v2_run [OF c1 this assms(3), of no_erc20_faults w] obtain c2 where
    2: "erc20_v2_PutBlocks env no_erc20_faults blks ((c1, ?left), w) =
      erc20_v2_commit no_erc20_faults (b_height (hd blks) + word_of_nat (length blks) - 1) ((c2, join_rows ?left new), w)" by blast
  have "\<exists>v. erc20_v2_commit no_erc20_faults tip ((c2, rows), w) = (Inr (), (c2, no_erc20_rows), v) \<and>
      tables v = erc20_v2_store rows (tables w)" for tip rows
    by (simp add: erc20_v2_commit_def no_erc20_faults_def index_tx_no_faults update_height_row_def)
  then obtain v where "erc20_v2_PutBlocks env no_erc20_faults blks ((c1, ?left), w) = (Inr (), (c2, no_erc20_rows), v)"
    and "tables v = erc20_v2_store (join_rows ?left new) (tables w)" unfolding 2 by metis
  with 1 show ?thesis by (auto simp: erc20_v2_store_def join_rows_def)
qed

definition rows_of_contract :: "string \<Rightarrow> erc20_rows \<Rightarrow> erc20_transfer list \<times> erc20_approval list" where
  "rows_of_contract a rows = (filter (\<lambda>x. x2_contract x = a) (e2_transfers rows), filter (\<lambda>x. a2_contract x = a) (e2_approvals rows))"

definition forgotten :: "string \<Rightarrow> erc20_transfer list \<times> erc20_approval list \<Rightarrow> erc20_plugin \<Rightarrow> bool" where
  "forgotten a xs p \<longleftrightarrow> a \<in> cc_not (fst p) \<and> rows_of_contract a (snd p) = xs"

lemma event_contract:
  assumes "erc20_event env blk r l = Inr ev" and "log_address l \<noteq> a"
  shows "rows_of_contract a (add_event add l ev rows) = rows_of_contract a rows"
  using assms unfolding erc20_event_def
  by (auto simp: rows_of_contract_def add_event_def bindE_eq_Inr Let_def transfer_row_def approval_row_def split: if_splits)

lemma log_forgotten: "keeps (forgotten a xs) (erc20_log add env blk r l)"
proof (rule keepsI)
  fix p x p' assume p: "forgotten a xs p" and run: "erc20_log add env blk r l p = (x, p')"
  obtain c rows where eq: "p = (c, rows)" by (cases p)
  obtain ok c' where check: "isErc20 env (log_address l) (topics_text l) (hex_encode (log_data l)) c = (ok, c')" by fastforce
  have a: "a \<in> cc_not c" "rows_of_contract a rows = xs" using p by (simp_all add: forgotten_def eq)
  have c': "a \<in> cc_not c'" and no: "log_address l = a \<Longrightarrow> ok = Inr False"
    using check a(1) by (auto simp: isErc20_def cached_check_def split: if_splits)
  show "forgotten a xs p'"
  proof (cases "log_address l = [] \<or> length (log_topics l) < 2 \<or> ok \<noteq> Inr True")
    case True
    with run eq check c' a show ?thesis
      by (auto simp: erc20_log_def forgotten_def split: if_splits sum.splits)
  next
    case False
    with no have other: "log_address l \<noteq> a" by auto
    show ?thesis
    proof (cases "erc20_event env blk r l")
      case (Inl e)
      with False run eq check c' a show ?thesis by (auto simp: erc20_log_def forgotten_def)
    next
      case (Inr ev)
      with False run eq check have "p' = (c', add_event add l ev rows)" by (auto simp: erc20_log_def)
      with event_contract [OF Inr other] c' a show ?thesis by (simp add: forgotten_def)
    qed
  qed
qed

text \<open>
  C38: One refused call forgets a contract. If the node fails to answer one of the four calls the first
  time a contract is seen, the plugin takes it for no ERC-20 contract for as long as it runs: no later
  block adds a row of the contract, whatever the node would answer by then.
\<close>

theorem refused_call_forgets_contract:
  assumes "e2_read env a call = Inl err" and "call \<in> {totalSupplyString, balanceOfString, allowanceString, approveString}"
    and "checkTopics topics data" and "a \<notin> cc_is c"
  shows "\<exists>c'. isErc20 env a topics data c = (Inr False, c') \<and>
    (\<forall>later blks rows x p'. eachS (erc20_putBlock add later) blks (c', rows) = (x, p') \<longrightarrow>
       rows_of_contract a (snd p') = rows_of_contract a rows)"
proof -
  have "\<not> erc20_probe env a" using assms(1,2) by (auto simp: erc20_probe_def readContract_def)
  then have "\<exists>c'. isErc20 env a topics data c = (Inr False, c') \<and> a \<in> cc_not c'"
    using assms(3,4) by (cases "a \<in> cc_not c") (simp_all add: isErc20_def cached_check_def)
  then obtain c' where c': "isErc20 env a topics data c = (Inr False, c')" "a \<in> cc_not c'" by blast
  have keep: "keeps (forgotten a xs) (eachS (erc20_putBlock add later) blks)" for later blks xs
  proof (rule keeps_eachS)
    fix blk
    show "keeps (forgotten a xs) (erc20_putBlock add later blk)"
      unfolding erc20_putBlock_def by (rule keeps_eachS) (auto intro: keeps_eachS log_forgotten keeps_decodedS)
  qed
  have "rows_of_contract a (snd p') = rows_of_contract a rows"
    if "eachS (erc20_putBlock add later) blks (c', rows) = (x, p')" for later blks rows x p'
    using keepsD [OF keep _ that, of "rows_of_contract a rows"] c'(2) by (simp add: forgotten_def)
  with c'(1) show ?thesis by blast
qed

subsection \<open>A sample chain\<close>

text \<open>A node for which every contract is ERC-20, and a transfer and an approval of one token.\<close>

definition sample_erc20 :: erc20_env where
  "sample_erc20 = \<lparr>e2_read = \<lambda>_ _. Inr (1, ''00''), e2_transfer = \<lambda>_. Inr (''io_a'', ''io_b'', 5),
     e2_approval = \<lambda>_. Inr (''io_a'', ''io_c'', 7), e2_deposit = \<lambda>_. Inr (''io_a'', 1), e2_withdrawal = \<lambda>_. Inr (''io_a'', 1)\<rparr>"

definition transfer_topic :: hash256 where
  "transfer_topic = [0xdd, 0xf2, 0x52, 0xad, 0x1b, 0xe2, 0xc8, 0x9b, 0x69, 0xc2, 0xb0, 0x68, 0xfc, 0x37, 0x8d, 0xaa,
     0x95, 0x2b, 0xa7, 0xf1, 0x63, 0xc4, 0xa1, 0x16, 0x28, 0xf5, 0x5a, 0x4d, 0xf5, 0x23, 0xb3, 0xef]"

definition approval_topic :: hash256 where
  "approval_topic = [0x8c, 0x5b, 0xe1, 0xe5, 0xeb, 0xec, 0x7d, 0x5b, 0xd1, 0x4f, 0x71, 0x42, 0x7d, 0x1e, 0x84, 0xf3,
     0xdd, 0x03, 0x14, 0xc0, 0xf7, 0xb2, 0x29, 0x1e, 0x5b, 0x20, 0x0a, 0xc8, 0xc7, 0xc3, 0xb9, 0x25]"

lemma sample_topics: "hex_encode transfer_topic = transferSha3" "hex_encode approval_topic = approvalSha3"
  by code_simp+

lemma sample_checked: "checkTopics transferSha3 []" "checkTopics approvalSha3 []" "approvalSha3 \<noteq> transferSha3"
  by code_simp+

definition sample_token_log :: "hash256 \<Rightarrow> log" where
  "sample_token_log topic = \<lparr>log_address = ''io_token'', log_topics = [topic, []], log_data = []\<rparr>"

definition sample_token_receipt :: receipt where
  "sample_token_receipt = \<lparr>r_status = receipt_success, r_action_hash = [], r_gas_consumed = 0, r_tx_index = 0,
     r_logs = [sample_token_log transfer_topic, sample_token_log approval_topic], r_tx_logs = []\<rparr>"

definition sample_token_block :: block where
  "sample_token_block = \<lparr>b_height = 3, b_timestamp = 9, b_actions = [], b_receipts = [sample_token_receipt]\<rparr>"

definition sample_transfer :: erc20_transfer where
  "sample_transfer = \<lparr>x2_height = 3, x2_hash = [], x2_contract = ''io_token'', x2_amount = 5,
     x2_sender = ''io_a'', x2_recipient = ''io_b'', x2_time = 9\<rparr>"

definition sample_approval :: erc20_approval where
  "sample_approval = \<lparr>a2_height = 3, a2_hash = [], a2_contract = ''io_token'', a2_amount = 7,
     a2_owner = ''io_a'', a2_spender = ''io_c'', a2_time = 9\<rparr>"

definition sample_erc20_rows :: erc20_rows where
  "sample_erc20_rows = \<lparr>e2_transfers = [sample_transfer], e2_approvals = [sample_approval],
     e2_holders = [\<lparr>h2_contract = ''io_token'', h2_holder = ''io_a''\<rparr>, \<lparr>h2_contract = ''io_token'', h2_holder = ''io_b''\<rparr>]\<rparr>"

definition no_contracts :: contract_cache where
  "no_contracts = \<lparr>cc_is = {}, cc_not = {}\<rparr>"

definition sample_erc20_world :: "erc20_rows world" where
  "sample_erc20_world = \<lparr>tables = no_erc20_rows, heights = [''erc20'' \<mapsto> 2, ''erc20_v2'' \<mapsto> 2], index_cache = Map.empty\<rparr>"

lemma sample_named: "named sample_erc20"
  by (simp add: named_def sample_erc20_def)

lemma sample_sound: "cache_sound (erc20_check env) no_contracts"
  by (simp add: cache_sound_def no_contracts_def)

lemma sample_probe: "erc20_probe sample_erc20 a"
  by (simp add: erc20_probe_def readContract_def sample_erc20_def)

lemma sample_events:
  "erc20_log_event sample_erc20 sample_token_block sample_token_receipt (sample_token_log transfer_topic) =
     Inr ([sample_transfer], [], [''io_a'', ''io_b''])"
  "erc20_log_event sample_erc20 sample_token_block sample_token_receipt (sample_token_log approval_topic) =
     Inr ([], [sample_approval], [])"
  by (simp_all add: erc20_log_event_def sample_probe sample_token_log_def topics_text_def sample_topics sample_checked
      hex_encode_def [of "[]"] erc20_event_def Let_def)
    (simp_all add: sample_erc20_def transfer_row_def approval_row_def sample_transfer_def sample_approval_def
      sample_token_block_def sample_token_receipt_def hex_encode_def)

lemma sample_batch: "pure_batch slice_add sample_erc20 [sample_token_block] no_erc20_rows = Inr sample_erc20_rows"
proof -
  have parts: "b_receipts sample_token_block = [sample_token_receipt]" "r_status sample_token_receipt = receipt_success"
      "r_logs sample_token_receipt = [sample_token_log transfer_topic, sample_token_log approval_topic]"
    by (simp_all add: sample_token_block_def sample_token_receipt_def)
  show ?thesis
    by (simp add: pure_batch_def pure_block_def parts pure_log_def sample_events add_event_def slice_add_def)
      (simp add: no_erc20_rows_def sample_erc20_rows_def sample_token_log_def)
qed

lemma sample_v1_run:
  "\<exists>p w'. erc20_PutBlocks id sample_erc20 no_faults [sample_token_block] ((no_contracts, no_erc20_rows), sample_erc20_world) =
     (Inr (), p, w')"
proof -
  have "pure_batch map_add_holder sample_erc20 [sample_token_block] no_erc20_rows = Inr (as_map sample_erc20_rows)"
    using pure_batch_map [of sample_erc20 "[sample_token_block]" no_erc20_rows] by (simp add: as_map_empty sample_batch)
  from followsD_ok [OF batch_follows sample_sound this] obtain c' where
    "eachS (erc20_putBlock map_add_holder sample_erc20) [sample_token_block] (no_contracts, no_erc20_rows) =
       (Inr (), c', as_map sample_erc20_rows)" by blast
  then show ?thesis
    by (simp add: erc20_PutBlocks_def erc20_map_putBlock_def buf_PutBlocks_def erc20_commit_def buf_commit_def index_tx_no_faults
        erc20_flush_def sample_erc20_world_def del: eachS.simps)
qed

theorem erc20_versions_agree_witness:
  "\<exists>p w' p2 w2'. erc20_PutBlocks id sample_erc20 no_faults [sample_token_block]
      ((no_contracts, no_erc20_rows), sample_erc20_world) = (Inr (), p, w') \<and>
    erc20_v2_PutBlocks sample_erc20 no_erc20_faults [sample_token_block]
      ((no_contracts, no_erc20_rows), sample_erc20_world) = (Inr (), p2, w2') \<and> same_tables (tables w') (tables w2')"
proof -
  obtain p w' where run: "erc20_PutBlocks id sample_erc20 no_faults [sample_token_block]
      ((no_contracts, no_erc20_rows), sample_erc20_world) = (Inr (), p, w')" using sample_v1_run by blast
  have "same_tables (tables sample_erc20_world) (tables sample_erc20_world)" by (simp add: same_tables_def)
  from erc20_versions_agree [OF sample_sound sample_sound sample_named _ this run] run show ?thesis by auto
qed

theorem erc20_v2_holders_exact_witness:
  "\<exists>x p' w'. erc20_v2_PutBlocks sample_erc20 no_erc20_faults [sample_token_block]
      ((no_contracts, no_erc20_rows), sample_erc20_world) = (x, p', w') \<and> holders_ok (tables w')"
proof -
  obtain x p' w' where run: "erc20_v2_PutBlocks sample_erc20 no_erc20_faults [sample_token_block]
      ((no_contracts, no_erc20_rows), sample_erc20_world) = (x, p', w')" using prod_cases3 by blast
  have "sound_and_balanced sample_erc20 (no_contracts, no_erc20_rows)"
    by (simp add: sound_and_balanced_def sample_sound empty_balanced)
  moreover have "holders_ok (tables sample_erc20_world)"
    by (simp add: holders_ok_def sample_erc20_world_def empty_balanced) (simp add: no_erc20_rows_def)
  ultimately show ?thesis
    using erc20_v2_holders_exact [OF _ sample_named _ _ _ _ run] run by (auto simp: no_erc20_faults_def)
qed

theorem erc20_v2_retry_doubles_approvals_witness:
  "\<exists>p' p'' w''. erc20_v2_PutBlocks sample_erc20 (no_erc20_faults\<lparr>f2_transfers := True\<rparr>) [sample_token_block]
      ((no_contracts, no_erc20_rows), sample_erc20_world) = (Inl DbError, p', sample_erc20_world) \<and>
    erc20_v2_PutBlocks sample_erc20 no_erc20_faults [sample_token_block] (p', sample_erc20_world) = (Inr (), p'', w'') \<and>
    e2_approvals (tables w'') = [sample_approval, sample_approval]"
proof -
  have "e2_transfers sample_erc20_rows \<noteq> []" "e2_approvals sample_erc20_rows = [sample_approval]"
      "e2_approvals (tables sample_erc20_world) = []"
    by (simp_all add: sample_erc20_rows_def sample_erc20_world_def no_erc20_rows_def)
  with erc20_v2_retry_doubles_approvals [OF sample_sound sample_batch _ _,
      of "no_erc20_faults\<lparr>f2_transfers := True\<rparr>" sample_erc20_world]
  show ?thesis by auto
qed

theorem refused_call_forgets_contract_witness:
  "\<exists>c'. isErc20 (sample_erc20\<lparr>e2_read := \<lambda>_ _. Inl (RpcError)\<rparr>) ''io_token'' transferSha3 [] no_contracts = (Inr False, c') \<and>
    (\<forall>x p'. eachS (erc20_putBlock slice_add sample_erc20) [sample_token_block] (c', no_erc20_rows) = (x, p') \<longrightarrow>
       fst (rows_of_contract ''io_token'' (snd p')) = [])"
proof -
  have "\<exists>c'. isErc20 (sample_erc20\<lparr>e2_read := \<lambda>_ _. Inl (RpcError)\<rparr>) ''io_token'' transferSha3 [] no_contracts = (Inr False, c') \<and>
    (\<forall>later blks rows x p'. eachS (erc20_putBlock slice_add later) blks (c', rows) = (x, p') \<longrightarrow>
       rows_of_contract ''io_token'' (snd p') = rows_of_contract ''io_token'' rows)"
    by (rule refused_call_forgets_contract [OF _ _ sample_checked(1), where call = totalSupplyString and err = RpcError])
      (simp_all add: no_contracts_def)
  then show ?thesis by (fastforce simp: rows_of_contract_def no_erc20_rows_def)
qed

end
