(* ===== verification/TokenTablesProps.thy ===== *)
theory TokenTablesProps
  imports TokenTables Erc20Props "HOL-Library.Multiset"
begin

text \<open>
  Properties of the ERC-721 and ERC-1155 plugins: their versions agree, what the holder tables contain, and
  what a log without topics does.
\<close>

subsection \<open>What a contract's answer alone determines\<close>

definition gated_pure :: "(log \<Rightarrow> bool res) \<Rightarrow> (block \<Rightarrow> receipt \<Rightarrow> log \<Rightarrow> 'r \<Rightarrow> 'r res) \<Rightarrow> block \<Rightarrow> receipt \<Rightarrow> log \<Rightarrow> 'r \<Rightarrow> 'r res" where
  "gated_pure verdict rows blk r l s = bindE (verdict l) (\<lambda>ok. if ok then rows blk r l s else Inr s)"

definition gated_pure_block :: "(log \<Rightarrow> bool res) \<Rightarrow> (block \<Rightarrow> receipt \<Rightarrow> log \<Rightarrow> 'r \<Rightarrow> 'r res) \<Rightarrow> block \<Rightarrow> 'r \<Rightarrow> 'r res" where
  "gated_pure_block verdict rows blk =
     foldE (\<lambda>r. if r_status r \<noteq> receipt_success then Inr else foldE (gated_pure verdict rows blk r) (r_logs r)) (b_receipts blk)"

text \<open>\<open>decides P check verdict\<close>: where \<open>P\<close> holds of the maps, the check answers the verdict and keeps \<open>P\<close>.\<close>

definition decides ::
  "(contract_cache \<Rightarrow> bool) \<Rightarrow> (log \<Rightarrow> contract_cache \<Rightarrow> bool res \<times> contract_cache) \<Rightarrow> (log \<Rightarrow> bool res) \<Rightarrow> bool" where
  "decides P check verdict \<longleftrightarrow> (\<forall>l c. P c \<longrightarrow> (\<exists>c'. P c' \<and> check l c = (verdict l, c')))"

lemma decidesD: "decides P check verdict \<Longrightarrow> P c \<Longrightarrow> \<exists>c'. P c' \<and> check l c = (verdict l, c')"
  by (simp add: decides_def)

lemma gated_log_follows:
  assumes "decides P check verdict"
  shows "follows P (gated_log check rows blk r l) (gated_pure verdict rows blk r l)"
proof (rule followsI)
  fix c s s' assume c: "P c" and run: "gated_pure verdict rows blk r l s = Inr s'"
  from decidesD [OF assms c, of l] run
  show "\<exists>c'. P c' \<and> gated_log check rows blk r l (c, s) = (Inr (), c', s')"
    by (auto simp: gated_log_def gated_pure_def bindE_eq_Inr split: if_splits)
next
  fix c s e assume c: "P c" and run: "gated_pure verdict rows blk r l s = Inl e"
  from decidesD [OF assms c, of l] run
  show "\<exists>c' s'. P c' \<and> gated_log check rows blk r l (c, s) = (Inl e, c', s')"
    by (auto simp: gated_log_def gated_pure_def bindE_eq_Inl split: if_splits)
qed

lemma gated_block_follows:
  assumes "decides P check verdict"
  shows "follows P (gated_block check rows blk) (gated_pure_block verdict rows blk)"
  unfolding gated_block_def gated_pure_block_def
proof (rule follows_eachS)
  fix r
  show "follows P
    (if r_status r \<noteq> receipt_success then decodedS (Inr ()) else eachS (gated_log check rows blk r) (r_logs r))
    (if r_status r \<noteq> receipt_success then Inr else foldE (gated_pure verdict rows blk r) (r_logs r))"
  proof (cases "r_status r = receipt_success")
    case True
    then show ?thesis using follows_eachS [OF gated_log_follows [OF assms]] by simp
  next
    case False
    then show ?thesis by (auto simp: follows_def decodedS_def)
  qed
qed

lemma cached_check_answers:
  assumes "cache_sound check c"
  shows "\<exists>c'. cache_sound check c' \<and> cached_check check a c = (check a, c')"
proof (intro exI conjI)
  show "cached_check check a c = (check a, snd (cached_check check a c))"
    by (simp add: prod_eq_iff cached_check_sound [OF assms])
qed (rule cached_check_sound [OF assms])

lemma declares_decides:
  "decides (cache_sound (CheckInterfaceID (te_read env) iface)) (declares env iface)
     (\<lambda>l. CheckInterfaceID (te_read env) iface (log_address l))"
  by (auto simp: decides_def declares_def intro: cached_check_answers)

definition probed_721 :: "nft_env \<Rightarrow> log \<Rightarrow> bool" where
  "probed_721 env l \<longleftrightarrow> check721Topics (topics_text l) (hex_encode (log_data l)) \<and> probe721 (t1_read env) (log_address l)"

definition probed_1155 :: "nft_env \<Rightarrow> log \<Rightarrow> bool" where
  "probed_1155 env l \<longleftrightarrow> log_address l \<noteq> [] \<and> 2 \<le> length (log_topics l) \<and> TokenHoldersV1.checkTopics (topics_text l) \<and>
     probe1155 (t1_read env) (log_address l)"

lemma probed_721_decides:
  "decides (cache_sound (\<lambda>a. Inr (probe721 (t1_read env) a))) (erc721_probed env) (\<lambda>l. Inr (probed_721 env l))"
  unfolding decides_def
proof (intro allI impI)
  fix l c assume "cache_sound (\<lambda>a. Inr (probe721 (t1_read env) a)) c"
  from cached_check_answers [OF this, of "log_address l"] this
  show "\<exists>c'. cache_sound (\<lambda>a. Inr (probe721 (t1_read env) a)) c' \<and> erc721_probed env l c = (Inr (probed_721 env l), c')"
    by (auto simp: erc721_probed_def probed_721_def)
qed

lemma probed_1155_decides:
  "decides (cache_sound (\<lambda>a. Inr (probe1155 (t1_read env) a))) (erc1155_probed env) (\<lambda>l. Inr (probed_1155 env l))"
  unfolding decides_def
proof (intro allI impI)
  fix l c assume "cache_sound (\<lambda>a. Inr (probe1155 (t1_read env) a)) c"
  from cached_check_answers [OF this, of "log_address l"] this
  show "\<exists>c'. cache_sound (\<lambda>a. Inr (probe1155 (t1_read env) a)) c' \<and> erc1155_probed env l c = (Inr (probed_1155 env l), c')"
    by (auto simp: erc1155_probed_def probed_1155_def)
qed

subsection \<open>A transaction per block\<close>

definition stored_block ::
  "string \<Rightarrow> (log \<Rightarrow> bool res) \<Rightarrow> (block \<Rightarrow> receipt \<Rightarrow> log \<Rightarrow> 'r \<Rightarrow> 'r res) \<Rightarrow> block \<Rightarrow> 'r world \<Rightarrow> 'r world res" where
  "stored_block name verdict create blk w =
     map_res (\<lambda>t. update_height_row name (b_height blk)
         (w\<lparr>tables := t, index_cache := (index_cache w)(name \<mapsto> b_height blk)\<rparr>))
       (gated_pure_block verdict create blk (tables w))"

lemma tx_follows:
  assumes "decides P check verdict"
  shows "follows P (tx_PutBlock name check create no_faults blk) (stored_block name verdict create blk)"
proof (rule followsI)
  fix c w w' assume c: "P c" and run: "stored_block name verdict create blk w = Inr w'"
  then obtain t where t: "gated_pure_block verdict create blk (tables w) = Inr t"
    by (auto simp: stored_block_def map_res_eq)
  from followsD_ok [OF gated_block_follows [OF assms] c t] run t
  show "\<exists>c'. P c' \<and> tx_PutBlock name check create no_faults blk (c, w) = (Inr (), c', w')"
    by (auto simp: tx_PutBlock_def stored_block_def index_tx_no_faults)
next
  fix c w e assume c: "P c" and run: "stored_block name verdict create blk w = Inl e"
  then have t: "gated_pure_block verdict create blk (tables w) = Inl e"
    by (auto simp: stored_block_def map_res_eq)
  from followsD_error [OF gated_block_follows [OF assms] c t]
  show "\<exists>c' s'. P c' \<and> tx_PutBlock name check create no_faults blk (c, w) = (Inl e, c', s')"
    by (auto simp: tx_PutBlock_def)
qed

lemma stored_batch: "map_res tables (foldE (stored_block name verdict create) blks w) = foldE (gated_pure_block verdict create) blks (tables w)"
proof (rule foldE_simulation)
  fix blk w
  show "map_res tables (stored_block name verdict create blk w) = gated_pure_block verdict create blk (tables w)"
    by (cases "gated_pure_block verdict create blk (tables w)") (simp_all add: stored_block_def update_height_row_def)
qed

lemma tx_batch:
  assumes "decides P check verdict" and "P c"
    and "eachS (tx_PutBlock name check create no_faults) blks (c, w) = (Inr (), c', w')"
  shows "foldE (gated_pure_block verdict create) blks (tables w) = Inr (tables w')"
proof (cases "foldE (stored_block name verdict create) blks w")
  case (Inl e)
  from followsD_error [OF follows_eachS [OF tx_follows [OF assms(1)]] assms(2) Inl] assms(3) show ?thesis by auto
next
  case (Inr v)
  from followsD_ok [OF follows_eachS [OF tx_follows [OF assms(1)]] assms(2) Inr] assms(3) have "v = w'" by auto
  with stored_batch [of name verdict create blks w] Inr show ?thesis by simp
qed

lemma tx_batch_runs:
  assumes "decides P check verdict" and "P c" and "foldE (gated_pure_block verdict create) blks (tables w) = Inr t"
  shows "\<exists>c' w'. eachS (tx_PutBlock name check create no_faults) blks (c, w) = (Inr (), c', w') \<and> tables w' = t"
proof -
  from stored_batch [of name verdict create blks w] assms(3)
  obtain v where v: "foldE (stored_block name verdict create) blks w = Inr v" "tables v = t" by (auto simp: map_res_eq)
  from followsD_ok [OF follows_eachS [OF tx_follows [OF assms(1)]] assms(2) v(1)] v(2) show ?thesis by blast
qed

lemma foldE_cong: "(\<And>x s. x \<in> set xs \<Longrightarrow> f x s = g x s) \<Longrightarrow> foldE f xs s = foldE g xs s"
  by (induction xs arbitrary: s) (auto simp: bindE_def split: sum.splits)

text \<open>The logs that the plugins look at.\<close>

definition read_logs :: "block \<Rightarrow> log set" where
  "read_logs blk = {l. \<exists>r \<in> set (b_receipts blk). r_status r = receipt_success \<and> l \<in> set (r_logs r)}"

lemma gated_pure_block_cong:
  assumes "\<And>r l s. l \<in> read_logs blk \<Longrightarrow> gated_pure v rows blk r l s = gated_pure v' rows' blk r l s"
  shows "gated_pure_block v rows blk s = gated_pure_block v' rows' blk s"
  unfolding gated_pure_block_def
proof (rule foldE_cong)
  fix r s assume "r \<in> set (b_receipts blk)"
  then show "(if r_status r \<noteq> receipt_success then Inr else foldE (gated_pure v rows blk r) (r_logs r)) s =
      (if r_status r \<noteq> receipt_success then Inr else foldE (gated_pure v' rows' blk r) (r_logs r)) s"
    using assms by (auto simp: read_logs_def intro!: foldE_cong)
qed

lemma gated_pure_simulation:
  assumes "\<And>blk r l s. map_res a (rows blk r l s) = rows' blk r l (a s)"
  shows "map_res a (foldE (gated_pure_block v rows) blks s) = foldE (gated_pure_block v rows') blks (a s)"
proof -
  have one: "map_res a (gated_pure v rows blk r l s) = gated_pure v rows' blk r l (a s)" for blk r l s
    using assms by (cases "v l") (auto simp: gated_pure_def)
  have "map_res a (gated_pure_block v rows blk s) = gated_pure_block v rows' blk (a s)" for blk s
    unfolding gated_pure_block_def by (rule foldE_simulation) (auto intro: foldE_simulation one)
  then show ?thesis by (rule foldE_simulation)
qed

subsection \<open>ERC-721\<close>

text \<open>The tables after the rows that a batch gathered in slices, where a holder is written if it is not there.\<close>

definition add_721 :: "erc721_rows \<Rightarrow> erc721_rows \<Rightarrow> erc721_rows" where
  "add_721 t rows = \<lparr>n_transfers = n_transfers t @ n_transfers rows, n_approvals = n_approvals t @ n_approvals rows,
     n_alls = n_alls t @ n_alls rows, n_holders = fold map_add_holder (n_holders rows) (n_holders t)\<rparr>"

lemma add_721_none: "add_721 t no_erc721_rows = t"
  by (simp add: add_721_def no_erc721_rows_def)

lemma add_721_event: "add_721 t (erc721_add slice_add l ev rows) = erc721_add map_add_holder l ev (add_721 t rows)"
  by (auto simp: add_721_def erc721_add_def fold_slice fold_map comp_def split: prod.splits)

lemma add_721_rows:
  "map_res (add_721 t) (erc721_rows_of slice_add env blk r l rows) = erc721_rows_of map_add_holder env blk r l (add_721 t rows)"
  by (cases "erc721_event env blk r l") (simp_all add: erc721_rows_of_def add_721_event)

lemma add_721_batch:
  "map_res (add_721 t) (foldE (gated_pure_block v (erc721_rows_of slice_add env)) blks rows) =
     foldE (gated_pure_block v (erc721_rows_of map_add_holder env)) blks (add_721 t rows)"
  by (rule gated_pure_simulation) (rule add_721_rows)

lemma erc721_add_none: "erc721_add add l ([], [], [], []) t = t"
  by (simp add: erc721_add_def)

definition known_721 :: "log \<Rightarrow> bool" where
  "known_721 l \<longleftrightarrow> log_topics l \<noteq> [] \<and>
     hex_encode (hd (log_topics l)) \<in> {TransferString, ApproveString, ApprovalForAllString}"

text \<open>
  The two ways of recognising a contract agree on a log: it answers the question for the interface, it
  has topics if it is a token contract, and for an event of the standard both say the same.
\<close>

definition same_verdict_721 :: "nft_env \<Rightarrow> log \<Rightarrow> bool" where
  "same_verdict_721 env l \<longleftrightarrow> (\<exists>ok. CheckInterfaceID (te_read env) ERC721InterfaceID (log_address l) = Inr ok \<and>
     (ok \<longrightarrow> log_topics l \<noteq> []) \<and> (known_721 l \<longrightarrow> ok = probed_721 env l))"

lemma topics_text_empty: "log_topics l = [] \<Longrightarrow> topics_text l = []"
  by (simp add: topics_text_def)

lemma unknown_721: "log_topics l \<noteq> [] \<Longrightarrow> \<not> known_721 l \<Longrightarrow> erc721_event env blk r l = Inr ([], [], [], [])"
  by (cases "log_topics l") (auto simp: erc721_event_def known_721_def)

lemma verdicts_721:
  assumes "same_verdict_721 env l" and "\<not> ne_refused env l"
  shows "gated_pure (\<lambda>l. Inr (probed_721 env l)) (erc721_create env) blk r l t =
    gated_pure (\<lambda>l. CheckInterfaceID (te_read env) ERC721InterfaceID (log_address l)) (erc721_rows_of map_add_holder env) blk r l t"
proof -
  obtain ok where ok: "CheckInterfaceID (te_read env) ERC721InterfaceID (log_address l) = Inr ok"
    and topics: "ok \<longrightarrow> log_topics l \<noteq> []" and agree: "known_721 l \<longrightarrow> ok = probed_721 env l"
    using assms(1) unfolding same_verdict_721_def by blast
  have probed: "probed_721 env l \<Longrightarrow> log_topics l \<noteq> []"
    using topics_text_empty [of l] by (auto simp: probed_721_def check721Topics_def)
  show ?thesis
  proof (cases "known_721 l")
    case True
    with agree assms(2) show ?thesis by (simp add: gated_pure_def ok erc721_create_def erc721_rows_of_def)
  next
    case False
    then show ?thesis
      using topics probed unknown_721 [of l env blk r] assms(2)
      by (auto simp: gated_pure_def ok erc721_create_def erc721_rows_of_def erc721_add_none)
  qed
qed

definition same_721 :: "erc721_rows \<Rightarrow> erc721_rows \<Rightarrow> bool" where
  "same_721 a b \<longleftrightarrow> n_transfers a = n_transfers b \<and> n_approvals a = n_approvals b \<and> n_alls a = n_alls b \<and>
     set (n_holders a) = set (n_holders b)"

abbreviation "sound_721 env \<equiv> cache_sound (CheckInterfaceID (te_read env) ERC721InterfaceID)"
abbreviation "sound_probes_721 env \<equiv> cache_sound (\<lambda>a. Inr (probe721 (t1_read env) a))"

lemma v2_721_run:
  assumes "sound_721 env c" and "blks \<noteq> []"
    and "foldE (gated_pure_block (\<lambda>l. CheckInterfaceID (te_read env) ERC721InterfaceID (log_address l))
           (erc721_rows_of map_add_holder env)) blks no_erc721_rows = Inr rows"
  shows "\<exists>c' w'. erc721_v2_PutBlocks order env no_faults blks ((c, no_erc721_rows), w) = (Inr (), (c', no_erc721_rows), w') \<and>
    sound_721 env c' \<and> erc721_v2_flush order (c', rows) (tables w) = Inr (tables w')"
proof -
  from followsD_ok [OF follows_eachS [OF gated_block_follows [OF declares_decides]] assms(1,3)] obtain c'
    where c': "sound_721 env c'" and run: "eachS (erc721_v2_putBlock env) blks (c, no_erc721_rows) = (Inr (), c', rows)"
    unfolding erc721_v2_putBlock_def by blast
  have "\<exists>w'. buf_commit no_faults ''erc721_2.2.3'' (erc721_v2_flush order) (\<lambda>p. (fst p, no_erc721_rows)) (b_height (last blks))
      ((c', rows), w) = (Inr (), (c', no_erc721_rows), w') \<and> erc721_v2_flush order (c', rows) (tables w) = Inr (tables w')"
    by (simp add: buf_commit_def index_tx_no_faults erc721_v2_flush_def update_height_row_def)
  with c' run assms(2) show ?thesis by (auto simp: erc721_v2_PutBlocks_def buf_PutBlocks_def)
qed

text \<open>The rows of one contract, and what the logs of the contract add to them.\<close>

definition of_contract :: "string \<Rightarrow> erc721_rows \<Rightarrow> erc721_rows" where
  "of_contract a t = \<lparr>n_transfers = filter (\<lambda>x. xn_contract x = a) (n_transfers t),
     n_approvals = filter (\<lambda>x. an_contract x = a) (n_approvals t), n_alls = filter (\<lambda>x. fn_contract x = a) (n_alls t),
     n_holders = filter (\<lambda>h. h2_contract h = a) (n_holders t)\<rparr>"

definition contract_rows ::
  "(erc20_holder \<Rightarrow> erc20_holder list \<Rightarrow> erc20_holder list) \<Rightarrow> nft_env \<Rightarrow> string \<Rightarrow> block \<Rightarrow> receipt \<Rightarrow> log \<Rightarrow> erc721_rows \<Rightarrow> erc721_rows res" where
  "contract_rows add env a blk r l s =
     (if log_address l = a \<and> known_721 l \<and> CheckInterfaceID (te_read env) ERC721InterfaceID a = Inr True
      then erc721_rows_of add env blk r l s else Inr s)"

lemma contract_rows_batch:
  "map_res (add_721 t) (foldE (gated_pure_block v (contract_rows slice_add env a)) blks rows) =
     foldE (gated_pure_block v (contract_rows map_add_holder env a)) blks (add_721 t rows)"
  by (rule gated_pure_simulation) (simp add: contract_rows_def add_721_rows)

lemma filter_map_add:
  "filter (\<lambda>h. h2_contract h = a) (map_add_holder h hs) =
     (if h2_contract h = a then map_add_holder h (filter (\<lambda>h. h2_contract h = a) hs) else filter (\<lambda>h. h2_contract h = a) hs)"
  by (auto simp: map_add_holder_def)

lemma filter_fold_map_add:
  "filter (\<lambda>h. h2_contract h = a) (fold (\<lambda>x. map_add_holder \<lparr>h2_contract = k, h2_holder = x\<rparr>) xs hs) =
     (if k = a then fold (\<lambda>x. map_add_holder \<lparr>h2_contract = k, h2_holder = x\<rparr>) xs (filter (\<lambda>h. h2_contract h = a) hs)
      else filter (\<lambda>h. h2_contract h = a) hs)"
  by (induction xs arbitrary: hs) (auto simp: filter_map_add)

lemma event_of_contract:
  assumes "erc721_event env blk r l = Inr ev"
  shows "of_contract a (erc721_add map_add_holder l ev s) =
    (if log_address l = a then erc721_add map_add_holder l ev (of_contract a s) else of_contract a s)"
proof -
  obtain ts as fs hs where ev: "ev = (ts, as, fs, hs)" by (cases ev)
  have "(\<forall>x \<in> set ts. xn_contract x = log_address l) \<and> (\<forall>x \<in> set as. an_contract x = log_address l) \<and>
      (\<forall>x \<in> set fs. fn_contract x = log_address l)"
    using assms unfolding ev erc721_event_def
    by (auto simp: erc721_transfer_row_def erc721_approval_row_def approval_all_row_def bindE_eq_Inr split: if_splits)
  then have "filter (\<lambda>x. xn_contract x = a) ts = (if log_address l = a then ts else [])"
    "filter (\<lambda>x. an_contract x = a) as = (if log_address l = a then as else [])"
    "filter (\<lambda>x. fn_contract x = a) fs = (if log_address l = a then fs else [])"
    by (auto simp: filter_empty_conv intro: filter_True)
  then show ?thesis by (simp add: of_contract_def erc721_add_def ev filter_fold_map_add)
qed

lemma foldE_follow:
  assumes "\<And>x s s'. x \<in> set xs \<Longrightarrow> f x s = Inr s' \<Longrightarrow> g x (a s) = Inr (a s')"
  shows "foldE f xs s = Inr s' \<Longrightarrow> foldE g xs (a s) = Inr (a s')"
  using assms by (induction xs arbitrary: s) (auto simp: bindE_eq_Inr)

lemma gated_pure_block_follow:
  assumes "\<And>r l s s'. l \<in> read_logs blk \<Longrightarrow> gated_pure v rows blk r l s = Inr s' \<Longrightarrow> gated_pure v' rows' blk r l (a s) = Inr (a s')"
    and "gated_pure_block v rows blk s = Inr s'"
  shows "gated_pure_block v' rows' blk (a s) = Inr (a s')"
  using assms(2) unfolding gated_pure_block_def
proof (rule foldE_follow [rotated])
  fix r s s' assume r: "r \<in> set (b_receipts blk)"
    and run: "(if r_status r \<noteq> receipt_success then Inr else foldE (gated_pure v rows blk r) (r_logs r)) s = Inr s'"
  show "(if r_status r \<noteq> receipt_success then Inr else foldE (gated_pure v' rows' blk r) (r_logs r)) (a s) = Inr (a s')"
  proof (cases "r_status r = receipt_success")
    case True
    with r have "l \<in> read_logs blk" if "l \<in> set (r_logs r)" for l using that by (auto simp: read_logs_def)
    with run True show ?thesis by (auto intro: foldE_follow assms(1))
  qed (use run in simp)
qed

text \<open>
  The two ways of recognising a contract agree: it answers the question for the interface, and on its logs
  with an event of the standard the answer is what calling balanceOf, approve, ownerOf and decimals says.
\<close>

definition recognised_alike :: "nft_env \<Rightarrow> string \<Rightarrow> block list \<Rightarrow> bool" where
  "recognised_alike env a blks \<longleftrightarrow> (\<exists>ok. CheckInterfaceID (te_read env) ERC721InterfaceID a = Inr ok \<and>
     (\<forall>blk \<in> set blks. \<forall>l \<in> read_logs blk. log_address l = a \<and> known_721 l \<longrightarrow> ok = probed_721 env l))"

lemma created_of_contract:
  assumes "recognised_alike env a blks" and "blk \<in> set blks" and "l \<in> read_logs blk"
    and "gated_pure (\<lambda>l. Inr (probed_721 env l)) (erc721_create env) blk r l s = Inr s'"
  shows "gated_pure (\<lambda>_. Inr True) (contract_rows map_add_holder env a) blk r l (of_contract a s) = Inr (of_contract a s')"
proof (cases "probed_721 env l")
  case False
  with assms show ?thesis by (auto simp: gated_pure_def contract_rows_def recognised_alike_def)
next
  case True
  then have topics: "log_topics l \<noteq> []" using topics_text_empty [of l] by (auto simp: probed_721_def check721Topics_def)
  from assms(4) True obtain ev where ev: "erc721_event env blk r l = Inr ev" "s' = erc721_add map_add_holder l ev s"
    by (auto simp: gated_pure_def erc721_create_def bindE_eq_Inr split: if_splits)
  have none: "\<not> known_721 l \<Longrightarrow> s' = s"
    using unknown_721 [OF topics, of env blk r] ev by (simp add: erc721_add_none)
  show ?thesis
  proof (cases "known_721 l")
    case False
    with none show ?thesis by (simp add: gated_pure_def contract_rows_def)
  next
    case known: True
    with assms(1-3) True have "log_address l = a \<Longrightarrow> CheckInterfaceID (te_read env) ERC721InterfaceID a = Inr True"
      by (auto simp: recognised_alike_def)
    with known event_of_contract [OF ev(1), of a s] ev show ?thesis
      by (auto simp: gated_pure_def contract_rows_def erc721_rows_of_def)
  qed
qed

lemma gathered_of_contract:
  assumes "gated_pure (\<lambda>l. CheckInterfaceID (te_read env) ERC721InterfaceID (log_address l))
      (erc721_rows_of map_add_holder env) blk r l s = Inr s'"
  shows "gated_pure (\<lambda>_. Inr True) (contract_rows map_add_holder env a) blk r l (of_contract a s) = Inr (of_contract a s')"
proof (cases "CheckInterfaceID (te_read env) ERC721InterfaceID (log_address l) = Inr True")
  case False
  with assms show ?thesis by (auto simp: gated_pure_def contract_rows_def bindE_eq_Inr split: if_splits)
next
  case True
  with assms obtain ev where ev: "erc721_event env blk r l = Inr ev" "s' = erc721_add map_add_holder l ev s"
    by (auto simp: gated_pure_def erc721_rows_of_def bindE_eq_Inr)
  then have topics: "log_topics l \<noteq> []" by (auto simp: erc721_event_def idx_def)
  have none: "\<not> known_721 l \<Longrightarrow> s' = s"
    using unknown_721 [OF topics, of env blk r] ev by (simp add: erc721_add_none)
  show ?thesis
    using True none event_of_contract [OF ev(1), of a s] ev
    by (auto simp: gated_pure_def contract_rows_def erc721_rows_of_def)
qed

lemma v2_721_gathered:
  assumes "sound_721 env c" and "erc721_v2_PutBlocks order env f blks ((c, no_erc721_rows), w) = (Inr (), p', w')"
  obtains rows where "foldE (gated_pure_block (\<lambda>l. CheckInterfaceID (te_read env) ERC721InterfaceID (log_address l))
      (erc721_rows_of map_add_holder env)) blks no_erc721_rows = Inr rows"
    and "erc721_v2_flush order (c, rows) (tables w) = Inr (tables w')"
proof -
  let ?pure = "foldE (gated_pure_block (\<lambda>l. CheckInterfaceID (te_read env) ERC721InterfaceID (log_address l))
      (erc721_rows_of map_add_holder env)) blks no_erc721_rows"
  from assms(2) obtain p1 where run: "eachS (erc721_v2_putBlock env) blks (c, no_erc721_rows) = (Inr (), p1)"
    and flush: "erc721_v2_flush order p1 (tables w) = Inr (tables w')"
    unfolding erc721_v2_PutBlocks_def by (auto elim: buf_PutBlocks_ok)
  note follow = follows_eachS [OF gated_block_follows [OF declares_decides]]
  show ?thesis
  proof (cases ?pure)
    case (Inl e)
    from followsD_error [OF follow assms(1) Inl] run show ?thesis by (auto simp: erc721_v2_putBlock_def)
  next
    case (Inr rows)
    from followsD_ok [OF follow assms(1) Inr] run have "snd p1 = rows" by (auto simp: erc721_v2_putBlock_def)
    with that [OF Inr] flush show ?thesis by (simp add: erc721_v2_flush_def)
  qed
qed

text \<open>
  C20: erc721 and erc721_v2 store the same of a contract that both recognise alike. Where a contract answers
  the question for the ERC-721 interface as it answers the calls of the standard, the blocks that erc721 stores
  one at a time and erc721_v2 stores in one batch leave the same transfers, approvals and operators of the
  contract, in the same order, and the same set of its holders, whatever the other contracts are.
\<close>

theorem erc721_versions_agree:
  assumes "recognised_alike env a blks" and "sound_probes_721 env c" and "sound_721 env c2"
    and "\<And>hs. set (order hs) = set hs" and "same_721 (of_contract a (tables w)) (of_contract a (tables w2))"
    and "eachS (erc721_PutBlock env no_faults) blks (c, w) = (Inr (), c', w')"
    and "erc721_v2_PutBlocks order env f blks ((c2, no_erc721_rows), w2) = (Inr (), p2, w2')"
  shows "same_721 (of_contract a (tables w')) (of_contract a (tables w2'))"
proof -
  let ?map = "gated_pure_block (\<lambda>_. Inr True) (contract_rows map_add_holder env a)"
  let ?slice = "gated_pure_block (\<lambda>_. Inr True) (contract_rows slice_add env a)"
  have "foldE (gated_pure_block (\<lambda>l. Inr (probed_721 env l)) (erc721_create env)) blks (tables w) = Inr (tables w')"
    using assms(6) unfolding erc721_PutBlock_def by (rule tx_batch [OF probed_721_decides assms(2)])
  then have 1: "foldE ?map blks (of_contract a (tables w)) = Inr (of_contract a (tables w'))"
    by (rule foldE_follow [rotated])
      (erule gated_pure_block_follow [rotated], rule created_of_contract [OF assms(1)])
  from v2_721_gathered [OF assms(3,7)] obtain mem
    where mem: "foldE (gated_pure_block (\<lambda>l. CheckInterfaceID (te_read env) ERC721InterfaceID (log_address l))
        (erc721_rows_of map_add_holder env)) blks no_erc721_rows = Inr mem"
      and flush: "erc721_v2_flush order (c2, mem) (tables w2) = Inr (tables w2')" .
  from mem have "foldE ?map blks (of_contract a no_erc721_rows) = Inr (of_contract a mem)"
    by (rule foldE_follow [rotated]) (erule gated_pure_block_follow [rotated], rule gathered_of_contract)
  then have 2: "foldE ?map blks (add_721 no_erc721_rows no_erc721_rows) = Inr (of_contract a mem)"
    by (simp add: add_721_none) (simp add: of_contract_def no_erc721_rows_def)
  from contract_rows_batch [of no_erc721_rows "\<lambda>_. Inr True" env a blks no_erc721_rows] 2
  obtain rows where rows: "foldE ?slice blks no_erc721_rows = Inr rows" and m: "of_contract a mem = add_721 no_erc721_rows rows"
    by (auto simp: map_res_eq)
  have t: "of_contract a (tables w') = add_721 (of_contract a (tables w)) rows"
    using contract_rows_batch [of "of_contract a (tables w)" "\<lambda>_. Inr True" env a blks no_erc721_rows] rows 1
    by (simp add: add_721_none)
  have "tables w2' = \<lparr>n_transfers = n_transfers (tables w2) @ n_transfers mem,
      n_approvals = n_approvals (tables w2) @ n_approvals mem, n_alls = n_alls (tables w2) @ n_alls mem,
      n_holders = n_holders (tables w2) @ order (n_holders mem)\<rparr>"
    using flush by (simp add: erc721_v2_flush_def)
  moreover have "n_transfers (of_contract a mem) = n_transfers rows" "n_approvals (of_contract a mem) = n_approvals rows"
    "n_alls (of_contract a mem) = n_alls rows"
    "set (n_holders (of_contract a mem)) = {h \<in> set (n_holders rows). h2_holder h \<noteq> []}"
    unfolding m by (simp_all add: add_721_def no_erc721_rows_def fold_map_add_set)
  ultimately have "same_721 (of_contract a (tables w2')) (add_721 (of_contract a (tables w2)) rows)"
    by (simp add: same_721_def of_contract_def add_721_def fold_map_add_set assms(4) Collect_disj_eq conj_disj_distribR)
  with assms(5) show ?thesis by (auto simp: t same_721_def add_721_def fold_map_add_set)
qed

text \<open>The parties of transfers, as rows of the holder table.\<close>

definition parties_721 :: "erc721_transfer list \<Rightarrow> erc20_holder set" where
  "parties_721 ts = {h. h2_holder h \<noteq> [] \<and> (\<exists>x \<in> set ts. h2_contract h = xn_contract x \<and>
     (h2_holder h = xn_sender x \<or> h2_holder h = xn_recipient x))}"

definition exact_721 :: "erc721_rows \<Rightarrow> bool" where
  "exact_721 t \<longleftrightarrow> distinct (n_holders t) \<and> set (n_holders t) = parties_721 (n_transfers t)"

lemma parties_721_append: "parties_721 (xs @ ys) = parties_721 xs \<union> parties_721 ys"
  by (auto simp: parties_721_def)

lemma parties_721_row: "parties_721 [erc721_transfer_row blk r l a b i] =
    {h \<in> {\<lparr>h2_contract = log_address l, h2_holder = a\<rparr>, \<lparr>h2_contract = log_address l, h2_holder = b\<rparr>}. h2_holder h \<noteq> []}"
proof (rule set_eqI)
  fix h :: erc20_holder
  obtain k x where "h = \<lparr>h2_contract = k, h2_holder = x\<rparr>" by (cases h)
  then show "h \<in> parties_721 [erc721_transfer_row blk r l a b i] \<longleftrightarrow> h \<in>
      {h \<in> {\<lparr>h2_contract = log_address l, h2_holder = a\<rparr>, \<lparr>h2_contract = log_address l, h2_holder = b\<rparr>}. h2_holder h \<noteq> []}"
    by (auto simp: parties_721_def erc721_transfer_row_def)
qed

lemma fold_map_add_distinct: "distinct xs \<Longrightarrow> distinct (fold map_add_holder hs xs)"
  by (induction hs arbitrary: xs) (auto simp: map_add_holder_def)

lemma event_exact:
  assumes "erc721_event env blk r l = Inr ev" and "exact_721 t"
  shows "exact_721 (erc721_add map_add_holder l ev t)"
proof -
  obtain ts as fs hs where ev: "ev = (ts, as, fs, hs)" by (cases ev)
  let ?hs = "map (\<lambda>a. \<lparr>h2_contract = log_address l, h2_holder = a\<rparr>) hs"
  have "{h \<in> set ?hs. h2_holder h \<noteq> []} = parties_721 ts"
    using assms(1) unfolding ev erc721_event_def
    by (auto simp: parties_721_row bindE_eq_Inr split: if_splits) (auto simp: parties_721_def)
  moreover have "n_holders (erc721_add map_add_holder l ev t) = fold map_add_holder ?hs (n_holders t)"
    by (simp add: erc721_add_def ev fold_map comp_def)
  moreover have "n_transfers (erc721_add map_add_holder l ev t) = n_transfers t @ ts"
    by (simp add: erc721_add_def ev)
  ultimately show ?thesis
    using assms(2) by (simp add: exact_721_def fold_map_add_set fold_map_add_distinct parties_721_append)
qed

lemma gated_log_keeps:
  assumes "\<And>s s'. P s \<Longrightarrow> rows blk r l s = Inr s' \<Longrightarrow> P s'"
  shows "keeps (\<lambda>p. P (snd p)) (gated_log check rows blk r l)"
proof (rule keepsI)
  fix p x p' assume "P (snd p)" and "gated_log check rows blk r l p = (x, p')"
  then show "P (snd p')"
    by (cases p) (auto simp: gated_log_def dest: assms split: prod.splits sum.splits if_splits)
qed

lemma gated_block_keeps:
  assumes "\<And>r l s s'. P s \<Longrightarrow> rows blk r l s = Inr s' \<Longrightarrow> P s'"
  shows "keeps (\<lambda>p. P (snd p)) (gated_block check rows blk)"
  unfolding gated_block_def
  by (rule keeps_eachS) (auto intro!: keeps_eachS gated_log_keeps keeps_decodedS dest: assms)

lemma tx_PutBlock_keeps:
  assumes "\<And>r l s s'. P s \<Longrightarrow> create blk r l s = Inr s' \<Longrightarrow> P s'"
    and "tx_PutBlock name check create f blk (c, w) = (x, c', w')" and "P (tables w)"
  shows "P (tables w')"
proof -
  obtain y c1 t where run: "gated_block check create blk (c, tables w) = (y, c1, t)" by (metis surj_pair)
  have "keeps (\<lambda>p. P (snd p)) (gated_block check create blk)" by (rule gated_block_keeps) (rule assms(1))
  from keepsD [OF this _ run] assms(3) have t: "P t" by simp
  show ?thesis
  proof (cases y)
    case (Inl e)
    with assms(2,3) run show ?thesis by (simp add: tx_PutBlock_def)
  next
    case (Inr u)
    with assms(2) run have tx: "index_tx f name (Inr (b_height blk)) (\<lambda>_. Inr t) w = (x, w')"
      by (auto simp: tx_PutBlock_def split: prod.splits)
    show ?thesis
    proof (cases x)
      case (Inl e)
      with index_tx_error [OF tx [unfolded Inl]] assms(3) show ?thesis by simp
    next
      case (Inr v)
      with tx have "index_tx f name (Inr (b_height blk)) (\<lambda>_. Inr t) w = (Inr (), w')" by simp
      then show ?thesis by (rule index_tx_ok) (use t in simp)
    qed
  qed
qed

lemma create_exact: "exact_721 t \<Longrightarrow> erc721_create env blk r l t = Inr t' \<Longrightarrow> exact_721 t'"
  by (auto simp: erc721_create_def bindE_eq_Inr event_exact split: if_splits)

text \<open>
  C21: The holder table of erc721 is exact. Whatever blocks are put, in whatever order and with whatever
  refusals, each address that is a party of a stored transfer of a contract has one row for the
  contract, and no other address has any.
\<close>

theorem erc721_holders_exact:
  assumes "exact_721 (tables w)"
    and "fold (\<lambda>(env, f, blk) s. snd (erc721_PutBlock env f blk s)) puts (c, w) = (c', w')"
  shows "exact_721 (tables w')"
  using assms
proof (induction puts arbitrary: c w)
  case (Cons p puts)
  obtain env f blk where p: "p = (env, f, blk)" by (cases p)
  obtain x c1 w1 where run: "erc721_PutBlock env f blk (c, w) = (x, c1, w1)" by (metis surj_pair)
  have "exact_721 (tables w1)"
    using run unfolding erc721_PutBlock_def
    by (rule tx_PutBlock_keeps [where P = exact_721, rotated]) (use Cons.prems(1) create_exact in blast)+
  with Cons.IH [of w1 c1] Cons.prems(2) run show ?case by (simp add: p)
qed simp

text \<open>
  erc721_v2 writes a holder again with every batch. A batch that is stored adds one row for
  each party of its own transfers, whether the table has the row or not.
\<close>

theorem erc721_v2_repeats_holders:
  assumes "\<And>hs. mset (order hs) = mset hs"
    and "erc721_v2_PutBlocks order env f blks ((c, no_erc721_rows), w) = (Inr (), p', w')"
  shows "count (mset (n_holders (tables w'))) h = count (mset (n_holders (tables w))) h +
    (if h \<in> parties_721 (drop (length (n_transfers (tables w))) (n_transfers (tables w'))) then 1 else 0)"
proof -
  from assms(2) obtain p1 where run: "eachS (erc721_v2_putBlock env) blks (c, no_erc721_rows) = (Inr (), p1)"
    and flush: "erc721_v2_flush order p1 (tables w) = Inr (tables w')"
    unfolding erc721_v2_PutBlocks_def by (auto elim: buf_PutBlocks_ok)
  have "keeps (\<lambda>p. exact_721 (snd p)) (eachS (erc721_v2_putBlock env) blks)"
    unfolding erc721_v2_putBlock_def
    by (rule keeps_eachS) (auto intro!: gated_block_keeps simp: erc721_rows_of_def bindE_eq_Inr event_exact)
  from keepsD [OF this _ run] have exact: "exact_721 (snd p1)"
    by (simp add: exact_721_def no_erc721_rows_def parties_721_def)
  have "tables w' = \<lparr>n_transfers = n_transfers (tables w) @ n_transfers (snd p1),
      n_approvals = n_approvals (tables w) @ n_approvals (snd p1), n_alls = n_alls (tables w) @ n_alls (snd p1),
      n_holders = n_holders (tables w) @ order (n_holders (snd p1))\<rparr>"
    using flush by (simp add: erc721_v2_flush_def)
  with exact assms(1) show ?thesis by (simp add: exact_721_def distinct_count_atmost_1)
qed

lemma foldE_stuck: "x \<in> set xs \<Longrightarrow> (\<And>s. isl (f x s)) \<Longrightarrow> isl (foldE f xs s)"
proof (induction xs arbitrary: s)
  case (Cons y ys)
  then show ?case by (cases "f y s") (auto, metis isl_def sum.disc(2))
qed simp

lemma gated_pure_block_stuck:
  assumes "l \<in> read_logs blk" and "\<And>r s. isl (gated_pure v rows blk r l s)"
  shows "isl (gated_pure_block v rows blk s)"
proof -
  obtain r where "r \<in> set (b_receipts blk)" "r_status r = receipt_success" "l \<in> set (r_logs r)"
    using assms(1) by (auto simp: read_logs_def)
  then show ?thesis unfolding gated_pure_block_def by (intro foldE_stuck) (auto intro: foldE_stuck assms(2))
qed

text \<open>
  A log without topics stops erc721_v2. If a contract that declares the ERC-721 interface writes a
  log without topics, every batch with its block fails, so that the plugin never gets past it,
  while erc721 passes the log over.
\<close>

theorem topicless_log_stops_v2:
  assumes "sound_721 env c" and "CheckInterfaceID (te_read env) ERC721InterfaceID (log_address l) = Inr True"
    and "log_topics l = []" and "blk \<in> set blks" and "l \<in> read_logs blk"
  shows "isl (fst (erc721_v2_PutBlocks order env f blks ((c, rows), w))) \<and> erc721_probed env l c1 = (Inr False, c1)"
proof -
  let ?v = "\<lambda>l. CheckInterfaceID (te_read env) ERC721InterfaceID (log_address l)"
  have "isl (gated_pure ?v (erc721_rows_of map_add_holder env) blk r l s)" for r s
    using assms(2,3) by (simp add: gated_pure_def erc721_rows_of_def erc721_event_def idx_def)
  then have "isl (foldE (gated_pure_block ?v (erc721_rows_of map_add_holder env)) blks rows)"
    by (intro foldE_stuck [OF assms(4)] gated_pure_block_stuck [OF assms(5)])
  then obtain e where e: "foldE (gated_pure_block ?v (erc721_rows_of map_add_holder env)) blks rows = Inl e"
    by (auto simp: isl_def)
  from followsD_error [OF follows_eachS [OF gated_block_follows [OF declares_decides]] assms(1) e]
  have "isl (fst (erc721_v2_PutBlocks order env f blks ((c, rows), w)))"
    by (auto simp: erc721_v2_PutBlocks_def buf_PutBlocks_def erc721_v2_putBlock_def)
  moreover have "erc721_probed env l c1 = (Inr False, c1)"
    using assms(3) by (simp add: erc721_probed_def check721Topics_def topics_text_def)
  ultimately show ?thesis by blast
qed

subsection \<open>ERC-1155\<close>

definition add_1155 :: "erc1155_rows \<Rightarrow> erc1155_rows \<Rightarrow> erc1155_rows" where
  "add_1155 t rows = \<lparr>m_batch = m_batch t @ m_batch rows, m_single = m_single t @ m_single rows,
     m_uris = m_uris t @ m_uris rows, m_alls = m_alls t @ m_alls rows\<rparr>"

lemma add_1155_none: "add_1155 t no_erc1155_rows = t"
  by (simp add: add_1155_def no_erc1155_rows_def)

lemma add_1155_rows: "map_res (add_1155 t) (erc1155_rows_of env blk r l rows) = erc1155_rows_of env blk r l (add_1155 t rows)"
proof (cases "idx (log_topics l) 0")
  case (Inr topic)
  show ?thesis
    by (cases "ne_batch env l"; cases "ne_single env l"; cases "ne_uri env l"; cases "ne_all env l")
      (auto simp: erc1155_rows_of_def add_1155_def Inr split: prod.splits)
qed (simp add: erc1155_rows_of_def)

lemma add_1155_batch:
  "map_res (add_1155 t) (foldE (gated_pure_block v (erc1155_rows_of env)) blks rows) =
     foldE (gated_pure_block v (erc1155_rows_of env)) blks (add_1155 t rows)"
  by (rule gated_pure_simulation) (rule add_1155_rows)

definition known_1155 :: "log \<Rightarrow> bool" where
  "known_1155 l \<longleftrightarrow> log_topics l \<noteq> [] \<and>
     hex_encode (hd (log_topics l)) \<in> {TransferBatchString, TransferSingleString, URIString, ApprovalForAllString}"

definition same_verdict_1155 :: "nft_env \<Rightarrow> log \<Rightarrow> bool" where
  "same_verdict_1155 env l \<longleftrightarrow> (\<exists>ok. CheckInterfaceID (te_read env) ERC1155InterfaceID (log_address l) = Inr ok \<and>
     (ok \<longrightarrow> log_topics l \<noteq> []) \<and> (known_1155 l \<longrightarrow> ok = probed_1155 env l))"

lemma unknown_1155: "log_topics l \<noteq> [] \<Longrightarrow> \<not> known_1155 l \<Longrightarrow> erc1155_rows_of env blk r l t = Inr t"
  by (cases "log_topics l") (auto simp: erc1155_rows_of_def known_1155_def)

lemma verdicts_1155:
  assumes "same_verdict_1155 env l" and "\<not> ne_refused env l"
  shows "gated_pure (\<lambda>l. Inr (probed_1155 env l)) (erc1155_create env) blk r l t =
    gated_pure (\<lambda>l. CheckInterfaceID (te_read env) ERC1155InterfaceID (log_address l)) (erc1155_rows_of env) blk r l t"
proof -
  obtain ok where ok: "CheckInterfaceID (te_read env) ERC1155InterfaceID (log_address l) = Inr ok"
    and topics: "ok \<longrightarrow> log_topics l \<noteq> []" and agree: "known_1155 l \<longrightarrow> ok = probed_1155 env l"
    using assms(1) unfolding same_verdict_1155_def by blast
  have probed: "probed_1155 env l \<Longrightarrow> log_topics l \<noteq> []" by (auto simp: probed_1155_def)
  show ?thesis
  proof (cases "known_1155 l")
    case True
    with agree assms(2) show ?thesis by (simp add: gated_pure_def ok erc1155_create_def bindE_def split: sum.split)
  next
    case False
    then show ?thesis
      using topics probed unknown_1155 [of l env blk r t] assms(2)
      by (auto simp: gated_pure_def ok erc1155_create_def)
  qed
qed

text \<open>
  erc1155 and erc1155_v2 store the same. Where the contracts answer the question for the interface as
  they answer the calls of the standard, the blocks that erc1155 stores one at a time leave exactly the
  rows that erc1155_v2 stores in one batch: batch and single transfers, URIs and operators.
\<close>

theorem erc1155_versions_agree:
  assumes "cache_sound (\<lambda>a. Inr (probe1155 (t1_read env) a)) c"
    and "cache_sound (CheckInterfaceID (te_read env) ERC1155InterfaceID) c2" and "blks \<noteq> []"
    and "\<And>blk l. blk \<in> set blks \<Longrightarrow> l \<in> read_logs blk \<Longrightarrow> same_verdict_1155 env l \<and> \<not> ne_refused env l"
    and "tables w = tables w2" and "eachS (erc1155_PutBlock env no_faults) blks (c, w) = (Inr (), c', w')"
  shows "\<exists>p2 w2'. erc1155_v2_PutBlocks env no_faults blks ((c2, no_erc1155_rows), w2) = (Inr (), p2, w2') \<and>
    tables w2' = tables w'"
proof -
  let ?v = "\<lambda>l. CheckInterfaceID (te_read env) ERC1155InterfaceID (log_address l)"
  have "foldE (gated_pure_block (\<lambda>l. Inr (probed_1155 env l)) (erc1155_create env)) blks (tables w) = Inr (tables w')"
    using assms(6) unfolding erc1155_PutBlock_def by (rule tx_batch [OF probed_1155_decides assms(1)])
  moreover have "foldE (gated_pure_block (\<lambda>l. Inr (probed_1155 env l)) (erc1155_create env)) blks (tables w) =
      foldE (gated_pure_block ?v (erc1155_rows_of env)) blks (tables w)"
    using assms(4) by (intro foldE_cong gated_pure_block_cong verdicts_1155) auto
  moreover have "map_res (add_1155 (tables w)) (foldE (gated_pure_block ?v (erc1155_rows_of env)) blks no_erc1155_rows) =
      foldE (gated_pure_block ?v (erc1155_rows_of env)) blks (tables w)"
    by (simp add: add_1155_batch add_1155_none)
  ultimately obtain rows where rows: "foldE (gated_pure_block ?v (erc1155_rows_of env)) blks no_erc1155_rows = Inr rows"
    and t: "tables w' = add_1155 (tables w) rows" by (auto simp: map_res_eq)
  from followsD_ok [OF follows_eachS [OF gated_block_follows [OF declares_decides]] assms(2) rows] obtain c3
    where run: "eachS (erc1155_v2_putBlock env) blks (c2, no_erc1155_rows) = (Inr (), c3, rows)"
    unfolding erc1155_v2_putBlock_def by blast
  have "\<exists>v. buf_commit no_faults ''erc1155_2.2.2'' erc1155_v2_flush (\<lambda>p. (fst p, no_erc1155_rows)) (b_height (last blks))
      ((c3, rows), w2) = (Inr (), (c3, no_erc1155_rows), v) \<and> tables v = add_1155 (tables w2) rows"
    by (simp add: buf_commit_def index_tx_no_faults erc1155_v2_flush_def update_height_row_def add_1155_def)
  with run assms(3,5) t show ?thesis by (auto simp: erc1155_v2_PutBlocks_def buf_PutBlocks_def)
qed

subsection \<open>A sample chain\<close>

text \<open>A node for which every contract is of both standards, and its answer: a word with the value 1.\<close>

definition sample_word :: string where
  "sample_word = ''0000000000000000000000000000000000000000000000000000000000000001''"

definition sample_nft :: nft_env where
  "sample_nft = \<lparr>te_read = \<lambda>_ _. Inr (1, sample_word), te_transfer = \<lambda>_. Inr (''io_a'', ''io_b'', 5),
     te_batch = \<lambda>_. Inl RpcError, te_single = \<lambda>_. Inl RpcError, te_zero = ''io_0'', te_hash = \<lambda>_. [],
     t1_read = \<lambda>_ call. if call = ''decimals'' then Inl RpcError else Inr (1, ''00''),
     ne_approval = \<lambda>_. Inl RpcError, ne_all = \<lambda>_. Inl RpcError, ne_batch = \<lambda>_. Inl RpcError,
     ne_single = \<lambda>_. Inr (''io_o'', ''io_a'', ''io_b'', 5, 7), ne_uri = \<lambda>_. Inl RpcError, ne_refused = \<lambda>_. False\<rparr>"

definition single_topic :: hash256 where
  "single_topic = [0xc3, 0xd5, 0x81, 0x68, 0xc5, 0xae, 0x73, 0x97, 0x73, 0x1d, 0x06, 0x3d, 0x5b, 0xbf, 0x3d, 0x65,
     0x78, 0x54, 0x42, 0x73, 0x43, 0xf4, 0xc0, 0x83, 0x24, 0x0f, 0x7a, 0xac, 0xaa, 0x2d, 0x0f, 0x62]"

definition nft_block :: "u64 \<Rightarrow> hash256 list \<Rightarrow> block" where
  "nft_block h topics = \<lparr>b_height = h, b_timestamp = 9, b_actions = [], b_receipts = [
     \<lparr>r_status = receipt_success, r_action_hash = [], r_gas_consumed = 0, r_tx_index = 0,
       r_logs = [\<lparr>log_address = ''io_token'', log_topics = topics, log_data = []\<rparr>], r_tx_logs = []\<rparr>]\<rparr>"

definition nft_world :: "string \<Rightarrow> 'r \<Rightarrow> 'r world" where
  "nft_world name t = \<lparr>tables = t, heights = [name \<mapsto> 2], index_cache = Map.empty\<rparr>"

lemma sample_answer: "case hex_decode sample_word of None \<Rightarrow> False | Some bs \<Rightarrow> length bs = 32 \<and> last bs = 1"
  by code_simp

lemma sample_declares: "CheckInterfaceID (te_read sample_nft) iface a = Inr True"
  using sample_answer
  by (auto simp: CheckInterfaceID_def sample_nft_def split: option.splits)

lemma sample_topics_nft:
  "hex_encode transfer_topic = TransferString" "hex_encode single_topic = TransferSingleString"
  "check721Topics (hex_encode transfer_topic) []" "TokenHoldersV1.checkTopics (hex_encode single_topic)"
  "TransferSingleString \<noteq> TransferBatchString"
  by code_simp+

lemma sample_probes: "probe721 (t1_read sample_nft) a" "probe1155 (t1_read sample_nft) a"
  by (simp_all add: probe721_def probe1155_def TokenHoldersV1.readContract_def sample_nft_def)

lemma nft_block_logs: "l \<in> read_logs (nft_block h topics) \<longleftrightarrow> l = \<lparr>log_address = ''io_token'', log_topics = topics, log_data = []\<rparr>"
  by (simp add: read_logs_def nft_block_def)

lemma sample_probed:
  "probed_721 sample_nft \<lparr>log_address = ''io_token'', log_topics = [transfer_topic, []], log_data = []\<rparr>"
  "probed_1155 sample_nft \<lparr>log_address = ''io_token'', log_topics = [single_topic, []], log_data = []\<rparr>"
  using sample_topics_nft(3,4)
  by (simp_all add: probed_721_def probed_1155_def sample_probes topics_text_def hex_encode_def [of "[]"])

lemma sample_accepted: "\<not> ne_refused sample_nft l"
  by (simp add: sample_nft_def)

lemma sample_verdicts:
  "l \<in> read_logs (nft_block h [transfer_topic, []]) \<Longrightarrow> same_verdict_721 sample_nft l"
  "l \<in> read_logs (nft_block h [single_topic, []]) \<Longrightarrow> same_verdict_1155 sample_nft l"
  using sample_probed
  by (auto simp: nft_block_logs same_verdict_721_def same_verdict_1155_def sample_declares intro!: exI [of _ True])

definition sample_721 :: "u64 \<Rightarrow> erc721_rows" where
  "sample_721 h = \<lparr>n_transfers = [\<lparr>xn_height = h, xn_hash = [], xn_contract = ''io_token'', xn_token = 5,
       xn_sender = ''io_a'', xn_recipient = ''io_b'', xn_time = 9\<rparr>], n_approvals = [], n_alls = [],
     n_holders = [\<lparr>h2_contract = ''io_token'', h2_holder = ''io_a''\<rparr>, \<lparr>h2_contract = ''io_token'', h2_holder = ''io_b''\<rparr>]\<rparr>"

lemma sample_721_pure:
  "gated_pure_block (\<lambda>l. Inr (probed_721 sample_nft l)) (erc721_create sample_nft) (nft_block h [transfer_topic, []]) no_erc721_rows =
     Inr (sample_721 h)"
  using sample_probed(1) sample_topics_nft(1)
  by (simp add: gated_pure_block_def nft_block_def gated_pure_def erc721_create_def erc721_event_def idx_def)
    (simp add: sample_nft_def erc721_add_def no_erc721_rows_def sample_721_def erc721_transfer_row_def
      map_add_holder_def hex_encode_def)

lemma sample_721_run:
  "\<exists>c' w'. eachS (erc721_PutBlock sample_nft no_faults) [nft_block 3 [transfer_topic, []]]
     (no_contracts, nft_world ''erc721'' no_erc721_rows) = (Inr (), c', w') \<and> tables w' = sample_721 3"
  unfolding erc721_PutBlock_def
  by (rule tx_batch_runs [OF probed_721_decides])
    (simp_all add: cache_sound_def no_contracts_def nft_world_def sample_721_pure)

theorem erc721_holders_exact_witness:
  "\<exists>c' w'. fold (\<lambda>(env, f, blk) s. snd (erc721_PutBlock env f blk s))
      [(sample_nft, no_faults, nft_block 3 [transfer_topic, []])] (no_contracts, nft_world ''erc721'' no_erc721_rows) = (c', w') \<and>
    exact_721 (tables w') \<and> tables w' = sample_721 3"
proof -
  obtain c' w' where run: "eachS (erc721_PutBlock sample_nft no_faults) [nft_block 3 [transfer_topic, []]]
      (no_contracts, nft_world ''erc721'' no_erc721_rows) = (Inr (), c', w')" and t: "tables w' = sample_721 3"
    using sample_721_run by blast
  then have "fold (\<lambda>(env, f, blk) s. snd (erc721_PutBlock env f blk s))
      [(sample_nft, no_faults, nft_block 3 [transfer_topic, []])] (no_contracts, nft_world ''erc721'' no_erc721_rows) = (c', w')"
    by (auto simp: bindS_def split: prod.splits sum.splits)
  moreover have "exact_721 (tables (nft_world ''erc721'' no_erc721_rows))"
    by (simp add: exact_721_def nft_world_def no_erc721_rows_def parties_721_def)
  ultimately show ?thesis using erc721_holders_exact t by blast
qed

lemma sample_v2_run:
  "\<exists>p' w'. erc721_v2_PutBlocks id sample_nft no_faults [nft_block 3 [transfer_topic, []]]
     ((no_contracts, no_erc721_rows), nft_world ''erc721_2.2.3'' t) = (Inr (), p', w') \<and>
   n_transfers (tables w') = n_transfers t @ n_transfers (sample_721 3)"
proof -
  let ?blk = "nft_block 3 [transfer_topic, []]"
  have "gated_pure_block (\<lambda>l. CheckInterfaceID (te_read sample_nft) ERC721InterfaceID (log_address l))
      (erc721_rows_of map_add_holder sample_nft) ?blk no_erc721_rows = Inr (sample_721 3)"
    unfolding sample_721_pure [symmetric]
    by (rule gated_pure_block_cong, rule verdicts_721 [symmetric]) (simp_all add: sample_verdicts sample_accepted)
  then have "foldE (gated_pure_block (\<lambda>l. CheckInterfaceID (te_read sample_nft) ERC721InterfaceID (log_address l))
      (erc721_rows_of map_add_holder sample_nft)) [?blk] no_erc721_rows = Inr (sample_721 3)" by simp
  from v2_721_run [OF _ _ this, of no_contracts id "nft_world ''erc721_2.2.3'' t"]
  obtain p' w' where "erc721_v2_PutBlocks id sample_nft no_faults [?blk]
      ((no_contracts, no_erc721_rows), nft_world ''erc721_2.2.3'' t) = (Inr (), p', w')"
    and flush: "erc721_v2_flush id (fst p', sample_721 3) t = Inr (tables w')"
    by (fastforce simp: cache_sound_def no_contracts_def nft_world_def)
  moreover have "n_transfers (tables w') = n_transfers t @ n_transfers (sample_721 3)"
    using arg_cong [OF flush, of "\<lambda>x. case x of Inr t \<Rightarrow> n_transfers t"] by (simp add: erc721_v2_flush_def)
  ultimately show ?thesis by blast
qed

theorem erc721_versions_agree_witness:
  "\<exists>c' w' p2 w2'. eachS (erc721_PutBlock sample_nft no_faults) [nft_block 3 [transfer_topic, []]]
      (no_contracts, nft_world ''erc721'' no_erc721_rows) = (Inr (), c', w') \<and>
    erc721_v2_PutBlocks id sample_nft no_faults [nft_block 3 [transfer_topic, []]]
      ((no_contracts, no_erc721_rows), nft_world ''erc721_2.2.3'' no_erc721_rows) = (Inr (), p2, w2') \<and>
    same_721 (of_contract ''io_token'' (tables w')) (of_contract ''io_token'' (tables w2'))"
proof -
  obtain c' w' where run: "eachS (erc721_PutBlock sample_nft no_faults) [nft_block 3 [transfer_topic, []]]
      (no_contracts, nft_world ''erc721'' no_erc721_rows) = (Inr (), c', w')" using sample_721_run by blast
  obtain p2 w2' where run2: "erc721_v2_PutBlocks id sample_nft no_faults [nft_block 3 [transfer_topic, []]]
      ((no_contracts, no_erc721_rows), nft_world ''erc721_2.2.3'' no_erc721_rows) = (Inr (), p2, w2')"
    using sample_v2_run by blast
  have "recognised_alike sample_nft ''io_token'' [nft_block 3 [transfer_topic, []]]"
    using sample_probed(1) by (auto simp: recognised_alike_def sample_declares nft_block_logs intro!: exI [of _ True])
  moreover have "cache_sound check no_contracts" for check by (simp add: cache_sound_def no_contracts_def)
  ultimately have "same_721 (of_contract ''io_token'' (tables w')) (of_contract ''io_token'' (tables w2'))"
    by (intro erc721_versions_agree [OF _ _ _ _ _ run run2]) (simp_all add: same_721_def nft_world_def)
  with run run2 show ?thesis by blast
qed

theorem erc721_v2_repeats_holders_witness:
  "\<exists>p' w'. erc721_v2_PutBlocks id sample_nft no_faults [nft_block 3 [transfer_topic, []]]
      ((no_contracts, no_erc721_rows), nft_world ''erc721_2.2.3'' (sample_721 2)) = (Inr (), p', w') \<and>
    count (mset (n_holders (tables w'))) \<lparr>h2_contract = ''io_token'', h2_holder = ''io_a''\<rparr> = 2"
proof -
  obtain p' w' where run: "erc721_v2_PutBlocks id sample_nft no_faults [nft_block 3 [transfer_topic, []]]
      ((no_contracts, no_erc721_rows), nft_world ''erc721_2.2.3'' (sample_721 2)) = (Inr (), p', w')"
    and t: "n_transfers (tables w') = n_transfers (sample_721 2) @ n_transfers (sample_721 3)" using sample_v2_run by fastforce
  have "count (mset (n_holders (tables w'))) h = count (mset (n_holders (sample_721 2))) h +
      (if h \<in> parties_721 (n_transfers (sample_721 3)) then 1 else 0)" for h
    using erc721_v2_repeats_holders [of id, OF _ run, of h] by (simp add: t nft_world_def)
  then have "count (mset (n_holders (tables w'))) \<lparr>h2_contract = ''io_token'', h2_holder = ''io_a''\<rparr> = 2"
    by (simp add: sample_721_def parties_721_def)
  with run show ?thesis by blast
qed

theorem topicless_log_stops_v2_witness:
  "isl (fst (erc721_v2_PutBlocks id sample_nft no_faults [nft_block 3 []]
      ((no_contracts, no_erc721_rows), nft_world ''erc721_2.2.3'' no_erc721_rows)))"
  using topicless_log_stops_v2 [of sample_nft no_contracts "\<lparr>log_address = ''io_token'', log_topics = [], log_data = []\<rparr>"
      "nft_block 3 []" "[nft_block 3 []]" id no_faults no_erc721_rows "nft_world ''erc721_2.2.3'' no_erc721_rows"]
  by (simp add: sample_declares nft_block_logs cache_sound_def no_contracts_def)

theorem erc1155_versions_agree_witness:
  "\<exists>c' w' p2 w2'. eachS (erc1155_PutBlock sample_nft no_faults) [nft_block 3 [single_topic, []]]
      (no_contracts, nft_world ''erc1155'' no_erc1155_rows) = (Inr (), c', w') \<and>
    erc1155_v2_PutBlocks sample_nft no_faults [nft_block 3 [single_topic, []]]
      ((no_contracts, no_erc1155_rows), nft_world ''erc1155_2.2.2'' no_erc1155_rows) = (Inr (), p2, w2') \<and>
    tables w2' = tables w' \<and> map sm_value (m_single (tables w')) = [7]"
proof -
  have sound: "cache_sound check no_contracts" for check by (simp add: cache_sound_def no_contracts_def)
  have "\<exists>t. gated_pure_block (\<lambda>l. Inr (probed_1155 sample_nft l)) (erc1155_create sample_nft) (nft_block 3 [single_topic, []])
      no_erc1155_rows = Inr t \<and> map sm_value (m_single t) = [7]"
    using sample_probed(2) sample_topics_nft(2,5)
    by (simp add: gated_pure_block_def nft_block_def gated_pure_def erc1155_create_def erc1155_rows_of_def idx_def)
      (simp add: sample_nft_def no_erc1155_rows_def erc1155_single_row_def)
  then obtain t where t: "foldE (gated_pure_block (\<lambda>l. Inr (probed_1155 sample_nft l)) (erc1155_create sample_nft))
      [nft_block 3 [single_topic, []]] (tables (nft_world ''erc1155'' no_erc1155_rows)) = Inr t"
    and seven: "map sm_value (m_single t) = [7]" by (auto simp: nft_world_def)
  from tx_batch_runs [OF probed_1155_decides sound t, of "''erc1155''"] obtain c' w'
    where run: "eachS (erc1155_PutBlock sample_nft no_faults) [nft_block 3 [single_topic, []]]
      (no_contracts, nft_world ''erc1155'' no_erc1155_rows) = (Inr (), c', w')" and w': "tables w' = t"
    unfolding erc1155_PutBlock_def by blast
  have "tables (nft_world ''erc1155'' no_erc1155_rows) = tables (nft_world ''erc1155_2.2.2'' no_erc1155_rows)"
    by (simp add: nft_world_def)
  moreover have "same_verdict_1155 sample_nft l \<and> \<not> ne_refused sample_nft l"
    if "l \<in> read_logs (nft_block 3 [single_topic, []])" for l
    using that by (simp add: sample_verdicts sample_accepted)
  ultimately show ?thesis
    using erc1155_versions_agree [OF sound sound _ _ _ run] run seven w' by fastforce
qed

end
