(* ===== verification/GasBurned.thy ===== *)
theory GasBurned
  imports IndexStore
begin

text \<open>
  plugins/gas_burned/gas_burned.go: the worker that keeps the total of burned gas fees in the store,
  summing windows of a million heights of block_receipt_transactions. The JSON of the stored state is
  a parameter, with the law that it is read back as written; every statement may be refused.
\<close>

record gas_row =
  gr_height :: u64
  gr_type :: string
  gr_amount :: int

record burned_codec =
  bc_marshal :: "u64 \<times> int \<Rightarrow> string"
  bc_unmarshal :: "string \<Rightarrow> (u64 \<times> int) res"

text \<open>Which statements of one call are answered; a window is named by the height it starts after.\<close>

record burned_faults =
  bf_now :: int
  bf_get :: bool
  bf_max :: bool
  bf_sum :: "u64 \<Rightarrow> bool"
  bf_save :: "u64 \<Rightarrow> bool"

type_synonym store = "string \<rightharpoonup> store_row"

definition burned_key :: string where
  "burned_key = ''total_burned_gasfee''"

definition gasFeeType :: string where
  "gasFeeType = ''gasFee''"

definition chunkSize :: u64 where
  "chunkSize = 1000000"

definition loadState :: "burned_codec \<Rightarrow> burned_faults \<Rightarrow> store \<Rightarrow> (u64 \<times> int) res" where
  "loadState cd f s =
     (if \<not> bf_get f then Inl DbError
      else case Store_Get burned_key s of
             Inl e \<Rightarrow> if e = RecordNotFound then Inr (0, 0) else Inl e
           | Inr r \<Rightarrow> bc_unmarshal cd (sr_value r))"

definition saveState :: "burned_codec \<Rightarrow> int \<Rightarrow> u64 \<times> int \<Rightarrow> store \<Rightarrow> store" where
  "saveState cd now st s = Store_Save now burned_key (bc_marshal cd st) s"

definition max_height :: "gas_row list \<Rightarrow> u64" where
  "max_height t = fold (\<lambda>r m. max (gr_height r) m) t 0"

definition sum_window :: "gas_row list \<Rightarrow> u64 \<Rightarrow> u64 \<Rightarrow> int" where
  "sum_window t lo hi =
     sum_list (map gr_amount (filter (\<lambda>r. gr_type r = gasFeeType \<and> lo < gr_height r \<and> gr_height r \<le> hi) t))"

text \<open>The loop over the windows. The fuel is one more than the windows it may take.\<close>

fun track_loop ::
  "nat \<Rightarrow> burned_codec \<Rightarrow> burned_faults \<Rightarrow> gas_row list \<Rightarrow> u64 \<Rightarrow> u64 \<Rightarrow> int \<Rightarrow> store \<Rightarrow>
   (unit res \<times> store) option" where
  "track_loop 0 cd f t target since amount s = None"
| "track_loop (Suc n) cd f t target since amount s =
     (if \<not> since < target then Some (Inr (), s)
      else let to = (if target < since + chunkSize then target else since + chunkSize)
           in if \<not> bf_sum f since then Some (Inl DbError, s)
              else let amount' = amount + sum_window t since to
                   in if \<not> bf_save f since then Some (Inl DbError, s)
                      else track_loop n cd f t target to amount' (saveState cd (bf_now f) (to, amount') s))"

definition track ::
  "nat \<Rightarrow> burned_codec \<Rightarrow> burned_faults \<Rightarrow> gas_row list \<Rightarrow> store \<Rightarrow> (unit res \<times> store) option" where
  "track n cd f t s =
     (case loadState cd f s of
        Inl e \<Rightarrow> Some (Inl e, s)
      | Inr (since, amount) \<Rightarrow>
          if \<not> bf_max f then Some (Inl DbError, s)
          else if max_height t \<le> since then Some (Inr (), s)
          else track_loop n cd f t (max_height t) since amount s)"

subsection \<open>What is stored\<close>

definition codec_ok :: "burned_codec \<Rightarrow> bool" where
  "codec_ok cd \<longleftrightarrow> (\<forall>st. bc_unmarshal cd (bc_marshal cd st) = Inr st)"

definition stored :: "burned_codec \<Rightarrow> store \<Rightarrow> (u64 \<times> int) res" where
  "stored cd s = (case s burned_key of None \<Rightarrow> Inr (0, 0) | Some r \<Rightarrow> bc_unmarshal cd (sr_value r))"

definition burned_upto :: "burned_codec \<Rightarrow> gas_row list \<Rightarrow> store \<Rightarrow> bool" where
  "burned_upto cd t s \<longleftrightarrow> (\<exists>h. stored cd s = Inr (h, sum_window t 0 h) \<and> h \<le> max_height t)"

lemma loadState_stored: "loadState cd f s = (if bf_get f then stored cd s else Inl DbError)"
  by (simp add: loadState_def stored_def Store_Get_def split: option.splits)

lemma stored_saveState: "codec_ok cd \<Longrightarrow> stored cd (saveState cd now st s) = Inr st"
  by (cases st) (auto simp: stored_def saveState_def Store_Save_def codec_ok_def split: option.splits)

lemma sum_window_split:
  "a \<le> b \<Longrightarrow> b \<le> c \<Longrightarrow> sum_window t a b + sum_window t b c = sum_window t a c"
  by (induction t) (auto simp: sum_window_def)

lemma sum_window_empty [simp]: "sum_window t a a = 0"
  by (induction t) (auto simp: sum_window_def)

lemma max_height_ge: "m \<le> fold (\<lambda>r m. max (gr_height r) m) t m"
proof (induction t arbitrary: m)
  case (Cons r t)
  show ?case
    using Cons.IH [of "max (gr_height r) m"] by simp
qed simp

lemma chunk_advances:
  assumes "since < target" and "unat target + 1000000 < 2 ^ 64"
  defines "to \<equiv> (if target < since + chunkSize then target else since + chunkSize)"
  shows "since < to" and "to \<le> target" and "unat target - unat to \<le> unat target - unat since - 1000000"
proof -
  have "unat since < unat target"
    using assms(1) by (simp add: word_less_nat_alt)
  then have "unat (since + chunkSize) = unat since + 1000000"
    using assms(2) by (simp add: chunkSize_def unat_word_ariths)
  then show "since < to" and "to \<le> target" and "unat target - unat to \<le> unat target - unat since - 1000000"
    using assms(1) by (auto simp: to_def word_less_nat_alt word_le_nat_alt)
qed

lemma track_loop_sums:
  assumes "codec_ok cd" and "unat target + 1000000 < 2 ^ 64" and "target \<le> max_height t"
    and "unat target - unat since + 1000000 \<le> n * 1000000" and "since \<le> target"
    and "stored cd s = Inr (since, amount)" and "amount = sum_window t 0 since"
  shows "\<exists>r s'. track_loop n cd f t target since amount s = Some (r, s') \<and> burned_upto cd t s'
    \<and> (r = Inr () \<longrightarrow> stored cd s' = Inr (target, sum_window t 0 target))"
  using assms(4-7)
proof (induction n arbitrary: since amount s)
  case 0
  then show ?case by simp
next
  case (Suc n)
  have here: "burned_upto cd t s"
    using Suc.prems assms(3) by (auto simp: burned_upto_def)
  show ?case
  proof (cases "since < target \<and> bf_sum f since \<and> bf_save f since")
    case False
    then show ?thesis
      using here Suc.prems by (auto simp: Let_def)
  next
    case True
    define to' where "to' = (if target < since + chunkSize then target else since + chunkSize)"
    define a' where "a' = amount + sum_window t since to'"
    note adv = chunk_advances [OF conjunct1 [OF True] assms(2), folded to'_def]
    have fuel: "unat target - unat to' + 1000000 \<le> n * 1000000"
      using adv(3) Suc.prems(1) True by (cases n) (auto simp: word_less_nat_alt)
    have "a' = sum_window t 0 to'"
      using sum_window_split [of 0 since to' t] adv(1) Suc.prems(4) by (simp add: a'_def less_imp_le)
    then have "\<exists>r s'. track_loop n cd f t target to' a' (saveState cd (bf_now f) (to', a') s) = Some (r, s')
        \<and> burned_upto cd t s' \<and> (r = Inr () \<longrightarrow> stored cd s' = Inr (target, sum_window t 0 target))"
      by (intro Suc.IH fuel adv(2) stored_saveState [OF assms(1)])
    then show ?thesis
      using True by (simp add: Let_def flip: to'_def a'_def)
  qed
qed

text \<open>
  A call returns with enough fuel for the heights there are, keeps the stored total equal to the fees
  up to the stored height, and, where no statement is refused, has reached the last height.
\<close>

definition burned_fuel :: "gas_row list \<Rightarrow> nat" where
  "burned_fuel t = unat (max_height t) div 1000000 + 2"

lemma windows_enough: "(m::nat) - k + 1000000 \<le> (m div 1000000 + 2) * 1000000"
proof -
  have "m mod 1000000 < 1000000"
    by simp
  moreover have "m div 1000000 * 1000000 + m mod 1000000 = m"
    by (rule div_mult_mod_eq)
  ultimately have "m < m div 1000000 * 1000000 + 1000000"
    by linarith
  then show ?thesis
    by (simp add: distrib_right)
qed

lemma burned_fuel_enough: "unat (max_height t) - k + 1000000 \<le> burned_fuel t * 1000000"
  unfolding burned_fuel_def by (rule windows_enough)

theorem track_total:
  assumes "codec_ok cd" and "unat (max_height t) + 1000000 < 2 ^ 64" and "burned_upto cd t s"
  shows "\<exists>r s'. track (burned_fuel t) cd f t s = Some (r, s') \<and> burned_upto cd t s'
    \<and> (r = Inr () \<longrightarrow> stored cd s' = Inr (max_height t, sum_window t 0 (max_height t)))"
proof -
  from assms(3) obtain h where h: "stored cd s = Inr (h, sum_window t 0 h)" "h \<le> max_height t"
    by (auto simp: burned_upto_def)
  have loop: "\<exists>r s'. track_loop (burned_fuel t) cd f t (max_height t) h (sum_window t 0 h) s = Some (r, s')
      \<and> burned_upto cd t s'
      \<and> (r = Inr () \<longrightarrow> stored cd s' = Inr (max_height t, sum_window t 0 (max_height t)))"
    by (rule track_loop_sums [OF assms(1,2) order_refl burned_fuel_enough h(2) h(1) refl])
  show ?thesis
  proof (cases "bf_get f \<and> bf_max f \<and> h < max_height t")
    case True
    then have "\<not> max_height t \<le> h"
      by (simp add: not_le)
    then show ?thesis
      using True loop h by (simp add: track_def loadState_stored)
  next
    case False
    then show ?thesis
      using assms(3) h by (auto simp: track_def loadState_stored)
  qed
qed

text \<open>Rows of later blocks do not disturb the total, so the law holds from one tick to the next.\<close>

lemma max_height_append: "max_height t \<le> max_height (t @ u)"
  by (simp add: max_height_def max_height_ge)

lemma sum_window_append: "sum_window (t @ u) a b = sum_window t a b + sum_window u a b"
  by (simp add: sum_window_def)

lemma later_rows_outside:
  "(\<And>r. r \<in> set u \<Longrightarrow> b < gr_height r) \<Longrightarrow> sum_window u a b = 0"
proof (induction u)
  case (Cons r u)
  have "b < gr_height r"
    by (rule Cons.prems) simp
  then have "\<not> gr_height r \<le> b"
    by (simp add: not_le)
  moreover have "sum_window u a b = 0"
    by (rule Cons.IH) (simp add: Cons.prems)
  ultimately show ?case
    by (simp add: sum_window_def)
qed (simp add: sum_window_def)

lemma burned_upto_grows:
  assumes "burned_upto cd t s" and "\<And>r. r \<in> set u \<Longrightarrow> max_height t < gr_height r"
  shows "burned_upto cd (t @ u) s"
proof -
  from assms(1) obtain h where h: "stored cd s = Inr (h, sum_window t 0 h)" "h \<le> max_height t"
    by (auto simp: burned_upto_def)
  then have "sum_window u 0 h = 0"
    by (intro later_rows_outside) (meson assms(2) le_less_trans)
  then show ?thesis
    using h max_height_append [of t u] by (auto simp: burned_upto_def sum_window_append)
qed

lemma burned_upto_start: "burned_upto cd t (\<lambda>_. None)"
  by (simp add: burned_upto_def stored_def)

subsection \<open>Ticks\<close>

text \<open>Between two calls of the worker the index has appended rows of later heights.\<close>

fun ticks :: "burned_codec \<Rightarrow> (gas_row list \<times> burned_faults) list \<Rightarrow> gas_row list \<times> store \<Rightarrow> (gas_row list \<times> store) option" where
  "ticks cd [] w = Some w"
| "ticks cd ((u, f) # us) (t, s) =
     (case track (burned_fuel (t @ u)) cd f (t @ u) s of
        None \<Rightarrow> None
      | Some (r, s') \<Rightarrow> ticks cd us (t @ u, s'))"

fun in_order :: "gas_row list \<Rightarrow> gas_row list list \<Rightarrow> bool" where
  "in_order t [] = True"
| "in_order t (u # us) =
     ((\<forall>r \<in> set u. max_height t < gr_height r) \<and> unat (max_height (t @ u)) + 1000000 < 2 ^ 64
      \<and> in_order (t @ u) us)"

theorem burned_total_every_tick:
  assumes "codec_ok cd" and "in_order t (map fst us)" and "burned_upto cd t s"
  shows "\<exists>t' s'. ticks cd us (t, s) = Some (t', s') \<and> burned_upto cd t' s'"
  using assms(2,3)
proof (induction us arbitrary: t s)
  case Nil
  then show ?case by simp
next
  case (Cons x us)
  obtain u f where [simp]: "x = (u, f)" by (cases x)
  have "burned_upto cd (t @ u) s"
    using Cons.prems by (intro burned_upto_grows) auto
  then obtain r s' where "track (burned_fuel (t @ u)) cd f (t @ u) s = Some (r, s')" "burned_upto cd (t @ u) s'"
    using track_total [OF assms(1), of "t @ u" s f] Cons.prems(1) by auto
  then show ?case
    using Cons.IH [of "t @ u" s'] Cons.prems(1) by simp
qed

end
