(* ===== verification/Authorization.thy ===== *)
theory Authorization
  imports Prelude "HOL-Library.Sublist"
begin

text \<open>
  kernel/authorization_validity.go: would the chain have accepted an EIP-7702 authorization in the
  block that holds it? The archive node is a parameter. It is asked at most three times per question;
  which attempts fail, and after which ones the context is done, is free.
\<close>

definition validityMaxRetries :: nat where
  "validityMaxRetries = 3"

definition delegationDesignatorPrefix :: "byte list" where
  "delegationDesignatorPrefix = [0xef, 0x01, 0x00]"

text \<open>
  The client (\<open>EthArchiveClient\<close>) may not be available. An attempt is numbered from 0; a block number
  \<open>None\<close> is nil, the latest block. \<open>an_done k\<close>: the context is done in the wait before attempt \<open>k\<close>.
\<close>

record archive_node =
  an_client_ok :: bool
  an_code_at :: "nat \<Rightarrow> string \<Rightarrow> u64 option \<Rightarrow> byte list res"
  an_nonce_at :: "nat \<Rightarrow> string \<Rightarrow> u64 option \<Rightarrow> u64 res"
  an_done_code :: "nat \<Rightarrow> bool"
  an_done_nonce :: "nat \<Rightarrow> bool"

text \<open>The loop of both calls, from attempt \<open>k\<close> with \<open>n\<close> attempts left.\<close>

fun retry :: "(nat \<Rightarrow> bool) \<Rightarrow> (nat \<Rightarrow> 'a res) \<Rightarrow> nat \<Rightarrow> nat \<Rightarrow> go_error \<Rightarrow> 'a res" where
  "retry done_at ask 0 k e = Inl e"
| "retry done_at ask (Suc n) k e =
     (if 0 < k \<and> done_at k then Inl (Err ''context done'')
      else case ask k of Inr x \<Rightarrow> Inr x | Inl e' \<Rightarrow> retry done_at ask n (Suc k) e')"

definition getCodeAtWithRetry :: "archive_node \<Rightarrow> string \<Rightarrow> u64 option \<Rightarrow> byte list res" where
  "getCodeAtWithRetry nd addr num =
     (if \<not> an_client_ok nd then Inl RpcError
      else retry (an_done_code nd) (\<lambda>k. an_code_at nd k addr num) validityMaxRetries 0 RpcError)"

definition getNonceAtWithRetry :: "archive_node \<Rightarrow> string \<Rightarrow> u64 option \<Rightarrow> u64 res" where
  "getNonceAtWithRetry nd addr num =
     (if \<not> an_client_ok nd then Inl RpcError
      else retry (an_done_nonce nd) (\<lambda>k. an_nonce_at nd k addr num) validityMaxRetries 0 RpcError)"

definition EVMNetworkID :: "u32 \<Rightarrow> u32 res" where
  "EVMNetworkID n = (if n = 0 then Inl (Panic ''EVM network ID is not set'') else Inr n)"

definition preBlockNum :: "u64 \<Rightarrow> u64 option" where
  "preBlockNum h = (if 0 < h then Some (h - 1) else None)"

text \<open>The chain id is a 256-bit integer, of which \<open>Uint64\<close> reads the low 64 bits, or nil.\<close>

definition ComputeAuthorizationValidity ::
  "archive_node \<Rightarrow> u32 \<Rightarrow> string \<Rightarrow> u64 \<Rightarrow> 256 word option \<Rightarrow> u64 \<Rightarrow> bool res" where
  "ComputeAuthorizationValidity nd network authority h chainID authNonce =
     bindE (EVMNetworkID network) (\<lambda>n.
       if (case chainID of None \<Rightarrow> False | Some c \<Rightarrow> c \<noteq> 0 \<and> (ucast c :: u64) \<noteq> ucast n)
       then Inr False
       else bindE (getCodeAtWithRetry nd authority (preBlockNum h)) (\<lambda>code.
              if code \<noteq> [] \<and> \<not> prefix delegationDesignatorPrefix code then Inr False
              else bindE (getNonceAtWithRetry nd authority (preBlockNum h)) (\<lambda>nonce.
                     Inr (nonce = authNonce))))"

subsection \<open>The rules\<close>

definition accepted :: "u32 \<Rightarrow> 256 word option \<Rightarrow> byte list \<Rightarrow> u64 \<Rightarrow> u64 \<Rightarrow> bool" where
  "accepted network chainID code nonce authNonce \<longleftrightarrow>
     (\<forall>c. chainID = Some c \<longrightarrow> c = 0 \<or> unat c = unat network)
     \<and> (code = [] \<or> take 3 code = [0xef, 0x01, 0x00]) \<and> nonce = authNonce"

lemma retry_answer:
  "retry d ask n k e = Inr x \<Longrightarrow> \<exists>j. k \<le> j \<and> j < k + n \<and> ask j = Inr x"
proof (induction n arbitrary: k e)
  case 0
  then show ?case by simp
next
  case (Suc n)
  show ?case
  proof (cases "ask k")
    case (Inl e')
    then have "retry d ask n (Suc k) e' = Inr x"
      using Suc.prems by (simp split: if_splits)
    then obtain j where "Suc k \<le> j" "j < Suc k + n" "ask j = Inr x"
      using Suc.IH by blast
    then show ?thesis
      by (intro exI [of _ j]) simp
  next
    case (Inr y)
    then show ?thesis
      using Suc.prems by (intro exI [of _ k]) (simp split: if_splits)
  qed
qed

lemma retry_succeeds:
  assumes "\<And>j. \<not> d j" and "k \<le> j" and "j < k + n" and "ask j = Inr x"
  shows "\<exists>y. retry d ask n k e = Inr y"
  using assms(2,3)
proof (induction n arbitrary: k e)
  case 0
  then show ?case by simp
next
  case (Suc n)
  show ?case
  proof (cases "ask k")
    case (Inl e')
    then have "j \<noteq> k"
      using assms(4) by auto
    then have "Suc k \<le> j" and "j < Suc k + n"
      using Suc.prems by simp_all
    then show ?thesis
      using Suc.IH [of "Suc k" e'] Inl assms(1) by simp
  qed (simp add: assms(1))
qed

lemma designator_prefix:
  "prefix delegationDesignatorPrefix code \<longleftrightarrow> take 3 code = [0xef, 0x01, 0x00]"
proof
  assume "take 3 code = [0xef, 0x01, 0x00]"
  then have "code = delegationDesignatorPrefix @ drop 3 code"
    using append_take_drop_id [of 3 code] by (simp add: delegationDesignatorPrefix_def)
  then show "prefix delegationDesignatorPrefix code"
    by (rule prefixI)
qed (auto simp: delegationDesignatorPrefix_def prefix_def)

lemma low_bits:
  fixes c :: "256 word" and n :: u32
  assumes "unat c < 2 ^ 64"
  shows "(ucast c :: u64) = ucast n \<longleftrightarrow> unat c = unat n"
proof -
  have "unat n < 2 ^ 64"
    using unsigned_less [of n, where ?'a = nat] by simp
  then show ?thesis
    using assms by (simp add: word_unat_eq_iff unsigned_ucast_eq take_bit_nat_eq_self)
qed

text \<open>
  Every answer of the node that is not an error is the state at the block before. Then a verdict is
  the one of the three rules, for chain ids below \<open>2 ^ 64\<close>, whatever attempts failed before.
\<close>

definition answers_from :: "archive_node \<Rightarrow> string \<Rightarrow> u64 option \<Rightarrow> byte list \<Rightarrow> u64 \<Rightarrow> bool" where
  "answers_from nd a num code nonce \<longleftrightarrow>
     (\<forall>k x. an_code_at nd k a num = Inr x \<longrightarrow> x = code)
     \<and> (\<forall>k x. an_nonce_at nd k a num = Inr x \<longrightarrow> x = nonce)"

lemma code_answer: "answers_from nd a num code nonce \<Longrightarrow> getCodeAtWithRetry nd a num = Inr x \<Longrightarrow> x = code"
  by (auto simp: getCodeAtWithRetry_def answers_from_def split: if_splits dest!: retry_answer)

lemma nonce_answer: "answers_from nd a num code nonce \<Longrightarrow> getNonceAtWithRetry nd a num = Inr x \<Longrightarrow> x = nonce"
  by (auto simp: getNonceAtWithRetry_def answers_from_def split: if_splits dest!: retry_answer)

theorem validity_verdict:
  assumes "answers_from nd a (preBlockNum h) code nonce"
    and "\<And>c. chainID = Some c \<Longrightarrow> unat c < 2 ^ 64"
    and "ComputeAuthorizationValidity nd network a h chainID authNonce = Inr b"
  shows "b = accepted network chainID code nonce authNonce"
proof -
  have low: "(case chainID of None \<Rightarrow> False | Some c \<Rightarrow> c \<noteq> 0 \<and> (ucast c :: u64) \<noteq> ucast network)
      \<longleftrightarrow> \<not> (\<forall>c. chainID = Some c \<longrightarrow> c = 0 \<or> unat c = unat network)"
    using assms(2) by (cases chainID) (auto simp: low_bits)
  from assms(3) show ?thesis
    by (auto simp: ComputeAuthorizationValidity_def EVMNetworkID_def low accepted_def designator_prefix
          bindE_eq_Inr split: if_splits dest: code_answer [OF assms(1)] nonce_answer [OF assms(1)])
qed

text \<open>One answered attempt of each call is enough for a verdict while the context lives.\<close>

theorem validity_decides:
  assumes "network \<noteq> 0" and "an_client_ok nd"
    and "\<And>k. \<not> an_done_code nd k" and "\<And>k. \<not> an_done_nonce nd k"
    and "i < 3" "an_code_at nd i a (preBlockNum h) = Inr c"
    and "j < 3" "an_nonce_at nd j a (preBlockNum h) = Inr m"
  shows "\<exists>b. ComputeAuthorizationValidity nd network a h chainID authNonce = Inr b"
proof -
  obtain x where x: "getCodeAtWithRetry nd a (preBlockNum h) = Inr x"
    using retry_succeeds [of "an_done_code nd" 0 i validityMaxRetries "\<lambda>k. an_code_at nd k a (preBlockNum h)" _ RpcError] assms
    by (auto simp: getCodeAtWithRetry_def validityMaxRetries_def)
  obtain y where y: "getNonceAtWithRetry nd a (preBlockNum h) = Inr y"
    using retry_succeeds [of "an_done_nonce nd" 0 j validityMaxRetries "\<lambda>k. an_nonce_at nd k a (preBlockNum h)" _ RpcError] assms
    by (auto simp: getNonceAtWithRetry_def validityMaxRetries_def)
  show ?thesis
    using assms(1) x y by (auto simp: ComputeAuthorizationValidity_def EVMNetworkID_def)
qed

text \<open>
  The comparison is on the low 64 bits: a chain id above them passes the first rule when those bits
  are the network's, although it does not match.
\<close>

theorem chain_id_is_cut:
  "(\<forall>nd h nonce. ComputeAuthorizationValidity nd 4689 ''io1'' h (Some (2 ^ 64 + 4689)) nonce
     = ComputeAuthorizationValidity nd 4689 ''io1'' h (Some 4689) nonce)
   \<and> \<not> accepted 4689 (Some (2 ^ 64 + 4689)) [] n n"
  by (simp add: ComputeAuthorizationValidity_def EVMNetworkID_def accepted_def)

end
