(* ===== verification/Spec2Isabelle.thy ===== *)
theory Spec2Isabelle
  imports Wiring HermesReward VoterProps SystemStaking AccountIncomeV1 BlockSupply TokenHoldersV1
    StakingActionsChTwin RewardHistory BlockMeta HermesProps InscriptionProps TokenTablesProps
    GasBurned Authorization
begin

text \<open>
  A model of iotex-analyser, the indexer of the IoTeX chain.

  What the program does. A server process reads blocks from a block database or a node and
  hands them to plugins. Every plugin turns the actions, receipts and logs of a block into
  rows of its own tables and records how far it came in the table index_heights. Plugins are
  loaded and unloaded at run time, may depend on other plugins, and are replayed after an
  error. Correctness rests on three things: that each block reaches each plugin exactly once
  and in order, that the handlers of the plugins keep the meaning of their tables, and that
  the queries over the tables read what the handlers meant.

  The theories, from the bottom up.

    \<^item> Prelude: the result type \<open>'a res\<close> with the errors of Go code (a panic is the error
      \<open>Panic\<close>), the loops \<open>foldE\<close>, Go's slice access, big-endian words, hex, and queries over
      tables, which are lists of rows in the order of their ids.
    \<^item> IndexStore: db/index.go, db/db.go, db/store.go. A \<open>world\<close> is what a plugin's transaction
      can change: its tables, the committed index heights and the process-wide cache of them.
      \<open>index_tx\<close> is the transaction every plugin runs, with the statements the database refuses
      as \<open>tx_faults\<close>.
    \<^item> GoFloat: float64 and big.Float as mantissa and exponent with rounding to nearest even.
    \<^item> BatchSize: server/batch_size_manager.go and \<open>fetchBlocks\<close> of server/runner.go.
    \<^item> Chain: actions, receipts, logs and blocks as the handlers see them; base-10 numbers; the
      loop over receipts (\<open>on_receipts\<close>); kernel/action_type.go.
    \<^item> BlockSource: kernel/block.go.
    \<^item> PluginService: server/service.go and the registry of server/runner.go, as a state machine
      (\<open>svc_step\<close>) of loads, unloads, the steps of a refresh and status updates.
    \<^item> Runner: \<open>runner.Start\<close>, with the fetch and put halves of a round, the inner and the outer
      loop. The locales \<open>block_sink\<close> and \<open>height_sink\<close> state what the runner relies on when it
      calls a plugin, and the lemmas of the loop are proved in them.
    \<^item> TxSink: the PutBlock and PutBlocks that the transactional plugins share, as an
      interpretation of \<open>height_sink\<close>, and what the runner makes of such a plugin.
    \<^item> Ledger: the queries that the staking plugins ask of their ledgers, the view of a ledger as
      buckets, and the locale \<open>block_table\<close> of tables that a block only adds rows to.
    \<^item> StakingLog (service/stakinglog/bucketindex.go), RewardLog (kernel/reward.go), VoteBuckets
      (the paging of GetStakingBucketByID): readers of receipts and of the node's state.
    \<^item> Candidates (models/candidate.go, plugins/candidate), Slash (models/slash.go,
      models/candidate_self_stake.go, plugins/slash), SelfStake (kernel/staking_event.go,
      plugins/candidate_self_stake), StakingBucket (service/staking_bucket), StakingActions
      (service/staking_actions), AccountVote (plugins/account_vote): the staking plugins. Each
      has a record for its rows, one definition per action of its handler, the handler, and
      PutBlocks as an interpretation of \<open>height_sink\<close>.
    \<^item> Wiring: PutBlock and PutBlocks of the remaining plugins, their dependencies, and the order
      that dependencies impose on the index heights.
    \<^item> HermesReward (service/hermes_reward/rebuild.go): the split of delegate rewards. HermesVotes,
      HermesLogs and HermesPlugin (plugins/hermes, plugins/hermes_retention): the votes of an epoch
      per voter and per bucket, the portions read from the logs of the profile contract, and
      PutBlocks, which holds distributions back until an epoch block flushes them. HermesSums and
      HermesProps hold the lemmas.
    \<^item> VoterDecode (service/voter_reward/decode.go, util.go), VoterState (candidates.go,
      statereader.go), VoterReward (plugin.go, models/voter_reward.go): the voter reward plugin,
      whose state has pending rows, eras and configurations, memos of what was read, and a
      commit that promotes or drops them. VoterLedger, VoterBooks and VoterProps hold its lemmas:
      what is pending, what a commit writes, and the properties of whole batches.
    \<^item> SystemStaking (kernel/systemstaking/util.go and the three plugins
      system_staking_bucket_record, _v2_record, _v3_record): one handler with a record of what
      tells the versions apart.
    \<^item> BufferedSink: the plugins that gather rows in memory and write them in one transaction, as
      the locale \<open>buffered_sink\<close>. AccountIncome and AccountIncomeV1 (plugins/account_income and
      account_income_v1) and BlockSupply (plugins/block_supply) are interpretations of it.
    \<^item> TokenHolders, TokenEvents, TokenProps (plugins/erc1155_721_holder_v2, kernel/abi.go) and
      TokenHoldersV1 (plugins/erc1155_721_holder): who holds which token. The later version works a
      batch out in memory, the earlier writes every event.
    \<^item> Erc20 and Erc20Props (plugins/erc20, erc20_v2, erc20_ch), TokenTables and TokenTablesProps
      (plugins/erc721, erc721_v2, erc721_v2_ch, erc1155, erc1155_v2): the transfers, approvals and
      holders of tokens. The plugins of a standard read a log in the same way; they differ in which
      contracts they take for tokens and in how long they keep rows before they write them.
    \<^item> LruCache, StakingActionsCh, StakingActionsChProps, StakingActionsChTwin
      (plugins/staking_actions_ch): the staking ledger in ClickHouse with its cache of bucket
      aggregates, a reference without the cache, and the comparison with StakingActions.
    \<^item> RowSink: the plugins that only append rows, as the locale \<open>row_sink\<close> on top of
      \<open>buffered_sink\<close>. EpochLists (kernel/epoch.go, plugins/candidatelist, plugins/probation),
      RewardRows (plugins/block_reward), RewardHistory (plugins/reward_history) and BlockMeta
      (plugins/block_meta, block_meta_v2) use it.
    \<^item> DataUri, Inscription and InscriptionProps (plugins/inscription, models/inscription.go): the
      regular expression of data URIs as a backtracking matcher, and the inscriptions and tokens of
      a block, whose maps stand for rows that are not written yet.
    \<^item> GasBurned (plugins/gas_burned): the total of burned gas fees, summed in windows of heights
      and kept in the store. Authorization (kernel/authorization_validity.go): the rules by which
      an authorization is valid, over an archive node whose calls are retried.

  How state and operations correspond. A table is the list of its rows, ordered by id, so
  \<open>Order("id desc").First\<close> and \<open>Last\<close> are the last row that matches and an insert appends. An
  upsert (\<open>ON CONFLICT ... DO UPDATE\<close>) replaces the row with the same key in place. A 64-bit
  height, bucket id or counter is a 64-bit word and wraps; decimal and big.Int amounts are
  integers. A Go map whose iteration order the code does not fix is a list in some order. A
  block handler is a function from the tables to an error or new tables; \<open>tables\<close> of other
  plugins, the node, the ABI of the staking contract, address formats, protobuf decoding,
  \<open>math.Log\<close> and the genesis configuration are fields of the environment records.

  What the groups of lemmas show.

    \<^item> Exactly once and in order: a round of the runner applies one contiguous run of blocks
      behind the committed height, whatever fails (TxSink); cache and committed height agree
      after a commit (IndexStore); a round does not take a runner past a plugin it depends on
      (Wiring); and the loop reaches the tip while nothing fails (TxSink).
    \<^item> Refinement: from the Greenland height on the staking_bucket handler implements the
      specification \<open>spec_handleBlock\<close> of actions on buckets, errors included (StakingBucket). The
      cache of staking_actions_ch (StakingActionsChTwin) and the maps of a block of inscriptions
      (InscriptionProps) are invisible in what is written.
    \<^item> Versions of a plugin agree, where the conditions that the theorems state hold: the two token
      holder plugins (TokenHoldersV1), the two ERC-20 and the two ERC-721 plugins (Erc20Props,
      TokenTablesProps), the staking ledgers in the two databases (StakingActionsChTwin), the
      reward columns of three plugins (BlockMeta), a batch and its blocks one at a time
      (HermesProps, TokenHolders).
    \<^item> Conservation: no action of the two ledgers with outgoing and incoming rows makes or loses
      stake or votes (StakingActions, AccountVote); transfers of inscription tokens to others neither
      make nor destroy them, and an inscription moves by an action of its holder only
      (InscriptionProps).
    \<^item> State machines: the exit queue of candidates (StakingActions) and the registry
      (PluginService).
    \<^item> Books: the era totals of voter rewards agree with their payout rows (VoterProps), the totals
      of account_income with its rows (AccountIncome), the stake a system staking row states with
      the bucket's balance (SystemStaking), and the supply with what summing all incomes gives
      (BlockSupply); the aggregate votes of hermes are sums of bucket votes (HermesSums); the
      holder tables of erc20_v2 and erc721 hold the parties of the stored transfers (Erc20Props,
      TokenTablesProps).
    \<^item> Memory and database: what the voter reward plugin remembers never runs ahead of what is
      committed, and the attribution of an opt-in is only upgraded (VoterProps).
    \<^item> Round trips: durations through storage (SystemStaking), bookkeeping entries through their
      text (VoterDecode), data URIs through the regular expression (DataUri), numbers through decimal
      columns (Chain, BlockSupply).
    \<^item> Readers: rewards, bucket indices, topics and pages are read exactly (RewardLog,
      StakingLog, VoteBuckets), and lookups return the latest record (Candidates, SelfStake).
    \<^item> Replay: attaching transaction logs, slashes and the rebuild of rewards are idempotent
      (BlockSource, Slash, HermesReward); the total of burned gas equals the fees up to the stored
      height after every call, however the calls before it failed (GasBurned).
    \<^item> Behaviour that the code does not mean to have, each with a theorem: a batch skipped after a
      refused commit, lost registrations and unloads, the endless fetch, the batch size that
      cannot grow, updates that go to the wrong candidate, doubled restakes, the cancellation
      without effect, votes and opt-ins booked to bucket 0, the doubled transfer of the shadow
      ledger, the duration an endorsement loses, the voter reward batch that is counted twice when
      it fails half way, the totals of account_income_v1 that miss the first income of a batch,
      the supply that drifts after a failed query, the token that has two holders when it is burned
      and minted again in a batch, the bucket cache that forgets when it is smaller than a batch,
      the names that are blank after a restart, the probation list that panics, the token transfer
      to oneself that mints, the transfer of an inscription that also creates one, the data URI
      whose payload is shifted by a slash, the ERC-20 contract that one refused call forgets, the
      approvals stored twice after a refused insert, the holders that erc721_v2 writes again with
      every batch, the log without topics that stops it, and the chain id that is compared on its
      low 64 bits only.

  Bounds and fuel. \<open>fetchBlocks\<close> has no bound in the code and is a partial function here: \<open>None\<close>
  is a call that does not return, and both its return and its divergence are proved. The
  runner's loops take the number of rounds after which the runner is stopped; the liveness
  theorem says that one round per missing block is enough. Paging through buckets recurs on
  the 32-bit page number; the theorem that it finds a bucket bounds the listing so that the
  offset does not wrap; paging through candidates takes the number of pages as fuel, and any
  number that covers the listing is enough; the windows of burned gas take two more than the
  millions of heights there are. Sizes below \<open>2^53\<close> are exact as float64.

  What is not modelled: connecting to databases and nodes, RPC transport, metrics, logging and
  sleeping; generated contract bindings; the gorm library beyond the statements used (a
  statement answers or is refused). Concurrency is modelled in PluginService, where each RPC
  call, each visit of a refresh and each status update is one step; two loads of one plugin at
  the same time are not interleaved within a call. Of a runner only its own loop is modelled,
  between whose rounds the other plugins' heights may change.

  Not modelled either, with the reason. The snapshots of delegates (plugins/delegate,
  delegate_record, delegate_rewards) write what the node answers and hold no logic of their own
  beyond paging, which VoterState has. The tables of blocks, actions and receipts, and the
  sinks of plugins/clickhouse, copy fields of a block to columns, so that a theorem about them would
  restate the copy. kernel/virtualdao.go keeps blocks in a cache with an expiry in place of a block
  database. The meta plugins of tokens store answers of contracts. The workers for gas prices, coin
  prices, metrics and monitoring talk HTTP, and server, commands and tools are start-up code.
\<close>

end
